(* ===== verification/Prelude.thy ===== *)
theory Prelude
  imports Main "HOL-Library.Char_ord" "HOL-Library.List_Lexorder"
begin

text \<open>
  Shared vocabulary of the development: the fragment of Go's \<^verbatim>\<open>strings\<close>, \<^verbatim>\<open>net/url\<close> and
  \<^verbatim>\<open>sort\<close> packages the sources use, written on byte strings (a Go \<^verbatim>\<open>string\<close> is a sequence
  of bytes, so it is a HOL \<^typ>\<open>string\<close> whose characters are bytes), slices updated in place by
  the first entry with a given key, and a generic interface \<open>codec\<close> for encode/decode pairs.
  Case mapping is ASCII: the strings the sources fold are HTTP methods and header names, which
  are ASCII tokens.
\<close>

named_theorems go_simps "unfolding rules for the Go standard-library fragment"

section \<open>Definitions\<close>

subsection \<open>Results\<close>

text \<open>A fallible Go function \<open>(T, error)\<close> returns \<open>Inr v\<close>, or \<open>Inl e\<close> for its error.\<close>

fun bind_result :: "'e + 'a \<Rightarrow> ('a \<Rightarrow> 'e + 'b) \<Rightarrow> 'e + 'b" where
  "bind_result (Inl e) f = Inl e"
| "bind_result (Inr a) f = f a"

fun map_result :: "('a \<Rightarrow> 'e + 'b) \<Rightarrow> 'a list \<Rightarrow> 'e + 'b list" where
  "map_result f [] = Inr []"
| "map_result f (x # xs) =
     (case f x of Inl e \<Rightarrow> Inl e
      | Inr y \<Rightarrow> (case map_result f xs of Inl e \<Rightarrow> Inl e | Inr ys \<Rightarrow> Inr (y # ys)))"

definition is_ok :: "'e + 'a \<Rightarrow> bool" where
  "is_ok r \<longleftrightarrow> (case r of Inl _ \<Rightarrow> False | Inr _ \<Rightarrow> True)"

subsection \<open>Package time\<close>

text \<open>
  A time is an integer, the nanoseconds since the Unix epoch, so that Go's zero time, January 1 of the
  year 1, is a negative number.  A duration is an integer in the range of an \<open>int64\<close>: arithmetic on
  durations wraps, the difference of two times saturates, and a JWT date keeps whole seconds.
\<close>

definition zeroTime :: int where "zeroTime = - 62135596800 * 1000000000"

definition second :: int where "second = 1000000000"

definition int64 :: "int \<Rightarrow> int" where
  "int64 x = (x + 2 ^ 63) mod 2 ^ 64 - 2 ^ 63"

definition time_Sub :: "int \<Rightarrow> int \<Rightarrow> int" where
  "time_Sub t u = max (- (2 ^ 63)) (min (2 ^ 63 - 1) (t - u))"

definition whole_seconds :: "int \<Rightarrow> int" where
  "whole_seconds t = t div second * second"

subsection \<open>Package strings\<close>

definition HasPrefix :: "string \<Rightarrow> string \<Rightarrow> bool" where
  "HasPrefix s p \<longleftrightarrow> take (length p) s = p"

definition HasSuffix :: "string \<Rightarrow> string \<Rightarrow> bool" where
  "HasSuffix s p \<longleftrightarrow> length p \<le> length s \<and> drop (length s - length p) s = p"

definition TrimPrefix :: "string \<Rightarrow> string \<Rightarrow> string" where
  "TrimPrefix s p = (if HasPrefix s p then drop (length p) s else s)"

definition CutPrefix :: "string \<Rightarrow> string \<Rightarrow> string option" where
  "CutPrefix s p = (if HasPrefix s p then Some (drop (length p) s) else None)"

definition CutSuffix :: "string \<Rightarrow> string \<Rightarrow> string option" where
  "CutSuffix s p = (if HasSuffix s p then Some (take (length s - length p) s) else None)"

text \<open>
  \<^verbatim>\<open>strings.TrimSpace\<close> on UTF-8 bytes: the encodings of the Unicode white-space characters, and their removal
  from either end.
\<close>

definition space_runes :: "string list" where
  "space_runes =
     [[CHR 0x20], [CHR 0x09], [CHR 0x0A], [CHR 0x0B], [CHR 0x0C], [CHR 0x0D], [CHR 0xC2, CHR 0x85], [CHR 0xC2, CHR 0xA0],
      [CHR 0xE1, CHR 0x9A, CHR 0x80], [CHR 0xE2, CHR 0x80, CHR 0x80], [CHR 0xE2, CHR 0x80, CHR 0x81],
      [CHR 0xE2, CHR 0x80, CHR 0x82], [CHR 0xE2, CHR 0x80, CHR 0x83], [CHR 0xE2, CHR 0x80, CHR 0x84],
      [CHR 0xE2, CHR 0x80, CHR 0x85], [CHR 0xE2, CHR 0x80, CHR 0x86], [CHR 0xE2, CHR 0x80, CHR 0x87],
      [CHR 0xE2, CHR 0x80, CHR 0x88], [CHR 0xE2, CHR 0x80, CHR 0x89], [CHR 0xE2, CHR 0x80, CHR 0x8A],
      [CHR 0xE2, CHR 0x80, CHR 0xA8], [CHR 0xE2, CHR 0x80, CHR 0xA9], [CHR 0xE2, CHR 0x80, CHR 0xAF],
      [CHR 0xE2, CHR 0x81, CHR 0x9F], [CHR 0xE3, CHR 0x80, CHR 0x80]]"

function trim_runes :: "string list \<Rightarrow> string \<Rightarrow> string" where
  "trim_runes rs s =
     (case find (\<lambda>p. p \<noteq> [] \<and> HasPrefix s p) rs of None \<Rightarrow> s | Some p \<Rightarrow> trim_runes rs (drop (length p) s))"
  by pat_completeness auto
termination
proof (relation "measure (\<lambda>(rs, s). length s)", goal_cases)
  case (2 rs s p)
  then have "p \<noteq> []" "take (length p) s = p" by (auto simp: find_Some_iff HasPrefix_def)
  then show ?case by (cases s) auto
qed simp

declare trim_runes.simps [simp del]

definition TrimSpace :: "string \<Rightarrow> string" where
  "TrimSpace s = rev (trim_runes (map rev space_runes) (rev (trim_runes space_runes s)))"

text \<open>\<^verbatim>\<open>strings.Split(s, sep)\<close> for a one-byte separator: never the empty slice.\<close>

fun Split :: "char \<Rightarrow> string \<Rightarrow> string list" where
  "Split c [] = [[]]"
| "Split c (x # xs) =
     (if x = c then [] # Split c xs
      else (case Split c xs of [] \<Rightarrow> [[x]] | w # ws \<Rightarrow> (x # w) # ws))"

fun Join :: "string list \<Rightarrow> string \<Rightarrow> string" where
  "Join [] sep = []"
| "Join [w] sep = w"
| "Join (w # v # ws) sep = w @ sep @ Join (v # ws) sep"

text \<open>\<^verbatim>\<open>strings.ReplaceAll\<close> for a one-byte old string.\<close>

definition ReplaceAll :: "string \<Rightarrow> char \<Rightarrow> string \<Rightarrow> string" where
  "ReplaceAll s c r = concat (map (\<lambda>x. if x = c then r else [x]) s)"

definition is_lower :: "char \<Rightarrow> bool" where
  "is_lower c \<longleftrightarrow> CHR ''a'' \<le> c \<and> c \<le> CHR ''z''"

definition is_upper :: "char \<Rightarrow> bool" where
  "is_upper c \<longleftrightarrow> CHR ''A'' \<le> c \<and> c \<le> CHR ''Z''"

definition is_digit :: "char \<Rightarrow> bool" where
  "is_digit c \<longleftrightarrow> CHR ''0'' \<le> c \<and> c \<le> CHR ''9''"

definition upper_char :: "char \<Rightarrow> char" where
  "upper_char c = (if is_lower c then char_of (of_char c - 32 :: nat) else c)"

definition lower_char :: "char \<Rightarrow> char" where
  "lower_char c = (if is_upper c then char_of (of_char c + 32 :: nat) else c)"

definition ToUpper :: "string \<Rightarrow> string" where
  "ToUpper s = map upper_char s"

definition ToLower :: "string \<Rightarrow> string" where
  "ToLower s = map lower_char s"

subsection \<open>Package net/url: PathUnescape\<close>

definition ishex :: "char \<Rightarrow> bool" where
  "ishex c \<longleftrightarrow> is_digit c \<or> (CHR ''a'' \<le> c \<and> c \<le> CHR ''f'') \<or> (CHR ''A'' \<le> c \<and> c \<le> CHR ''F'')"

definition unhex :: "char \<Rightarrow> nat" where
  "unhex c =
     (if is_digit c then of_char c - 48
      else if CHR ''a'' \<le> c \<and> c \<le> CHR ''f'' then of_char c - 87
      else if CHR ''A'' \<le> c \<and> c \<le> CHR ''F'' then of_char c - 55
      else 0)"

text \<open>A percent sign must be followed by two hexadecimal digits; every other byte is itself.\<close>

fun PathUnescape :: "string \<Rightarrow> string option" where
  "PathUnescape [] = Some []"
| "PathUnescape (c # cs) =
     (if c = CHR ''%'' then
        (case cs of
           a # b # rest \<Rightarrow>
             (if ishex a \<and> ishex b
              then map_option ((#) (char_of (16 * unhex a + unhex b))) (PathUnescape rest)
              else None)
         | _ \<Rightarrow> None)
      else map_option ((#) c) (PathUnescape cs))"

subsection \<open>Decimal numbers\<close>

definition digit_char :: "nat \<Rightarrow> char" where
  "digit_char d = char_of (48 + d mod 10)"

fun itoa :: "nat \<Rightarrow> string" where
  "itoa n = (if n < 10 then [digit_char n] else itoa (n div 10) @ [digit_char n])"

subsection \<open>Slices keyed by a field\<close>

text \<open>
  The index of the first entry with key \<open>k\<close>; Go's \<open>-1\<close> is \<open>None\<close>.  \<open>upsert_by\<close> overwrites
  that entry or appends, \<open>remove_by\<close> deletes that entry only.
\<close>

fun index_by :: "('a \<Rightarrow> 'k) \<Rightarrow> 'k \<Rightarrow> 'a list \<Rightarrow> nat option" where
  "index_by f k [] = None"
| "index_by f k (x # xs) = (if f x = k then Some 0 else map_option Suc (index_by f k xs))"

fun find_by :: "('a \<Rightarrow> 'k) \<Rightarrow> 'k \<Rightarrow> 'a list \<Rightarrow> 'a option" where
  "find_by f k [] = None"
| "find_by f k (x # xs) = (if f x = k then Some x else find_by f k xs)"

fun upsert_by :: "('a \<Rightarrow> 'k) \<Rightarrow> 'a \<Rightarrow> 'a list \<Rightarrow> 'a list" where
  "upsert_by f p [] = [p]"
| "upsert_by f p (x # xs) = (if f x = f p then p # xs else x # upsert_by f p xs)"

fun remove_by :: "('a \<Rightarrow> 'k) \<Rightarrow> 'k \<Rightarrow> 'a list \<Rightarrow> 'a list" where
  "remove_by f k [] = []"
| "remove_by f k (x # xs) = (if f x = k then xs else x # remove_by f k xs)"

text \<open>The last entry with key \<open>k\<close>: what replaying the slice in order through an upsert leaves.\<close>

definition last_by :: "('a \<Rightarrow> 'k) \<Rightarrow> 'k \<Rightarrow> 'a list \<Rightarrow> 'a option" where
  "last_by f k xs = find_by f k (rev xs)"

section \<open>Lemmas\<close>

lemma bind_result_Inr_iff [simp]:
  "bind_result r f = Inr b \<longleftrightarrow> (\<exists>a. r = Inr a \<and> f a = Inr b)"
  by (cases r) auto

lemma bind_result_Inl_iff:
  "bind_result r f = Inl e \<longleftrightarrow> r = Inl e \<or> (\<exists>a. r = Inr a \<and> f a = Inl e)"
  by (cases r) auto

lemma is_ok_simps [simp]: "is_ok (Inr a)" "\<not> is_ok (Inl e)"
  by (simp_all add: is_ok_def)

lemma is_ok_iff: "is_ok r \<longleftrightarrow> (\<exists>a. r = Inr a)"
  by (cases r) auto

lemma map_result_Inr_iff:
  "map_result f xs = Inr ys \<longleftrightarrow> list_all2 (\<lambda>x y. f x = Inr y) xs ys"
proof (induction xs arbitrary: ys)
  case (Cons x xs)
  show ?case
    by (cases "f x"; cases "map_result f xs") (auto simp: list_all2_Cons1 simp flip: Cons.IH)
qed auto

lemma map_result_mem: "map_result f xs = Inr ys \<Longrightarrow> y \<in> set ys \<Longrightarrow> \<exists>x \<in> set xs. f x = Inr y"
  by (fastforce simp: map_result_Inr_iff list_all2_conv_all_nth in_set_conv_nth)

lemma map_result_length: "map_result f xs = Inr ys \<Longrightarrow> length ys = length xs"
  by (auto simp: map_result_Inr_iff dest: list_all2_lengthD)

lemma map_result_all_ok: "(\<And>x. x \<in> set xs \<Longrightarrow> f x = Inr (g x)) \<Longrightarrow> map_result f xs = Inr (map g xs)"
  by (induction xs) auto

lemma map_eq_on_dom: "(ps :: 'a \<rightharpoonup> 'b) = m \<longleftrightarrow> dom ps = dom m \<and> (\<forall>x \<in> dom m. ps x = m x)"
proof
  assume *: "dom ps = dom m \<and> (\<forall>x \<in> dom m. ps x = m x)"
  show "ps = m"
  proof
    fix x
    show "ps x = m x" using * by (cases "x \<in> dom m") (auto simp: domIff)
  qed
qed simp

subsection \<open>Split and Join\<close>

lemma Split_not_Nil [simp]: "Split c s \<noteq> []"
  by (induction s) (auto split: list.splits)

lemma Split_no_sep: "w \<in> set (Split c s) \<Longrightarrow> c \<notin> set w"
  by (induction s arbitrary: w) (auto split: list.splits if_splits)

lemma Join_Split: "Join (Split c s) [c] = s"
proof (induction s)
  case (Cons x xs)
  obtain w ws where "Split c xs = w # ws" by (meson Split_not_Nil list.exhaust)
  with Cons show ?case by (cases ws) auto
qed simp

lemma Split_append_no_sep:
  "c \<notin> set w \<Longrightarrow> Split c (w @ s) = (w @ hd (Split c s)) # tl (Split c s)"
proof (induction w)
  case Nil
  then show ?case by (cases "Split c s") auto
next
  case (Cons x w)
  then show ?case by (auto split: list.splits)
qed

lemma Split_no_sep_id: "c \<notin> set w \<Longrightarrow> Split c w = [w]"
  using Split_append_no_sep [of c w "[]"] by simp

lemma Split_Join:
  "ws \<noteq> [] \<Longrightarrow> (\<And>w. w \<in> set ws \<Longrightarrow> c \<notin> set w) \<Longrightarrow> Split c (Join ws [c]) = ws"
proof (induction ws "[c]" rule: Join.induct)
  case (2 w)
  then show ?case by (simp add: Split_no_sep_id)
next
  case (3 w v ws)
  then show ?case by (simp add: Split_append_no_sep)
qed simp

subsection \<open>PathUnescape\<close>

lemma PathUnescape_plain: "CHR ''%'' \<notin> set s \<Longrightarrow> PathUnescape s = Some s"
  by (induction s) auto

lemma PathUnescape_Nil_iff: "PathUnescape s = Some [] \<longleftrightarrow> s = []"
  by (cases s) (auto split: list.splits if_splits)

subsection \<open>Keyed slices\<close>

lemma index_by_Some:
  "index_by f k xs = Some i \<Longrightarrow>
     i < length xs \<and> f (xs ! i) = k \<and> (\<forall>j < i. f (xs ! j) \<noteq> k)"
proof (induction xs arbitrary: i)
  case (Cons x xs)
  show ?case
  proof (cases "f x = k")
    case False
    with Cons.prems obtain m where m: "index_by f k xs = Some m" "i = Suc m"
      by (auto split: if_splits)
    with Cons.IH [OF m(1)] False show ?thesis
      by (auto simp: less_Suc_eq_0_disj)
  qed (use Cons.prems in auto)
qed simp

lemma index_by_None_iff: "index_by f k xs = None \<longleftrightarrow> k \<notin> f ` set xs"
  by (induction xs) auto

lemma find_by_None_iff: "find_by f k xs = None \<longleftrightarrow> k \<notin> f ` set xs"
  by (induction xs) auto

lemma find_by_Some: "find_by f k xs = Some x \<Longrightarrow> x \<in> set xs \<and> f x = k"
  by (induction xs) (auto split: if_splits)

lemma find_by_append:
  "find_by f k (xs @ ys) = (case find_by f k xs of None \<Rightarrow> find_by f k ys | Some x \<Rightarrow> Some x)"
  by (induction xs) auto

lemma last_by_append:
  "last_by f k (xs @ ys) = (case last_by f k ys of None \<Rightarrow> last_by f k xs | Some x \<Rightarrow> Some x)"
  by (simp add: last_by_def find_by_append cong: option.case_cong)

lemma last_by_Nil [simp]: "last_by f k [] = None"
  by (simp add: last_by_def)

lemma last_by_single [simp]: "last_by f k [x] = (if f x = k then Some x else None)"
  by (simp add: last_by_def)

lemma last_by_None_iff: "last_by f k xs = None \<longleftrightarrow> k \<notin> f ` set xs"
  by (simp add: last_by_def find_by_None_iff)

lemma find_by_upsert_by:
  "find_by f k (upsert_by f p xs) = (if f p = k then Some p else find_by f k xs)"
  by (induction xs) auto

lemma upsert_by_keys: "f ` set (upsert_by f p xs) = insert (f p) (f ` set xs)"
  by (induction xs) auto

lemma distinct_upsert_by: "distinct (map f xs) \<Longrightarrow> distinct (map f (upsert_by f p xs))"
proof (induction xs)
  case (Cons x xs)
  then show ?case using upsert_by_keys [of f p xs] by auto
qed simp

lemma remove_by_id: "k \<notin> f ` set xs \<Longrightarrow> remove_by f k xs = xs"
  by (induction xs) auto

lemma set_remove_by_subset: "set (remove_by f k xs) \<subseteq> set xs"
  by (induction xs) auto

lemma distinct_remove_by: "distinct (map f xs) \<Longrightarrow> distinct (map f (remove_by f k xs))"
proof (induction xs)
  case (Cons x xs)
  then show ?case using set_remove_by_subset [of f k xs] by auto
qed simp

lemma find_by_remove_by:
  "distinct (map f xs) \<Longrightarrow> find_by f j (remove_by f k xs) = (if j = k then None else find_by f j xs)"
  by (induction xs) (auto simp: find_by_None_iff)

lemma length_remove_by:
  "length (remove_by f k xs) = length xs - (if k \<in> f ` set xs then 1 else 0)"
proof (induction xs)
  case (Cons x xs)
  then show ?case by (cases xs) (auto simp: Suc_diff_le)
qed simp

lemma length_remove_by_eq: "length (remove_by f k xs) = length xs \<longleftrightarrow> k \<notin> f ` set xs"
proof (cases "k \<in> f ` set xs")
  case True
  then have "length xs > 0" by auto
  then have "length xs - 1 \<noteq> length xs" by linarith
  with True show ?thesis unfolding length_remove_by by simp
qed (simp add: remove_by_id)

lemma remove_by_filter: "distinct (map f xs) \<Longrightarrow> remove_by f k xs = filter (\<lambda>x. f x \<noteq> k) xs"
proof (induction xs)
  case (Cons x xs)
  have "k \<notin> f ` set xs \<Longrightarrow> filter (\<lambda>y. f y \<noteq> k) xs = xs"
    by (rule filter_True) auto
  with Cons show ?case by auto
qed simp

lemma index_by_update: "index_by f (f p) xs = Some i \<Longrightarrow> xs[i := p] = upsert_by f p xs"
  by (induction xs arbitrary: i) (auto split: if_splits)

lemma index_by_append: "index_by f (f p) xs = None \<Longrightarrow> xs @ [p] = upsert_by f p xs"
  by (induction xs) (auto split: if_splits)

lemma index_by_delete: "index_by f k xs = Some i \<Longrightarrow> take i xs @ drop (Suc i) xs = remove_by f k xs"
  by (induction xs arbitrary: i) (auto split: if_splits)

lemma set_upsert_by_subset: "set (upsert_by f p xs) \<subseteq> insert p (set xs)"
  by (induction xs) auto

lemma upsert_by_order: "f p \<in> f ` set xs \<Longrightarrow> map f (upsert_by f p xs) = map f xs"
  by (induction xs) auto

lemma remove_by_keys: "distinct (map f xs) \<Longrightarrow> f ` set (remove_by f k xs) = f ` set xs - {k}"
  by (auto simp: remove_by_filter)

lemma map_of_upsert_by: "map_of (upsert_by fst (n, a) xs) m = (if m = n then Some a else map_of xs m)"
  by (induction xs) auto

lemma find_by_concat:
  "(\<And>n p. n \<in> set ns \<Longrightarrow> p \<in> set (g n) \<Longrightarrow> h p = n) \<Longrightarrow>
     find_by (\<lambda>p. (h p, f p)) (n, k) (concat (map g ns)) =
       (if n \<in> set ns then find_by (\<lambda>p. (h p, f p)) (n, k) (g n) else None)"
proof (induction ns)
  case (Cons m ns)
  have IH: "find_by (\<lambda>p. (h p, f p)) (n, k) (concat (map g ns)) =
      (if n \<in> set ns then find_by (\<lambda>p. (h p, f p)) (n, k) (g n) else None)"
    using Cons.prems by (intro Cons.IH) simp
  show ?case
  proof (cases "m = n")
    case False
    then have "find_by (\<lambda>p. (h p, f p)) (n, k) (g m) = None"
      using Cons.prems by (auto simp: find_by_None_iff)
    with False IH show ?thesis by (simp add: find_by_append)
  qed (simp add: find_by_append IH split: option.split)
qed simp

lemma find_by_map: "find_by f k (map g xs) = map_option g (find_by (f \<circ> g) k xs)"
  by (induction xs) auto

lemma find_by_cong: "(\<And>x. x \<in> set xs \<Longrightarrow> f x = k \<longleftrightarrow> g x = j) \<Longrightarrow> find_by f k xs = find_by g j xs"
  by (induction xs) auto

lemma distinct_find_last: "distinct (map f xs) \<Longrightarrow> last_by f k xs = find_by f k xs"
proof (induction xs)
  case (Cons x xs)
  have "last_by f k (x # xs) = last_by f k ([x] @ xs)" by simp
  also have "\<dots> = (case last_by f k xs of None \<Rightarrow> last_by f k [x] | Some y \<Rightarrow> Some y)"
    by (rule last_by_append)
  finally show ?case using Cons find_by_Some [of f k xs]
    by (auto split: option.splits)
qed simp

lemma find_by_distinct: "distinct (map f xs) \<Longrightarrow> find_by f k xs = Some x \<longleftrightarrow> x \<in> set xs \<and> f x = k"
  by (induction xs) (auto simp: image_iff)

lemma find_by_same_set:
  assumes "distinct (map f xs)" "distinct (map f ys)" "set xs = set ys"
  shows "find_by f k xs = find_by f k ys"
  using find_by_distinct [OF assms(1), of k] find_by_distinct [OF assms(2), of k] assms(3)
  by (cases "find_by f k xs"; cases "find_by f k ys") auto

lemma find_by_sort: "distinct (map f xs) \<Longrightarrow> find_by f k (sort_key g xs) = find_by f k xs"
  by (rule find_by_same_set) (auto simp: distinct_map)

lemma last_by_map: "last_by f k (map g xs) = map_option g (last_by (f \<circ> g) k xs)"
  by (simp add: last_by_def find_by_map rev_map)

lemma last_by_cong: "(\<And>x. x \<in> set xs \<Longrightarrow> f x = k \<longleftrightarrow> g x = j) \<Longrightarrow> last_by f k xs = last_by g j xs"
  unfolding last_by_def by (rule find_by_cong) simp

lemma last_by_concat:
  "(\<And>n p. n \<in> set ns \<Longrightarrow> p \<in> set (g n) \<Longrightarrow> h p = n) \<Longrightarrow>
     last_by (\<lambda>p. (h p, f p)) (n, k) (concat (map g ns)) =
       (if n \<in> set ns then last_by (\<lambda>p. (h p, f p)) (n, k) (g n) else None)"
  using find_by_concat [of "rev ns" "rev \<circ> g" h f n k] by (simp add: last_by_def rev_concat rev_map)

lemma filter_concat_key:
  "distinct ns \<Longrightarrow> (\<And>n p. n \<in> set ns \<Longrightarrow> p \<in> set (g n) \<Longrightarrow> h p = n) \<Longrightarrow>
     filter (\<lambda>p. h p = n) (concat (map g ns)) = (if n \<in> set ns then g n else [])"
proof (induction ns)
  case (Cons m ns)
  have "filter (\<lambda>p. h p = n) (g m) = (if m = n then g m else [])"
    using Cons.prems(2) [of m] by (auto simp: filter_True filter_empty_conv)
  with Cons show ?case by auto
qed simp

section \<open>Encoders and decoders\<close>

text \<open>
  The contract of an encode/decode pair on a domain of valid values: decoding an encoded value
  gives it back.  An encoder that keeps the contract is injective, so comparing encoded forms
  compares the values.
\<close>

locale codec =
  fixes enc :: "'a \<Rightarrow> 'b"
    and dec :: "'b \<Rightarrow> 'a option"
    and dom_ok :: "'a \<Rightarrow> bool"
  assumes dec_enc: "dom_ok a \<Longrightarrow> dec (enc a) = Some a"
begin

lemma enc_inject: "dom_ok a \<Longrightarrow> dom_ok b \<Longrightarrow> enc a = enc b \<longleftrightarrow> a = b"
  by (metis dec_enc option.inject)

lemma enc_inj_on: "inj_on enc {a. dom_ok a}"
  by (rule inj_onI) (simp add: enc_inject)

end

section \<open>Time\<close>

lemma int64_id: "- (2 ^ 63) \<le> x \<Longrightarrow> x < 2 ^ 63 \<Longrightarrow> int64 x = x"
  by (simp add: int64_def)

lemma int64_range: "- (2 ^ 63) \<le> int64 x" "int64 x < 2 ^ 63"
  by (simp_all add: int64_def)

lemma int64_le: "0 \<le> x \<Longrightarrow> int64 x \<le> x"
proof -
  assume "0 \<le> x"
  then have "(x + 2 ^ 63) mod 2 ^ 64 \<le> x + 2 ^ 63" by (intro zmod_le_nonneg_dividend) simp
  then show ?thesis by (simp add: int64_def)
qed

lemma whole_seconds_le: "whole_seconds t \<le> t"
  unfolding whole_seconds_def second_def by (simp add: minus_mod_eq_div_mult [symmetric])

lemma whole_seconds_gt: "t < whole_seconds t + second"
  unfolding whole_seconds_def second_def by (simp add: minus_mod_eq_div_mult [symmetric])

lemma whole_seconds_mono: "t \<le> u \<Longrightarrow> whole_seconds t \<le> whole_seconds u"
  unfolding whole_seconds_def second_def by (simp add: zdiv_mono1)

lemma whole_seconds_idem: "whole_seconds (whole_seconds t) = whole_seconds t"
  by (simp add: whole_seconds_def second_def)

lemma whole_seconds_drift:
  assumes "whole_seconds e = e" "0 \<le> d" "d < second"
  shows "whole_seconds (e + d) = e"
proof -
  from assms(1) obtain q where e: "e = second * q" by (metis whole_seconds_def mult.commute)
  have "(second * q + d) div second = q" using assms(2,3) by (simp add: second_def)
  then show ?thesis by (simp add: whole_seconds_def e mult.commute)
qed

section \<open>Keyed stores\<close>

text \<open>
  A store of values under keys whose writes are checked first: a lookup after an accepted write, in a
  state that keeps an invariant.  Replaying a batch of accepted writes leaves, under each key, the
  last value written.
\<close>

locale checked_store =
  fixes inv :: "'s \<Rightarrow> bool"
    and key :: "'v \<Rightarrow> 'k"
    and lookup :: "'s \<Rightarrow> 'k \<Rightarrow> 'v option"
    and accept :: "'s \<Rightarrow> 'v \<Rightarrow> bool"
    and put :: "'v \<Rightarrow> 's \<Rightarrow> 's"
  assumes checked_inv_put: "inv s \<Longrightarrow> accept s v \<Longrightarrow> inv (put v s)"
    and checked_accept_put: "inv s \<Longrightarrow> accept s v \<Longrightarrow> accept (put v s) w = accept s w"
    and checked_lookup_put:
      "inv s \<Longrightarrow> accept s v \<Longrightarrow> lookup (put v s) k = (if k = key v then Some v else lookup s k)"
begin

lemma inv_replay: "inv s \<Longrightarrow> \<forall>v \<in> set vs. accept s v \<Longrightarrow> inv (fold put vs s)"
  by (induction vs arbitrary: s) (simp_all add: checked_inv_put checked_accept_put)

lemma lookup_replay:
  "inv s \<Longrightarrow> \<forall>v \<in> set vs. accept s v \<Longrightarrow>
     lookup (fold put vs s) k = (case last_by key k vs of Some v \<Rightarrow> Some v | None \<Rightarrow> lookup s k)"
proof (induction vs arbitrary: s)
  case (Cons v vs)
  have "last_by key k (v # vs) = (case last_by key k vs of None \<Rightarrow> last_by key k [v] | Some y \<Rightarrow> Some y)"
    using last_by_append [of key k "[v]" vs] by simp
  moreover have "inv (put v s)" "\<forall>w \<in> set vs. accept (put v s) w"
    using Cons.prems by (simp_all add: checked_inv_put checked_accept_put)
  ultimately show ?case using Cons.IH [of "put v s"] Cons.prems
    by (auto simp: checked_lookup_put split: option.splits)
qed simp

end

text \<open>A store that accepts every write and can also remove.\<close>

locale keyed_store =
  fixes inv :: "'s \<Rightarrow> bool"
    and key :: "'v \<Rightarrow> 'k"
    and lookup :: "'s \<Rightarrow> 'k \<Rightarrow> 'v option"
    and put :: "'v \<Rightarrow> 's \<Rightarrow> 's"
    and del :: "'k \<Rightarrow> 's \<Rightarrow> 's"
  assumes inv_put: "inv s \<Longrightarrow> inv (put v s)"
    and inv_del: "inv s \<Longrightarrow> inv (del k s)"
    and lookup_put: "inv s \<Longrightarrow> lookup (put v s) k = (if k = key v then Some v else lookup s k)"
    and lookup_del: "inv s \<Longrightarrow> lookup (del j s) k = (if k = j then None else lookup s k)"
begin

lemma lookup_put_map: "inv s \<Longrightarrow> lookup (put v s) = (lookup s)(key v \<mapsto> v)"
  by (rule ext) (simp add: lookup_put)

lemma lookup_del_map: "inv s \<Longrightarrow> lookup (del k s) = (lookup s)(k := None)"
  by (rule ext) (simp add: lookup_del)

lemma put_del: "inv s \<Longrightarrow> lookup (del (key v) (put v s)) = lookup (del (key v) s)"
  by (simp add: lookup_del_map lookup_put_map inv_put)

end

sublocale keyed_store \<subseteq> total: checked_store inv key lookup "\<lambda>_ _. True" put
  by unfold_locales (simp_all add: inv_put lookup_put)

end
