(* ===== verification/Traffic.thy ===== *)
theory Traffic
  imports Prelude "HOL-Library.Product_Lexorder" "HOL-Library.Multiset"
begin

text \<open>
  The captured-request log of \<^verbatim>\<open>internal/control/traffic\<close>: sanitising an event, the in-memory store with its
  byte and age budgets and keyset pagination.  A time is an integer, the nanoseconds since the Unix
  epoch; the opaque wire form of a cursor (base64 over JSON) is a datatype whose third value stands for
  a token that does not decode.
\<close>

section \<open>Definitions\<close>

subsection \<open>Events\<close>

type_synonym bytes = string
type_synonym EventID = string

record KV =
  kv_Key :: string
  kv_Value :: string

record ResolvedBind =
  rb_Name :: string
  rb_Value :: bytes

record MetaFetch =
  mf_Meta :: string
  mf_API :: string
  mf_Method :: string
  mf_Path :: string
  mf_RequestBody :: bytes
  mf_Status :: int
  mf_ResponseBody :: bytes
  mf_LatencyMS :: int
  mf_Error :: string

record PolicyEvaluation =
  pe_Policy :: string
  pe_Action :: string
  pe_Result :: string
  pe_Fired :: bool
  pe_Error :: string

record Event =
  ev_ID :: EventID
  ev_Timestamp :: int
  ev_Subject :: string
  ev_Method :: string
  ev_URL :: string
  ev_RequestHeaders :: "KV list"
  ev_RequestBody :: bytes
  ev_API :: string
  ev_Action :: string
  ev_Binds :: "ResolvedBind list"
  ev_MetaFetches :: "MetaFetch list"
  ev_Decision :: string
  ev_Policy :: string
  ev_PolicyEvaluations :: "PolicyEvaluation list"
  ev_UpstreamStatus :: int
  ev_UpstreamHeaders :: "KV list"
  ev_UpstreamBody :: bytes
  ev_LatencyMS :: int
  ev_Error :: string
  ev_Truncated :: bool

record Summary =
  su_ID :: EventID
  su_Timestamp :: int
  su_Subject :: string
  su_Method :: string
  su_URL :: string
  su_API :: string
  su_Action :: string
  su_Decision :: string
  su_Policy :: string
  su_UpstreamStatus :: int
  su_LatencyMS :: int

definition DefaultListLimit :: int where "DefaultListLimit = 100"
definition MaxListLimit :: int where "MaxListLimit = 1000"

definition ClampLimit :: "int \<Rightarrow> int" where
  "ClampLimit n =
     (if n \<le> 0 then DefaultListLimit
      else if n > MaxListLimit then MaxListLimit
      else n)"

subsection \<open>Sanitising\<close>

record SanitizeOptions =
  so_MaxBodyBytes :: int
  so_NoBodyAPIs :: "(string \<times> bool) list"
  so_SensitiveHeaders :: "string list"

definition DefaultMaxBodyBytes :: int where "DefaultMaxBodyBytes = 8 * 1024"

definition DefaultSensitiveHeaders :: "string list" where
  "DefaultSensitiveHeaders = [''Authorization'', ''Cookie'', ''Set-Cookie'', ''Proxy-Authorization'']"

definition DefaultNoBodyAPIs :: "(string \<times> bool) list" where
  "DefaultNoBodyAPIs = [(''google.gmail'', True), (''google.drive'', True)]"

definition stripHeaders :: "KV list \<Rightarrow> string list \<Rightarrow> KV list" where
  "stripHeaders kvs names = filter (\<lambda>kv. ToLower (kv_Key kv) \<notin> set (map ToLower names)) kvs"

definition truncateBody :: "bytes \<Rightarrow> nat \<Rightarrow> bool \<Rightarrow> bytes \<times> bool" where
  "truncateBody body maxBytes truncated =
     (if length body \<le> maxBytes then (body, truncated) else (take maxBytes body, True))"

text \<open>The map of the two loops over defaults and options: a later entry overwrites an earlier one.\<close>

definition noBody_map :: "(string \<times> bool) list \<Rightarrow> string \<Rightarrow> bool" where
  "noBody_map extra k =
     (case map_of (rev (DefaultNoBodyAPIs @ extra)) k of Some b \<Rightarrow> b | None \<Rightarrow> False)"

definition redact_fetch :: "MetaFetch \<Rightarrow> bool \<Rightarrow> MetaFetch \<times> bool" where
  "redact_fetch f truncated =
     (f\<lparr>mf_RequestBody := [], mf_ResponseBody := []\<rparr>,
      truncated \<or> length (mf_RequestBody f) > 0 \<or> length (mf_ResponseBody f) > 0)"

fun redactAllFetchBodies :: "MetaFetch list \<Rightarrow> bool \<Rightarrow> MetaFetch list \<times> bool" where
  "redactAllFetchBodies [] t = ([], t)"
| "redactAllFetchBodies (f # fs) t =
     (let (f1, t1) = redact_fetch f t; (fs1, t2) = redactAllFetchBodies fs t1 in (f1 # fs1, t2))"

fun sanitizeFetches :: "MetaFetch list \<Rightarrow> nat \<Rightarrow> (string \<Rightarrow> bool) \<Rightarrow> bool \<Rightarrow> MetaFetch list \<times> bool" where
  "sanitizeFetches [] maxBytes noBody t = ([], t)"
| "sanitizeFetches (f # fs) maxBytes noBody t =
     (let (f1, t1) =
            (if noBody (mf_API f) then redact_fetch f t
             else (let (rq, ta) = truncateBody (mf_RequestBody f) maxBytes t;
                       (rs, tb) = truncateBody (mf_ResponseBody f) maxBytes ta
                   in (f\<lparr>mf_RequestBody := rq, mf_ResponseBody := rs\<rparr>, tb)));
          (fs1, t2) = sanitizeFetches fs maxBytes noBody t1
      in (f1 # fs1, t2))"

definition Sanitize :: "Event \<Rightarrow> SanitizeOptions \<Rightarrow> Event" where
  "Sanitize ev opts =
     (let maxBytes = nat (if so_MaxBodyBytes opts \<le> 0 then DefaultMaxBodyBytes else so_MaxBodyBytes opts);
          headers = DefaultSensitiveHeaders @ so_SensitiveHeaders opts;
          noBody = noBody_map (so_NoBodyAPIs opts);
          ev1 = ev\<lparr>ev_RequestHeaders := stripHeaders (ev_RequestHeaders ev) headers,
                   ev_UpstreamHeaders := stripHeaders (ev_UpstreamHeaders ev) headers\<rparr>
      in if noBody (ev_API ev) then
           (let t = (ev_Truncated ev \<or> length (ev_RequestBody ev) > 0 \<or> length (ev_UpstreamBody ev) > 0);
                (fs, t1) = redactAllFetchBodies (ev_MetaFetches ev) t
            in ev1\<lparr>ev_RequestBody := [], ev_UpstreamBody := [], ev_MetaFetches := fs, ev_Truncated := t1\<rparr>)
         else
           (let (rq, ta) = truncateBody (ev_RequestBody ev) maxBytes (ev_Truncated ev);
                (ub, tb) = truncateBody (ev_UpstreamBody ev) maxBytes ta;
                (fs, tc) = sanitizeFetches (ev_MetaFetches ev) maxBytes noBody tb
            in ev1\<lparr>ev_RequestBody := rq, ev_UpstreamBody := ub, ev_MetaFetches := fs, ev_Truncated := tc\<rparr>))"

subsection \<open>In-memory store\<close>

record Options =
  op_MaxBytes :: int
  op_MaxAge :: int

definition DefaultMaxBytes :: int where "DefaultMaxBytes = 16 * 1024 * 1024"
definition DefaultMaxAge :: int where "DefaultMaxAge = 24 * 60 * 60 * 1000000000"

record entry =
  en_ev :: Event
  en_size :: int

abbreviation en_ID :: "entry \<Rightarrow> EventID" where "en_ID e \<equiv> ev_ID (en_ev e)"

record memoryStore =
  ms_opts :: Options
  ms_byID :: "EventID \<rightharpoonup> entry"
  ms_ll :: "entry list"
  ms_bytes :: int

definition defaulted :: "Options \<Rightarrow> Options" where
  "defaulted opts =
     \<lparr>op_MaxBytes = (if op_MaxBytes opts \<le> 0 then DefaultMaxBytes else op_MaxBytes opts),
      op_MaxAge = (if op_MaxAge opts \<le> 0 then DefaultMaxAge else op_MaxAge opts)\<rparr>"

definition newMemoryStore :: "Options \<Rightarrow> memoryStore" where
  "newMemoryStore opts = \<lparr>ms_opts = defaulted opts, ms_byID = Map.empty, ms_ll = [], ms_bytes = 0\<rparr>"

definition approxSize :: "Event \<Rightarrow> int" where
  "approxSize ev =
     int (length (ev_ID ev) + length (ev_Subject ev) + length (ev_Method ev) + length (ev_URL ev)
          + length (ev_API ev) + length (ev_Action ev) + length (ev_Decision ev) + length (ev_Policy ev)
          + length (ev_Error ev)
          + sum_list (map (\<lambda>kv. length (kv_Key kv) + length (kv_Value kv) + 2) (ev_RequestHeaders ev))
          + sum_list (map (\<lambda>kv. length (kv_Key kv) + length (kv_Value kv) + 2) (ev_UpstreamHeaders ev))
          + length (ev_RequestBody ev) + length (ev_UpstreamBody ev)
          + sum_list (map (\<lambda>b. length (rb_Name b) + length (rb_Value b) + 2) (ev_Binds ev))
          + 128)"

definition expired :: "int \<Rightarrow> entry \<Rightarrow> bool" where
  "expired cutoff e \<longleftrightarrow> ev_Timestamp (en_ev e) \<noteq> zeroTime \<and> ev_Timestamp (en_ev e) < cutoff"

text \<open>The walk of \<open>evictLocked\<close>: what stays of the list and the index, and the remaining bytes.\<close>

fun evict_loop ::
  "int \<Rightarrow> int \<Rightarrow> entry list \<Rightarrow> int \<Rightarrow> (EventID \<rightharpoonup> entry) \<Rightarrow> entry list \<times> int \<times> (EventID \<rightharpoonup> entry)" where
  "evict_loop maxBytes cutoff [] n ix = ([], n, ix)"
| "evict_loop maxBytes cutoff (e # es) n ix =
     (if n > maxBytes \<or> expired cutoff e then evict_loop maxBytes cutoff es (n - en_size e) (ix(en_ID e := None))
      else (let (kept, n', ix') = evict_loop maxBytes cutoff es n ix in (e # kept, n', ix')))"

definition evictLocked :: "int \<Rightarrow> memoryStore \<Rightarrow> memoryStore" where
  "evictLocked now s =
     (let (ll, n, ix) = evict_loop (op_MaxBytes (ms_opts s)) (now - op_MaxAge (ms_opts s)) (ms_ll s) (ms_bytes s) (ms_byID s)
      in s\<lparr>ms_ll := ll, ms_bytes := n, ms_byID := ix\<rparr>)"

definition memory_Insert :: "int \<Rightarrow> Event \<Rightarrow> memoryStore \<Rightarrow> memoryStore" where
  "memory_Insert now ev s =
     (let size = approxSize ev;
          s1 = (case ms_byID s (ev_ID ev) of
                  None \<Rightarrow> s
                | Some old \<Rightarrow>
                    s\<lparr>ms_bytes := ms_bytes s - en_size old, ms_ll := remove_by en_ID (ev_ID ev) (ms_ll s),
                      ms_byID := (ms_byID s)(ev_ID ev := None)\<rparr>);
          e = \<lparr>en_ev = ev, en_size = size\<rparr>
      in evictLocked now (s1\<lparr>ms_ll := ms_ll s1 @ [e], ms_byID := (ms_byID s1)(ev_ID ev \<mapsto> e),
                            ms_bytes := ms_bytes s1 + size\<rparr>))"

definition memory_Get :: "EventID \<Rightarrow> memoryStore \<Rightarrow> Event option" where
  "memory_Get i s = map_option en_ev (ms_byID s i)"

subsection \<open>Listing\<close>

datatype Cursor = CEmpty | CPos int EventID | CBad

definition EncodeCursor :: "int \<Rightarrow> EventID \<Rightarrow> Cursor" where
  "EncodeCursor ts i = (if i = [] then CEmpty else CPos ts i)"

definition DecodeCursor :: "Cursor \<Rightarrow> (int \<times> EventID) option" where
  "DecodeCursor c = (case c of CEmpty \<Rightarrow> Some (zeroTime, []) | CPos ts i \<Rightarrow> Some (ts, i) | CBad \<Rightarrow> None)"

record TrafficListOpts =
  lo_API :: string
  lo_APIs :: "string list"
  lo_Action :: string
  lo_Method :: string
  lo_Decision :: string
  lo_PathPrefix :: string
  lo_Since :: int
  lo_Until :: int
  lo_Subject :: "string option"
  lo_Limit :: int
  lo_Cursor :: Cursor

definition match_opts :: "Event \<Rightarrow> TrafficListOpts \<Rightarrow> bool" where
  "match_opts ev opts =
     (if (if lo_APIs opts \<noteq> [] then \<not> list_ex (\<lambda>a. ev_API ev = a) (lo_APIs opts)
          else lo_API opts \<noteq> [] \<and> ev_API ev \<noteq> lo_API opts) then False
      else if lo_Action opts \<noteq> [] \<and> ev_Action ev \<noteq> lo_Action opts then False
      else if lo_Method opts \<noteq> [] \<and> ev_Method ev \<noteq> lo_Method opts then False
      else if lo_Decision opts \<noteq> [] \<and> ev_Decision ev \<noteq> lo_Decision opts then False
      else if lo_PathPrefix opts \<noteq> [] \<and> \<not> HasPrefix (ev_URL ev) (lo_PathPrefix opts) then False
      else if lo_Since opts \<noteq> zeroTime \<and> ev_Timestamp ev < lo_Since opts then False
      else if lo_Until opts \<noteq> zeroTime \<and> ev_Timestamp ev > lo_Until opts then False
      else (case lo_Subject opts of None \<Rightarrow> True | Some sub \<Rightarrow> ev_Subject ev = sub))"

definition summary :: "Event \<Rightarrow> Summary" where
  "summary ev =
     \<lparr>su_ID = ev_ID ev, su_Timestamp = ev_Timestamp ev, su_Subject = ev_Subject ev, su_Method = ev_Method ev,
      su_URL = ev_URL ev, su_API = ev_API ev, su_Action = ev_Action ev, su_Decision = ev_Decision ev,
      su_Policy = ev_Policy ev, su_UpstreamStatus = ev_UpstreamStatus ev, su_LatencyMS = ev_LatencyMS ev\<rparr>"

definition ev_key :: "Event \<Rightarrow> int \<times> EventID" where
  "ev_key ev = (ev_Timestamp ev, ev_ID ev)"

text \<open>Newest first: descending by time, then by id.\<close>

definition newest_first :: "Event list \<Rightarrow> Event list" where
  "newest_first evs = rev (sort_key ev_key evs)"

fun skip_to :: "int \<Rightarrow> EventID \<Rightarrow> Event list \<Rightarrow> Event list" where
  "skip_to ts i [] = []"
| "skip_to ts i (ev # evs) =
     (if ev_Timestamp ev < ts \<or> ev_Timestamp ev = ts \<and> ev_ID ev < i then ev # evs else skip_to ts i evs)"

definition memory_List :: "TrafficListOpts \<Rightarrow> memoryStore \<Rightarrow> (Summary list \<times> Cursor) option" where
  "memory_List opts s =
     (case DecodeCursor (lo_Cursor opts) of
        None \<Rightarrow> None
      | Some (curTS, curID) \<Rightarrow>
          (let limit = nat (ClampLimit (lo_Limit opts));
               matched = newest_first (filter (\<lambda>ev. match_opts ev opts) (map en_ev (ms_ll s)));
               page0 = (if curID \<noteq> [] then skip_to curTS curID matched else matched)
           in if length page0 > limit then
                (let page = take limit page0; lst = last page
                 in Some (map summary page, EncodeCursor (ev_Timestamp lst) (ev_ID lst)))
              else Some (map summary page0, CEmpty)))"

text \<open>A client that follows the cursors page by page, with fuel, until it is handed none.\<close>

fun collect :: "nat \<Rightarrow> (Cursor \<Rightarrow> ('r list \<times> Cursor) option) \<Rightarrow> Cursor \<Rightarrow> 'r list option" where
  "collect 0 page c = None"
| "collect (Suc n) page c =
     (case page c of
        None \<Rightarrow> None
      | Some (rs, c') \<Rightarrow>
          (if c' = CEmpty then Some rs else map_option (\<lambda>rest. rs @ rest) (collect n page c')))"

subsection \<open>Specification\<close>

definition sizes :: "entry list \<Rightarrow> int" where
  "sizes es = sum_list (map en_size es)"

definition mem_inv :: "memoryStore \<Rightarrow> bool" where
  "mem_inv s \<longleftrightarrow>
     distinct (map en_ID (ms_ll s)) \<and> (\<forall>i. ms_byID s i = find_by en_ID i (ms_ll s))
     \<and> ms_bytes s = sizes (ms_ll s) \<and> (\<forall>e \<in> set (ms_ll s). en_size e = approxSize (en_ev e))
     \<and> op_MaxBytes (ms_opts s) > 0"

definition named_inv :: "memoryStore \<Rightarrow> bool" where
  "named_inv s \<longleftrightarrow> mem_inv s \<and> (\<forall>e \<in> set (ms_ll s). en_ID e \<noteq> [])"

definition body_cap :: "SanitizeOptions \<Rightarrow> nat" where
  "body_cap opts = nat (if so_MaxBodyBytes opts \<le> 0 then DefaultMaxBodyBytes else so_MaxBodyBytes opts)"

definition clean_headers :: "SanitizeOptions \<Rightarrow> KV list \<Rightarrow> bool" where
  "clean_headers opts kvs \<longleftrightarrow>
     (\<forall>kv \<in> set kvs. \<forall>h \<in> set (DefaultSensitiveHeaders @ so_SensitiveHeaders opts). ToLower (kv_Key kv) \<noteq> ToLower h)"

definition clean_body :: "bool \<Rightarrow> nat \<Rightarrow> bytes \<Rightarrow> bool" where
  "clean_body noBody cap b \<longleftrightarrow> (if noBody then b = [] else length b \<le> cap)"

definition clean_fetch :: "SanitizeOptions \<Rightarrow> bool \<Rightarrow> MetaFetch \<Rightarrow> bool" where
  "clean_fetch opts nb f \<longleftrightarrow>
     clean_body (nb \<or> noBody_map (so_NoBodyAPIs opts) (mf_API f)) (body_cap opts) (mf_RequestBody f)
     \<and> clean_body (nb \<or> noBody_map (so_NoBodyAPIs opts) (mf_API f)) (body_cap opts) (mf_ResponseBody f)"

definition clean :: "SanitizeOptions \<Rightarrow> Event \<Rightarrow> bool" where
  "clean opts ev \<longleftrightarrow>
     clean_headers opts (ev_RequestHeaders ev) \<and> clean_headers opts (ev_UpstreamHeaders ev)
     \<and> (let nb = noBody_map (so_NoBodyAPIs opts) (ev_API ev)
        in clean_body nb (body_cap opts) (ev_RequestBody ev) \<and> clean_body nb (body_cap opts) (ev_UpstreamBody ev)
           \<and> (\<forall>f \<in> set (ev_MetaFetches ev). clean_fetch opts nb f))"

definition fetch_clean_of :: "nat \<Rightarrow> (string \<Rightarrow> bool) \<Rightarrow> MetaFetch \<Rightarrow> MetaFetch" where
  "fetch_clean_of cap nb f =
     (let n = (if nb (mf_API f) then 0 else cap)
      in f\<lparr>mf_RequestBody := take n (mf_RequestBody f), mf_ResponseBody := take n (mf_ResponseBody f)\<rparr>)"

definition sanitized_fetches :: "SanitizeOptions \<Rightarrow> Event \<Rightarrow> MetaFetch list" where
  "sanitized_fetches opts ev =
     map (if noBody_map (so_NoBodyAPIs opts) (ev_API ev) then (\<lambda>f. f\<lparr>mf_RequestBody := [], mf_ResponseBody := []\<rparr>)
          else fetch_clean_of (body_cap opts) (noBody_map (so_NoBodyAPIs opts))) (ev_MetaFetches ev)"

definition events :: "memoryStore \<Rightarrow> Event list" where
  "events s = map en_ev (ms_ll s)"

definition sum_key :: "Summary \<Rightarrow> int \<times> EventID" where
  "sum_key r = (su_Timestamp r, su_ID r)"

definition matching :: "TrafficListOpts \<Rightarrow> memoryStore \<Rightarrow> Summary list" where
  "matching opts s = map summary (newest_first (filter (\<lambda>ev. match_opts ev opts) (events s)))"

text \<open>The head of a listing that fits the limit, and the cursor of its last row when more rows follow.\<close>

definition cut :: "nat \<Rightarrow> Summary list \<Rightarrow> Summary list \<times> Cursor" where
  "cut limit rs =
     (if length rs > limit then (take limit rs, CPos (su_Timestamp (rs ! (limit - 1))) (su_ID (rs ! (limit - 1))))
      else (rs, CEmpty))"

text \<open>A sample event, for the examples.\<close>

definition sample_event :: "EventID \<Rightarrow> int \<Rightarrow> Event" where
  "sample_event i ts =
     \<lparr>ev_ID = i, ev_Timestamp = ts, ev_Subject = ''u'', ev_Method = ''GET'', ev_URL = ''/a'',
      ev_RequestHeaders = [\<lparr>kv_Key = ''cookie'', kv_Value = ''x''\<rparr>, \<lparr>kv_Key = ''Accept'', kv_Value = ''y''\<rparr>],
      ev_RequestBody = ''body'', ev_API = ''demo'', ev_Action = ''read'', ev_Binds = [], ev_MetaFetches = [],
      ev_Decision = ''allow'', ev_Policy = ''p'', ev_PolicyEvaluations = [], ev_UpstreamStatus = 200,
      ev_UpstreamHeaders = [], ev_UpstreamBody = [], ev_LatencyMS = 1, ev_Error = [], ev_Truncated = False\<rparr>"

section \<open>Sanitising\<close>

lemma strip_clean: "clean_headers opts (stripHeaders kvs (DefaultSensitiveHeaders @ so_SensitiveHeaders opts))"
  by (fastforce simp: clean_headers_def stripHeaders_def)

lemma clean_strip: "clean_headers opts kvs \<Longrightarrow> stripHeaders kvs (DefaultSensitiveHeaders @ so_SensitiveHeaders opts) = kvs"
  unfolding clean_headers_def stripHeaders_def by (intro filter_True) fastforce

lemma redact_all: "redactAllFetchBodies fs t =
   (map (\<lambda>f. f\<lparr>mf_RequestBody := [], mf_ResponseBody := []\<rparr>) fs,
    t \<or> (\<exists>f \<in> set fs. mf_RequestBody f \<noteq> [] \<or> mf_ResponseBody f \<noteq> []))"
  by (induction fs arbitrary: t) (auto simp: redact_fetch_def)

lemma sanitize_fetches: "sanitizeFetches fs cap nb t =
   (map (fetch_clean_of cap nb) fs, t \<or> (\<exists>f \<in> set fs. fetch_clean_of cap nb f \<noteq> f))"
proof (induction fs arbitrary: t)
  case (Cons f fs)
  have upd: "fetch_clean_of cap nb f \<noteq> f \<longleftrightarrow>
      (let n = (if nb (mf_API f) then 0 else cap) in length (mf_RequestBody f) > n \<or> length (mf_ResponseBody f) > n)"
    by (cases f) (auto simp: fetch_clean_of_def Let_def)
  from Cons show ?case unfolding list.set bex_simps upd
    by (auto simp: fetch_clean_of_def truncateBody_def redact_fetch_def Let_def)
qed simp

lemma truncate_body: "truncateBody b n t = (take n b, t \<or> take n b \<noteq> b)"
  by (auto simp: truncateBody_def)

lemma fetch_clean: "clean_fetch opts False (fetch_clean_of (body_cap opts) (noBody_map (so_NoBodyAPIs opts)) f)"
  by (simp add: clean_fetch_def clean_body_def fetch_clean_of_def Let_def)

lemma fetch_already_clean:
  "clean_fetch opts False f \<Longrightarrow> fetch_clean_of (body_cap opts) (noBody_map (so_NoBodyAPIs opts)) f = f"
  by (cases f) (auto simp: clean_fetch_def clean_body_def fetch_clean_of_def Let_def split: if_splits)

lemma redacted_fetch: "clean_fetch opts True (f\<lparr>mf_RequestBody := [], mf_ResponseBody := []\<rparr>)"
  by (simp add: clean_fetch_def clean_body_def)

lemma redact_already: "clean_fetch opts True f \<Longrightarrow> f\<lparr>mf_RequestBody := [], mf_ResponseBody := []\<rparr> = f"
  by (cases f) (simp add: clean_fetch_def clean_body_def)

text \<open>\<open>Sanitize\<close> with its two loops in closed form.\<close>

lemma Sanitize_closed:
  "Sanitize ev opts =
     (let n = (if noBody_map (so_NoBodyAPIs opts) (ev_API ev) then 0 else body_cap opts);
          h = DefaultSensitiveHeaders @ so_SensitiveHeaders opts
      in ev\<lparr>ev_RequestHeaders := stripHeaders (ev_RequestHeaders ev) h,
            ev_UpstreamHeaders := stripHeaders (ev_UpstreamHeaders ev) h,
            ev_RequestBody := take n (ev_RequestBody ev), ev_UpstreamBody := take n (ev_UpstreamBody ev),
            ev_MetaFetches := sanitized_fetches opts ev,
            ev_Truncated := (ev_Truncated ev \<or> take n (ev_RequestBody ev) \<noteq> ev_RequestBody ev
              \<or> take n (ev_UpstreamBody ev) \<noteq> ev_UpstreamBody ev \<or> sanitized_fetches opts ev \<noteq> ev_MetaFetches ev)\<rparr>)"
proof -
  have same: "map g fs \<noteq> fs \<longleftrightarrow> (\<exists>f \<in> set fs. g f \<noteq> f)" for g and fs :: "MetaFetch list"
    by (metis map_idI map_eq_conv list.map_ident)
  have redact: "f\<lparr>mf_RequestBody := [], mf_ResponseBody := []\<rparr> \<noteq> f \<longleftrightarrow> mf_RequestBody f \<noteq> [] \<or> mf_ResponseBody f \<noteq> []"
    for f :: MetaFetch by (cases f) auto
  show ?thesis
    by (cases ev) (auto simp: Sanitize_def Let_def redact_all sanitize_fetches truncate_body sanitized_fetches_def same redact
        body_cap_def [symmetric])
qed

lemma Sanitize_clean: "clean opts (Sanitize ev opts)"
  using fetch_clean redacted_fetch
  by (auto simp: clean_def Sanitize_closed Let_def strip_clean clean_body_def sanitized_fetches_def)

lemma clean_Sanitize:
  assumes "clean opts ev"
  shows "Sanitize ev opts = ev"
proof -
  let ?nb = "noBody_map (so_NoBodyAPIs opts) (ev_API ev)"
  have "sanitized_fetches opts ev = ev_MetaFetches ev" unfolding sanitized_fetches_def
    by (rule map_idI) (use assms fetch_already_clean redact_already in \<open>auto simp: clean_def Let_def\<close>)
  moreover have "take (if ?nb then 0 else body_cap opts) b = b" if "clean_body ?nb (body_cap opts) b" for b
    using that by (auto simp: clean_body_def split: if_splits)
  ultimately show ?thesis
    using assms unfolding Sanitize_closed by (cases ev) (simp add: clean_def Let_def clean_strip)
qed

text \<open>
  C34: a sanitised event carries no header of the default sensitive list or of the operator's, whatever
  its case; no body over the cap; and no body at all where the request's API, or for a fetch its own
  API, is on the no-body list.  Sanitising is idempotent, and an event that comes out without the
  truncation mark has lost no body byte.
\<close>

theorem Sanitize_correct:
  "clean opts (Sanitize ev opts) \<and> Sanitize (Sanitize ev opts) opts = Sanitize ev opts
   \<and> (\<not> ev_Truncated (Sanitize ev opts) \<longrightarrow>
        ev_RequestBody (Sanitize ev opts) = ev_RequestBody ev \<and> ev_UpstreamBody (Sanitize ev opts) = ev_UpstreamBody ev
        \<and> ev_MetaFetches (Sanitize ev opts) = ev_MetaFetches ev)"
  using Sanitize_clean clean_Sanitize [OF Sanitize_clean] by (simp add: Sanitize_closed Let_def)

theorem Sanitize_correct_witness:
  "let opts = \<lparr>so_MaxBodyBytes = 0, so_NoBodyAPIs = [], so_SensitiveHeaders = []\<rparr>; ev = sample_event ''i'' 5
   in clean opts (Sanitize ev opts) \<and> ev_RequestHeaders (Sanitize ev opts) = [\<lparr>kv_Key = ''Accept'', kv_Value = ''y''\<rparr>]
      \<and> ev_RequestBody (Sanitize ev opts) = ''body''"
proof -
  let ?opts = "\<lparr>so_MaxBodyBytes = 0, so_NoBodyAPIs = [], so_SensitiveHeaders = []\<rparr>" and ?ev = "sample_event ''i'' 5"
  have "\<not> ev_Truncated (Sanitize ?ev ?opts)" by code_simp
  moreover have "ev_RequestHeaders (Sanitize ?ev ?opts) = [\<lparr>kv_Key = ''Accept'', kv_Value = ''y''\<rparr>]" by code_simp
  ultimately show ?thesis using Sanitize_correct [of ?opts ?ev] by (simp add: sample_event_def)
qed

text \<open>The no-body floor is not one: an explicit \<open>false\<close> of the options switches a default API off.\<close>

lemma noBody_floor_removable:
  "noBody_map [] ''google.gmail'' \<and> \<not> noBody_map [(''google.gmail'', False)] ''google.gmail''"
  by (simp add: noBody_map_def DefaultNoBodyAPIs_def)

section \<open>Eviction\<close>

lemma sizes_simps [simp]:
  "sizes [] = 0" "sizes (e # es) = en_size e + sizes es" "sizes (es @ es') = sizes es + sizes es'"
  by (simp_all add: sizes_def)

lemma approxSize_pos: "approxSize ev > 0"
  by (simp add: approxSize_def)

lemma sizes_nonneg: "\<forall>e \<in> set es. en_size e > 0 \<Longrightarrow> sizes es \<ge> 0"
  by (induction es) auto

lemma evict_fits:
  "n \<le> M \<Longrightarrow> \<forall>e \<in> set es. en_size e > 0 \<Longrightarrow>
     fst (evict_loop M cutoff es n ix) = filter (\<lambda>e. \<not> expired cutoff e) es"
  by (induction es arbitrary: n ix) (auto simp: split_beta)

lemma evict_kept:
  "\<forall>e \<in> set es. en_size e > 0 \<Longrightarrow>
     \<exists>k \<le> length es. fst (evict_loop M cutoff es n ix) = filter (\<lambda>e. \<not> expired cutoff e) (drop k es)
       \<and> (\<forall>j < k. n - sizes (take j es) > M)"
proof (induction es arbitrary: n ix)
  case (Cons e es)
  show ?case
  proof (cases "n > M")
    case True
    then have step: "evict_loop M cutoff (e # es) n ix = evict_loop M cutoff es (n - en_size e) (ix(en_ID e := None))"
      by simp
    from Cons.prems have pos: "\<forall>e \<in> set es. en_size e > 0" by simp
    obtain k where k: "k \<le> length es"
      "fst (evict_loop M cutoff (e # es) n ix) = filter (\<lambda>e. \<not> expired cutoff e) (drop k es)"
      "\<forall>j < k. n - en_size e - sizes (take j es) > M"
      unfolding step using Cons.IH [OF pos, of "n - en_size e" "ix(en_ID e := None)"] by blast
    have "n - sizes (take j (e # es)) > M" if "j < Suc k" for j
      using k(3) True that by (cases j) auto
    with k show ?thesis by (intro exI [of _ "Suc k"]) (simp del: evict_loop.simps)
  next
    case False
    with evict_fits [of n M "e # es" cutoff ix] Cons.prems show ?thesis by (intro exI [of _ 0]) auto
  qed
qed simp

lemma evict_bytes:
  "fst (snd (evict_loop M cutoff es n ix)) = n - sizes es + sizes (fst (evict_loop M cutoff es n ix))"
  by (induction es arbitrary: n ix) (auto simp: split_beta)

lemma evict_decreases:
  "\<forall>e \<in> set es. en_size e > 0 \<Longrightarrow> fst (snd (evict_loop M cutoff es n ix)) \<le> n"
proof (induction es arbitrary: n ix)
  case (Cons e es)
  from Cons.prems have pos: "en_size e > 0" "\<forall>e \<in> set es. en_size e > 0" by simp_all
  show ?case
    using Cons.IH [OF pos(2), of "n - en_size e" "ix(en_ID e := None)"] Cons.IH [OF pos(2), of n ix] pos(1)
    by (simp add: split_beta del: fun_upd_apply)
qed simp

lemma evict_budget:
  "n - sizes es \<le> M \<Longrightarrow> \<forall>e \<in> set es. en_size e > 0 \<Longrightarrow> fst (snd (evict_loop M cutoff es n ix)) \<le> M"
proof (induction es arbitrary: n ix)
  case (Cons e es)
  show ?case
  proof (cases "n > M \<or> expired cutoff e")
    case True
    then show ?thesis using Cons.IH [of "n - en_size e"] Cons.prems by simp
  next
    case False
    then show ?thesis using evict_decreases [OF Cons.prems(2), of M cutoff n ix] by linarith
  qed
qed simp

lemma evict_set: "set (fst (evict_loop M cutoff es n ix)) \<subseteq> set es"
  by (induction es arbitrary: n ix) (auto simp: split_beta)

lemma evict_index:
  "distinct (map en_ID es) \<Longrightarrow> (\<forall>i \<in> en_ID ` set es. ix i = find_by en_ID i es) \<Longrightarrow>
     snd (snd (evict_loop M cutoff es n ix)) i =
       (if i \<in> en_ID ` set es then find_by en_ID i (fst (evict_loop M cutoff es n ix)) else ix i)"
proof (induction es arbitrary: n ix)
  case (Cons e es)
  from Cons.prems have d: "distinct (map en_ID es)" and new: "en_ID e \<notin> en_ID ` set es" by auto
  show ?case
  proof (cases "n > M \<or> expired cutoff e")
    case True
    define ix' where "ix' = ix(en_ID e := None)"
    have ix: "\<forall>i \<in> en_ID ` set es. ix' i = find_by en_ID i es"
    proof
      fix i assume i: "i \<in> en_ID ` set es"
      with new have "i \<noteq> en_ID e" by blast
      with i Cons.prems(2) show "ix' i = find_by en_ID i es" by (auto simp: ix'_def)
    qed
    have gone: "find_by en_ID (en_ID e) (fst (evict_loop M cutoff es (n - en_size e) ix')) = None"
      using new evict_set [of M cutoff es "n - en_size e" ix'] by (auto simp: find_by_None_iff)
    from True have step: "evict_loop M cutoff (e # es) n ix = evict_loop M cutoff es (n - en_size e) ix'"
      by (auto simp: ix'_def)
    have "ix' i = (if i = en_ID e then None else ix i)" by (simp add: ix'_def)
    then show ?thesis unfolding step Cons.IH [OF d ix, of "n - en_size e"] using new gone by auto
  next
    case False
    have "\<forall>i \<in> en_ID ` set es. ix i = find_by en_ID i es" using Cons.prems new by auto
    from Cons.IH [OF d this, of n] False Cons.prems new show ?thesis by (auto simp: split_beta)
  qed
qed simp

lemma sizes_remove_by:
  "find_by en_ID i es = Some e \<Longrightarrow> sizes (remove_by en_ID i es) = sizes es - en_size e"
  by (induction es) (auto split: if_splits)

lemma sizes_drop: "sizes (drop j es) = sizes es - sizes (take j es)"
  using sizes_simps(3) [of "take j es" "drop j es"] by simp

lemma evictLocked_correct:
  assumes "mem_inv s"
  shows "mem_inv (evictLocked now s)"
    and "ms_bytes (evictLocked now s) \<le> op_MaxBytes (ms_opts s)"
    and "ms_opts (evictLocked now s) = ms_opts s"
    and "\<exists>k \<le> length (ms_ll s).
           ms_ll (evictLocked now s) =
             filter (\<lambda>e. \<not> expired (now - op_MaxAge (ms_opts s)) e) (drop k (ms_ll s))
           \<and> (\<forall>j < k. sizes (drop j (ms_ll s)) > op_MaxBytes (ms_opts s))"
proof -
  let ?M = "op_MaxBytes (ms_opts s)" and ?c = "now - op_MaxAge (ms_opts s)"
  let ?r = "evict_loop ?M ?c (ms_ll s) (ms_bytes s) (ms_byID s)"
  have d: "distinct (map en_ID (ms_ll s))" and ix: "\<And>i. ms_byID s i = find_by en_ID i (ms_ll s)"
    and n: "ms_bytes s = sizes (ms_ll s)" and sz: "\<forall>e \<in> set (ms_ll s). en_size e = approxSize (en_ev e)"
    and M: "?M > 0" using assms by (auto simp: mem_inv_def)
  have pos: "\<forall>e \<in> set (ms_ll s). en_size e > 0" using sz approxSize_pos by simp
  have fields_eq: "ms_ll (evictLocked now s) = fst ?r" "ms_bytes (evictLocked now s) = fst (snd ?r)"
    "ms_byID (evictLocked now s) = snd (snd ?r)" "ms_opts (evictLocked now s) = ms_opts s"
    by (simp_all add: evictLocked_def split_beta)
  obtain k where k: "k \<le> length (ms_ll s)" "fst ?r = filter (\<lambda>e. \<not> expired ?c e) (drop k (ms_ll s))"
    "\<forall>j < k. sizes (drop j (ms_ll s)) > ?M"
    using evict_kept [OF pos, of ?M ?c "ms_bytes s" "ms_byID s"] unfolding n sizes_drop by blast
  have d': "distinct (map en_ID (fst ?r))" unfolding k(2) drop_map [symmetric]
    using d by (metis distinct_drop distinct_map_filter drop_map)
  have sub: "set (fst ?r) \<subseteq> set (ms_ll s)" by (rule evict_set)
  have absent: "find_by en_ID i (ms_ll s) = find_by en_ID i (fst ?r)" if "i \<notin> en_ID ` set (ms_ll s)" for i
    using that sub by (metis find_by_None_iff image_mono subsetD)
  have "\<forall>i. ms_byID (evictLocked now s) i = find_by en_ID i (fst ?r)"
    unfolding fields_eq using evict_index [OF d, of "ms_byID s"] ix absent by auto
  moreover have "fst (snd ?r) = sizes (fst ?r)" using evict_bytes n by simp
  ultimately show "mem_inv (evictLocked now s)"
    using d' M sz evict_set [of ?M ?c "ms_ll s" "ms_bytes s" "ms_byID s"] unfolding mem_inv_def fields_eq by blast
  show "ms_bytes (evictLocked now s) \<le> ?M" unfolding fields_eq
    by (rule evict_budget [OF _ pos]) (use n M in simp)
  show "ms_opts (evictLocked now s) = ms_opts s" by (rule fields_eq)
  show "\<exists>k \<le> length (ms_ll s). ms_ll (evictLocked now s) = filter (\<lambda>e. \<not> expired ?c e) (drop k (ms_ll s))
      \<and> (\<forall>j < k. sizes (drop j (ms_ll s)) > ?M)" unfolding fields_eq using k by blast
qed

lemma mem_inv_new: "mem_inv (newMemoryStore opts)"
  by (simp add: mem_inv_def newMemoryStore_def defaulted_def DefaultMaxBytes_def)

text \<open>The store between the insertion proper and the eviction.\<close>

lemma insert_inv:
  assumes "mem_inv s"
  shows "\<exists>s1. mem_inv s1 \<and> memory_Insert now ev s = evictLocked now s1 \<and> ms_opts s1 = ms_opts s
           \<and> ms_ll s1 = remove_by en_ID (ev_ID ev) (ms_ll s) @ [\<lparr>en_ev = ev, en_size = approxSize ev\<rparr>]"
proof -
  let ?e = "\<lparr>en_ev = ev, en_size = approxSize ev\<rparr>" and ?ll = "remove_by en_ID (ev_ID ev) (ms_ll s)"
  define n where "n = (case ms_byID s (ev_ID ev) of None \<Rightarrow> ms_bytes s | Some old \<Rightarrow> ms_bytes s - en_size old)"
  define ix where "ix = (ms_byID s)(ev_ID ev \<mapsto> ?e)"
  let ?s1 = "s\<lparr>ms_ll := ?ll @ [?e], ms_byID := ix, ms_bytes := n + approxSize ev\<rparr>"
  have d: "distinct (map en_ID (ms_ll s))" and byID: "\<And>i. ms_byID s i = find_by en_ID i (ms_ll s)"
    using assms by (auto simp: mem_inv_def)
  have same: "?ll = ms_ll s" if "ms_byID s (ev_ID ev) = None"
    using that byID by (simp add: remove_by_id find_by_None_iff)
  have step: "memory_Insert now ev s = evictLocked now ?s1"
    by (cases "ms_byID s (ev_ID ev)") (simp_all add: memory_Insert_def Let_def n_def ix_def same)
  have "n = sizes ?ll" using assms same sizes_remove_by byID
    by (cases "ms_byID s (ev_ID ev)") (simp_all add: n_def mem_inv_def)
  moreover have "distinct (map en_ID (?ll @ [?e]))"
    using distinct_remove_by [OF d] remove_by_keys [OF d] by simp
  moreover have "\<forall>i. ix i = find_by en_ID i (?ll @ [?e])"
    using byID by (auto simp: ix_def find_by_append find_by_remove_by [OF d] split: option.split)
  ultimately have "mem_inv ?s1"
    using assms set_remove_by_subset [of en_ID "ev_ID ev" "ms_ll s"] by (auto simp: mem_inv_def)
  with step show ?thesis by (intro exI [of _ ?s1]) simp
qed

lemma map_ids: "map f xs = ys \<Longrightarrow> x \<in> set xs \<Longrightarrow> f x \<in> set ys"
  by auto

lemma insert_keeps_inv: "mem_inv s \<Longrightarrow> mem_inv (memory_Insert now ev s)"
  using insert_inv evictLocked_correct(1) by metis

text \<open>
  inserting an event keeps the store's index, byte counter and list in agreement and the total
  within the byte budget; what is kept is, in insertion order, the old content (less an event of the
  same id) and the new event, from which only the oldest entries have been cut, none of them while
  the rest was within the budget, and then the entries past the age limit.
\<close>

theorem memory_Insert_correct:
  assumes "mem_inv s"
  shows "let s' = memory_Insert now ev s;
             L = remove_by en_ID (ev_ID ev) (ms_ll s) @ [\<lparr>en_ev = ev, en_size = approxSize ev\<rparr>]
         in mem_inv s' \<and> sizes (ms_ll s') \<le> op_MaxBytes (ms_opts s)
            \<and> (\<exists>k \<le> length L. ms_ll s' = filter (\<lambda>e. \<not> expired (now - op_MaxAge (ms_opts s)) e) (drop k L)
                  \<and> (\<forall>j < k. sizes (drop j L) > op_MaxBytes (ms_opts s)))"
proof -
  obtain s1 where s1: "mem_inv s1" "memory_Insert now ev s = evictLocked now s1" "ms_opts s1 = ms_opts s"
    "ms_ll s1 = remove_by en_ID (ev_ID ev) (ms_ll s) @ [\<lparr>en_ev = ev, en_size = approxSize ev\<rparr>]"
    using insert_inv [OF assms, of now ev] by blast
  note evicted = evictLocked_correct [OF s1(1), of now, unfolded s1(3)]
  from evicted(1,2) have "sizes (ms_ll (evictLocked now s1)) \<le> op_MaxBytes (ms_opts s)"
    by (simp add: mem_inv_def)
  with evicted(1,4) show ?thesis unfolding Let_def s1(2) s1(4) [symmetric] by blast
qed

theorem memory_Insert_correct_witness:
  "let s = memory_Insert 0 (sample_event ''a'' 0) (newMemoryStore \<lparr>op_MaxBytes = 200, op_MaxAge = 100\<rparr>);
       s' = memory_Insert 1 (sample_event ''b'' 1) s
   in mem_inv s \<and> mem_inv s' \<and> sizes (ms_ll s') \<le> 200 \<and> map en_ID (ms_ll s') = [''b'']"
proof -
  let ?s0 = "newMemoryStore \<lparr>op_MaxBytes = 200, op_MaxAge = 100\<rparr>"
  let ?s = "memory_Insert 0 (sample_event ''a'' 0) ?s0"
  have s: "mem_inv ?s"
    using memory_Insert_correct [OF mem_inv_new, of 0 "sample_event ''a'' 0"] by (simp add: Let_def)
  have "map en_ID (ms_ll (memory_Insert 1 (sample_event ''b'' 1) ?s)) = [''b'']" "op_MaxBytes (ms_opts ?s) = 200"
    by code_simp+
  with s memory_Insert_correct [OF s, of 1 "sample_event ''b'' 1"] show ?thesis by (simp add: Let_def)
qed

section \<open>Keyset pagination\<close>

text \<open>
  A listing is paged by keyset when its rows are strictly descending in (time, id), every row has an
  id, the first page is the head of the rows, and the page after the cursor of a row is the head of
  the rows strictly below it.  Following the cursors then returns every row once, in order.
\<close>

locale keyset_listing =
  fixes inv :: "'s \<Rightarrow> bool"
    and rows :: "'s \<Rightarrow> Summary list"
    and limit :: nat
    and page :: "'s \<Rightarrow> Cursor \<Rightarrow> (Summary list \<times> Cursor) option"
  assumes limit_pos: "0 < limit"
    and descending: "inv s \<Longrightarrow> sorted_wrt (\<lambda>a b. sum_key b < sum_key a) (rows s)"
    and has_id: "inv s \<Longrightarrow> r \<in> set (rows s) \<Longrightarrow> su_ID r \<noteq> []"
    and page_first: "inv s \<Longrightarrow> page s CEmpty = Some (cut limit (rows s))"
    and page_next: "inv s \<Longrightarrow> r \<in> set (rows s) \<Longrightarrow>
       page s (CPos (su_Timestamp r) (su_ID r)) = Some (cut limit (filter (\<lambda>x. sum_key x < sum_key r) (rows s)))"
begin

lemma below_row:
  assumes "inv s" "m < length (rows s)"
  shows "filter (\<lambda>x. sum_key x < sum_key (rows s ! m)) (rows s) = drop (Suc m) (rows s)"
proof -
  let ?xs = "rows s" and ?P = "\<lambda>x. sum_key x < sum_key (rows s ! m)"
  have split: "?xs = take (Suc m) ?xs @ drop (Suc m) ?xs" by simp
  have low: "sum_key (?xs ! j) < sum_key (?xs ! i)" if "i < j" "j < length ?xs" for i j
    using descending [OF assms(1)] that by (simp add: sorted_wrt_iff_nth_less)
  have "\<not> ?P x" if "x \<in> set (take (Suc m) ?xs)" for x
  proof -
    from that obtain i where "i < Suc m" "x = ?xs ! i" by (auto simp: in_set_conv_nth)
    with low [of i m] assms(2) show ?thesis by (cases "i = m") auto
  qed
  moreover have "?P x" if "x \<in> set (drop (Suc m) ?xs)" for x
    using that low [of m] by (auto simp: in_set_conv_nth)
  ultimately show ?thesis by (subst split, subst filter_append) simp
qed

lemma collect_from:
  assumes "inv s" "page s c = Some (cut limit (drop m (rows s)))" "length (rows s) < m + n" "0 < n"
  shows "collect n (page s) c = Some (drop m (rows s))"
  using assms(2-)
proof (induction n arbitrary: c m)
  case (Suc n)
  show ?case
  proof (cases "length (rows s) > m + limit")
    case True
    let ?j = "m + limit - 1" and ?c = "CPos (su_Timestamp (rows s ! (m + limit - 1))) (su_ID (rows s ! (m + limit - 1)))"
    have j: "?j < length (rows s)" and at: "drop m (rows s) ! (limit - 1) = rows s ! ?j"
      using True limit_pos by simp_all
    have p: "page s c = Some (take limit (drop m (rows s)), ?c)"
      using Suc.prems(1) True at by (simp add: cut_def)
    have next_page: "page s ?c = Some (cut limit (drop (m + limit) (rows s)))"
      using page_next [OF assms(1) nth_mem [OF j]] below_row [OF assms(1) j] limit_pos by simp
    have "collect n (page s) ?c = Some (drop (m + limit) (rows s))"
      by (rule Suc.IH [OF next_page]) (use Suc.prems True limit_pos in linarith)+
    with p show ?thesis by (simp add: append_take_drop_id add.commute flip: drop_drop)
  next
    case False
    then have "\<not> length (drop m (rows s)) > limit" by simp
    with Suc.prems(1) show ?thesis unfolding cut_def by (simp only: collect.simps if_False) simp
  qed
qed simp

lemma collect_all:
  assumes "inv s" "length (rows s) < n"
  shows "collect n (page s) CEmpty = Some (rows s)"
  using collect_from [of s CEmpty 0 n] page_first assms by simp

end

lemma limit_positive: "0 < nat (ClampLimit n)"
  by (simp add: ClampLimit_def DefaultListLimit_def MaxListLimit_def)

lemma sum_key_summary [simp]: "sum_key (summary ev) = ev_key ev"
  by (simp add: sum_key_def summary_def ev_key_def)

lemma skip_to_filter:
  "sorted_wrt (\<lambda>a b. ev_key b < ev_key a) evs \<Longrightarrow> skip_to ts i evs = filter (\<lambda>ev. ev_key ev < (ts, i)) evs"
proof (induction evs)
  case (Cons ev evs)
  have key: "ev_key ev < (ts, i) \<longleftrightarrow> ev_Timestamp ev < ts \<or> ev_Timestamp ev = ts \<and> ev_ID ev < i"
    by (auto simp: ev_key_def less_prod_def)
  show ?case
  proof (cases "ev_key ev < (ts, i)")
    case True
    then have "filter (\<lambda>ev. ev_key ev < (ts, i)) evs = evs"
      using Cons.prems by (intro filter_True) auto
    with True key show ?thesis by simp
  next
    case False
    with Cons key show ?thesis by auto
  qed
qed simp

lemma newest_first_descending:
  assumes "distinct (map ev_ID evs)"
  shows "sorted_wrt (\<lambda>a b. ev_key b < ev_key a) (newest_first evs)"
proof -
  have "inj_on ev_key (set evs)" using assms by (auto simp: distinct_map inj_on_def ev_key_def)
  then have "distinct (map ev_key (sort_key ev_key evs))"
    using assms by (simp add: distinct_map)
  then have "sorted_wrt (<) (map ev_key (sort_key ev_key evs))"
    by (simp add: strict_sorted_iff)
  then show ?thesis by (simp add: newest_first_def sorted_wrt_rev sorted_wrt_map)
qed

lemma match_opts_cursor [simp]: "match_opts ev (opts\<lparr>lo_Cursor := c\<rparr>) = match_opts ev opts"
  by (simp add: match_opts_def)

lemma matched_descending:
  assumes "mem_inv s"
  shows "sorted_wrt (\<lambda>a b. ev_key b < ev_key a) (newest_first (filter (\<lambda>ev. match_opts ev opts) (events s)))"
proof -
  have "distinct (map ev_ID (events s))" using assms by (simp add: mem_inv_def events_def comp_def)
  then show ?thesis by (intro newest_first_descending distinct_map_filter)
qed

lemma cut_page:
  assumes "\<forall>ev \<in> set evs. ev_ID ev \<noteq> []" "0 < limit"
  shows "(if length evs > limit
          then (map summary (take limit evs), EncodeCursor (ev_Timestamp (last (take limit evs))) (ev_ID (last (take limit evs))))
          else (map summary evs, CEmpty)) = cut limit (map summary evs)"
proof (cases "length evs > limit")
  case True
  then have "last (take limit evs) = evs ! (limit - 1)"
    using assms(2) last_conv_nth [of "take limit evs"] by (cases evs) auto
  with True assms show ?thesis by (auto simp: cut_def EncodeCursor_def summary_def take_map)
qed (simp add: cut_def)

lemma memory_List_page:
  assumes "named_inv s"
  shows "memory_List (opts\<lparr>lo_Cursor := CEmpty\<rparr>) s = Some (cut (nat (ClampLimit (lo_Limit opts))) (matching opts s))"
    and "i \<noteq> [] \<Longrightarrow> memory_List (opts\<lparr>lo_Cursor := CPos ts i\<rparr>) s =
           Some (cut (nat (ClampLimit (lo_Limit opts))) (filter (\<lambda>r. sum_key r < (ts, i)) (matching opts s)))"
proof -
  let ?xs = "newest_first (filter (\<lambda>ev. match_opts ev opts) (events s))"
  have ids: "\<forall>ev \<in> set ?xs. ev_ID ev \<noteq> []" "\<forall>ev \<in> set (filter P ?xs). ev_ID ev \<noteq> []" for P
    using assms by (auto simp: named_inv_def newest_first_def events_def)
  note desc = matched_descending [of s opts]
  show "memory_List (opts\<lparr>lo_Cursor := CEmpty\<rparr>) s = Some (cut (nat (ClampLimit (lo_Limit opts))) (matching opts s))"
    unfolding matching_def cut_page [OF ids(1) limit_positive, symmetric]
    by (simp add: memory_List_def DecodeCursor_def Let_def events_def)
  assume "i \<noteq> []"
  then show "memory_List (opts\<lparr>lo_Cursor := CPos ts i\<rparr>) s =
      Some (cut (nat (ClampLimit (lo_Limit opts))) (filter (\<lambda>r. sum_key r < (ts, i)) (matching opts s)))"
    unfolding matching_def filter_map comp_def sum_key_summary cut_page [OF ids(2) limit_positive, symmetric]
    using assms skip_to_filter [OF desc]
    by (simp add: memory_List_def DecodeCursor_def Let_def events_def named_inv_def)
qed

interpretation mem_listing: keyset_listing named_inv "matching opts" "nat (ClampLimit (lo_Limit opts))"
  "\<lambda>s c. memory_List (opts\<lparr>lo_Cursor := c\<rparr>) s" for opts
proof
  fix s r assume inv: "named_inv s" and r: "r \<in> set (matching opts s)"
  show id: "su_ID r \<noteq> []" using inv r
    by (auto simp: named_inv_def matching_def newest_first_def events_def summary_def)
  show "memory_List (opts\<lparr>lo_Cursor := CPos (su_Timestamp r) (su_ID r)\<rparr>) s =
      Some (cut (nat (ClampLimit (lo_Limit opts))) (filter (\<lambda>x. sum_key x < sum_key r) (matching opts s)))"
    unfolding memory_List_page(2) [OF inv id] by (simp add: sum_key_def)
next
  fix s assume "named_inv s"
  then show "sorted_wrt (\<lambda>a b. sum_key b < sum_key a) (matching opts s)"
    using matched_descending by (simp add: matching_def sorted_wrt_map named_inv_def)
qed (use limit_positive in \<open>simp_all add: memory_List_page(1)\<close>)

text \<open>
  a client that follows the cursors of the in-memory listing from the first page on receives every
  stored event that matches its filters exactly once, newest first, whatever page size it asks for,
  after at most one more page than there are matching events.
\<close>

theorem memory_List_complete:
  assumes "named_inv s" "length (filter (\<lambda>ev. match_opts ev opts) (events s)) < n"
  shows "\<exists>evs. collect n (\<lambda>c. memory_List (opts\<lparr>lo_Cursor := c\<rparr>) s) CEmpty = Some (map summary evs)
           \<and> mset evs = mset (filter (\<lambda>ev. match_opts ev opts) (events s))
           \<and> sorted_wrt (\<lambda>a b. ev_key b < ev_key a) evs"
proof (intro exI conjI)
  let ?evs = "newest_first (filter (\<lambda>ev. match_opts ev opts) (events s))"
  show "collect n (\<lambda>c. memory_List (opts\<lparr>lo_Cursor := c\<rparr>) s) CEmpty = Some (map summary ?evs)"
    using mem_listing.collect_all [OF assms(1), of opts n] assms(2) by (simp add: matching_def newest_first_def)
  show "mset ?evs = mset (filter (\<lambda>ev. match_opts ev opts) (events s))" by (simp add: newest_first_def)
  show "sorted_wrt (\<lambda>a b. ev_key b < ev_key a) ?evs"
    using assms(1) matched_descending by (simp add: named_inv_def)
qed

theorem memory_List_complete_witness:
  "let opts = \<lparr>lo_API = [], lo_APIs = [], lo_Action = [], lo_Method = ''GET'', lo_Decision = [], lo_PathPrefix = ''/'',
                lo_Since = zeroTime, lo_Until = zeroTime, lo_Subject = None, lo_Limit = 1, lo_Cursor = CEmpty\<rparr>;
       s = memory_Insert 1 (sample_event ''b'' 1) (memory_Insert 0 (sample_event ''a'' 0)
             (newMemoryStore \<lparr>op_MaxBytes = 0, op_MaxAge = 100\<rparr>))
   in map_option (map su_ID) (collect 3 (\<lambda>c. memory_List (opts\<lparr>lo_Cursor := c\<rparr>) s) CEmpty) = Some [''b'', ''a'']
      \<and> (\<exists>evs. collect 3 (\<lambda>c. memory_List (opts\<lparr>lo_Cursor := c\<rparr>) s) CEmpty = Some (map summary evs)
            \<and> mset evs = mset (events s))"
proof -
  let ?opts = "\<lparr>lo_API = [], lo_APIs = [], lo_Action = [], lo_Method = ''GET'', lo_Decision = [], lo_PathPrefix = ''/'',
                lo_Since = zeroTime, lo_Until = zeroTime, lo_Subject = None, lo_Limit = 1, lo_Cursor = CEmpty\<rparr>"
  let ?s1 = "memory_Insert 0 (sample_event ''a'' 0) (newMemoryStore \<lparr>op_MaxBytes = 0, op_MaxAge = 100\<rparr>)"
  let ?s = "memory_Insert 1 (sample_event ''b'' 1) ?s1"
  have "mem_inv ?s1" using insert_keeps_inv [OF mem_inv_new] .
  then have "mem_inv ?s" by (rule insert_keeps_inv)
  moreover have ids: "map en_ID (ms_ll ?s) = [''a'', ''b'']" by code_simp
  ultimately have inv: "named_inv ?s" using map_ids [OF ids] by (auto simp: named_inv_def)
  have all: "filter (\<lambda>ev. match_opts ev ?opts) (events ?s) = events ?s" by code_simp
  have "length (events ?s) < 3" by code_simp
  then obtain evs where "collect 3 (\<lambda>c. memory_List (?opts\<lparr>lo_Cursor := c\<rparr>) ?s) CEmpty = Some (map summary evs)"
    "mset evs = mset (events ?s)"
    using memory_List_complete [OF inv, of ?opts 3] unfolding all by blast
  moreover have "map_option (map su_ID) (collect 3 (\<lambda>c. memory_List (?opts\<lparr>lo_Cursor := c\<rparr>) ?s) CEmpty) = Some [''b'', ''a'']"
    by code_simp
  ultimately show ?thesis unfolding Let_def by blast
qed

end
