(* ===== verification/TrafficSqlite.thy ===== *)
theory TrafficSqlite
  imports Traffic
begin

text \<open>
  The SQLite store of captured requests, \<^verbatim>\<open>internal/control/traffic/sqlite_store.go\<close>.  The table is a list of
  rows in insertion order with the id as primary key; each SQL statement of the source is the list
  function it denotes.  JSON marshalling of the payload is a parameter.  The byte-budget loop is a
  terminating function: every round either deletes a row or returns.
\<close>

section \<open>Definitions\<close>

record trow =
  tr_id :: EventID
  tr_ts :: int
  tr_subject :: string
  tr_method :: string
  tr_url :: string
  tr_api :: string
  tr_action :: string
  tr_decision :: string
  tr_policy :: string
  tr_upstream_status :: int
  tr_latency_ms :: int
  tr_size_bytes :: int
  tr_payload :: string

record sqliteEvents =
  sq_rows :: "trow list"
  sq_opts :: Options

datatype sql_err = EMarshal | ENotFound | EDecode

definition newSQLiteStore :: "trow list \<Rightarrow> Options \<Rightarrow> sqliteEvents" where
  "newSQLiteStore table opts = \<lparr>sq_rows = table, sq_opts = defaulted opts\<rparr>"

definition UnixMilli :: "int \<Rightarrow> int" where
  "UnixMilli t = t div 1000000"

definition row_of :: "Event \<Rightarrow> string \<Rightarrow> trow" where
  "row_of ev payload =
     \<lparr>tr_id = ev_ID ev, tr_ts = UnixMilli (ev_Timestamp ev), tr_subject = ev_Subject ev, tr_method = ev_Method ev,
      tr_url = ev_URL ev, tr_api = ev_API ev, tr_action = ev_Action ev, tr_decision = ev_Decision ev,
      tr_policy = ev_Policy ev, tr_upstream_status = ev_UpstreamStatus ev, tr_latency_ms = ev_LatencyMS ev,
      tr_size_bytes = int (length payload), tr_payload = payload\<rparr>"

definition tr_key :: "trow \<Rightarrow> int \<times> EventID" where
  "tr_key r = (tr_ts r, tr_id r)"

definition total_bytes :: "trow list \<Rightarrow> int" where
  "total_bytes rows = sum_list (map tr_size_bytes rows)"

definition oldest_first :: "trow list \<Rightarrow> trow list" where
  "oldest_first rows = sort_key tr_key rows"

definition delete_oldest :: "nat \<Rightarrow> trow list \<Rightarrow> trow list" where
  "delete_oldest n rows = filter (\<lambda>r. tr_id r \<notin> set (map tr_id (take n (oldest_first rows)))) rows"

text \<open>The loop of \<open>evictTx\<close>: \<open>n\<close> doubles, \<open>RowsAffected\<close> is the drop in the number of rows.\<close>

function evict_rounds :: "int \<Rightarrow> nat \<Rightarrow> trow list \<Rightarrow> trow list" where
  "evict_rounds maxBytes n rows =
     (if total_bytes rows \<le> maxBytes then rows
      else (let rows' = delete_oldest n rows
            in if length rows' = length rows then rows' else evict_rounds maxBytes (n * 2) rows'))"
  by auto
termination
  by (relation "measure (\<lambda>(M, n, rows). length rows)")
    (auto simp: delete_oldest_def order.not_eq_order_implies_strict)

definition evictTx :: "Options \<Rightarrow> int \<Rightarrow> trow list \<Rightarrow> trow list" where
  "evictTx opts now rows =
     (let ageCutoff = UnixMilli (now - op_MaxAge opts)
      in evict_rounds (op_MaxBytes opts) 32 (filter (\<lambda>r. \<not> tr_ts r < ageCutoff) rows))"

definition sqlite_Insert ::
  "(Event \<Rightarrow> string option) \<Rightarrow> int \<Rightarrow> Event \<Rightarrow> sqliteEvents \<Rightarrow> (sql_err + unit) \<times> sqliteEvents" where
  "sqlite_Insert marshal now ev s =
     (case marshal ev of
        None \<Rightarrow> (Inl EMarshal, s)
      | Some payload \<Rightarrow>
          (Inr (), s\<lparr>sq_rows := evictTx (sq_opts s) now (upsert_by tr_id (row_of ev payload) (sq_rows s))\<rparr>))"

definition sqlite_Get :: "(string \<Rightarrow> Event option) \<Rightarrow> EventID \<Rightarrow> sqliteEvents \<Rightarrow> sql_err + Event" where
  "sqlite_Get unmarshal i s =
     (case find_by tr_id i (sq_rows s) of
        None \<Rightarrow> Inl ENotFound
      | Some r \<Rightarrow> (case unmarshal (tr_payload r) of None \<Rightarrow> Inl EDecode | Some ev \<Rightarrow> Inr ev))"

subsection \<open>LIKE patterns\<close>

definition backslash :: char where "backslash = CHR 0x5C"

definition escapeLike :: "string \<Rightarrow> string" where
  "escapeLike s =
     concat (map (\<lambda>c. if c = backslash \<or> c = CHR ''%'' \<or> c = CHR ''_'' then [backslash, c] else [c]) s)"

text \<open>SQLite's \<open>LIKE ... ESCAPE\<close> with a backslash, which ignores the case of ASCII letters.\<close>

fun like :: "string \<Rightarrow> string \<Rightarrow> bool" where
  "like [] s = (s = [])"
| "like (p # ps) s =
     (if p = backslash then
        (case (ps, s) of (c # ps', x # xs) \<Rightarrow> lower_char c = lower_char x \<and> like ps' xs | _ \<Rightarrow> False)
      else if p = CHR ''%'' then like ps s \<or> (case s of [] \<Rightarrow> False | x # xs \<Rightarrow> like (p # ps) xs)
      else (case s of [] \<Rightarrow> False
            | x # xs \<Rightarrow> (p = CHR ''_'' \<or> lower_char p = lower_char x) \<and> like ps xs))"

subsection \<open>Listing\<close>

definition where_clause :: "TrafficListOpts \<Rightarrow> trow \<Rightarrow> bool" where
  "where_clause opts r \<longleftrightarrow>
     (if lo_APIs opts \<noteq> [] then tr_api r \<in> set (lo_APIs opts)
      else lo_API opts \<noteq> [] \<longrightarrow> tr_api r = lo_API opts)
     \<and> (lo_Action opts \<noteq> [] \<longrightarrow> tr_action r = lo_Action opts)
     \<and> (lo_Method opts \<noteq> [] \<longrightarrow> tr_method r = lo_Method opts)
     \<and> (lo_Decision opts \<noteq> [] \<longrightarrow> tr_decision r = lo_Decision opts)
     \<and> (lo_PathPrefix opts \<noteq> [] \<longrightarrow> like (escapeLike (lo_PathPrefix opts) @ ''%'') (tr_url r))
     \<and> (lo_Since opts \<noteq> zeroTime \<longrightarrow> tr_ts r \<ge> UnixMilli (lo_Since opts))
     \<and> (lo_Until opts \<noteq> zeroTime \<longrightarrow> tr_ts r \<le> UnixMilli (lo_Until opts))
     \<and> (case lo_Subject opts of None \<Rightarrow> True | Some sub \<Rightarrow> tr_subject r = sub)"

definition cursor_clause :: "int \<Rightarrow> EventID \<Rightarrow> trow \<Rightarrow> bool" where
  "cursor_clause curTS curID r \<longleftrightarrow>
     (curID \<noteq> [] \<longrightarrow> tr_ts r < UnixMilli curTS \<or> tr_ts r = UnixMilli curTS \<and> tr_id r < curID)"

definition scan_summary :: "trow \<Rightarrow> Summary" where
  "scan_summary r =
     \<lparr>su_ID = tr_id r, su_Timestamp = tr_ts r * 1000000, su_Subject = tr_subject r, su_Method = tr_method r,
      su_URL = tr_url r, su_API = tr_api r, su_Action = tr_action r, su_Decision = tr_decision r,
      su_Policy = tr_policy r, su_UpstreamStatus = tr_upstream_status r, su_LatencyMS = tr_latency_ms r\<rparr>"

definition sqlite_ListEvents :: "TrafficListOpts \<Rightarrow> sqliteEvents \<Rightarrow> (Summary list \<times> Cursor) option" where
  "sqlite_ListEvents opts s =
     (case DecodeCursor (lo_Cursor opts) of
        None \<Rightarrow> None
      | Some (curTS, curID) \<Rightarrow>
          (let limit = nat (ClampLimit (lo_Limit opts));
               out = map scan_summary (take (limit + 1)
                       (rev (oldest_first (filter (\<lambda>r. where_clause opts r \<and> cursor_clause curTS curID r) (sq_rows s)))))
           in if length out > limit then
                (let page = take limit out; lst = last page
                 in Some (page, EncodeCursor (su_Timestamp lst) (su_ID lst)))
              else Some (out, CEmpty)))"

subsection \<open>Specification\<close>

definition sql_inv :: "sqliteEvents \<Rightarrow> bool" where
  "sql_inv s \<longleftrightarrow> distinct (map tr_id (sq_rows s)) \<and> (\<forall>r \<in> set (sq_rows s). tr_size_bytes r \<ge> 0)
     \<and> op_MaxBytes (sq_opts s) > 0"

definition sql_named_inv :: "sqliteEvents \<Rightarrow> bool" where
  "sql_named_inv s \<longleftrightarrow> sql_inv s \<and> (\<forall>r \<in> set (sq_rows s). tr_id r \<noteq> [])"

definition sql_matching :: "TrafficListOpts \<Rightarrow> sqliteEvents \<Rightarrow> Summary list" where
  "sql_matching opts s = map scan_summary (rev (oldest_first (filter (where_clause opts) (sq_rows s))))"

section \<open>Eviction\<close>

declare evict_rounds.simps [simp del]

lemma total_bytes_simps [simp]:
  "total_bytes [] = 0" "total_bytes (r # rs) = tr_size_bytes r + total_bytes rs"
  by (simp_all add: total_bytes_def)

lemma total_bytes_oldest [simp]: "total_bytes (oldest_first rows) = total_bytes rows"
  unfolding total_bytes_def oldest_first_def by (metis mset_map mset_sort sum_mset_sum_list)

lemma oldest_first_set [simp]: "set (oldest_first rows) = set rows" "length (oldest_first rows) = length rows"
  by (simp_all add: oldest_first_def)

lemma distinct_oldest: "distinct (map tr_id rows) \<Longrightarrow> distinct (map tr_id (oldest_first rows))"
  by (simp add: oldest_first_def distinct_map)

lemma filter_not_taken:
  "distinct (map f xs) \<Longrightarrow> filter (\<lambda>x. f x \<notin> set (map f (take n xs))) xs = drop n xs"
proof (induction xs arbitrary: n)
  case (Cons x xs)
  then show ?case
  proof (cases n)
    case (Suc m)
    have "filter (\<lambda>y. f y \<notin> set (map f (take n (x # xs)))) (x # xs) = filter (\<lambda>y. f y \<notin> set (map f (take m xs))) xs"
      using Cons.prems Suc by (auto intro!: filter_cong simp: rev_image_eqI)
    with Cons Suc show ?thesis by simp
  qed simp
qed simp

lemma oldest_delete:
  assumes "distinct (map tr_id rows)"
  shows "oldest_first (delete_oldest n rows) = drop n (oldest_first rows)"
  using filter_not_taken [OF distinct_oldest [OF assms], of n]
  unfolding delete_oldest_def oldest_first_def by (simp add: filter_sort)

lemma distinct_delete: "distinct (map tr_id rows) \<Longrightarrow> distinct (map tr_id (delete_oldest n rows))"
  by (simp add: delete_oldest_def distinct_map_filter)

lemma evict_rounds_kept:
  assumes "distinct (map tr_id rows)" "0 < n" "0 \<le> M"
  shows "total_bytes (evict_rounds M n rows) \<le> M \<and> distinct (map tr_id (evict_rounds M n rows))
     \<and> set (evict_rounds M n rows) \<subseteq> set rows
     \<and> (\<exists>k. oldest_first (evict_rounds M n rows) = drop k (oldest_first rows)
          \<and> (k = 0 \<or> (\<exists>j. j < k \<and> k \<le> 2 * j + n \<and> total_bytes (drop j (oldest_first rows)) > M)))"
  using assms
proof (induction M n rows rule: evict_rounds.induct)
  case (1 M n rows)
  let ?rows = "delete_oldest n rows" and ?o = "oldest_first rows"
  have o: "oldest_first ?rows = drop n ?o" by (rule oldest_delete [OF 1(2)])
  have len: "length ?rows = length rows - n" using arg_cong [OF o, of length] by simp
  show ?case
  proof (cases "total_bytes rows \<le> M")
    case True
    then show ?thesis using 1(2) by (subst (1 2 3 4) evict_rounds.simps) (auto intro: exI [of _ 0])
  next
    case False
    then have "rows \<noteq> []" using 1(4) by auto
    then have fewer: "length ?rows \<noteq> length rows" using len 1(3) by (cases rows) auto
    with False have step: "evict_rounds M n rows = evict_rounds M (n * 2) ?rows"
      by (subst evict_rounds.simps) (simp add: Let_def)
    have IH: "total_bytes (evict_rounds M n rows) \<le> M \<and> distinct (map tr_id (evict_rounds M n rows))
       \<and> set (evict_rounds M n rows) \<subseteq> set ?rows
       \<and> (\<exists>k. oldest_first (evict_rounds M n rows) = drop k (drop n ?o)
            \<and> (k = 0 \<or> (\<exists>j. j < k \<and> k \<le> 2 * j + n * 2 \<and> total_bytes (drop j (drop n ?o)) > M)))"
      using 1(1) [OF False refl fewer distinct_delete [OF 1(2)] _ 1(4)] 1(3) unfolding step o by simp
    then obtain k where k: "oldest_first (evict_rounds M n rows) = drop k (drop n ?o)"
      "k = 0 \<or> (\<exists>j. j < k \<and> k \<le> 2 * j + n * 2 \<and> total_bytes (drop j (drop n ?o)) > M)" by blast
    have "\<exists>j. j < k + n \<and> k + n \<le> 2 * j + n \<and> total_bytes (drop j ?o) > M"
    proof (cases "k = 0")
      case True
      then show ?thesis using False 1(3) by (intro exI [of _ 0]) auto
    next
      case k_pos: False
      with k(2) obtain j where "j < k" "k \<le> 2 * j + n * 2" "total_bytes (drop (j + n) ?o) > M" by auto
      then show ?thesis by (intro exI [of _ "j + n"]) auto
    qed
    then have "\<exists>k. oldest_first (evict_rounds M n rows) = drop k ?o
        \<and> (k = 0 \<or> (\<exists>j. j < k \<and> k \<le> 2 * j + n \<and> total_bytes (drop j ?o) > M))"
      using k(1) by (intro exI [of _ "k + n"]) auto
    moreover have "set ?rows \<subseteq> set rows" by (auto simp: delete_oldest_def)
    ultimately show ?thesis using IH by blast
  qed
qed

lemma row_size: "tr_size_bytes (row_of ev p) \<ge> 0" and row_id: "tr_id (row_of ev p) = ev_ID ev"
  by (simp_all add: row_of_def)



section \<open>Patterns\<close>

lemma like_any: "like ''%'' s"
  by (induction s) (simp_all add: backslash_def)

text \<open>
  the pattern built for a path prefix matches a URL exactly when the URL starts with the prefix as a
  literal, up to the case of ASCII letters: no character of the prefix acts as a wildcard.
\<close>

theorem escapeLike_literal: "like (escapeLike p @ ''%'') url \<longleftrightarrow> HasPrefix (ToLower url) (ToLower p)"
proof (induction p arbitrary: url)
  case Nil
  then show ?case using like_any [of url]
    by (simp add: escapeLike_def ToLower_def HasPrefix_def del: like.simps)
next
  case (Cons c p)
  have split: "escapeLike (c # p) = (if c = backslash \<or> c = CHR ''%'' \<or> c = CHR ''_'' then [backslash, c] else [c]) @ escapeLike p"
    by (simp add: escapeLike_def)
  show ?case unfolding split using Cons.IH
    by (cases url) (auto simp: ToLower_def HasPrefix_def)
qed

section \<open>Pagination\<close>

lemma where_clause_cursor [simp]: "where_clause (opts\<lparr>lo_Cursor := c\<rparr>) = where_clause opts"
  by (simp add: where_clause_def fun_eq_iff)

lemma scan_key: "sum_key (scan_summary r) = (tr_ts r * 1000000, tr_id r)"
  by (simp add: sum_key_def scan_summary_def)

lemma scan_key_less: "sum_key (scan_summary a) < sum_key (scan_summary b) \<longleftrightarrow> tr_key a < tr_key b"
  by (auto simp: scan_key tr_key_def less_prod_def)

lemma cut_take:
  assumes "\<forall>r \<in> set rs. su_ID r \<noteq> []" "0 < limit"
  shows "(if length (take (limit + 1) rs) > limit
          then (take limit (take (limit + 1) rs),
                EncodeCursor (su_Timestamp (last (take limit (take (limit + 1) rs)))) (su_ID (last (take limit (take (limit + 1) rs)))))
          else (take (limit + 1) rs, CEmpty)) = cut limit rs"
proof (cases "length rs > limit")
  case True
  then have "last (take limit rs) = rs ! (limit - 1)"
    using assms(2) last_conv_nth [of "take limit rs"] by (cases rs) auto
  with True assms show ?thesis by (auto simp: cut_def EncodeCursor_def min_def)
qed (simp add: cut_def)

lemma sqlite_ListEvents_cut:
  assumes "\<forall>r \<in> set (sq_rows s). tr_id r \<noteq> []" "DecodeCursor c = Some (ts, i)"
  shows "sqlite_ListEvents (opts\<lparr>lo_Cursor := c\<rparr>) s =
     Some (cut (nat (ClampLimit (lo_Limit opts)))
       (map scan_summary (rev (oldest_first (filter (\<lambda>r. where_clause opts r \<and> cursor_clause ts i r) (sq_rows s))))))"
proof -
  let ?rs = "map scan_summary (rev (oldest_first (filter (\<lambda>r. where_clause opts r \<and> cursor_clause ts i r) (sq_rows s))))"
  have ids: "\<forall>r \<in> set ?rs. su_ID r \<noteq> []" using assms(1) by (auto simp: scan_summary_def)
  show ?thesis unfolding cut_take [OF ids limit_positive, symmetric]
    using assms(2) by (simp add: sqlite_ListEvents_def Let_def take_map)
qed

lemma oldest_filter: "oldest_first (filter P rows) = filter P (oldest_first rows)"
  by (simp add: oldest_first_def filter_sort)

interpretation sql_listing: keyset_listing sql_named_inv "sql_matching opts" "nat (ClampLimit (lo_Limit opts))"
  "\<lambda>s c. sqlite_ListEvents (opts\<lparr>lo_Cursor := c\<rparr>) s" for opts
proof
  show "0 < nat (ClampLimit (lo_Limit opts))" by (rule limit_positive)
next
  fix s assume inv: "sql_named_inv s"
  let ?o = "oldest_first (filter (where_clause opts) (sq_rows s))"
  have ids: "distinct (map tr_id ?o)"
    using inv by (intro distinct_oldest distinct_map_filter) (simp add: sql_named_inv_def sql_inv_def)
  then have "distinct (map tr_key ?o)" by (auto simp: distinct_map inj_on_def tr_key_def)
  then have "sorted_wrt (<) (map tr_key ?o)" by (simp add: strict_sorted_iff oldest_first_def)
  then show "sorted_wrt (\<lambda>a b. sum_key b < sum_key a) (sql_matching opts s)"
    by (simp add: sql_matching_def sorted_wrt_map sorted_wrt_rev scan_key_less)
  show "sqlite_ListEvents (opts\<lparr>lo_Cursor := CEmpty\<rparr>) s = Some (cut (nat (ClampLimit (lo_Limit opts))) (sql_matching opts s))"
    using inv sqlite_ListEvents_cut [of s CEmpty zeroTime "[]" opts]
    by (simp add: sql_named_inv_def DecodeCursor_def sql_matching_def cursor_clause_def)
  fix r assume r: "r \<in> set (sql_matching opts s)"
  then obtain t where t: "r = scan_summary t" "t \<in> set (sq_rows s)" by (auto simp: sql_matching_def)
  show id: "su_ID r \<noteq> []" using inv t by (simp add: scan_summary_def sql_named_inv_def)
  have after: "cursor_clause (su_Timestamp r) (su_ID r) x \<longleftrightarrow> sum_key (scan_summary x) < sum_key r" for x
    using id unfolding t(1) scan_key_less by (auto simp: cursor_clause_def scan_summary_def UnixMilli_def tr_key_def less_prod_def)
  have "sqlite_ListEvents (opts\<lparr>lo_Cursor := CPos (su_Timestamp r) (su_ID r)\<rparr>) s =
      Some (cut (nat (ClampLimit (lo_Limit opts)))
        (map scan_summary (rev (oldest_first (filter (\<lambda>x. where_clause opts x \<and> sum_key (scan_summary x) < sum_key r) (sq_rows s))))))"
    using inv sqlite_ListEvents_cut [of s "CPos (su_Timestamp r) (su_ID r)" "su_Timestamp r" "su_ID r" opts]
    by (simp add: sql_named_inv_def DecodeCursor_def after)
  also have "map scan_summary (rev (oldest_first (filter (\<lambda>x. where_clause opts x \<and> sum_key (scan_summary x) < sum_key r) (sq_rows s))))
      = filter (\<lambda>x. sum_key x < sum_key r) (sql_matching opts s)"
    by (simp add: sql_matching_def filter_map comp_def oldest_filter conj_commute flip: rev_filter)
  finally show "sqlite_ListEvents (opts\<lparr>lo_Cursor := CPos (su_Timestamp r) (su_ID r)\<rparr>) s =
      Some (cut (nat (ClampLimit (lo_Limit opts))) (filter (\<lambda>x. sum_key x < sum_key r) (sql_matching opts s)))" .
qed

text \<open>
  C37: the keyset query of the SQLite store pages like the in-memory listing: following its cursors from
  the first page returns every row that satisfies the filters exactly once, in descending order of
  (time, id), within one more page than there are such rows.
\<close>

theorem sqlite_List_complete:
  assumes "sql_named_inv s" "length (filter (where_clause opts) (sq_rows s)) < n"
  shows "\<exists>rows. collect n (\<lambda>c. sqlite_ListEvents (opts\<lparr>lo_Cursor := c\<rparr>) s) CEmpty = Some (map scan_summary rows)
           \<and> mset rows = mset (filter (where_clause opts) (sq_rows s))
           \<and> sorted_wrt (\<lambda>a b. sum_key b < sum_key a) (map scan_summary rows)"
proof (intro exI conjI)
  let ?rows = "rev (oldest_first (filter (where_clause opts) (sq_rows s)))"
  show "collect n (\<lambda>c. sqlite_ListEvents (opts\<lparr>lo_Cursor := c\<rparr>) s) CEmpty = Some (map scan_summary ?rows)"
    using sql_listing.collect_all [OF assms(1), of opts n] assms(2) by (simp add: sql_matching_def)
  show "mset ?rows = mset (filter (where_clause opts) (sq_rows s))" by (simp add: oldest_first_def)
  show "sorted_wrt (\<lambda>a b. sum_key b < sum_key a) (map scan_summary ?rows)"
    using sql_listing.descending [OF assms(1), of opts] by (simp add: sql_matching_def)
qed

theorem sqlite_List_complete_witness:
  "let opts = \<lparr>lo_API = [], lo_APIs = [''demo''], lo_Action = [], lo_Method = [], lo_Decision = [], lo_PathPrefix = ''/A'',
                lo_Since = zeroTime, lo_Until = zeroTime, lo_Subject = Some ''u'', lo_Limit = 1, lo_Cursor = CEmpty\<rparr>;
       s = newSQLiteStore [row_of (sample_event ''a'' 0) [], row_of (sample_event ''b'' 7) []] \<lparr>op_MaxBytes = 0, op_MaxAge = 0\<rparr>
   in map_option (map su_ID) (collect 3 (\<lambda>c. sqlite_ListEvents (opts\<lparr>lo_Cursor := c\<rparr>) s) CEmpty) = Some [''b'', ''a'']
      \<and> (\<exists>rows. collect 3 (\<lambda>c. sqlite_ListEvents (opts\<lparr>lo_Cursor := c\<rparr>) s) CEmpty = Some (map scan_summary rows)
            \<and> mset rows = mset (sq_rows s))"
proof -
  let ?opts = "\<lparr>lo_API = [], lo_APIs = [''demo''], lo_Action = [], lo_Method = [], lo_Decision = [], lo_PathPrefix = ''/A'',
                lo_Since = zeroTime, lo_Until = zeroTime, lo_Subject = Some ''u'', lo_Limit = 1, lo_Cursor = CEmpty\<rparr>"
  let ?s = "newSQLiteStore [row_of (sample_event ''a'' 0) [], row_of (sample_event ''b'' 7) []] \<lparr>op_MaxBytes = 0, op_MaxAge = 0\<rparr>"
  have inv: "sql_named_inv ?s"
    by (simp add: sql_named_inv_def sql_inv_def newSQLiteStore_def defaulted_def row_of_def sample_event_def DefaultMaxBytes_def)
  have all: "filter (where_clause ?opts) (sq_rows ?s) = sq_rows ?s" by code_simp
  have len: "length (sq_rows ?s) < 3" by code_simp
  obtain rows where "collect 3 (\<lambda>c. sqlite_ListEvents (?opts\<lparr>lo_Cursor := c\<rparr>) ?s) CEmpty = Some (map scan_summary rows)"
    "mset rows = mset (sq_rows ?s)"
    using sqlite_List_complete [OF inv, of ?opts 3] len unfolding all by blast
  moreover have "map_option (map su_ID) (collect 3 (\<lambda>c. sqlite_ListEvents (?opts\<lparr>lo_Cursor := c\<rparr>) ?s) CEmpty) = Some [''b'', ''a'']"
    by code_simp
  ultimately show ?thesis unfolding Let_def by blast
qed

end
