(* ===== verification/Recorder.thy ===== *)
theory Recorder
  imports TrafficSqlite "HOL-Library.Word"
begin

text \<open>
  The asynchronous recorder, \<^verbatim>\<open>internal/control/traffic/recorder.go\<close>: request goroutines, the closing
  goroutine and the writer goroutine interleave.  A step is what one of them does between two
  synchronisation points; a request goroutine that dropped its event is kept in \<open>rc_dropping\<close> while it
  is inside \<open>onDrop\<close>, which it runs under the read lock, so that \<open>Close\<close> has to wait for it.  The drop
  counters are 64-bit words.
\<close>

section \<open>Definitions\<close>

type_synonym u64 = "64 word"

datatype dropper = Added u64 | Loaded u64 u64

record 'st AsyncRecorder =
  rc_store :: 'st
  rc_sanitizeOpts :: SanitizeOptions
  rc_in :: "Event list"
  rc_cap :: nat
  rc_closed :: bool
  rc_exited :: bool
  rc_dropped :: u64
  rc_loggedDrops :: u64
  rc_dropLogEvery :: u64
  rc_dropping :: "dropper list"
  rc_warnings :: "u64 list"

definition DefaultBufferSize :: int where "DefaultBufferSize = 1024"
definition DefaultDropLogEvery :: u64 where "DefaultDropLogEvery = 100"

definition NewAsyncRecorder :: "'st \<Rightarrow> int \<Rightarrow> u64 \<Rightarrow> SanitizeOptions \<Rightarrow> 'st AsyncRecorder" where
  "NewAsyncRecorder store bufferSize dropLogEvery sanitize =
     \<lparr>rc_store = store, rc_sanitizeOpts = sanitize, rc_in = [],
      rc_cap = nat (if bufferSize \<le> 0 then DefaultBufferSize else bufferSize),
      rc_closed = False, rc_exited = False, rc_dropped = 0, rc_loggedDrops = 0,
      rc_dropLogEvery = (if dropLogEvery = 0 then DefaultDropLogEvery else dropLogEvery),
      rc_dropping = [], rc_warnings = []\<rparr>"

datatype outcome = Accepted | Dropped | Ignored

text \<open>The body of \<open>Record\<close> up to the \<open>dropped.Add(1)\<close> of \<open>onDrop\<close>.\<close>

definition Record :: "Event \<Rightarrow> 'st AsyncRecorder \<Rightarrow> outcome \<times> 'st AsyncRecorder" where
  "Record ev r =
     (if rc_closed r then (Ignored, r)
      else if length (rc_in r) < rc_cap r then (Accepted, r\<lparr>rc_in := rc_in r @ [ev]\<rparr>)
      else (let tot = rc_dropped r + 1
            in (Dropped, r\<lparr>rc_dropped := tot, rc_dropping := rc_dropping r @ [Added tot]\<rparr>)))"

definition without :: "nat \<Rightarrow> 'a list \<Rightarrow> 'a list" where
  "without i xs = take i xs @ drop (Suc i) xs"

text \<open>The rest of \<open>onDrop\<close> for the \<open>i\<close>-th goroutine inside it: the load of the last logged count, then the compare-and-swap.\<close>

definition onDrop_load :: "nat \<Rightarrow> 'st AsyncRecorder \<Rightarrow> 'st AsyncRecorder option" where
  "onDrop_load i r =
     (if i < length (rc_dropping r) then
        (case rc_dropping r ! i of
           Added tot \<Rightarrow> Some (r\<lparr>rc_dropping := (rc_dropping r)[i := Loaded tot (rc_loggedDrops r)]\<rparr>)
         | Loaded _ _ \<Rightarrow> None)
      else None)"

definition onDrop_swap :: "nat \<Rightarrow> 'st AsyncRecorder \<Rightarrow> 'st AsyncRecorder option" where
  "onDrop_swap i r =
     (if i < length (rc_dropping r) then
        (case rc_dropping r ! i of
           Added _ \<Rightarrow> None
         | Loaded tot lst \<Rightarrow>
             (let r1 = r\<lparr>rc_dropping := without i (rc_dropping r)\<rparr>
              in if tot - lst < rc_dropLogEvery r then Some r1
                 else if rc_loggedDrops r = lst then
                   Some (r1\<lparr>rc_loggedDrops := tot, rc_warnings := rc_warnings r @ [tot]\<rparr>)
                 else Some r1))
      else None)"

text \<open>\<open>Close\<close> up to its wait on the writer: the write lock excludes every goroutine inside \<open>Record\<close>.\<close>

definition Close :: "'st AsyncRecorder \<Rightarrow> 'st AsyncRecorder option" where
  "Close r =
     (if rc_dropping r \<noteq> [] then None
      else if rc_closed r then Some r
      else Some (r\<lparr>rc_closed := True\<rparr>))"

definition write_event :: "(int \<Rightarrow> Event \<Rightarrow> 'st \<Rightarrow> 'st) \<Rightarrow> int \<Rightarrow> Event \<Rightarrow> 'st AsyncRecorder \<Rightarrow> 'st AsyncRecorder" where
  "write_event ins now ev r = r\<lparr>rc_store := ins now (Sanitize ev (rc_sanitizeOpts r)) (rc_store r)\<rparr>"

text \<open>One turn of the writer's range loop: the next event, or the exit on a closed and drained channel.\<close>

datatype turn = Wrote Event | Exited | Blocked

definition run_turn :: "(int \<Rightarrow> Event \<Rightarrow> 'st \<Rightarrow> 'st) \<Rightarrow> int \<Rightarrow> 'st AsyncRecorder \<Rightarrow> turn \<times> 'st AsyncRecorder" where
  "run_turn ins now r =
     (if rc_exited r then (Blocked, r)
      else (case rc_in r of
              ev # rest \<Rightarrow> (Wrote ev, write_event ins now ev (r\<lparr>rc_in := rest\<rparr>))
            | [] \<Rightarrow> if rc_closed r then (Exited, r\<lparr>rc_exited := True\<rparr>) else (Blocked, r)))"

text \<open>What the recorder hands to the store: its \<open>Insert\<close>, whose errors it only logs.\<close>

definition sqlite_ins :: "(Event \<Rightarrow> string option) \<Rightarrow> int \<Rightarrow> Event \<Rightarrow> sqliteEvents \<Rightarrow> sqliteEvents" where
  "sqlite_ins marshal now ev s = snd (sqlite_Insert marshal now ev s)"

subsection \<open>Interleavings\<close>

datatype label = LRecord Event outcome | LDrop | LClose | LTurn int turn

inductive rstep :: "(int \<Rightarrow> Event \<Rightarrow> 'st \<Rightarrow> 'st) \<Rightarrow> 'st AsyncRecorder \<Rightarrow> label \<Rightarrow> 'st AsyncRecorder \<Rightarrow> bool"
  for ins where
  rec: "Record ev r = (out, r') \<Longrightarrow> rstep ins r (LRecord ev out) r'"
| load: "onDrop_load i r = Some r' \<Longrightarrow> rstep ins r LDrop r'"
| swap: "onDrop_swap i r = Some r' \<Longrightarrow> rstep ins r LDrop r'"
| close: "Close r = Some r' \<Longrightarrow> rstep ins r LClose r'"
| turn: "run_turn ins now r = (t, r') \<Longrightarrow> rstep ins r (LTurn now t) r'"

inductive rsteps :: "(int \<Rightarrow> Event \<Rightarrow> 'st \<Rightarrow> 'st) \<Rightarrow> 'st AsyncRecorder \<Rightarrow> label list \<Rightarrow> 'st AsyncRecorder \<Rightarrow> bool"
  for ins where
  none: "rsteps ins r [] r"
| snoc: "rsteps ins r ls r' \<Longrightarrow> rstep ins r' l r'' \<Longrightarrow> rsteps ins r (ls @ [l]) r''"

fun accepted1 :: "label \<Rightarrow> Event list" where
  "accepted1 (LRecord ev Accepted) = [ev]"
| "accepted1 l = []"

fun written1 :: "label \<Rightarrow> (int \<times> Event) list" where
  "written1 (LTurn now (Wrote ev)) = [(now, ev)]"
| "written1 l = []"

fun dropped1 :: "label \<Rightarrow> Event list" where
  "dropped1 (LRecord ev Dropped) = [ev]"
| "dropped1 l = []"

definition accepted :: "label list \<Rightarrow> Event list" where "accepted ls = concat (map accepted1 ls)"
definition written :: "label list \<Rightarrow> (int \<times> Event) list" where "written ls = concat (map written1 ls)"
definition dropped :: "label list \<Rightarrow> Event list" where "dropped ls = concat (map dropped1 ls)"

definition persist :: "(int \<Rightarrow> Event \<Rightarrow> 'st \<Rightarrow> 'st) \<Rightarrow> SanitizeOptions \<Rightarrow> (int \<times> Event) list \<Rightarrow> 'st \<Rightarrow> 'st" where
  "persist ins opts evs st = fold (\<lambda>(now, ev). ins now (Sanitize ev opts)) evs st"

text \<open>Two states with the same events in flight; \<open>onDrop\<close> only moves between such states.\<close>

definition same_flow :: "'st AsyncRecorder \<Rightarrow> 'st AsyncRecorder \<Rightarrow> bool" where
  "same_flow r r' \<longleftrightarrow> rc_store r' = rc_store r \<and> rc_sanitizeOpts r' = rc_sanitizeOpts r \<and> rc_in r' = rc_in r
     \<and> rc_cap r' = rc_cap r \<and> rc_exited r' = rc_exited r \<and> rc_dropped r' = rc_dropped r"

text \<open>The conservation law of the recorder, kept by every step.\<close>

definition conserved :: "(int \<Rightarrow> Event \<Rightarrow> 'st \<Rightarrow> 'st) \<Rightarrow> 'st AsyncRecorder \<Rightarrow> label list \<Rightarrow> 'st AsyncRecorder \<Rightarrow> bool" where
  "conserved ins r0 ls r \<longleftrightarrow>
     accepted ls = map snd (written ls) @ rc_in r \<and> length (rc_in r) \<le> rc_cap r
     \<and> rc_store r = persist ins (rc_sanitizeOpts r) (written ls) (rc_store r0)
     \<and> rc_dropped r = of_nat (length (dropped ls))
     \<and> (rc_exited r \<longrightarrow> rc_closed r \<and> rc_in r = []) \<and> rc_sanitizeOpts r = rc_sanitizeOpts r0 \<and> rc_cap r = rc_cap r0"

section \<open>Steps\<close>

inductive_cases rstep_elims [elim!]: "rstep ins r (LRecord ev out) r'" "rstep ins r LClose r'" "rstep ins r (LTurn now t) r'"

lemma labels_append [simp]:
  "accepted (ls @ [l]) = accepted ls @ accepted1 l"
  "written (ls @ [l]) = written ls @ written1 l"
  "dropped (ls @ [l]) = dropped ls @ dropped1 l"
  "accepted [] = []" "written [] = []" "dropped [] = []"
  by (simp_all add: accepted_def written_def dropped_def)

lemma persist_append [simp]:
  "persist ins opts (evs @ evs') st = persist ins opts evs' (persist ins opts evs st)"
  "persist ins opts [] st = st" "persist ins opts [(now, ev)] st = ins now (Sanitize ev opts) st"
  by (simp_all add: persist_def)

lemma Record_cases:
  assumes "Record ev r = (out, r')"
  obtains "out = Ignored" "rc_closed r" "r' = r"
  | "out = Accepted" "\<not> rc_closed r" "length (rc_in r) < rc_cap r" "r' = r\<lparr>rc_in := rc_in r @ [ev]\<rparr>"
  | "out = Dropped" "\<not> rc_closed r" "length (rc_in r) \<ge> rc_cap r"
    "r' = r\<lparr>rc_dropped := rc_dropped r + 1, rc_dropping := rc_dropping r @ [Added (rc_dropped r + 1)]\<rparr>"
  using assms by (auto simp: Record_def Let_def not_less split: if_splits)

lemma onDrop_flow:
  "onDrop_load i r = Some r' \<Longrightarrow> same_flow r r' \<and> rc_closed r' = rc_closed r"
  "onDrop_swap i r = Some r' \<Longrightarrow> same_flow r r' \<and> rc_closed r' = rc_closed r"
  by (auto simp: onDrop_load_def onDrop_swap_def same_flow_def Let_def split: if_splits dropper.splits)

lemma Close_flow: "Close r = Some r' \<Longrightarrow> same_flow r r' \<and> rc_closed r'"
  by (auto simp: Close_def same_flow_def split: if_splits)

lemma run_turn_cases:
  assumes "run_turn ins now r = (t, r')"
  obtains "t = Blocked" "r' = r"
  | ev rest where "t = Wrote ev" "\<not> rc_exited r" "rc_in r = ev # rest"
      "r' = r\<lparr>rc_in := rest, rc_store := ins now (Sanitize ev (rc_sanitizeOpts r)) (rc_store r)\<rparr>"
  | "t = Exited" "\<not> rc_exited r" "rc_in r = []" "rc_closed r" "r' = r\<lparr>rc_exited := True\<rparr>"
  using assms by (auto simp: run_turn_def write_event_def split: if_splits list.splits)

lemma conserved_flow:
  "conserved ins r0 ls r \<Longrightarrow> same_flow r r' \<Longrightarrow> (rc_closed r \<longrightarrow> rc_closed r') \<Longrightarrow>
     accepted1 l = [] \<Longrightarrow> written1 l = [] \<Longrightarrow> dropped1 l = [] \<Longrightarrow> conserved ins r0 (ls @ [l]) r'"
  by (auto simp: conserved_def same_flow_def)

lemma conserved_step:
  assumes "conserved ins r0 ls r" "rstep ins r l r'"
  shows "conserved ins r0 (ls @ [l]) r'"
  using assms(2,1)
proof cases
  case (rec ev out)
  from rec(2) show ?thesis by (rule Record_cases) (use assms(1) rec(1) in \<open>auto simp: conserved_def\<close>)
next
  case (load i)
  with onDrop_flow(1) [OF load(2)] show ?thesis using assms(1) by (auto intro: conserved_flow)
next
  case (swap i)
  with onDrop_flow(2) [OF swap(2)] show ?thesis using assms(1) by (auto intro: conserved_flow)
next
  case close
  with Close_flow [OF close(2)] show ?thesis using assms(1) by (auto intro: conserved_flow)
next
  case (turn now t)
  from turn(2) show ?thesis by (rule run_turn_cases) (use assms(1) turn(1) in \<open>auto simp: conserved_def\<close>)
qed

lemma conserved_run:
  "rsteps ins r0 ls r \<Longrightarrow> rc_in r0 = [] \<Longrightarrow> rc_dropped r0 = 0 \<Longrightarrow> \<not> rc_exited r0 \<Longrightarrow> conserved ins r0 ls r"
proof (induction rule: rsteps.induct)
  case none
  then show ?case by (simp add: conserved_def)
next
  case (snoc r0 ls r l r')
  then show ?case using conserved_step by blast
qed

lemma rsteps_trans: "rsteps ins r' ls' r'' \<Longrightarrow> rsteps ins r ls r' \<Longrightarrow> rsteps ins r (ls @ ls') r''"
  by (induction rule: rsteps.induct) (auto intro: rsteps.snoc simp flip: append_assoc)

lemma rsteps_Cons: "rstep ins r l r' \<Longrightarrow> rsteps ins r' ls r'' \<Longrightarrow> rsteps ins r (l # ls) r''"
  using rsteps_trans [of ins r' ls r'' r "[l]"] rsteps.snoc [OF rsteps.none, of ins r l r'] by simp

lemma conserved_new:
  "rsteps ins (NewAsyncRecorder st n every opts) ls r \<Longrightarrow> conserved ins (NewAsyncRecorder st n every opts) ls r"
  by (erule conserved_run) (simp_all add: NewAsyncRecorder_def)

section \<open>Properties\<close>

text \<open>
  Under every interleaving of requests, drops, closing and writing, the events the recorder accepted
  are, in order, those it wrote to the store followed by those still in its bounded buffer; the store
  is the result of inserting the written events, sanitised, one after the other; the drop counter
  counts the dropped events modulo \<open>2 ^ 64\<close>; and once the writer has exited every accepted event has been
  written.
\<close>

theorem recorder_conserves:
  assumes "rsteps ins (NewAsyncRecorder st n every opts) ls r"
  shows "accepted ls = map snd (written ls) @ rc_in r
    \<and> length (rc_in r) \<le> nat (if n \<le> 0 then DefaultBufferSize else n)
    \<and> rc_store r = persist ins opts (written ls) st
    \<and> rc_dropped r = of_nat (length (dropped ls))
    \<and> (rc_exited r \<longrightarrow> map snd (written ls) = accepted ls)"
  using conserved_new [OF assms] by (auto simp: conserved_def NewAsyncRecorder_def)

theorem recorder_conserves_witness:
  "\<exists>r. rsteps memory_Insert
     (NewAsyncRecorder (newMemoryStore \<lparr>op_MaxBytes = 0, op_MaxAge = 0\<rparr>) 1 0
        \<lparr>so_MaxBodyBytes = 0, so_NoBodyAPIs = [], so_SensitiveHeaders = []\<rparr>)
     [LRecord (sample_event ''a'' 0) Accepted, LRecord (sample_event ''b'' 0) Dropped, LTurn 0 (Wrote (sample_event ''a'' 0))] r
   \<and> rc_dropped r = 1 \<and> rc_in r = []"
proof -
  let ?opts = "\<lparr>so_MaxBodyBytes = 0, so_NoBodyAPIs = [], so_SensitiveHeaders = []\<rparr>"
  let ?a = "sample_event ''a'' 0" and ?b = "sample_event ''b'' 0"
  let ?r0 = "NewAsyncRecorder (newMemoryStore \<lparr>op_MaxBytes = 0, op_MaxAge = 0\<rparr>) 1 0 ?opts"
  let ?r1 = "snd (Record ?a ?r0)" let ?r2 = "snd (Record ?b ?r1)" let ?r3 = "snd (run_turn memory_Insert 0 ?r2)"
  let ?ls = "[LRecord ?a Accepted, LRecord ?b Dropped, LTurn 0 (Wrote ?a)]"
  note defs = Record_def NewAsyncRecorder_def run_turn_def Let_def
  have run: "rsteps memory_Insert ?r0 ?ls ?r3"
    by (rule rsteps_Cons [OF rstep.rec, where r' = ?r1], simp add: defs,
        rule rsteps_Cons [OF rstep.rec, where r' = ?r2], simp add: defs,
        rule rsteps_Cons [OF rstep.turn rsteps.none], simp add: defs)
  moreover from recorder_conserves [OF run] have "rc_in ?r3 = []" "rc_dropped ?r3 = 1"
    by (simp_all add: accepted_def written_def dropped_def)
  ultimately show ?thesis by blast
qed

lemma closed_step:
  assumes "rstep ins r l r'" "rc_closed r"
  shows "rc_closed r' \<and> accepted1 l = [] \<and> dropped1 l = []"
  using assms
proof cases
  case (rec ev out)
  from rec(2) show ?thesis by (rule Record_cases) (use rec assms in auto)
next
  case (turn now t)
  from turn(2) show ?thesis by (rule run_turn_cases) (use turn assms in auto)
qed (use assms in \<open>auto dest: onDrop_flow Close_flow\<close>)

lemma closed_run: "rsteps ins r ls r' \<Longrightarrow> rc_closed r \<Longrightarrow> rc_closed r' \<and> accepted ls = [] \<and> dropped ls = []"
  by (induction rule: rsteps.induct) (auto dest: closed_step)

lemma drain:
  "rc_closed r \<Longrightarrow> \<not> rc_exited r \<Longrightarrow>
     \<exists>r'. rsteps ins r (map (\<lambda>ev. LTurn now (Wrote ev)) (rc_in r) @ [LTurn now Exited]) r' \<and> rc_exited r'"
proof (induction "rc_in r" arbitrary: r)
  case Nil
  then have "run_turn ins now r = (Exited, r\<lparr>rc_exited := True\<rparr>)" by (simp add: run_turn_def flip: Nil(1))
  then have "rstep ins r (LTurn now Exited) (r\<lparr>rc_exited := True\<rparr>)" by (rule rstep.turn)
  from rsteps_Cons [OF this rsteps.none] show ?case by (auto simp flip: Nil(1))
next
  case (Cons ev rest)
  let ?r = "write_event ins now ev (r\<lparr>rc_in := rest\<rparr>)"
  have "run_turn ins now r = (Wrote ev, ?r)" using Cons.prems by (simp add: run_turn_def flip: Cons.hyps(2))
  then have step: "rstep ins r (LTurn now (Wrote ev)) ?r" by (rule rstep.turn)
  have r: "rc_in ?r = rest" "rc_closed ?r" "\<not> rc_exited ?r" using Cons.prems by (simp_all add: write_event_def)
  obtain r' where "rsteps ins ?r (map (\<lambda>ev. LTurn now (Wrote ev)) rest @ [LTurn now Exited]) r'" "rc_exited r'"
    using Cons.hyps(1) [of ?r] r by auto
  then show ?case using rsteps_Cons [OF step] by (auto simp flip: Cons.hyps(2))
qed

text \<open>
  C33: closing is final and does not lose events: after \<open>Close\<close> no interleaving accepts or drops another
  event, and the writer, taking one turn per buffered event and one more, reaches its exit, at which
  point the store has received every event that was ever accepted.
\<close>

theorem close_drains:
  assumes "rsteps ins (NewAsyncRecorder st n every opts) ls r" "Close r = Some r1" "\<not> rc_exited r"
  shows "(\<forall>ls' r2. rsteps ins r1 ls' r2 \<longrightarrow> rc_closed r2 \<and> accepted ls' = [] \<and> dropped ls' = [])
    \<and> (\<exists>ls' r2. rsteps ins r1 ls' r2 \<and> length ls' = Suc (length (rc_in r)) \<and> rc_exited r2
         \<and> map snd (written (ls @ LClose # ls')) = accepted ls
         \<and> rc_store r2 = persist ins opts (written (ls @ LClose # ls')) st)"
proof -
  from Close_flow [OF assms(2)] have r1: "rc_closed r1" "\<not> rc_exited r1" "rc_in r1 = rc_in r"
    using assms(3) by (auto simp: same_flow_def)
  let ?ls = "map (\<lambda>ev. LTurn 0 (Wrote ev)) (rc_in r) @ [LTurn 0 Exited]"
  from drain [OF r1(1,2), of ins 0] obtain r2 where r2: "rsteps ins r1 ?ls r2" "rc_exited r2" using r1(3) by auto
  from rsteps_trans [OF rsteps_Cons [OF rstep.close [OF assms(2)] r2(1)] assms(1)]
  have all: "rsteps ins (NewAsyncRecorder st n every opts) (ls @ LClose # ?ls) r2" .
  have acc: "accepted (ls @ LClose # ?ls) = accepted ls"
    using closed_run [OF r2(1) r1(1)] by (simp add: accepted_def)
  from conserved_new [OF all] r2(2) acc
  have "map snd (written (ls @ LClose # ?ls)) = accepted ls"
    "rc_store r2 = persist ins opts (written (ls @ LClose # ?ls)) st"
    by (simp_all add: conserved_def NewAsyncRecorder_def)
  with r2 closed_run r1(1) show ?thesis
    by (intro conjI allI impI exI [of _ ?ls] exI [of _ r2]) auto
qed

theorem close_drains_witness:
  "\<exists>r1 ls' r2. Close (snd (Record (sample_event ''a'' 0) (NewAsyncRecorder (newMemoryStore \<lparr>op_MaxBytes = 0, op_MaxAge = 0\<rparr>) 1 0
       \<lparr>so_MaxBodyBytes = 0, so_NoBodyAPIs = [], so_SensitiveHeaders = []\<rparr>))) = Some r1
     \<and> rsteps memory_Insert r1 ls' r2 \<and> length ls' = 2 \<and> rc_exited r2"
proof -
  let ?opts = "\<lparr>so_MaxBodyBytes = 0, so_NoBodyAPIs = [], so_SensitiveHeaders = []\<rparr>"
  let ?new = "NewAsyncRecorder (newMemoryStore \<lparr>op_MaxBytes = 0, op_MaxAge = 0\<rparr>) 1 0 ?opts"
  let ?r = "snd (Record (sample_event ''a'' 0) ?new)"
  have "Record (sample_event ''a'' 0) ?new = (Accepted, ?r)" by (simp add: Record_def NewAsyncRecorder_def)
  then have run: "rsteps memory_Insert ?new [LRecord (sample_event ''a'' 0) Accepted] ?r"
    by (intro rsteps_Cons [OF rstep.rec rsteps.none])
  have close: "Close ?r = Some (?r\<lparr>rc_closed := True\<rparr>)" by (simp add: Close_def Record_def NewAsyncRecorder_def)
  have "\<not> rc_exited ?r" "length (rc_in ?r) = 1" by (simp_all add: Record_def NewAsyncRecorder_def)
  with close_drains [OF run close] close show ?thesis by (metis One_nat_def Suc_1)
qed

section \<open>What reaches a store\<close>

text \<open>
  A sink holds nothing but what was inserted into it: an insert adds at most the stored forms of its
  event.  Behind the recorder a sink therefore holds stored forms of sanitised events only.
\<close>

locale event_sink =
  fixes ins :: "int \<Rightarrow> Event \<Rightarrow> 'st \<Rightarrow> 'st"
    and contents :: "'st \<Rightarrow> 'x set"
    and forms :: "Event \<Rightarrow> 'x set"
  assumes contents_ins: "contents (ins now ev st) \<subseteq> forms ev \<union> contents st"
begin

lemma contents_persist:
  "contents (persist ins opts evs st) \<subseteq> (\<Union>(now, ev) \<in> set evs. forms (Sanitize ev opts)) \<union> contents st"
proof (induction evs arbitrary: st)
  case (Cons e evs)
  obtain now ev where e: "e = (now, ev)" by force
  have "persist ins opts (e # evs) st = persist ins opts evs (ins now (Sanitize ev opts) st)"
    by (simp add: persist_def e)
  with Cons.IH [of "ins now (Sanitize ev opts) st"] contents_ins [of now "Sanitize ev opts" st] e show ?case by auto
qed (simp add: persist_def)

lemma recorder_contents:
  assumes "rsteps ins (NewAsyncRecorder st n every opts) ls r" "x \<in> contents (rc_store r)"
  shows "x \<in> contents st \<or> (\<exists>ev \<in> set (accepted ls). x \<in> forms (Sanitize ev opts))"
proof -
  from conserved_new [OF assms(1)] have s: "rc_store r = persist ins opts (written ls) st"
    and a: "accepted ls = map snd (written ls) @ rc_in r"
    by (simp_all add: conserved_def NewAsyncRecorder_def)
  from contents_persist [of opts "written ls" st] assms(2) a show ?thesis unfolding s by force
qed

end

lemma memory_Insert_events: "set (events (memory_Insert now ev s)) \<subseteq> {ev} \<union> set (events s)"
proof -
  have sub: "set (ms_ll (evictLocked now s1)) \<subseteq> set (ms_ll s1)" for s1
    using evict_set by (auto simp: evictLocked_def split_beta)
  show ?thesis unfolding memory_Insert_def Let_def events_def
    using sub set_remove_by_subset [of en_ID "ev_ID ev" "ms_ll s"] by (fastforce split: option.splits)
qed

interpretation memory_sink: event_sink memory_Insert "\<lambda>s. set (events s)" "\<lambda>ev. {ev}"
  by unfold_locales (rule memory_Insert_events)

lemma evict_rounds_subset: "set (evict_rounds M n rows) \<subseteq> set rows"
proof (induction M n rows rule: evict_rounds.induct)
  case (1 M n rows)
  have "set (delete_oldest n rows) \<subseteq> set rows" by (auto simp: delete_oldest_def)
  with 1 show ?case by (subst evict_rounds.simps) (auto simp: Let_def)
qed

interpretation sqlite_sink: event_sink "sqlite_ins marshal" "\<lambda>s. set (sq_rows s)"
  "\<lambda>ev. {row_of ev p | p. marshal ev = Some p}" for marshal
proof
  fix now ev s
  show "set (sq_rows (sqlite_ins marshal now ev s)) \<subseteq> {row_of ev p | p. marshal ev = Some p} \<union> set (sq_rows s)"
  proof (cases "marshal ev")
    case (Some p)
    have "set (evictTx (sq_opts s) now (upsert_by tr_id (row_of ev p) (sq_rows s))) \<subseteq> insert (row_of ev p) (set (sq_rows s))"
      unfolding evictTx_def Let_def
      using evict_rounds_subset set_upsert_by_subset [of tr_id "row_of ev p" "sq_rows s"] by fastforce
    with Some show ?thesis by (auto simp: sqlite_ins_def sqlite_Insert_def)
  qed (simp add: sqlite_ins_def sqlite_Insert_def)
qed

text \<open>
  C32: whatever the requests carried, every row the recorder has put into the SQLite store is the row of
  an event from which the sensitive headers and the bodies the options forbid have been removed.
\<close>

theorem recorder_redacts:
  assumes "rsteps (sqlite_ins marshal) (NewAsyncRecorder st n every opts) ls r" "row \<in> set (sq_rows (rc_store r))"
  shows "row \<in> set (sq_rows st) \<or> (\<exists>ev p. row = row_of ev p \<and> marshal ev = Some p \<and> clean opts ev)"
  using sqlite_sink.recorder_contents [OF assms] Sanitize_clean by blast

theorem recorder_redacts_witness:
  "\<exists>r row ev p. rsteps (sqlite_ins (\<lambda>ev. Some (ev_ID ev)))
     (NewAsyncRecorder (newSQLiteStore [] \<lparr>op_MaxBytes = 0, op_MaxAge = 0\<rparr>) 1 0
        \<lparr>so_MaxBodyBytes = 0, so_NoBodyAPIs = [], so_SensitiveHeaders = []\<rparr>)
     [LRecord (sample_event ''a'' 0) Accepted, LTurn 0 (Wrote (sample_event ''a'' 0))] r
   \<and> sq_rows (rc_store r) = [row] \<and> row = row_of ev p
   \<and> clean \<lparr>so_MaxBodyBytes = 0, so_NoBodyAPIs = [], so_SensitiveHeaders = []\<rparr> ev"
proof -
  let ?opts = "\<lparr>so_MaxBodyBytes = 0, so_NoBodyAPIs = [], so_SensitiveHeaders = []\<rparr>" and ?a = "sample_event ''a'' 0"
  let ?ins = "sqlite_ins (\<lambda>ev. Some (ev_ID ev))"
  let ?r0 = "NewAsyncRecorder (newSQLiteStore [] \<lparr>op_MaxBytes = 0, op_MaxAge = 0\<rparr>) 1 0 ?opts"
  let ?r1 = "snd (Record ?a ?r0)" let ?r2 = "snd (run_turn ?ins 0 ?r1)"
  let ?row = "row_of (Sanitize ?a ?opts) ''a''"
  note defs = Record_def NewAsyncRecorder_def run_turn_def Let_def
  have run: "rsteps ?ins ?r0 [LRecord ?a Accepted, LTurn 0 (Wrote ?a)] ?r2"
    by (rule rsteps_Cons [OF rstep.rec, where r' = ?r1], simp add: defs,
        rule rsteps_Cons [OF rstep.turn rsteps.none], simp add: defs)
  have rows: "sq_rows (rc_store ?r2) = [?row]" by code_simp
  then have "?row \<in> set (sq_rows (rc_store ?r2))" by simp
  from recorder_redacts [OF run this] obtain ev p where "?row = row_of ev p" "clean ?opts ev"
    by (auto simp: newSQLiteStore_def)
  with run rows show ?thesis by blast
qed

text \<open>The same for the in-memory store.\<close>

lemma recorder_redacts_memory:
  assumes "rsteps memory_Insert (NewAsyncRecorder (newMemoryStore so) n every opts) ls r" "ev \<in> set (events (rc_store r))"
  shows "clean opts ev"
  using memory_sink.recorder_contents [OF assms] Sanitize_clean by (auto simp: newMemoryStore_def events_def)

section \<open>Drop warnings\<close>

text \<open>
  The subtraction in \<open>onDrop\<close> is on unsigned words, and a goroutine may be overtaken between its
  increment and its load: its total is then below the logged count, the difference wraps around, and
  it logs and sets the logged count back.  Two drops at a cadence of two give two warnings.
\<close>

lemma warning_cadence_race:
  "\<exists>ls r. rsteps memory_Insert (NewAsyncRecorder st 1 2 opts) ls r
     \<and> length (dropped ls) = 2 \<and> rc_warnings r = [2, 1] \<and> rc_loggedDrops r = 1"
proof -
  let ?ev = "sample_event ''a'' 0" and ?r0 = "NewAsyncRecorder st 1 2 opts"
  let ?r1 = "snd (Record ?ev ?r0)"
  let ?r3 = "snd (Record ?ev (snd (Record ?ev ?r1)))"
  let ?r4 = "the (onDrop_load 1 ?r3)" let ?r5 = "the (onDrop_swap 1 ?r4)"
  let ?r6 = "the (onDrop_load 0 ?r5)" let ?r7 = "the (onDrop_swap 0 ?r6)"
  note defs = Record_def NewAsyncRecorder_def onDrop_load_def onDrop_swap_def without_def Let_def
  have "rsteps memory_Insert ?r0 [LRecord ?ev Accepted, LRecord ?ev Dropped, LRecord ?ev Dropped, LDrop, LDrop, LDrop, LDrop] ?r7"
    apply (rule rsteps_Cons [OF rstep.rec, where r' = ?r1], simp add: defs)
    apply (rule rsteps_Cons [OF rstep.rec, where r' = "snd (Record ?ev ?r1)"], simp add: defs)
    apply (rule rsteps_Cons [OF rstep.rec, where r' = ?r3], simp add: defs)
    apply (rule rsteps_Cons [OF rstep.load [of 1], where r' = ?r4], simp add: defs)
    apply (rule rsteps_Cons [OF rstep.swap [of 1], where r' = ?r5], simp add: defs)
    apply (rule rsteps_Cons [OF rstep.load [of 0], where r' = ?r6], simp add: defs)
    apply (rule rsteps_Cons [OF rstep.swap [of 0] rsteps.none], simp add: defs)
    done
  moreover have "rc_warnings ?r7 = [2, 1]" "rc_loggedDrops ?r7 = 1" by (simp_all add: defs)
  ultimately show ?thesis by (intro exI conjI) (auto simp: dropped_def)
qed

end
