(* ===== verification/Pb.thy ===== *)
theory Pb
  imports Prelude
begin

text \<open>
  The messages of \<^verbatim>\<open>internal/pb/core.pb.go\<close> that policies are evaluated against, and JSON
  values (\<^verbatim>\<open>structpb.Value\<close> and the \<open>any\<close> produced by \<^verbatim>\<open>encoding/json\<close>).  A JSON number is kept
  as its literal, which the modelled code never computes with; a JSON object is an association
  list from keys to values.
\<close>

datatype json =
    JNull
  | JBool bool
  | JNum string
  | JStr string
  | JArr "json list"
  | JObj "(string \<times> json) list"

record KeyValue =
  kv_key :: string
  kv_value :: string

record Request =
  req_method :: string
  req_path :: string
  req_path_segments :: "string list"
  req_query :: "KeyValue list"
  req_body :: "json option"

record Response =
  resp_body :: "json option"

record MetaRequest =
  mr_method :: string
  mr_path :: string
  mr_body :: "json option"
  mr_content_type :: string

record Principal =
  pr_subject :: string
  pr_kind :: string
  pr_scopes :: "string list"
  pr_attributes :: "(string \<times> string) list"

end
