(* ===== verification/Paths.thy ===== *)
theory Paths
  imports Pb
begin

text \<open>
  Path templates and path splitting, from \<^verbatim>\<open>internal/runtime/compiled/path.go\<close>: how a request
  path becomes segments, how the segments are rendered back into \<^verbatim>\<open>request.path\<close>, and how an
  action's \<^verbatim>\<open>method:\<close> and \<^verbatim>\<open>path:\<close> template is parsed and matched.  The capture map of
  \<open>Match\<close> is a partial function; Go's nil map and the empty map read alike and are both
  \<^term>\<open>Map.empty\<close>.
\<close>

section \<open>Definitions\<close>

abbreviation slash :: char where "slash \<equiv> CHR 0x2F"
abbreviation percent :: char where "percent \<equiv> CHR 0x25"
abbreviation open_brace :: char where "open_brace \<equiv> CHR 0x7B"
abbreviation close_brace :: char where "close_brace \<equiv> CHR 0x7D"

datatype path_error =
    EmptyMethod
  | EmptyPath
  | NoSegments string
  | UnmatchedBrace string
  | NestedBrace string
  | InvalidParam string
  | DuplicateParam string
  | BadEscape nat

record pathSeg =
  ps_literal :: string
  ps_param :: string

record PathTemplate =
  pt_method :: string
  pt_segs :: "pathSeg list"

definition SplitPath :: "string \<Rightarrow> string list" where
  "SplitPath p0 =
     (let p = TrimPrefix p0 [slash]
      in if p = [] then [] else Split slash p)"

text \<open>The decode loop of \<open>SplitEscapedPath\<close>, with the index the error reports.\<close>

fun decode_segments :: "nat \<Rightarrow> string list \<Rightarrow> path_error + string list" where
  "decode_segments i [] = Inr []"
| "decode_segments i (s # ss) =
     (case PathUnescape s of
        None \<Rightarrow> Inl (BadEscape i)
      | Some dec \<Rightarrow>
          (case decode_segments (Suc i) ss of
             Inl e \<Rightarrow> Inl e
           | Inr ds \<Rightarrow> Inr (dec # ds)))"

definition SplitEscapedPath :: "string \<Rightarrow> path_error + string list" where
  "SplitEscapedPath escaped = decode_segments 0 (SplitPath escaped)"

definition escape_segment :: "string \<Rightarrow> string" where
  "escape_segment s = ReplaceAll (ReplaceAll s percent ''%25'') slash ''%2F''"

definition JoinSegments :: "string list \<Rightarrow> string" where
  "JoinSegments segs =
     (if segs = [] then [slash]
      else [slash] @ Join (map escape_segment segs) [slash])"

text \<open>One byte of \<open>isIdentifier\<close> at index \<open>i\<close>, then the loop over the string.\<close>

definition ident_byte :: "nat \<Rightarrow> char \<Rightarrow> bool" where
  "ident_byte i c \<longleftrightarrow> c = CHR ''_'' \<or> is_lower c \<or> is_upper c \<or> (0 < i \<and> is_digit c)"

fun ident_loop :: "nat \<Rightarrow> string \<Rightarrow> bool" where
  "ident_loop i [] = True"
| "ident_loop i (c # cs) = (if ident_byte i c then ident_loop (Suc i) cs else False)"

definition isIdentifier :: "string \<Rightarrow> bool" where
  "isIdentifier s \<longleftrightarrow> (if s = [] then False else ident_loop 0 s)"

text \<open>\<open>Inr None\<close> is a literal segment, \<open>Inr (Some name)\<close> a parameter.\<close>

definition parseSegment :: "string \<Rightarrow> path_error + string option" where
  "parseSegment seg =
     (let hasOpen = open_brace \<in> set seg; hasClose = close_brace \<in> set seg
      in if \<not> hasOpen \<and> \<not> hasClose then Inr None
         else if length seg < 2 \<or> hd seg \<noteq> open_brace \<or> last seg \<noteq> close_brace
           then Inl (UnmatchedBrace seg)
         else
           (let body = butlast (tl seg)
            in if open_brace \<in> set body \<or> close_brace \<in> set body then Inl (NestedBrace seg)
               else if \<not> isIdentifier body then Inl (InvalidParam seg)
               else Inr (Some body)))"

text \<open>The segment loop of \<open>ParsePathTemplate\<close>; \<open>seen\<close> holds the parameter names so far.\<close>

fun parse_segments :: "string list \<Rightarrow> string list \<Rightarrow> path_error + pathSeg list" where
  "parse_segments seen [] = Inr []"
| "parse_segments seen (raw # rest) =
     (case parseSegment raw of
        Inl e \<Rightarrow> Inl e
      | Inr (Some name) \<Rightarrow>
          (if name \<in> set seen then Inl (DuplicateParam name)
           else (case parse_segments (name # seen) rest of
                   Inl e \<Rightarrow> Inl e
                 | Inr segs \<Rightarrow> Inr (\<lparr>ps_literal = [], ps_param = name\<rparr> # segs)))
      | Inr None \<Rightarrow>
          (case parse_segments seen rest of
             Inl e \<Rightarrow> Inl e
           | Inr segs \<Rightarrow> Inr (\<lparr>ps_literal = raw, ps_param = []\<rparr> # segs)))"

definition ParsePathTemplate :: "string \<Rightarrow> string \<Rightarrow> path_error + PathTemplate" where
  "ParsePathTemplate method path =
     (if method = [] then Inl EmptyMethod
      else if path = [] then Inl EmptyPath
      else (let rawSegs = SplitPath path
            in if rawSegs = [] then Inl (NoSegments path)
               else (case parse_segments [] rawSegs of
                       Inl e \<Rightarrow> Inl e
                     | Inr segs \<Rightarrow> Inr \<lparr>pt_method = ToUpper method, pt_segs = segs\<rparr>)))"

text \<open>The segment loop of \<open>Match\<close>, over template rules and request segments in step.\<close>

fun match_segs :: "pathSeg list \<Rightarrow> string list \<Rightarrow> (string \<rightharpoonup> string) \<Rightarrow> (string \<rightharpoonup> string) option" where
  "match_segs (rule # rules) (seg # segs) params =
     (if ps_param rule \<noteq> [] then match_segs rules segs (params(ps_param rule \<mapsto> seg))
      else if ps_literal rule \<noteq> seg then None
      else match_segs rules segs params)"
| "match_segs _ _ params = Some params"

definition PathTemplate_Match :: "PathTemplate \<Rightarrow> Request \<Rightarrow> (string \<rightharpoonup> string) option" where
  "PathTemplate_Match t req =
     (if req_method req \<noteq> pt_method t then None
      else (let segs = req_path_segments req
            in if length segs \<noteq> length (pt_segs t) then None
               else match_segs (pt_segs t) segs Map.empty))"

subsection \<open>Specification vocabulary\<close>

text \<open>The parameter names of a template, and the segments it describes for given captures.\<close>

definition seg_params :: "pathSeg list \<Rightarrow> string list" where
  "seg_params segs = map ps_param (filter (\<lambda>s. ps_param s \<noteq> []) segs)"

definition fill_seg :: "(string \<rightharpoonup> string) \<Rightarrow> pathSeg \<Rightarrow> string option" where
  "fill_seg ps s = (if ps_param s \<noteq> [] then ps (ps_param s) else Some (ps_literal s))"

definition fills :: "PathTemplate \<Rightarrow> (string \<rightharpoonup> string) \<Rightarrow> string list \<Rightarrow> bool" where
  "fills t ps segs \<longleftrightarrow> list_all2 (\<lambda>s seg. fill_seg ps s = Some seg) (pt_segs t) segs"

definition template_ok :: "PathTemplate \<Rightarrow> bool" where
  "template_ok t \<longleftrightarrow>
     pt_method t \<noteq> [] \<and> pt_segs t \<noteq> [] \<and> distinct (seg_params (pt_segs t))
     \<and> (\<forall>s \<in> set (pt_segs t).
          if ps_param s \<noteq> [] then isIdentifier (ps_param s) \<and> ps_literal s = []
          else open_brace \<notin> set (ps_literal s) \<and> close_brace \<notin> set (ps_literal s)
               \<and> slash \<notin> set (ps_literal s))"

section \<open>Lemmas\<close>

subsection \<open>Escaping\<close>

lemma escape_segment_Nil [simp]: "escape_segment [] = []"
  by (simp add: escape_segment_def ReplaceAll_def)

lemma escape_segment_Cons [simp]:
  "escape_segment (c # s) =
     (if c = percent then ''%25'' else if c = slash then ''%2F'' else [c]) @ escape_segment s"
  by (simp add: escape_segment_def ReplaceAll_def)

lemma escape_segment_no_slash: "slash \<notin> set (escape_segment s)"
  by (induction s) auto

lemma escape_segment_Nil_iff [simp]: "escape_segment s = [] \<longleftrightarrow> s = []"
  by (cases s) auto

lemma hex_escapes [simp]:
  "ishex CHR ''2''" "ishex CHR ''5''" "ishex CHR ''F''"
  "unhex CHR ''2'' = 2" "unhex CHR ''5'' = 5" "unhex CHR ''F'' = 15"
  "char_of (47 :: nat) = slash" "char_of (37 :: nat) = percent"
  by code_simp+

lemma PathUnescape_escape_segment: "PathUnescape (escape_segment s) = Some s"
  by (induction s) auto

lemma Join_escape_not_Nil:
  "segs \<noteq> [] \<Longrightarrow> segs \<noteq> [[]] \<Longrightarrow> Join (map escape_segment segs) [slash] \<noteq> []"
  by (cases segs rule: remdups_adj.cases) auto

lemma SplitPath_Cons_slash: "p \<noteq> [] \<Longrightarrow> SplitPath (slash # p) = Split slash p"
  by (simp add: SplitPath_def TrimPrefix_def HasPrefix_def)

lemma SplitPath_not_single_empty: "SplitPath p \<noteq> [[]]"
proof
  assume s: "SplitPath p = [[]]"
  define q where "q = TrimPrefix p [slash]"
  from s have "q \<noteq> []" "Split slash q = [[]]"
    by (auto simp: SplitPath_def q_def Let_def split: if_splits)
  then have "Join [[]] [slash] = q" using Join_Split [of slash q] by simp
  with \<open>q \<noteq> []\<close> show False by simp
qed

lemma SplitPath_no_slash: "s \<in> set (SplitPath p) \<Longrightarrow> slash \<notin> set s"
  by (auto simp: SplitPath_def Let_def split: if_splits dest: Split_no_sep)

lemma decode_segments_Inr_iff:
  "decode_segments i ss = Inr ds \<longleftrightarrow> list_all2 (\<lambda>s d. PathUnescape s = Some d) ss ds"
proof (induction ss arbitrary: i ds)
  case (Cons s ss)
  show ?case
    by (cases "PathUnescape s"; cases "decode_segments (Suc i) ss")
       (auto simp: list_all2_Cons1 simp flip: Cons.IH [of "Suc i"])
qed auto

lemma decode_escape_segments: "decode_segments i (map escape_segment segs) = Inr segs"
  by (simp add: decode_segments_Inr_iff list_all2_map1 PathUnescape_escape_segment list.rel_refl)

lemma SplitPath_JoinSegments:
  assumes "segs \<noteq> [[]]"
  shows "SplitPath (JoinSegments segs) = map escape_segment segs"
proof (cases "segs = []")
  case True
  then show ?thesis by (simp add: JoinSegments_def SplitPath_def TrimPrefix_def HasPrefix_def)
next
  case False
  with assms have "Join (map escape_segment segs) [slash] \<noteq> []" by (rule Join_escape_not_Nil[rotated])
  with False show ?thesis
    by (auto simp: JoinSegments_def SplitPath_Cons_slash escape_segment_no_slash intro!: Split_Join)
qed

lemma SplitEscapedPath_JoinSegments: "segs \<noteq> [[]] \<Longrightarrow> SplitEscapedPath (JoinSegments segs) = Inr segs"
  by (simp add: SplitEscapedPath_def SplitPath_JoinSegments decode_escape_segments)

lemma SplitEscapedPath_not_single_empty: "SplitEscapedPath p = Inr segs \<Longrightarrow> segs \<noteq> [[]]"
proof
  assume "SplitEscapedPath p = Inr segs" "segs = [[]]"
  then have "list_all2 (\<lambda>s d. PathUnescape s = Some d) (SplitPath p) [[]]"
    by (simp add: SplitEscapedPath_def decode_segments_Inr_iff)
  then have "SplitPath p = [[]]"
    by (auto simp: list_all2_Cons2 PathUnescape_Nil_iff)
  then show False by (simp add: SplitPath_not_single_empty)
qed

text \<open>
  \<open>JoinSegments\<close> and \<open>SplitEscapedPath\<close> are an encoder and its decoder on every segment list a
  request can produce.
\<close>

definition split_ok :: "string \<Rightarrow> string list option" where
  "split_ok p = (case SplitEscapedPath p of Inl _ \<Rightarrow> None | Inr segs \<Rightarrow> Some segs)"

interpretation path_codec: codec JoinSegments split_ok "\<lambda>segs. segs \<noteq> [[]]"
  by unfold_locales (simp add: split_ok_def SplitEscapedPath_JoinSegments)

subsection \<open>Templates\<close>

lemma seg_params_Nil [simp]: "seg_params [] = []"
  by (simp add: seg_params_def)

lemma seg_params_Cons [simp]:
  "seg_params (s # segs) = (if ps_param s \<noteq> [] then ps_param s # seg_params segs else seg_params segs)"
  by (simp add: seg_params_def)

lemma match_segs_iff:
  "length rules = length segs \<Longrightarrow> distinct (seg_params rules) \<Longrightarrow>
   dom ps0 \<inter> set (seg_params rules) = {} \<Longrightarrow>
   match_segs rules segs ps0 = Some ps \<longleftrightarrow>
     list_all2 (\<lambda>s seg. fill_seg ps s = Some seg) rules segs
     \<and> dom ps = dom ps0 \<union> set (seg_params rules)
     \<and> (\<forall>x \<in> dom ps0. ps x = ps0 x)"
proof (induction rules segs arbitrary: ps0 rule: list_induct2)
  case Nil
  show ?case using map_eq_on_dom [of ps ps0] by auto
next
  case (Cons rule rules seg segs)
  show ?case
  proof (cases "ps_param rule = []")
    case True
    with Cons.prems Cons.IH [of ps0] show ?thesis by (auto simp: fill_seg_def)
  next
    case False
    define q where "q = ps0(ps_param rule \<mapsto> seg)"
    have "match_segs rules segs q = Some ps \<longleftrightarrow>
        list_all2 (\<lambda>s seg. fill_seg ps s = Some seg) rules segs
        \<and> dom ps = dom q \<union> set (seg_params rules) \<and> (\<forall>x \<in> dom q. ps x = q x)"
      by (rule Cons.IH) (use Cons.prems False in \<open>auto simp: q_def disjoint_iff domIff split: if_splits\<close>)
    moreover have "match_segs (rule # rules) (seg # segs) ps0 = match_segs rules segs q"
      using False by (simp add: q_def)
    moreover have "ps_param rule \<notin> dom ps0" using Cons.prems False by auto
    ultimately show ?thesis using False by (auto simp: fill_seg_def q_def split: if_splits)
  qed
qed

lemma parseSegment_None:
  "parseSegment seg = Inr None \<longleftrightarrow> open_brace \<notin> set seg \<and> close_brace \<notin> set seg"
  by (auto simp: parseSegment_def Let_def)

lemma parseSegment_Some:
  assumes "parseSegment seg = Inr (Some name)"
  shows "seg = [open_brace] @ name @ [close_brace] \<and> isIdentifier name"
proof -
  from assms have *: "\<not> length seg < 2" "hd seg = open_brace" "last seg = close_brace"
    "name = butlast (tl seg)" "isIdentifier name"
    by (auto simp: parseSegment_def Let_def split: if_splits)
  then obtain rest where "seg = open_brace # rest" "rest \<noteq> []" by (cases seg) auto
  with * show ?thesis using append_butlast_last_id [of rest] by auto
qed

lemma isIdentifier_not_Nil: "isIdentifier s \<Longrightarrow> s \<noteq> []"
  by (auto simp: isIdentifier_def)

definition render_seg :: "pathSeg \<Rightarrow> string" where
  "render_seg s =
     (if ps_param s \<noteq> [] then [open_brace] @ ps_param s @ [close_brace] else ps_literal s)"

lemma parse_segments_ok:
  "parse_segments seen raws = Inr segs \<Longrightarrow> (\<And>r. r \<in> set raws \<Longrightarrow> slash \<notin> set r) \<Longrightarrow>
     raws = map render_seg segs
     \<and> distinct (seg_params segs) \<and> set (seg_params segs) \<inter> set seen = {}
     \<and> (\<forall>s \<in> set segs.
          if ps_param s \<noteq> [] then isIdentifier (ps_param s) \<and> ps_literal s = []
          else open_brace \<notin> set (ps_literal s) \<and> close_brace \<notin> set (ps_literal s)
               \<and> slash \<notin> set (ps_literal s))"
proof (induction seen raws arbitrary: segs rule: parse_segments.induct)
  case (2 seen raw rest)
  from "2.prems"(1) consider
      (param) name segs' where "parseSegment raw = Inr (Some name)" "name \<notin> set seen"
        "parse_segments (name # seen) rest = Inr segs'" "segs = \<lparr>ps_literal = [], ps_param = name\<rparr> # segs'"
    | (lit) segs' where "parseSegment raw = Inr None"
        "parse_segments seen rest = Inr segs'" "segs = \<lparr>ps_literal = raw, ps_param = []\<rparr> # segs'"
    by (auto split: sum.splits option.splits if_splits)
  then show ?case
  proof cases
    case param
    note IH = "2.IH"(2) [OF param(1) refl param(2,3)]
    from param(1) have "name \<noteq> []" "raw = [open_brace] @ name @ [close_brace]" "isIdentifier name"
      using parseSegment_Some isIdentifier_not_Nil by blast+
    with param IH "2.prems"(2) show ?thesis by (auto simp: render_seg_def)
  next
    case lit
    note IH = "2.IH"(1) [OF lit(1) refl lit(2)]
    with lit "2.prems"(2) show ?thesis by (auto simp: render_seg_def parseSegment_None)
  qed
qed auto

lemma ToUpper_Nil_iff [simp]: "ToUpper s = [] \<longleftrightarrow> s = []"
  by (simp add: ToUpper_def)

lemma ParsePathTemplate_parts:
  assumes "ParsePathTemplate method path = Inr t"
  shows "method \<noteq> []" "pt_method t = ToUpper method" "SplitPath path \<noteq> []"
    "parse_segments [] (SplitPath path) = Inr (pt_segs t)"
  using assms by (auto simp: ParsePathTemplate_def Let_def split: if_splits sum.splits)

lemma template_ok_distinct: "template_ok t \<Longrightarrow> distinct (seg_params (pt_segs t))"
  by (simp add: template_ok_def)

section \<open>Properties\<close>

text \<open>
  C39: the flat \<^verbatim>\<open>request.path\<close> and \<^verbatim>\<open>request.path_segments\<close> a policy sees never disagree about
  separators.  For two raw request paths that split into segments, the rendered paths are equal
  exactly when the segment lists are equal, and splitting the rendered path again gives the same
  segments: an encoded slash cannot make one request look like another.
\<close>

theorem rendered_path_faithful:
  assumes "SplitEscapedPath raw1 = Inr segs1" "SplitEscapedPath raw2 = Inr segs2"
  shows "(JoinSegments segs1 = JoinSegments segs2 \<longleftrightarrow> segs1 = segs2)
    \<and> SplitEscapedPath (JoinSegments segs1) = Inr segs1"
proof -
  have "segs1 \<noteq> [[]]" "segs2 \<noteq> [[]]"
    using assms SplitEscapedPath_not_single_empty by blast+
  then show ?thesis
    using path_codec.enc_inject SplitEscapedPath_JoinSegments by simp
qed

theorem rendered_path_faithful_witness:
  "SplitEscapedPath ''/files/a%2Fb'' = Inr [''files'', ''a/b'']
   \<and> SplitEscapedPath ''/files/a/b'' = Inr [''files'', ''a'', ''b'']
   \<and> JoinSegments [''files'', ''a/b''] \<noteq> JoinSegments [''files'', ''a'', ''b'']"
proof -
  have 1: "SplitEscapedPath ''/files/a%2Fb'' = Inr [''files'', ''a/b'']" by code_simp
  have 2: "SplitEscapedPath ''/files/a/b'' = Inr [''files'', ''a'', ''b'']" by code_simp
  show ?thesis using 1 2 rendered_path_faithful [OF 1 2] by simp
qed

text \<open>
  a parsed template is well formed (a method, at least one segment, distinct identifier
  parameters, literals without braces) and is exactly the path it was parsed from: rendering its
  segments gives the path's segments back, so no segment is dropped, merged or reinterpreted.
\<close>

theorem ParsePathTemplate_roundtrip:
  assumes "ParsePathTemplate method path = Inr t"
  shows "template_ok t \<and> pt_method t = ToUpper method \<and> map render_seg (pt_segs t) = SplitPath path"
proof -
  note parts = ParsePathTemplate_parts [OF assms]
  have "\<And>r. r \<in> set (SplitPath path) \<Longrightarrow> slash \<notin> set r" by (rule SplitPath_no_slash)
  from parse_segments_ok [OF parts(4) this] parts show ?thesis
    by (auto simp: template_ok_def)
qed

theorem ParsePathTemplate_roundtrip_witness:
  "ParsePathTemplate ''get'' ''/users/{user_id}/messages:send'' =
     Inr \<lparr>pt_method = ''GET'', pt_segs =
       [\<lparr>ps_literal = ''users'', ps_param = []\<rparr>, \<lparr>ps_literal = [], ps_param = ''user_id''\<rparr>,
        \<lparr>ps_literal = ''messages:send'', ps_param = []\<rparr>]\<rparr>
   \<and> map render_seg
       [\<lparr>ps_literal = ''users'', ps_param = []\<rparr>, \<lparr>ps_literal = [], ps_param = ''user_id''\<rparr>,
        \<lparr>ps_literal = ''messages:send'', ps_param = []\<rparr>]
     = [''users'', ''{user_id}'', ''messages:send'']"
proof -
  let ?t = "\<lparr>pt_method = ''GET'', pt_segs =
       [\<lparr>ps_literal = ''users'', ps_param = []\<rparr>, \<lparr>ps_literal = [], ps_param = ''user_id''\<rparr>,
        \<lparr>ps_literal = ''messages:send'', ps_param = []\<rparr>]\<rparr>"
  have 1: "ParsePathTemplate ''get'' ''/users/{user_id}/messages:send'' = Inr ?t" by code_simp
  have 2: "SplitPath ''/users/{user_id}/messages:send'' = [''users'', ''{user_id}'', ''messages:send'']"
    by code_simp
  show ?thesis using 1 2 ParsePathTemplate_roundtrip [OF 1] by simp
qed

text \<open>
  \<open>Match\<close> decides membership exactly.  A well-formed template matches a request with captures
  \<open>ps\<close> if and only if the method is the template's, the captures bind exactly the template's
  parameters, and substituting them into the template gives the request's segments one for one
  (so an extra, missing or empty segment never collapses onto another path).
\<close>

theorem PathTemplate_Match_iff:
  assumes "template_ok t"
  shows "PathTemplate_Match t req = Some ps \<longleftrightarrow>
    req_method req = pt_method t
    \<and> dom ps = set (seg_params (pt_segs t)) \<and> fills t ps (req_path_segments req)"
proof (cases "length (req_path_segments req) = length (pt_segs t)")
  case True
  with template_ok_distinct [OF assms]
    match_segs_iff [of "pt_segs t" "req_path_segments req" Map.empty ps]
  show ?thesis by (auto simp: PathTemplate_Match_def Let_def fills_def)
next
  case False
  then have "\<not> fills t ps (req_path_segments req)"
    by (auto simp: fills_def dest: list_all2_lengthD)
  with False show ?thesis by (simp add: PathTemplate_Match_def Let_def)
qed

theorem PathTemplate_Match_iff_witness:
  "template_ok \<lparr>pt_method = ''GET'', pt_segs =
       [\<lparr>ps_literal = ''users'', ps_param = []\<rparr>, \<lparr>ps_literal = [], ps_param = ''id''\<rparr>]\<rparr>
   \<and> PathTemplate_Match
     \<lparr>pt_method = ''GET'', pt_segs =
       [\<lparr>ps_literal = ''users'', ps_param = []\<rparr>, \<lparr>ps_literal = [], ps_param = ''id''\<rparr>]\<rparr>
     \<lparr>req_method = ''GET'', req_path = ''/users/me'', req_path_segments = [''users'', ''me''],
      req_query = [], req_body = None\<rparr> = Some [''id'' \<mapsto> ''me'']"
proof -
  let ?t = "\<lparr>pt_method = ''GET'', pt_segs =
       [\<lparr>ps_literal = ''users'', ps_param = []\<rparr>, \<lparr>ps_literal = [], ps_param = ''id''\<rparr>]\<rparr>"
  have "isIdentifier ''id''" by code_simp
  then have ok: "template_ok ?t" by (simp add: template_ok_def)
  show ?thesis
    unfolding PathTemplate_Match_iff [OF ok] using ok by (simp add: fills_def fill_seg_def)
qed

end
