(* ===== verification/Urls.thy ===== *)
theory Urls
  imports Paths
begin

text \<open>
  The fragment of \<^verbatim>\<open>net/url\<close> the proxy uses (query escaping, \<open>ParseQuery\<close>, \<open>Values.Encode\<close>), the query
  redaction of the access log (\<^verbatim>\<open>internal/server/middleware.go\<close>) and the byte-level path join of
  \<^verbatim>\<open>internal/apiclient/http.go\<close>.  A \<open>url.Values\<close> map is an association list from keys to value lists, in
  the order in which the keys first occur.
\<close>

section \<open>Definitions\<close>

subsection \<open>Query strings\<close>

definition upperhex :: "nat \<Rightarrow> char" where
  "upperhex n = (if n < 10 then char_of (48 + n) else char_of (55 + n))"

definition query_unreserved :: "char \<Rightarrow> bool" where
  "query_unreserved c \<longleftrightarrow> is_lower c \<or> is_upper c \<or> is_digit c \<or> c \<in> {CHR ''-'', CHR ''_'', CHR ''.'', CHR 0x7E}"

definition escape_byte :: "char \<Rightarrow> string" where
  "escape_byte c =
     (if query_unreserved c then [c]
      else if c = CHR '' '' then ''+''
      else [percent, upperhex (of_char c div 16), upperhex (of_char c mod 16)])"

definition QueryEscape :: "string \<Rightarrow> string" where
  "QueryEscape s = concat (map escape_byte s)"

fun QueryUnescape :: "string \<Rightarrow> string option" where
  "QueryUnescape [] = Some []"
| "QueryUnescape (c # cs) =
     (if c = CHR ''%'' then
        (case cs of
           a # b # rest \<Rightarrow>
             (if ishex a \<and> ishex b
              then map_option ((#) (char_of (16 * unhex a + unhex b))) (QueryUnescape rest)
              else None)
         | _ \<Rightarrow> None)
      else map_option ((#) (if c = CHR ''+'' then CHR '' '' else c)) (QueryUnescape cs))"

text \<open>\<^verbatim>\<open>url.PathEscape\<close>.\<close>

definition path_unreserved :: "char \<Rightarrow> bool" where
  "path_unreserved c \<longleftrightarrow>
     is_lower c \<or> is_upper c \<or> is_digit c \<or> c \<in> set ''-_.~$&+=:@''"

definition PathEscape :: "string \<Rightarrow> string" where
  "PathEscape s =
     concat (map (\<lambda>c. if path_unreserved c then [c]
                      else [percent, upperhex (of_char c div 16), upperhex (of_char c mod 16)]) s)"

type_synonym url_values = "(string \<times> string list) list"

definition add_value :: "string \<Rightarrow> string \<Rightarrow> url_values \<Rightarrow> url_values" where
  "add_value k v m =
     (case map_of m k of
        None \<Rightarrow> m @ [(k, [v])]
      | Some vs \<Rightarrow> upsert_by fst (k, vs @ [v]) m)"

fun cut_at :: "char \<Rightarrow> string \<Rightarrow> string \<times> string" where
  "cut_at c [] = ([], [])"
| "cut_at c (x # xs) = (if x = c then ([], xs) else (let (a, b) = cut_at c xs in (x # a, b)))"

text \<open>One piece between ampersands: nothing, an error, or a pair.\<close>

definition parse_piece :: "string \<Rightarrow> (string \<times> string) option option" where
  "parse_piece p =
     (if CHR '';'' \<in> set p then None
      else if p = [] then Some None
      else (let (k, v) = cut_at (CHR ''='') p
            in case QueryUnescape k of
                 None \<Rightarrow> None
               | Some k' \<Rightarrow> (case QueryUnescape v of None \<Rightarrow> None | Some v' \<Rightarrow> Some (Some (k', v')))))"

text \<open>The loop over the pieces: whether there was no error, and the pairs that parsed.\<close>

fun parse_pieces :: "string list \<Rightarrow> bool \<times> (string \<times> string) list" where
  "parse_pieces [] = (True, [])"
| "parse_pieces (p # ps) =
     (let (ok, kvs) = parse_pieces ps
      in case parse_piece p of
           None \<Rightarrow> (False, kvs)
         | Some None \<Rightarrow> (ok, kvs)
         | Some (Some kv) \<Rightarrow> (ok, kv # kvs))"

definition collect_values :: "(string \<times> string) list \<Rightarrow> url_values" where
  "collect_values kvs = fold (\<lambda>(k, v). add_value k v) kvs []"

definition ParseQuery :: "string \<Rightarrow> bool \<times> url_values" where
  "ParseQuery raw = (let (ok, kvs) = parse_pieces (Split (CHR ''&'') raw) in (ok, collect_values kvs))"

definition values_pairs :: "url_values \<Rightarrow> (string \<times> string) list" where
  "values_pairs m = concat (map (\<lambda>(k, vs). map (Pair k) vs) (sort_key fst m))"

definition Values_Encode :: "url_values \<Rightarrow> string" where
  "Values_Encode m = Join (map (\<lambda>(k, v). QueryEscape k @ ''='' @ QueryEscape v) (values_pairs m)) ''&''"

subsection \<open>Access-log redaction\<close>

definition sensitiveQueryParams :: "string list" where
  "sensitiveQueryParams =
     [''code'', ''access_token'', ''refresh_token'', ''id_token'', ''token'', ''api_key'', ''key'', ''client_secret'',
      ''password'', ''secret'', ''assertion'']"

definition redacted :: string where "redacted = ''<redacted>''"

definition redact_values :: "url_values \<Rightarrow> url_values" where
  "redact_values m =
     map (\<lambda>(k, vs). (k, if ToLower k \<in> set sensitiveQueryParams then map (\<lambda>v. if v \<noteq> [] then redacted else v) vs else vs)) m"

definition redactQuery :: "string \<Rightarrow> string" where
  "redactQuery raw =
     (if raw = [] then []
      else (case ParseQuery raw of
              (False, _) \<Rightarrow> ''<unparseable>''
            | (True, values) \<Rightarrow>
                (if list_ex (\<lambda>(k, vs). ToLower k \<in> set sensitiveQueryParams \<and> list_ex (\<lambda>v. v \<noteq> []) vs) values
                 then Values_Encode (redact_values values) else raw)))"

subsection \<open>Joining a request path onto a base URL\<close>

record url =
  u_Scheme :: string
  u_Host :: string
  u_Path :: string
  u_RawPath :: string
  u_RawQuery :: string
  u_Fragment :: string

datatype join_error = ProtocolRelative | SchemeInPath | Whitespace | InvalidEscape

fun Contains :: "string \<Rightarrow> string \<Rightarrow> bool" where
  "Contains [] sub = (sub = [])"
| "Contains (x # xs) sub = (HasPrefix (x # xs) sub \<or> Contains xs sub)"

definition JoinPath :: "url \<Rightarrow> string \<Rightarrow> join_error + url" where
  "JoinPath base requestPath =
     (let pathPortion = fst (cut_at (CHR ''?'') requestPath);
          rel = TrimPrefix requestPath ''/'';
          (beforeFrag, fragTail) = cut_at (CHR ''#'') rel;
          (pathTail, queryTail) = cut_at (CHR ''?'') beforeFrag;
          rawBase = (if HasSuffix (u_Path base) ''/'' then u_Path base else u_Path base @ ''/'');
          rawJoined = rawBase @ pathTail
      in if HasPrefix requestPath ''//'' then Inl ProtocolRelative
         else if Contains pathPortion ''://'' then Inl SchemeInPath
         else if list_ex (\<lambda>c. c \<in> {CHR '' '', CHR 0x09, CHR 0x0D, CHR 0x0A}) requestPath then Inl Whitespace
         else (case PathUnescape rawJoined of
                 None \<Rightarrow> Inl InvalidEscape
               | Some decoded \<Rightarrow>
                   Inr (base\<lparr>u_Path := decoded, u_RawPath := rawJoined, u_RawQuery := queryTail, u_Fragment := fragTail\<rparr>)))"

subsection \<open>The path on the wire\<close>

text \<open>
  \<^verbatim>\<open>url.URL.EscapedPath\<close>, which is what a request carries: the raw path if it is a valid encoding of the path,
  and otherwise the path, encoded anew.
\<close>

definition path_byte :: "char \<Rightarrow> bool" where
  "path_byte c \<longleftrightarrow> is_lower c \<or> is_upper c \<or> is_digit c \<or> c \<in> set ''-_.~$&+,/:;=@''"

definition validEncoded :: "string \<Rightarrow> bool" where
  "validEncoded s \<longleftrightarrow> list_all (\<lambda>c. path_byte c \<or> c = CHR 0x27 \<or> c \<in> set ''!()*[]%'') s"

definition escape_path_byte :: "char \<Rightarrow> string" where
  "escape_path_byte c = (if path_byte c then [c] else [percent, upperhex (of_char c div 16), upperhex (of_char c mod 16)])"

definition escape_path :: "string \<Rightarrow> string" where
  "escape_path s = concat (map escape_path_byte s)"

definition EscapedPath :: "url \<Rightarrow> string" where
  "EscapedPath u =
     (if u_RawPath u \<noteq> [] \<and> validEncoded (u_RawPath u) \<and> PathUnescape (u_RawPath u) = Some (u_Path u) then u_RawPath u
      else if u_Path u = ''*'' then ''*''
      else escape_path (u_Path u))"

subsection \<open>Specification\<close>

definition values_ok :: "url_values \<Rightarrow> bool" where
  "values_ok m \<longleftrightarrow> distinct (map fst m) \<and> (\<forall>(k, vs) \<in> set m. vs \<noteq> [])"

text \<open>No sensitive parameter of a query carries anything but the placeholder.\<close>

definition no_secrets :: "url_values \<Rightarrow> bool" where
  "no_secrets m \<longleftrightarrow>
     (\<forall>(k, vs) \<in> set m. ToLower k \<in> set sensitiveQueryParams \<longrightarrow> (\<forall>v \<in> set vs. v = [] \<or> v = redacted))"

text \<open>The segments of a base path; a trailing slash makes no difference.\<close>

definition base_segments :: "string \<Rightarrow> string list" where
  "base_segments path =
     (let bb = (if HasSuffix path ''/'' then butlast path else path)
      in if bb = [] then [] else Split slash (TrimPrefix bb ''/''))"

section \<open>Query round trip\<close>

lemma hex_nibbles: "\<forall>n \<in> set [0..<16]. ishex (upperhex n) \<and> unhex (upperhex n) = n
    \<and> upperhex n \<notin> {CHR ''&'', CHR '';'', CHR ''=''}"
  by code_simp

lemma hex_nibble: "n < 16 \<Longrightarrow> ishex (upperhex n) \<and> unhex (upperhex n) = n \<and> upperhex n \<notin> {CHR ''&'', CHR '';'', CHR ''=''}"
  using hex_nibbles by simp

lemma of_char_div: "(of_char c :: nat) div 16 < 16"
proof -
  have "(of_char c :: nat) mod 256 = of_char c" by (rule of_char_mod_256)
  then have "(of_char c :: nat) < 256" by (metis mod_less_divisor zero_less_numeral)
  then show ?thesis by (simp add: div_less_iff_less_mult)
qed

text \<open>Escaped names have no line break.\<close>

lemma upperhex_no_break: "n < 16 \<Longrightarrow> upperhex n \<notin> {CHR 0x0A, CHR 0x0D}"
  using hex_nibble [of n] by (auto simp: ishex_def is_digit_def)

lemma PathEscape_no_break: "set (PathEscape s) \<inter> {CHR 0x0A, CHR 0x0D} = {}"
proof -
  have "c \<notin> {CHR 0x0A, CHR 0x0D}" if "path_unreserved c" for c
    using that by (auto simp: path_unreserved_def is_lower_def is_upper_def is_digit_def)
  moreover have "upperhex (of_char c div 16) \<notin> {CHR 0x0A, CHR 0x0D}" "upperhex (of_char c mod 16) \<notin> {CHR 0x0A, CHR 0x0D}" for c
    using of_char_div [of c] by (intro upperhex_no_break; simp)+
  moreover have "percent \<notin> {CHR 0x0A, CHR 0x0D}" by simp
  ultimately show ?thesis by (fastforce simp: PathEscape_def split: if_splits)
qed

lemma unreserved_plain: "query_unreserved c \<Longrightarrow> c \<notin> {CHR ''%'', CHR ''+'', CHR ''&'', CHR '';'', CHR ''=''}"
  by (auto simp: query_unreserved_def is_lower_def is_upper_def is_digit_def)

lemma escape_byte_unescape: "QueryUnescape (escape_byte c @ s) = map_option ((#) c) (QueryUnescape s)"
proof -
  have "char_of (16 * (of_char c div 16) + of_char c mod 16 :: nat) = c" by simp
  then show ?thesis
    using unreserved_plain [of c] hex_nibble [OF of_char_div [of c]] hex_nibble [of "of_char c mod 16"]
    by (auto simp: escape_byte_def)
qed

lemma QueryUnescape_Escape: "QueryUnescape (QueryEscape s) = Some s"
  by (induction s) (simp_all add: QueryEscape_def escape_byte_unescape)

lemma escape_byte_chars: "set (escape_byte c) \<inter> {CHR ''&'', CHR '';'', CHR ''=''} = {}"
  using unreserved_plain [of c] hex_nibble [OF of_char_div [of c]] hex_nibble [of "of_char c mod 16"]
  by (auto simp: escape_byte_def)

lemma QueryEscape_chars: "set (QueryEscape s) \<inter> {CHR ''&'', CHR '';'', CHR ''=''} = {}"
  using escape_byte_chars by (fastforce simp: QueryEscape_def)

lemma cut_at_append: "c \<notin> set a \<Longrightarrow> cut_at c (a @ c # b) = (a, b)"
  by (induction a) auto

lemma parse_encoded_pair: "parse_piece (QueryEscape k @ ''='' @ QueryEscape v) = Some (Some (k, v))"
proof -
  have "CHR ''='' \<notin> set (QueryEscape k)" "CHR '';'' \<notin> set (QueryEscape k @ ''='' @ QueryEscape v)"
    using QueryEscape_chars [of k] QueryEscape_chars [of v] by auto
  then show ?thesis
    using cut_at_append [of "CHR ''=''" "QueryEscape k" "QueryEscape v"]
    by (simp add: parse_piece_def QueryUnescape_Escape)
qed

lemma parse_encoded_pairs: "parse_pieces (map (\<lambda>(k, v). QueryEscape k @ ''='' @ QueryEscape v) kvs) = (True, kvs)"
  by (induction kvs) (auto simp: parse_encoded_pair simp del: append_Cons)

lemma split_encoded_pairs:
  assumes "kvs \<noteq> []"
  shows "Split (CHR ''&'') (Join (map (\<lambda>(k, v). QueryEscape k @ ''='' @ QueryEscape v) kvs) ''&'') =
     map (\<lambda>(k, v). QueryEscape k @ ''='' @ QueryEscape v) kvs"
  by (rule Split_Join) (use assms QueryEscape_chars in \<open>fastforce+\<close>)

lemma pieces_encode:
  "parse_pieces (Split (CHR ''&'') (Values_Encode m)) = (True, values_pairs m)"
proof (cases "values_pairs m = []")
  case True
  then show ?thesis by (simp add: Values_Encode_def parse_piece_def)
next
  case False
  then show ?thesis unfolding Values_Encode_def split_encoded_pairs [OF False] by (intro parse_encoded_pairs)
qed

lemma collect_append: "collect_values (kvs @ kvs') = fold (\<lambda>(k, v). add_value k v) kvs' (collect_values kvs)"
  by (simp add: collect_values_def)

lemma add_values_same:
  "map_of m k = None \<Longrightarrow> vs \<noteq> [] \<Longrightarrow> fold (\<lambda>(k, v). add_value k v) (map (Pair k) vs) m = m @ [(k, vs)]"
proof (induction vs rule: rev_induct)
  case (snoc v vs)
  show ?case
  proof (cases "vs = []")
    case True
    then show ?thesis using snoc.prems by (simp add: add_value_def)
  next
    case False
    then have "fold (\<lambda>(k, v). add_value k v) (map (Pair k) vs) m = m @ [(k, vs)]" using snoc by simp
    moreover have "upsert_by fst (k, vs @ [v]) (m @ [(k, vs)]) = m @ [(k, vs @ [v])]"
      using snoc.prems(1) by (induction m) (auto split: if_splits)
    then have "add_value k v (m @ [(k, vs)]) = m @ [(k, vs @ [v])]"
      using snoc.prems(1) by (simp add: add_value_def map_add_def)
    ultimately show ?thesis by simp
  qed
qed simp

lemma collect_blocks:
  "values_ok (m @ ms) \<Longrightarrow> fold (\<lambda>(k, v). add_value k v) (concat (map (\<lambda>(k, vs). map (Pair k) vs) ms)) m = m @ ms"
proof (induction ms arbitrary: m)
  case (Cons b ms)
  obtain k vs where b: "b = (k, vs)" by force
  have "map_of m k = None" "vs \<noteq> []" using Cons.prems by (auto simp: values_ok_def b map_of_eq_None_iff)
  then have "fold (\<lambda>(k, v). add_value k v) (map (Pair k) vs) m = m @ [b]" by (simp add: add_values_same b)
  with Cons.IH [of "m @ [b]"] Cons.prems show ?case by (simp add: b)
qed simp

lemma values_ok_sort: "values_ok m \<Longrightarrow> values_ok (sort_key fst m)"
  by (simp add: values_ok_def distinct_map)

lemma ParseQuery_Encode: "values_ok m \<Longrightarrow> ParseQuery (Values_Encode m) = (True, sort_key fst m)"
  using collect_blocks [of "[]" "sort_key fst m"] values_ok_sort
  by (simp add: ParseQuery_def pieces_encode collect_values_def values_pairs_def)

section \<open>Redaction\<close>

lemma add_value_ok: "values_ok m \<Longrightarrow> values_ok (add_value k v m)"
proof (cases "map_of m k")
  case (Some vs)
  assume m: "values_ok m"
  have "set (upsert_by fst (k, vs @ [v]) m) \<subseteq> insert (k, vs @ [v]) (set m)" by (rule set_upsert_by_subset)
  with m show ?thesis using Some by (auto simp: values_ok_def add_value_def distinct_upsert_by)
next
  case None
  assume "values_ok m"
  moreover have "k \<notin> fst ` set m" using None by (simp add: map_of_eq_None_iff)
  ultimately show ?thesis using None by (auto simp: values_ok_def add_value_def)
qed

lemma collect_values_ok: "values_ok (collect_values kvs)"
proof -
  have "values_ok m \<Longrightarrow> values_ok (fold (\<lambda>(k, v). add_value k v) kvs m)" for m
    by (induction kvs arbitrary: m) (auto simp: add_value_ok)
  from this [of "[]"] show ?thesis unfolding collect_values_def by (simp add: values_ok_def)
qed

lemma ParseQuery_ok: "values_ok (snd (ParseQuery raw))"
  by (simp add: ParseQuery_def split_beta collect_values_ok)

lemma redact_values_ok: "values_ok m \<Longrightarrow> values_ok (redact_values m)"
  by (auto simp: values_ok_def redact_values_def comp_def split_beta)

lemma redact_no_secrets: "no_secrets (redact_values m)"
  by (auto simp: no_secrets_def redact_values_def split: if_splits)

text \<open>
  Whatever query string a request carries, the string written to the access log, and into the URL
  of a captured event, either is the marker for an unparseable query or parses without error into
  parameters of which no sensitive one has a value other than the placeholder.
\<close>

theorem redactQuery_safe:
  "redactQuery raw = ''<unparseable>'' \<or> (fst (ParseQuery (redactQuery raw)) \<and> no_secrets (snd (ParseQuery (redactQuery raw))))"
proof (cases "raw = []")
  case True
  then show ?thesis by (simp add: redactQuery_def ParseQuery_def parse_piece_def collect_values_def no_secrets_def)
next
  case False
  obtain ok m where p: "ParseQuery raw = (ok, m)" by force
  have m: "values_ok m" using ParseQuery_ok [of raw] p by simp
  show ?thesis
  proof (cases "ok \<and> list_ex (\<lambda>(k, vs). ToLower k \<in> set sensitiveQueryParams \<and> list_ex (\<lambda>v. v \<noteq> []) vs) m")
    case True
    then have "redactQuery raw = Values_Encode (redact_values m)" using False p by (simp add: redactQuery_def)
    moreover have "no_secrets (sort_key fst (redact_values m))"
      using redact_no_secrets [of m] by (simp add: no_secrets_def)
    ultimately show ?thesis using ParseQuery_Encode [OF redact_values_ok [OF m]] by simp
  next
    case clean: False
    show ?thesis
    proof (cases ok)
      case True
      then have "redactQuery raw = raw" "no_secrets m"
        using clean False p by (auto simp: redactQuery_def no_secrets_def list_ex_iff)
      with p True show ?thesis by simp
    qed (use False p in \<open>simp add: redactQuery_def\<close>)
  qed
qed

section \<open>Paths seen by the upstream\<close>

lemma Split_append_sep: "Split c (a @ c # b) = Split c a @ Split c b"
proof (induction a)
  case (Cons x a)
  then show ?case by (cases "Split c a") (auto split: list.splits)
qed simp

lemma decode_append:
  "decode_segments i ss = Inr a \<Longrightarrow> decode_segments j ss' = Inr b \<Longrightarrow> decode_segments k (ss @ ss') = Inr (a @ b)"
  by (simp add: decode_segments_Inr_iff list_all2_appendI)

lemma decode_plain: "\<forall>s \<in> set ss. percent \<notin> set s \<Longrightarrow> decode_segments i ss = Inr ss"
  by (induction ss arbitrary: i) (auto simp: PathUnescape_plain)

lemma Split_chars: "w \<in> set (Split c s) \<Longrightarrow> set w \<subseteq> set s"
proof (induction s arbitrary: w)
  case C: (Cons x s)
  show ?case
  proof (cases "Split c s")
    case (Cons a as)
    have "set a \<subseteq> set s" "\<forall>w \<in> set as. set w \<subseteq> set s" using C.IH Cons by auto
    with Cons C.prems show ?thesis by (auto split: if_splits)
  qed simp
qed simp

lemma cut_at_none: "c \<notin> set s \<Longrightarrow> cut_at c s = (s, [])"
  by (induction s) auto

lemma TrimPrefix_subset: "set (TrimPrefix s p) \<subseteq> set s"
  by (auto simp: TrimPrefix_def dest: in_set_dropD)

lemma JoinPath_raw:
  assumes "JoinPath base p = Inr u" "CHR ''?'' \<notin> set p" "CHR ''#'' \<notin> set p"
  shows "u_RawPath u = (if HasSuffix (u_Path base) ''/'' then butlast (u_Path base) else u_Path base) @ ''/'' @ TrimPrefix p ''/''
    \<and> u_Scheme u = u_Scheme base \<and> u_Host u = u_Host base \<and> PathUnescape (u_RawPath u) = Some (u_Path u)"
proof -
  let ?rel = "TrimPrefix p ''/''"
  have "CHR ''#'' \<notin> set ?rel" "CHR ''?'' \<notin> set ?rel" using assms(2,3) TrimPrefix_subset by blast+
  moreover have "HasSuffix x ''/'' \<Longrightarrow> butlast x @ ''/'' = x" for x
    by (cases x rule: rev_cases) (auto simp: HasSuffix_def)
  ultimately show ?thesis using assms(1)
    by (auto simp: JoinPath_def Let_def cut_at_none split: if_splits option.splits)
qed

lemma validEncoded_append [simp]: "validEncoded (a @ b) \<longleftrightarrow> validEncoded a \<and> validEncoded b"
  by (simp add: validEncoded_def)

lemma validEncoded_subset: "validEncoded s \<Longrightarrow> set t \<subseteq> set s \<Longrightarrow> validEncoded t"
  unfolding validEncoded_def list_all_iff by blast

lemma validEncoded_path_only:
  assumes "validEncoded s"
  shows "CHR ''?'' \<notin> set s" "CHR ''#'' \<notin> set s"
proof -
  have "\<not> validEncoded ''?''" "\<not> validEncoded ''#''" by code_simp+
  then show "CHR ''?'' \<notin> set s" "CHR ''#'' \<notin> set s"
    using validEncoded_subset [OF assms, of "''?''"] validEncoded_subset [OF assms, of "''#''"] by auto
qed

lemma JoinPath_wire:
  assumes "JoinPath base p = Inr u" "validEncoded p" "validEncoded (u_Path base)"
  shows "EscapedPath u = u_RawPath u"
proof -
  note raw = JoinPath_raw [OF assms(1) validEncoded_path_only [OF assms(2)]]
  have "validEncoded ''/''" by code_simp
  with assms(2,3) have "validEncoded (u_Path base @ ''/'' @ p)" unfolding validEncoded_append by blast
  then have "validEncoded (u_RawPath u)"
    by (rule validEncoded_subset) (use raw TrimPrefix_subset [of p "''/''"] in \<open>auto dest: in_set_butlastD split: if_splits\<close>)
  moreover have "u_RawPath u \<noteq> []" "PathUnescape (u_RawPath u) = Some (u_Path u)" using raw by (simp, blast)
  ultimately show ?thesis by (simp add: EscapedPath_def)
qed

lemma EscapedPath_query [simp]: "EscapedPath (u\<lparr>u_RawQuery := q\<rparr>) = EscapedPath u"
  by (simp add: EscapedPath_def)

lemma SplitPath_base:
  "SplitPath (bb @ ''/'' @ rel) =
     (if bb = [] then (if rel = [] then [] else Split slash rel) else Split slash (TrimPrefix bb ''/'') @ Split slash rel)"
proof (cases bb)
  case Nil
  then show ?thesis by (simp add: SplitPath_def TrimPrefix_def HasPrefix_def)
next
  case (Cons x xs)
  then show ?thesis
    using Split_append_sep [of slash xs rel] Split_append_sep [of slash "x # xs" rel]
    by (auto simp: SplitPath_def TrimPrefix_def HasPrefix_def Let_def)
qed

lemma JoinPath_split:
  assumes "JoinPath base p = Inr u" "SplitEscapedPath p = Inr segs"
    and "validEncoded p" "validEncoded (u_Path base)" "percent \<notin> set (u_Path base)"
  shows "u_Scheme u = u_Scheme base \<and> u_Host u = u_Host base
    \<and> SplitEscapedPath (EscapedPath u) =
        Inr (if base_segments (u_Path base) = [] then segs
             else base_segments (u_Path base) @ (if segs = [] then [[]] else segs))"
proof -
  let ?bb = "if HasSuffix (u_Path base) ''/'' then butlast (u_Path base) else u_Path base" and ?rel = "TrimPrefix p ''/''"
  note raw = JoinPath_raw [OF assms(1) validEncoded_path_only [OF assms(3)]]
  have segs: "decode_segments 0 (if ?rel = [] then [] else Split slash ?rel) = Inr segs"
    using assms(2) by (simp add: SplitEscapedPath_def SplitPath_def Let_def)
  then have rel: "segs = [] \<longleftrightarrow> ?rel = []"
    by (auto simp: decode_segments_Inr_iff split: if_splits)
  have "\<forall>s \<in> set (Split slash (TrimPrefix ?bb ''/'')). percent \<notin> set s"
    using assms(5) Split_chars TrimPrefix_subset by (fastforce dest: in_set_butlastD split: if_splits)
  then have base: "decode_segments 0 (Split slash (TrimPrefix ?bb ''/'')) = Inr (Split slash (TrimPrefix ?bb ''/''))"
    by (rule decode_plain)
  have "SplitEscapedPath (u_RawPath u) = Inr (if ?bb = [] then segs
      else Split slash (TrimPrefix ?bb ''/'') @ (if segs = [] then [[]] else segs))"
  proof (cases "?bb = []")
    case True
    then show ?thesis using raw segs SplitPath_base [of ?bb ?rel] by (simp add: SplitEscapedPath_def)
  next
    case False
    have "decode_segments 0 (Split slash ?rel) = Inr (if segs = [] then [[]] else segs)"
      using segs rel by (cases "?rel = []") auto
    from decode_append [OF base this] False show ?thesis
      using raw SplitPath_base [of ?bb ?rel] by (simp add: SplitEscapedPath_def)
  qed
  with raw show ?thesis by (simp add: base_segments_def Let_def JoinPath_wire [OF assms(1,3,4)])
qed

text \<open>
  A base path with a character that has to be escaped makes the raw path an invalid encoding, and the whole path is
  decoded and encoded anew: an escaped slash of the request becomes a separator.
\<close>

lemma escaped_base_splits_segment:
  "\<exists>u. JoinPath \<lparr>u_Scheme = ''https'', u_Host = ''h'', u_Path = ''/my docs'', u_RawPath = [], u_RawQuery = [], u_Fragment = []\<rparr> ''/a%2Fb'' = Inr u
     \<and> SplitEscapedPath ''/a%2Fb'' = Inr [''a/b''] \<and> EscapedPath u = ''/my%20docs/a/b''"
proof -
  let ?base = "\<lparr>u_Scheme = ''https'', u_Host = ''h'', u_Path = ''/my docs'', u_RawPath = [], u_RawQuery = [], u_Fragment = []\<rparr>"
  have "case JoinPath ?base ''/a%2Fb'' of Inl _ \<Rightarrow> False | Inr u \<Rightarrow> EscapedPath u = ''/my%20docs/a/b''"
    "SplitEscapedPath ''/a%2Fb'' = Inr [''a/b'']" by code_simp+
  then show ?thesis by (cases "JoinPath ?base ''/a%2Fb''") auto
qed

text \<open>
  C12: the upstream request keeps the base URL's scheme and host, and the path it carries, split at the slashes of
  the bytes on the wire and decoded, is the base path's segments followed by exactly the segments that
  routing and the policies saw.  The request's path is one that \<open>EscapedPath\<close> returns, a valid encoding; the base path
  needs no escaping and has no percent sign; a request for the bare root adds one empty segment under a non-empty base.
\<close>

theorem JoinPath_segments:
  assumes "JoinPath base p = Inr u" "SplitEscapedPath p = Inr segs"
    and "validEncoded p" "validEncoded (u_Path base)" "percent \<notin> set (u_Path base)"
  shows "u_Scheme u = u_Scheme base \<and> u_Host u = u_Host base
    \<and> SplitEscapedPath (EscapedPath u) =
        Inr (if base_segments (u_Path base) = [] then segs
             else base_segments (u_Path base) @ (if segs = [] then [[]] else segs))"
  by (rule JoinPath_split [OF assms])

theorem JoinPath_segments_witness:
  "let base = \<lparr>u_Scheme = ''https'', u_Host = ''h'', u_Path = ''/v1'', u_RawPath = [], u_RawQuery = [], u_Fragment = []\<rparr>
   in \<exists>u. JoinPath base ''/a%2Fb/c'' = Inr u \<and> u_Host u = ''h''
        \<and> SplitEscapedPath (EscapedPath u) = Inr [''v1'', ''a/b'', ''c'']"
proof -
  let ?base = "\<lparr>u_Scheme = ''https'', u_Host = ''h'', u_Path = ''/v1'', u_RawPath = [], u_RawQuery = [], u_Fragment = []\<rparr>"
  have "is_ok (JoinPath ?base ''/a%2Fb/c'')" by code_simp
  then obtain u where u: "JoinPath ?base ''/a%2Fb/c'' = Inr u" by (auto simp: is_ok_def split: sum.splits)
  have segs: "SplitEscapedPath ''/a%2Fb/c'' = Inr [''a/b'', ''c'']" "base_segments (u_Path ?base) = [''v1'']" by code_simp+
  have ok: "validEncoded ''/a%2Fb/c''" "validEncoded (u_Path ?base)" "percent \<notin> set (u_Path ?base)" by code_simp+
  from JoinPath_segments [OF u segs(1) ok] u segs(2) show ?thesis by (auto simp: Let_def)
qed

end
