(* ===== verification/FileSystem.thy ===== *)
theory FileSystem
  imports Urls "HOL-Library.Sublist"
begin

text \<open>
  The fragment of Go's \<^verbatim>\<open>path/filepath\<close> and \<^verbatim>\<open>os\<close> packages that bundle management uses, on Unix.  A path is
  looked up under its key: a marker for a rooted path, then the segments left after lexical cleaning.  A file
  system is a finite list of keys with their nodes; an operation can fail because of its state, or because an
  environment says so, and every operation is logged with its outcome.  Permission bits are left out, a read does
  not fail for reasons other than absence, and relative paths all start at the same directory.
\<close>

section \<open>Definitions\<close>

subsection \<open>Package path/filepath\<close>

text \<open>The segments of a cleaned path; \<open>out\<close> holds those found so far, last first.\<close>

fun clean_segs :: "bool \<Rightarrow> string list \<Rightarrow> string list \<Rightarrow> string list" where
  "clean_segs rooted out [] = rev out"
| "clean_segs rooted out (s # ss) =
     (if s = [] \<or> s = ''.'' then clean_segs rooted out ss
      else if s = ''..'' then
        (case out of
           p # ps \<Rightarrow> if p \<noteq> ''..'' then clean_segs rooted ps ss else clean_segs rooted (''..'' # out) ss
         | [] \<Rightarrow> if rooted then clean_segs rooted [] ss else clean_segs rooted [''..''] ss)
      else clean_segs rooted (s # out) ss)"

definition Clean :: "string \<Rightarrow> string" where
  "Clean p =
     (let rooted = HasPrefix p ''/''; ss = clean_segs rooted [] (Split slash p)
      in if rooted then ''/'' @ Join ss ''/'' else if ss = [] then ''.'' else Join ss ''/'')"

definition path_Join :: "string \<Rightarrow> string \<Rightarrow> string" where
  "path_Join a b =
     (if a \<noteq> [] then Clean (a @ ''/'' @ b) else if b \<noteq> [] then Clean b else [])"

definition TrimSuffix :: "string \<Rightarrow> string \<Rightarrow> string" where
  "TrimSuffix s p = (if HasSuffix s p then take (length s - length p) s else s)"

definition path_Base :: "string \<Rightarrow> string" where
  "path_Base p = last (Split slash p)"

definition path_Dir :: "string \<Rightarrow> string" where
  "path_Dir p = Clean (Join (butlast (Split slash p)) ''/'' @ (if length (Split slash p) > 1 then ''/'' else []))"

subsection \<open>Keys\<close>

definition path_segs :: "string \<Rightarrow> string list" where
  "path_segs p = clean_segs (HasPrefix p ''/'') [] (Split slash p)"

definition fkey :: "string \<Rightarrow> string list" where
  "fkey p = (if HasPrefix p ''/'' then [''/''] else []) @ path_segs p"

text \<open>The key \<open>q\<close> lies in the directory \<open>d\<close>, and no step of the way leads up again.\<close>

definition below :: "string list \<Rightarrow> string list \<Rightarrow> bool" where
  "below d q \<longleftrightarrow> prefix d q \<and> ''..'' \<notin> set (drop (length d) q)"

text \<open>A plain file name, as directories list them: one segment that is not a step.\<close>

definition plain_name :: "string \<Rightarrow> bool" where
  "plain_name n \<longleftrightarrow> n \<notin> {[], ''.'', ''..''} \<and> slash \<notin> set n"

subsection \<open>The file system\<close>

datatype node = Dir | File string | Special

type_synonym fs = "(string list \<times> node) list"

datatype fs_op =
    MkdirAll string
  | MkdirTemp string
  | OpenFile string
  | WriteFile string string
  | Rename string string
  | RemoveAll string

definition is_dir :: "fs \<Rightarrow> string list \<Rightarrow> bool" where
  "is_dir fs k \<longleftrightarrow> k = [] \<or> k = [''/''] \<or> map_of fs k = Some Dir"

fun op_ok :: "fs \<Rightarrow> fs_op \<Rightarrow> bool" where
  "op_ok fs (MkdirAll p) = list_all (\<lambda>q. map_of fs q = None \<or> map_of fs q = Some Dir) (prefixes (fkey p))"
| "op_ok fs (MkdirTemp p) = (is_dir fs (butlast (fkey p)) \<and> map_of fs (fkey p) = None)"
| "op_ok fs (OpenFile p) = (is_dir fs (butlast (fkey p)) \<and> \<not> is_dir fs (fkey p))"
| "op_ok fs (WriteFile p b) = (case map_of fs (fkey p) of Some (File _) \<Rightarrow> True | _ \<Rightarrow> False)"
| "op_ok fs (Rename a b) =
     (is_dir fs (butlast (fkey b)) \<and> \<not> prefix (fkey a) (fkey b) \<and> \<not> prefix (fkey b) (fkey a)
      \<and> (case map_of fs (fkey a) of
            None \<Rightarrow> False
          | Some Dir \<Rightarrow> (map_of fs (fkey b) = None \<or> map_of fs (fkey b) = Some Dir) \<and> list_all (\<lambda>(q, _). \<not> strict_prefix (fkey b) q) fs
          | Some _ \<Rightarrow> \<not> is_dir fs (fkey b)))"
| "op_ok fs (RemoveAll p) = True"

definition move_tree :: "string list \<Rightarrow> string list \<Rightarrow> fs \<Rightarrow> fs" where
  "move_tree a b fs =
     map (\<lambda>(q, n). (if prefix a q then b @ drop (length a) q else q, n)) (filter (\<lambda>(q, _). \<not> prefix b q) fs)"

fun apply_op :: "fs_op \<Rightarrow> fs \<Rightarrow> fs" where
  "apply_op (MkdirAll p) fs = fold (\<lambda>q fs. if is_dir fs q then fs else upsert_by fst (q, Dir) fs) (prefixes (fkey p)) fs"
| "apply_op (MkdirTemp p) fs = upsert_by fst (fkey p, Dir) fs"
| "apply_op (OpenFile p) fs = upsert_by fst (fkey p, File []) fs"
| "apply_op (WriteFile p b) fs = upsert_by fst (fkey p, File b) fs"
| "apply_op (Rename a b) fs = move_tree (fkey a) (fkey b) fs"
| "apply_op (RemoveAll p) fs = filter (\<lambda>(q, _). \<not> prefix (fkey p) q) fs"

text \<open>
  The world: the files, the log of operations with their outcomes, which operations fail (given the log), and
  the random names of temporary files (given the log).
\<close>

record fs_world =
  w_fs :: fs
  w_log :: "(fs_op \<times> bool) list"
  w_fails :: "(fs_op \<times> bool) list \<Rightarrow> fs_op \<Rightarrow> bool"
  w_rand :: "(fs_op \<times> bool) list \<Rightarrow> string"

definition do_op :: "fs_op \<Rightarrow> fs_world \<Rightarrow> bool \<times> fs_world" where
  "do_op op w =
     (if op_ok (w_fs w) op \<and> \<not> w_fails w (w_log w) op
      then (True, w\<lparr>w_fs := apply_op op (w_fs w), w_log := w_log w @ [(op, True)]\<rparr>)
      else (False, w\<lparr>w_log := w_log w @ [(op, False)]\<rparr>))"

text \<open>\<^verbatim>\<open>os.MkdirTemp(dir, pre + "*")\<close>; the name is not cleaned.\<close>

definition temp_path :: "string \<Rightarrow> string \<Rightarrow> fs_world \<Rightarrow> string" where
  "temp_path dir pre w = (if HasSuffix dir ''/'' then dir else dir @ ''/'') @ pre @ w_rand w (w_log w)"

definition os_MkdirTemp :: "string \<Rightarrow> string \<Rightarrow> fs_world \<Rightarrow> string option \<times> fs_world" where
  "os_MkdirTemp dir pre w =
     (let p = temp_path dir pre w in case do_op (MkdirTemp p) w of (ok, w1) \<Rightarrow> (if ok then Some p else None, w1))"

definition os_Stat :: "fs_world \<Rightarrow> string \<Rightarrow> node option" where
  "os_Stat w p = (if is_dir (w_fs w) (fkey p) then Some Dir else map_of (w_fs w) (fkey p))"

definition os_ReadFile :: "fs_world \<Rightarrow> string \<Rightarrow> string option" where
  "os_ReadFile w p = (case map_of (w_fs w) (fkey p) of Some (File b) \<Rightarrow> Some b | _ \<Rightarrow> None)"

text \<open>The entries of a directory by name, with whether each is a directory; \<open>None\<close> when there is no such directory.\<close>

definition os_ReadDir :: "fs_world \<Rightarrow> string \<Rightarrow> (string \<times> bool) list option" where
  "os_ReadDir w p =
     (if is_dir (w_fs w) (fkey p)
      then Some (sort_key fst (map (\<lambda>(q, n). (last q, n = Dir))
             (filter (\<lambda>(q, _). q \<noteq> [] \<and> butlast q = fkey p \<and> plain_name (last q)) (w_fs w))))
      else None)"

text \<open>\<^verbatim>\<open>filepath.Walk\<close>: the nodes at and below a directory with their relative paths, in lexical order.\<close>

definition walk :: "fs_world \<Rightarrow> string \<Rightarrow> (string list \<times> node) list" where
  "walk w root =
     map (\<lambda>(q, n). (drop (length (fkey root)) q, n))
       (sort_key fst (filter (\<lambda>(q, _). prefix (fkey root) q \<and> list_all plain_name (drop (length (fkey root)) q)) (w_fs w)))"

text \<open>What a run leaves when it is killed after its first \<open>k\<close> operations.\<close>

definition replay :: "(fs_op \<times> bool) list \<Rightarrow> fs \<Rightarrow> fs" where
  "replay l fs = fold (\<lambda>(op, ok) fs. if ok then apply_op op fs else fs) l fs"

section \<open>Cleaning\<close>

text \<open>A cleaned list of segments: plain names, with parent steps only at the front of an unrooted path.\<close>

definition clean_path :: "bool \<Rightarrow> string list \<Rightarrow> bool" where
  "clean_path r ss \<longleftrightarrow>
     (\<forall>s \<in> set ss. s \<noteq> [] \<and> s \<noteq> ''.'' \<and> slash \<notin> set s) \<and> (r \<longrightarrow> ''..'' \<notin> set ss) \<and> ''..'' \<notin> set (dropWhile (\<lambda>s. s = ''..'') ss)"

lemma dropWhile_snoc_iff:
  "x \<notin> set (dropWhile (\<lambda>s. s = x) (as @ [s])) \<longleftrightarrow> x \<notin> set (dropWhile (\<lambda>s. s = x) as) \<and> (s = x \<longrightarrow> set as \<subseteq> {x})"
  by (induction as) (auto split: if_splits)

lemma clean_path_snoc:
  "clean_path r (as @ [s]) \<longleftrightarrow> clean_path r as \<and> s \<noteq> [] \<and> s \<noteq> ''.'' \<and> slash \<notin> set s \<and> (s = ''..'' \<longrightarrow> \<not> r \<and> set as \<subseteq> {''..''})"
  unfolding clean_path_def dropWhile_snoc_iff by auto

lemma clean_path_Nil: "clean_path r []"
  by (simp add: clean_path_def)

lemma clean_path_up: "clean_path r [''..''] \<longleftrightarrow> \<not> r"
  using clean_path_snoc [of r "[]" "''..''"] by (simp add: clean_path_Nil)

lemma clean_segs_clean:
  "clean_path r (rev out) \<Longrightarrow> \<forall>s \<in> set ss. slash \<notin> set s \<Longrightarrow> clean_path r (clean_segs r out ss)"
proof (induction ss arbitrary: out)
  case (Cons s ss)
  show ?case
  proof (cases "s = ''..''")
    case True
    show ?thesis
    proof (cases out)
      case Nil
      then show ?thesis using Cons True by (cases r) (simp_all add: clean_path_up clean_path_Nil)
    next
      case o: (Cons p ps)
      then have c: "clean_path r (rev ps)" "p = ''..'' \<Longrightarrow> clean_path r (rev out @ [s])"
        using Cons.prems(1) True by (auto simp only: rev.simps clean_path_snoc set_append set_rev list.set)
      then show ?thesis using Cons o True by simp
    qed
  next
    case False
    then show ?thesis using Cons by (auto simp: clean_path_snoc)
  qed
qed simp

lemma clean_segs_id: "clean_path r (rev out @ ss) \<Longrightarrow> clean_segs r out ss = rev out @ ss"
proof (induction ss arbitrary: out)
  case (Cons s ss)
  have c: "clean_path r (rev out @ [s])"
    using Cons.prems by (induction ss rule: rev_induct) (simp_all add: clean_path_snoc flip: append_assoc append_Cons)
  then have s: "s \<noteq> []" "s \<noteq> ''.''" and up: "s = ''..'' \<Longrightarrow> \<not> r \<and> set out \<subseteq> {''..''}"
    by (simp_all add: clean_path_snoc)
  have "clean_segs r out (s # ss) = clean_segs r (s # out) ss"
    using s up by (auto split: list.splits)
  with Cons.IH [of "s # out"] Cons.prems show ?case by simp
qed simp

lemma path_segs_clean: "clean_path (HasPrefix p ''/'') (path_segs p)"
  unfolding path_segs_def by (rule clean_segs_clean) (auto simp: clean_path_def dest: Split_no_sep)

lemma clean_segs_Nil [simp]: "clean_segs r out ([] # ss) = clean_segs r out ss" "clean_segs r out (''.'' # ss) = clean_segs r out ss"
  by simp_all

lemma HasPrefix_slash: "HasPrefix p ''/'' \<longleftrightarrow> (\<exists>p'. p = slash # p')"
  by (cases p) (auto simp: HasPrefix_def)

lemma Split_clean: "clean_path r ss \<Longrightarrow> ss \<noteq> [] \<Longrightarrow> Split slash (Join ss ''/'') = ss"
  using Split_Join [of ss slash] by (auto simp: clean_path_def)

lemma Join_not_rooted: "clean_path r ss \<Longrightarrow> \<not> HasPrefix (Join ss ''/'') ''/''"
  by (cases ss; cases "hd ss"; cases "tl ss") (auto simp: clean_path_def HasPrefix_def)

lemma Clean_segs:
  "Clean p = (if HasPrefix p ''/'' then ''/'' @ Join (path_segs p) ''/'' else if path_segs p = [] then ''.'' else Join (path_segs p) ''/'')"
  by (simp add: Clean_def path_segs_def Let_def)

lemma Clean_rooted: "HasPrefix (Clean p) ''/'' = HasPrefix p ''/''"
  unfolding Clean_segs using Join_not_rooted [OF path_segs_clean [of p]] by (auto simp: HasPrefix_def)

lemma Split_Clean:
  "Split slash (Clean p) =
     (if HasPrefix p ''/'' then [] # (if path_segs p = [] then [[]] else path_segs p) else if path_segs p = [] then [''.''] else path_segs p)"
  unfolding Clean_segs using Split_clean [OF path_segs_clean [of p]] by simp

lemma path_segs_Clean [simp]: "path_segs (Clean p) = path_segs p"
proof -
  have "clean_segs (HasPrefix p ''/'') [] (path_segs p) = path_segs p"
    using clean_segs_id [of "HasPrefix p ''/''" "[]" "path_segs p"] path_segs_clean [of p] by simp
  then show ?thesis by (cases "HasPrefix p ''/''") (simp_all add: path_segs_def [of "Clean p"] Clean_rooted Split_Clean)
qed

lemma fkey_Clean [simp]: "fkey (Clean p) = fkey p"
  by (simp add: fkey_def Clean_rooted)

lemma Clean_idem [simp]: "Clean (Clean p) = Clean p"
  by (simp add: Clean_segs [of "Clean p"] Clean_rooted) (simp add: Clean_segs)

lemma fkey_filter: "fkey p = (if HasPrefix p ''/'' then [''/''] else []) @ filter (\<lambda>s. s \<noteq> [] \<and> s \<noteq> ''.'') (Split slash (Clean p))"
proof -
  have "filter (\<lambda>s. s \<noteq> [] \<and> s \<noteq> ''.'') (path_segs p) = path_segs p"
    using path_segs_clean [of p] by (auto simp: clean_path_def filter_id_conv)
  then show ?thesis by (simp add: fkey_def Split_Clean)
qed

lemma Clean_not_Nil [simp]: "Clean p \<noteq> []"
proof
  assume "Clean p = []"
  then have "Split slash (Clean p) = [[]]" by simp
  then show False using path_segs_clean [of p] by (auto simp: Split_Clean clean_path_def split: if_splits)
qed

lemma clean_rest: "clean_path r (as @ bs) \<Longrightarrow> as \<noteq> [] \<Longrightarrow> last as \<noteq> ''..'' \<Longrightarrow> ''..'' \<notin> set bs"
proof (induction bs rule: rev_induct)
  case (snoc b bs)
  then have "clean_path r (as @ bs)" and b: "b = ''..'' \<Longrightarrow> set (as @ bs) \<subseteq> {''..''}"
    by (simp_all add: clean_path_snoc flip: append_assoc)
  moreover have "b \<noteq> ''..''"
  proof
    assume "b = ''..''"
    then have "last as \<in> {''..''}" using b last_in_set [OF snoc.prems(2)] by auto
    then show False using snoc.prems(3) by simp
  qed
  ultimately show ?case using snoc by auto
qed simp

text \<open>A directory that can hold files: not a chain of parent steps.\<close>

definition proper_dir :: "string \<Rightarrow> bool" where
  "proper_dir d \<longleftrightarrow> fkey d = [] \<or> last (fkey d) \<noteq> ''..''"

lemma below_refl [simp]: "below d d"
  by (simp add: below_def)

lemma Clean_below:
  assumes "proper_dir d" "HasPrefix (Clean t) (Clean d @ ''/'')"
  shows "below (fkey d) (fkey t)"
proof -
  obtain b where t: "Clean t = Clean d @ slash # b"
    using assms(2) append_take_drop_id [of "length (Clean d @ ''/'')" "Clean t"] by (metis HasPrefix_def append.assoc append_Cons append_Nil)
  have r: "HasPrefix t ''/'' = HasPrefix d ''/''"
    using Clean_rooted [of t] Clean_rooted [of d] by (cases "Clean d") (auto simp: t HasPrefix_def)
  let ?keep = "filter (\<lambda>s. s \<noteq> [] \<and> s \<noteq> ''.'')"
  have sp: "Split slash (Clean t) = Split slash (Clean d) @ Split slash b" by (simp add: t Split_append_sep)
  then have k: "fkey t = fkey d @ ?keep (Split slash b)"
    unfolding fkey_filter [of t] fkey_filter [of d] r by simp
  then have st: "path_segs t = path_segs d @ ?keep (Split slash b)" by (simp add: fkey_def r)
  have "''..'' \<notin> set (?keep (Split slash b))"
  proof (cases "path_segs d = []")
    case True
    show ?thesis
    proof (cases "HasPrefix d ''/''")
      case False
      then have "Split slash (Clean t) = ''.'' # Split slash b" using True sp Split_Clean [of d] by simp
      moreover have "Split slash (Clean t) = (if path_segs t = [] then [''.''] else path_segs t)"
        using Split_Clean [of t] False r by simp
      ultimately have "path_segs t = ''.'' # Split slash b" by (metis Split_not_Nil list.inject)
      then show ?thesis using path_segs_clean [of t] by (simp add: clean_path_def)
    next
      case r1: True
      have "''..'' \<notin> set (path_segs t)" using path_segs_clean [of t] r r1 unfolding clean_path_def by blast
      then show ?thesis unfolding st by simp
    qed
  next
    case False
    then have "last (path_segs d) \<noteq> ''..''" using assms(1) by (auto simp: proper_dir_def fkey_def split: if_splits)
    then show ?thesis using clean_rest path_segs_clean [of t] st False by metis
  qed
  then show ?thesis by (simp add: below_def k)
qed

section \<open>What an operation can change\<close>

fun op_at :: "fs_op \<Rightarrow> string list \<Rightarrow> bool" where
  "op_at (MkdirAll p) q = prefix q (fkey p)"
| "op_at (MkdirTemp p) q = (q = fkey p)"
| "op_at (OpenFile p) q = (q = fkey p)"
| "op_at (WriteFile p b) q = (q = fkey p)"
| "op_at (Rename a b) q = (prefix (fkey a) q \<or> prefix (fkey b) q)"
| "op_at (RemoveAll p) q = prefix (fkey p) q"

lemma mkdirs_frame:
  "q \<notin> set ks \<Longrightarrow> map_of (fold (\<lambda>q fs. if is_dir fs q then fs else upsert_by fst (q, Dir) fs) ks fs) q = map_of fs q"
  by (induction ks arbitrary: fs) (auto simp: map_of_upsert_by)

lemma mkdirs_at:
  "map_of (fold (\<lambda>q fs. if is_dir fs q then fs else upsert_by fst (q, Dir) fs) ks fs) q =
     (if q \<in> set ks \<and> q \<noteq> [] \<and> q \<noteq> [''/''] then Some Dir else map_of fs q)"
  by (induction ks arbitrary: fs) (auto simp: map_of_upsert_by is_dir_def)

lemma map_of_keep: "map_of (filter (\<lambda>(q, _). P q) fs) q = (if P q then map_of fs q else None)"
  by (induction fs) auto

lemma map_of_move:
  assumes "\<not> prefix a b" "\<not> prefix b a"
  shows "map_of (move_tree a b fs) q =
    (if prefix b q then map_of fs (a @ drop (length b) q) else if prefix a q then None else map_of fs q)"
proof (induction fs)
  case (Cons x fs)
  obtain k n where x: "x = (k, n)" by fastforce
  have ab: "prefix a q \<Longrightarrow> prefix b q \<Longrightarrow> False" for q using assms prefix_same_cases by blast
  have eq: "b @ drop (length a) k = q \<longleftrightarrow> prefix b q \<and> k = a @ drop (length b) q" if "prefix a k"
    using that by (auto simp: prefix_def)
  show ?case
  proof (cases "prefix b k")
    case True
    then have "k \<noteq> a @ drop (length b) q" using ab [of k] by auto
    with True Cons show ?thesis by (auto simp: move_tree_def x)
  next
    case False
    with Cons eq show ?thesis by (auto simp: move_tree_def x dest: ab)
  qed
qed (simp add: move_tree_def)

lemma apply_frame: "op_ok fs op \<Longrightarrow> \<not> op_at op q \<Longrightarrow> map_of (apply_op op fs) q = map_of fs q"
  by (cases op) (auto simp: mkdirs_frame map_of_upsert_by map_of_move map_of_keep)

lemma do_op_frame: "do_op op w = (ok, w') \<Longrightarrow> \<not> op_at op q \<Longrightarrow> map_of (w_fs w') q = map_of (w_fs w) q"
  by (auto simp: do_op_def apply_frame split: if_splits)

lemma do_op_log: "do_op op w = (ok, w') \<Longrightarrow> w_log w' = w_log w @ [(op, ok)]"
  by (auto simp: do_op_def split: if_splits)

lemma do_op_env: "do_op op w = (ok, w') \<Longrightarrow> w_fails w' = w_fails w \<and> w_rand w' = w_rand w"
  by (auto simp: do_op_def split: if_splits)

text \<open>Making directories never touches what exists.\<close>

lemma mkdir_monotone:
  assumes "do_op (MkdirAll p) w = (ok, w')"
  shows "map_of (w_fs w') q = map_of (w_fs w) q \<or> map_of (w_fs w) q = None \<and> map_of (w_fs w') q = Some Dir \<and> prefix q (fkey p)"
  using assms by (auto simp: do_op_def mkdirs_at list_all_iff split: if_splits)

section \<open>Names in a directory\<close>

lemma clean_segs_snoc:
  "n \<notin> {[], ''.'', ''..''} \<Longrightarrow> clean_segs r out (xs @ [n]) = clean_segs r out xs @ [n]"
  by (induction r out xs rule: clean_segs.induct) (auto split: list.splits)

lemma clean_segs_snoc_Nil: "clean_segs r out (xs @ [[]]) = clean_segs r out xs"
  by (induction r out xs rule: clean_segs.induct) (auto split: list.splits)

lemma HasPrefix_append_slash: "d \<noteq> [] \<Longrightarrow> HasPrefix (d @ x) ''/'' = HasPrefix d ''/''"
  by (cases d) (auto simp: HasPrefix_def)

lemma fkey_child: "d \<noteq> [] \<Longrightarrow> plain_name n \<Longrightarrow> fkey (d @ ''/'' @ n) = fkey d @ [n]"
  by (simp add: fkey_def path_segs_def HasPrefix_append_slash Split_append_sep Split_no_sep_id plain_name_def clean_segs_snoc)

lemma fkey_child_slash:
  assumes "HasSuffix d ''/''" "plain_name n"
  shows "fkey (d @ n) = fkey d @ [n]"
proof -
  from assms(1) obtain e where d: "d = e @ [slash]"
    by (cases d rule: rev_cases) (auto simp: HasSuffix_def)
  have "Split slash (d @ n) = Split slash e @ [n]" "Split slash d = Split slash e @ [[]]"
    using assms(2) by (simp_all add: d Split_append_sep Split_no_sep_id plain_name_def)
  moreover have "HasPrefix (d @ n) ''/'' = HasPrefix d ''/''" by (rule HasPrefix_append_slash) (simp add: d)
  ultimately show ?thesis
    using assms(2) by (simp add: fkey_def path_segs_def clean_segs_snoc clean_segs_snoc_Nil plain_name_def)
qed

lemma fkey_Join: "d \<noteq> [] \<Longrightarrow> plain_name n \<Longrightarrow> fkey (path_Join d n) = fkey d @ [n]"
  using fkey_child [of d n] by (simp add: path_Join_def)

lemma path_Join_clean: "path_Join d n = [] \<or> Clean (path_Join d n) = path_Join d n"
  by (simp add: path_Join_def)

lemma fkey_temp:
  "d \<noteq> [] \<Longrightarrow> plain_name (pre @ w_rand w (w_log w) @ suf) \<Longrightarrow> fkey (temp_path d pre w @ suf) = fkey d @ [pre @ w_rand w (w_log w) @ suf]"
  using fkey_child [of d] fkey_child_slash [of d] by (simp add: temp_path_def)

lemma Split_butlast:
  assumes "Split slash t = L" "length L > 1"
  shows "t = Join (butlast L) ''/'' @ ''/'' @ last L"
proof -
  have "ws \<noteq> [] \<Longrightarrow> Join (ws @ [x]) ''/'' = Join ws ''/'' @ ''/'' @ x" for ws x
    by (induction ws "''/''" rule: Join.induct) (auto simp: neq_Nil_conv)
  moreover have "L = butlast L @ [last L]" "butlast L \<noteq> []" using assms(2) by (cases L rule: rev_cases; auto)+
  ultimately show ?thesis using Join_Split [of slash t] assms(1) by metis
qed

lemma fkey_empty [simp]: "fkey [] = []"
  by (simp add: fkey_def path_segs_def HasPrefix_def)

lemma fkey_Dir:
  assumes "Clean t = t"
  shows "fkey (path_Dir t) = (if HasPrefix t ''/'' then [''/''] else []) @ butlast (path_segs t)"
proof -
  define L where "L = Split slash t"
  define X where "X = Join (butlast L) ''/'' @ (if length L > 1 then ''/'' else [])"
  have L: "L = (if HasPrefix t ''/'' then [] # (if path_segs t = [] then [[]] else path_segs t) else if path_segs t = [] then [''.''] else path_segs t)"
    using Split_Clean [of t] assms by (simp add: L_def)
  have key: "fkey (path_Dir t) = fkey X" by (simp add: path_Dir_def X_def L_def)
  have id: "clean_segs (HasPrefix t ''/'') [] (butlast (path_segs t)) = butlast (path_segs t)"
  proof (cases "path_segs t" rule: rev_cases)
    case (snoc ys y)
    then show ?thesis using path_segs_clean [of t] clean_segs_id [of _ "[]" ys] by (simp add: clean_path_snoc)
  qed simp
  show ?thesis
  proof (cases "length L > 1")
    case True
    then have X: "X = Join (butlast L) ''/'' @ ''/''" and t: "t = X @ last L"
      using Split_butlast [of t L] by (simp_all add: X_def L_def)
    have "Split slash (Join (butlast L) [slash]) = butlast L"
      using True by (intro Split_Join) (auto dest: in_set_butlastD Split_no_sep simp: L_def simp flip: length_0_conv)
    then have "Split slash X = butlast L @ [[]]" unfolding X by (simp add: Split_append_sep)
    moreover have r: "HasPrefix X ''/'' = HasPrefix t ''/''"
      using HasPrefix_append_slash [of X "last L"] t X by simp
    ultimately have "path_segs X = clean_segs (HasPrefix t ''/'') [] (butlast L)" by (simp add: path_segs_def [of X] clean_segs_snoc_Nil)
    also have "\<dots> = butlast (path_segs t)" using id L by (cases "HasPrefix t ''/''"; cases "path_segs t = []") simp_all
    finally show ?thesis by (simp add: key fkey_def [of X] r)
  next
    case False
    then have "\<not> HasPrefix t ''/''" "butlast (path_segs t) = []" "butlast L = []"
      using L by (auto split: if_splits simp: neq_Nil_conv)
    then show ?thesis using False by (simp add: key X_def)
  qed
qed

lemma fkey_Dir_prefix: "Clean t = t \<Longrightarrow> prefix (fkey (path_Dir t)) (fkey t)"
  by (simp add: fkey_Dir fkey_def [of t] prefixeq_butlast)

lemma fkey_Dir_child: "d \<noteq> [] \<Longrightarrow> plain_name n \<Longrightarrow> fkey (path_Dir (path_Join d n)) = fkey d"
proof -
  assume a: "d \<noteq> []" "plain_name n"
  have "fkey (path_Join d n) = fkey d @ [n]" by (rule fkey_Join [OF a])
  moreover have "HasPrefix (path_Join d n) ''/'' = HasPrefix d ''/''"
    using a by (simp add: path_Join_def Clean_rooted HasPrefix_append_slash)
  ultimately have "path_segs (path_Join d n) = path_segs d @ [n]" by (simp add: fkey_def)
  then show ?thesis
    using a fkey_Dir [of "path_Join d n"] \<open>HasPrefix (path_Join d n) ''/'' = HasPrefix d ''/''\<close>
    by (simp add: path_Join_def fkey_def)
qed

lemma clean_segs_names: "list_all plain_name ns \<Longrightarrow> clean_segs r out (xs @ ns) = clean_segs r out xs @ ns"
proof (induction ns rule: rev_induct)
  case (snoc n ns)
  then show ?case using clean_segs_snoc [of n r out "xs @ ns"] by (simp add: plain_name_def)
qed simp

lemma Split_names: "list_all plain_name ns \<Longrightarrow> ns \<noteq> [] \<Longrightarrow> Split slash (Join ns ''/'') = ns"
  using Split_Join [of ns slash] by (auto simp: list_all_iff plain_name_def)

lemma fkey_names:
  assumes "d \<noteq> []" "list_all plain_name ns"
  shows "fkey (d @ ''/'' @ Join ns ''/'') = fkey d @ ns"
proof (cases "ns = []")
  case True
  then show ?thesis using assms(1) by (simp add: fkey_def path_segs_def HasPrefix_append_slash Split_append_sep clean_segs_snoc_Nil)
next
  case False
  then show ?thesis using assms
    by (simp add: fkey_def path_segs_def HasPrefix_append_slash Split_append_sep Split_names clean_segs_names)
qed

lemma fkey_Join_names: "d \<noteq> [] \<Longrightarrow> list_all plain_name ns \<Longrightarrow> fkey (path_Join d (Join ns ''/'')) = fkey d @ ns"
  using fkey_names [of d ns] by (simp add: path_Join_def)

lemma below_names: "list_all plain_name ns \<Longrightarrow> below d (d @ ns)"
  by (auto simp: below_def list_all_iff plain_name_def)

lemma walk_names: "(rel, n) \<in> set (walk w root) \<Longrightarrow> list_all plain_name rel"
  by (auto simp: walk_def)

section \<open>Runs\<close>

text \<open>A run is the operations it performs, in order; being killed after \<open>k\<close> of them leaves the state after the first \<open>k\<close>.\<close>

definition run_ops :: "fs_op list \<Rightarrow> fs_world \<Rightarrow> fs_world" where
  "run_ops ops w = fold (\<lambda>op w. snd (do_op op w)) ops w"

definition runs :: "(fs_op \<Rightarrow> bool) \<Rightarrow> fs_world \<Rightarrow> fs_world \<Rightarrow> bool" where
  "runs P w w' \<longleftrightarrow> (\<exists>ops. list_all P ops \<and> w' = run_ops ops w)"

lemma runs_refl [simp, intro]: "runs P w w"
  by (auto simp: runs_def run_ops_def intro: exI [of _ "[]"])

lemma run_ops_append: "run_ops (a @ b) w = run_ops b (run_ops a w)"
  by (simp add: run_ops_def)

lemma runs_trans [trans]: "runs P w w1 \<Longrightarrow> runs P w1 w2 \<Longrightarrow> runs P w w2"
  unfolding runs_def by (metis run_ops_append list_all_append)

lemma runs_op: "do_op op w = (ok, w1) \<Longrightarrow> P op \<Longrightarrow> runs P w w1"
  by (auto simp: runs_def run_ops_def intro: exI [of _ "[op]"])

lemma runs_step: "runs P w w1 \<Longrightarrow> do_op op w1 = (ok, w2) \<Longrightarrow> P op \<Longrightarrow> runs P w w2"
  using runs_trans runs_op by blast

lemma runs_snd: "P op \<Longrightarrow> runs P w (snd (do_op op w))"
  by (metis prod.collapse runs_op)

lemma runs_mono: "runs P w w' \<Longrightarrow> (\<And>op. P op \<Longrightarrow> Q op) \<Longrightarrow> runs Q w w'"
  unfolding runs_def by (metis list_all_iff)

lemma run_ops_env: "w_rand (run_ops ops w) = w_rand w"
  by (induction ops rule: rev_induct) (auto simp: run_ops_def do_op_def)

lemma runs_rand: "runs P w w' \<Longrightarrow> w_rand w' = w_rand w"
  by (auto simp: runs_def run_ops_env)

lemma run_ops_fails: "w_fails (run_ops ops w) = w_fails w"
  by (induction ops rule: rev_induct) (auto simp: run_ops_def do_op_def)

lemma runs_fails: "runs P w w' \<Longrightarrow> w_fails w' = w_fails w"
  by (auto simp: runs_def run_ops_fails)

text \<open>An operation whose targets all lie in the directory \<open>d\<close> and that does not move or remove \<open>d\<close>; making \<open>d\<close>'s own parents counts.\<close>

fun op_in :: "string list \<Rightarrow> fs_op \<Rightarrow> bool" where
  "op_in d (MkdirAll p) = (below d (fkey p) \<or> prefix (fkey p) d)"
| "op_in d (MkdirTemp p) = below d (fkey p)"
| "op_in d (OpenFile p) = below d (fkey p)"
| "op_in d (WriteFile p b) = below d (fkey p)"
| "op_in d (Rename a b) = (below d (fkey a) \<and> below d (fkey b) \<and> fkey a \<noteq> d \<and> fkey b \<noteq> d)"
| "op_in d (RemoveAll p) = (below d (fkey p) \<and> fkey p \<noteq> d)"

text \<open>Outside the directory \<open>d\<close> nothing changed, except that missing parents of \<open>d\<close> were made.\<close>

definition confined :: "string list \<Rightarrow> fs \<Rightarrow> fs \<Rightarrow> bool" where
  "confined d fs fs' \<longleftrightarrow>
     (\<forall>q. prefix d q \<or> map_of fs' q = map_of fs q \<or> prefix q d \<and> map_of fs q = None \<and> map_of fs' q = Some Dir)"

lemma confined_refl [simp]: "confined d fs fs"
  by (simp add: confined_def)

lemma confined_trans: "confined d a b \<Longrightarrow> confined d b c \<Longrightarrow> confined d a c"
  unfolding confined_def by metis

lemma do_op_at: "(\<And>q. op_at op q \<Longrightarrow> prefix d q) \<Longrightarrow> confined d (w_fs w) (w_fs (snd (do_op op w)))"
  unfolding confined_def using do_op_frame [of op w] by (metis prod.collapse)

lemma op_in_confined:
  assumes "op_in d op"
  shows "confined d (w_fs w) (w_fs (snd (do_op op w)))"
proof (cases op)
  case (MkdirAll p)
  have sub: "prefix q (fkey p) \<Longrightarrow> prefix d q \<or> prefix q d" for q
    using assms MkdirAll by (auto simp: below_def intro: prefix_order.trans dest: prefix_same_cases)
  show ?thesis
    unfolding confined_def MkdirAll using mkdir_monotone [of p w] sub by (metis prod.collapse)
next
  case (Rename a b)
  have "op_at op q \<Longrightarrow> prefix d q" for q
    using assms Rename by (auto simp: below_def intro: prefix_order.trans)
  then show ?thesis by (rule do_op_at)
qed (use assms do_op_at [of op d w] in \<open>auto simp: below_def intro: prefix_order.trans\<close>)

lemma run_ops_confined: "list_all (op_in d) ops \<Longrightarrow> confined d (w_fs w) (w_fs (run_ops ops w))"
proof (induction ops rule: rev_induct)
  case (snoc op ops)
  then show ?case using op_in_confined [of d op "run_ops ops w"] confined_trans by (fastforce simp: run_ops_def)
qed (simp add: run_ops_def)

lemma runs_confined: "runs (op_in d) w w' \<Longrightarrow> confined d (w_fs w) (w_fs w')"
  by (auto simp: runs_def run_ops_confined)

lemma below_prefix: "below d k \<Longrightarrow> prefix p k \<Longrightarrow> below d p \<or> prefix p d"
  using prefix_same_cases [of d k p] by (auto simp: below_def prefix_def)

lemma op_in_mkdir: "below d k \<Longrightarrow> prefix (fkey p) k \<Longrightarrow> op_in d (MkdirAll p)"
  using below_prefix by auto

text \<open>A run that, killed at any point, has changed nothing outside \<open>d\<close>; failing operations change nothing.\<close>

definition crash_safe :: "string list \<Rightarrow> fs_world \<Rightarrow> fs_world \<Rightarrow> bool" where
  "crash_safe d w w' \<longleftrightarrow>
     (\<exists>ops. w' = run_ops ops w \<and> (\<forall>k. confined d (w_fs w) (w_fs (run_ops (take k ops) w))))"

lemma crash_safe_runs: "runs (op_in d) w w' \<Longrightarrow> crash_safe d w w'"
  unfolding crash_safe_def runs_def using run_ops_confined by (metis append_take_drop_id list_all_append)

lemma crash_safe_refl [simp]: "crash_safe d w w"
  by (rule crash_safe_runs) simp

lemma crash_safe_failed: "do_op op w = (False, w') \<Longrightarrow> crash_safe d w w'"
  unfolding crash_safe_def
  by (rule exI [of _ "[op]"]) (auto simp: run_ops_def take_Cons' do_op_def split: if_splits)

lemma crash_safe_confined: "crash_safe d w w' \<Longrightarrow> confined d (w_fs w) (w_fs w')"
  unfolding crash_safe_def by (metis take_all_iff order_refl)

lemma crash_safe_trans [trans]:
  assumes "crash_safe d w w1" "crash_safe d w1 w2"
  shows "crash_safe d w w2"
proof -
  obtain a where a: "w1 = run_ops a w" "\<And>k. confined d (w_fs w) (w_fs (run_ops (take k a) w))"
    using assms(1) by (auto simp: crash_safe_def)
  obtain b where b: "w2 = run_ops b w1" "\<And>k. confined d (w_fs w1) (w_fs (run_ops (take k b) w1))"
    using assms(2) by (auto simp: crash_safe_def)
  have "confined d (w_fs w) (w_fs (run_ops (take k (a @ b)) w))" for k
  proof (cases "k \<le> length a")
    case False
    then show ?thesis
      using confined_trans [OF crash_safe_confined [OF assms(1)] b(2)] a(1) by (simp add: run_ops_append)
  qed (use a(2) in simp)
  then show ?thesis unfolding crash_safe_def using a(1) b(1) run_ops_append by metis
qed

lemma crash_safe_op:
  assumes "\<And>q. op_at op q \<Longrightarrow> prefix d q"
  shows "crash_safe d w (snd (do_op op w))"
  unfolding crash_safe_def using do_op_at [OF assms]
  by (intro exI [of _ "[op]"]) (auto simp: run_ops_def take_Cons')

lemma op_in_keeps_dir:
  assumes "op_in d op" "map_of (w_fs w) d = Some Dir"
  shows "map_of (w_fs (snd (do_op op w))) d = Some Dir"
proof (cases "op_ok (w_fs w) op \<and> \<not> w_fails w (w_log w) op")
  case True
  then have s: "w_fs (snd (do_op op w)) = apply_op op (w_fs w)" and ok: "op_ok (w_fs w) op" by (simp_all add: do_op_def)
  have "\<not> op_at op d" if "\<nexists>p. op = MkdirAll p"
    using assms ok that by (cases op) (auto simp: below_def is_dir_def dest: prefix_order.antisym)
  then show ?thesis
    using assms(2) s apply_frame [OF ok] by (cases op) (auto simp: mkdirs_at)
qed (use assms(2) in \<open>auto simp: do_op_def\<close>)

lemma runs_keeps_dir: "runs (op_in d) w w' \<Longrightarrow> map_of (w_fs w) d = Some Dir \<Longrightarrow> map_of (w_fs w') d = Some Dir"
proof -
  have "list_all (op_in d) ops \<Longrightarrow> map_of (w_fs w) d = Some Dir \<Longrightarrow> map_of (w_fs (run_ops ops w)) d = Some Dir" for ops
    by (induction ops rule: rev_induct) (auto simp: run_ops_def intro: op_in_keeps_dir)
  then show "runs (op_in d) w w' \<Longrightarrow> map_of (w_fs w) d = Some Dir \<Longrightarrow> ?thesis" by (auto simp: runs_def)
qed

end
