(* ===== verification/Models.thy ===== *)
theory Models
  imports Prelude
begin

text \<open>
  The YAML-loaded schema of \<^verbatim>\<open>internal/runtime/models/types.go\<close>: API specs, metas, actions and
  policies.  A CEL expression is its source string, and a \<^verbatim>\<open>PolicyResult\<close> is a string, as in Go:
  values other than permit and deny exist until \<open>Validate\<close> rejects them.
\<close>

type_synonym CelExpression = string
type_synonym PolicyResult = string

definition Permit :: PolicyResult where "Permit = ''permit''"
definition Deny :: PolicyResult where "Deny = ''deny''"

record InputField =
  if_Name :: string

record OutputField =
  of_Name :: string
  of_Expr :: CelExpression

record Metadata =
  md_Name :: string
  md_Kind :: string
  md_Input :: "InputField list"
  md_Request :: CelExpression
  md_Output :: "OutputField list"

record Action =
  a_Name :: string
  a_Method :: string
  a_Path :: string
  a_Filter :: CelExpression
  a_Bind :: CelExpression
  a_Binds :: "CelExpression list"

record API =
  api_Name :: string
  api_BaseURL :: string
  api_PathPrefixes :: "string list"
  api_Meta :: "Metadata list"
  api_Actions :: "Action list"
  api_AccessDeniedStatus :: int
  api_Auth :: string

record Policy =
  pol_API :: string
  pol_Name :: string
  pol_Description :: string
  pol_Principal :: CelExpression
  pol_Action :: CelExpression
  pol_Condition :: CelExpression
  pol_Result :: PolicyResult

datatype result_error = ResultRequired | ResultUnknown string

definition AuthOptional :: "API \<Rightarrow> bool" where
  "AuthOptional a \<longleftrightarrow> api_Auth a = ''optional''"

definition AllBinds :: "Action \<Rightarrow> CelExpression list" where
  "AllBinds a = (if a_Bind a \<noteq> [] then [a_Bind a] else []) @ a_Binds a"

definition PolicyResult_Validate :: "PolicyResult \<Rightarrow> result_error option" where
  "PolicyResult_Validate r =
     (if r = Permit \<or> r = Deny then None
      else if r = [] then Some ResultRequired
      else Some (ResultUnknown r))"

lemma Permit_neq_Deny [simp]: "Permit \<noteq> Deny" "Deny \<noteq> Permit"
  by (simp_all add: Permit_def Deny_def)

lemma PolicyResult_Validate_None:
  "PolicyResult_Validate r = None \<longleftrightarrow> r = Permit \<or> r = Deny"
  by (simp add: PolicyResult_Validate_def)

end
