(* ===== verification/Bundles.thy ===== *)
theory Bundles
  imports FileSystem Models
begin

text \<open>
  API bundles: \<^verbatim>\<open>internal/control/bundles\<close>.  References and manifests with their validation (\<^verbatim>\<open>ref.go\<close>, \<^verbatim>\<open>types.go\<close>),
  loading an APIs directory (\<^verbatim>\<open>load.go\<close>), and fetching, extracting and installing a bundle (\<^verbatim>\<open>fetch.go\<close>,
  \<^verbatim>\<open>install.go\<close>).  The file system, the network, gzip, the tar reader and the YAML decoder are arguments; lexical
  path handling is that of \<^verbatim>\<open>path/filepath\<close> on Unix.
\<close>

section \<open>Definitions\<close>

subsection \<open>References\<close>

record Ref =
  rf_Host :: string
  rf_Owner :: string
  rf_Repo :: string
  rf_Version :: string

definition Slug :: "Ref \<Rightarrow> string" where
  "Slug r = rf_Host r @ ''/'' @ rf_Owner r @ ''/'' @ rf_Repo r"

definition Ref_String :: "Ref \<Rightarrow> string" where
  "Ref_String r = (if rf_Version r = [] then Slug r else Slug r @ ''@'' @ rf_Version r)"

definition alnum :: "char \<Rightarrow> bool" where
  "alnum c \<longleftrightarrow> is_lower c \<or> is_upper c \<or> is_digit c"

definition validRefSegment :: "string \<Rightarrow> bool" where
  "validRefSegment s =
     (case s of [] \<Rightarrow> False | c # cs \<Rightarrow> alnum c \<and> list_all (\<lambda>x. alnum x \<or> x \<in> set ''._-'') cs)"

datatype ref_error = RefEmpty | VersionEmpty | RefShape | RefHost | RefSegment | VersionSpace

definition ParseRef :: "string \<Rightarrow> ref_error + Ref" where
  "ParseRef s0 =
     (let s1 = TrimSpace s0
      in if s1 = [] then Inl RefEmpty
         else
           (let s2 = TrimSuffix (TrimSuffix (TrimPrefix (TrimPrefix s1 ''https://'') ''http://'') ''/'') ''.git'';
                hasAt = CHR ''@'' \<in> set s2;
                (s3, version) = cut_at (CHR ''@'') s2
            in if hasAt \<and> version = [] then Inl VersionEmpty
               else (case Split slash s3 of
                       [host, owner, repo] \<Rightarrow>
                         (if host \<noteq> ''github.com'' then Inl RefHost
                          else if \<not> validRefSegment owner \<or> \<not> validRefSegment repo then Inl RefSegment
                          else if list_ex (\<lambda>c. c \<in> {CHR 0x20, CHR 0x09, CHR 0x0A, CHR 0x0D}) version then Inl VersionSpace
                          else Inr \<lparr>rf_Host = host, rf_Owner = owner, rf_Repo = repo, rf_Version = version\<rparr>)
                     | _ \<Rightarrow> Inl RefShape)))"

definition IsFullSHA :: "string \<Rightarrow> bool" where
  "IsFullSHA v \<longleftrightarrow> length v = 40 \<and> list_all ishex v"

subsection \<open>Manifests\<close>

definition ManifestFile :: string where "ManifestFile = ''bouncer.yaml''"
definition SourceFile :: string where "SourceFile = ''source.yaml''"
definition SchemaVersion :: int where "SchemaVersion = 1"

definition BundleDir :: "string \<Rightarrow> string \<Rightarrow> string" where
  "BundleDir apisDir name = path_Join apisDir name"

record TokenField =
  tf_Name :: string
  tf_Label :: string
  tf_Kind :: string
  tf_Placeholder :: string
  tf_Help :: string
  tf_Required :: bool
  tf_Header :: string
  tf_Template :: string

record RefreshConfig =
  rg_TokenURL :: string

record TokenVariant =
  tv_ID :: string
  tv_Title :: string
  tv_Description :: string
  tv_Refresh :: "RefreshConfig option"
  tv_Fields :: "TokenField list"

record BundleService =
  bs_Slug :: string
  bs_Title :: string
  bs_Description :: string

record Manifest =
  mf_SchemaVersion :: int
  mf_Name :: string
  mf_Version :: string
  mf_Description :: string
  mf_MinProxyVersion :: string
  mf_MaxProxyVersion :: string
  mf_APIs :: "string list"
  mf_Service :: "BundleService option"
  mf_Token :: "TokenVariant list"

definition serviceSlug :: "string \<Rightarrow> bool" where
  "serviceSlug s = (case s of [] \<Rightarrow> False | c # cs \<Rightarrow> is_lower c \<and> list_all (\<lambda>x. is_lower x \<or> is_digit x \<or> x = CHR ''-'') cs)"

definition idPattern :: "string \<Rightarrow> bool" where
  "idPattern s =
     (case s of [] \<Rightarrow> False | c # cs \<Rightarrow> is_lower c \<and> list_all (\<lambda>x. is_lower x \<or> is_digit x \<or> x \<in> set ''_-'') cs)"

definition validateRelPath :: "string \<Rightarrow> string option" where
  "validateRelPath p =
     (if p = [] then Some ''path is empty''
      else if HasPrefix p ''/'' then Some ''path must be relative''
      else if ''..'' \<in> set (Split slash p) then Some ''path escapes the bundle directory''
      else None)"

definition Field_validate :: "TokenField \<Rightarrow> string option" where
  "Field_validate f =
     (if \<not> idPattern (tf_Name f) then Some ''name''
      else if tf_Kind f \<in> set [[], ''text'', ''secret'', ''multiline''] then None
      else Some ''kind'')"

fun validate_fields :: "TokenField list \<Rightarrow> string list \<Rightarrow> string option" where
  "validate_fields [] seen = None"
| "validate_fields (f # fs) seen =
     (case Field_validate f of
        Some e \<Rightarrow> Some e
      | None \<Rightarrow> if tf_Name f \<in> set seen then Some ''duplicate name'' else validate_fields fs (tf_Name f # seen))"

definition Variant_validate :: "TokenVariant \<Rightarrow> string option" where
  "Variant_validate v =
     (if \<not> idPattern (tv_ID v) then Some ''id''
      else if TrimSpace (tv_Title v) = [] then Some ''title is required''
      else if tv_Fields v = [] then Some ''fields: at least one is required''
      else if (case tv_Refresh v of None \<Rightarrow> False | Some c \<Rightarrow> TrimSpace (rg_TokenURL c) = []) then Some ''refresh.token_url is required''
      else validate_fields (tv_Fields v) [])"

fun validate_variants :: "TokenVariant list \<Rightarrow> string list \<Rightarrow> string option" where
  "validate_variants [] seen = None"
| "validate_variants (v # vs) seen =
     (case Variant_validate v of
        Some e \<Rightarrow> Some e
      | None \<Rightarrow> if tv_ID v \<in> set seen then Some ''duplicate id'' else validate_variants vs (tv_ID v # seen))"

definition Service_Validate :: "BundleService \<Rightarrow> string option" where
  "Service_Validate s =
     (if \<not> serviceSlug (bs_Slug s) then Some ''slug'' else if TrimSpace (bs_Title s) = [] then Some ''title is required'' else None)"

fun validate_apis :: "string list \<Rightarrow> string option" where
  "validate_apis [] = None"
| "validate_apis (p # ps) = (case validateRelPath p of Some e \<Rightarrow> Some e | None \<Rightarrow> validate_apis ps)"

definition Manifest_Validate :: "Manifest \<Rightarrow> string option" where
  "Manifest_Validate m =
     (if mf_SchemaVersion m = 0 then Some ''schema_version is required''
      else if mf_SchemaVersion m \<noteq> SchemaVersion then Some ''schema_version not supported''
      else if TrimSpace (mf_Name m) = [] then Some ''name is required''
      else if TrimSpace (mf_Version m) = [] then Some ''version is required''
      else if mf_APIs m = [] then Some ''apis: at least one entry is required''
      else (case validate_apis (mf_APIs m) of
              Some e \<Rightarrow> Some e
            | None \<Rightarrow>
                (case (case mf_Service m of None \<Rightarrow> None | Some s \<Rightarrow> Service_Validate s) of
                   Some e \<Rightarrow> Some e
                 | None \<Rightarrow>
                     (if mf_Token m \<noteq> [] \<and> mf_Service m = None then Some ''token requires a service: block''
                      else validate_variants (mf_Token m) []))))"

text \<open>The renames are an association list; Go visits its map in any order, which only affects the message.\<close>

record SourceRecord =
  sr_Ref :: string
  sr_ResolvedSHA :: string
  sr_FetchedAt :: int
  sr_APIRenames :: "(string \<times> string) list"

definition Source_Validate :: "SourceRecord \<Rightarrow> string option" where
  "Source_Validate s =
     (if TrimSpace (sr_Ref s) = [] then Some ''ref is required''
      else if TrimSpace (sr_ResolvedSHA s) = [] then Some ''resolved_sha is required''
      else if list_ex (\<lambda>(from, to). TrimSpace from = [] \<or> TrimSpace to = []) (sr_APIRenames s) then Some ''api_renames''
      else None)"

text \<open>Decoding a file yields an error (also for an empty document) or the record, which is then validated.\<close>

definition LoadManifest :: "(string \<Rightarrow> string + Manifest) \<Rightarrow> string \<Rightarrow> string + Manifest" where
  "LoadManifest decodeYAML path =
     (case decodeYAML path of
        Inl e \<Rightarrow> Inl e | Inr m \<Rightarrow> (case Manifest_Validate m of Some e \<Rightarrow> Inl e | None \<Rightarrow> Inr m))"

definition LoadSource :: "(string \<Rightarrow> string + SourceRecord) \<Rightarrow> string \<Rightarrow> string + SourceRecord" where
  "LoadSource decodeYAML path =
     (case decodeYAML path of
        Inl e \<Rightarrow> Inl e | Inr s \<Rightarrow> (case Source_Validate s of Some e \<Rightarrow> Inl e | None \<Rightarrow> Inr s))"

subsection \<open>Loading\<close>

record LoadedAPI =
  la_Spec :: API
  la_Source :: string
  la_BundleDir :: string
  la_BundleName :: string
  la_Readme :: string
  la_Service :: "BundleService option"
  la_TokenVariants :: "TokenVariant list"

text \<open>
  The files as the loader asks for them: a directory's entries (name, whether it is a directory;
  \<open>Inr None\<close> when there is no such directory), what \<^verbatim>\<open>Stat\<close> finds (\<open>Some d\<close>: a directory or not), and the
  documents of a YAML file.
\<close>

record bundle_files =
  bf_ReadDir :: "string \<Rightarrow> string + (string \<times> bool) list option"
  bf_Stat :: "string \<Rightarrow> bool option"
  bf_docs :: "string \<Rightarrow> string + API list"
  bf_manifest :: "string \<Rightarrow> string + Manifest"
  bf_source :: "string \<Rightarrow> string + SourceRecord"
  bf_readme :: "string \<Rightarrow> string"

definition isYAMLFile :: "string \<Rightarrow> bool" where
  "isYAMLFile name \<longleftrightarrow> HasSuffix name ''.yaml'' \<or> HasSuffix name ''.yml''"

definition ResolveManifestEntry :: "bundle_files \<Rightarrow> string \<Rightarrow> string \<Rightarrow> string + string list" where
  "ResolveManifestEntry F bundleRoot rel =
     (let full = path_Join bundleRoot rel
      in if \<not> HasPrefix full (bundleRoot @ ''/'') \<and> full \<noteq> bundleRoot then Inl ''api path escapes bundle directory''
         else (case bf_Stat F full of
                 None \<Rightarrow> Inl ''api path''
               | Some False \<Rightarrow> if isYAMLFile (path_Base full) then Inr [full] else Inl ''not a YAML file''
               | Some True \<Rightarrow>
                   (case bf_ReadDir F full of
                      Inr (Some entries) \<Rightarrow>
                        (let out = map (\<lambda>(n, _). path_Join full n) (filter (\<lambda>(n, d). \<not> d \<and> isYAMLFile n) entries)
                         in if out = [] then Inl ''contains no YAML files'' else Inr (sort out))
                    | _ \<Rightarrow> Inl ''api dir'')))"

definition rename_spec :: "(string \<times> string) list \<Rightarrow> API \<Rightarrow> API" where
  "rename_spec renames api = (case map_of renames (api_Name api) of Some n \<Rightarrow> api\<lparr>api_Name := n\<rparr> | None \<Rightarrow> api)"

fun load_paths :: "bundle_files \<Rightarrow> (string \<Rightarrow> API \<Rightarrow> LoadedAPI) \<Rightarrow> string list \<Rightarrow> string + LoadedAPI list" where
  "load_paths F mk [] = Inr []"
| "load_paths F mk (p # ps) =
     (case bf_docs F p of
        Inl e \<Rightarrow> Inl e
      | Inr docs \<Rightarrow> (case load_paths F mk ps of Inl e \<Rightarrow> Inl e | Inr rest \<Rightarrow> Inr (map (mk p) docs @ rest)))"

fun load_entries :: "bundle_files \<Rightarrow> (string \<Rightarrow> API \<Rightarrow> LoadedAPI) \<Rightarrow> string \<Rightarrow> string list \<Rightarrow> string + LoadedAPI list" where
  "load_entries F mk root [] = Inr []"
| "load_entries F mk root (rel # rels) =
     (case ResolveManifestEntry F root rel of
        Inl e \<Rightarrow> Inl e
      | Inr paths \<Rightarrow>
          (case load_paths F mk paths of
             Inl e \<Rightarrow> Inl e
           | Inr here \<Rightarrow> (case load_entries F mk root rels of Inl e \<Rightarrow> Inl e | Inr rest \<Rightarrow> Inr (here @ rest))))"

definition loadOneBundle :: "bundle_files \<Rightarrow> string \<Rightarrow> string + LoadedAPI list" where
  "loadOneBundle F dir =
     (case LoadManifest (bf_manifest F) (path_Join dir ManifestFile) of
        Inl e \<Rightarrow> Inl e
      | Inr m \<Rightarrow>
          (case LoadSource (bf_source F) (path_Join dir SourceFile) of
             Inl e \<Rightarrow> Inl e
           | Inr src \<Rightarrow>
               (let root = Clean dir; readme = bf_readme F (path_Join root ''README.md'');
                    mk = (\<lambda>full api. \<lparr>la_Spec = rename_spec (sr_APIRenames src) api, la_Source = full, la_BundleDir = dir,
                                     la_BundleName = mf_Name m, la_Readme = readme, la_Service = mf_Service m,
                                     la_TokenVariants = mf_Token m\<rparr>)
                in load_entries F mk root (mf_APIs m))))"

fun load_bundles :: "bundle_files \<Rightarrow> string list \<Rightarrow> string + LoadedAPI list" where
  "load_bundles F [] = Inr []"
| "load_bundles F (d # ds) =
     (case loadOneBundle F d of
        Inl e \<Rightarrow> Inl e
      | Inr here \<Rightarrow> (case load_bundles F ds of Inl e \<Rightarrow> Inl e | Inr rest \<Rightarrow> Inr (here @ rest)))"

fun assertUniqueNames :: "LoadedAPI list \<Rightarrow> string list \<Rightarrow> string option" where
  "assertUniqueNames [] seen = None"
| "assertUniqueNames (l # ls) seen =
     (if api_Name (la_Spec l) \<in> set seen then Some ''api declared twice''
      else assertUniqueNames ls (api_Name (la_Spec l) # seen))"

definition loose_api :: "string \<Rightarrow> API \<Rightarrow> LoadedAPI" where
  "loose_api path api =
     \<lparr>la_Spec = api, la_Source = path, la_BundleDir = [], la_BundleName = [], la_Readme = [], la_Service = None, la_TokenVariants = []\<rparr>"

definition readDirOrEmpty :: "bundle_files \<Rightarrow> string \<Rightarrow> string + (string \<times> bool) list" where
  "readDirOrEmpty F dir = (case bf_ReadDir F dir of Inl e \<Rightarrow> Inl e | Inr None \<Rightarrow> Inr [] | Inr (Some es) \<Rightarrow> Inr es)"

definition LoadAll :: "bundle_files \<Rightarrow> string \<Rightarrow> string + LoadedAPI list" where
  "LoadAll F apisDir =
     (if apisDir = [] then Inr []
      else (case readDirOrEmpty F apisDir of
              Inl e \<Rightarrow> Inl e
            | Inr es \<Rightarrow>
                (let entries = sort_key fst es;
                     loose = map (\<lambda>(n, _). path_Join apisDir n) (filter (\<lambda>(n, d). \<not> d \<and> isYAMLFile n) entries);
                     dirs = filter (\<lambda>c. bf_Stat F (path_Join c ManifestFile) \<noteq> None)
                              (map (\<lambda>(n, _). path_Join apisDir n) (filter (\<lambda>(n, d). d \<and> \<not> HasPrefix n ''.'') entries))
                 in case load_paths F loose_api loose of
                      Inl e \<Rightarrow> Inl e
                    | Inr l1 \<Rightarrow>
                        (case load_bundles F dirs of
                           Inl e \<Rightarrow> Inl e
                         | Inr l2 \<Rightarrow> (case assertUniqueNames (l1 @ l2) [] of Some e \<Rightarrow> Inl e | None \<Rightarrow> Inr (l1 @ l2))))))"

record LoadedService =
  ls_Service :: BundleService
  ls_TokenVariants :: "TokenVariant list"
  ls_APIs :: "string list"
  ls_BundleName :: string

fun dedupe_tail :: "string \<Rightarrow> string list \<Rightarrow> string list" where
  "dedupe_tail prev [] = []"
| "dedupe_tail prev (s # ss) = (if s = prev then dedupe_tail prev ss else s # dedupe_tail s ss)"

definition dedupeStrings :: "string list \<Rightarrow> string list" where
  "dedupeStrings xs = (case xs of [] \<Rightarrow> [] | x # rest \<Rightarrow> x # dedupe_tail x rest)"

text \<open>
  The services by bundle, in the order in which their bundles first appear; the final sort by slug is not
  stable in Go, so bundles that share a slug may come out in either order.
\<close>

fun group_services :: "LoadedAPI list \<Rightarrow> LoadedService list \<Rightarrow> LoadedService list" where
  "group_services [] acc = acc"
| "group_services (l # ls) acc =
     (case la_Service l of
        None \<Rightarrow> group_services ls acc
      | Some sv \<Rightarrow>
          (let entry = (case find_by ls_BundleName (la_BundleName l) acc of
                          None \<Rightarrow> \<lparr>ls_Service = sv, ls_TokenVariants = la_TokenVariants l, ls_APIs = [], ls_BundleName = la_BundleName l\<rparr>
                        | Some e \<Rightarrow> e)
           in group_services ls
                (upsert_by ls_BundleName (entry\<lparr>ls_APIs := ls_APIs entry @ [api_Name (la_Spec l)]\<rparr>) acc)))"

definition Services :: "LoadedAPI list \<Rightarrow> LoadedService list" where
  "Services loaded =
     sort_key (\<lambda>s. bs_Slug (ls_Service s))
       (map (\<lambda>s. s\<lparr>ls_APIs := dedupeStrings (sort (ls_APIs s))\<rparr>) (group_services loaded []))"

definition Readmes :: "LoadedAPI list \<Rightarrow> string \<rightharpoonup> string" where
  "Readmes loaded =
     fold (\<lambda>l m. if la_BundleName l = [] \<or> la_Readme l = [] then m else m(la_BundleName l \<mapsto> la_Readme l)) loaded Map.empty"

definition APIBundles :: "LoadedAPI list \<Rightarrow> string \<rightharpoonup> string" where
  "APIBundles loaded =
     fold (\<lambda>l m. if la_BundleName l = [] then m else m(api_Name (la_Spec l) \<mapsto> la_BundleName l)) loaded Map.empty"

section \<open>References\<close>

text \<open>A reference as \<^verbatim>\<open>String\<close> prints it: valid segments, and a version with no blank in it; its text ends in neither a slash nor \<^verbatim>\<open>.git\<close>.\<close>

definition ref_plain :: "Ref \<Rightarrow> bool" where
  "ref_plain r \<longleftrightarrow>
     rf_Host r = ''github.com'' \<and> validRefSegment (rf_Owner r) \<and> validRefSegment (rf_Repo r)
     \<and> list_all (\<lambda>c. CHR 0x21 \<le> c \<and> c \<le> CHR 0x7E) (rf_Version r)
     \<and> \<not> HasSuffix (Ref_String r) ''/'' \<and> \<not> HasSuffix (Ref_String r) ''.git''"

lemma graphic_char: "CHR 0x21 \<le> c \<Longrightarrow> c \<le> CHR 0x7E \<Longrightarrow> c \<notin> set (map hd space_runes) \<and> c \<notin> set (map last space_runes)"
  by (auto simp: space_runes_def less_eq_char_def)

lemma trim_runes_id:
  "(\<And>p. p \<in> set rs \<Longrightarrow> p \<noteq> []) \<Longrightarrow> s = [] \<or> hd s \<notin> set (map hd rs) \<Longrightarrow> trim_runes rs s = s"
proof -
  assume a: "\<And>p. p \<in> set rs \<Longrightarrow> p \<noteq> []" "s = [] \<or> hd s \<notin> set (map hd rs)"
  have "find (\<lambda>p. p \<noteq> [] \<and> HasPrefix s p) rs = None"
    using a by (cases s) (auto simp: find_None_iff HasPrefix_def image_iff, metis list.sel(1) list.collapse take_Suc_Cons length_Cons)
  then show ?thesis by (simp add: trim_runes.simps)
qed

lemma TrimSpace_Nil: "TrimSpace [] = []"
  by code_simp

lemma TrimSpace_graphic:
  assumes "list_all (\<lambda>c. CHR 0x21 \<le> c \<and> c \<le> CHR 0x7E) s"
  shows "TrimSpace s = s"
proof (cases "s = []")
  case False
  have "hd s \<in> set s" "hd (rev s) \<in> set s" using False by (simp_all add: hd_rev)
  then have "hd s \<notin> set (map hd space_runes)" "hd (rev s) \<notin> set (map last space_runes)"
    using assms graphic_char by (auto simp: list_all_iff simp del: set_map)
  moreover have "map hd (map rev space_runes) = map last space_runes" "\<And>p. p \<in> set space_runes \<Longrightarrow> p \<noteq> []"
    "\<And>p. p \<in> set (map rev space_runes) \<Longrightarrow> p \<noteq> []"
    by (auto simp: space_runes_def)
  ultimately have "trim_runes space_runes s = s" "trim_runes (map rev space_runes) (rev s) = rev s"
    using trim_runes_id [of space_runes s] trim_runes_id [of "map rev space_runes" "rev s"] by metis+
  then show ?thesis by (simp add: TrimSpace_def)
qed (simp add: TrimSpace_Nil)

lemma alnum_graphic: "alnum c \<or> c \<in> set ''._-'' \<Longrightarrow> CHR 0x21 \<le> c \<and> c \<le> CHR 0x7E \<and> c \<noteq> slash \<and> c \<noteq> CHR ''@''"
  by (auto simp: alnum_def is_lower_def is_upper_def is_digit_def less_eq_char_def)

lemma segment_chars: "validRefSegment s \<Longrightarrow> c \<in> set s \<Longrightarrow> CHR 0x21 \<le> c \<and> c \<le> CHR 0x7E \<and> c \<noteq> slash \<and> c \<noteq> CHR ''@''"
  using alnum_graphic by (cases s) (auto simp: validRefSegment_def list_all_iff)

lemma Slug_chars:
  assumes "ref_plain r" "c \<in> set (Slug r)"
  shows "CHR 0x21 \<le> c \<and> c \<le> CHR 0x7E \<and> c \<noteq> CHR ''@''"
proof -
  have "\<forall>c \<in> set ''github.com/''. CHR 0x21 \<le> c \<and> c \<le> CHR 0x7E \<and> c \<noteq> CHR ''@''" by (simp add: less_eq_char_def)
  moreover have "c \<in> set ''github.com/'' \<or> c \<in> set (rf_Owner r) \<or> c \<in> set (rf_Repo r)"
    using assms by (auto simp: Slug_def ref_plain_def)
  moreover have "validRefSegment (rf_Owner r)" "validRefSegment (rf_Repo r)" using assms(1) by (simp_all add: ref_plain_def)
  ultimately show ?thesis using segment_chars [of "rf_Owner r" c] segment_chars [of "rf_Repo r" c] by blast
qed

lemma Ref_String_chars: "ref_plain r \<Longrightarrow> list_all (\<lambda>c. CHR 0x21 \<le> c \<and> c \<le> CHR 0x7E) (Ref_String r)"
proof -
  assume r: "ref_plain r"
  have "list_all (\<lambda>c. CHR 0x21 \<le> c \<and> c \<le> CHR 0x7E) (Slug r)" using Slug_chars [OF r] by (simp add: list_all_iff)
  moreover have "CHR 0x21 \<le> CHR ''@'' \<and> CHR ''@'' \<le> CHR 0x7E" by (simp add: less_eq_char_def)
  ultimately show ?thesis using r by (simp add: Ref_String_def ref_plain_def)
qed

lemma Ref_String_cut:
  assumes "ref_plain r"
  shows "cut_at (CHR ''@'') (Ref_String r) = (Slug r, rf_Version r)" "CHR ''@'' \<in> set (Ref_String r) \<longleftrightarrow> rf_Version r \<noteq> []"
proof -
  have "CHR ''@'' \<notin> set (Slug r)" using Slug_chars [OF assms] by blast
  then show "cut_at (CHR ''@'') (Ref_String r) = (Slug r, rf_Version r)" "CHR ''@'' \<in> set (Ref_String r) \<longleftrightarrow> rf_Version r \<noteq> []"
    using cut_at_append [of "CHR ''@''" "Slug r"] cut_at_none [of "CHR ''@''" "Slug r"] by (auto simp: Ref_String_def)
qed

lemma Slug_split: "ref_plain r \<Longrightarrow> Split slash (Slug r) = [''github.com'', rf_Owner r, rf_Repo r]"
proof -
  assume r: "ref_plain r"
  then have "slash \<notin> set (rf_Owner r)" "slash \<notin> set (rf_Repo r)" using segment_chars unfolding ref_plain_def by blast+
  then show ?thesis using r by (simp add: Slug_def ref_plain_def Split_append_sep Split_no_sep_id)
qed

lemma TrimSuffix_append: "TrimSuffix (s @ p) p = s"
  by (simp add: TrimSuffix_def HasSuffix_def)

lemma TrimSuffix_none: "\<not> HasSuffix s p \<Longrightarrow> TrimSuffix s p = s"
  by (simp add: TrimSuffix_def)

text \<open>The spellings of a reference that \<^verbatim>\<open>ParseRef\<close> accepts besides the one \<^verbatim>\<open>String\<close> prints.\<close>

definition ref_spelling :: "Ref \<Rightarrow> string \<Rightarrow> bool" where
  "ref_spelling r s \<longleftrightarrow>
     (\<exists>p \<in> {[], ''https://'', ''http://''}. \<exists>q \<in> {[], ''/'', ''.git'', ''.git/''}. s = p @ Ref_String r @ q)"

lemma ParseRef_spelling:
  assumes "ref_plain r" "ref_spelling r s"
  shows "ParseRef s = Inr r"
proof -
  from assms(2) obtain p q where s: "s = p @ Ref_String r @ q" and p: "p \<in> {[], ''https://'', ''http://''}"
    and q: "q \<in> {[], ''/'', ''.git'', ''.git/''}" unfolding ref_spelling_def by blast
  have "list_all (\<lambda>c. CHR 0x21 \<le> c \<and> c \<le> CHR 0x7E) p" "list_all (\<lambda>c. CHR 0x21 \<le> c \<and> c \<le> CHR 0x7E) q"
    using p q by (auto simp: less_eq_char_def)
  then have t: "TrimSpace s = s" using Ref_String_chars [OF assms(1)] by (intro TrimSpace_graphic) (simp add: s)
  have "Slug r = CHR ''g'' # ''ithub.com/'' @ rf_Owner r @ ''/'' @ rf_Repo r" using assms(1) by (simp add: Slug_def ref_plain_def)
  then obtain rest where R: "Ref_String r = CHR ''g'' # rest" by (cases "rf_Version r = []") (simp_all add: Ref_String_def)
  have tp: "TrimPrefix (TrimPrefix s ''https://'') ''http://'' = Ref_String r @ q"
    using p by (auto simp: s R TrimPrefix_def HasPrefix_def)
  have no: "\<not> HasSuffix (Ref_String r) ''/''" "\<not> HasSuffix (Ref_String r) ''.git''" using assms(1) by (simp_all add: ref_plain_def)
  have "\<not> HasSuffix (Ref_String r @ ''.git'') ''/''" by (simp add: HasSuffix_def)
  then have ts: "TrimSuffix (TrimSuffix (Ref_String r @ q) ''/'') ''.git'' = Ref_String r"
    using q no TrimSuffix_append [of "Ref_String r @ ''.git''" "''/''"] TrimSuffix_append [of "Ref_String r"]
    by (auto simp: TrimSuffix_none)
  have "\<not> list_ex (\<lambda>c. c \<in> {CHR 0x20, CHR 0x09, CHR 0x0A, CHR 0x0D}) (rf_Version r)"
    using assms(1) by (auto simp: ref_plain_def list_ex_iff list_all_iff less_eq_char_def)
  moreover have "s \<noteq> []" by (simp add: s R)
  moreover have "rf_Host r = ''github.com''" "validRefSegment (rf_Owner r)" "validRefSegment (rf_Repo r)" using assms(1) by (simp_all add: ref_plain_def)
  ultimately show ?thesis
    unfolding ParseRef_def Let_def t tp ts by (simp add: Ref_String_cut [OF assms(1)] Slug_split [OF assms(1)])
qed

lemma ParseRef_valid:
  "ParseRef s = Inr r \<Longrightarrow> rf_Host r = ''github.com'' \<and> validRefSegment (rf_Owner r) \<and> validRefSegment (rf_Repo r)"
  by (auto simp: ParseRef_def Let_def split: if_splits prod.splits list.splits)

end
