(* ===== verification/BundleInstall.thy ===== *)
theory BundleInstall
  imports Bundles
begin

text \<open>
  Fetching, extracting, installing and packing bundles: \<^verbatim>\<open>internal/control/bundles/fetch.go\<close>, \<^verbatim>\<open>install.go\<close> and
  \<^verbatim>\<open>pack.go\<close>, on the file system of \<^verbatim>\<open>FileSystem\<close>.  The HTTP client, gzip and tar, the YAML codec and SHA-256 are
  arguments; the lemmas show that extraction stays in its destination, that an install either leaves what was
  there or adds one complete bundle, and that a packed tree extracts to itself.
\<close>

section \<open>Definitions\<close>

subsection \<open>Codecs\<close>

datatype typeflag = TypeDir | TypeReg | TypeXGlobalHeader | TypeXHeader | TypeOther

text \<open>A tar entry: its header and the bytes its reader yields.\<close>

record tar_entry =
  te_Name :: string
  te_Typeflag :: typeflag
  te_Size :: int
  te_Data :: string

text \<open>
  The decoders of the YAML files, the encoder of \<^verbatim>\<open>source.yaml\<close>, the gzipped tar reader (\<open>None\<close> when the stream is
  not gzip; its list ends with an error or the end of the archive) and writer, and the hexadecimal SHA-256.
\<close>

record bundle_codecs =
  cd_manifest :: "string \<Rightarrow> string + Manifest"
  cd_source :: "string \<Rightarrow> string + SourceRecord"
  cd_marshal :: "SourceRecord \<Rightarrow> string option"
  cd_untar :: "string \<Rightarrow> (string + tar_entry) list option"
  cd_tar :: "tar_entry list \<Rightarrow> string"
  cd_sha256 :: "string \<Rightarrow> string"

definition read_yaml :: "(string \<Rightarrow> string + 'a) \<Rightarrow> fs_world \<Rightarrow> string \<Rightarrow> string + 'a" where
  "read_yaml decode w path = (case os_ReadFile w path of None \<Rightarrow> Inl ''open'' | Some b \<Rightarrow> decode b)"

abbreviation manifest_at :: "bundle_codecs \<Rightarrow> fs_world \<Rightarrow> string \<Rightarrow> string + Manifest" where
  "manifest_at C w dir \<equiv> LoadManifest (read_yaml (cd_manifest C) w) (path_Join dir ManifestFile)"

abbreviation source_at :: "bundle_codecs \<Rightarrow> fs_world \<Rightarrow> string \<Rightarrow> string + SourceRecord" where
  "source_at C w dir \<equiv> LoadSource (read_yaml (cd_source C) w) (path_Join dir SourceFile)"

text \<open>\<^verbatim>\<open>WriteSource\<close> writes a temporary file beside \<open>path\<close> and renames it; an error removes the temporary file.\<close>

definition WriteSource :: "bundle_codecs \<Rightarrow> string \<Rightarrow> SourceRecord \<Rightarrow> fs_world \<Rightarrow> string option \<times> fs_world" where
  "WriteSource C path s w =
     (case Source_Validate s of
        Some e \<Rightarrow> (Some e, w)
      | None \<Rightarrow>
          (case cd_marshal C s of
             None \<Rightarrow> (Some ''marshal source.yaml'', w)
           | Some raw \<Rightarrow>
               (let tmpName = temp_path (path_Dir path) ''.source-'' w @ ''.yaml.tmp''
                in case do_op (OpenFile tmpName) w of
                     (False, w1) \<Rightarrow> (Some ''create temp source.yaml'', w1)
                   | (True, w1) \<Rightarrow>
                       (case do_op (WriteFile tmpName raw) w1 of
                          (False, w2) \<Rightarrow> (Some ''write'', snd (do_op (RemoveAll tmpName) w2))
                        | (True, w2) \<Rightarrow>
                            (case do_op (Rename tmpName path) w2 of
                               (False, w3) \<Rightarrow> (Some ''rename'', snd (do_op (RemoveAll tmpName) w3))
                             | (True, w3) \<Rightarrow> (None, w3))))))"

subsection \<open>Extraction\<close>

text \<open>Sizes are Go's \<^verbatim>\<open>int64\<close>; the caps keep their sums far from its bounds.\<close>

definition maxBundleBytes :: int where "maxBundleBytes = 64 * 2 ^ 20"
definition maxFileBytes :: int where "maxFileBytes = 16 * 2 ^ 20"

text \<open>What a reader yields through \<^verbatim>\<open>io.LimitReader\<close>.\<close>

definition LimitReader :: "string \<Rightarrow> int \<Rightarrow> string" where
  "LimitReader r n = (if int (length r) \<le> n then r else take (nat n) r)"

definition entry_prefix :: "string \<Rightarrow> string \<Rightarrow> string" where
  "entry_prefix pre clean = (if pre = [] then fst (cut_at slash clean) else pre)"

definition entry_rel :: "string \<Rightarrow> string \<Rightarrow> string" where
  "entry_rel pre clean = TrimPrefix (TrimPrefix clean pre) ''/''"

definition lexically_escapes :: "string \<Rightarrow> bool" where
  "lexically_escapes rel \<longleftrightarrow> rel = ''..'' \<or> HasPrefix rel ''../'' \<or> Contains rel ''/../'' \<or> HasPrefix rel ''/''"

definition stays_inside :: "string \<Rightarrow> string \<Rightarrow> bool" where
  "stays_inside cleanDest target \<longleftrightarrow> Clean target = cleanDest \<or> HasPrefix (Clean target) (cleanDest @ ''/'')"

definition writeRegular :: "string \<Rightarrow> string \<Rightarrow> fs_world \<Rightarrow> (string + int) \<times> fs_world" where
  "writeRegular target tr w =
     (case do_op (MkdirAll (path_Dir target)) w of
        (False, w1) \<Rightarrow> (Inl ''mkdir'', w1)
      | (True, w1) \<Rightarrow>
          (case do_op (OpenFile target) w1 of
             (False, w2) \<Rightarrow> (Inl ''open'', w2)
           | (True, w2) \<Rightarrow>
               (let body = LimitReader tr (maxFileBytes + 1)
                in case do_op (WriteFile target body) w2 of
                     (False, w3) \<Rightarrow> (Inl ''write'', w3)
                   | (True, w3) \<Rightarrow>
                       (if int (length body) > maxFileBytes then (Inl ''tar entry exceeds file cap'', w3) else (Inr (int (length body)), w3)))))"

text \<open>The loop over the entries, with the bytes written so far and the captured prefix.\<close>

fun extract_entries :: "string \<Rightarrow> (string + tar_entry) list \<Rightarrow> int \<Rightarrow> string \<Rightarrow> fs_world \<Rightarrow> string option \<times> fs_world" where
  "extract_entries dest [] written pre w = (None, w)"
| "extract_entries dest (Inl e # es) written pre w = (Some e, w)"
| "extract_entries dest (Inr h # es) written pre0 w =
     (if te_Typeflag h = TypeXGlobalHeader \<or> te_Typeflag h = TypeXHeader then extract_entries dest es written pre0 w
      else
        (let clean = TrimPrefix (Clean (te_Name h)) ''./''; pre = entry_prefix pre0 clean; rel = entry_rel pre clean;
             target = path_Join dest rel
         in if rel = [] then extract_entries dest es written pre w
            else if lexically_escapes rel then (Some ''escapes destination'', w)
            else if \<not> stays_inside (Clean dest) target then (Some ''escapes destination'', w)
            else (case te_Typeflag h of
                    TypeDir \<Rightarrow>
                      (case do_op (MkdirAll target) w of
                         (False, w1) \<Rightarrow> (Some ''mkdir'', w1)
                       | (True, w1) \<Rightarrow> extract_entries dest es written pre w1)
                  | TypeReg \<Rightarrow>
                      (if te_Size h > maxFileBytes then (Some ''tar entry exceeds file cap'', w)
                       else (case writeRegular target (te_Data h) w of
                               (Inl e, w1) \<Rightarrow> (Some e, w1)
                             | (Inr n, w1) \<Rightarrow>
                                 (if written + n > maxBundleBytes then (Some ''tarball exceeds bundle cap'', w1)
                                  else extract_entries dest es (written + n) pre w1)))
                  | _ \<Rightarrow> extract_entries dest es written pre w)))"

definition ExtractTarGz :: "bundle_codecs \<Rightarrow> string \<Rightarrow> string \<Rightarrow> fs_world \<Rightarrow> string option \<times> fs_world" where
  "ExtractTarGz C r destDir w =
     (case do_op (MkdirAll destDir) w of
        (False, w1) \<Rightarrow> (Some ''mkdir'', w1)
      | (True, w1) \<Rightarrow>
          (case cd_untar C r of None \<Rightarrow> (Some ''gzip'', w1) | Some es \<Rightarrow> extract_entries destDir es 0 [] w1))"

subsection \<open>Fetching\<close>

record Fetcher =
  fe_token :: string
  fe_apiBase :: string
  fe_codeloadBase :: string

definition envOrDefault :: "(string \<Rightarrow> string) \<Rightarrow> string \<Rightarrow> string \<Rightarrow> string" where
  "envOrDefault getenv name fallback = (if getenv name \<noteq> [] then getenv name else fallback)"

definition TrimRight_slash :: "string \<Rightarrow> string" where
  "TrimRight_slash s = rev (dropWhile (\<lambda>c. c = slash) (rev s))"

definition NewFetcher :: "(string \<Rightarrow> string) \<Rightarrow> string \<Rightarrow> string \<Rightarrow> string \<Rightarrow> Fetcher" where
  "NewFetcher getenv token apiBase codeloadBase =
     (let api = (if apiBase = [] then envOrDefault getenv ''BOUNCER_GITHUB_API_BASE'' ''https://api.github.com'' else apiBase);
          load = (if codeloadBase = [] then envOrDefault getenv ''BOUNCER_GITHUB_CODELOAD_BASE'' ''https://codeload.github.com'' else codeloadBase)
      in \<lparr>fe_token = token, fe_apiBase = TrimRight_slash api, fe_codeloadBase = TrimRight_slash load\<rparr>)"

text \<open>A GET request is its URL and headers; the client yields an error (also for a URL it cannot parse), or a status and a body.\<close>

type_synonym http_get = "string \<Rightarrow> (string \<times> string) list \<Rightarrow> string + nat \<times> string"

definition bearer :: "Fetcher \<Rightarrow> (string \<times> string) list" where
  "bearer f = (if fe_token f \<noteq> [] then [(''Authorization'', ''Bearer '' @ fe_token f)] else [])"

definition ResolveSHA :: "http_get \<Rightarrow> Fetcher \<Rightarrow> Ref \<Rightarrow> string + string" where
  "ResolveSHA Do f ref =
     (if rf_Version ref = [] then Inl ''version is required to resolve''
      else if IsFullSHA (rf_Version ref) then Inr (ToLower (rf_Version ref))
      else
        (let endpoint = fe_apiBase f @ ''/repos/'' @ PathEscape (rf_Owner ref) @ ''/'' @ PathEscape (rf_Repo ref) @ ''/commits/'' @ PathEscape (rf_Version ref)
         in case Do endpoint ((''Accept'', ''application/vnd.github.sha'') # bearer f) of
              Inl e \<Rightarrow> Inl e
            | Inr (status, body) \<Rightarrow>
                (if status div 100 \<noteq> 2 then Inl ''github status''
                 else (let sha = TrimSpace (LimitReader body 4096)
                       in if IsFullSHA sha then Inr (ToLower sha) else Inl ''github returned something which is not a SHA''))))"

definition Download :: "http_get \<Rightarrow> Fetcher \<Rightarrow> Ref \<Rightarrow> string \<Rightarrow> string + string" where
  "Download Do f ref sha =
     (if \<not> IsFullSHA sha then Inl ''sha is not a full 40-char SHA''
      else
        (let endpoint = fe_codeloadBase f @ ''/'' @ PathEscape (rf_Owner ref) @ ''/'' @ PathEscape (rf_Repo ref) @ ''/tar.gz/'' @ sha
         in case Do endpoint (bearer f) of
              Inl e \<Rightarrow> Inl e
            | Inr (status, body) \<Rightarrow> if status div 100 \<noteq> 2 then Inl ''github status'' else Inr body))"

definition Stage ::
  "bundle_codecs \<Rightarrow> http_get \<Rightarrow> int \<Rightarrow> Fetcher \<Rightarrow> Ref \<Rightarrow> string \<Rightarrow> (string \<times> string) list \<Rightarrow> fs_world \<Rightarrow> (string + string) \<times> fs_world" where
  "Stage C Do now f ref stageDir renames w =
     (if rf_Version ref = [] then (Inl ''version is required'', w)
      else (case ResolveSHA Do f ref of
              Inl e \<Rightarrow> (Inl e, w)
            | Inr sha \<Rightarrow>
                (case Download Do f ref sha of
                   Inl e \<Rightarrow> (Inl e, w)
                 | Inr body \<Rightarrow>
                     (case ExtractTarGz C body stageDir w of
                        (Some e, w1) \<Rightarrow> (Inl e, w1)
                      | (None, w1) \<Rightarrow>
                          (case manifest_at C w1 stageDir of
                             Inl e \<Rightarrow> (Inl e, w1)
                           | Inr _ \<Rightarrow>
                               (case WriteSource C (path_Join stageDir SourceFile)
                                       \<lparr>sr_Ref = Ref_String ref, sr_ResolvedSHA = sha, sr_FetchedAt = whole_seconds now, sr_APIRenames = renames\<rparr> w1 of
                                  (Some e, w2) \<Rightarrow> (Inl e, w2)
                                | (None, w2) \<Rightarrow> (Inr sha, w2)))))))"

text \<open>The deferred cleanup removes the temporary directory on every path but the successful one.\<close>

definition Install ::
  "bundle_codecs \<Rightarrow> http_get \<Rightarrow> int \<Rightarrow> Fetcher \<Rightarrow> string \<Rightarrow> Ref \<Rightarrow> (string \<times> string) list \<Rightarrow> fs_world \<Rightarrow> (string + string) \<times> fs_world" where
  "Install C Do now f apisDir ref renames w =
     (if rf_Version ref = [] then (Inl ''version is required'', w)
      else (case do_op (MkdirAll apisDir) w of
              (False, w1) \<Rightarrow> (Inl ''mkdir apis dir'', w1)
            | (True, w1) \<Rightarrow>
                (case os_MkdirTemp apisDir ''.tmp.'' w1 of
                   (None, w2) \<Rightarrow> (Inl ''mkdtemp'', w2)
                 | (Some tmpDir, w2) \<Rightarrow>
                     (let cleanup = (\<lambda>e w. (Inl e, snd (do_op (RemoveAll tmpDir) w)))
                      in case Stage C Do now f ref tmpDir renames w2 of
                           (Inl e, w3) \<Rightarrow> cleanup e w3
                         | (Inr _, w3) \<Rightarrow>
                             (case manifest_at C w3 tmpDir of
                                Inl e \<Rightarrow> cleanup e w3
                              | Inr m \<Rightarrow>
                                  (let finalDir = BundleDir apisDir (mf_Name m)
                                   in if os_Stat w3 finalDir \<noteq> None then cleanup ''already exists; remove or upgrade first'' w3
                                      else (case do_op (Rename tmpDir finalDir) w3 of
                                              (False, w4) \<Rightarrow> cleanup ''rename'' w4
                                            | (True, w4) \<Rightarrow> (Inr finalDir, w4))))))))"

subsection \<open>Installing at boot\<close>

definition DefaultBranch :: string where "DefaultBranch = ''main''"

fun any_slug :: "bundle_codecs \<Rightarrow> fs_world \<Rightarrow> string \<Rightarrow> Ref \<Rightarrow> (string \<times> bool) list \<Rightarrow> bool" where
  "any_slug C w root ref [] = False"
| "any_slug C w root ref ((n, d) # es) =
     (if \<not> d \<or> HasPrefix n ''.'' then any_slug C w root ref es
      else (case source_at C w (path_Join root n) of
              Inl _ \<Rightarrow> any_slug C w root ref es
            | Inr src \<Rightarrow>
                (case ParseRef (sr_Ref src) of
                   Inl _ \<Rightarrow> any_slug C w root ref es
                 | Inr r \<Rightarrow> Slug r = Slug ref \<or> any_slug C w root ref es)))"

definition refAlreadyInstalled :: "bundle_codecs \<Rightarrow> fs_world \<Rightarrow> string \<Rightarrow> Ref \<Rightarrow> bool" where
  "refAlreadyInstalled C w root ref = (case os_ReadDir w root of None \<Rightarrow> False | Some es \<Rightarrow> any_slug C w root ref es)"

definition default_version :: "Ref \<Rightarrow> Ref" where
  "default_version r = (if rf_Version r = [] then r\<lparr>rf_Version := DefaultBranch\<rparr> else r)"

fun install_each :: "bundle_codecs \<Rightarrow> http_get \<Rightarrow> int \<Rightarrow> Fetcher \<Rightarrow> string \<Rightarrow> string list \<Rightarrow> fs_world \<Rightarrow> string option \<times> fs_world" where
  "install_each C Do now f root [] w = (None, w)"
| "install_each C Do now f root (raw # refs) w =
     (case ParseRef raw of
        Inl _ \<Rightarrow> (Some ''with-apis'', w)
      | Inr r0 \<Rightarrow>
          (let ref = default_version r0
           in if refAlreadyInstalled C w root ref then install_each C Do now f root refs w
              else (case Install C Do now f root ref [] w of
                      (Inl e, w1) \<Rightarrow> (Some e, w1)
                    | (Inr _, w1) \<Rightarrow> install_each C Do now f root refs w1)))"

definition InstallRefs ::
  "bundle_codecs \<Rightarrow> http_get \<Rightarrow> (string \<Rightarrow> string) \<Rightarrow> int \<Rightarrow> string \<Rightarrow> string list \<Rightarrow> fs_world \<Rightarrow> string option \<times> fs_world" where
  "InstallRefs C Do getenv now root refs w =
     (if refs = [] then (None, w)
      else (case do_op (MkdirAll root) w of
              (False, w1) \<Rightarrow> (Some ''apis dir'', w1)
            | (True, w1) \<Rightarrow> install_each C Do now (NewFetcher getenv (getenv ''GITHUB_TOKEN'') [] []) root refs w1))"

subsection \<open>Packing\<close>

text \<open>The header and body of one walked node; \<open>None\<close> for anything but directories and regular files.\<close>

definition pack_entry :: "string \<Rightarrow> string list \<times> node \<Rightarrow> tar_entry option" where
  "pack_entry pre x =
     (case x of
        (rel, Dir) \<Rightarrow>
          Some \<lparr>te_Name = (if rel = [] then pre @ ''/'' else pre @ ''/'' @ Join rel ''/'' @ ''/''), te_Typeflag = TypeDir, te_Size = 0, te_Data = []\<rparr>
      | (rel, File b) \<Rightarrow>
          Some \<lparr>te_Name = (if rel = [] then pre @ ''/'' else pre @ ''/'' @ Join rel ''/''),
                te_Typeflag = (if rel = [] then TypeDir else TypeReg), te_Size = (if rel = [] then 0 else int (length b)), te_Data = (if rel = [] then [] else b)\<rparr>
      | (rel, Special) \<Rightarrow>
          (if rel = [] then Some \<lparr>te_Name = pre @ ''/'', te_Typeflag = TypeDir, te_Size = 0, te_Data = []\<rparr> else None))"

fun pack_entries :: "string \<Rightarrow> (string list \<times> node) list \<Rightarrow> tar_entry list option" where
  "pack_entries pre [] = Some []"
| "pack_entries pre (x # xs) =
     (case pack_entry pre x of None \<Rightarrow> None | Some e \<Rightarrow> map_option ((#) e) (pack_entries pre xs))"

definition WriteTarball :: "bundle_codecs \<Rightarrow> string \<Rightarrow> string \<Rightarrow> string \<Rightarrow> fs_world \<Rightarrow> string option \<times> fs_world" where
  "WriteTarball C out srcDir pre w =
     (let tmp = out @ ''.tmp''
      in case do_op (OpenFile tmp) w of
           (False, w1) \<Rightarrow> (Some ''create'', w1)
         | (True, w1) \<Rightarrow>
             (case pack_entries pre (walk w1 srcDir) of
                None \<Rightarrow> (Some ''non-regular file in bundle'', snd (do_op (RemoveAll tmp) w1))
              | Some es \<Rightarrow>
                  (case do_op (WriteFile tmp (cd_tar C es)) w1 of
                     (False, w2) \<Rightarrow> (Some ''write'', snd (do_op (RemoveAll tmp) w2))
                   | (True, w2) \<Rightarrow>
                       (case do_op (Rename tmp out) w2 of
                          (False, w3) \<Rightarrow> (Some ''rename'', snd (do_op (RemoveAll tmp) w3))
                        | (True, w3) \<Rightarrow> (None, w3)))))"

definition NUL :: char where "NUL = CHR 0x00"

definition ContentSHA :: "bundle_codecs \<Rightarrow> fs_world \<Rightarrow> string \<Rightarrow> string" where
  "ContentSHA C w root =
     (let entries = concat (map (\<lambda>(rel, n). case n of
                       File b \<Rightarrow> if Join rel ''/'' = SourceFile then [] else [(Join rel ''/'', b)] | _ \<Rightarrow> []) (walk w root))
      in take 40 (cd_sha256 C (concat (map (\<lambda>(r, b). r @ [NUL] @ b @ [NUL]) (sort_key fst entries)))))"

section \<open>Extraction stays in its destination\<close>

lemma stays_inside_below: "proper_dir d \<Longrightarrow> stays_inside (Clean d) t \<Longrightarrow> below (fkey d) (fkey t)"
  using Clean_below [of d t] below_refl [of "fkey d"] unfolding stays_inside_def by (metis fkey_Clean)

lemma writeRegular_runs:
  assumes "writeRegular t tr w = (r, w')" "below d (fkey t)" "Clean t = t"
  shows "runs (op_in d) w w'"
proof -
  have dir: "op_in d (MkdirAll (path_Dir t))" using op_in_mkdir [OF assms(2) fkey_Dir_prefix [OF assms(3)]] .
  obtain ok1 w1 where 1: "do_op (MkdirAll (path_Dir t)) w = (ok1, w1)" by fastforce
  obtain ok2 w2 where 2: "do_op (OpenFile t) w1 = (ok2, w2)" by fastforce
  obtain ok3 w3 where 3: "do_op (WriteFile t (LimitReader tr (maxFileBytes + 1))) w2 = (ok3, w3)" by fastforce
  have r: "runs (op_in d) w w1" "runs (op_in d) w1 w2" "runs (op_in d) w2 w3"
    using 1 2 3 dir assms(2) by (auto intro: runs_op)
  then have "runs (op_in d) w w2" "runs (op_in d) w w3" using runs_trans by blast+
  moreover have "w' = w1 \<or> w' = w2 \<or> w' = w3"
    using assms(1) 1 2 3 by (auto simp: writeRegular_def Let_def split: bool.splits if_splits)
  ultimately show ?thesis using r(1) by auto
qed

lemma path_Join_fix: "b \<noteq> [] \<Longrightarrow> Clean (path_Join a b) = path_Join a b"
  by (simp add: path_Join_def)

lemma extract_entries_runs:
  assumes "proper_dir dest"
  shows "extract_entries dest es n pre w = (r, w') \<Longrightarrow> runs (op_in (fkey dest)) w w'"
proof (induction es arbitrary: n pre w)
  case (Cons x es)
  show ?case
  proof (cases x)
    case (Inr h)
    let ?clean = "TrimPrefix (Clean (te_Name h)) ''./''"
    let ?pre = "entry_prefix pre ?clean" let ?rel = "entry_rel ?pre ?clean" let ?t = "path_Join dest ?rel"
    note run = Cons.prems [unfolded Inr extract_entries.simps Let_def]
    show ?thesis
    proof (cases "(te_Typeflag h = TypeXGlobalHeader \<or> te_Typeflag h = TypeXHeader) \<or> ?rel = [] \<or> lexically_escapes ?rel \<or> \<not> stays_inside (Clean dest) ?t")
      case True
      with run show ?thesis using Cons.IH by (auto split: if_splits)
    next
      case go: False
      then have b: "below (fkey dest) (fkey ?t)" and c: "Clean ?t = ?t"
        using assms stays_inside_below path_Join_fix by auto
      obtain ok w1 where m: "do_op (MkdirAll ?t) w = (ok, w1)" by fastforce
      then have rm: "runs (op_in (fkey dest)) w w1" using b by (auto intro: runs_op)
      obtain r2 w2 where wr: "writeRegular ?t (te_Data h) w = (r2, w2)" by fastforce
      then have rw: "runs (op_in (fkey dest)) w w2" using writeRegular_runs b c by blast
      show ?thesis
      proof (cases "te_Typeflag h")
        case TypeDir
        with run go m show ?thesis using Cons.IH rm by (cases ok) (auto intro: runs_trans)
      next
        case TypeReg
        with run go wr show ?thesis using Cons.IH rw by (cases r2) (auto split: if_splits intro: runs_trans)
      qed (use run go Cons.IH in auto)
    qed
  qed (use Cons in simp)
qed simp

lemma Extract_runs:
  "ExtractTarGz C r d w = (e, w') \<Longrightarrow> proper_dir d \<Longrightarrow> runs (op_in (fkey d)) w w'"
proof -
  assume a: "ExtractTarGz C r d w = (e, w')" "proper_dir d"
  obtain ok w1 where m: "do_op (MkdirAll d) w = (ok, w1)" by fastforce
  then have r: "runs (op_in (fkey d)) w w1" by (rule runs_op) simp
  show ?thesis
    using a m r extract_entries_runs [of d _ 0 "[]" w1 e w']
    by (cases ok; cases "cd_untar C r") (auto simp: ExtractTarGz_def intro: runs_trans)
qed

definition written_bytes :: "(fs_op \<times> bool) list \<Rightarrow> int" where
  "written_bytes l = sum_list (map (\<lambda>(op, _). case op of WriteFile _ b \<Rightarrow> int (length b) | _ \<Rightarrow> 0) l)"

lemma do_op_bytes:
  "do_op op w = (ok, w') \<Longrightarrow> written_bytes (w_log w') = written_bytes (w_log w) + (case op of WriteFile _ b \<Rightarrow> int (length b) | _ \<Rightarrow> 0)"
  by (simp add: do_op_log written_bytes_def split: fs_op.splits)

lemma caps_pos: "0 \<le> maxBundleBytes" "0 \<le> maxFileBytes"
  by (simp_all add: maxBundleBytes_def maxFileBytes_def)

lemma LimitReader_length: "0 \<le> n \<Longrightarrow> int (length (LimitReader r n)) \<le> n"
  by (auto simp: LimitReader_def)

lemma writeRegular_bytes:
  assumes "writeRegular t tr w = (r, w')"
  shows "written_bytes (w_log w') \<le> written_bytes (w_log w) + maxFileBytes + 1"
    and "r = Inr n \<Longrightarrow> written_bytes (w_log w') = written_bytes (w_log w) + n \<and> n \<le> maxFileBytes"
  using assms LimitReader_length [of "maxFileBytes + 1" tr]
  by (auto simp: writeRegular_def Let_def maxFileBytes_def dest!: do_op_bytes split: prod.splits bool.splits if_splits)

lemma extract_entries_bytes:
  "extract_entries dest es n pre w = (r, w') \<Longrightarrow> n \<le> maxBundleBytes \<Longrightarrow>
     written_bytes (w_log w') + n \<le> written_bytes (w_log w) + maxBundleBytes + maxFileBytes + 1"
proof (induction es arbitrary: n pre w)
  case (Cons x es)
  show ?case
  proof (cases x)
    case (Inr h)
    let ?clean = "TrimPrefix (Clean (te_Name h)) ''./''"
    let ?t = "path_Join dest (entry_rel (entry_prefix pre ?clean) ?clean)"
    note run = Cons.prems [unfolded Inr extract_entries.simps Let_def]
    obtain ok w1 where m: "do_op (MkdirAll ?t) w = (ok, w1)" by fastforce
    obtain r2 w2 where wr: "writeRegular ?t (te_Data h) w = (r2, w2)" by fastforce
    note bytes = do_op_bytes [OF m] writeRegular_bytes [OF wr]
    have IH: "written_bytes (w_log w') + n' \<le> written_bytes (w_log v) + maxBundleBytes + maxFileBytes + 1"
      if "extract_entries dest es n' pre' v = (r, w')" "n' \<le> maxBundleBytes" for n' pre' v
      using Cons.IH that by blast
    show ?thesis
    proof (cases "te_Typeflag h")
      case TypeDir
      then show ?thesis using run m bytes(1) IH [of n _ w] IH [of n _ w1] caps_pos by (cases ok) (auto split: if_splits)
    next
      case TypeReg
      then show ?thesis
        using run wr bytes(2,3) IH [of n _ w] IH [of "n + projr r2" "entry_prefix pre ?clean" w2] caps_pos by (cases r2) (auto split: if_splits)
    qed (use run IH [of n _ w] caps_pos in \<open>auto split: if_splits\<close>)
  qed (use Cons caps_pos in simp)
qed (use caps_pos in simp)

lemma Extract_bytes:
  assumes "ExtractTarGz C r d w = (e, w')"
  shows "written_bytes (w_log w') \<le> written_bytes (w_log w) + maxBundleBytes + maxFileBytes + 1"
proof -
  obtain ok w1 where m: "do_op (MkdirAll d) w = (ok, w1)" by fastforce
  then have "written_bytes (w_log w1) = written_bytes (w_log w)" using do_op_bytes by fastforce
  then show ?thesis
    using assms m extract_entries_bytes [of d _ 0 "[]" w1 e w'] caps_pos
    by (cases ok; cases "cd_untar C r") (auto simp: ExtractTarGz_def)
qed

subsection \<open>An example\<close>

text \<open>An archive with one file, its manifest, and an empty file system.\<close>

definition ex_ref :: Ref where
  "ex_ref = \<lparr>rf_Host = ''github.com'', rf_Owner = ''o'', rf_Repo = ''r'', rf_Version = replicate 40 (CHR ''a'')\<rparr>"

definition ex_manifest :: Manifest where
  "ex_manifest = \<lparr>mf_SchemaVersion = 1, mf_Name = ''b'', mf_Version = ''1'', mf_Description = [], mf_MinProxyVersion = [],
     mf_MaxProxyVersion = [], mf_APIs = [''a.yaml''], mf_Service = None, mf_Token = []\<rparr>"

definition ex_source :: SourceRecord where
  "ex_source = \<lparr>sr_Ref = Ref_String ex_ref, sr_ResolvedSHA = replicate 40 (CHR ''a''), sr_FetchedAt = 0, sr_APIRenames = []\<rparr>"

definition ex_bundle_codecs :: bundle_codecs where
  "ex_bundle_codecs = \<lparr>cd_manifest = (\<lambda>b. if b = ''m'' then Inr ex_manifest else Inl ''yaml''),
     cd_source = (\<lambda>b. if b = ''s'' then Inr ex_source else Inl ''yaml''),
     cd_marshal = (\<lambda>s. if s = ex_source then Some ''s'' else None),
     cd_untar = (\<lambda>_. Some [Inr \<lparr>te_Name = ''r-1/bouncer.yaml'', te_Typeflag = TypeReg, te_Size = 1, te_Data = ''m''\<rparr>]),
     cd_tar = (\<lambda>_. []), cd_sha256 = (\<lambda>s. s)\<rparr>"

definition ex_empty_world :: fs_world where
  "ex_empty_world = \<lparr>w_fs = [], w_log = [], w_fails = (\<lambda>_ _. False), w_rand = (\<lambda>_. ''1'')\<rparr>"

definition ex_fetcher :: Fetcher where
  "ex_fetcher = \<lparr>fe_token = [], fe_apiBase = [], fe_codeloadBase = []\<rparr>"

definition ex_install :: "(string + string) \<times> fs_world" where
  "ex_install = Install ex_bundle_codecs (\<lambda>_ _. Inr (200, [])) 0 ex_fetcher ''/a'' ex_ref [] ex_empty_world"

lemma ex_install_fst: "fst ex_install = Inr ''/a/b''"
  by code_simp

text \<open>C25: Extracting an archive, whatever its entries are named, only ever operates on paths inside its destination:
  killed at any point or run to its end, it has changed nothing outside the destination but made its missing
  parents, and the bytes it wrote exceed the caps by at most one file's worth.\<close>

theorem extract_confined:
  assumes "proper_dir d" "ExtractTarGz C r d w = (e, w')"
  shows "\<exists>ops. w' = run_ops ops w \<and> list_all (op_in (fkey d)) ops
           \<and> (\<forall>k. confined (fkey d) (w_fs w) (w_fs (run_ops (take k ops) w)))
           \<and> written_bytes (w_log w') \<le> written_bytes (w_log w) + maxBundleBytes + maxFileBytes + 1"
proof -
  obtain ops where ops: "list_all (op_in (fkey d)) ops" "w' = run_ops ops w"
    using Extract_runs [OF assms(2,1)] by (auto simp: runs_def)
  have "list_all (op_in (fkey d)) (take k ops)" for k using ops(1) by (auto simp: list_all_iff dest: in_set_takeD)
  then have "\<forall>k. confined (fkey d) (w_fs w) (w_fs (run_ops (take k ops) w))" using run_ops_confined by blast
  with ops Extract_bytes [OF assms(2)] show ?thesis by blast
qed

theorem extract_confined_witness:
  "proper_dir ''/a/b''
   \<and> fst (ExtractTarGz ex_bundle_codecs [] ''/a/b'' ex_empty_world) = None
   \<and> os_ReadFile (snd (ExtractTarGz ex_bundle_codecs [] ''/a/b'' ex_empty_world)) ''/a/b/bouncer.yaml'' = Some ''m''
   \<and> (\<exists>ops. snd (ExtractTarGz ex_bundle_codecs [] ''/a/b'' ex_empty_world) = run_ops ops ex_empty_world \<and> list_all (op_in (fkey ''/a/b'')) ops)"
proof -
  have p: "proper_dir ''/a/b''" unfolding proper_dir_def by code_simp
  have "fst (ExtractTarGz ex_bundle_codecs [] ''/a/b'' ex_empty_world) = None"
    "os_ReadFile (snd (ExtractTarGz ex_bundle_codecs [] ''/a/b'' ex_empty_world)) ''/a/b/bouncer.yaml'' = Some ''m''" by code_simp+
  then show ?thesis using p extract_confined [OF p, of ex_bundle_codecs "[]" ex_empty_world] by (metis prod.collapse)
qed

section \<open>Installing is atomic\<close>

text \<open>The random part of a temporary name is a number.\<close>

definition rand_ok :: "fs_world \<Rightarrow> bool" where
  "rand_ok w \<longleftrightarrow> (\<forall>l. slash \<notin> set (w_rand w l))"

lemma below_child [simp]: "n \<noteq> ''..'' \<Longrightarrow> below d (d @ [n])"
  by (simp add: below_def)

lemma plain_SourceFile [simp]: "plain_name SourceFile" and plain_ManifestFile [simp]: "plain_name ManifestFile"
  by (simp_all add: plain_name_def SourceFile_def ManifestFile_def)

lemma source_keys:
  fixes d w
  defines "tmp \<equiv> temp_path (path_Dir (path_Join d SourceFile)) ''.source-'' w @ ''.yaml.tmp''"
  assumes "d \<noteq> []" "rand_ok w"
  shows "fkey tmp = fkey d @ [''.source-'' @ w_rand w (w_log w) @ ''.yaml.tmp'']" "fkey (path_Join d SourceFile) = fkey d @ [SourceFile]"
    "''.source-'' @ w_rand w (w_log w) @ ''.yaml.tmp'' \<noteq> SourceFile" "SourceFile \<noteq> ''..''"
proof -
  have "plain_name (''.source-'' @ w_rand w (w_log w) @ ''.yaml.tmp'')" using assms(3) by (simp add: plain_name_def rand_ok_def)
  moreover have "path_Dir (path_Join d SourceFile) \<noteq> []" by (simp add: path_Dir_def)
  ultimately show "fkey tmp = fkey d @ [''.source-'' @ w_rand w (w_log w) @ ''.yaml.tmp'']"
    using fkey_temp [of "path_Dir (path_Join d SourceFile)" "''.source-''" w "''.yaml.tmp''"] fkey_Dir_child [OF assms(2) plain_SourceFile]
    by (simp add: tmp_def)
  show "fkey (path_Join d SourceFile) = fkey d @ [SourceFile]" using assms(2) by (simp add: fkey_Join)
  show "''.source-'' @ w_rand w (w_log w) @ ''.yaml.tmp'' \<noteq> SourceFile" "SourceFile \<noteq> ''..''" by (simp_all add: SourceFile_def)
qed

lemma WriteSource_runs:
  assumes "WriteSource C (path_Join d SourceFile) s w = (r, w')" "d \<noteq> []" "rand_ok w"
  shows "runs (op_in (fkey d)) w w'"
proof -
  let ?tmp = "temp_path (path_Dir (path_Join d SourceFile)) ''.source-'' w @ ''.yaml.tmp''"
  have t: "below (fkey d) (fkey ?tmp)" "fkey ?tmp \<noteq> fkey d"
    and p: "below (fkey d) (fkey (path_Join d SourceFile))" "fkey (path_Join d SourceFile) \<noteq> fkey d"
    using source_keys [OF assms(2,3)] by simp_all
  obtain ok1 w1 where 1: "do_op (OpenFile ?tmp) w = (ok1, w1)" by fastforce
  show ?thesis
  proof (cases "cd_marshal C s")
    case (Some raw)
    obtain ok2 w2 where 2: "do_op (WriteFile ?tmp raw) w1 = (ok2, w2)" by fastforce
    obtain ok3 w3 where 3: "do_op (Rename ?tmp (path_Join d SourceFile)) w2 = (ok3, w3)" by fastforce
    have r1: "runs (op_in (fkey d)) w w1" using 1 t by (auto intro: runs_op)
    have r2: "runs (op_in (fkey d)) w w2" using t by (intro runs_trans [OF r1] runs_op [OF 2]) simp
    have r3: "runs (op_in (fkey d)) w w3" using t p by (intro runs_trans [OF r2] runs_op [OF 3]) simp
    have rm: "runs (op_in (fkey d)) v (snd (do_op (RemoveAll ?tmp) v))" for v using t by (intro runs_snd) simp
    have "w' \<in> {w, w1, snd (do_op (RemoveAll ?tmp) w2), snd (do_op (RemoveAll ?tmp) w3), w3}"
      using assms(1) Some 1 2 3 by (auto simp: WriteSource_def Let_def split: option.splits bool.splits)
    then show ?thesis using r1 r2 r3 rm runs_trans by blast
  qed (use assms(1) in \<open>auto simp: WriteSource_def split: option.splits\<close>)
qed

lemma WriteSource_reads:
  assumes "WriteSource C (path_Join d SourceFile) s w = (None, w')" "d \<noteq> []" "rand_ok w"
  shows "Source_Validate s = None \<and> (\<exists>raw. cd_marshal C s = Some raw \<and> os_ReadFile w' (path_Join d SourceFile) = Some raw)"
proof -
  let ?tmp = "temp_path (path_Dir (path_Join d SourceFile)) ''.source-'' w @ ''.yaml.tmp''"
  from assms(1) obtain raw w1 w2 where v: "Source_Validate s = None" and raw: "cd_marshal C s = Some raw"
    and 2: "do_op (WriteFile ?tmp raw) w1 = (True, w2)" and 3: "do_op (Rename ?tmp (path_Join d SourceFile)) w2 = (True, w')"
    by (auto simp: WriteSource_def Let_def split: option.splits prod.splits bool.splits)
  have "map_of (w_fs w2) (fkey ?tmp) = Some (File raw)" using 2 by (auto simp: do_op_def map_of_upsert_by split: if_splits)
  moreover have "map_of (w_fs w') (fkey (path_Join d SourceFile)) = map_of (w_fs w2) (fkey ?tmp)"
    using 3 by (auto simp: do_op_def map_of_move split: if_splits)
  ultimately show ?thesis using v raw by (simp add: os_ReadFile_def)
qed

text \<open>The law of the YAML codec that reading back relies on: decoding what was encoded gives it back.\<close>

definition source_codec :: "bundle_codecs \<Rightarrow> bool" where
  "source_codec C \<longleftrightarrow> (\<forall>s raw. cd_marshal C s = Some raw \<longrightarrow> cd_source C raw = Inr s)"

lemma WriteSource_loads:
  assumes "WriteSource C (path_Join d SourceFile) s w = (None, w')" "d \<noteq> []" "rand_ok w" "source_codec C"
  shows "source_at C w' d = Inr s"
  using WriteSource_reads [OF assms(1-3)] assms(4) by (auto simp: LoadSource_def read_yaml_def source_codec_def)

lemma Stage_runs:
  assumes "Stage C Do now f ref d renames w = (r, w')" "d \<noteq> []" "proper_dir d" "rand_ok w"
  shows "runs (op_in (fkey d)) w w'"
proof (cases "rf_Version ref = [] \<or> (\<nexists>sha body. ResolveSHA Do f ref = Inr sha \<and> Download Do f ref sha = Inr body)")
  case True
  then have "w' = w" using assms(1) by (auto simp: Stage_def split: sum.splits if_splits)
  then show ?thesis by simp
next
  case False
  then obtain sha body where sb: "ResolveSHA Do f ref = Inr sha" "Download Do f ref sha = Inr body" by blast
  obtain e w1 where x: "ExtractTarGz C body d w = (e, w1)" by fastforce
  then have r1: "runs (op_in (fkey d)) w w1" using Extract_runs assms(3) by blast
  then have rk: "rand_ok w1" using assms(4) by (simp add: rand_ok_def runs_rand)
  let ?s = "\<lparr>sr_Ref = Ref_String ref, sr_ResolvedSHA = sha, sr_FetchedAt = whole_seconds now, sr_APIRenames = renames\<rparr>"
  obtain e2 w2 where ws: "WriteSource C (path_Join d SourceFile) ?s w1 = (e2, w2)" by fastforce
  then have "runs (op_in (fkey d)) w1 w2" using WriteSource_runs assms(2) rk by blast
  moreover have "w' \<in> {w1, w2}"
    using assms(1) False sb x ws by (auto simp: Stage_def split: option.splits sum.splits)
  ultimately show ?thesis using r1 runs_trans by blast
qed

lemma Stage_records:
  assumes "Stage C Do now f ref d renames w = (Inr sha, w')" "d \<noteq> []" "proper_dir d" "rand_ok w"
  shows "ResolveSHA Do f ref = Inr sha"
    and "source_codec C \<Longrightarrow> source_at C w' d =
           Inr \<lparr>sr_Ref = Ref_String ref, sr_ResolvedSHA = sha, sr_FetchedAt = whole_seconds now, sr_APIRenames = renames\<rparr>"
proof -
  from assms(1) obtain body w1 where x: "ExtractTarGz C body d w = (None, w1)" "ResolveSHA Do f ref = Inr sha"
    and s: "WriteSource C (path_Join d SourceFile)
      \<lparr>sr_Ref = Ref_String ref, sr_ResolvedSHA = sha, sr_FetchedAt = whole_seconds now, sr_APIRenames = renames\<rparr> w1 = (None, w')"
    by (auto simp: Stage_def split: if_splits sum.splits prod.splits option.splits)
  have "rand_ok w1" using runs_rand [OF Extract_runs [OF x(1) assms(3)]] assms(4) by (simp add: rand_ok_def)
  then show "source_codec C \<Longrightarrow> source_at C w' d =
      Inr \<lparr>sr_Ref = Ref_String ref, sr_ResolvedSHA = sha, sr_FetchedAt = whole_seconds now, sr_APIRenames = renames\<rparr>"
    using WriteSource_loads [OF s assms(2)] by blast
  show "ResolveSHA Do f ref = Inr sha" by (rule x(2))
qed

lemma fkey_tmp:
  assumes "os_MkdirTemp d pre w = (Some tmp, w')" "d \<noteq> []" "plain_name (pre @ w_rand w (w_log w))"
  shows "fkey tmp = fkey d @ [pre @ w_rand w (w_log w)]" "tmp \<noteq> []" "proper_dir tmp" "do_op (MkdirTemp tmp) w = (True, w')"
proof -
  have t: "tmp = temp_path d pre w" "do_op (MkdirTemp tmp) w = (True, w')"
    using assms(1) by (auto simp: os_MkdirTemp_def Let_def split: prod.splits if_splits)
  show k: "fkey tmp = fkey d @ [pre @ w_rand w (w_log w)]"
    using fkey_temp [of d pre w "[]"] assms(2,3) t(1) by simp
  then show "proper_dir tmp" using assms(3) by (simp add: proper_dir_def plain_name_def)
  show "tmp \<noteq> []" using k by auto
  show "do_op (MkdirTemp tmp) w = (True, w')" by (rule t(2))
qed

lemma load_moved:
  assumes "do_op (Rename a b) w = (True, w')" "a \<noteq> []" "b \<noteq> []"
  shows "manifest_at C w' b = manifest_at C w a" "source_at C w' b = source_at C w a"
proof -
  have "map_of (w_fs w') (fkey b @ q) = map_of (w_fs w) (fkey a @ q)" for q
    using assms(1) by (auto simp: do_op_def map_of_move split: if_splits)
  then have "os_ReadFile w' (path_Join b n) = os_ReadFile w (path_Join a n)" if "plain_name n" for n
    using assms(2,3) that by (simp add: os_ReadFile_def fkey_Join)
  then show "manifest_at C w' b = manifest_at C w a" "source_at C w' b = source_at C w a"
    by (simp_all add: LoadManifest_def LoadSource_def read_yaml_def)
qed

lemma BundleDir_not_Nil: "d \<noteq> [] \<Longrightarrow> BundleDir d n \<noteq> []"
  by (simp add: BundleDir_def path_Join_def)

text \<open>
  The steps of an install: everything but a final rename happens in the temporary directory \<open>tmp\<close>, and only a
  success has that rename.
\<close>

definition installs_at :: "bundle_codecs \<Rightarrow> string \<Rightarrow> fs_world \<Rightarrow> string + string \<Rightarrow> fs_world \<Rightarrow> bool" where
  "installs_at C tmp w r w' \<longleftrightarrow>
     (case r of
        Inl _ \<Rightarrow> crash_safe (fkey tmp) w w'
      | Inr final \<Rightarrow>
          (\<exists>v. crash_safe (fkey tmp) w v \<and> do_op (Rename tmp final) v = (True, w') \<and> map_of (w_fs v) (fkey tmp) = Some Dir
             \<and> os_Stat v final = None))"

lemma cleanup_safe: "crash_safe (fkey tmp) w v \<Longrightarrow> crash_safe (fkey tmp) w (snd (do_op (RemoveAll tmp) v))"
  using crash_safe_trans crash_safe_op [of "RemoveAll tmp" "fkey tmp" v] by auto

lemma mkdtemp_safe:
  assumes "do_op (MkdirAll d) w = (ok1, w1)" "os_MkdirTemp d pre w1 = (t2, w2)" "d \<noteq> []" "plain_name (pre @ w_rand w (w_log w1))"
  obtains tmp where "fkey tmp = fkey d @ [pre @ w_rand w (w_log w1)]" "tmp \<noteq> []" "proper_dir tmp"
    "t2 = None \<or> t2 = Some tmp" "crash_safe (fkey tmp) w w1" "crash_safe (fkey tmp) w w2" "w_rand w2 = w_rand w"
    "t2 = Some tmp \<Longrightarrow> map_of (w_fs w2) (fkey tmp) = Some Dir"
proof -
  define tmp where "tmp = temp_path d pre w1"
  have e: "w_rand w1 = w_rand w" using do_op_env [OF assms(1)] by simp
  have k: "fkey tmp = fkey d @ [pre @ w_rand w (w_log w1)]"
    using fkey_temp [of d pre w1 "[]"] assms(3,4) e by (simp add: tmp_def)
  obtain ok where d2: "do_op (MkdirTemp tmp) w1 = (ok, w2)" "t2 = None \<or> t2 = Some tmp" "t2 = Some tmp \<Longrightarrow> ok"
    using assms(2) by (auto simp: os_MkdirTemp_def Let_def tmp_def split: prod.splits if_splits)
  then have dir: "t2 = Some tmp \<Longrightarrow> map_of (w_fs w2) (fkey tmp) = Some Dir"
    by (auto simp: do_op_def map_of_upsert_by split: if_splits)
  have r1: "runs (op_in (fkey tmp)) w w1" using k by (intro runs_op [OF assms(1)]) simp
  then have "runs (op_in (fkey tmp)) w w2" by (rule runs_step [OF _ d2(1)]) simp
  moreover have "tmp \<noteq> []" "proper_dir tmp" using k assms(4) by (auto simp: proper_dir_def plain_name_def)
  ultimately show ?thesis
    using that [OF k _ _ d2(2) crash_safe_runs [OF r1] _ _ dir] crash_safe_runs e do_op_env [OF d2(1)] by simp
qed

lemma Install_steps:
  assumes "Install C Do now f apisDir ref renames w = (r, w')" "apisDir \<noteq> []" "rand_ok w"
  shows "\<exists>tmp n. fkey tmp = fkey apisDir @ [''.tmp.'' @ n] \<and> tmp \<noteq> [] \<and> installs_at C tmp w r w'
           \<and> (\<forall>final. r = Inr final \<longrightarrow>
                (\<exists>m sha. manifest_at C w' final = Inr m \<and> final = BundleDir apisDir (mf_Name m) \<and> ResolveSHA Do f ref = Inr sha
                   \<and> (source_codec C \<longrightarrow> source_at C w' final =
                        Inr \<lparr>sr_Ref = Ref_String ref, sr_ResolvedSHA = sha, sr_FetchedAt = whole_seconds now, sr_APIRenames = renames\<rparr>)))"
proof -
  obtain ok1 w1 where 1: "do_op (MkdirAll apisDir) w = (ok1, w1)" by fastforce
  obtain t2 w2 where 2: "os_MkdirTemp apisDir ''.tmp.'' w1 = (t2, w2)" by fastforce
  have "plain_name (''.tmp.'' @ w_rand w (w_log w1))" using assms(3) by (simp add: plain_name_def rand_ok_def)
  then obtain tmp where tmp: "fkey tmp = fkey apisDir @ [''.tmp.'' @ w_rand w (w_log w1)]" "tmp \<noteq> []" "proper_dir tmp"
    "t2 = None \<or> t2 = Some tmp" "crash_safe (fkey tmp) w w1" "crash_safe (fkey tmp) w w2" "w_rand w2 = w_rand w"
    "t2 = Some tmp \<Longrightarrow> map_of (w_fs w2) (fkey tmp) = Some Dir"
    using mkdtemp_safe [OF 1 2 assms(2)] by metis
  have rk: "rand_ok w2" using assms(3) tmp(7) by (simp add: rand_ok_def)
  obtain s3 w3 where 3: "Stage C Do now f ref tmp renames w2 = (s3, w3)" by fastforce
  note st = Stage_runs [OF 3 tmp(2,3) rk]
  have r3: "crash_safe (fkey tmp) w w3" using crash_safe_trans [OF tmp(6) crash_safe_runs [OF st]] .
  show ?thesis
  proof (cases "ok1 \<and> rf_Version ref \<noteq> [] \<and> t2 = Some tmp \<and> is_ok s3 \<and> is_ok (manifest_at C w3 tmp)")
    case False
    then have "\<exists>e. r = Inl e" "w' \<in> {w, w1, w2, snd (do_op (RemoveAll tmp) w3)}"
      using assms(1) 1 2 3 tmp(4) by (auto simp: Install_def Let_def is_ok_iff split: bool.splits sum.splits if_splits)
    then have "installs_at C tmp w r w'" using tmp(5,6) cleanup_safe [OF r3] by (auto simp: installs_at_def)
    then show ?thesis using tmp(1,2) \<open>\<exists>e. r = Inl e\<close> by auto
  next
    case True
    then obtain m sha where m: "manifest_at C w3 tmp = Inr m" "s3 = Inr sha" by (auto simp: is_ok_iff)
    let ?final = "BundleDir apisDir (mf_Name m)"
    obtain ok4 w4 where 4: "do_op (Rename tmp ?final) w3 = (ok4, w4)" by fastforce
    note run = assms(1) [unfolded Install_def Let_def]
    show ?thesis
    proof (cases "os_Stat w3 ?final = None \<and> ok4")
      case go: True
      then have rw: "r = Inr ?final" "w' = w4"
        using run 1 2 3 4 True m by (auto simp: is_ok_iff)
      have mv: "manifest_at C w4 ?final = Inr m" "source_at C w4 ?final = source_at C w3 tmp"
        using load_moved [of tmp ?final w3 w4 C] 4 go m tmp(2) BundleDir_not_Nil [OF assms(2)] by simp_all
      have "installs_at C tmp w (Inr ?final) w4"
        using r3 4 go runs_keeps_dir [OF st] tmp(8) True by (auto simp: installs_at_def)
      then show ?thesis
        using mv rw tmp(1,2) Stage_records [OF 3 [unfolded m(2)] tmp(2,3) rk]
        by (intro exI [of _ tmp] exI [of _ "w_rand w (w_log w1)"]) auto
    next
      case stop: False
      then have "\<exists>e. r = Inl e" "w' = snd (do_op (RemoveAll tmp) w3) \<or> \<not> ok4 \<and> w' = snd (do_op (RemoveAll tmp) w4)"
        using run 1 2 3 4 True m by (auto simp: is_ok_iff split: bool.splits if_splits)
      moreover have "crash_safe (fkey tmp) w w4" if "\<not> ok4"
        using crash_safe_trans [OF r3] crash_safe_failed 4 that by simp
      ultimately have "installs_at C tmp w r w'" using cleanup_safe [of tmp w w4] cleanup_safe [OF r3] by (auto simp: installs_at_def)
      then show ?thesis using tmp(1,2) \<open>\<exists>e. r = Inl e\<close> by auto
    qed
  qed
qed

lemma moved_frame:
  assumes "crash_safe (fkey tmp) w v" "do_op (Rename tmp final) v = (True, w')" "\<not> prefix (fkey tmp) q" "\<not> prefix (fkey final) q"
  shows "map_of (w_fs w') q = map_of (w_fs w) q \<or> prefix q (fkey tmp) \<and> map_of (w_fs w) q = None \<and> map_of (w_fs w') q = Some Dir"
proof -
  have "map_of (w_fs w') q = map_of (w_fs v) q" using do_op_frame [OF assms(2)] assms(3,4) by simp
  then show ?thesis using crash_safe_confined [OF assms(1)] assms(3) by (auto simp: confined_def)
qed

text \<open>C26: Installing a bundle is atomic.  The whole run takes place in a fresh hidden directory of the APIs directory:
  a failed install, or one killed at any point before its last operation, leaves everything else as it was; a
  successful one ends with a rename that puts a complete bundle, whose manifest loads, at a path where nothing was,
  and changes nothing else.\<close>

theorem install_atomic:
  assumes "Install C Do now f apisDir ref renames w = (r, w')" "apisDir \<noteq> []" "rand_ok w"
  shows "\<exists>tmp n v. fkey tmp = fkey apisDir @ [''.tmp.'' @ n] \<and> crash_safe (fkey tmp) w v
           \<and> (case r of
                Inl _ \<Rightarrow> v = w'
              | Inr final \<Rightarrow>
                  do_op (Rename tmp final) v = (True, w') \<and> os_Stat v final = None
                  \<and> (\<exists>m. manifest_at C w' final = Inr m \<and> final = BundleDir apisDir (mf_Name m))
                  \<and> (\<forall>q. prefix (fkey tmp) q \<or> prefix (fkey final) q \<or> map_of (w_fs w') q = map_of (w_fs w) q
                        \<or> prefix q (fkey tmp) \<and> map_of (w_fs w) q = None \<and> map_of (w_fs w') q = Some Dir))"
proof -
  obtain tmp n where s: "fkey tmp = fkey apisDir @ [''.tmp.'' @ n]" "installs_at C tmp w r w'"
    "\<forall>final. r = Inr final \<longrightarrow> (\<exists>m. manifest_at C w' final = Inr m \<and> final = BundleDir apisDir (mf_Name m))"
    using Install_steps [OF assms] by metis
  show ?thesis
  proof (cases r)
    case (Inl e)
    then show ?thesis using s(1,2) by (auto simp: installs_at_def)
  next
    case (Inr final)
    then obtain v where v: "crash_safe (fkey tmp) w v" "do_op (Rename tmp final) v = (True, w')" "os_Stat v final = None"
      using s(2) by (auto simp: installs_at_def)
    show ?thesis
      using s(3) moved_frame [OF v(1,2)] v Inr s(1) by (intro exI [of _ tmp] exI [of _ n] exI [of _ v]) auto
  qed
qed

lemma ex_rand: "rand_ok ex_empty_world"
  by (simp add: rand_ok_def ex_empty_world_def)

theorem install_atomic_witness:
  "\<exists>tmp n v m. fkey tmp = fkey ''/a'' @ [''.tmp.'' @ n] \<and> crash_safe (fkey tmp) ex_empty_world v \<and> os_Stat v ''/a/b'' = None
     \<and> do_op (Rename tmp ''/a/b'') v = (True, snd ex_install) \<and> manifest_at ex_bundle_codecs (snd ex_install) ''/a/b'' = Inr m
     \<and> ''/a/b'' = BundleDir ''/a'' (mf_Name m)"
proof -
  have "Install ex_bundle_codecs (\<lambda>_ _. Inr (200, [])) 0 ex_fetcher ''/a'' ex_ref [] ex_empty_world = (Inr ''/a/b'', snd ex_install)"
    using ex_install_fst unfolding ex_install_def by (metis prod.collapse)
  from install_atomic [OF this _ ex_rand] show ?thesis by auto
qed

section \<open>Installing again does nothing\<close>

lemma any_slug_iff:
  "any_slug C w root ref es \<longleftrightarrow>
     (\<exists>n src r. (n, True) \<in> set es \<and> \<not> HasPrefix n ''.'' \<and> source_at C w (path_Join root n) = Inr src
        \<and> ParseRef (sr_Ref src) = Inr r \<and> Slug r = Slug ref)"
  by (induction C w root ref es rule: any_slug.induct) (auto split: sum.splits)

lemma moved_dir_listed:
  assumes "do_op (Rename tmp final) v = (True, w')" "map_of (w_fs v) (fkey tmp) = Some Dir"
    "fkey tmp = fkey root @ [m]" "fkey final = fkey root @ [n]" "plain_name n"
  shows "\<exists>es. os_ReadDir w' root = Some es \<and> (n, True) \<in> set es"
proof -
  have w': "w_fs w' = move_tree (fkey tmp) (fkey final) (w_fs v)" and ok: "op_ok (w_fs v) (Rename tmp final)"
    using assms(1) by (auto simp: do_op_def split: if_splits)
  have np: "\<not> prefix (fkey tmp) (fkey final)" "\<not> prefix (fkey final) (fkey tmp)" using ok by simp_all
  have "map_of (w_fs w') (fkey final) = Some Dir" using assms(2) by (simp add: w' map_of_move [OF np])
  then have "(fkey root @ [n], Dir) \<in> set (w_fs w')" by (simp add: assms(4) map_of_SomeD)
  moreover have "\<not> prefix (fkey tmp) (fkey root)" "\<not> prefix (fkey final) (fkey root)"
    using prefix_length_le by (fastforce simp: assms(3,4))+
  then have "map_of (w_fs w') (fkey root) = map_of (w_fs v) (fkey root)" unfolding w' map_of_move [OF np] by simp
  then have "is_dir (w_fs w') (fkey root)" using ok assms(4) by (simp add: is_dir_def)
  ultimately show ?thesis using assms(5) by (auto simp: os_ReadDir_def image_iff intro!: bexI [of _ "(fkey root @ [n], Dir)"])
qed

lemma installed_detected:
  assumes "Install C Do now f root ref renames w = (Inr (BundleDir root n), w')" "root \<noteq> []" "rand_ok w" "source_codec C"
    and "ref_plain ref" "plain_name n" "\<not> HasPrefix n ''.''" "Slug ref' = Slug ref"
  shows "refAlreadyInstalled C w' root ref'"
proof -
  let ?final = "BundleDir root n"
  obtain tmp m where s: "fkey tmp = fkey root @ [''.tmp.'' @ m]" "installs_at C tmp w (Inr ?final) w'"
    and src: "\<exists>src. source_at C w' ?final = Inr src \<and> sr_Ref src = Ref_String ref"
    using Install_steps [OF assms(1-3)] assms(4) by auto
  obtain v where "do_op (Rename tmp ?final) v = (True, w')" "map_of (w_fs v) (fkey tmp) = Some Dir"
    using s(2) by (auto simp: installs_at_def)
  moreover have "fkey ?final = fkey root @ [n]" using assms(2,6) by (simp add: BundleDir_def fkey_Join)
  ultimately obtain es where "os_ReadDir w' root = Some es" "(n, True) \<in> set es" using moved_dir_listed s(1) assms(6) by metis
  moreover have "ParseRef (Ref_String ref) = Inr ref"
    using assms(5) by (intro ParseRef_spelling) (auto simp: ref_spelling_def)
  ultimately show ?thesis using src assms(7,8) by (auto simp: refAlreadyInstalled_def any_slug_iff BundleDir_def)
qed

lemma install_each_skips:
  assumes "\<And>raw. raw \<in> set refs \<Longrightarrow> \<exists>r. ParseRef raw = Inr r \<and> refAlreadyInstalled C w root (default_version r)"
  shows "install_each C Do now f root refs w = (None, w)"
  using assms by (induction refs) fastforce+

text \<open>Boot-time installation is idempotent: once a reference is installed under an ordinary bundle name, a later
  run with any accepted spelling of any version of the same repository contacts no server and touches no file.\<close>

theorem with_apis_idempotent:
  assumes "Install C Do now f root ref renames w = (Inr (BundleDir root n), w')" "root \<noteq> []" "rand_ok w" "source_codec C"
    and "ref_plain ref" "plain_name n" "\<not> HasPrefix n ''.''"
    and "\<forall>s \<in> set refs. \<exists>r. ref_plain r \<and> ref_spelling r s \<and> Slug r = Slug ref"
  shows "install_each C Do' now' f' root refs w' = (None, w')"
proof (rule install_each_skips)
  fix s
  assume "s \<in> set refs"
  then obtain r where r: "ref_plain r" "ref_spelling r s" "Slug r = Slug ref" using assms(8) by blast
  moreover have "Slug (default_version r) = Slug r" by (simp add: default_version_def Slug_def)
  ultimately have "refAlreadyInstalled C w' root (default_version r)"
    using installed_detected [OF assms(1-7)] by simp
  then show "\<exists>r. ParseRef s = Inr r \<and> refAlreadyInstalled C w' root (default_version r)"
    using ParseRef_spelling [OF r(1,2)] by blast
qed

theorem with_apis_idempotent_witness:
  "install_each ex_bundle_codecs (\<lambda>_ _. Inl ''offline'') 7 ex_fetcher ''/a'' [''https://github.com/o/r.git'', ''github.com/o/r@v2''] (snd ex_install)
     = (None, snd ex_install)"
proof -
  let ?r1 = "\<lparr>rf_Host = ''github.com'', rf_Owner = ''o'', rf_Repo = ''r'', rf_Version = []\<rparr>"
  let ?r2 = "\<lparr>rf_Host = ''github.com'', rf_Owner = ''o'', rf_Repo = ''r'', rf_Version = ''v2''\<rparr>"
  have "BundleDir ''/a'' ''b'' = ''/a/b''" by code_simp
  then have i: "Install ex_bundle_codecs (\<lambda>_ _. Inr (200, [])) 0 ex_fetcher ''/a'' ex_ref [] ex_empty_world = (Inr (BundleDir ''/a'' ''b''), snd ex_install)"
    using ex_install_fst unfolding ex_install_def by (metis prod.collapse)
  have p: "ref_plain ex_ref" "ref_plain ?r1" "ref_plain ?r2" by code_simp+
  have "Ref_String ?r1 = ''github.com/o/r''" "Ref_String ?r2 = ''github.com/o/r@v2''" by code_simp+
  then have "ref_spelling ?r1 ''https://github.com/o/r.git''" "ref_spelling ?r2 ''github.com/o/r@v2''"
    by (auto simp: ref_spelling_def)
  moreover have "Slug ?r1 = Slug ex_ref" "Slug ?r2 = Slug ex_ref" by code_simp+
  moreover have "source_codec ex_bundle_codecs" by (simp add: source_codec_def ex_bundle_codecs_def)
  moreover have "plain_name ''b''" "\<not> HasPrefix ''b'' ''.''" by (simp_all add: plain_name_def HasPrefix_def)
  ultimately show ?thesis using p by (intro with_apis_idempotent [OF i _ ex_rand]) auto
qed

section \<open>Names that leave the APIs directory\<close>

text \<open>The name of a manifest is only checked for blanks, so an install can leave the APIs directory.\<close>

lemma bundle_name_escapes:
  "Manifest_Validate \<lparr>mf_SchemaVersion = 1, mf_Name = ''../evil'', mf_Version = ''1'', mf_Description = [], mf_MinProxyVersion = [],
     mf_MaxProxyVersion = [], mf_APIs = [''a.yaml''], mf_Service = None, mf_Token = []\<rparr> = None
   \<and> BundleDir ''/data/apis'' ''../evil'' = ''/data/evil'' \<and> BundleDir ''/data/apis'' ''../../etc'' = ''/etc''"
proof -
  have "BundleDir ''/data/apis'' ''../evil'' = ''/data/evil'' \<and> BundleDir ''/data/apis'' ''../../etc'' = ''/etc''"
    by code_simp
  moreover have "TrimSpace ''../evil'' = ''../evil''" "TrimSpace ''1'' = ''1''" by code_simp+
  ultimately show ?thesis
    by (simp add: Manifest_Validate_def SchemaVersion_def validateRelPath_def HasPrefix_def)
qed

end
