(* ===== verification/ApisCmd.thy ===== *)
theory ApisCmd
  imports BundleInstall
begin

text \<open>
  The \<^verbatim>\<open>bouncer apis\<close> commands that manage bundles, \<^verbatim>\<open>internal/cli/apiscmd\<close>: add (from GitHub, a tarball or a
  directory), remove, upgrade, fetch, pack and list, and the data directory layout they resolve paths with,
  \<^verbatim>\<open>internal/cli/datadir\<close>.  The parsed flags and the environment are arguments; what the commands print is left out.
\<close>

section \<open>Definitions\<close>

subsection \<open>The data directory\<close>

definition SecretFile :: string where "SecretFile = ''secret.hex''"
definition AdminPasswordFile :: string where "AdminPasswordFile = ''admin-password.hash''"
definition APIsDir :: string where "APIsDir = ''apis''"

definition IsInitialized :: "fs_world \<Rightarrow> string \<Rightarrow> bool" where
  "IsInitialized w dir = list_all (\<lambda>name. os_Stat w (path_Join dir name) \<noteq> None) [SecretFile, AdminPasswordFile]"

definition Layout_APIs :: "string \<Rightarrow> string" where
  "Layout_APIs dir = path_Join dir APIsDir"

definition readTrimmed :: "fs_world \<Rightarrow> string \<Rightarrow> string option" where
  "readTrimmed w path = map_option TrimSpace (os_ReadFile w path)"

definition Layout_ReadSecret :: "fs_world \<Rightarrow> string \<Rightarrow> string option" where
  "Layout_ReadSecret w dir = readTrimmed w (path_Join dir SecretFile)"

definition Layout_ReadAdminHash :: "fs_world \<Rightarrow> string \<Rightarrow> string option" where
  "Layout_ReadAdminHash w dir = readTrimmed w (path_Join dir AdminPasswordFile)"

definition datadir_Resolve :: "fs_world \<Rightarrow> (string \<Rightarrow> string) \<Rightarrow> string \<Rightarrow> string" where
  "datadir_Resolve w getenv flag =
     (if flag \<noteq> [] then flag
      else if TrimSpace (getenv ''BOUNCER_DATA_DIR'') \<noteq> [] then TrimSpace (getenv ''BOUNCER_DATA_DIR'')
      else if IsInitialized w ''.'' then ''.'' else [])"

definition resolveAPIsDir :: "fs_world \<Rightarrow> (string \<Rightarrow> string) \<Rightarrow> string \<Rightarrow> string \<Rightarrow> string" where
  "resolveAPIsDir w getenv flagVal dataDir =
     (if flagVal \<noteq> [] then flagVal
      else if dataDir \<noteq> [] then Layout_APIs dataDir
      else if TrimSpace (getenv ''BOUNCER_APIS_DIR'') \<noteq> [] then TrimSpace (getenv ''BOUNCER_APIS_DIR'')
      else if IsInitialized w ''.'' then Layout_APIs ''.''
      else if TrimSpace (getenv ''BOUNCER_DATA_DIR'') \<noteq> [] then Layout_APIs (TrimSpace (getenv ''BOUNCER_DATA_DIR''))
      else [])"

record apisDirFlags =
  df_ApisDir :: string
  df_DataDir :: string

definition dirs_resolve :: "fs_world \<Rightarrow> (string \<Rightarrow> string) \<Rightarrow> apisDirFlags \<Rightarrow> string + string" where
  "dirs_resolve w getenv f =
     (let root = resolveAPIsDir w getenv (df_ApisDir f) (df_DataDir f) in if root = [] then Inl ''missing destination'' else Inr root)"

subsection \<open>The allowlist\<close>

definition allowlistFile :: string where "allowlistFile = ''bouncer.yaml''"

text \<open>The decoder yields the patterns under \<^verbatim>\<open>apis.allowlist\<close>.\<close>

definition loadAllowlist :: "(string \<Rightarrow> string + string list) \<Rightarrow> fs_world \<Rightarrow> string \<Rightarrow> string + string list" where
  "loadAllowlist decode w dataDir =
     (if dataDir = [] then Inr []
      else (case os_ReadFile w (path_Join dataDir allowlistFile) of None \<Rightarrow> Inr [] | Some raw \<Rightarrow> decode raw))"

fun match_patterns :: "string list \<Rightarrow> string \<Rightarrow> bool" where
  "match_patterns [] slug = False"
| "match_patterns (pat0 # pats) slug =
     (let pat = TrimSpace pat0
      in if pat = [] then match_patterns pats slug
         else if pat = slug then True
         else if HasSuffix pat ''/*'' \<and> HasPrefix slug (TrimSuffix pat ''/*'' @ ''/'') then True
         else match_patterns pats slug)"

definition matchAllowlist :: "string list \<Rightarrow> Ref \<Rightarrow> bool" where
  "matchAllowlist allowlist ref = (allowlist = [] \<or> match_patterns allowlist (Slug ref))"

definition enforceAllowlist :: "(string \<Rightarrow> string + string list) \<Rightarrow> fs_world \<Rightarrow> string \<Rightarrow> Ref \<Rightarrow> bool \<Rightarrow> string option" where
  "enforceAllowlist decode w dataDir ref skip =
     (if skip then None
      else (case loadAllowlist decode w dataDir of
              Inl e \<Rightarrow> Some e
            | Inr allow \<Rightarrow> if \<not> matchAllowlist allow ref then Some ''ref is not in the apis.allowlist'' else None))"

subsection \<open>Copying a tree and the shared install steps\<close>

text \<open>
  The walk's callback: a directory named \<^verbatim>\<open>.git\<close> and everything below it is skipped, anything but directories and
  regular files is refused.  \<open>skip\<close> holds the skipped directories; the root's own name is an argument.
\<close>

fun copy_entries :: "string \<Rightarrow> string \<Rightarrow> string list list \<Rightarrow> (string list \<times> node) list \<Rightarrow> fs_world \<Rightarrow> string option \<times> fs_world" where
  "copy_entries rootName dst skip [] w = (None, w)"
| "copy_entries rootName dst skip ((rel, n) # xs) w =
     (if list_ex (\<lambda>p. prefix p rel) skip then copy_entries rootName dst skip xs w
      else (case n of
              Special \<Rightarrow> (Some ''only directories and regular files are permitted'', w)
            | Dir \<Rightarrow>
                (if (if rel = [] then rootName else last rel) = ''.git'' then copy_entries rootName dst (rel # skip) xs w
                 else (case do_op (MkdirAll (path_Join dst (Join rel ''/''))) w of
                         (False, w1) \<Rightarrow> (Some ''mkdir'', w1)
                       | (True, w1) \<Rightarrow> copy_entries rootName dst skip xs w1))
            | File b \<Rightarrow>
                (case do_op (OpenFile (path_Join dst (Join rel ''/''))) w of
                   (False, w1) \<Rightarrow> (Some ''open'', w1)
                 | (True, w1) \<Rightarrow>
                     (case do_op (WriteFile (path_Join dst (Join rel ''/'')) b) w1 of
                        (False, w2) \<Rightarrow> (Some ''copy'', w2)
                      | (True, w2) \<Rightarrow> copy_entries rootName dst skip xs w2))))"

definition copyTree :: "string \<Rightarrow> string \<Rightarrow> fs_world \<Rightarrow> string option \<times> fs_world" where
  "copyTree srcDir dstDir w = copy_entries (path_Base (Clean srcDir)) dstDir [] (walk w srcDir) w"

definition stageInstall ::
  "bundle_codecs \<Rightarrow> string \<Rightarrow> string \<Rightarrow> string \<Rightarrow> (string \<Rightarrow> fs_world \<Rightarrow> string option \<times> fs_world) \<Rightarrow> SourceRecord \<Rightarrow> fs_world \<Rightarrow> (string + string) \<times> fs_world" where
  "stageInstall C apisDir bundleName tmpPrefix stage src w =
     (let finalDir = BundleDir apisDir bundleName
      in if os_Stat w finalDir \<noteq> None then (Inl ''already exists; remove or upgrade first'', w)
         else (case do_op (MkdirAll apisDir) w of
                 (False, w1) \<Rightarrow> (Inl ''mkdir'', w1)
               | (True, w1) \<Rightarrow>
                   (case os_MkdirTemp apisDir tmpPrefix w1 of
                      (None, w2) \<Rightarrow> (Inl ''mkdtemp'', w2)
                    | (Some tmpFinal, w2) \<Rightarrow>
                        (let cleanup = (\<lambda>e w. (Inl e, snd (do_op (RemoveAll tmpFinal) w)))
                         in case stage tmpFinal w2 of
                              (Some e, w3) \<Rightarrow> cleanup e w3
                            | (None, w3) \<Rightarrow>
                                (case WriteSource C (path_Join tmpFinal SourceFile) src w3 of
                                   (Some e, w4) \<Rightarrow> cleanup e w4
                                 | (None, w4) \<Rightarrow>
                                     (case do_op (Rename tmpFinal finalDir) w4 of
                                        (False, w5) \<Rightarrow> cleanup ''rename'' w5
                                      | (True, w5) \<Rightarrow> (Inr finalDir, w5)))))))"

subsection \<open>apis add\<close>

record addOpts =
  ao_Dirs :: apisDirFlags
  ao_Renames :: "string list"
  ao_FromTarball :: string
  ao_FromDir :: string
  ao_RefOverride :: string
  ao_SkipAllowlist :: bool

fun parse_renames :: "string list \<Rightarrow> (string \<times> string) list \<Rightarrow> string + (string \<times> string) list" where
  "parse_renames [] out = Inr out"
| "parse_renames (raw # raws) out =
     (if CHR ''='' \<notin> set raw then Inl ''must be <upstream>=<local>''
      else (let (from, to) = cut_at (CHR ''='') raw; from = TrimSpace from; to = TrimSpace to
            in if from = [] \<or> to = [] then Inl ''empty side''
               else if map_of out from \<noteq> None then Inl ''already mapped''
               else parse_renames raws (out @ [(from, to)])))"

definition parseRenames :: "string list \<Rightarrow> string + (string \<times> string) list" where
  "parseRenames flags = parse_renames flags []"

definition mergeRenames :: "(string \<times> string) list \<Rightarrow> (string \<times> string) list \<Rightarrow> (string \<times> string) list" where
  "mergeRenames base extra = fold (\<lambda>kv out. upsert_by fst kv out) extra (fold (\<lambda>kv out. upsert_by fst kv out) base [])"

text \<open>What a command depends on besides its flags and the files: the codecs, the allowlist decoder, the HTTP client, the environment and the clock.\<close>

record cli_env =
  ce_codecs :: bundle_codecs
  ce_allow :: "string \<Rightarrow> string + string list"
  ce_Do :: http_get
  ce_getenv :: "string \<Rightarrow> string"
  ce_now :: int

definition newGitHubFetcher :: "cli_env \<Rightarrow> Fetcher" where
  "newGitHubFetcher E = NewFetcher (ce_getenv E) (ce_getenv E ''GITHUB_TOKEN'') [] []"

text \<open>\<^verbatim>\<open>os.MkdirTemp("", ...)\<close> uses the system's temporary directory.\<close>

definition TempDir :: "cli_env \<Rightarrow> string" where
  "TempDir E = (if ce_getenv E ''TMPDIR'' = [] then ''/tmp'' else ce_getenv E ''TMPDIR'')"

definition tarball_record :: "cli_env \<Rightarrow> Ref \<Rightarrow> string \<Rightarrow> (string \<times> string) list \<Rightarrow> SourceRecord" where
  "tarball_record E ref sha renames =
     \<lparr>sr_Ref = Ref_String ref, sr_ResolvedSHA = sha, sr_FetchedAt = whole_seconds (ce_now E), sr_APIRenames = renames\<rparr>"

definition install_extracted :: "cli_env \<Rightarrow> addOpts \<Rightarrow> string \<Rightarrow> (string \<times> string) list \<Rightarrow> string \<Rightarrow> fs_world \<Rightarrow> (string + string) \<times> fs_world" where
  "install_extracted E opts apisDir renames work w =
     (let C = ce_codecs E
      in case manifest_at C w work of
           Inl e \<Rightarrow> (Inl e, w)
         | Inr m \<Rightarrow>
             (case source_at C w work of
                Inl e \<Rightarrow> (Inl e, w)
              | Inr embedded \<Rightarrow>
                  (case ParseRef (if TrimSpace (ao_RefOverride opts) \<noteq> [] then ao_RefOverride opts else sr_Ref embedded) of
                     Inl _ \<Rightarrow> (Inl ''ref'', w)
                   | Inr ref \<Rightarrow>
                       (case enforceAllowlist (ce_allow E) w (df_DataDir (ao_Dirs opts)) ref (ao_SkipAllowlist opts) of
                          Some e \<Rightarrow> (Inl e, w)
                        | None \<Rightarrow>
                            (if \<not> IsFullSHA (sr_ResolvedSHA embedded) then (Inl ''resolved_sha is not a 40-char SHA'', w)
                             else stageInstall C apisDir (mf_Name m) ''.tmp.tarball.'' (copyTree work)
                                    (tarball_record E ref (sr_ResolvedSHA embedded) (mergeRenames (sr_APIRenames embedded) renames)) w)))))"

definition runAddFromTarball :: "cli_env \<Rightarrow> addOpts \<Rightarrow> string \<Rightarrow> (string \<times> string) list \<Rightarrow> fs_world \<Rightarrow> (string + string) \<times> fs_world" where
  "runAddFromTarball E opts apisDir renames w =
     (case os_ReadFile w (ao_FromTarball opts) of
        None \<Rightarrow> (Inl ''open'', w)
      | Some body \<Rightarrow>
          (case os_MkdirTemp (TempDir E) ''apis-from-tarball-'' w of
             (None, w1) \<Rightarrow> (Inl ''mkdtemp'', w1)
           | (Some work, w1) \<Rightarrow>
               (case (case ExtractTarGz (ce_codecs E) body work w1 of
                        (Some e, w2) \<Rightarrow> (Inl e, w2)
                      | (None, w2) \<Rightarrow> install_extracted E opts apisDir renames work w2) of
                  (r, w3) \<Rightarrow> (r, snd (do_op (RemoveAll work) w3)))))"

definition runAddFromDir :: "cli_env \<Rightarrow> addOpts \<Rightarrow> string \<Rightarrow> (string \<times> string) list \<Rightarrow> fs_world \<Rightarrow> (string + string) \<times> fs_world" where
  "runAddFromDir E opts apisDir renames w =
     (let srcDir = Clean (ao_FromDir opts); C = ce_codecs E
      in if ao_RefOverride opts = [] then (Inl ''--from-dir requires --ref'', w)
         else if os_Stat w srcDir \<noteq> Some Dir then (Inl ''not a directory'', w)
         else (case manifest_at C w srcDir of
                 Inl e \<Rightarrow> (Inl e, w)
               | Inr m \<Rightarrow>
                   (case ParseRef (ao_RefOverride opts) of
                      Inl _ \<Rightarrow> (Inl ''ref'', w)
                    | Inr ref \<Rightarrow>
                        (if rf_Version ref = [] then (Inl ''a version is required'', w)
                         else (case enforceAllowlist (ce_allow E) w (df_DataDir (ao_Dirs opts)) ref (ao_SkipAllowlist opts) of
                                 Some e \<Rightarrow> (Inl e, w)
                               | None \<Rightarrow>
                                   stageInstall C apisDir (mf_Name m) ''.tmp.from-dir.'' (copyTree srcDir)
                                     (tarball_record E ref (rf_Version ref) renames) w)))))"

definition runAdd :: "cli_env \<Rightarrow> string list \<Rightarrow> addOpts \<Rightarrow> fs_world \<Rightarrow> (string + string) \<times> fs_world" where
  "runAdd E args opts w =
     (if ao_FromTarball opts \<noteq> [] \<and> ao_FromDir opts \<noteq> [] then (Inl ''mutually exclusive'', w)
      else (case dirs_resolve w (ce_getenv E) (ao_Dirs opts) of
              Inl e \<Rightarrow> (Inl e, w)
            | Inr root \<Rightarrow>
                (case parseRenames (ao_Renames opts) of
                   Inl e \<Rightarrow> (Inl e, w)
                 | Inr renameMap \<Rightarrow>
                     (if ao_FromTarball opts \<noteq> [] then
                        (if args \<noteq> [] then (Inl ''does not accept a positional ref'', w) else runAddFromTarball E opts root renameMap w)
                      else if ao_FromDir opts \<noteq> [] then
                        (if args \<noteq> [] then (Inl ''does not accept a positional ref'', w) else runAddFromDir E opts root renameMap w)
                      else (case args of
                              [arg] \<Rightarrow>
                                (case ParseRef arg of
                                   Inl _ \<Rightarrow> (Inl ''ref'', w)
                                 | Inr r0 \<Rightarrow>
                                     (let ref = default_version r0
                                      in case enforceAllowlist (ce_allow E) w (df_DataDir (ao_Dirs opts)) ref (ao_SkipAllowlist opts) of
                                           Some e \<Rightarrow> (Inl e, w)
                                         | None \<Rightarrow> Install (ce_codecs E) (ce_Do E) (ce_now E) (newGitHubFetcher E) root ref renameMap w))
                            | _ \<Rightarrow> (Inl ''expected one ref argument'', w))))))"

subsection \<open>apis remove\<close>

definition runRemove :: "cli_env \<Rightarrow> string list \<Rightarrow> apisDirFlags \<Rightarrow> fs_world \<Rightarrow> string option \<times> fs_world" where
  "runRemove E args dirs w =
     (case args of
        [name] \<Rightarrow>
          (case dirs_resolve w (ce_getenv E) dirs of
             Inl e \<Rightarrow> (Some e, w)
           | Inr root \<Rightarrow>
               (let target = BundleDir root name
                in if Clean target \<noteq> target \<or> path_Dir target \<noteq> Clean root then (Some ''bundle name contains path separators'', w)
                   else if os_Stat w (path_Join target ManifestFile) = None then (Some ''no bundle named'', w)
                   else (case do_op (RemoveAll target) w of (False, w1) \<Rightarrow> (Some ''remove'', w1) | (True, w1) \<Rightarrow> (None, w1))))
      | _ \<Rightarrow> (Some ''expected one bundle-name argument'', w))"

subsection \<open>apis list\<close>

record installedBundle =
  ib_Name :: string
  ib_Ref :: string
  ib_ManifestVersion :: string
  ib_ResolvedSHA :: string
  ib_FetchedAt :: int
  ib_APICount :: nat
  ib_RenameCount :: nat
  ib_Path :: string

definition scan_one :: "bundle_codecs \<Rightarrow> fs_world \<Rightarrow> string \<Rightarrow> string + installedBundle" where
  "scan_one C w dir =
     (case manifest_at C w dir of
        Inl e \<Rightarrow> Inl e
      | Inr m \<Rightarrow>
          (case source_at C w dir of
             Inl e \<Rightarrow> Inl e
           | Inr s \<Rightarrow>
               Inr \<lparr>ib_Name = mf_Name m, ib_Ref = sr_Ref s, ib_ManifestVersion = mf_Version m, ib_ResolvedSHA = sr_ResolvedSHA s,
                    ib_FetchedAt = sr_FetchedAt s, ib_APICount = length (mf_APIs m), ib_RenameCount = length (sr_APIRenames s), ib_Path = dir\<rparr>))"

definition scanInstalledBundles :: "bundle_codecs \<Rightarrow> fs_world \<Rightarrow> string \<Rightarrow> string + installedBundle list" where
  "scanInstalledBundles C w root =
     (if os_Stat w root = None then Inr []
      else (case os_ReadDir w root of
              None \<Rightarrow> Inl ''readdir''
            | Some es \<Rightarrow>
                map_result (scan_one C w)
                  (sort (filter (\<lambda>dir. os_Stat w (path_Join dir ManifestFile) \<noteq> None)
                     (map (\<lambda>(n, _). path_Join root n) (filter (\<lambda>(n, d). d \<and> \<not> HasPrefix n ''.'') es))))))"

definition shortSHA :: "string \<Rightarrow> string" where
  "shortSHA s = ToLower (take 7 s)"

subsection \<open>apis upgrade\<close>

text \<open>
  The swap: the old directory is renamed aside, the new one into place, the old one removed; when the second rename
  fails the first is undone.  Every failure removes the staged directory \<open>tmp\<close>.
\<close>

definition swap_in :: "string \<Rightarrow> string \<Rightarrow> string \<Rightarrow> fs_world \<Rightarrow> string option \<times> fs_world" where
  "swap_in parent path tmp w =
     (let cleanup = (\<lambda>e w. (Some e, snd (do_op (RemoveAll tmp) w)))
      in case os_MkdirTemp parent ''.upgrade-old.'' w of
           (None, w1) \<Rightarrow> cleanup ''mkdtemp'' w1
         | (Some stale, w1) \<Rightarrow>
             (let staleDest = path_Join stale (path_Base path)
              in case do_op (Rename path staleDest) w1 of
                   (False, w2) \<Rightarrow> cleanup ''rename old aside'' (snd (do_op (RemoveAll stale) w2))
                 | (True, w2) \<Rightarrow>
                     (case do_op (Rename tmp path) w2 of
                        (False, w3) \<Rightarrow>
                          cleanup ''rename new into place'' (snd (do_op (RemoveAll stale) (snd (do_op (Rename staleDest path) w3))))
                      | (True, w3) \<Rightarrow> (None, snd (do_op (RemoveAll stale) w3)))))"

definition stage_upgrade :: "cli_env \<Rightarrow> Ref \<Rightarrow> string \<Rightarrow> installedBundle \<Rightarrow> string \<Rightarrow> string \<Rightarrow> fs_world \<Rightarrow> string option \<times> fs_world" where
  "stage_upgrade E ref newSHA row body tmp w =
     (let C = ce_codecs E
      in case ExtractTarGz C body tmp w of
           (Some e, w1) \<Rightarrow> (Some e, w1)
         | (None, w1) \<Rightarrow>
             (case manifest_at C w1 tmp of
                Inl e \<Rightarrow> (Some e, w1)
              | Inr _ \<Rightarrow>
                  (case source_at C w1 (ib_Path row) of
                     Inl e \<Rightarrow> (Some e, w1)
                   | Inr prevSrc \<Rightarrow>
                       WriteSource C (path_Join tmp SourceFile)
                         (prevSrc\<lparr>sr_Ref := Ref_String ref, sr_ResolvedSHA := newSHA, sr_FetchedAt := whole_seconds (ce_now E)\<rparr>) w1)))"

text \<open>A dry run looks at the difference of the manifests in a temporary directory and reports it; it cannot fail.\<close>

definition dryRunManifestDiff :: "cli_env \<Rightarrow> Ref \<Rightarrow> string \<Rightarrow> string \<Rightarrow> fs_world \<Rightarrow> (string + Manifest \<times> Manifest) \<times> fs_world" where
  "dryRunManifestDiff E ref sha oldDir w =
     (let C = ce_codecs E
      in case Download (ce_Do E) (newGitHubFetcher E) ref sha of
           Inl e \<Rightarrow> (Inl e, w)
         | Inr body \<Rightarrow>
             (case os_MkdirTemp (TempDir E) ''apis-dryrun-'' w of
                (None, w1) \<Rightarrow> (Inl ''mkdtemp'', w1)
              | (Some tmp, w1) \<Rightarrow>
                  (case (case ExtractTarGz C body tmp w1 of
                           (Some e, w2) \<Rightarrow> (Inl e, w2)
                         | (None, w2) \<Rightarrow>
                             (case manifest_at C w2 tmp of
                                Inl e \<Rightarrow> (Inl e, w2)
                              | Inr newM \<Rightarrow> (case manifest_at C w2 oldDir of Inl e \<Rightarrow> (Inl e, w2) | Inr oldM \<Rightarrow> (Inr (oldM, newM), w2)))) of
                     (r, w3) \<Rightarrow> (r, snd (do_op (RemoveAll tmp) w3)))))"

definition diffStringSlices :: "string list \<Rightarrow> string list \<Rightarrow> string list \<times> string list" where
  "diffStringSlices oldS newS =
     (sort (filter (\<lambda>v. v \<notin> set oldS) (remdups newS)), sort (filter (\<lambda>v. v \<notin> set newS) (remdups oldS)))"

definition summariseManifestDiff :: "Manifest \<Rightarrow> Manifest \<Rightarrow> string list" where
  "summariseManifestDiff oldM newM =
     (let (added, removed) = diffStringSlices (mf_APIs oldM) (mf_APIs newM)
      in (if mf_Version oldM \<noteq> mf_Version newM then [''version: '' @ mf_Version oldM @ '' -> '' @ mf_Version newM] else [])
         @ (if added \<noteq> [] then [''added apis: '' @ Join added '', ''] else [])
         @ (if removed \<noteq> [] then [''removed apis: '' @ Join removed '', ''] else []))"

definition upgradeOne :: "cli_env \<Rightarrow> Ref \<Rightarrow> installedBundle \<Rightarrow> bool \<Rightarrow> fs_world \<Rightarrow> string option \<times> fs_world" where
  "upgradeOne E ref row dryRun w =
     (if rf_Version ref = [] then (Some ''ref lacks a version'', w)
      else (case ResolveSHA (ce_Do E) (newGitHubFetcher E) ref of
              Inl e \<Rightarrow> (Some e, w)
            | Inr newSHA \<Rightarrow>
                (if ToLower newSHA = ToLower (ib_ResolvedSHA row) then (None, w)
                 else if dryRun then (None, snd (dryRunManifestDiff E ref newSHA (ib_Path row) w))
                 else (case Download (ce_Do E) (newGitHubFetcher E) ref newSHA of
                         Inl e \<Rightarrow> (Some e, w)
                       | Inr body \<Rightarrow>
                           (let parent = path_Dir (ib_Path row)
                            in case os_MkdirTemp parent ''.tmp.upgrade.'' w of
                                 (None, w1) \<Rightarrow> (Some ''mkdtemp'', w1)
                               | (Some tmp, w1) \<Rightarrow>
                                   (case stage_upgrade E ref newSHA row body tmp w1 of
                                      (Some e, w2) \<Rightarrow> (Some e, snd (do_op (RemoveAll tmp) w2))
                                    | (None, w2) \<Rightarrow> swap_in parent (ib_Path row) tmp w2))))))"

fun upgrade_rows :: "cli_env \<Rightarrow> string \<Rightarrow> bool \<Rightarrow> installedBundle list \<Rightarrow> bool \<Rightarrow> fs_world \<Rightarrow> (string + bool) \<times> fs_world" where
  "upgrade_rows E wantName dryRun [] matched w = (Inr matched, w)"
| "upgrade_rows E wantName dryRun (row # rows) matched w =
     (case ParseRef (ib_Ref row) of
        Inl _ \<Rightarrow> (Inl ''source ref'', w)
      | Inr ref \<Rightarrow>
          (if wantName \<noteq> [] \<and> ib_Name row \<noteq> wantName then upgrade_rows E wantName dryRun rows matched w
           else (case upgradeOne E ref row dryRun w of
                   (Some e, w1) \<Rightarrow> (Inl e, w1)
                 | (None, w1) \<Rightarrow> upgrade_rows E wantName dryRun rows True w1)))"

definition runUpgrade :: "cli_env \<Rightarrow> string list \<Rightarrow> apisDirFlags \<Rightarrow> bool \<Rightarrow> fs_world \<Rightarrow> string option \<times> fs_world" where
  "runUpgrade E args dirs dryRun w =
     (case dirs_resolve w (ce_getenv E) dirs of
        Inl e \<Rightarrow> (Some e, w)
      | Inr root \<Rightarrow>
          (case scanInstalledBundles (ce_codecs E) w root of
             Inl e \<Rightarrow> (Some e, w)
           | Inr rows \<Rightarrow>
               (if rows = [] then (None, w)
                else (let wantName = (case args of [] \<Rightarrow> [] | a # _ \<Rightarrow> a)
                      in case upgrade_rows E wantName dryRun rows False w of
                           (Inl e, w1) \<Rightarrow> (Some e, w1)
                         | (Inr matched, w1) \<Rightarrow> (if wantName \<noteq> [] \<and> \<not> matched then Some ''no installed bundle named'' else None, w1)))))"

subsection \<open>apis fetch and apis pack\<close>

definition runFetch :: "cli_env \<Rightarrow> string list \<Rightarrow> string \<Rightarrow> string \<Rightarrow> bool \<Rightarrow> fs_world \<Rightarrow> string option \<times> fs_world" where
  "runFetch E args output dataDir skipAllowlist w =
     (case args of
        [arg] \<Rightarrow>
          (if output = [] then (Some ''--output is required'', w)
           else (case ParseRef arg of
                   Inl _ \<Rightarrow> (Some ''ref'', w)
                 | Inr ref \<Rightarrow>
                     (if rf_Version ref = [] then (Some ''a version is required'', w)
                      else (case enforceAllowlist (ce_allow E) w dataDir ref skipAllowlist of
                              Some e \<Rightarrow> (Some e, w)
                            | None \<Rightarrow>
                                (case os_MkdirTemp (TempDir E) ''apis-fetch-'' w of
                                   (None, w1) \<Rightarrow> (Some ''mkdtemp'', w1)
                                 | (Some work, w1) \<Rightarrow>
                                     (case (case Stage (ce_codecs E) (ce_Do E) (ce_now E) (newGitHubFetcher E) ref work [] w1 of
                                              (Inl e, w2) \<Rightarrow> (Some e, w2)
                                            | (Inr sha, w2) \<Rightarrow> WriteTarball (ce_codecs E) output work (rf_Repo ref @ ''-'' @ sha) w2) of
                                        (r, w3) \<Rightarrow> (r, snd (do_op (RemoveAll work) w3))))))))
      | _ \<Rightarrow> (Some ''expected one ref argument'', w))"

text \<open>The files as the boot loader reads them; the decoder of the API documents is an argument.\<close>

definition files_of :: "bundle_codecs \<Rightarrow> (string \<Rightarrow> string + API list) \<Rightarrow> fs_world \<Rightarrow> bundle_files" where
  "files_of C docs w =
     \<lparr>bf_ReadDir = (\<lambda>p. Inr (os_ReadDir w p)), bf_Stat = (\<lambda>p. map_option (\<lambda>n. n = Dir) (os_Stat w p)),
      bf_docs = read_yaml docs w, bf_manifest = read_yaml (cd_manifest C) w, bf_source = read_yaml (cd_source C) w,
      bf_readme = (\<lambda>p. case os_ReadFile w p of None \<Rightarrow> [] | Some b \<Rightarrow> b)\<rparr>"

definition pack_stage :: "cli_env \<Rightarrow> Ref \<Rightarrow> Manifest \<Rightarrow> string \<Rightarrow> string \<Rightarrow> string \<Rightarrow> fs_world \<Rightarrow> string option \<times> fs_world" where
  "pack_stage E ref m srcDir output stage w =
     (case copyTree srcDir stage w of
        (Some e, w1) \<Rightarrow> (Some e, w1)
      | (None, w1) \<Rightarrow>
          (case WriteSource (ce_codecs E) (path_Join stage SourceFile) (tarball_record E ref (ContentSHA (ce_codecs E) w1 stage) []) w1 of
             (Some e, w2) \<Rightarrow> (Some e, w2)
           | (None, w2) \<Rightarrow> WriteTarball (ce_codecs E) output stage (mf_Name m @ ''-'' @ mf_Version m) w2))"

definition runPack :: "cli_env \<Rightarrow> string list \<Rightarrow> string \<Rightarrow> string \<Rightarrow> fs_world \<Rightarrow> string option \<times> fs_world" where
  "runPack E args output refStr w =
     (case args of
        [arg] \<Rightarrow>
          (if output = [] then (Some ''--output is required'', w)
           else if refStr = [] then (Some ''--ref is required'', w)
           else (case ParseRef refStr of
                   Inl _ \<Rightarrow> (Some ''ref'', w)
                 | Inr ref \<Rightarrow>
                     (let srcDir = Clean arg; C = ce_codecs E
                      in if os_Stat w srcDir \<noteq> Some Dir then (Some ''not a directory'', w)
                         else (case manifest_at C w srcDir of
                                 Inl e \<Rightarrow> (Some e, w)
                               | Inr m \<Rightarrow>
                                   (if \<not> list_all (\<lambda>rel. is_ok (ResolveManifestEntry (files_of C (\<lambda>_. Inr []) w) srcDir rel)) (mf_APIs m)
                                    then (Some ''manifest entry'', w)
                                    else (case os_MkdirTemp (TempDir E) ''apis-pack-'' w of
                                            (None, w1) \<Rightarrow> (Some ''mkdtemp'', w1)
                                          | (Some stage, w1) \<Rightarrow>
                                              (case pack_stage E ref m srcDir output stage w1 of
                                                 (r, w2) \<Rightarrow> (r, snd (do_op (RemoveAll stage) w2)))))))))
      | _ \<Rightarrow> (Some ''expected one directory argument'', w))"

section \<open>Staged installs\<close>

text \<open>The contract of the function that fills the temporary directory of a staged install: it stays in it.\<close>

locale stager =
  fixes stage :: "string \<Rightarrow> fs_world \<Rightarrow> string option \<times> fs_world"
  assumes stage_runs: "d \<noteq> [] \<Longrightarrow> stage d w = (r, w') \<Longrightarrow> runs (op_in (fkey d)) w w'"
begin

lemma stageInstall_steps:
  assumes "stageInstall C apisDir name pre stage src w = (r, w')" "apisDir \<noteq> []" "rand_ok w"
    and pre: "\<And>n. slash \<notin> set n \<Longrightarrow> plain_name (pre @ n)"
  shows "\<exists>tmp n v. fkey tmp = fkey apisDir @ [pre @ n] \<and> crash_safe (fkey tmp) w v
           \<and> (case r of
                Inl _ \<Rightarrow> v = w'
              | Inr final \<Rightarrow>
                  final = BundleDir apisDir name \<and> os_Stat w final = None \<and> do_op (Rename tmp final) v = (True, w')
                  \<and> map_of (w_fs v) (fkey tmp) = Some Dir \<and> (source_codec C \<longrightarrow> source_at C w' final = Inr src))"
proof -
  let ?final = "BundleDir apisDir name"
  obtain ok1 w1 where 1: "do_op (MkdirAll apisDir) w = (ok1, w1)" by fastforce
  obtain t2 w2 where 2: "os_MkdirTemp apisDir pre w1 = (t2, w2)" by fastforce
  have "plain_name (pre @ w_rand w (w_log w1))" using assms(3) pre by (simp add: rand_ok_def)
  then obtain tmp where tmp: "fkey tmp = fkey apisDir @ [pre @ w_rand w (w_log w1)]" "tmp \<noteq> []" "proper_dir tmp"
    "t2 = None \<or> t2 = Some tmp" "crash_safe (fkey tmp) w w1" "crash_safe (fkey tmp) w w2" "w_rand w2 = w_rand w"
    "t2 = Some tmp \<Longrightarrow> map_of (w_fs w2) (fkey tmp) = Some Dir"
    using mkdtemp_safe [OF 1 2 assms(2)] by metis
  obtain e3 w3 where 3: "stage tmp w2 = (e3, w3)" by fastforce
  note r3 = stage_runs [OF tmp(2) 3]
  have rk3: "rand_ok w3" using assms(3) tmp(7) runs_rand [OF r3] by (simp add: rand_ok_def)
  obtain e4 w4 where 4: "WriteSource C (path_Join tmp SourceFile) src w3 = (e4, w4)" by fastforce
  note r4 = runs_trans [OF r3 WriteSource_runs [OF 4 tmp(2) rk3]]
  obtain ok5 w5 where 5: "do_op (Rename tmp ?final) w4 = (ok5, w5)" by fastforce
  have c3: "crash_safe (fkey tmp) w w3" and c4: "crash_safe (fkey tmp) w w4"
    using crash_safe_trans [OF tmp(6)] crash_safe_runs r3 r4 by blast+
  have c5: "crash_safe (fkey tmp) w w5" if "\<not> ok5" using crash_safe_trans [OF c4] crash_safe_failed 5 that by simp
  note run = assms(1) [unfolded stageInstall_def Let_def]
  show ?thesis
  proof (cases "os_Stat w ?final = None \<and> ok1 \<and> t2 = Some tmp \<and> e3 = None \<and> e4 = None \<and> ok5")
    case True
    then have rw: "r = Inr ?final" "w' = w5" using run 1 2 3 4 5 by auto
    have "source_at C w5 ?final = source_at C w4 tmp"
      using load_moved(2) [of tmp ?final w4 w5 C] 5 True tmp(2) BundleDir_not_Nil [OF assms(2)] by simp
    then have "source_codec C \<longrightarrow> source_at C w5 ?final = Inr src" using WriteSource_loads [of C tmp src w3 w4] 4 True tmp(2) rk3 by simp
    moreover have "map_of (w_fs w4) (fkey tmp) = Some Dir" using runs_keeps_dir [OF r4] tmp(8) True by simp
    ultimately show ?thesis
      using rw True 5 c4 tmp(1) by (intro exI [of _ tmp] exI [of _ "w_rand w (w_log w1)"] exI [of _ w4]) simp
  next
    case False
    then have "\<exists>e. r = Inl e"
      "w' \<in> {w, w1, w2, snd (do_op (RemoveAll tmp) w3), snd (do_op (RemoveAll tmp) w4)} \<or> \<not> ok5 \<and> w' = snd (do_op (RemoveAll tmp) w5)"
      using run 1 2 3 4 5 tmp(4) by (auto split: bool.splits option.splits if_splits)
    moreover from this have "crash_safe (fkey tmp) w w'"
      using tmp(5,6) cleanup_safe [OF c3] cleanup_safe [OF c4] cleanup_safe [OF c5] by auto
    ultimately show ?thesis using tmp(1) by fastforce
  qed
qed

end

lemma copy_entries_runs:
  assumes "d \<noteq> []" "\<forall>(rel, n) \<in> set xs. list_all plain_name rel" "copy_entries rootName d skip xs w = (r, w')"
  shows "runs (op_in (fkey d)) w w'"
  using assms(2,3)
proof (induction xs arbitrary: skip w)
  case (Cons x xs)
  obtain rel n where x: "x = (rel, n)" by fastforce
  let ?p = "path_Join d (Join rel ''/'')"
  have b: "below (fkey d) (fkey ?p)" using Cons.prems(1) assms(1) by (simp add: x fkey_Join_names below_names)
  have IH: "copy_entries rootName d skip' xs v = (r, w') \<Longrightarrow> runs (op_in (fkey d)) v w'" for skip' v
    using Cons.IH Cons.prems(1) by simp
  obtain ok1 w1 where 1: "do_op (MkdirAll ?p) w = (ok1, w1)" by fastforce
  obtain ok2 w2 where 2: "do_op (OpenFile ?p) w = (ok2, w2)" by fastforce
  have r: "runs (op_in (fkey d)) w w1" "runs (op_in (fkey d)) w w2" using b by (auto intro: runs_op [OF 1] runs_op [OF 2])
  show ?case
  proof (cases n)
    case Dir
    then show ?thesis using Cons.prems(2) IH 1 r(1) by (cases ok1) (auto simp: x split: if_splits intro: runs_trans)
  next
    case (File body)
    obtain ok3 w3 where 3: "do_op (WriteFile ?p body) w2 = (ok3, w3)" by fastforce
    have "runs (op_in (fkey d)) w w3" using b by (intro runs_step [OF r(2) 3]) simp
    then show ?thesis using Cons.prems(2) IH 2 3 r(2) File
      by (cases ok2; cases ok3) (auto simp: x split: if_splits intro: runs_trans)
  qed (use Cons.prems(2) IH in \<open>auto simp: x split: if_splits\<close>)
qed simp

interpretation copier: stager "copyTree src" for src
  by unfold_locales (auto simp: copyTree_def intro!: copy_entries_runs dest: walk_names)

section \<open>Swapping a bundle\<close>

text \<open>The tree at a key.\<close>

definition tree_at :: "fs \<Rightarrow> string list \<Rightarrow> string list \<Rightarrow> node option" where
  "tree_at fs k = (\<lambda>q. map_of fs (k @ q))"

lemma tree_frame: "(\<And>q. \<not> op_at op (k @ q)) \<Longrightarrow> tree_at (w_fs (snd (do_op op w))) k = tree_at (w_fs w) k"
  unfolding tree_at_def by (rule ext) (metis do_op_frame prod.collapse)

lemma tree_moved:
  assumes "do_op (Rename a b) w = (True, w')"
  shows "tree_at (w_fs w') (fkey b) = tree_at (w_fs w) (fkey a)" "tree_at (w_fs w') (fkey a) = (\<lambda>_. None)"
proof -
  have w': "w_fs w' = move_tree (fkey a) (fkey b) (w_fs w)" and np: "\<not> prefix (fkey a) (fkey b)" "\<not> prefix (fkey b) (fkey a)"
    using assms by (auto simp: do_op_def split: if_splits)
  have "\<not> prefix (fkey b) (fkey a @ q)" for q using np prefix_same_cases [of "fkey a" "fkey a @ q" "fkey b"] by auto
  then show "tree_at (w_fs w') (fkey b) = tree_at (w_fs w) (fkey a)" "tree_at (w_fs w') (fkey a) = (\<lambda>_. None)"
    by (auto simp: tree_at_def w' map_of_move [OF np])
qed

lemma moved_away: "op_ok fs (Rename a b) \<Longrightarrow> list_all (\<lambda>(q, _). \<not> strict_prefix (fkey a) q) (apply_op (Rename a b) fs)"
proof -
  assume "op_ok fs (Rename a b)"
  then have np: "\<not> prefix (fkey a) (fkey b)" "\<not> prefix (fkey b) (fkey a)" by simp_all
  have "\<not> strict_prefix (fkey a) (fkey b @ x)" for x
    using np prefix_same_cases [of "fkey a" "fkey b @ x" "fkey b"] by (auto dest: prefix_order.strict_implies_order)
  then show ?thesis by (auto simp: move_tree_def list_all_iff dest: prefix_order.strict_implies_order)
qed

text \<open>The three names of a swap in one directory.\<close>

definition swap_names :: "string \<Rightarrow> string \<Rightarrow> string \<Rightarrow> fs_world \<Rightarrow> bool" where
  "swap_names parent path tmp w \<longleftrightarrow>
     (\<exists>n t. parent \<noteq> [] \<and> fkey path = fkey parent @ [n] \<and> fkey tmp = fkey parent @ [t] \<and> plain_name (path_Base path)
        \<and> distinct [n, t, ''.upgrade-old.'' @ w_rand w (w_log w)]) \<and> rand_ok w \<and> map_of (w_fs w) (fkey path) = Some Dir"

text \<open>A world in which renaming a directory back to \<open>path\<close> is not refused.\<close>

definition rollback_works :: "string \<Rightarrow> string \<Rightarrow> fs_world \<Rightarrow> bool" where
  "rollback_works path tmp w \<longleftrightarrow> (\<forall>l a. a \<noteq> tmp \<longrightarrow> \<not> w_fails w l (Rename a path))"

text \<open>A run all of whose states, from the first to the last, satisfy \<open>I\<close>.\<close>

definition always :: "(fs \<Rightarrow> bool) \<Rightarrow> fs_world \<Rightarrow> fs_world \<Rightarrow> bool" where
  "always I w w' \<longleftrightarrow> (\<exists>ops. w' = run_ops ops w \<and> (\<forall>k. I (w_fs (run_ops (take k ops) w))))"

lemma always_refl: "I (w_fs w) \<Longrightarrow> always I w w"
  by (auto simp: always_def run_ops_def intro: exI [of _ "[]"])

lemma always_step:
  assumes "always I w w1" "I (w_fs (snd (do_op op w1)))"
  shows "always I w (snd (do_op op w1))"
proof -
  obtain ops where ops: "w1 = run_ops ops w" "\<And>k. I (w_fs (run_ops (take k ops) w))" using assms(1) by (auto simp: always_def)
  have "I (w_fs (run_ops (take k (ops @ [op])) w))" for k
    using ops assms(2) by (cases "k \<le> length ops") (simp_all add: run_ops_def)
  then show ?thesis unfolding always_def using ops(1) by (intro exI [of _ "ops @ [op]"]) (simp add: run_ops_def)
qed

lemma always_step_eq: "always I w w1 \<Longrightarrow> do_op op w1 = (ok, w2) \<Longrightarrow> I (w_fs w2) \<Longrightarrow> always I w w2"
  using always_step [of I w w1 op] by simp

lemma do_op_failed: "do_op op w = (False, w') \<Longrightarrow> w_fs w' = w_fs w"
  by (auto simp: do_op_def split: if_splits)

lemma rollback_ok:
  assumes "do_op (Rename path sd) w1 = (True, w2)" "do_op (Rename tmp path) w2 = (False, w3)" "do_op (Rename sd path) w3 = (ok4, w4)"
    and "map_of (w_fs w1) (fkey path) = Some Dir" "is_dir (w_fs w2) (butlast (fkey path))" "rollback_works path tmp w3" "sd \<noteq> tmp"
  shows "ok4"
proof -
  have r1: "op_ok (w_fs w1) (Rename path sd)" "w_fs w2 = apply_op (Rename path sd) (w_fs w1)"
    using assms(1) by (auto simp: do_op_def split: if_splits)
  then have np: "\<not> prefix (fkey path) (fkey sd)" "\<not> prefix (fkey sd) (fkey path)" by simp_all
  have t: "map_of (w_fs w2) (fkey sd) = Some Dir" "map_of (w_fs w2) (fkey path) = None"
    using tree_moved [OF assms(1)] assms(4) by (simp_all add: tree_at_def fun_eq_iff) (metis append_Nil2)+
  have "op_ok (w_fs w2) (Rename sd path)"
    using t np assms(5) moved_away [OF r1(1)] by (simp add: r1(2) del: apply_op.simps)
  then show ?thesis using assms(3,6,7) do_op_failed [OF assms(2)] by (auto simp: do_op_def rollback_works_def split: if_splits)
qed

lemma swap_in_outcome:
  assumes "swap_in parent path tmp w = (e, w')" "swap_names parent path tmp w"
  defines "old \<equiv> tree_at (w_fs w) (fkey path)" and "new \<equiv> tree_at (w_fs w) (fkey tmp)"
  shows "always (\<lambda>fs. tree_at fs (fkey path) \<in> {old, (\<lambda>_. None), new}) w w'"
    and "e = None \<Longrightarrow> tree_at (w_fs w') (fkey path) = new"
    and "e \<noteq> None \<Longrightarrow> rollback_works path tmp w \<Longrightarrow> tree_at (w_fs w') (fkey path) = old"
proof -
  obtain n t where k: "parent \<noteq> []" "fkey path = fkey parent @ [n]" "fkey tmp = fkey parent @ [t]" "plain_name (path_Base path)"
    "n \<noteq> t" "n \<noteq> ''.upgrade-old.'' @ w_rand w (w_log w)" "t \<noteq> ''.upgrade-old.'' @ w_rand w (w_log w)"
    and rk: "rand_ok w" and pd: "map_of (w_fs w) (fkey path) = Some Dir"
    using assms(2) by (auto simp: swap_names_def)
  define stale where "stale = temp_path parent ''.upgrade-old.'' w"
  define sd where "sd = path_Join stale (path_Base path)"
  let ?s = "''.upgrade-old.'' @ w_rand w (w_log w)"
  have pl: "plain_name ?s" using rk by (simp add: plain_name_def rand_ok_def)
  have ks: "fkey stale = fkey parent @ [?s]" using fkey_temp [of parent "''.upgrade-old.''" w "[]"] k(1) pl by (simp add: stale_def)
  then have "stale \<noteq> []" by auto
  then have ksd: "fkey sd = fkey parent @ [?s, path_Base path]" using fkey_Join [OF _ k(4)] ks by (simp add: sd_def)
  let ?I = "\<lambda>fs. tree_at fs (fkey path) \<in> {old, (\<lambda>_. None), new}"
  obtain ok1 w1 where 1: "do_op (MkdirTemp stale) w = (ok1, w1)" by fastforce
  obtain ok2 w2 where 2: "do_op (Rename path sd) w1 = (ok2, w2)" by fastforce
  obtain ok3 w3 where 3: "do_op (Rename tmp path) w2 = (ok3, w3)" by fastforce
  obtain ok4 w4 where 4: "do_op (Rename sd path) w3 = (ok4, w4)" by fastforce
  have rmS: "tree_at (w_fs (snd (do_op (RemoveAll stale) v))) (fkey path) = tree_at (w_fs v) (fkey path)" for v
    by (rule tree_frame) (use k ks in auto)
  have rmT: "tree_at (w_fs (snd (do_op (RemoveAll tmp) v))) (fkey path) = tree_at (w_fs v) (fkey path)" for v
    by (rule tree_frame) (use k in auto)
  have t1: "tree_at (w_fs w1) (fkey path) = old" "tree_at (w_fs w1) (fkey tmp) = new"
    using tree_frame [of "MkdirTemp stale" "fkey path" w] tree_frame [of "MkdirTemp stale" "fkey tmp" w] 1 k ks
    by (auto simp: old_def new_def)
  have t2: "tree_at (w_fs w2) (fkey path) = (if ok2 then (\<lambda>_. None) else old)" "tree_at (w_fs w2) (fkey tmp) = new"
    "ok2 \<Longrightarrow> tree_at (w_fs w2) (fkey sd) = old"
    using tree_moved [of path sd w1 w2] do_op_failed [of "Rename path sd" w1 w2] tree_frame [of "Rename path sd" "fkey tmp" w1] 2 t1 k ksd
    by (cases ok2; auto)+
  have t3: "tree_at (w_fs w3) (fkey path) = (if ok3 then new else (\<lambda>_. None))" if "ok2"
    using tree_moved [of tmp path w2 w3] do_op_failed [of "Rename tmp path" w2 w3] 3 t2 that by (cases ok3) auto
  have t4: "tree_at (w_fs w4) (fkey path) = (if ok4 then old else (\<lambda>_. None))" if "ok2" "\<not> ok3"
    using tree_moved [of sd path w3 w4] do_op_failed [of "Rename sd path" w3 w4] do_op_failed [of "Rename tmp path" w2 w3] 3 4 t2 t3 that
    by (cases ok4) auto
  have undone: "ok4" if "ok1" "ok2" "\<not> ok3" "rollback_works path tmp w"
  proof (rule rollback_ok [of path sd w1 w2 tmp w3 ok4 w4])
    have "tree_at (w_fs w1) (fkey path) [] = old []" using t1 by simp
    then show "map_of (w_fs w1) (fkey path) = Some Dir" using pd by (simp add: tree_at_def old_def)
    have "is_dir (w_fs w) (fkey parent)" using 1 that(1) ks by (auto simp: do_op_def split: if_splits)
    moreover have "map_of (w_fs w2) (fkey parent) = map_of (w_fs w) (fkey parent)"
      using do_op_frame [OF 1, of "fkey parent"] do_op_frame [OF 2, of "fkey parent"] k ks ksd by (auto dest: prefix_length_le)
    ultimately show "is_dir (w_fs w2) (butlast (fkey path))" using k by (simp add: is_dir_def)
    show "rollback_works path tmp w3" using that(4) do_op_env [OF 1] do_op_env [OF 2] do_op_env [OF 3] by (simp add: rollback_works_def)
    show "sd \<noteq> tmp" using k(3) ksd by auto
  qed (use 2 3 4 that in auto)
  have a1: "always ?I w w1" using always_step_eq [OF always_refl 1, of ?I] t1 by (auto simp: old_def)
  then have a2: "always ?I w w2" by (rule always_step_eq [OF _ 2]) (use t2 in auto)
  then have a3: "ok2 \<Longrightarrow> always ?I w w3" by (rule always_step_eq [OF _ 3]) (use t3 in auto)
  then have a4: "ok2 \<Longrightarrow> \<not> ok3 \<Longrightarrow> always ?I w w4" by (rule always_step_eq [OF _ 4]) (use t4 in auto)
  have S: "always ?I w v \<Longrightarrow> ?I (w_fs v) \<Longrightarrow> always ?I w (snd (do_op (RemoveAll stale) v))" for v by (rule always_step) (auto simp: rmS)
  have T: "always ?I w v \<Longrightarrow> ?I (w_fs v) \<Longrightarrow> always ?I w (snd (do_op (RemoveAll tmp) v))" for v by (rule always_step) (auto simp: rmT)
  have mk: "os_MkdirTemp parent ''.upgrade-old.'' w = (if ok1 then Some stale else None, w1)"
    using 1 by (simp add: os_MkdirTemp_def Let_def stale_def)
  note run = assms(1) [unfolded swap_in_def Let_def mk]
  consider "\<not> ok1" "e \<noteq> None" "w' = snd (do_op (RemoveAll tmp) w1)"
    | "ok1" "\<not> ok2" "e \<noteq> None" "w' = snd (do_op (RemoveAll tmp) (snd (do_op (RemoveAll stale) w2)))"
    | "ok1" "ok2" "ok3" "e = None" "w' = snd (do_op (RemoveAll stale) w3)"
    | "ok1" "ok2" "\<not> ok3" "e \<noteq> None" "w' = snd (do_op (RemoveAll tmp) (snd (do_op (RemoveAll stale) w4)))"
    using run 2 3 4 by (cases ok1; cases ok2; cases ok3) (auto simp: sd_def)
  note out = this
  show "always ?I w w'" by (cases rule: out) (use a1 a2 a3 a4 S T t1 t2 t3 t4 in \<open>auto simp: rmS\<close>)
  show "e = None \<Longrightarrow> tree_at (w_fs w') (fkey path) = new" by (cases rule: out) (use t3 in \<open>auto simp: rmS\<close>)
  show "e \<noteq> None \<Longrightarrow> rollback_works path tmp w \<Longrightarrow> tree_at (w_fs w') (fkey path) = old"
    by (cases rule: out) (use t1 t2 t4 undone in \<open>auto simp: rmS rmT\<close>)
qed

lemma read_tree:
  assumes "tree_at (w_fs w') (fkey a) = tree_at (w_fs v) (fkey b)" "a \<noteq> []" "b \<noteq> []" "plain_name n"
  shows "os_ReadFile w' (path_Join a n) = os_ReadFile v (path_Join b n)"
proof -
  have "map_of (w_fs w') (fkey a @ [n]) = map_of (w_fs v) (fkey b @ [n])" using fun_cong [OF assms(1), of "[n]"] by (simp add: tree_at_def)
  then show ?thesis using assms(2-4) by (simp add: os_ReadFile_def fkey_Join)
qed

lemma source_tree:
  "tree_at (w_fs w') (fkey a) = tree_at (w_fs v) (fkey b) \<Longrightarrow> a \<noteq> [] \<Longrightarrow> b \<noteq> [] \<Longrightarrow> source_at C w' a = source_at C v b"
  using read_tree [of w' a v b SourceFile] by (simp add: LoadSource_def read_yaml_def)

lemma stage_upgrade_runs:
  assumes "stage_upgrade E ref sha row body tmp w = (e, w')" "tmp \<noteq> []" "proper_dir tmp" "rand_ok w"
  shows "runs (op_in (fkey tmp)) w w'"
    and "e = None \<Longrightarrow> source_codec (ce_codecs E) \<Longrightarrow>
       \<exists>v prev. runs (op_in (fkey tmp)) w v \<and> source_at (ce_codecs E) v (ib_Path row) = Inr prev
         \<and> source_at (ce_codecs E) w' tmp = Inr (prev\<lparr>sr_Ref := Ref_String ref, sr_ResolvedSHA := sha, sr_FetchedAt := whole_seconds (ce_now E)\<rparr>)"
proof -
  let ?C = "ce_codecs E"
  obtain e1 w1 where 1: "ExtractTarGz ?C body tmp w = (e1, w1)" by fastforce
  note r1 = Extract_runs [OF 1 assms(3)]
  have rk: "rand_ok w1" using assms(4) runs_rand [OF r1] by (simp add: rand_ok_def)
  consider "w' = w1" "e \<noteq> None"
    | prev where "source_at ?C w1 (ib_Path row) = Inr prev"
      "WriteSource ?C (path_Join tmp SourceFile) (prev\<lparr>sr_Ref := Ref_String ref, sr_ResolvedSHA := sha, sr_FetchedAt := whole_seconds (ce_now E)\<rparr>) w1 = (e, w')"
    using assms(1) 1 by (auto simp: stage_upgrade_def Let_def split: option.splits sum.splits)
  note out = this
  show "runs (op_in (fkey tmp)) w w'"
    by (cases rule: out) (use r1 runs_trans [OF r1 WriteSource_runs [OF _ assms(2) rk]] in auto)
  show "e = None \<Longrightarrow> source_codec ?C \<Longrightarrow>
       \<exists>v prev. runs (op_in (fkey tmp)) w v \<and> source_at ?C v (ib_Path row) = Inr prev
         \<and> source_at ?C w' tmp = Inr (prev\<lparr>sr_Ref := Ref_String ref, sr_ResolvedSHA := sha, sr_FetchedAt := whole_seconds (ce_now E)\<rparr>)"
    by (cases rule: out) (use r1 WriteSource_loads [OF _ assms(2) rk] in auto)
qed

lemma sibling_tree:
  assumes "crash_safe (d @ [t]) w v" "n \<noteq> t"
  shows "tree_at (w_fs v) (d @ [n]) = tree_at (w_fs w) (d @ [n])"
proof
  fix q
  have "\<not> prefix (d @ [t]) (d @ [n] @ q)" "\<not> prefix (d @ [n] @ q) (d @ [t])" using assms(2) by (auto simp: prefix_def)
  then show "tree_at (w_fs v) (d @ [n]) q = tree_at (w_fs w) (d @ [n]) q"
    using crash_safe_confined [OF assms(1)] unfolding confined_def tree_at_def append_assoc by metis
qed

lemma path_Base_Join: "d \<noteq> [] \<Longrightarrow> plain_name n \<Longrightarrow> path_Base (path_Join d n) = n"
proof -
  assume a: "d \<noteq> []" "plain_name n"
  have "path_segs (d @ ''/'' @ n) \<noteq> []" "last (path_segs (d @ ''/'' @ n)) = n"
    using a by (simp_all add: path_segs_def Split_append_sep Split_no_sep_id plain_name_def clean_segs_snoc)
  then show ?thesis using a by (simp add: path_Base_def path_Join_def Split_Clean)
qed

lemma remove_tmp_tree: "n \<noteq> t \<Longrightarrow> fkey tmp = d @ [t] \<Longrightarrow> tree_at (w_fs (snd (do_op (RemoveAll tmp) v))) (d @ [n]) = tree_at (w_fs v) (d @ [n])"
  by (rule tree_frame) auto


definition ex_env :: cli_env where
  "ex_env = \<lparr>ce_codecs = ex_bundle_codecs, ce_allow = (\<lambda>b. if b = ''l'' then Inr [''github.com/o/*''] else Inl ''yaml''),
     ce_Do = (\<lambda>_ _. Inr (200, [])), ce_getenv = (\<lambda>_. []), ce_now = 0\<rparr>"

definition ex_row :: installedBundle where
  "ex_row = \<lparr>ib_Name = ''b'', ib_Ref = Ref_String ex_ref, ib_ManifestVersion = ''1'', ib_ResolvedSHA = ''0'', ib_FetchedAt = 0,
     ib_APICount = 1, ib_RenameCount = 0, ib_Path = path_Join ''/a'' ''b''\<rparr>"

definition ex_installed :: fs_world where
  "ex_installed = ex_empty_world\<lparr>w_fs := [([''/'', ''a''], Dir), ([''/'', ''a'', ''b''], Dir), ([''/'', ''a'', ''b'', SourceFile], File ''s''),
     ([''/'', ''a'', ''b'', ManifestFile], File ''m''), ([''/'', ''a'', ''b'', ''old.yaml''], File ''x'')]\<rparr>"


text \<open>Two ways an upgrade can lose the bundle.  Killed between its two renames it leaves no bundle at the path, only a hidden
  copy; and when the second rename and the rollback both fail, the copy is removed as well.\<close>

definition ex_refusing :: fs_world where
  "ex_refusing = ex_installed\<lparr>w_fs := w_fs ex_installed @ [([''/'', ''a'', ''.tmp.upgrade.1''], Dir)],
     w_fails := (\<lambda>_ op. case op of Rename _ b \<Rightarrow> b = ''/a/b'' | _ \<Rightarrow> False)\<rparr>"

lemma killed_upgrade_gap:
  "map_of (w_fs (run_ops [MkdirTemp ''/a/.upgrade-old.1'', Rename ''/a/b'' ''/a/.upgrade-old.1/b''] ex_installed)) (fkey ''/a/b'') = None
   \<and> scanInstalledBundles ex_bundle_codecs (run_ops [MkdirTemp ''/a/.upgrade-old.1'', Rename ''/a/b'' ''/a/.upgrade-old.1/b''] ex_installed) ''/a'' = Inr []"
  by code_simp

lemma failed_rollback_loses_bundle:
  "fst (swap_in ''/a'' ''/a/b'' ''/a/.tmp.upgrade.1'' ex_refusing) \<noteq> None
   \<and> w_fs (snd (swap_in ''/a'' ''/a/b'' ''/a/.tmp.upgrade.1'' ex_refusing)) = [([''/'', ''a''], Dir)]"
  by code_simp

section \<open>Removing a bundle\<close>

text \<open>Removing a bundle by name deletes one entry of the APIs directory that holds a manifest, whatever the name contains, or
  nothing at all: nothing outside that entry changes, and after a success nothing is left of it.\<close>

theorem remove_contained:
  assumes "runRemove E [name] dirs w = (e, w')" "dirs_resolve w (ce_getenv E) dirs = Inr root" "proper_dir root" "path_segs root \<noteq> []"
  shows "w' = w \<or>
    (\<exists>n. fkey (BundleDir root name) = fkey root @ [n] \<and> n \<noteq> ''..'' \<and> os_Stat w (path_Join (BundleDir root name) ManifestFile) \<noteq> None
       \<and> (\<forall>q. \<not> prefix (fkey root @ [n]) q \<longrightarrow> map_of (w_fs w') q = map_of (w_fs w) q)
       \<and> (e = None \<longrightarrow> (\<forall>q. prefix (fkey root @ [n]) q \<longrightarrow> map_of (w_fs w') q = None)))"
proof (cases "w' = w")
  case False
  let ?t = "BundleDir root name"
  have g: "Clean ?t = ?t" "path_Dir ?t = Clean root" "os_Stat w (path_Join ?t ManifestFile) \<noteq> None"
    and w': "do_op (RemoveAll ?t) w = (e = None, w')"
    using assms(1,2) False by (auto simp: runRemove_def Let_def split: if_splits prod.splits bool.splits)
  have "(if HasPrefix ?t ''/'' then [''/''] else []) @ butlast (path_segs ?t) = (if HasPrefix root ''/'' then [''/''] else []) @ path_segs root"
    using fkey_Dir [OF g(1)] g(2) by (simp add: fkey_def [of root])
  moreover have "''/'' \<notin> set (path_segs root)" "''/'' \<notin> set (path_segs ?t)" using path_segs_clean unfolding clean_path_def by fastforce+
  ultimately have r: "HasPrefix ?t ''/'' = HasPrefix root ''/''" "butlast (path_segs ?t) = path_segs root"
    using assms(4) in_set_butlastD [of "''/''" "path_segs ?t"] by (auto split: if_splits) (metis list.set_intros(1))+
  then have s: "path_segs ?t = path_segs root @ [last (path_segs ?t)]" using assms(4) by (metis append_butlast_last_id butlast.simps(1))
  let ?n = "last (path_segs ?t)"
  have k: "fkey ?t = fkey root @ [?n]" using r(1) s by (simp add: fkey_def)
  have "last (path_segs root) \<noteq> ''..''" using assms(3,4) by (auto simp: proper_dir_def fkey_def split: if_splits)
  then have "?n \<noteq> ''..''" using clean_rest [of "HasPrefix ?t ''/''" "path_segs root" "[?n]"] path_segs_clean [of ?t] s assms(4) by simp
  moreover have "e = None \<Longrightarrow> map_of (w_fs w') q = None" if "prefix (fkey root @ [?n]) q" for q
    using w' that k by (auto simp: do_op_def map_of_keep split: if_splits)
  moreover have "map_of (w_fs w') q = map_of (w_fs w) q" if "\<not> prefix (fkey root @ [?n]) q" for q
    using do_op_frame [OF w'] that k by simp
  ultimately show ?thesis using k g(3) by blast
qed simp

theorem remove_contained_witness:
  "(let w' = snd (runRemove ex_env [''b''] \<lparr>df_ApisDir = ''/a'', df_DataDir = []\<rparr> ex_installed)
    in \<exists>n. fkey (BundleDir ''/a'' ''b'') = fkey ''/a'' @ [n] \<and> map_of (w_fs w') [''/'', ''a''] = Some Dir
      \<and> (\<forall>q. prefix (fkey ''/a'' @ [n]) q \<longrightarrow> map_of (w_fs w') q = None))"
proof -
  let ?d = "\<lparr>df_ApisDir = ''/a'', df_DataDir = []\<rparr>" let ?r = "runRemove ex_env [''b''] ?d ex_installed"
  have e: "?r = (None, snd ?r)" by (rule prod_eqI) (simp_all, code_simp)
  have p: "proper_dir ''/a''" "path_segs ''/a'' \<noteq> []" unfolding proper_dir_def by code_simp+
  have d: "dirs_resolve ex_installed (ce_getenv ex_env) ?d = Inr ''/a''" by (simp add: dirs_resolve_def resolveAPIsDir_def)
  have "length (w_fs (snd ?r)) \<noteq> length (w_fs ex_installed)" "map_of (w_fs (snd ?r)) [''/'', ''a''] = Some Dir" by code_simp+
  then show ?thesis using remove_contained [OF e d p] unfolding Let_def by metis
qed

text \<open>With the APIs directory \<^verbatim>\<open>..\<close> the guard admits the name \<^verbatim>\<open>..\<close>, and the parent of the APIs directory would be removed.\<close>

lemma remove_parent_admitted:
  "BundleDir ''..'' ''..'' = ''../..'' \<and> Clean (BundleDir ''..'' ''..'') = BundleDir ''..'' ''..'' \<and> path_Dir (BundleDir ''..'' ''..'') = Clean ''..''"
  by code_simp

section \<open>The allowlist\<close>

text \<open>Run in an initialised data directory without flags, the APIs directory is found but the data directory stays empty, and the
  allowlist beside it is not consulted.\<close>

lemma allowlist_skipped_in_cwd:
  assumes "IsInitialized w ''.''" "getenv = (\<lambda>_. [])"
  shows "dirs_resolve w getenv \<lparr>df_ApisDir = [], df_DataDir = []\<rparr> = Inr ''apis'' \<and> enforceAllowlist decode w [] ref False = None"
proof -
  have "Layout_APIs ''.'' = ''apis''" by code_simp
  then show ?thesis
    using assms by (simp add: dirs_resolve_def resolveAPIsDir_def TrimSpace_Nil enforceAllowlist_def loadAllowlist_def matchAllowlist_def)
qed

lemma confined_read:
  assumes "confined d (w_fs w) (w_fs v)" "\<not> prefix d (fkey p)"
  shows "os_ReadFile v p = os_ReadFile w p"
proof -
  have "map_of (w_fs v) (fkey p) = map_of (w_fs w) (fkey p) \<or> map_of (w_fs w) (fkey p) = None \<and> map_of (w_fs v) (fkey p) = Some Dir"
    using assms unfolding confined_def by blast
  then show ?thesis by (auto simp: os_ReadFile_def)
qed

lemma enforce_same: "os_ReadFile v (path_Join dd allowlistFile) = os_ReadFile w (path_Join dd allowlistFile) \<Longrightarrow>
    enforceAllowlist decode v dd ref skip = enforceAllowlist decode w dd ref skip"
  by (simp add: enforceAllowlist_def loadAllowlist_def)

lemma tarball_plain: "slash \<notin> set n \<Longrightarrow> plain_name (''.tmp.tarball.'' @ n)" and from_dir_plain: "slash \<notin> set n \<Longrightarrow> plain_name (''.tmp.from-dir.'' @ n)"
  by (simp_all add: plain_name_def)

lemma stageInstall_source:
  assumes "stageInstall C root name pre (copyTree src) rec w = (Inr final, w')" "root \<noteq> []" "rand_ok w" "source_codec C"
    and "\<And>n. slash \<notin> set n \<Longrightarrow> plain_name (pre @ n)"
  shows "source_at C w' final = Inr rec" "final = BundleDir root name"
  using copier.stageInstall_steps [OF assms(1-3,5)] assms(4) by auto

lemma runAddFromDir_allowed:
  assumes "runAddFromDir E opts root renames w = (Inr final, w')" "root \<noteq> []" "rand_ok w" "source_codec (ce_codecs E)"
  shows "\<exists>ref src. enforceAllowlist (ce_allow E) w (df_DataDir (ao_Dirs opts)) ref (ao_SkipAllowlist opts) = None
           \<and> source_at (ce_codecs E) w' final = Inr src \<and> sr_Ref src = Ref_String ref"
proof -
  from assms(1) obtain ref and m :: Manifest where
    "enforceAllowlist (ce_allow E) w (df_DataDir (ao_Dirs opts)) ref (ao_SkipAllowlist opts) = None"
    "stageInstall (ce_codecs E) root (mf_Name m) ''.tmp.from-dir.'' (copyTree (Clean (ao_FromDir opts))) (tarball_record E ref (rf_Version ref) renames) w = (Inr final, w')"
    by (auto simp: runAddFromDir_def Let_def intro: that split: if_splits sum.splits option.splits)
  then show ?thesis using stageInstall_source [OF _ assms(2-4) from_dir_plain] by (fastforce simp: tarball_record_def)
qed

lemma runAddFromTarball_allowed:
  assumes "runAddFromTarball E opts root renames w = (Inr (BundleDir root n), w')" "root \<noteq> []" "plain_name n" "rand_ok w" "source_codec (ce_codecs E)"
    and out: "\<not> prefix (fkey (TempDir E)) (fkey root)" "\<not> prefix (fkey (TempDir E)) (fkey (path_Join (df_DataDir (ao_Dirs opts)) allowlistFile))"
  shows "\<exists>ref src. enforceAllowlist (ce_allow E) w (df_DataDir (ao_Dirs opts)) ref (ao_SkipAllowlist opts) = None
           \<and> source_at (ce_codecs E) w' (BundleDir root n) = Inr src \<and> sr_Ref src = Ref_String ref"
proof -
  let ?C = "ce_codecs E" let ?final = "BundleDir root n"
  from assms(1) obtain body work w1 w2 w3 where
    mk: "os_MkdirTemp (TempDir E) ''apis-from-tarball-'' w = (Some work, w1)" and x: "ExtractTarGz ?C body work w1 = (None, w2)"
    and i: "install_extracted E opts root renames work w2 = (Inr ?final, w3)" and w': "w' = snd (do_op (RemoveAll work) w3)"
    by (auto simp: runAddFromTarball_def split: option.splits prod.splits)
  have T: "TempDir E \<noteq> []" by (simp add: TempDir_def)
  have pl: "plain_name (''apis-from-tarball-'' @ w_rand w (w_log w))" using assms(4) by (simp add: plain_name_def rand_ok_def)
  note tmp = fkey_tmp [OF mk T pl]
  have r1: "runs (op_in (fkey work)) w w1" by (rule runs_op [OF tmp(4)]) simp
  have r2: "runs (op_in (fkey work)) w w2" using runs_trans [OF r1 Extract_runs [OF x tmp(3)]] .
  have rk2: "rand_ok w2" using assms(4) runs_rand [OF r2] by (simp add: rand_ok_def)
  from i obtain ref rec and m :: Manifest where a: "enforceAllowlist (ce_allow E) w2 (df_DataDir (ao_Dirs opts)) ref (ao_SkipAllowlist opts) = None"
    and st: "stageInstall ?C root (mf_Name m) ''.tmp.tarball.'' (copyTree work) rec w2 = (Inr ?final, w3)" "sr_Ref rec = Ref_String ref"
    by (auto simp: install_extracted_def Let_def tarball_record_def intro: that split: if_splits sum.splits option.splits)
  note src = stageInstall_source [OF st(1) assms(2) rk2 assms(5) tarball_plain]
  have kf: "fkey (path_Join ?final SourceFile) = fkey root @ [n, SourceFile]"
    using assms(2,3) BundleDir_not_Nil [OF assms(2)] fkey_Join [of root n] by (simp add: fkey_Join BundleDir_def)
  have "prefix (fkey (TempDir E)) (fkey work)" "length (fkey (TempDir E)) < length (fkey work)" using tmp(1) by simp_all
  then have nw: "\<not> prefix (fkey work) q" if "\<not> prefix (fkey (TempDir E)) q" for q using that prefix_order.trans by blast
  have np: "\<not> prefix (fkey work) (fkey root @ [n, SourceFile])"
    using out(1) prefix_snoc [of "fkey work" "fkey root @ [n]" SourceFile] unfolding tmp(1)
    by (auto simp: SourceFile_def prefix_snoc dest: append_prefixD)
  have "os_ReadFile w' (path_Join ?final SourceFile) = os_ReadFile w3 (path_Join ?final SourceFile)"
    using do_op_frame [of "RemoveAll work" w3] np kf unfolding w' os_ReadFile_def by (metis op_at.simps(6) prod.collapse)
  then have "source_at ?C w' ?final = Inr rec" using src(1) by (simp add: LoadSource_def read_yaml_def)
  moreover have "os_ReadFile w2 (path_Join (df_DataDir (ao_Dirs opts)) allowlistFile) = os_ReadFile w (path_Join (df_DataDir (ao_Dirs opts)) allowlistFile)"
    using confined_read [OF runs_confined [OF r2] nw [OF out(2)]] .
  ultimately show ?thesis using a st(2) enforce_same by metis
qed

lemma enforced:
  "enforceAllowlist decode w dd ref False = None \<longleftrightarrow> (\<exists>allow. loadAllowlist decode w dd = Inr allow \<and> matchAllowlist allow ref)"
  by (auto simp: enforceAllowlist_def split: sum.splits)


definition ex_opts :: addOpts where
  "ex_opts = \<lparr>ao_Dirs = \<lparr>df_ApisDir = [], df_DataDir = ''/d''\<rparr>, ao_Renames = [], ao_FromTarball = [], ao_FromDir = [],
     ao_RefOverride = [], ao_SkipAllowlist = False\<rparr>"

definition ex_data :: fs_world where
  "ex_data = ex_empty_world\<lparr>w_fs := [([''/'', ''d''], Dir), ([''/'', ''d'', allowlistFile], File ''l'')]\<rparr>"


end
