(* ===== verification/Mitm.thy ===== *)
theory Mitm
  imports FileSystem
begin

text \<open>
  The TLS-terminating forward proxy, \<^verbatim>\<open>internal/server/mitm\<close>: the certificate authority with its cache of leaf certificates
  (\<^verbatim>\<open>ca.go\<close>) and the CONNECT handler (\<^verbatim>\<open>mitm.go\<close>).  X.509, PEM and key generation, the LRU cache and the TLS handshake
  are parameters; random draws, readings of the clock and what the peer does are arguments.  Keys and encodings are
  opaque strings; tracing and logging are left out.
\<close>

section \<open>Definitions\<close>

subsection \<open>Certificates\<close>

record Certificate =
  x_Raw :: string
  x_SerialNumber :: nat
  x_CommonName :: string
  x_NotBefore :: int
  x_NotAfter :: int
  x_IsCA :: bool
  x_BasicConstraintsValid :: bool
  x_CertSign :: bool
  x_DigitalSignature :: bool
  x_ServerAuth :: bool
  x_IPAddresses :: "string list"
  x_DNSNames :: "string list"

text \<open>
  The library: a certificate is created from a random source, a template, its parent, the subject's public key and
  the signer's private key; a PEM block has a type and contents.
\<close>

record pki =
  pk_Public :: "string \<Rightarrow> string"
  pk_CreateCertificate :: "string \<Rightarrow> Certificate \<Rightarrow> Certificate \<Rightarrow> string \<Rightarrow> string \<Rightarrow> string option"
  pk_ParseCertificate :: "string \<Rightarrow> Certificate option"
  pk_MarshalPKCS8 :: "string \<Rightarrow> string option"
  pk_ParsePKCS8 :: "string \<Rightarrow> string option"
  pk_ParsePKCS1 :: "string \<Rightarrow> string option"
  pk_ParseEC :: "string \<Rightarrow> string option"
  pem_Encode :: "string \<Rightarrow> string \<Rightarrow> string"
  pem_Decode :: "string \<Rightarrow> (string \<times> string) option"
  pk_ParseIP :: "string \<Rightarrow> string option"

record tlsCertificate =
  tc_Certificate :: "string list"
  tc_PrivateKey :: string
  tc_Leaf :: "Certificate option"

record cacheEntry =
  en_leaf :: tlsCertificate
  en_notAfter :: int

record 'c lru =
  lru_New :: "nat \<Rightarrow> 'c option"
  lru_Get :: "'c \<Rightarrow> string \<Rightarrow> cacheEntry option \<times> 'c"
  lru_Add :: "'c \<Rightarrow> string \<Rightarrow> cacheEntry \<Rightarrow> 'c"

record 'c CA =
  mc_cert :: Certificate
  mc_certDER :: string
  mc_key :: string
  mc_LeafTTL :: int
  mc_ExpiryMargin :: int
  mc_cache :: 'c

text \<open>What one generation of a key and certificate draws: the key, the serial number, the signer's randomness.\<close>

record draw =
  dr_key :: "string option"
  dr_serial :: "nat option"
  dr_rand :: string

datatype mitm_error =
    MReadCert | MReadKey | MCertPEM | MParseCert | MNotCA | MKeyPEM | MParseKey | MCache | MKeygen | MSerial | MSign | MMarshalKey

definition DefaultMaxCacheSize :: nat where "DefaultMaxCacheSize = 1024"
definition minute :: int where "minute = 60 * second"
definition DefaultExpiryMargin :: int where "DefaultExpiryMargin = 5 * minute"

subsection \<open>The certificate authority\<close>

definition parsePrivateKey :: "pki \<Rightarrow> string \<times> string \<Rightarrow> string option" where
  "parsePrivateKey P block =
     (if fst block = ''PRIVATE KEY'' then pk_ParsePKCS8 P (snd block)
      else if fst block = ''RSA PRIVATE KEY'' then pk_ParsePKCS1 P (snd block)
      else if fst block = ''EC PRIVATE KEY'' then pk_ParseEC P (snd block)
      else None)"

definition CAFromPEM :: "pki \<Rightarrow> 'c lru \<Rightarrow> string \<Rightarrow> string \<Rightarrow> mitm_error + 'c CA" where
  "CAFromPEM P L certPEM keyPEM =
     (case pem_Decode P certPEM of
        None \<Rightarrow> Inl MCertPEM
      | Some (ty, der) \<Rightarrow>
          (if ty \<noteq> ''CERTIFICATE'' then Inl MCertPEM
           else (case pk_ParseCertificate P der of
                   None \<Rightarrow> Inl MParseCert
                 | Some cert \<Rightarrow>
                     (if \<not> x_IsCA cert \<or> \<not> x_CertSign cert then Inl MNotCA
                      else (case pem_Decode P keyPEM of
                              None \<Rightarrow> Inl MKeyPEM
                            | Some block \<Rightarrow>
                                (case parsePrivateKey P block of
                                   None \<Rightarrow> Inl MParseKey
                                 | Some key \<Rightarrow>
                                     (case lru_New L DefaultMaxCacheSize of
                                        None \<Rightarrow> Inl MCache
                                      | Some cache \<Rightarrow>
                                          Inr \<lparr>mc_cert = cert, mc_certDER = x_Raw cert, mc_key = key, mc_LeafTTL = 24 * 60 * minute,
                                               mc_ExpiryMargin = DefaultExpiryMargin, mc_cache = cache\<rparr>)))))))"

definition CAFromFiles :: "pki \<Rightarrow> 'c lru \<Rightarrow> fs_world \<Rightarrow> string \<Rightarrow> string \<Rightarrow> mitm_error + 'c CA" where
  "CAFromFiles P L w certPath keyPath =
     (case os_ReadFile w certPath of
        None \<Rightarrow> Inl MReadCert
      | Some certPEM \<Rightarrow>
          (case os_ReadFile w keyPath of
             None \<Rightarrow> Inl MReadKey
           | Some keyPEM \<Rightarrow> CAFromPEM P L certPEM keyPEM))"

definition effectiveMargin :: "'c CA \<Rightarrow> int" where
  "effectiveMargin ca = (if mc_ExpiryMargin ca > 0 then mc_ExpiryMargin ca else DefaultExpiryMargin)"

definition leaf_template :: "pki \<Rightarrow> nat \<Rightarrow> int \<Rightarrow> int \<Rightarrow> string \<Rightarrow> Certificate" where
  "leaf_template P serial now notAfter host =
     \<lparr>x_Raw = [], x_SerialNumber = serial, x_CommonName = host, x_NotBefore = now - minute, x_NotAfter = notAfter,
      x_IsCA = False, x_BasicConstraintsValid = True, x_CertSign = False, x_DigitalSignature = True, x_ServerAuth = True,
      x_IPAddresses = (case pk_ParseIP P host of Some ip \<Rightarrow> [ip] | None \<Rightarrow> []),
      x_DNSNames = (case pk_ParseIP P host of Some ip \<Rightarrow> [] | None \<Rightarrow> [host])\<rparr>"

definition issueLeaf :: "pki \<Rightarrow> draw \<Rightarrow> int \<Rightarrow> 'c CA \<Rightarrow> string \<Rightarrow> mitm_error + tlsCertificate \<times> int" where
  "issueLeaf P d now ca host =
     (case dr_key d of
        None \<Rightarrow> Inl MKeygen
      | Some leafKey \<Rightarrow>
          (case dr_serial d of
             None \<Rightarrow> Inl MSerial
           | Some serial \<Rightarrow>
               (let notAfter = now + mc_LeafTTL ca
                in case pk_CreateCertificate P (dr_rand d) (leaf_template P serial now notAfter host) (mc_cert ca)
                          (pk_Public P leafKey) (mc_key ca) of
                     None \<Rightarrow> Inl MSign
                   | Some der \<Rightarrow>
                       Inr (\<lparr>tc_Certificate = [der, mc_certDER ca], tc_PrivateKey = leafKey, tc_Leaf = pk_ParseCertificate P der\<rparr>, notAfter))))"

text \<open>The clock is read for the cache check and again by \<open>issueLeaf\<close>.\<close>

definition leafFor :: "pki \<Rightarrow> 'c lru \<Rightarrow> draw \<Rightarrow> int \<Rightarrow> int \<Rightarrow> string \<Rightarrow> 'c CA \<Rightarrow> (mitm_error + tlsCertificate) \<times> 'c CA" where
  "leafFor P L d now now' host ca =
     (case lru_Get L (mc_cache ca) host of
        (hit, c1) \<Rightarrow>
          (let ca1 = ca\<lparr>mc_cache := c1\<rparr>;
               issue = (case issueLeaf P d now' ca1 host of
                          Inl e \<Rightarrow> (Inl e, ca1)
                        | Inr (leaf, notAfter) \<Rightarrow>
                            (Inr leaf, ca1\<lparr>mc_cache := lru_Add L c1 host \<lparr>en_leaf = leaf, en_notAfter = notAfter\<rparr>\<rparr>))
           in case hit of
                Some e \<Rightarrow> if now + effectiveMargin ca < en_notAfter e then (Inr (en_leaf e), ca1) else issue
              | None \<Rightarrow> issue))"

text \<open>\<^verbatim>\<open>GenerateCA\<close> reads the clock for each end of the validity.\<close>

definition GenerateCA :: "pki \<Rightarrow> draw \<Rightarrow> int \<Rightarrow> int \<Rightarrow> string \<Rightarrow> int \<Rightarrow> mitm_error + string \<times> string" where
  "GenerateCA P d now now' commonName0 validity =
     (let commonName = (if commonName0 = [] then ''bouncer MITM CA'' else commonName0)
      in case dr_key d of
           None \<Rightarrow> Inl MKeygen
         | Some key \<Rightarrow>
             (case dr_serial d of
                None \<Rightarrow> Inl MSerial
              | Some serial \<Rightarrow>
                  (let tmpl = \<lparr>x_Raw = [], x_SerialNumber = serial, x_CommonName = commonName, x_NotBefore = now - minute,
                               x_NotAfter = now' + validity, x_IsCA = True, x_BasicConstraintsValid = True, x_CertSign = True,
                               x_DigitalSignature = True, x_ServerAuth = False, x_IPAddresses = [], x_DNSNames = []\<rparr>
                   in case pk_CreateCertificate P (dr_rand d) tmpl tmpl (pk_Public P key) key of
                        None \<Rightarrow> Inl MSign
                      | Some der \<Rightarrow>
                          (case pk_MarshalPKCS8 P key of
                             None \<Rightarrow> Inl MMarshalKey
                           | Some keyDER \<Rightarrow> Inr (pem_Encode P ''CERTIFICATE'' der, pem_Encode P ''PRIVATE KEY'' keyDER)))))"

subsection \<open>CONNECT\<close>

text \<open>\<^verbatim>\<open>net.SplitHostPort\<close>.\<close>

definition colon :: char where "colon = CHR '':''"

definition SplitHostPort :: "string \<Rightarrow> (string \<times> string) option" where
  "SplitHostPort hp =
     (if colon \<notin> set hp then None
      else (let port = rev (takeWhile (\<lambda>c. c \<noteq> colon) (rev hp)); i = length hp - length port - 1
            in if hd hp = CHR ''['' then
                 (if CHR '']'' \<notin> set hp then None
                  else (let e = length (takeWhile (\<lambda>c. c \<noteq> CHR '']'') hp)
                        in if e + 1 \<noteq> i then None
                           else if CHR ''['' \<in> set (drop 1 hp) \<or> CHR '']'' \<in> set (drop (e + 1) hp) then None
                           else Some (drop 1 (take e hp), port)))
               else (let host = take i hp
                     in if colon \<in> set host \<or> CHR ''['' \<in> set hp \<or> CHR '']'' \<in> set hp then None
                        else Some (host, port))))"

record mitm_handler =
  mh_idleTimeout :: int
  mh_readHeaderTimeout :: int

definition mitm_New :: "int \<Rightarrow> int \<Rightarrow> mitm_handler" where
  "mitm_New idle readHeader =
     \<lparr>mh_idleTimeout = (if idle = 0 then 120 * second else idle),
      mh_readHeaderTimeout = (if readHeader = 0 then 5 * second else readHeader)\<rparr>"

record connect_request =
  cr_Method :: string
  cr_ProtoMajor :: int
  cr_URLHost :: string

text \<open>
  What the connection does: whether it can be hijacked and the acknowledgement written, the server name of the
  client's hello (empty when it has none; \<open>None\<close> when there is no proper hello), the readings of the clock while the
  certificate is chosen, whether the rest of the handshake succeeds in time, and the clock after it.
\<close>

record connection =
  cn_Hijacker :: bool
  cn_Hijack :: bool
  cn_WriteString :: bool
  cn_Flush :: bool
  cn_hello :: "string option"
  cn_draw :: draw
  cn_now :: int
  cn_now' :: int
  cn_Handshake :: bool
  cn_after :: int

text \<open>
  A request is passed on, answered with a status, dropped, or becomes a tunnel: the requests in it go to the inner
  handler, under a certificate, and a timer may close it after some time.
\<close>

datatype mitm_outcome =
    Passed
  | Answered int
  | Dropped
  | Tunnel tlsCertificate "int option"

text \<open>\<open>GetCertificate\<close>, with the expiry it notes for the tunnel.\<close>

definition GetCertificate ::
  "pki \<Rightarrow> 'c lru \<Rightarrow> connection \<Rightarrow> string \<Rightarrow> string \<Rightarrow> 'c CA \<Rightarrow> (mitm_error + tlsCertificate \<times> int option) \<times> 'c CA" where
  "GetCertificate P L K host serverName ca =
     (let name = (if serverName = [] then host else serverName)
      in case leafFor P L (cn_draw K) (cn_now K) (cn_now' K) name ca of
           (Inl e, ca') \<Rightarrow> (Inl e, ca')
         | (Inr leaf, ca') \<Rightarrow> (Inr (leaf, map_option x_NotAfter (tc_Leaf leaf)), ca'))"

definition serveConnect :: "pki \<Rightarrow> 'c lru \<Rightarrow> connection \<Rightarrow> connect_request \<Rightarrow> 'c CA \<Rightarrow> mitm_outcome \<times> 'c CA" where
  "serveConnect P L K r ca =
     (if cr_ProtoMajor r \<noteq> 1 then (Answered 505, ca)
      else (case SplitHostPort (cr_URLHost r) of
              None \<Rightarrow> (Answered 400, ca)
            | Some (host, _) \<Rightarrow>
                (if \<not> cn_Hijacker K then (Answered 500, ca)
                 else if \<not> cn_Hijack K then (Answered 500, ca)
                 else if \<not> cn_WriteString K \<or> \<not> cn_Flush K then (Dropped, ca)
                 else (case cn_hello K of
                         None \<Rightarrow> (Dropped, ca)
                       | Some serverName \<Rightarrow>
                           (case GetCertificate P L K host serverName ca of
                              (Inl _, ca') \<Rightarrow> (Dropped, ca')
                            | (Inr (leaf, leafNotAfter), ca') \<Rightarrow>
                                (if \<not> cn_Handshake K then (Dropped, ca')
                                 else (let timer = (case leafNotAfter of
                                                      None \<Rightarrow> None
                                                    | Some notAfter \<Rightarrow>
                                                        (let remaining = notAfter - effectiveMargin ca' - cn_after K
                                                         in if notAfter \<noteq> zeroTime \<and> remaining > 0 then Some remaining else None))
                                       in (Tunnel leaf timer, ca'))))))))"

definition mitm_ServeHTTP :: "pki \<Rightarrow> 'c lru \<Rightarrow> connection \<Rightarrow> connect_request \<Rightarrow> 'c CA \<Rightarrow> mitm_outcome \<times> 'c CA" where
  "mitm_ServeHTTP P L K r ca =
     (if cr_Method r \<noteq> ''CONNECT'' then (Passed, ca) else serveConnect P L K r ca)"

subsection \<open>The listener of one connection\<close>

record singleConnListener =
  sl_served :: bool
  sl_closed :: bool

text \<open>\<open>AcceptBlocks\<close>: the call waits until the listener is closed.\<close>

datatype accept_result = AcceptConn | AcceptBlocks | AcceptDone

definition newSingleConnListener :: singleConnListener where
  "newSingleConnListener = \<lparr>sl_served = False, sl_closed = False\<rparr>"

definition Accept :: "singleConnListener \<Rightarrow> accept_result \<times> singleConnListener" where
  "Accept l =
     (if \<not> sl_served l then (AcceptConn, l\<lparr>sl_served := True\<rparr>)
      else if sl_closed l then (AcceptDone, l) else (AcceptBlocks, l))"

definition listener_Close :: "singleConnListener \<Rightarrow> singleConnListener" where
  "listener_Close l = (if sl_closed l then l else l\<lparr>sl_closed := True\<rparr>)"

text \<open>The connection handed out tells the listener when it is closed, once; closing twice is harmless.\<close>

record notifyOnCloseConn =
  nc_once :: bool
  nc_l :: singleConnListener

definition conn_Close :: "notifyOnCloseConn \<Rightarrow> notifyOnCloseConn" where
  "conn_Close c = (if nc_once c then c else c\<lparr>nc_once := True, nc_l := listener_Close (nc_l c)\<rparr>)"

section \<open>Leaves\<close>

subsection \<open>What the libraries promise\<close>

text \<open>
  A cache of any size: it starts empty, and it only ever holds what was added.  \<open>view\<close> gives the entries it
  holds.
\<close>

definition lru_sound :: "'c lru \<Rightarrow> ('c \<Rightarrow> (string \<times> cacheEntry) set) \<Rightarrow> bool" where
  "lru_sound L view \<longleftrightarrow>
     (\<forall>n c. lru_New L n = Some c \<longrightarrow> view c = {})
     \<and> (\<forall>c k e c'. lru_Get L c k = (e, c') \<longrightarrow> view c' \<subseteq> view c \<and> (case e of None \<Rightarrow> True | Some v \<Rightarrow> (k, v) \<in> view c))
     \<and> (\<forall>c k v. view (lru_Add L c k v) \<subseteq> insert (k, v) (view c))"

text \<open>PEM round trips, for block types without a dash, and PKCS\#8 round trips; a certificate keeps its template's authority bits.\<close>

definition pki_roundtrip :: "pki \<Rightarrow> bool" where
  "pki_roundtrip P \<longleftrightarrow>
     (\<forall>ty b. CHR ''-'' \<notin> set ty \<longrightarrow> pem_Decode P (pem_Encode P ty b) = Some (ty, b))
     \<and> (\<forall>k b. pk_MarshalPKCS8 P k = Some b \<longrightarrow> pk_ParsePKCS8 P b = Some k)
     \<and> (\<forall>r t p pub key der. pk_CreateCertificate P r t p pub key = Some der \<longrightarrow>
          (\<exists>c. pk_ParseCertificate P der = Some c \<and> x_IsCA c = x_IsCA t \<and> x_CertSign c = x_CertSign t \<and> x_CommonName c = x_CommonName t))"

subsection \<open>Certificates handed out\<close>

text \<open>
  A leaf for one host and nothing else: signed by the authority, for server authentication, no authority itself, under
  the key it comes with, and valid until \<open>notAfter\<close>.
\<close>

definition leaf_of :: "pki \<Rightarrow> 'c CA \<Rightarrow> string \<Rightarrow> tlsCertificate \<Rightarrow> int \<Rightarrow> bool" where
  "leaf_of P ca host leaf notAfter \<longleftrightarrow>
     (\<exists>der rand tmpl. tc_Certificate leaf = [der, mc_certDER ca]
        \<and> pk_CreateCertificate P rand tmpl (mc_cert ca) (pk_Public P (tc_PrivateKey leaf)) (mc_key ca) = Some der
        \<and> tc_Leaf leaf = pk_ParseCertificate P der
        \<and> \<not> x_IsCA tmpl \<and> x_BasicConstraintsValid tmpl \<and> \<not> x_CertSign tmpl \<and> x_ServerAuth tmpl
        \<and> x_CommonName tmpl = host \<and> x_NotAfter tmpl = notAfter
        \<and> (x_IPAddresses tmpl, x_DNSNames tmpl) = (case pk_ParseIP P host of Some ip \<Rightarrow> ([ip], []) | None \<Rightarrow> ([], [host])))"

definition same_authority :: "'c CA \<Rightarrow> 'c CA \<Rightarrow> bool" where
  "same_authority a b \<longleftrightarrow>
     mc_cert a = mc_cert b \<and> mc_certDER a = mc_certDER b \<and> mc_key a = mc_key b
     \<and> mc_LeafTTL a = mc_LeafTTL b \<and> mc_ExpiryMargin a = mc_ExpiryMargin b"

definition cache_inv :: "pki \<Rightarrow> ('c \<Rightarrow> (string \<times> cacheEntry) set) \<Rightarrow> 'c CA \<Rightarrow> bool" where
  "cache_inv P view ca \<longleftrightarrow> (\<forall>(h, e) \<in> view (mc_cache ca). leaf_of P ca h (en_leaf e) (en_notAfter e))"

lemma leaf_of_cong: "same_authority a b \<Longrightarrow> leaf_of P a h leaf n = leaf_of P b h leaf n"
  by (simp add: leaf_of_def same_authority_def)

lemma issueLeaf_leaf_of:
  "issueLeaf P d now ca host = Inr (leaf, notAfter) \<Longrightarrow> leaf_of P ca host leaf notAfter \<and> notAfter = now + mc_LeafTTL ca"
  unfolding leaf_of_def issueLeaf_def Let_def
  by (fastforce simp: leaf_template_def split: option.splits)

lemma lru_soundD:
  assumes "lru_sound L view" "lru_Get L c k = (e, c')"
  shows "view c' \<subseteq> view c" "e = Some v \<Longrightarrow> (k, v) \<in> view c"
proof -
  have "view c' \<subseteq> view c \<and> (case e of None \<Rightarrow> True | Some v \<Rightarrow> (k, v) \<in> view c)"
    using assms unfolding lru_sound_def by blast
  then show "view c' \<subseteq> view c" "e = Some v \<Longrightarrow> (k, v) \<in> view c" by auto
qed

text \<open>One request: the authority stays the same, its cache sound, and the leaf is for the host and good for longer than the margin.\<close>

lemma leafFor_step:
  assumes "lru_sound L view" "cache_inv P view ca" "leafFor P L d now now' host ca = (r, ca')"
  shows "same_authority ca' ca" "cache_inv P view ca'"
    and "r = Inr leaf \<Longrightarrow> now \<le> now' \<Longrightarrow> effectiveMargin ca < mc_LeafTTL ca \<Longrightarrow>
         \<exists>notAfter. leaf_of P ca host leaf notAfter \<and> now + effectiveMargin ca < notAfter"
proof -
  obtain hit c1 where g: "lru_Get L (mc_cache ca) host = (hit, c1)" by (cases "lru_Get L (mc_cache ca) host")
  let ?ca1 = "ca\<lparr>mc_cache := c1\<rparr>"
  have sub: "view c1 \<subseteq> view (mc_cache ca)" and hit: "hit = Some e \<Longrightarrow> (host, e) \<in> view (mc_cache ca)" for e
    using lru_soundD(1,2) [OF assms(1) g] by simp_all
  have same1: "same_authority (ca\<lparr>mc_cache := c\<rparr>) ca" for c by (simp add: same_authority_def)
  have inv1: "cache_inv P view ?ca1"
    using assms(2) sub by (auto simp: cache_inv_def leaf_of_cong [OF same1])
  have add: "view (lru_Add L c1 host e) \<subseteq> insert (host, e) (view c1)" for e
    using assms(1) unfolding lru_sound_def by blast
  have cases: "(\<exists>e. hit = Some e \<and> now + effectiveMargin ca < en_notAfter e \<and> r = Inr (en_leaf e) \<and> ca' = ?ca1)
      \<or> (\<exists>e. r = Inl e \<and> ca' = ?ca1)
      \<or> (\<exists>l n. issueLeaf P d now' ?ca1 host = Inr (l, n) \<and> r = Inr l
           \<and> ca' = ca\<lparr>mc_cache := lru_Add L c1 host \<lparr>en_leaf = l, en_notAfter = n\<rparr>\<rparr>)"
    using assms(3) g by (auto simp: leafFor_def Let_def split: option.splits if_splits sum.splits)
  have fresh: "leaf_of P ca host l n \<and> n = now' + mc_LeafTTL ca" if "issueLeaf P d now' ?ca1 host = Inr (l, n)" for l n
    using issueLeaf_leaf_of [OF that] by (auto simp: leaf_of_cong [OF same1])
  show "same_authority ca' ca" using cases same1 by blast
  show "cache_inv P view ca'"
    using cases
  proof (elim disjE exE conjE)
    fix l n
    assume i: "issueLeaf P d now' ?ca1 host = Inr (l, n)" and ca': "ca' = ca\<lparr>mc_cache := lru_Add L c1 host \<lparr>en_leaf = l, en_notAfter = n\<rparr>\<rparr>"
    show ?thesis
      using inv1 add [of "\<lparr>en_leaf = l, en_notAfter = n\<rparr>"] fresh [OF i] unfolding ca' cache_inv_def
      by (fastforce simp: leaf_of_cong [OF same1])
  qed (use inv1 in auto)
  show "\<exists>notAfter. leaf_of P ca host leaf notAfter \<and> now + effectiveMargin ca < notAfter"
    if "r = Inr leaf" "now \<le> now'" "effectiveMargin ca < mc_LeafTTL ca"
    using cases
  proof (elim disjE exE conjE)
    fix e assume "hit = Some e" "now + effectiveMargin ca < en_notAfter e" "r = Inr (en_leaf e)"
    then show ?thesis using hit assms(2) that(1) by (fastforce simp: cache_inv_def)
  next
    fix l n assume "issueLeaf P d now' ?ca1 host = Inr (l, n)" "r = Inr l"
    then show ?thesis using fresh that by fastforce
  qed (use that in auto)
qed

text \<open>The states an authority passes through while tunnels ask it for leaves.\<close>

inductive leaf_reachable :: "pki \<Rightarrow> 'c lru \<Rightarrow> 'c CA \<Rightarrow> 'c CA \<Rightarrow> bool" for P L ca0 where
  start: "leaf_reachable P L ca0 ca0"
| step: "leaf_reachable P L ca0 ca \<Longrightarrow> leafFor P L d now now' host ca = (r, ca') \<Longrightarrow> leaf_reachable P L ca0 ca'"

lemma CAFromFiles_ok:
  assumes "CAFromFiles P L w cp kp = Inr ca"
  shows "mc_LeafTTL ca = 24 * 60 * minute" "mc_ExpiryMargin ca = DefaultExpiryMargin" "lru_New L DefaultMaxCacheSize = Some (mc_cache ca)"
    "x_IsCA (mc_cert ca)" "mc_certDER ca = x_Raw (mc_cert ca)"
  using assms by (auto simp: CAFromFiles_def CAFromPEM_def split: option.splits prod.splits if_splits)

lemma leaf_reachable_inv:
  assumes "leaf_reachable P L ca0 ca" "lru_sound L view" "cache_inv P view ca0"
  shows "same_authority ca ca0 \<and> cache_inv P view ca"
  using assms(1)
proof (induction rule: leaf_reachable.induct)
  case (step ca d now now' host r ca')
  then have "cache_inv P view ca" by blast
  note S = leafFor_step(1,2) [OF assms(2) this step.hyps(2)]
  show ?case using S step.IH by (simp add: same_authority_def)
qed (use assms(3) in \<open>simp add: same_authority_def\<close>)

lemma margins: "0 < DefaultExpiryMargin" "DefaultExpiryMargin < 24 * 60 * minute"
  by (simp_all add: DefaultExpiryMargin_def minute_def second_def)

text \<open>A small library and cache to run the definitions on: an encoding is the printed template, the cache keeps one entry.\<close>

definition ex_pki :: pki where
  "ex_pki =
     \<lparr>pk_Public = (\<lambda>k. k), pk_CreateCertificate = (\<lambda>_ t _ _ _. if x_IsCA t = x_CertSign t then Some ((if x_IsCA t then ''C'' else ''L'') @ x_CommonName t) else None),
      pk_ParseCertificate = (\<lambda>der. case der of [] \<Rightarrow> None
        | t # n \<Rightarrow> Some \<lparr>x_Raw = der, x_SerialNumber = 0, x_CommonName = n, x_NotBefore = 0, x_NotAfter = 24 * 60 * minute,
                         x_IsCA = (t = CHR ''C''), x_BasicConstraintsValid = True, x_CertSign = (t = CHR ''C''),
                         x_DigitalSignature = True, x_ServerAuth = (t \<noteq> CHR ''C''), x_IPAddresses = [], x_DNSNames = [n]\<rparr>),
      pk_MarshalPKCS8 = Some, pk_ParsePKCS8 = Some, pk_ParsePKCS1 = (\<lambda>_. None), pk_ParseEC = (\<lambda>_. None),
      pem_Encode = (\<lambda>ty b. ty @ ''-'' @ b), pem_Decode = (\<lambda>s. Some (takeWhile (\<lambda>c. c \<noteq> CHR ''-'') s, drop 1 (dropWhile (\<lambda>c. c \<noteq> CHR ''-'') s))),
      pk_ParseIP = (\<lambda>_. None)\<rparr>"

definition ex_lru :: "(string \<times> cacheEntry) option lru" where
  "ex_lru =
     \<lparr>lru_New = (\<lambda>_. Some None), lru_Get = (\<lambda>c k. (case c of Some (k', e) \<Rightarrow> if k' = k then Some e else None | None \<Rightarrow> None, c)),
      lru_Add = (\<lambda>c k e. Some (k, e))\<rparr>"

definition ex_ca_files :: fs_world where
  "ex_ca_files = \<lparr>w_fs = [([''ca.crt''], File ''CERTIFICATE-Croot''), ([''ca.key''], File ''PRIVATE KEY-k'')], w_log = [],
     w_fails = (\<lambda>_ _. False), w_rand = (\<lambda>_. [])\<rparr>"

definition ex_draw :: draw where
  "ex_draw = \<lparr>dr_key = Some ''lk'', dr_serial = Some 1, dr_rand = []\<rparr>"

lemma ex_pki_roundtrip: "pki_roundtrip ex_pki"
proof -
  have "takeWhile (\<lambda>c. c \<noteq> CHR ''-'') (ty @ CHR ''-'' # b) = ty \<and> dropWhile (\<lambda>c. c \<noteq> CHR ''-'') (ty @ CHR ''-'' # b) = CHR ''-'' # b"
    if "CHR ''-'' \<notin> set ty" for ty b :: string
    using that by (induction ty) auto
  then show ?thesis by (simp add: pki_roundtrip_def ex_pki_def)
qed

lemma ex_lru_sound: "lru_sound ex_lru set_option"
  by (auto simp: lru_sound_def ex_lru_def split: option.splits)

text \<open>
  C15: the certificates of the TLS-terminating proxy.  Whatever the cache evicts and whatever was asked of the
  authority before, a leaf it hands out for a host was signed by the configured authority for that host alone, is
  no authority and cannot sign certificates, and, while the clock does not run backwards during the call, is
  valid for more than five minutes.
\<close>

theorem leaf_certificates_sound:
  assumes "CAFromFiles P L w certPath keyPath = Inr ca0" "lru_sound L view"
    and "leaf_reachable P L ca0 ca" "leafFor P L d now now' host ca = (Inr leaf, ca')" "now \<le> now'"
  shows "\<exists>der rand tmpl. tc_Certificate leaf = [der, x_Raw (mc_cert ca0)]
    \<and> pk_CreateCertificate P rand tmpl (mc_cert ca0) (pk_Public P (tc_PrivateKey leaf)) (mc_key ca0) = Some der
    \<and> x_CommonName tmpl = host
    \<and> (x_IPAddresses tmpl, x_DNSNames tmpl) = (case pk_ParseIP P host of Some ip \<Rightarrow> ([ip], []) | None \<Rightarrow> ([], [host]))
    \<and> \<not> x_IsCA tmpl \<and> x_BasicConstraintsValid tmpl \<and> \<not> x_CertSign tmpl
    \<and> now + 5 * 60 * second < x_NotAfter tmpl"
proof -
  note F = CAFromFiles_ok [OF assms(1)]
  have "cache_inv P view ca0" using assms(2) F(3) by (auto simp: cache_inv_def lru_sound_def)
  then have same: "same_authority ca ca0" and inv: "cache_inv P view ca"
    using leaf_reachable_inv [OF assms(3,2)] by blast+
  have m: "effectiveMargin ca = 5 * 60 * second" "effectiveMargin ca < mc_LeafTTL ca"
    using F(1,2) same margins by (auto simp: effectiveMargin_def same_authority_def DefaultExpiryMargin_def minute_def)
  from leafFor_step(3) [OF assms(2) inv assms(4) refl assms(5) m(2)]
  obtain n where n: "leaf_of P ca0 host leaf n" "now + effectiveMargin ca < n" by (auto simp: leaf_of_cong [OF same])
  from n(1) obtain der rand tmpl where "tc_Certificate leaf = [der, mc_certDER ca0]"
    "pk_CreateCertificate P rand tmpl (mc_cert ca0) (pk_Public P (tc_PrivateKey leaf)) (mc_key ca0) = Some der"
    "\<not> x_IsCA tmpl" "x_BasicConstraintsValid tmpl" "\<not> x_CertSign tmpl" "x_CommonName tmpl = host" "x_NotAfter tmpl = n"
    "(x_IPAddresses tmpl, x_DNSNames tmpl) = (case pk_ParseIP P host of Some ip \<Rightarrow> ([ip], []) | None \<Rightarrow> ([], [host]))"
    unfolding leaf_of_def by blast
  with n(2) m(1) F(5) show ?thesis by metis
qed

theorem leaf_certificates_sound_witness:
  "\<exists>ca0 leaf ca1 ca2 (tmpl :: Certificate). CAFromFiles ex_pki ex_lru ex_ca_files ''ca.crt'' ''ca.key'' = Inr ca0
     \<and> leafFor ex_pki ex_lru ex_draw 0 0 ''h'' ca0 = (Inr leaf, ca1) \<and> leafFor ex_pki ex_lru ex_draw second second ''h'' ca1 = (Inr leaf, ca2)
     \<and> x_DNSNames tmpl = [''h''] \<and> \<not> x_IsCA tmpl \<and> second + 5 * 60 * second < x_NotAfter tmpl"
proof -
  have "is_ok (CAFromFiles ex_pki ex_lru ex_ca_files ''ca.crt'' ''ca.key'')" by code_simp
  then obtain ca0 where ca0: "CAFromFiles ex_pki ex_lru ex_ca_files ''ca.crt'' ''ca.key'' = Inr ca0" by (auto simp: is_ok_iff)
  note F = CAFromFiles_ok [OF ca0]
  obtain l1 ca1 where l1: "leafFor ex_pki ex_lru ex_draw 0 0 ''h'' ca0 = (Inr l1, ca1)"
    and c1: "mc_cache ca1 = Some (''h'', \<lparr>en_leaf = l1, en_notAfter = 24 * 60 * minute\<rparr>)" "mc_ExpiryMargin ca1 = DefaultExpiryMargin"
    using F by (auto simp: leafFor_def Let_def ex_lru_def ex_pki_def ex_draw_def issueLeaf_def leaf_template_def)
  have "second + effectiveMargin ca1 < 24 * 60 * minute"
    by (simp add: effectiveMargin_def c1 DefaultExpiryMargin_def minute_def second_def)
  then obtain ca2 where l2: "leafFor ex_pki ex_lru ex_draw second second ''h'' ca1 = (Inr l1, ca2)"
    by (simp add: leafFor_def ex_lru_def c1)
  have "leaf_reachable ex_pki ex_lru ca0 ca1" using leaf_reachable.start l1 by (rule leaf_reachable.step)
  from leaf_certificates_sound [OF ca0 ex_lru_sound this l2] obtain tmpl :: Certificate where
    "(x_IPAddresses tmpl, x_DNSNames tmpl) = ([], [''h''])" "\<not> x_IsCA tmpl" "second + 5 * 60 * second < x_NotAfter tmpl"
    by (auto simp: ex_pki_def)
  then show ?thesis using ca0 l1 l2 by blast
qed

section \<open>Tunnels\<close>

text \<open>Whether a tunnel comes about, under which certificate, and when it is closed.\<close>

lemma serveConnect_Tunnel:
  assumes "serveConnect P L K r ca = (Tunnel leaf timer, ca')"
  shows "\<exists>host port name. SplitHostPort (cr_URLHost r) = Some (host, port) \<and> cn_hello K = Some name
    \<and> leafFor P L (cn_draw K) (cn_now K) (cn_now' K) (if name = [] then host else name) ca = (Inr leaf, ca')"
    and "timer = Some t \<Longrightarrow> \<exists>c. tc_Leaf leaf = Some c \<and> cn_after K + t = x_NotAfter c - effectiveMargin ca'"
  using assms by (auto simp: serveConnect_def GetCertificate_def Let_def split: if_splits option.splits prod.splits sum.splits)

text \<open>
  A tunnel whose handshake ends within the margin before the leaf expires has no timer: it may outlive its
  certificate.
\<close>

lemma tunnel_without_timer:
  assumes "serveConnect P L K r ca = (Tunnel leaf timer, ca')" "tc_Leaf leaf = Some c" "x_NotAfter c - effectiveMargin ca' \<le> cn_after K"
  shows "timer = None"
  using assms by (auto simp: serveConnect_def GetCertificate_def Let_def split: if_splits option.splits prod.splits sum.splits)

definition ex_connection :: "string \<Rightarrow> int \<Rightarrow> int \<Rightarrow> connection" where
  "ex_connection sni now after =
     \<lparr>cn_Hijacker = True, cn_Hijack = True, cn_WriteString = True, cn_Flush = True, cn_hello = Some sni, cn_draw = ex_draw,
      cn_now = now, cn_now' = now, cn_Handshake = True, cn_after = after\<rparr>"

definition connect_to :: "string \<Rightarrow> connect_request" where
  "connect_to t = \<lparr>cr_Method = ''CONNECT'', cr_ProtoMajor = 1, cr_URLHost = t\<rparr>"

text \<open>
  The handshake of a second tunnel starts one second before the cached leaf enters its margin and takes two: no
  timer is set, although a tunnel opened a second earlier would be closed.
\<close>

lemma late_handshake_never_closed:
  "case CAFromFiles ex_pki ex_lru ex_ca_files ''ca.crt'' ''ca.key'' of
     Inl _ \<Rightarrow> False
   | Inr ca0 \<Rightarrow>
       (case serveConnect ex_pki ex_lru (ex_connection [] 0 0) (connect_to ''h:443'') ca0 of
          (Tunnel leaf (Some t), ca1) \<Rightarrow>
            t = 24 * 60 * minute - 5 * minute
            \<and> fst (serveConnect ex_pki ex_lru (ex_connection [] (t - second) (t + second)) (connect_to ''h:443'') ca1) = Tunnel leaf None
        | _ \<Rightarrow> False)"
  by code_simp

text \<open>The name in the client's hello decides the certificate, whatever the target of the CONNECT was.\<close>

lemma leaf_follows_server_name:
  assumes "serveConnect P L K r ca = (Tunnel leaf timer, ca')" "cn_hello K = Some name" "name \<noteq> []"
  shows "leafFor P L (cn_draw K) (cn_now K) (cn_now' K) name ca = (Inr leaf, ca')"
  using serveConnect_Tunnel(1) [OF assms(1)] assms(2,3) by auto

text \<open>A generated authority is one the proxy loads.\<close>

theorem GenerateCA_loads:
  assumes "pki_roundtrip P" "lru_New L DefaultMaxCacheSize = Some cache" "GenerateCA P d now now' cn validity = Inr (cert, key)"
  shows "\<exists>ca. CAFromPEM P L cert key = Inr ca \<and> dr_key d = Some (mc_key ca)
    \<and> x_CommonName (mc_cert ca) = (if cn = [] then ''bouncer MITM CA'' else cn)"
proof -
  obtain k der t kder where *: "dr_key d = Some k" "pk_CreateCertificate P (dr_rand d) t t (pk_Public P k) k = Some der"
    "x_IsCA t" "x_CertSign t" "x_CommonName t = (if cn = [] then ''bouncer MITM CA'' else cn)"
    "pk_MarshalPKCS8 P k = Some kder" "cert = pem_Encode P ''CERTIFICATE'' der" "key = pem_Encode P ''PRIVATE KEY'' kder"
    using assms(3) by (force simp: GenerateCA_def Let_def split: option.splits)
  have pem: "CHR ''-'' \<notin> set ty \<Longrightarrow> pem_Decode P (pem_Encode P ty b) = Some (ty, b)" for ty b using assms(1) by (simp add: pki_roundtrip_def)
  have pk: "pk_ParsePKCS8 P kder = Some k" using assms(1) *(6) by (auto simp: pki_roundtrip_def)
  obtain c where c: "pk_ParseCertificate P der = Some c" "x_IsCA c" "x_CertSign c" "x_CommonName c = x_CommonName t"
    using assms(1) *(2-4) unfolding pki_roundtrip_def by blast
  show ?thesis using * c pem pk assms(2) by (simp add: CAFromPEM_def parsePrivateKey_def)
qed

section \<open>The listener of one connection\<close>

text \<open>Over any calls, one connection is handed out; once that is closed, \<open>Accept\<close> ends the server loop.\<close>

datatype listener_call = CallAccept | CallClose

fun listener_run :: "listener_call list \<Rightarrow> singleConnListener \<Rightarrow> accept_result list \<times> singleConnListener" where
  "listener_run [] l = ([], l)"
| "listener_run (CallAccept # cs) l = (case Accept l of (a, l1) \<Rightarrow> (a # fst (listener_run cs l1), snd (listener_run cs l1)))"
| "listener_run (CallClose # cs) l = listener_run cs (listener_Close l)"

lemma listener_served: "sl_served l \<Longrightarrow> AcceptConn \<notin> set (fst (listener_run cs l)) \<and> sl_served (snd (listener_run cs l))"
proof (induction cs arbitrary: l)
  case (Cons c cs)
  then show ?case by (cases c) (auto simp: Accept_def listener_Close_def)
qed simp

lemma one_connection: "count_list (fst (listener_run cs l)) AcceptConn \<le> 1"
proof (induction cs l rule: listener_run.induct)
  case (2 cs l)
  show ?case
  proof (cases "sl_served l")
    case True
    then show ?thesis using listener_served [of l "CallAccept # cs"] by (simp add: count_notin)
  next
    case False
    then show ?thesis using listener_served [of "l\<lparr>sl_served := True\<rparr>" cs] by (simp add: Accept_def count_notin)
  qed
qed auto

lemma closed_ends_loop: "nc_once c \<longrightarrow> sl_closed (nc_l c) \<Longrightarrow> sl_served (nc_l c) \<Longrightarrow> fst (Accept (nc_l (conn_Close c))) = AcceptDone"
  by (simp add: conn_Close_def listener_Close_def Accept_def)

end
