(* ===== verification/Z85.thy ===== *)
theory Z85
  imports Prelude "HOL-Library.Word"
begin

text \<open>
  The framed Z85 codec of \<^verbatim>\<open>internal/auth/z85/z85.go\<close>.  Bytes are 8-bit words, the accumulator
  \<open>v\<close> is a 32-bit word, so the multiplication in \<open>Decode\<close> wraps exactly where Go's does.
\<close>

unbundle bit_operations_syntax

section \<open>Definitions\<close>

type_synonym byte = "8 word"
type_synonym u32 = "32 word"

datatype z85_error = EmptyInput | BadLength nat | BadChar char nat | BadPad nat

definition z85_alphabet :: string where
  "z85_alphabet =
     ''0123456789abcdefghijklmnopqrstuvwxyzABCDEFGHIJKLMNOPQRSTUVWXYZ.-:+=^!/*?&<>()[]{}@%$#''"

text \<open>The decoder table built by \<open>init\<close>: 0xFF everywhere but at the alphabet's bytes.\<close>

fun decoder_from :: "nat \<Rightarrow> string \<Rightarrow> char \<Rightarrow> byte" where
  "decoder_from i [] c = 0xFF"
| "decoder_from i (x # xs) c = (if x = c then word_of_nat i else decoder_from (Suc i) xs c)"

definition decoder :: "char \<Rightarrow> byte" where
  "decoder c = decoder_from 0 z85_alphabet c"

definition pack4 :: "byte \<Rightarrow> byte \<Rightarrow> byte \<Rightarrow> byte \<Rightarrow> u32" where
  "pack4 a b c d =
     push_bit 24 (ucast a) OR push_bit 16 (ucast b) OR push_bit 8 (ucast c) OR ucast d"

text \<open>The inner loop, from \<open>j = 4\<close> down to \<open>0\<close>: each digit goes in front of the later ones.\<close>

fun encode_chunk :: "nat \<Rightarrow> u32 \<Rightarrow> string \<Rightarrow> string" where
  "encode_chunk 0 v acc = acc"
| "encode_chunk (Suc j) v acc =
     encode_chunk j (v div 85) ((z85_alphabet ! unat (v mod 85)) # acc)"

fun encode_chunks :: "byte list \<Rightarrow> string" where
  "encode_chunks (a # b # c # d # rest) = encode_chunk 5 (pack4 a b c d) [] @ encode_chunks rest"
| "encode_chunks _ = []"

definition z85_pad :: "nat \<Rightarrow> nat" where
  "z85_pad n = (4 - (n + 1) mod 4) mod 4"

definition z85_Encode :: "byte list \<Rightarrow> string" where
  "z85_Encode data =
     (let pad = z85_pad (length data);
          buf = word_of_nat pad # data @ replicate pad 0
      in encode_chunks buf)"

fun decode_digits :: "nat \<Rightarrow> string \<Rightarrow> u32 \<Rightarrow> z85_error + u32" where
  "decode_digits i [] v = Inr v"
| "decode_digits i (c # cs) v =
     (let d = decoder c
      in if d = 0xFF then Inl (BadChar c i)
         else decode_digits (Suc i) cs (v * 85 + ucast d))"

definition unpack4 :: "u32 \<Rightarrow> byte list" where
  "unpack4 v = [ucast (drop_bit 24 v), ucast (drop_bit 16 v), ucast (drop_bit 8 v), ucast v]"

fun decode_chunks :: "nat \<Rightarrow> string \<Rightarrow> z85_error + byte list" where
  "decode_chunks i (a # b # c # d # e # rest) =
     (case decode_digits i [a, b, c, d, e] 0 of
        Inl err \<Rightarrow> Inl err
      | Inr v \<Rightarrow>
          (case decode_chunks (i + 5) rest of
             Inl err \<Rightarrow> Inl err
           | Inr raw \<Rightarrow> Inr (unpack4 v @ raw)))"
| "decode_chunks i _ = Inr []"

definition z85_Decode :: "string \<Rightarrow> z85_error + byte list" where
  "z85_Decode s =
     (if length s = 0 then Inl EmptyInput
      else if length s mod 5 \<noteq> 0 then Inl (BadLength (length s))
      else (case decode_chunks 0 s of
              Inl e \<Rightarrow> Inl e
            | Inr raw \<Rightarrow>
                (let pad = unat (hd raw)
                 in if pad > 3 then Inl (BadPad pad)
                    else Inr (take (length raw - pad - 1) (drop 1 raw)))))"

section \<open>Lemmas\<close>

lemma length_alphabet: "length z85_alphabet = 85"
  by code_simp

lemma distinct_alphabet: "distinct z85_alphabet"
  by code_simp

lemma decoder_from_nth:
  "distinct xs \<Longrightarrow> k < length xs \<Longrightarrow> decoder_from i xs (xs ! k) = word_of_nat (i + k)"
proof (induction xs arbitrary: i k)
  case (Cons x xs)
  then show ?case by (cases k) (auto simp: nth_Cons')
qed simp

lemma decoder_nth: "k < 85 \<Longrightarrow> decoder (z85_alphabet ! k) = word_of_nat k"
  unfolding decoder_def
  using decoder_from_nth [OF distinct_alphabet, of k 0] by (simp add: length_alphabet)

lemma decoder_nth_valid:
  assumes "k < 85"
  shows "decoder (z85_alphabet ! k) \<noteq> 0xFF" "ucast (decoder (z85_alphabet ! k)) = (word_of_nat k :: u32)"
proof -
  have u: "unat (word_of_nat k :: byte) = k" using assms by (simp add: unat_of_nat)
  show "decoder (z85_alphabet ! k) \<noteq> 0xFF"
  proof
    assume "decoder (z85_alphabet ! k) = 0xFF"
    then have "unat (word_of_nat k :: byte) = unat (0xFF :: byte)"
      by (simp only: decoder_nth [OF assms])
    with u assms show False by simp
  qed
  show "ucast (decoder (z85_alphabet ! k)) = (word_of_nat k :: u32)"
    unfolding decoder_nth [OF assms]
    using assms by (simp add: unsigned_of_nat take_bit_nat_eq_self)
qed

lemma decode_digits_alphabet:
  "(\<And>d. d \<in> set ds \<Longrightarrow> d < 85) \<Longrightarrow>
     decode_digits i (map ((!) z85_alphabet) ds) v = Inr (foldl (\<lambda>w d. w * 85 + word_of_nat d) v ds)"
  by (induction ds arbitrary: i v) (simp_all add: decoder_nth_valid)

fun digits85 :: "nat \<Rightarrow> u32 \<Rightarrow> nat list \<Rightarrow> nat list" where
  "digits85 0 v acc = acc"
| "digits85 (Suc j) v acc = digits85 j (v div 85) (unat (v mod 85) # acc)"

lemma encode_chunk_digits: "encode_chunk n v (map ((!) z85_alphabet) acc) = map ((!) z85_alphabet) (digits85 n v acc)"
proof (induction n arbitrary: v acc)
  case (Suc n)
  from Suc.IH [of "v div 85" "unat (v mod 85) # acc"] show ?case by simp
qed simp

lemma unat_mod85: "unat (v mod (85 :: u32)) < 85"
  by (simp add: unat_mod)

lemma digits85_less: "(\<And>d. d \<in> set acc \<Longrightarrow> d < 85) \<Longrightarrow> d \<in> set (digits85 n v acc) \<Longrightarrow> d < 85"
proof (induction n arbitrary: v acc)
  case (Suc n)
  show ?case
    by (rule Suc.IH [of "unat (v mod 85) # acc" "v div 85"]) (use Suc.prems unat_mod85 in auto)
qed simp

lemma length_digits85: "length (digits85 n v acc) = n + length acc"
  by (induction n arbitrary: v acc) auto

abbreviation horner85 :: "u32 \<Rightarrow> nat list \<Rightarrow> u32" where
  "horner85 \<equiv> foldl (\<lambda>w d. w * 85 + word_of_nat d)"

lemma foldl_digits85:
  "horner85 0 (digits85 n v acc) = horner85 (v - (((\<lambda>w. w div 85) ^^ n) v) * 85 ^ n) acc"
proof (induction n arbitrary: v acc)
  case (Suc n)
  define q r where "q = v div 85" and "r = ((\<lambda>w. w div 85) ^^ n) (v div (85 :: u32))"
  have "horner85 0 (digits85 (Suc n) v acc) = horner85 (q - r * 85 ^ n) (unat (v mod 85) # acc)"
    unfolding q_def r_def digits85.simps by (rule Suc.IH)
  also have "\<dots> = horner85 ((q - r * 85 ^ n) * 85 + v mod 85) acc" by (simp add: ucast_id)
  also have "(q - r * 85 ^ n) * 85 + v mod 85 = (q * 85 + v mod 85) - r * 85 ^ Suc n"
    by (simp add: algebra_simps)
  also have "q * 85 + v mod 85 = v" unfolding q_def by (rule div_mult_mod_eq)
  finally show ?case by (simp add: r_def funpow_Suc_right del: funpow.simps)
qed simp

lemma unat_funpow_div: "unat (((\<lambda>w. w div (85 :: u32)) ^^ n) v) = unat v div 85 ^ n"
  by (induction n) (simp_all add: unat_div power_Suc2 div_mult2_eq del: power_Suc)

lemma funpow_div_5: "((\<lambda>w. w div (85 :: u32)) ^^ 5) v = 0"
proof -
  have "unat v < 2 ^ 32" using unsigned_less [of v, where ?'a = nat] by simp
  then have "unat (((\<lambda>w. w div (85 :: u32)) ^^ 5) v) = 0"
    unfolding unat_funpow_div by simp
  then show ?thesis by (simp only: unat_eq_zero)
qed

lemma decode_encode_chunk: "decode_digits i (encode_chunk 5 v []) 0 = Inr v"
proof -
  have "encode_chunk 5 v [] = map ((!) z85_alphabet) (digits85 5 v [])"
    using encode_chunk_digits [of 5 v "[]"] by simp
  moreover have "\<And>d. d \<in> set (digits85 5 v []) \<Longrightarrow> d < 85" by (erule digits85_less [rotated]) simp
  ultimately have "decode_digits i (encode_chunk 5 v []) 0
      = Inr (foldl (\<lambda>w d. w * 85 + word_of_nat d) 0 (digits85 5 v []))"
    by (simp only: decode_digits_alphabet)
  then show ?thesis by (simp only: foldl_digits85 funpow_div_5) simp
qed

lemma length_encode_chunk: "length (encode_chunk n v acc) = n + length acc"
  by (induction n v acc rule: encode_chunk.induct) auto

lemma set_encode_chunk: "set (encode_chunk n v acc) \<subseteq> set z85_alphabet \<union> set acc"
proof (induction n v acc rule: encode_chunk.induct)
  case (2 j v acc)
  have "z85_alphabet ! unat (v mod 85) \<in> set z85_alphabet"
    by (rule nth_mem) (simp add: length_alphabet unat_mod85)
  with 2 show ?case by auto
qed simp

lemma byte_high_bits [simp]:
  "\<not> bit (w :: byte) (8 + n)" "\<not> bit (w :: byte) (16 + n)" "\<not> bit (w :: byte) (24 + n)"
  using bit_imp_le_length [of w] by fastforce+

lemma unpack_pack: "unpack4 (pack4 a b c d) = [a, b, c, d]"
  unfolding unpack4_def pack4_def
  by (auto intro!: bit_word_eqI simp: bit_simps)

lemma chunk_exhaust: "length xs = 5 \<Longrightarrow> \<exists>a b c d e. xs = [a, b, c, d, e]"
  by (auto simp: length_Suc_conv numeral_eq_Suc)

lemma decode_encode_chunks: "length buf mod 4 = 0 \<Longrightarrow> decode_chunks i (encode_chunks buf) = Inr buf"
proof (induction buf arbitrary: i rule: encode_chunks.induct)
  case (1 a b c d rest)
  obtain p q r s t where ch: "encode_chunk 5 (pack4 a b c d) [] = [p, q, r, s, t]"
    using chunk_exhaust length_encode_chunk [of 5 "pack4 a b c d" "[]"] by fastforce
  have "decode_digits i [p, q, r, s, t] 0 = Inr (pack4 a b c d)"
    unfolding ch [symmetric] by (rule decode_encode_chunk)
  with 1 ch show ?case by (simp add: unpack_pack del: decode_digits.simps)
qed auto

lemma length_encode_chunks: "length (encode_chunks buf) = length buf div 4 * 5"
proof (induction buf rule: encode_chunks.induct)
  case (1 a b c d rest)
  have "length (a # b # c # d # rest) div 4 = Suc (length rest div 4)" by simp
  with 1 show ?case by (simp add: length_encode_chunk)
qed auto

lemma set_encode_chunks: "set (encode_chunks buf) \<subseteq> set z85_alphabet"
proof (induction buf rule: encode_chunks.induct)
  case (1 a b c d rest)
  with set_encode_chunk [of 5 "pack4 a b c d" "[]"] show ?case by simp
qed auto

lemma z85_pad_le: "z85_pad n \<le> 3"
  unfolding z85_pad_def by simp

lemma z85_pad_mod: "(n + 1 + z85_pad n) mod 4 = 0"
proof -
  have "(n + 1) mod 4 < 4" by simp
  then consider "(n + 1) mod 4 = 0" | "(n + 1) mod 4 = 1" | "(n + 1) mod 4 = 2" | "(n + 1) mod 4 = 3"
    by linarith
  then have "((n + 1) mod 4 + z85_pad n) mod 4 = 0" by cases (simp_all add: z85_pad_def)
  then show ?thesis by (simp add: mod_add_left_eq)
qed

lemma z85_Decode_Encode: "z85_Decode (z85_Encode data) = Inr data"
proof -
  define pad buf where "pad = z85_pad (length data)" and "buf = word_of_nat pad # data @ replicate pad (0 :: byte)"
  have enc: "z85_Encode data = encode_chunks buf" by (simp add: z85_Encode_def pad_def buf_def Let_def)
  have pad: "pad \<le> 3" by (simp add: pad_def z85_pad_le)
  have len: "length buf mod 4 = 0" using z85_pad_mod [of "length data"] by (simp add: buf_def pad_def)
  then have "length buf \<ge> 4" by (simp add: buf_def) presburger
  with len have "length (encode_chunks buf) \<noteq> 0" "length (encode_chunks buf) mod 5 = 0"
    by (auto simp: length_encode_chunks)
  moreover have "unat (hd buf) = pad" using pad by (simp add: buf_def unat_of_nat)
  ultimately show ?thesis using pad
    by (simp add: enc z85_Decode_def decode_encode_chunks [OF len] Let_def) (simp add: buf_def)
qed

definition z85_decode_opt :: "string \<Rightarrow> byte list option" where
  "z85_decode_opt s = (case z85_Decode s of Inl _ \<Rightarrow> None | Inr d \<Rightarrow> Some d)"

interpretation z85: codec z85_Encode z85_decode_opt "\<lambda>_. True"
  by unfold_locales (simp add: z85_decode_opt_def z85_Decode_Encode)

lemma z85_Encode_alphabet: "set (z85_Encode data) \<subseteq> set z85_alphabet"
  by (simp add: z85_Encode_def Let_def set_encode_chunks)

lemma alphabet_json_safe: "CHR 0x22 \<notin> set z85_alphabet \<and> CHR 0x5C \<notin> set z85_alphabet"
  by code_simp

section \<open>Properties\<close>

text \<open>
  C40: \<open>Decode\<close> recovers every byte string from its encoding, whatever its length, and two
  payloads encode alike only when they are equal.
\<close>

theorem z85_roundtrip:
  "z85_Decode (z85_Encode data) = Inr data \<and> (z85_Encode data = z85_Encode data' \<longleftrightarrow> data = data')"
  using z85_Decode_Encode z85.enc_inject by simp

text \<open>
  the encoded form embeds in a JSON string without escaping: every character is in the Z85
  alphabet, so none is a double quote or a backslash, and the length is a positive multiple of 5.
\<close>

theorem z85_Encode_json_safe:
  "set (z85_Encode data) \<subseteq> set z85_alphabet
   \<and> CHR 0x22 \<notin> set (z85_Encode data) \<and> CHR 0x5C \<notin> set (z85_Encode data)
   \<and> length (z85_Encode data) = (length data + 1 + z85_pad (length data)) div 4 * 5"
  using z85_Encode_alphabet [of data] alphabet_json_safe
  by (auto simp: z85_Encode_def Let_def length_encode_chunks)

end
