(* ===== verification/Auth.thy ===== *)
theory Auth
  imports Z85
begin

text \<open>
  The two-token JWT scheme of \<^verbatim>\<open>internal/auth\<close>: key derivation, issuing and verifying access and
  refresh tokens, caller roles, and the secret's hex form.  The cryptography (HKDF, Ed25519,
  ChaCha20-Poly1305), the JWT library and the JSON codec of the payloads are parameters, gathered in
  the record \<open>crypto\<close>; the laws the code relies on are the predicates of the section on hypotheses.
  Random nonces and the clock are arguments of the operations that read them.
\<close>

section \<open>Definitions\<close>

subsection \<open>Claims, credentials and keys\<close>

record Header =
  hd_Name :: string
  hd_Value :: string

record AccessCreds =
  ac_AccessToken :: string
  ac_Headers :: "Header list"

record RefreshCreds =
  rc_RefreshToken :: string
  rc_TokenURL :: string
  rc_Headers :: "Header list"

record AccessToken =
  at_Subject :: string
  at_Creds :: AccessCreds
  at_Admin :: bool

record RefreshToken =
  rt_Subject :: string
  rt_Creds :: RefreshCreds
  rt_Admin :: bool
  rt_ExpiresAt :: int

text \<open>The registered and the private claims; a date is a time in whole seconds.\<close>

record jwtClaims =
  c_Issuer :: string
  c_Audience :: "string list"
  c_Subject :: string
  c_IssuedAt :: "int option"
  c_NotBefore :: "int option"
  c_ExpiresAt :: "int option"
  c_Typ :: string
  c_Enc :: string
  c_Admin :: bool

record ServerKeys =
  k_Signing :: "byte list"
  k_Verifying :: "byte list"
  k_EncryptAccess :: "byte list"
  k_EncryptRefresh :: "byte list"

record ParserOptions =
  po_Leeway :: int
  po_Issuer :: string
  po_Audience :: string
  po_ExpirationRequired :: bool

text \<open>
  The library functions: \<open>hkdf\<close> reads the given number of bytes from the expander of key material, salt
  and info; \<open>ParseWithClaims\<close> parses and checks a token under its options at a time, asking the key
  function for the key that belongs to the token's algorithm.
\<close>

record crypto =
  hkdf :: "byte list \<Rightarrow> string \<Rightarrow> string \<Rightarrow> nat \<Rightarrow> byte list option"
  NewKeyFromSeed :: "byte list \<Rightarrow> byte list"
  Public :: "byte list \<Rightarrow> byte list"
  SignedString :: "byte list \<Rightarrow> jwtClaims \<Rightarrow> string option"
  ParseWithClaims :: "ParserOptions \<Rightarrow> int \<Rightarrow> (string \<Rightarrow> byte list option) \<Rightarrow> string \<Rightarrow> jwtClaims option"
  ParseUnverified :: "string \<Rightarrow> jwtClaims option"
  Seal :: "byte list \<Rightarrow> byte list \<Rightarrow> byte list \<Rightarrow> byte list"
  Open :: "byte list \<Rightarrow> byte list \<Rightarrow> byte list \<Rightarrow> byte list option"
  marshalAccess :: "AccessCreds \<Rightarrow> byte list option"
  unmarshalAccess :: "byte list \<Rightarrow> AccessCreds option"
  marshalRefresh :: "RefreshCreds \<Rightarrow> byte list option"
  unmarshalRefresh :: "byte list \<Rightarrow> RefreshCreds option"

datatype auth_error =
    EHkdf | EMarshal | ESign | EToken | ETyp | EMissingEnc | EDecodeEnc z85_error
  | ETooShort | EDecrypt | EUnmarshal | EMissingTokenURL | EHex | ESecretLength nat

definition hkdfSalt :: string where "hkdfSalt = ''bouncer''"
definition jwtIssuer :: string where "jwtIssuer = ''bouncer''"
definition jwtAudience :: string where "jwtAudience = ''bouncer''"
definition jwtLeeway :: int where "jwtLeeway = 30 * second"
definition typAccess :: string where "typAccess = ''access''"
definition typRefresh :: string where "typRefresh = ''refresh''"
definition hkdfInfoEncryptAccess :: string where "hkdfInfoEncryptAccess = ''encrypt/access''"
definition hkdfInfoEncryptRefresh :: string where "hkdfInfoEncryptRefresh = ''encrypt/refresh''"
definition hkdfInfoSign :: string where "hkdfInfoSign = ''sign''"
definition AccessLeeway :: int where "AccessLeeway = jwtLeeway"
definition NonceSize :: nat where "NonceSize = 12"

definition hkdfDerive :: "crypto \<Rightarrow> byte list \<Rightarrow> string \<Rightarrow> nat \<Rightarrow> auth_error + byte list" where
  "hkdfDerive L ikm info n = (case hkdf L ikm hkdfSalt info n of None \<Rightarrow> Inl EHkdf | Some out \<Rightarrow> Inr out)"

definition FromSecret :: "crypto \<Rightarrow> byte list \<Rightarrow> auth_error + ServerKeys" where
  "FromSecret L secret =
     bind_result (hkdfDerive L secret hkdfInfoSign 32) (\<lambda>signSeed.
     bind_result (hkdfDerive L secret hkdfInfoEncryptAccess 32) (\<lambda>encAccess.
     bind_result (hkdfDerive L secret hkdfInfoEncryptRefresh 32) (\<lambda>encRefresh.
       (let signing = NewKeyFromSeed L signSeed
        in Inr \<lparr>k_Signing = signing, k_Verifying = Public L signing,
                k_EncryptAccess = encAccess, k_EncryptRefresh = encRefresh\<rparr>))))"

subsection \<open>Issuing\<close>

definition encryptCreds ::
  "crypto \<Rightarrow> ('t \<Rightarrow> byte list option) \<Rightarrow> byte list \<Rightarrow> byte list \<Rightarrow> 't \<Rightarrow> auth_error + byte list" where
  "encryptCreds L marshal nonce key creds =
     (case marshal creds of
        None \<Rightarrow> Inl EMarshal
      | Some pt \<Rightarrow> Inr (nonce @ Seal L key nonce pt))"

text \<open>The claims \<open>signEncrypted\<close> builds at time \<open>now\<close>; \<open>NewNumericDate\<close> truncates to seconds.\<close>

definition issued_claims :: "int \<Rightarrow> string \<Rightarrow> string \<Rightarrow> byte list \<Rightarrow> int option \<Rightarrow> bool \<Rightarrow> jwtClaims" where
  "issued_claims now subject typ enc ttl admin =
     \<lparr>c_Issuer = jwtIssuer, c_Audience = [jwtAudience], c_Subject = subject,
      c_IssuedAt = Some (whole_seconds now), c_NotBefore = Some (whole_seconds now),
      c_ExpiresAt = (case ttl of None \<Rightarrow> None | Some d \<Rightarrow> Some (whole_seconds (now + d))),
      c_Typ = typ, c_Enc = z85_Encode enc, c_Admin = admin\<rparr>"

definition signEncrypted ::
  "crypto \<Rightarrow> ('t \<Rightarrow> byte list option) \<Rightarrow> byte list \<Rightarrow> int \<Rightarrow> ServerKeys \<Rightarrow> string \<Rightarrow> string \<Rightarrow> byte list \<Rightarrow> 't
     \<Rightarrow> int option \<Rightarrow> bool \<Rightarrow> auth_error + string" where
  "signEncrypted L marshal nonce now keys subject typ encKey creds ttl admin =
     bind_result (encryptCreds L marshal nonce encKey creds) (\<lambda>enc.
       (case SignedString L (k_Signing keys) (issued_claims now subject typ enc ttl admin) of
          None \<Rightarrow> Inl ESign
        | Some tok \<Rightarrow> Inr tok))"

definition IssueAccessToken ::
  "crypto \<Rightarrow> byte list \<Rightarrow> int \<Rightarrow> ServerKeys \<Rightarrow> string \<Rightarrow> AccessCreds \<Rightarrow> int \<Rightarrow> bool \<Rightarrow> auth_error + string" where
  "IssueAccessToken L nonce now keys subject creds ttl admin =
     signEncrypted L (marshalAccess L) nonce now keys subject typAccess (k_EncryptAccess keys) creds (Some ttl) admin"

definition IssueRefreshToken ::
  "crypto \<Rightarrow> byte list \<Rightarrow> int \<Rightarrow> ServerKeys \<Rightarrow> string \<Rightarrow> RefreshCreds \<Rightarrow> int \<Rightarrow> bool \<Rightarrow> auth_error + string" where
  "IssueRefreshToken L nonce now keys subject creds ttl admin =
     signEncrypted L (marshalRefresh L) nonce now keys subject typRefresh (k_EncryptRefresh keys) creds
       (if ttl > 0 then Some ttl else None) admin"

subsection \<open>Verifying\<close>

definition decryptCreds ::
  "crypto \<Rightarrow> (byte list \<Rightarrow> 't option) \<Rightarrow> byte list \<Rightarrow> byte list \<Rightarrow> auth_error + 't" where
  "decryptCreds L unmarshal key blob =
     (if length blob < NonceSize then Inl ETooShort
      else (case Open L key (take NonceSize blob) (drop NonceSize blob) of
              None \<Rightarrow> Inl EDecrypt
            | Some pt \<Rightarrow> (case unmarshal pt of None \<Rightarrow> Inl EUnmarshal | Some creds \<Rightarrow> Inr creds)))"

definition verify_opts :: "bool \<Rightarrow> ParserOptions" where
  "verify_opts expirationRequired =
     \<lparr>po_Leeway = jwtLeeway, po_Issuer = jwtIssuer, po_Audience = jwtAudience,
      po_ExpirationRequired = expirationRequired\<rparr>"

definition keyFunc :: "ServerKeys \<Rightarrow> string \<Rightarrow> byte list option" where
  "keyFunc keys alg = (if alg = ''EdDSA'' then Some (k_Verifying keys) else None)"

definition verifyAndDecrypt ::
  "crypto \<Rightarrow> (byte list \<Rightarrow> 't option) \<Rightarrow> int \<Rightarrow> ServerKeys \<Rightarrow> string \<Rightarrow> string \<Rightarrow> byte list \<Rightarrow> bool
     \<Rightarrow> auth_error + (string \<times> bool \<times> 't)" where
  "verifyAndDecrypt L unmarshal now keys token wantTyp encKey expirationRequired =
     (case ParseWithClaims L (verify_opts expirationRequired) now (keyFunc keys) token of
        None \<Rightarrow> Inl EToken
      | Some c \<Rightarrow>
          (if c_Typ c \<noteq> wantTyp then Inl ETyp
           else if c_Enc c = [] then Inl EMissingEnc
           else (case z85_Decode (c_Enc c) of
                   Inl e \<Rightarrow> Inl (EDecodeEnc e)
                 | Inr encBytes \<Rightarrow>
                     bind_result (decryptCreds L unmarshal encKey encBytes) (\<lambda>creds.
                       Inr (c_Subject c, c_Admin c, creds)))))"

definition VerifyAccessToken :: "crypto \<Rightarrow> int \<Rightarrow> ServerKeys \<Rightarrow> string \<Rightarrow> auth_error + AccessToken" where
  "VerifyAccessToken L now keys token =
     bind_result (verifyAndDecrypt L (unmarshalAccess L) now keys token typAccess (k_EncryptAccess keys) True)
       (\<lambda>(subject, admin, creds). Inr \<lparr>at_Subject = subject, at_Creds = creds, at_Admin = admin\<rparr>)"

definition tokenExpiry :: "crypto \<Rightarrow> string \<Rightarrow> int" where
  "tokenExpiry L token =
     (case ParseUnverified L token of
        None \<Rightarrow> zeroTime
      | Some c \<Rightarrow> (case c_ExpiresAt c of None \<Rightarrow> zeroTime | Some e \<Rightarrow> e))"

definition VerifyRefreshToken :: "crypto \<Rightarrow> int \<Rightarrow> ServerKeys \<Rightarrow> string \<Rightarrow> auth_error + RefreshToken" where
  "VerifyRefreshToken L now keys token =
     bind_result (verifyAndDecrypt L (unmarshalRefresh L) now keys token typRefresh (k_EncryptRefresh keys) False)
       (\<lambda>(subject, admin, creds).
          (if rc_TokenURL creds = [] then Inl EMissingTokenURL
           else Inr \<lparr>rt_Subject = subject, rt_Creds = creds, rt_Admin = admin, rt_ExpiresAt = tokenExpiry L token\<rparr>))"

subsection \<open>Callers\<close>

datatype Role = RoleAnonymous | RoleUser | RoleAdmin

record Caller =
  ca_Subject :: string
  ca_Role :: Role

definition IsAdmin :: "Caller \<Rightarrow> bool" where "IsAdmin c \<longleftrightarrow> ca_Role c = RoleAdmin"
definition IsAuthenticated :: "Caller \<Rightarrow> bool" where "IsAuthenticated c \<longleftrightarrow> ca_Role c \<noteq> RoleAnonymous"

definition anonymousCaller :: Caller where
  "anonymousCaller = \<lparr>ca_Subject = [], ca_Role = RoleAnonymous\<rparr>"

definition CallerFromContext :: "Caller option \<Rightarrow> Caller" where
  "CallerFromContext ctx = (case ctx of Some c \<Rightarrow> c | None \<Rightarrow> anonymousCaller)"

subsection \<open>The secret\<close>

fun hex_decode :: "string \<Rightarrow> byte list option" where
  "hex_decode [] = Some []"
| "hex_decode [a] = None"
| "hex_decode (a # b # s) =
     (if ishex a \<and> ishex b then
        map_option (\<lambda>bs. word_of_nat (unhex a * 16 + unhex b) # bs) (hex_decode s)
      else None)"

definition SecretFromHex :: "string \<Rightarrow> auth_error + byte list" where
  "SecretFromHex s =
     (case hex_decode s of
        None \<Rightarrow> Inl EHex
      | Some raw \<Rightarrow> if length raw \<noteq> 32 then Inl (ESecretLength (length raw)) else Inr raw)"

subsection \<open>Hypotheses on the libraries\<close>

text \<open>
  What the documentation of the JWT library promises of a token it accepts: the expiry, where there is
  one, has not passed by more than the leeway, and there is one where it is required; the not-before
  time is not further ahead than the leeway; issuer and audience are the expected ones.
\<close>

definition claims_valid :: "ParserOptions \<Rightarrow> int \<Rightarrow> jwtClaims \<Rightarrow> bool" where
  "claims_valid po now c \<longleftrightarrow>
     (case c_ExpiresAt c of None \<Rightarrow> \<not> po_ExpirationRequired po | Some e \<Rightarrow> now < e + po_Leeway po)
     \<and> (case c_NotBefore c of None \<Rightarrow> True | Some n \<Rightarrow> n - po_Leeway po \<le> now)
     \<and> c_Issuer c = po_Issuer po \<and> po_Audience po \<in> set (c_Audience c)"

text \<open>
  A token signed by a key is accepted under the public key exactly when its claims are valid; it parses
  without verification to the same claims.
\<close>

definition jwt_roundtrip :: "crypto \<Rightarrow> bool" where
  "jwt_roundtrip L \<longleftrightarrow>
     (\<forall>sk c tok. SignedString L sk c = Some tok \<longrightarrow>
        ParseUnverified L tok = Some c
        \<and> (\<forall>po now kf. kf ''EdDSA'' = Some (Public L sk) \<longrightarrow>
             ParseWithClaims L po now kf tok = (if claims_valid po now c then Some c else None)))"

text \<open>
  Unforgeability, for the set \<open>I\<close> of tokens that were signed with the key, each with its claims: a token
  accepted under the public key is one of them, and its claims are valid.
\<close>

definition jwt_unforgeable :: "crypto \<Rightarrow> byte list \<Rightarrow> (string \<times> jwtClaims) set \<Rightarrow> bool" where
  "jwt_unforgeable L sk I \<longleftrightarrow>
     (\<forall>po now kf tok c. (\<forall>alg k. kf alg = Some k \<longrightarrow> alg = ''EdDSA'' \<and> k = Public L sk) \<longrightarrow>
        ParseWithClaims L po now kf tok = Some c \<longrightarrow> (tok, c) \<in> I \<and> claims_valid po now c)"

definition aead_roundtrip :: "crypto \<Rightarrow> bool" where
  "aead_roundtrip L \<longleftrightarrow> (\<forall>k n pt. length n = NonceSize \<longrightarrow> Open L k n (Seal L k n pt) = Some pt)"

definition json_creds_roundtrip :: "crypto \<Rightarrow> bool" where
  "json_creds_roundtrip L \<longleftrightarrow>
     (\<forall>c pt. marshalAccess L c = Some pt \<longrightarrow> unmarshalAccess L pt = Some c)
     \<and> (\<forall>c pt. marshalRefresh L c = Some pt \<longrightarrow> unmarshalRefresh L pt = Some c)"

definition keys_ok :: "crypto \<Rightarrow> ServerKeys \<Rightarrow> bool" where
  "keys_ok L keys \<longleftrightarrow> k_Verifying keys = Public L (k_Signing keys)"

subsection \<open>Issue log\<close>

text \<open>The calls of the two issuing functions, with the clock and the nonce each one read.\<close>

datatype issue =
    IssuedAccess (is_nonce: "byte list") (is_now: int) (is_subject: string) AccessCreds int (is_admin: bool)
  | IssuedRefresh (is_nonce: "byte list") (is_now: int) (is_subject: string) RefreshCreds int (is_admin: bool)

fun issue_token :: "crypto \<Rightarrow> ServerKeys \<Rightarrow> issue \<Rightarrow> auth_error + string" where
  "issue_token L keys (IssuedAccess n t s c d a) = IssueAccessToken L n t keys s c d a"
| "issue_token L keys (IssuedRefresh n t s c d a) = IssueRefreshToken L n t keys s c d a"

fun issue_claims :: "crypto \<Rightarrow> ServerKeys \<Rightarrow> issue \<Rightarrow> jwtClaims option" where
  "issue_claims L keys (IssuedAccess n t s c d a) =
     map_option (\<lambda>pt. issued_claims t s typAccess (n @ Seal L (k_EncryptAccess keys) n pt) (Some d) a) (marshalAccess L c)"
| "issue_claims L keys (IssuedRefresh n t s c d a) =
     map_option (\<lambda>pt. issued_claims t s typRefresh (n @ Seal L (k_EncryptRefresh keys) n pt)
       (if d > 0 then Some d else None) a) (marshalRefresh L c)"

definition issued_set :: "crypto \<Rightarrow> ServerKeys \<Rightarrow> issue list \<Rightarrow> (string \<times> jwtClaims) set" where
  "issued_set L keys log =
     {(tok, c). \<exists>i \<in> set log. issue_token L keys i = Inr tok \<and> issue_claims L keys i = Some c}"

definition log_ok :: "issue list \<Rightarrow> bool" where
  "log_ok log \<longleftrightarrow> (\<forall>i \<in> set log. length (is_nonce i) = NonceSize)"

subsection \<open>A concrete instance\<close>

text \<open>
  For the examples: a library whose signatures, blobs and payloads are positions in tables of the
  claims and credentials it knows, with one signing key.
\<close>

definition ex_sk :: "byte list" where "ex_sk = [7]"

definition at_index :: "nat \<Rightarrow> 'a list \<Rightarrow> 'a option" where
  "at_index i xs = (if i < length xs then Some (xs ! i) else None)"

definition ex_crypto :: "jwtClaims list \<Rightarrow> AccessCreds list \<Rightarrow> RefreshCreds list \<Rightarrow> crypto" where
  "ex_crypto tbl atbl rtbl =
     \<lparr>hkdf = (\<lambda>ikm salt info n. Some (replicate n (word_of_nat (length info)))),
      NewKeyFromSeed = (\<lambda>_. ex_sk), Public = id,
      SignedString = (\<lambda>sk c. if sk = ex_sk then map_option (\<lambda>i. replicate i CHR ''x'') (index_by id c tbl) else None),
      ParseWithClaims = (\<lambda>po now kf tok.
        if kf ''EdDSA'' = Some ex_sk \<and> tok = replicate (length tok) CHR ''x'' then
          (case at_index (length tok) tbl of
             None \<Rightarrow> None | Some c \<Rightarrow> if claims_valid po now c then Some c else None)
        else None),
      ParseUnverified = (\<lambda>tok. at_index (length tok) tbl),
      Seal = (\<lambda>k n pt. k @ pt),
      Open = (\<lambda>k n ct. if take (length k) ct = k then Some (drop (length k) ct) else None),
      marshalAccess = (\<lambda>c. map_option (\<lambda>i. replicate i 1) (index_by id c atbl)),
      unmarshalAccess = (\<lambda>pt. at_index (length pt) atbl),
      marshalRefresh = (\<lambda>c. map_option (\<lambda>i. replicate i 1) (index_by id c rtbl)),
      unmarshalRefresh = (\<lambda>pt. at_index (length pt) rtbl)\<rparr>"

definition ex_keys :: ServerKeys where
  "ex_keys = \<lparr>k_Signing = ex_sk, k_Verifying = ex_sk, k_EncryptAccess = [1], k_EncryptRefresh = [2]\<rparr>"

definition ex_nonce :: "byte list" where "ex_nonce = replicate 12 0"

section \<open>Round trip\<close>

lemma index_by_at: "index_by id c tbl = Some i \<Longrightarrow> at_index i tbl = Some c"
  using index_by_Some [of id c tbl i] by (simp add: at_index_def)

lemma ex_crypto_laws:
  "jwt_roundtrip (ex_crypto tbl atbl rtbl)" "aead_roundtrip (ex_crypto tbl atbl rtbl)"
  "json_creds_roundtrip (ex_crypto tbl atbl rtbl)" "keys_ok (ex_crypto tbl atbl rtbl) ex_keys"
  by (auto simp: jwt_roundtrip_def aead_roundtrip_def json_creds_roundtrip_def keys_ok_def ex_keys_def
      ex_crypto_def dest: index_by_at split: if_splits)

lemma ex_crypto_unforgeable:
  assumes "\<And>i c. at_index i tbl = Some c \<Longrightarrow> (replicate i CHR ''x'', c) \<in> I"
  shows "jwt_unforgeable (ex_crypto tbl atbl rtbl) ex_sk I"
  unfolding jwt_unforgeable_def
  by (auto simp: ex_crypto_def split: if_splits option.splits dest: assms)

lemma bind_result_Inr: "bind_result r f = Inr y \<longleftrightarrow> (\<exists>x. r = Inr x \<and> f x = Inr y)"
  by (cases r) auto

lemma z85_Encode_nonempty: "z85_Encode data \<noteq> []"
proof
  assume "z85_Encode data = []"
  then have "z85_Decode (z85_Encode data) = Inl EmptyInput" by (simp add: z85_Decode_def)
  then show False by (simp add: z85_Decode_Encode)
qed

lemma decrypt_encrypt:
  assumes "aead_roundtrip L" "length nonce = NonceSize" "unmarshal pt = Some creds"
  shows "decryptCreds L unmarshal key (nonce @ Seal L key nonce pt) = Inr creds"
  using assms by (simp add: decryptCreds_def aead_roundtrip_def)

text \<open>What verifying makes of a token that was signed over issued claims.\<close>

lemma verify_signed:
  assumes "jwt_roundtrip L" "aead_roundtrip L" "keys_ok L keys" "length nonce = NonceSize"
    and "unmarshal pt = Some creds"
    and "SignedString L (k_Signing keys) (issued_claims t subject typ (nonce @ Seal L key nonce pt) ttl admin) = Some tok"
  shows "verifyAndDecrypt L unmarshal now keys tok want key req =
     (if \<not> claims_valid (verify_opts req) now (issued_claims t subject typ (nonce @ Seal L key nonce pt) ttl admin) then Inl EToken
      else if typ \<noteq> want then Inl ETyp else Inr (subject, admin, creds))"
proof -
  let ?c = "issued_claims t subject typ (nonce @ Seal L key nonce pt) ttl admin"
  have "keyFunc keys ''EdDSA'' = Some (Public L (k_Signing keys))" using assms(3) by (simp add: keyFunc_def keys_ok_def)
  then have "ParseWithClaims L (verify_opts req) now (keyFunc keys) tok =
      (if claims_valid (verify_opts req) now ?c then Some ?c else None)"
    using assms(1,6) unfolding jwt_roundtrip_def by blast
  then show ?thesis using decrypt_encrypt [where unmarshal = unmarshal, OF assms(2,4,5), of key]
    by (simp add: verifyAndDecrypt_def issued_claims_def z85_Encode_nonempty z85_Decode_Encode)
qed

lemma claims_valid_issued:
  "claims_valid (verify_opts req) now (issued_claims t subject typ enc ttl admin) \<longleftrightarrow>
     (case ttl of None \<Rightarrow> \<not> req | Some d \<Rightarrow> now < whole_seconds (t + d) + jwtLeeway)
     \<and> whole_seconds t - jwtLeeway \<le> now"
  by (cases ttl) (auto simp: claims_valid_def verify_opts_def issued_claims_def)

lemma IssueAccess_Inr:
  "IssueAccessToken L nonce t keys subject creds ttl admin = Inr tok \<longleftrightarrow>
     (\<exists>pt. marshalAccess L creds = Some pt \<and> SignedString L (k_Signing keys)
        (issued_claims t subject typAccess (nonce @ Seal L (k_EncryptAccess keys) nonce pt) (Some ttl) admin) = Some tok)"
  by (auto simp: IssueAccessToken_def signEncrypted_def encryptCreds_def bind_result_Inr split: option.splits)

lemma IssueRefresh_Inr:
  "IssueRefreshToken L nonce t keys subject creds ttl admin = Inr tok \<longleftrightarrow>
     (\<exists>pt. marshalRefresh L creds = Some pt \<and> SignedString L (k_Signing keys)
        (issued_claims t subject typRefresh (nonce @ Seal L (k_EncryptRefresh keys) nonce pt)
          (if ttl > 0 then Some ttl else None) admin) = Some tok)"
  by (auto simp: IssueRefreshToken_def signEncrypted_def encryptCreds_def bind_result_Inr split: option.splits)

lemma access_verify:
  assumes "jwt_roundtrip L" "aead_roundtrip L" "json_creds_roundtrip L" "keys_ok L keys" "length nonce = NonceSize"
    and "IssueAccessToken L nonce t keys subject creds ttl admin = Inr tok"
  shows "VerifyAccessToken L now keys tok =
     (if whole_seconds t - 30 * second \<le> now \<and> now < whole_seconds (t + ttl) + 30 * second
      then Inr \<lparr>at_Subject = subject, at_Creds = creds, at_Admin = admin\<rparr> else Inl EToken)"
proof -
  obtain pt where pt: "marshalAccess L creds = Some pt"
    and s: "SignedString L (k_Signing keys)
        (issued_claims t subject typAccess (nonce @ Seal L (k_EncryptAccess keys) nonce pt) (Some ttl) admin) = Some tok"
    using assms(6) by (auto simp: IssueAccess_Inr)
  have "unmarshalAccess L pt = Some creds" using assms(3) pt by (simp add: json_creds_roundtrip_def)
  from verify_signed [where unmarshal = "unmarshalAccess L", OF assms(1,2,4,5) this s, of now typAccess True] show ?thesis
    by (auto simp: VerifyAccessToken_def claims_valid_issued jwtLeeway_def)
qed

text \<open>
  An access token that \<open>IssueAccessToken\<close> returned is accepted by \<open>VerifyAccessToken\<close> with the same
  subject, credentials and admin flag exactly while the clock is within the leeway of its lifetime
  (whose ends are whole seconds), and is rejected at every other time.
\<close>

theorem access_token_roundtrip:
  assumes "jwt_roundtrip L" "aead_roundtrip L" "json_creds_roundtrip L" "keys_ok L keys" "length nonce = NonceSize"
    and "IssueAccessToken L nonce t keys subject creds ttl admin = Inr tok"
  shows "VerifyAccessToken L now keys tok =
     (if whole_seconds t - 30 * second \<le> now \<and> now < whole_seconds (t + ttl) + 30 * second
      then Inr \<lparr>at_Subject = subject, at_Creds = creds, at_Admin = admin\<rparr> else Inl EToken)"
  by (rule access_verify [OF assms])

theorem access_token_roundtrip_witness:
  "let creds = \<lparr>ac_AccessToken = ''up'', ac_Headers = []\<rparr>;
       c = issued_claims 5 ''alice'' typAccess (ex_nonce @ [1]) (Some (60 * second)) True;
       L = ex_crypto [c] [creds] []
   in IssueAccessToken L ex_nonce 5 ex_keys ''alice'' creds (60 * second) True = Inr []
      \<and> VerifyAccessToken L (89 * second) ex_keys [] = Inr \<lparr>at_Subject = ''alice'', at_Creds = creds, at_Admin = True\<rparr>
      \<and> VerifyAccessToken L (90 * second) ex_keys [] = Inl EToken"
proof -
  let ?creds = "\<lparr>ac_AccessToken = ''up'', ac_Headers = []\<rparr>"
  let ?c = "issued_claims 5 ''alice'' typAccess (ex_nonce @ [1]) (Some (60 * second)) True"
  let ?L = "ex_crypto [?c] [?creds] []"
  have len: "length ex_nonce = NonceSize" by (simp add: ex_nonce_def NonceSize_def)
  have issue: "IssueAccessToken ?L ex_nonce 5 ex_keys ''alice'' ?creds (60 * second) True = Inr []"
    by (simp add: IssueAccess_Inr ex_crypto_def ex_keys_def)
  have t: "whole_seconds 5 = 0" "whole_seconds (5 + 60 * second) = 60 * second"
    by (simp_all add: whole_seconds_def second_def)
  note rt = access_token_roundtrip [OF ex_crypto_laws len issue, unfolded t]
  have "VerifyAccessToken ?L (89 * second) ex_keys [] = Inr \<lparr>at_Subject = ''alice'', at_Creds = ?creds, at_Admin = True\<rparr>"
    "VerifyAccessToken ?L (90 * second) ex_keys [] = Inl EToken"
    unfolding rt by (simp_all add: second_def)
  with issue show ?thesis by (simp add: Let_def)
qed

section \<open>Authenticity\<close>

lemma issue_token_claims:
  "issue_token L keys i = Inr tok \<Longrightarrow>
     \<exists>c. issue_claims L keys i = Some c \<and> SignedString L (k_Signing keys) c = Some tok"
  by (cases i) (auto simp: IssueAccess_Inr IssueRefresh_Inr)

lemma keyFunc_EdDSA: "keyFunc keys alg = Some k \<Longrightarrow> alg = ''EdDSA'' \<and> k = k_Verifying keys"
  by (simp add: keyFunc_def split: if_splits)

text \<open>A token that verifies was signed over the claims it carries, by a logged call.\<close>

lemma verified_logged:
  assumes "jwt_unforgeable L (k_Signing keys) (issued_set L keys log)" "keys_ok L keys"
    and "verifyAndDecrypt L unmarshal now keys tok want key req = Inr (subject, admin, creds)"
  obtains i c where "i \<in> set log" "issue_token L keys i = Inr tok" "issue_claims L keys i = Some c"
    "claims_valid (verify_opts req) now c" "c_Typ c = want" "c_Subject c = subject" "c_Admin c = admin"
    "\<exists>blob. z85_Decode (c_Enc c) = Inr blob \<and> decryptCreds L unmarshal key blob = Inr creds"
proof -
  obtain c where c: "ParseWithClaims L (verify_opts req) now (keyFunc keys) tok = Some c"
    and rest: "c_Typ c = want" "c_Subject c = subject" "c_Admin c = admin"
      "\<exists>blob. z85_Decode (c_Enc c) = Inr blob \<and> decryptCreds L unmarshal key blob = Inr creds"
    using assms(3) by (auto simp: verifyAndDecrypt_def bind_result_Inr split: option.splits if_splits sum.splits)
  have kf: "\<forall>alg k. keyFunc keys alg = Some k \<longrightarrow> alg = ''EdDSA'' \<and> k = Public L (k_Signing keys)"
    using keyFunc_EdDSA assms(2) unfolding keys_ok_def by metis
  have "(tok, c) \<in> issued_set L keys log \<and> claims_valid (verify_opts req) now c"
    using assms(1) kf c unfolding jwt_unforgeable_def by blast
  then obtain i where "i \<in> set log" "issue_token L keys i = Inr tok" "issue_claims L keys i = Some c"
    and "claims_valid (verify_opts req) now c" by (auto simp: issued_set_def)
  with rest show thesis by (intro that) auto
qed

lemma typ_distinct [simp]: "typAccess \<noteq> typRefresh" "typRefresh \<noteq> typAccess"
  by (simp_all add: typAccess_def typRefresh_def)

lemma issued_claims_sel [simp]:
  "c_Typ (issued_claims t s ty enc ttl a) = ty" "c_Subject (issued_claims t s ty enc ttl a) = s"
  "c_Admin (issued_claims t s ty enc ttl a) = a" "c_Enc (issued_claims t s ty enc ttl a) = z85_Encode enc"
  by (simp_all add: issued_claims_def)

lemma access_verified_issued:
  assumes "jwt_unforgeable L (k_Signing keys) (issued_set L keys log)" "aead_roundtrip L" "json_creds_roundtrip L"
    and "keys_ok L keys" "log_ok log" "VerifyAccessToken L now keys tok = Inr t"
  shows "\<exists>nonce issued ttl. IssuedAccess nonce issued (at_Subject t) (at_Creds t) ttl (at_Admin t) \<in> set log
    \<and> IssueAccessToken L nonce issued keys (at_Subject t) (at_Creds t) ttl (at_Admin t) = Inr tok
    \<and> now < issued + ttl + 30 * second"
proof -
  obtain subject admin creds where v: "verifyAndDecrypt L (unmarshalAccess L) now keys tok typAccess (k_EncryptAccess keys) True
      = Inr (subject, admin, creds)" and t: "t = \<lparr>at_Subject = subject, at_Creds = creds, at_Admin = admin\<rparr>"
    using assms(6) by (auto simp: VerifyAccessToken_def bind_result_Inr)
  from verified_logged [OF assms(1,4) v] obtain i c where i: "i \<in> set log" "issue_token L keys i = Inr tok"
      "issue_claims L keys i = Some c" and valid: "claims_valid (verify_opts True) now c"
    and c: "c_Typ c = typAccess" "c_Subject c = subject" "c_Admin c = admin"
      "\<exists>blob. z85_Decode (c_Enc c) = Inr blob \<and> decryptCreds L (unmarshalAccess L) (k_EncryptAccess keys) blob = Inr creds" by metis
  show ?thesis
  proof (cases i)
    case (IssuedAccess n u s cr d a)
    obtain pt where pt: "marshalAccess L cr = Some pt"
      and cc: "c = issued_claims u s typAccess (n @ Seal L (k_EncryptAccess keys) n pt) (Some d) a"
      using i(3) IssuedAccess by auto
    have "length n = NonceSize" using assms(5) i(1) IssuedAccess by (auto simp: log_ok_def)
    moreover have "unmarshalAccess L pt = Some cr" using assms(3) pt by (simp add: json_creds_roundtrip_def)
    ultimately have "decryptCreds L (unmarshalAccess L) (k_EncryptAccess keys) (n @ Seal L (k_EncryptAccess keys) n pt) = Inr cr"
      by (rule decrypt_encrypt [where unmarshal = "unmarshalAccess L", OF assms(2)])
    with c(4) have "cr = creds" unfolding cc by (simp add: z85_Decode_Encode)
    moreover have "now < u + d + 30 * second"
      using valid whole_seconds_le [of "u + d"] unfolding cc claims_valid_issued by (simp add: jwtLeeway_def)
    ultimately show ?thesis using i c IssuedAccess unfolding cc t by auto
  next
    case (IssuedRefresh n u s cr d a)
    then show ?thesis using i(3) c(1) by auto
  qed
qed

text \<open>
  C9: authenticity of access tokens.  When nobody else can sign with the server's key, a token that
  \<open>VerifyAccessToken\<close> accepts at time \<open>now\<close> was returned by a call of \<open>IssueAccessToken\<close> with exactly the
  subject, the credentials and the admin flag that the verifier reports, and no more than the leeway
  after the lifetime that call asked for.  In particular a refresh token is never accepted as an access
  token, and no holder of a token can raise it to an admin token.
\<close>

theorem access_token_authentic:
  assumes "jwt_unforgeable L (k_Signing keys) (issued_set L keys log)" "aead_roundtrip L" "json_creds_roundtrip L"
    and "keys_ok L keys" "log_ok log" "VerifyAccessToken L now keys tok = Inr t"
  shows "\<exists>nonce issued ttl. IssuedAccess nonce issued (at_Subject t) (at_Creds t) ttl (at_Admin t) \<in> set log
    \<and> IssueAccessToken L nonce issued keys (at_Subject t) (at_Creds t) ttl (at_Admin t) = Inr tok
    \<and> now < issued + ttl + 30 * second"
  by (rule access_verified_issued [OF assms])

theorem access_token_authentic_witness:
  "let creds = \<lparr>ac_AccessToken = ''up'', ac_Headers = []\<rparr>;
       c = issued_claims 5 ''alice'' typAccess (ex_nonce @ [1]) (Some (60 * second)) False;
       L = ex_crypto [c] [creds] []
   in VerifyAccessToken L second ex_keys [] = Inr \<lparr>at_Subject = ''alice'', at_Creds = creds, at_Admin = False\<rparr>
      \<and> (\<exists>nonce issued ttl. IssueAccessToken L nonce issued ex_keys ''alice'' creds ttl False = Inr [])"
proof -
  let ?creds = "\<lparr>ac_AccessToken = ''up'', ac_Headers = []\<rparr>"
  let ?c = "issued_claims 5 ''alice'' typAccess (ex_nonce @ [1]) (Some (60 * second)) False"
  let ?L = "ex_crypto [?c] [?creds] []" and ?log = "[IssuedAccess ex_nonce 5 ''alice'' \<lparr>ac_AccessToken = ''up'', ac_Headers = []\<rparr> (60 * second) False]"
  have "([], ?c) \<in> issued_set ?L ex_keys ?log"
    by (simp add: issued_set_def IssueAccess_Inr) (simp add: ex_crypto_def ex_keys_def)
  then have unf: "jwt_unforgeable ?L (k_Signing ex_keys) (issued_set ?L ex_keys ?log)"
    unfolding ex_keys_def ServerKeys.select_convs
    by (intro ex_crypto_unforgeable) (auto simp: at_index_def split: if_splits)
  have ver: "VerifyAccessToken ?L second ex_keys [] = Inr \<lparr>at_Subject = ''alice'', at_Creds = ?creds, at_Admin = False\<rparr>"
    by code_simp
  have "log_ok ?log" by (simp add: log_ok_def ex_nonce_def NonceSize_def)
  from access_token_authentic [OF unf ex_crypto_laws(2,3,4) this ver] ver show ?thesis
    unfolding Let_def by auto
qed

end
