(* ===== verification/InitCmd.thy ===== *)
theory InitCmd
  imports ApisCmd Mitm Auth
begin

text \<open>
  \<^verbatim>\<open>bouncer init\<close> (\<^verbatim>\<open>internal/cli/initcmd\<close>), which lays out a data directory, and the rest of that layout
  (\<^verbatim>\<open>internal/cli/datadir\<close>).  The environment, the terminal, the random bytes, bcrypt and the certificate library are
  parameters; file modes and what is printed are left out.
\<close>

section \<open>Definitions\<close>

subsection \<open>The layout\<close>

definition StoreDir :: string where "StoreDir = ''store''"
definition StoreDBFile :: string where "StoreDBFile = ''store.db''"
definition PoliciesDir :: string where "PoliciesDir = ''policies''"
definition MITMCertFile :: string where "MITMCertFile = ''mitm-ca.crt''"
definition MITMKeyFile :: string where "MITMKeyFile = ''mitm-ca.key''"
definition ReadmeFile :: string where "ReadmeFile = ''README.md''"

definition Layout_Policies :: "string \<Rightarrow> string" where
  "Layout_Policies dir = path_Join dir PoliciesDir"

definition Layout_Store :: "string \<Rightarrow> string" where
  "Layout_Store dir = path_Join dir StoreDir"

definition Layout_StoreDB :: "string \<Rightarrow> string" where
  "Layout_StoreDB dir = path_Join (path_Join dir StoreDir) StoreDBFile"

definition Layout_MITMCert :: "string \<Rightarrow> string" where
  "Layout_MITMCert dir = path_Join dir MITMCertFile"

definition Layout_MITMKey :: "string \<Rightarrow> string" where
  "Layout_MITMKey dir = path_Join dir MITMKeyFile"

definition Exists :: "fs_world \<Rightarrow> string \<Rightarrow> bool" where
  "Exists w path \<longleftrightarrow> os_Stat w path \<noteq> None"

text \<open>
  \<^verbatim>\<open>filepath.Abs\<close> fails when the working directory is unknown and the path relative; the absolute path of a relative one
  names the same file, for which the model has the relative key.
\<close>

definition path_Abs :: "bool \<Rightarrow> string \<Rightarrow> string option" where
  "path_Abs wd p = (if HasPrefix p ''/'' \<or> wd then Some (Clean p) else None)"

text \<open>\<^verbatim>\<open>os.WriteFile\<close> creates or truncates, then writes.\<close>

definition os_WriteFile :: "string \<Rightarrow> string \<Rightarrow> fs_world \<Rightarrow> bool \<times> fs_world" where
  "os_WriteFile p b w = (case do_op (OpenFile p) w of (False, w1) \<Rightarrow> (False, w1) | (True, w1) \<Rightarrow> do_op (WriteFile p b) w1)"

subsection \<open>The environment\<close>

text \<open>Standard input: a terminal, with what the password prompt returns, or anything else, with the bytes it holds.\<close>

datatype stdin = Terminal "string option" | Piped string

record init_env = cli_env +
  ie_wd :: bool
  ie_stdin :: stdin
  ie_secret :: "byte list option"
  ie_bcrypt :: "string \<Rightarrow> string option"
  ie_pki :: pki
  ie_draw :: draw

record InitOptions =
  io_AdminPassword :: string
  io_MITM :: bool
  io_MITMCommonName :: string
  io_Force :: bool
  io_SkipIfInitialized :: bool
  io_WithApis :: "string list"

subsection \<open>The files\<close>

definition lf :: char where "lf = CHR 0x0A"

definition existingLayoutFiles :: "fs_world \<Rightarrow> string \<Rightarrow> string list" where
  "existingLayoutFiles w dir =
     filter (\<lambda>name. os_Stat w (path_Join dir name) \<noteq> None)
       [SecretFile, AdminPasswordFile, MITMCertFile, MITMKeyFile, path_Join StoreDir ''store.db'']"

definition lowerhex :: "nat \<Rightarrow> char" where
  "lowerhex n = (if n < 10 then char_of (48 + n) else char_of (87 + n))"

definition EncodeToString :: "byte list \<Rightarrow> string" where
  "EncodeToString bs = concat (map (\<lambda>b. [lowerhex (unat b div 16), lowerhex (unat b mod 16)]) bs)"

definition writeSecret :: "init_env \<Rightarrow> string \<Rightarrow> fs_world \<Rightarrow> bool \<times> fs_world" where
  "writeSecret E path w =
     (case ie_secret E of None \<Rightarrow> (False, w) | Some raw \<Rightarrow> os_WriteFile path (EncodeToString raw @ [lf]) w)"

definition readLine :: "string \<Rightarrow> string option" where
  "readLine s =
     (if lf \<in> set s then Some (takeWhile (\<lambda>c. c \<noteq> lf) s @ [lf])
      else if s = [] then None else Some s)"

definition promptPasswordTTY :: "string option \<Rightarrow> string + string" where
  "promptPasswordTTY r = (case r of None \<Rightarrow> Inl ''read password'' | Some pw \<Rightarrow> if pw = [] then Inl ''empty password'' else Inr pw)"

definition resolvePassword :: "init_env \<Rightarrow> string \<Rightarrow> string + string" where
  "resolvePassword E flagVal =
     (if flagVal \<noteq> [] then Inr flagVal
      else if ce_getenv E ''BOUNCER_ADMIN_PASSWORD'' \<noteq> [] then Inr (ce_getenv E ''BOUNCER_ADMIN_PASSWORD'')
      else (case ie_stdin E of
              Terminal r \<Rightarrow> promptPasswordTTY r
            | Piped s \<Rightarrow>
                (case readLine s of
                   None \<Rightarrow> Inl ''EOF''
                 | Some line \<Rightarrow>
                     (let pw = rev (dropWhile (\<lambda>c. c \<in> {CHR 0x0D, lf}) (rev line))
                      in if pw = [] then Inl ''empty password'' else Inr pw))))"

definition writeBcrypt :: "init_env \<Rightarrow> string \<Rightarrow> string \<Rightarrow> fs_world \<Rightarrow> bool \<times> fs_world" where
  "writeBcrypt E path password w =
     (case ie_bcrypt E password of None \<Rightarrow> (False, w) | Some hash \<Rightarrow> os_WriteFile path (hash @ [lf]) w)"

definition ca_validity :: int where "ca_validity = 10 * 365 * 24 * 60 * minute"

definition writeMITMCA :: "init_env \<Rightarrow> string \<Rightarrow> string \<Rightarrow> fs_world \<Rightarrow> bool \<times> fs_world" where
  "writeMITMCA E dir cn w =
     (case GenerateCA (ie_pki E) (ie_draw E) (ce_now E) (ce_now E) cn ca_validity of
        Inl _ \<Rightarrow> (False, w)
      | Inr (cert, key) \<Rightarrow>
          (case os_WriteFile (path_Join dir MITMCertFile) cert w of
             (False, w1) \<Rightarrow> (False, w1)
           | (True, w1) \<Rightarrow> os_WriteFile (path_Join dir MITMKeyFile) key w1))"

definition readmeBody :: "string \<Rightarrow> bool \<Rightarrow> string" where
  \<open>readmeBody dir mitm =
     (let mitmLine = (if mitm
                      then ''- '' @ MITMCertFile @ '' + '' @ MITMKeyFile @ '' : self-signed MITM CA. Install '' @ MITMCertFile
                             @ '' in your client's trust store and run serve with --mitm.'' @ [lf]
                      else [])
      in Join
          [''# bouncer data dir'',
           [],
           ''This directory was created by `bouncer init`. The layout is:'',
           [],
           ''- '' @ SecretFile @ '' : 32-byte server secret (hex). Treat like a private key.'',
           ''- '' @ AdminPasswordFile @ '' : bcrypt hash of the admin password (for /_admin/login).'',
           ''- '' @ StoreDir @ ''/ : sqlite store(s) for traffic and policies (populated on first serve).'',
           ''- '' @ APIsDir @ ''/ : API specs. Top-level *.yaml files are loose specs; immediate subdirs are bundles installed via "bouncer apis add ...".'',
           ''- '' @ PoliciesDir @ ''/ : drop policy YAML specs here. Loaded at boot; policies edited via the UI/API persist in the store and override same-named files.'',
           mitmLine,
           ''Optional bouncer.yaml in this dir constrains which refs apis add'',
           ''will install:'',
           [],
           ''    apis:'',
           ''      allowlist:'',
           ''        - github.com/acme/*'',
           ''        - github.com/jkylling/*'',
           [],
           ''Start the proxy:'',
           [],
           ''    bouncer serve --data-dir '' @ dir,
           [],
           ''The serve subcommand reads each file above in place; you can override any'',
           ''individual flag (e.g. --addr :8443) without unsetting --data-dir.'',
           []] [lf])\<close>

subsection \<open>Bootstrapping\<close>

fun mkdirs :: "string list \<Rightarrow> fs_world \<Rightarrow> bool \<times> fs_world" where
  "mkdirs [] w = (True, w)"
| "mkdirs (d # ds) w = (case do_op (MkdirAll d) w of (False, w1) \<Rightarrow> (False, w1) | (True, w1) \<Rightarrow> mkdirs ds w1)"

text \<open>The last two steps: the certificate authority where one is asked for, and the README.\<close>

definition write_rest :: "init_env \<Rightarrow> InitOptions \<Rightarrow> string \<Rightarrow> fs_world \<Rightarrow> string option \<times> fs_world" where
  "write_rest E opts absd w =
     (case (if io_MITM opts
            then writeMITMCA E absd (if io_MITMCommonName opts = [] then ''bouncer MITM CA'' else io_MITMCommonName opts) w
            else (True, w)) of
        (False, w1) \<Rightarrow> (Some ''mitm CA'', w1)
      | (True, w1) \<Rightarrow>
          (case os_WriteFile (path_Join absd ReadmeFile) (readmeBody absd (io_MITM opts)) w1 of
             (False, w2) \<Rightarrow> (Some ''readme'', w2)
           | (True, w2) \<Rightarrow> (None, w2)))"

definition bootstrap :: "init_env \<Rightarrow> string \<Rightarrow> InitOptions \<Rightarrow> fs_world \<Rightarrow> string option \<times> fs_world" where
  "bootstrap E dir opts w =
     (case path_Abs (ie_wd E) dir of
        None \<Rightarrow> (Some ''resolve dir'', w)
      | Some absd \<Rightarrow>
          (if existingLayoutFiles w absd \<noteq> [] \<and> \<not> io_Force opts then (Some ''refusing to overwrite existing files'', w)
           else (case mkdirs [absd, path_Join absd APIsDir, path_Join absd PoliciesDir, path_Join absd StoreDir] w of
                   (False, w1) \<Rightarrow> (Some ''mkdir'', w1)
                 | (True, w1) \<Rightarrow>
                     (case writeSecret E (path_Join absd SecretFile) w1 of
                        (False, w2) \<Rightarrow> (Some ''secret'', w2)
                      | (True, w2) \<Rightarrow>
                          (case resolvePassword E (io_AdminPassword opts) of
                             Inl e \<Rightarrow> (Some ''admin password'', w2)
                           | Inr pw \<Rightarrow>
                               (case writeBcrypt E (path_Join absd AdminPasswordFile) pw w2 of
                                  (False, w3) \<Rightarrow> (Some ''admin password hash'', w3)
                                | (True, w3) \<Rightarrow> write_rest E opts absd w3))))))"

definition init_Run :: "init_env \<Rightarrow> string \<Rightarrow> InitOptions \<Rightarrow> fs_world \<Rightarrow> string option \<times> fs_world" where
  "init_Run E dir0 opts w =
     (let dir = (if dir0 = [] then ''.'' else dir0);
          skipBootstrap = (io_SkipIfInitialized opts \<and> IsInitialized w dir)
      in case (if \<not> skipBootstrap then bootstrap E dir opts w else (None, w)) of
           (Some e, w1) \<Rightarrow> (Some e, w1)
         | (None, w1) \<Rightarrow>
             (if io_WithApis opts \<noteq> []
              then InstallRefs (ce_codecs E) (ce_Do E) (ce_getenv E) (ce_now E) (path_Join dir APIsDir) (io_WithApis opts) w1
              else (None, w1)))"

subsection \<open>The command\<close>

record initOpts =
  op_mitmEnabled :: bool
  op_mitmCN :: string
  op_password :: string
  op_force :: bool
  op_withApis :: "string list"

definition nonHiddenCount :: "(string \<times> bool) list \<Rightarrow> nat" where
  "nonHiddenCount entries = length (filter (\<lambda>e. \<not> HasPrefix (fst e) ''.'') entries)"

definition runInit :: "init_env \<Rightarrow> string list \<Rightarrow> initOpts \<Rightarrow> fs_world \<Rightarrow> string option \<times> fs_world" where
  "runInit E args cmd w =
     (let opts = \<lparr>io_AdminPassword = op_password cmd, io_MITM = op_mitmEnabled cmd, io_MITMCommonName = op_mitmCN cmd,
                  io_Force = op_force cmd, io_SkipIfInitialized = False, io_WithApis = op_withApis cmd\<rparr>
      in if length args > 1 then (Some ''expected at most one directory argument'', w)
         else if length args = 1 then init_Run E (hd args) opts w
         else if op_force cmd then init_Run E ''.'' opts w
         else (case os_ReadDir w ''.'' of
                 None \<Rightarrow> (Some ''read cwd'', w)
               | Some entries \<Rightarrow>
                   (if nonHiddenCount entries > 0 then (Some ''refusing to init the current directory'', w)
                    else init_Run E ''.'' opts w)))"

section \<open>The secret's round trip\<close>

lemma lowerhex_digit:
  assumes "n < 16"
  shows "ishex (lowerhex n)" "unhex (lowerhex n) = n" "CHR 0x21 \<le> lowerhex n \<and> lowerhex n \<le> CHR 0x7E"
proof -
  have "n \<in> {0..<16}" using assms by simp
  moreover have "\<forall>n \<in> set [0..<16]. ishex (lowerhex n) \<and> unhex (lowerhex n) = n \<and> CHR 0x21 \<le> lowerhex n \<and> lowerhex n \<le> CHR 0x7E" by code_simp
  ultimately show "ishex (lowerhex n)" "unhex (lowerhex n) = n" "CHR 0x21 \<le> lowerhex n \<and> lowerhex n \<le> CHR 0x7E" by auto
qed

lemma EncodeToString_Cons [simp]:
  "EncodeToString (b # bs) = lowerhex (unat b div 16) # lowerhex (unat b mod 16) # EncodeToString bs"
  by (simp add: EncodeToString_def)

lemma byte_nibbles: "unat (b :: byte) div 16 < 16" "unat b mod 16 < 16"
  using unsigned_less [of b, where 'a = nat] by simp_all

lemma hex_decode_EncodeToString: "hex_decode (EncodeToString bs) = Some bs"
proof (induction bs)
  case (Cons b bs)
  then show ?case using lowerhex_digit [OF byte_nibbles(1) [of b]] lowerhex_digit [OF byte_nibbles(2) [of b]] by simp
qed (simp add: EncodeToString_def)

lemma EncodeToString_graphic: "list_all (\<lambda>c. CHR 0x21 \<le> c \<and> c \<le> CHR 0x7E) (EncodeToString bs)"
  by (induction bs) (use lowerhex_digit(3) byte_nibbles in \<open>simp_all add: EncodeToString_def\<close>)

lemma TrimSpace_line:
  assumes "list_all (\<lambda>c. CHR 0x21 \<le> c \<and> c \<le> CHR 0x7E) s" "s \<noteq> []"
  shows "TrimSpace (s @ [lf]) = s"
proof -
  have "hd s \<in> set s" "hd (rev s) \<in> set s" using assms(2) by (simp_all add: hd_rev)
  then have h: "hd s \<notin> set (map hd space_runes)" "hd (rev s) \<notin> set (map last space_runes)"
    using assms graphic_char by (auto simp: list_all_iff simp del: set_map)
  have r: "map hd (map rev space_runes) = map last space_runes" "\<And>p. p \<in> set space_runes \<Longrightarrow> p \<noteq> []"
    "\<And>p. p \<in> set (map rev space_runes) \<Longrightarrow> p \<noteq> []"
    by (auto simp: space_runes_def)
  have "trim_runes space_runes (s @ [lf]) = s @ [lf]"
    using trim_runes_id [of space_runes "s @ [lf]"] r(2) h(1) assms(2) by simp
  moreover have "find (\<lambda>p. p \<noteq> [] \<and> HasPrefix (lf # rev s) p) (map rev space_runes) = Some [lf]"
    by (simp add: space_runes_def HasPrefix_def lf_def)
  then have "trim_runes (map rev space_runes) (lf # rev s) = trim_runes (map rev space_runes) (rev s)"
    by (subst trim_runes.simps) simp
  moreover have "trim_runes (map rev space_runes) (rev s) = rev s"
    using trim_runes_id [of "map rev space_runes" "rev s"] r h(2) by metis
  ultimately show ?thesis by (simp add: TrimSpace_def)
qed

text \<open>The secret file, read back and decoded, gives the secret.\<close>

lemma secret_roundtrip: "length raw = 32 \<Longrightarrow> SecretFromHex (TrimSpace (EncodeToString raw @ [lf])) = Inr raw"
proof -
  assume "length raw = 32"
  moreover then have "EncodeToString raw \<noteq> []" by (cases raw) auto
  ultimately show ?thesis
    by (simp add: TrimSpace_line EncodeToString_graphic SecretFromHex_def hex_decode_EncodeToString)
qed

section \<open>Writing the files\<close>

lemma os_WriteFile_at:
  assumes "os_WriteFile p b w = (ok, w')"
  shows "q \<noteq> fkey p \<Longrightarrow> map_of (w_fs w') q = map_of (w_fs w) q" "ok \<Longrightarrow> map_of (w_fs w') (fkey p) = Some (File b)"
proof -
  obtain ok1 w1 where 1: "do_op (OpenFile p) w = (ok1, w1)" by fastforce
  show "map_of (w_fs w') q = map_of (w_fs w) q" if "q \<noteq> fkey p"
    using assms 1 that do_op_frame [OF 1, of q] do_op_frame [of "WriteFile p b" w1 ok w' q]
    by (auto simp: os_WriteFile_def split: bool.splits)
  show "map_of (w_fs w') (fkey p) = Some (File b)" if ok
    using assms 1 that by (auto simp: os_WriteFile_def do_op_def map_of_upsert_by split: bool.splits if_splits)
qed

lemma mkdirs_keep:
  assumes "mkdirs ds w = (ok, w')"
  shows "map_of (w_fs w') q = map_of (w_fs w) q \<or> map_of (w_fs w) q = None \<and> map_of (w_fs w') q = Some Dir \<and> (\<exists>d \<in> set ds. prefix q (fkey d))"
  using assms
proof (induction ds arbitrary: w)
  case (Cons d ds)
  obtain ok1 w1 where 1: "do_op (MkdirAll d) w = (ok1, w1)" by fastforce
  show ?case using Cons.IH [of w1] Cons.prems 1 mkdir_monotone [OF 1, of q] by (auto split: bool.splits)
qed simp

lemma mkdirs_dirs:
  assumes "mkdirs ds w = (True, w')" "d \<in> set ds"
  shows "is_dir (w_fs w') (fkey d)"
  using assms
proof (induction ds arbitrary: w)
  case (Cons d0 ds)
  obtain w1 where 1: "do_op (MkdirAll d0) w = (True, w1)" "mkdirs ds w1 = (True, w')"
    using Cons.prems(1) by (auto split: prod.splits bool.splits)
  have "is_dir (w_fs w1) (fkey d0)"
    using 1(1) mkdirs_at [of "prefixes (fkey d0)" "w_fs w" "fkey d0"] by (simp add: do_op_def split: if_splits) (auto simp: is_dir_def)
  then have "is_dir (w_fs w') (fkey d0)" using mkdirs_keep [OF 1(2), of "fkey d0"] by (auto simp: is_dir_def)
  then show ?case using Cons.IH [OF 1(2)] Cons.prems(2) by auto
qed simp

lemma path_Abs_Some: "path_Abs wd p = Some a \<Longrightarrow> a \<noteq> [] \<and> fkey a = fkey p"
  by (auto simp: path_Abs_def split: if_splits)

lemma layout_names [simp]:
  "plain_name SecretFile" "plain_name AdminPasswordFile" "plain_name APIsDir" "plain_name PoliciesDir" "plain_name StoreDir"
  "plain_name MITMCertFile" "plain_name MITMKeyFile" "plain_name ReadmeFile" "plain_name StoreDBFile"
  by (simp_all add: plain_name_def SecretFile_def AdminPasswordFile_def APIsDir_def PoliciesDir_def StoreDir_def MITMCertFile_def
      MITMKeyFile_def ReadmeFile_def StoreDBFile_def)

lemma layout_distinct: "distinct [SecretFile, AdminPasswordFile, APIsDir, PoliciesDir, StoreDir, MITMCertFile, MITMKeyFile, ReadmeFile]"
  by code_simp

lemma os_Stat_key: "fkey p = fkey q \<Longrightarrow> os_Stat w p = os_Stat w q"
  by (simp add: os_Stat_def)

lemma writeMITMCA_at:
  assumes "writeMITMCA E d cn w = (ok, w')" "d \<noteq> []"
  shows "q \<notin> {fkey d @ [MITMCertFile], fkey d @ [MITMKeyFile]} \<Longrightarrow> map_of (w_fs w') q = map_of (w_fs w) q"
    and "ok \<Longrightarrow> \<exists>cert key. GenerateCA (ie_pki E) (ie_draw E) (ce_now E) (ce_now E) cn ca_validity = Inr (cert, key)
        \<and> map_of (w_fs w') (fkey d @ [MITMCertFile]) = Some (File cert) \<and> map_of (w_fs w') (fkey d @ [MITMKeyFile]) = Some (File key)"
proof (atomize(full), cases "GenerateCA (ie_pki E) (ie_draw E) (ce_now E) (ce_now E) cn ca_validity")
  case (Inr ck)
  obtain cert key where ck: "ck = (cert, key)" by fastforce
  obtain ok1 w1 where 1: "os_WriteFile (path_Join d MITMCertFile) cert w = (ok1, w1)" by fastforce
  obtain ok2 w2 where 2: "os_WriteFile (path_Join d MITMKeyFile) key w1 = (ok2, w2)" by fastforce
  have r: "ok \<longleftrightarrow> ok1 \<and> ok2" "w' = (if ok1 then w2 else w1)"
    using assms(1) Inr ck 1 2 by (auto simp: writeMITMCA_def split: bool.splits)
  have "fkey (path_Join d MITMCertFile) = fkey d @ [MITMCertFile]" "fkey (path_Join d MITMKeyFile) = fkey d @ [MITMKeyFile]"
    using fkey_Join [OF assms(2)] by simp_all
  with os_WriteFile_at [OF 1] os_WriteFile_at [OF 2] r layout_distinct Inr ck
  show "(q \<notin> {fkey d @ [MITMCertFile], fkey d @ [MITMKeyFile]} \<longrightarrow> map_of (w_fs w') q = map_of (w_fs w) q)
      \<and> (ok \<longrightarrow> (\<exists>cert key. GenerateCA (ie_pki E) (ie_draw E) (ce_now E) (ce_now E) cn ca_validity = Inr (cert, key)
        \<and> map_of (w_fs w') (fkey d @ [MITMCertFile]) = Some (File cert) \<and> map_of (w_fs w') (fkey d @ [MITMKeyFile]) = Some (File key)))"
    by auto
qed (use assms in \<open>simp add: writeMITMCA_def\<close>)

lemma write_rest_at:
  assumes "write_rest E opts d w = (r, w')" "d \<noteq> []"
  shows "q \<notin> {fkey d @ [MITMCertFile], fkey d @ [MITMKeyFile], fkey d @ [ReadmeFile]} \<Longrightarrow> map_of (w_fs w') q = map_of (w_fs w) q"
    and "\<not> io_MITM opts \<Longrightarrow> q \<noteq> fkey d @ [ReadmeFile] \<Longrightarrow> map_of (w_fs w') q = map_of (w_fs w) q"
    and "r = None \<Longrightarrow> io_MITM opts \<Longrightarrow>
      \<exists>cert key. GenerateCA (ie_pki E) (ie_draw E) (ce_now E) (ce_now E)
          (if io_MITMCommonName opts = [] then ''bouncer MITM CA'' else io_MITMCommonName opts) ca_validity = Inr (cert, key)
        \<and> map_of (w_fs w') (fkey d @ [MITMCertFile]) = Some (File cert) \<and> map_of (w_fs w') (fkey d @ [MITMKeyFile]) = Some (File key)"
proof -
  let ?cn = "if io_MITMCommonName opts = [] then ''bouncer MITM CA'' else io_MITMCommonName opts"
  obtain ok1 w1 where 1: "(if io_MITM opts then writeMITMCA E d ?cn w else (True, w)) = (ok1, w1)" by fastforce
  obtain ok2 w2 where 2: "os_WriteFile (path_Join d ReadmeFile) (readmeBody d (io_MITM opts)) w1 = (ok2, w2)" by fastforce
  have r: "r = None \<longleftrightarrow> ok1 \<and> ok2" "w' = (if ok1 then w2 else w1)"
    using assms(1) 1 2 by (auto simp: write_rest_def split: bool.splits)
  have k: "fkey (path_Join d n) = fkey d @ [n]" if "plain_name n" for n using fkey_Join [OF assms(2) that] .
  have step2: "map_of (w_fs w') q = map_of (w_fs w1) q" if "q \<noteq> fkey d @ [ReadmeFile]" for q
    using os_WriteFile_at(1) [OF 2] r(2) that by (simp add: k)
  show "map_of (w_fs w') q = map_of (w_fs w) q" if "\<not> io_MITM opts" "q \<noteq> fkey d @ [ReadmeFile]"
    using step2 that 1 by auto
  have step1: "map_of (w_fs w1) q = map_of (w_fs w) q" if "q \<notin> {fkey d @ [MITMCertFile], fkey d @ [MITMKeyFile]}" for q
    using writeMITMCA_at(1) [of E d ?cn w ok1 w1 q] that 1 assms(2) by (auto split: if_splits)
  show "map_of (w_fs w') q = map_of (w_fs w) q" if "q \<notin> {fkey d @ [MITMCertFile], fkey d @ [MITMKeyFile], fkey d @ [ReadmeFile]}"
    using step1 step2 that by auto
  assume "r = None" "io_MITM opts"
  with r 1 have "writeMITMCA E d ?cn w = (True, w1)" by simp
  from writeMITMCA_at(2) [OF this assms(2)] obtain cert key where
    "GenerateCA (ie_pki E) (ie_draw E) (ce_now E) (ce_now E) ?cn ca_validity = Inr (cert, key)"
    "map_of (w_fs w1) (fkey d @ [MITMCertFile]) = Some (File cert)" "map_of (w_fs w1) (fkey d @ [MITMKeyFile]) = Some (File key)" by auto
  then show "\<exists>cert key. GenerateCA (ie_pki E) (ie_draw E) (ce_now E) (ce_now E) ?cn ca_validity = Inr (cert, key)
        \<and> map_of (w_fs w') (fkey d @ [MITMCertFile]) = Some (File cert) \<and> map_of (w_fs w') (fkey d @ [MITMKeyFile]) = Some (File key)"
    using step2 layout_distinct by auto
qed

text \<open>What a completed bootstrap leaves.\<close>

definition initialised :: "init_env \<Rightarrow> InitOptions \<Rightarrow> string \<Rightarrow> byte list \<Rightarrow> string \<Rightarrow> fs_world \<Rightarrow> bool" where
  "initialised E opts dir raw hash w \<longleftrightarrow>
     map_of (w_fs w) (fkey dir @ [SecretFile]) = Some (File (EncodeToString raw @ [lf]))
     \<and> map_of (w_fs w) (fkey dir @ [AdminPasswordFile]) = Some (File (hash @ [lf]))
     \<and> is_dir (w_fs w) (fkey dir @ [APIsDir]) \<and> is_dir (w_fs w) (fkey dir @ [PoliciesDir]) \<and> is_dir (w_fs w) (fkey dir @ [StoreDir])
     \<and> (io_MITM opts \<longrightarrow>
          (\<exists>cert key. GenerateCA (ie_pki E) (ie_draw E) (ce_now E) (ce_now E)
               (if io_MITMCommonName opts = [] then ''bouncer MITM CA'' else io_MITMCommonName opts) ca_validity = Inr (cert, key)
             \<and> map_of (w_fs w) (fkey dir @ [MITMCertFile]) = Some (File cert) \<and> map_of (w_fs w) (fkey dir @ [MITMKeyFile]) = Some (File key)))
     \<and> (\<not> io_MITM opts \<and> \<not> io_Force opts \<longrightarrow>
          map_of (w_fs w) (fkey dir @ [MITMCertFile]) = None \<and> map_of (w_fs w) (fkey dir @ [MITMKeyFile]) = None)"

lemma existing_none:
  assumes "existingLayoutFiles w d = []" "d \<noteq> []" "n \<in> {SecretFile, AdminPasswordFile, MITMCertFile, MITMKeyFile}"
  shows "map_of (w_fs w) (fkey d @ [n]) = None"
proof -
  have "os_Stat w (path_Join d n) = None" using assms(1,3) unfolding existingLayoutFiles_def filter_empty_conv by auto
  moreover have "fkey (path_Join d n) = fkey d @ [n]" using assms(2,3) by (intro fkey_Join) auto
  ultimately show ?thesis by (auto simp: os_Stat_def split: if_splits)
qed

lemma is_dir_snoc: "n \<noteq> ''/'' \<Longrightarrow> is_dir fs (d @ [n]) \<longleftrightarrow> map_of fs (d @ [n]) = Some Dir"
  by (auto simp: is_dir_def)

lemma bootstrap_cases:
  assumes "bootstrap E dir opts w = (None, w')"
  obtains d w1 w2 w3 raw pw hash where "d \<noteq> []" "fkey d = fkey dir" "existingLayoutFiles w d \<noteq> [] \<longrightarrow> io_Force opts"
    "mkdirs [d, path_Join d APIsDir, path_Join d PoliciesDir, path_Join d StoreDir] w = (True, w1)"
    "ie_secret E = Some raw" "os_WriteFile (path_Join d SecretFile) (EncodeToString raw @ [lf]) w1 = (True, w2)"
    "resolvePassword E (io_AdminPassword opts) = Inr pw" "ie_bcrypt E pw = Some hash"
    "os_WriteFile (path_Join d AdminPasswordFile) (hash @ [lf]) w2 = (True, w3)" "write_rest E opts d w3 = (None, w')"
proof -
  obtain d where d: "path_Abs (ie_wd E) dir = Some d" using assms by (auto simp: bootstrap_def split: option.splits)
  obtain w1 w2 w3 pw where *: "existingLayoutFiles w d \<noteq> [] \<longrightarrow> io_Force opts"
    "mkdirs [d, path_Join d APIsDir, path_Join d PoliciesDir, path_Join d StoreDir] w = (True, w1)"
    "writeSecret E (path_Join d SecretFile) w1 = (True, w2)" "resolvePassword E (io_AdminPassword opts) = Inr pw"
    "writeBcrypt E (path_Join d AdminPasswordFile) pw w2 = (True, w3)" "write_rest E opts d w3 = (None, w')"
    using assms d by (auto simp: bootstrap_def simp del: mkdirs.simps split: prod.splits bool.splits sum.splits if_splits)
  then show ?thesis
    using that [of d w1 _ w2 pw _ w3] path_Abs_Some [OF d] by (auto simp: writeSecret_def writeBcrypt_def split: option.splits)
qed

lemma bootstrap_ok:
  assumes "bootstrap E dir opts w = (None, w')"
  shows "\<exists>raw pw hash. ie_secret E = Some raw \<and> resolvePassword E (io_AdminPassword opts) = Inr pw \<and> ie_bcrypt E pw = Some hash
    \<and> initialised E opts dir raw hash w'"
  using assms
proof (cases rule: bootstrap_cases)
  case (1 d w1 w2 w3 raw pw hash)
  note D = 1(1,2) and e = 1(3) and raw = 1(5,6) and hash = 1(8,9)
  have k: "fkey (path_Join d n) = fkey dir @ [n]" if "plain_name n" for n using fkey_Join [OF _ that] D by simp
  note W2 = os_WriteFile_at [OF raw(2)] and W3 = os_WriteFile_at [OF hash(2)] and W4 = write_rest_at [OF 1(10)]
  have keep: "map_of (w_fs w') (fkey dir @ [n]) = map_of (w_fs w1) (fkey dir @ [n])"
    if "n \<notin> {SecretFile, AdminPasswordFile, MITMCertFile, MITMKeyFile, ReadmeFile}" for n
    using that W2(1) W3(1) W4(1) D by (simp add: k)
  have dirs: "is_dir (w_fs w') (fkey dir @ [n])" if "n \<in> {APIsDir, PoliciesDir, StoreDir}" for n
  proof -
    have "is_dir (w_fs w1) (fkey (path_Join d n))" using that by (intro mkdirs_dirs [OF 1(4)]) auto
    moreover have "plain_name n" using that by auto
    moreover have "n \<notin> {SecretFile, AdminPasswordFile, MITMCertFile, MITMKeyFile, ReadmeFile}" using that layout_distinct by auto
    ultimately show ?thesis using keep [of n] k [of n] by (auto simp: is_dir_def)
  qed
  have "map_of (w_fs w') (fkey dir @ [n]) = None" if "n \<in> {MITMCertFile, MITMKeyFile}" "\<not> io_MITM opts" "\<not> io_Force opts" for n
  proof -
    have n: "plain_name n" "n \<noteq> ReadmeFile" "n \<noteq> SecretFile" "n \<noteq> AdminPasswordFile" using that(1) layout_distinct by auto
    have "map_of (w_fs w) (fkey dir @ [n]) = None" using existing_none [of w d n] e that D by auto
    moreover have "\<not> prefix (fkey dir @ [n]) (fkey d')" if "d' \<in> set [d, path_Join d APIsDir, path_Join d PoliciesDir, path_Join d StoreDir]" for d'
      using that \<open>n \<in> _\<close> layout_distinct D by (auto simp: k)
    ultimately have "map_of (w_fs w1) (fkey dir @ [n]) = None" using mkdirs_keep [OF 1(4), of "fkey dir @ [n]"] by metis
    then show ?thesis using W4(2) W3(1) W2(1) n that(2) D by (simp add: k)
  qed
  then have "initialised E opts dir raw hash w'"
    unfolding initialised_def using W2(2) W3 W4(1) W4(3) dirs layout_distinct D by (auto simp: k)
  then show ?thesis using raw(1) hash(1) 1(7) by blast
qed

text \<open>The directories on the way to the store are directories.\<close>

lemma mkdirs_path:
  assumes "mkdirs ds w = (True, w')" "d \<in> set ds" "prefix q (fkey d)"
  shows "map_of (w_fs w') q = None \<or> map_of (w_fs w') q = Some Dir"
  using assms(1,2)
proof (induction ds arbitrary: w)
  case (Cons d0 ds)
  obtain w1 where 1: "do_op (MkdirAll d0) w = (True, w1)" "mkdirs ds w1 = (True, w')"
    using Cons.prems(1) by (auto split: prod.splits bool.splits)
  show ?case
  proof (cases "d = d0")
    case True
    then have "op_ok (w_fs w) (MkdirAll d)" using 1(1) by (auto simp: do_op_def split: if_splits)
    then have "map_of (w_fs w) q = None \<or> map_of (w_fs w) q = Some Dir" using assms(3) by (auto simp: list_all_iff)
    then show ?thesis using mkdir_monotone [OF 1(1), of q] mkdirs_keep [OF 1(2), of q] by auto
  qed (use Cons.IH [OF 1(2)] Cons.prems(2) in auto)
qed simp

lemma bootstrap_store_path:
  assumes "bootstrap E dir opts w = (None, w')" "prefix q (fkey dir @ [StoreDir])"
  shows "map_of (w_fs w') q = None \<or> map_of (w_fs w') q = Some Dir"
  using assms(1)
proof (cases rule: bootstrap_cases)
  case (1 d w1 w2 w3 raw pw hash)
  have k: "fkey (path_Join d n) = fkey dir @ [n]" if "plain_name n" for n using fkey_Join [OF _ that] 1(1,2) by simp
  have w1: "map_of (w_fs w1) q = None \<or> map_of (w_fs w1) q = Some Dir"
    using mkdirs_path [OF 1(4), of "path_Join d StoreDir" q] assms(2) by (simp add: k)
  have "q \<noteq> fkey dir @ [n]" if "n \<in> {SecretFile, AdminPasswordFile, MITMCertFile, MITMKeyFile, ReadmeFile}" for n
    using assms(2) that layout_distinct by auto
  then have "map_of (w_fs w') q = map_of (w_fs w1) q"
    using write_rest_at(1) [OF 1(10,1), of q] os_WriteFile_at(1) [OF 1(9), of q] os_WriteFile_at(1) [OF 1(6), of q] by (simp add: k 1(2))
  then show ?thesis using w1 by simp
qed

section \<open>What is there is kept\<close>

lemma crash_safe_env: "crash_safe d w w' \<Longrightarrow> w_rand w' = w_rand w"
  by (auto simp: crash_safe_def run_ops_env)

text \<open>An install never touches what exists outside the APIs directory.\<close>

lemma Install_keeps:
  assumes "Install C Do now f root ref renames w = (r, w')" "root \<noteq> []" "rand_ok w" "map_of (w_fs w) q = Some n" "\<not> prefix (fkey root) q"
  shows "map_of (w_fs w') q = Some n \<and> rand_ok w'"
proof -
  obtain tmp m where s: "fkey tmp = fkey root @ [''.tmp.'' @ m]" "installs_at C tmp w r w'" using Install_steps [OF assms(1-3)] by metis
  have np: "\<not> prefix (fkey tmp) q" using assms(5) s(1) by (auto simp: append_prefixD)
  have safe: "map_of (w_fs v) q = Some n \<and> rand_ok v" if "crash_safe (fkey tmp) w v" for v
    using crash_safe_confined [OF that] np assms(3,4) crash_safe_env [OF that] unfolding confined_def rand_ok_def by (metis option.distinct(1))
  show ?thesis
  proof (cases r)
    case (Inr final)
    then obtain v where v: "crash_safe (fkey tmp) w v" "do_op (Rename tmp final) v = (True, w')" "map_of (w_fs v) (fkey tmp) = Some Dir" "os_Stat v final = None"
      using s(2) by (auto simp: installs_at_def)
    have q: "map_of (w_fs v) q = Some n" "rand_ok v" using safe [OF v(1)] by auto
    have "op_ok (w_fs v) (Rename tmp final)" using v(2) by (auto simp: do_op_def split: if_splits)
    then have "list_all (\<lambda>(q, _). \<not> strict_prefix (fkey final) q) (w_fs v)" using v(3) by simp
    then have "\<not> strict_prefix (fkey final) q" using map_of_SomeD [OF q(1)] by (auto simp: list_all_iff)
    moreover have "q \<noteq> fkey final" using v(4) q(1) by (auto simp: os_Stat_def split: if_splits)
    ultimately have "\<not> prefix (fkey final) q" by (auto simp: strict_prefix_def)
    then show ?thesis using do_op_frame [OF v(2), of q] np q do_op_env [OF v(2)] by (simp add: rand_ok_def)
  qed (use s(2) safe in \<open>auto simp: installs_at_def\<close>)
qed

lemma install_each_keeps:
  assumes "install_each C Do now f root refs w = (r, w')" "root \<noteq> []" "rand_ok w" "map_of (w_fs w) q = Some n" "\<not> prefix (fkey root) q"
  shows "map_of (w_fs w') q = Some n"
  using assms(1,3,4)
proof (induction refs arbitrary: w)
  case (Cons raw refs)
  show ?case
  proof (cases "ParseRef raw")
    case (Inr r0)
    obtain ri w1 where i: "Install C Do now f root (default_version r0) [] w = (ri, w1)" by fastforce
    note K = Install_keeps [OF i assms(2) Cons.prems(2,3) assms(5)]
    show ?thesis
    proof (cases "refAlreadyInstalled C w root (default_version r0)")
      case True
      then show ?thesis using Cons.IH [of w] Cons.prems Inr by simp
    next
      case False
      then show ?thesis using Cons.IH [of w1] Cons.prems Inr i K by (cases ri) (simp_all add: Let_def)
    qed
  qed (use Cons.prems in simp)
qed simp

lemma InstallRefs_keeps:
  assumes "InstallRefs C Do getenv now root refs w = (r, w')" "root \<noteq> []" "rand_ok w" "map_of (w_fs w) q = Some n" "\<not> prefix (fkey root) q"
  shows "map_of (w_fs w') q = Some n"
proof (cases "refs = []")
  case False
  obtain ok w1 where 1: "do_op (MkdirAll root) w = (ok, w1)" by fastforce
  have "map_of (w_fs w1) q = Some n" "rand_ok w1"
    using mkdir_monotone [OF 1, of q] do_op_env [OF 1] assms(3,4) by (auto simp: rand_ok_def)
  then show ?thesis
    using assms(1) 1 False install_each_keeps [OF _ assms(2) _ _ assms(5)] by (auto simp: InstallRefs_def split: bool.splits)
qed (use assms in \<open>simp add: InstallRefs_def\<close>)

definition credential_files :: "string list list" where
  "credential_files = [[SecretFile], [AdminPasswordFile], [MITMCertFile], [MITMKeyFile], [StoreDir, StoreDBFile]]"

lemma existing_refused:
  assumes "path_Abs wd dir = Some d" "rel \<in> set credential_files" "map_of (w_fs w) (fkey dir @ rel) \<noteq> None"
  shows "existingLayoutFiles w d \<noteq> []"
proof -
  note D = path_Abs_Some [OF assms(1)]
  have names: "list_all plain_name rel" using assms(2) by (auto simp: credential_files_def)
  have "map (\<lambda>rel. Join rel ''/'') credential_files = [SecretFile, AdminPasswordFile, MITMCertFile, MITMKeyFile, path_Join StoreDir ''store.db'']"
    by code_simp
  then have "Join rel ''/'' \<in> set [SecretFile, AdminPasswordFile, MITMCertFile, MITMKeyFile, path_Join StoreDir ''store.db'']"
    using assms(2) by (metis image_eqI list.set_map)
  moreover have "os_Stat w (path_Join d (Join rel ''/'')) \<noteq> None"
    using fkey_Join_names [OF _ names, of d] D assms(3) by (auto simp: os_Stat_def)
  ultimately show ?thesis unfolding existingLayoutFiles_def filter_empty_conv by blast
qed

definition ex_init_env :: "string \<Rightarrow> init_env" where
  "ex_init_env pw = \<lparr>ce_codecs = ex_bundle_codecs, ce_allow = (\<lambda>_. Inr []), ce_Do = (\<lambda>_ _. Inr (200, [])), ce_getenv = (\<lambda>_. []), ce_now = 0,
     ie_wd = True, ie_stdin = Piped pw, ie_secret = Some (replicate 32 7), ie_bcrypt = (\<lambda>p. if list_all (\<lambda>c. CHR 0x21 \<le> c \<and> c \<le> CHR 0x7E) p then Some (''h'' @ p) else None), ie_pki = ex_pki, ie_draw = ex_draw\<rparr>"

definition ex_init_options :: InitOptions where
  "ex_init_options = \<lparr>io_AdminPassword = [], io_MITM = True, io_MITMCommonName = [], io_Force = False, io_SkipIfInitialized = True, io_WithApis = []\<rparr>"

text \<open>
  C27: initialising never overwrites.  Without force, no run of \<^verbatim>\<open>init\<close> or of \<^verbatim>\<open>serve --init\<close>, successful or failing at any
  point, changes a secret, a password hash, a certificate, its key or a database that the data directory
  already holds, also when it goes on to install bundles.
\<close>

theorem init_never_overwrites:
  assumes "init_Run E dir opts w = (r, w')" "\<not> io_Force opts" "rand_ok w"
    and "rel \<in> set [[''secret.hex''], [''admin-password.hash''], [''mitm-ca.crt''], [''mitm-ca.key''], [''store'', ''store.db'']]"
    and "map_of (w_fs w) (fkey (if dir = [] then ''.'' else dir) @ rel) = Some n"
  shows "map_of (w_fs w') (fkey (if dir = [] then ''.'' else dir) @ rel) = Some n"
proof -
  let ?d = "if dir = [] then ''.'' else dir"
  have rel: "rel \<in> set credential_files"
    using assms(4) by (simp add: credential_files_def SecretFile_def AdminPasswordFile_def MITMCertFile_def MITMKeyFile_def StoreDir_def StoreDBFile_def)
  then have np: "\<not> prefix (fkey (path_Join ?d APIsDir)) (fkey ?d @ rel)"
    using fkey_Join [of ?d APIsDir] layout_distinct by (auto simp: credential_files_def)
  have j: "path_Join ?d APIsDir \<noteq> []" by (simp add: path_Join_def)
  show ?thesis
  proof (cases "io_SkipIfInitialized opts \<and> IsInitialized w ?d")
    case True
    then show ?thesis
      using assms(1,5) InstallRefs_keeps [OF _ j assms(3) assms(5) np] by (auto simp: init_Run_def Let_def split: if_splits)
  next
    case False
    have "\<exists>e. bootstrap E ?d opts w = (Some e, w)"
      using existing_refused [OF _ rel] assms(2,5) by (auto simp: bootstrap_def split: option.splits)
    then show ?thesis using False assms(1,5) by (auto simp: init_Run_def Let_def split: if_splits)
  qed
qed

definition ex_secret_world :: fs_world where
  "ex_secret_world = ex_empty_world\<lparr>w_fs := [([''/'', ''d''], Dir), ([''/'', ''d'', ''secret.hex''], File ''s'')]\<rparr>"

theorem init_never_overwrites_witness:
  "fst (init_Run (ex_init_env ''pw'') ''/d'' ex_init_options ex_secret_world) = Some ''refusing to overwrite existing files''
   \<and> map_of (w_fs (snd (init_Run (ex_init_env ''pw'') ''/d'' ex_init_options ex_secret_world))) (fkey ''/d'' @ [''secret.hex'']) = Some (File ''s'')"
proof -
  have f: "fst (init_Run (ex_init_env ''pw'') ''/d'' ex_init_options ex_secret_world) = Some ''refusing to overwrite existing files''"
    by code_simp
  have k: "fkey ''/d'' = [''/'', ''d'']" by code_simp
  have r: "rand_ok ex_secret_world" using ex_rand by (simp add: rand_ok_def ex_secret_world_def)
  have "map_of (w_fs ex_secret_world) (fkey (if ''/d'' = [] then ''.'' else ''/d'') @ [''secret.hex'']) = Some (File ''s'')"
    by (simp add: ex_secret_world_def k)
  from init_never_overwrites [OF surjective_pairing _ r _ this, of ex_init_options "ex_init_env ''pw''"] f
  show ?thesis by (simp add: ex_init_options_def)
qed

text \<open>
  An init that fails for want of a password has already written the secret; a second try with a password is
  refused, although the directory is not initialised.
\<close>

lemma failed_init_blocks_retry:
  "case init_Run (ex_init_env []) ''/d'' ex_init_options ex_empty_world of
     (r, w) \<Rightarrow> r = Some ''admin password'' \<and> \<not> IsInitialized w ''/d''
       \<and> fst (init_Run (ex_init_env ''pw'') ''/d'' ex_init_options w) = Some ''refusing to overwrite existing files''"
  by code_simp

end
