(* ===== verification/Messages.thy ===== *)
theory Messages
  imports Pb
begin

text \<open>
  Meta types and lazily completed values, from \<^verbatim>\<open>internal/runtime/messages\<close>.

  A \<^verbatim>\<open>*messages.Value\<close> is an address in an explicit heap, because the policies of one request
  share the values of the matched action and see each other's completed fetches.  The one-shot
  \<^verbatim>\<open>completion\<close> of a full-view value holds its closure as a code of type \<open>'m\<close> (the meta whose
  completer it is); running the closure is an argument \<open>exec\<close> of the operations that may run it.

  The CEL interpreter is third-party code.  A compiled CEL program is an interaction tree
  \<open>cel\<close>: it either returns a value, reads a field of a \<^verbatim>\<open>Value\<close>, or builds a
  \<^verbatim>\<open>Type{...}\<close> literal, and continues with what it was given.  These are the only ways a
  program reaches the code of this package; everything else the interpreter does is inside the
  tree.
\<close>

section \<open>Definitions\<close>

subsection \<open>Errors and CEL values\<close>

text \<open>
  Error values.  \<open>EWrap\<close> is \<^verbatim>\<open>fmt.Errorf("...: %w", err)\<close>, \<open>EComplete\<close> the wrapped completion
  failure of \<open>getFullViewField\<close>, \<open>EUpstream\<close> an \<^verbatim>\<open>apiclient.UpstreamError\<close> with its HTTP status,
  \<open>EOpaque\<close> an error made by third-party code.
\<close>

datatype err =
    ENilType
  | EEmptyFullName
  | EDuplicateType string
  | EUnknownType string
  | ENoCompleterWired
  | EBadKey
  | ENoField string string
  | EInputNotSet string string
  | ENoCompleter string string
  | EDidNotSet string string
  | EComplete string err
  | EInputViewNew string
  | EOutputInLiteral string string
  | EUpstream nat
  | EMsg string
  | EOpaque string
  | EWrap string err
  | EDepth

text \<open>The CEL values the code distinguishes; the others are opaque.\<close>

datatype cval =
    CNull
  | CBool bool
  | CStr string
  | CObj nat
  | COpt "cval option"
  | CMetaReq MetaRequest
  | CErr err
  | COther string

datatype cel =
    Ret cval
  | GetField nat cval "cval \<Rightarrow> cel"
  | NewObj string "(string \<times> cval) list" "cval \<Rightarrow> cel"

subsection \<open>Types and the registry\<close>

definition InputViewSuffix :: string where
  "InputViewSuffix = ''.__input__''"

record mtype =
  t_FullName :: string
  t_InputFields :: "string list"
  t_OutputFields :: "string list"

definition InputViewName :: "mtype \<Rightarrow> string" where
  "InputViewName t = t_FullName t @ InputViewSuffix"

definition HasInputField :: "mtype \<Rightarrow> string \<Rightarrow> bool" where
  "HasInputField t name \<longleftrightarrow> List.member (t_InputFields t) name"

definition HasOutputField :: "mtype \<Rightarrow> string \<Rightarrow> bool" where
  "HasOutputField t name \<longleftrightarrow> List.member (t_OutputFields t) name"

text \<open>A registry is the list of its entries; every key occurs once.\<close>

type_synonym registry = "(string \<times> mtype) list"

definition NewRegistry :: registry where
  "NewRegistry = []"

definition Registry_Get :: "registry \<Rightarrow> string \<Rightarrow> mtype option" where
  "Registry_Get r fullName = map_of r fullName"

definition Registry_Register :: "registry \<Rightarrow> mtype option \<Rightarrow> err + registry" where
  "Registry_Register r t0 =
     (case t0 of
        None \<Rightarrow> Inl ENilType
      | Some t \<Rightarrow>
          (if t_FullName t = [] then Inl EEmptyFullName
           else (case Registry_Get r (t_FullName t) of
                   Some _ \<Rightarrow> Inl (EDuplicateType (t_FullName t))
                 | None \<Rightarrow> Inr (r @ [(t_FullName t, t)]))))"

definition Registry_All :: "registry \<Rightarrow> mtype list" where
  "Registry_All r = map snd r"

subsection \<open>Values\<close>

datatype view = fullView | inputView

record 'm completion =
  c_fn :: "'m option"
  c_done :: bool
  c_err :: "err option"

record 'm mvalue =
  v_typ :: mtype
  v_view :: view
  v_nameStr :: string
  v_inputs :: "(string \<times> cval) list"
  v_outputs :: "(string \<times> cval) list"
  v_complete :: "'m completion option"

text \<open>The heap: the value at address \<open>a\<close> is the \<open>a\<close>-th one allocated.\<close>

record 'm vheap =
  h_vals :: "'m mvalue list"

definition deref :: "('m, 'z) vheap_scheme \<Rightarrow> nat \<Rightarrow> 'm mvalue option" where
  "deref h a = (if a < length (h_vals h) then Some (h_vals h ! a) else None)"

definition set_val :: "nat \<Rightarrow> 'm mvalue \<Rightarrow> ('m, 'z) vheap_scheme \<Rightarrow> ('m, 'z) vheap_scheme" where
  "set_val a v h = h\<lparr>h_vals := (h_vals h)[a := v]\<rparr>"

definition alloc :: "'m mvalue \<Rightarrow> ('m, 'z) vheap_scheme \<Rightarrow> nat \<times> ('m, 'z) vheap_scheme" where
  "alloc v h = (length (h_vals h), h\<lparr>h_vals := h_vals h @ [v]\<rparr>)"

definition new_completion :: "'m completion" where
  "new_completion = \<lparr>c_fn = None, c_done = False, c_err = None\<rparr>"

definition NewInputValue ::
  "registry \<Rightarrow> string \<Rightarrow> (string \<times> cval) list \<Rightarrow> ('m, 'z) vheap_scheme
     \<Rightarrow> err + (nat \<times> ('m, 'z) vheap_scheme)" where
  "NewInputValue r fullName fs h =
     (case Registry_Get r fullName of
        None \<Rightarrow> Inl (EUnknownType fullName)
      | Some t \<Rightarrow>
          Inr (alloc \<lparr>v_typ = t, v_view = inputView, v_nameStr = InputViewName t,
                      v_inputs = fs, v_outputs = [], v_complete = None\<rparr> h))"

definition NewFullValue ::
  "registry \<Rightarrow> string \<Rightarrow> (string \<times> cval) list \<Rightarrow> ('m, 'z) vheap_scheme
     \<Rightarrow> err + (nat \<times> ('m, 'z) vheap_scheme)" where
  "NewFullValue r fullName inputFields h =
     (case Registry_Get r fullName of
        None \<Rightarrow> Inl (EUnknownType fullName)
      | Some t \<Rightarrow>
          Inr (alloc \<lparr>v_typ = t, v_view = fullView, v_nameStr = t_FullName t,
                      v_inputs = inputFields, v_outputs = [], v_complete = Some new_completion\<rparr> h))"

definition IsFullView :: "'m mvalue \<Rightarrow> bool" where
  "IsFullView v \<longleftrightarrow> v_view v = fullView"

definition unwrapOptional :: "cval \<Rightarrow> cval" where
  "unwrapOptional val =
     (case val of COpt None \<Rightarrow> CNull | COpt (Some x) \<Rightarrow> x | _ \<Rightarrow> val)"

definition assoc_set :: "string \<Rightarrow> cval \<Rightarrow> (string \<times> cval) list \<Rightarrow> (string \<times> cval) list" where
  "assoc_set k x m = upsert_by fst (k, x) m"

text \<open>\<open>SetField\<close> panics on an input view or an undeclared field: \<open>None\<close> is the panic.\<close>

definition SetField :: "string \<Rightarrow> cval \<Rightarrow> 'm mvalue \<Rightarrow> 'm mvalue option" where
  "SetField name val v =
     (if v_view v \<noteq> fullView then None
      else if \<not> HasOutputField (v_typ v) name then None
      else Some (v\<lparr>v_outputs := assoc_set name (unwrapOptional val) (v_outputs v)\<rparr>))"

definition SetCompleter :: "'m \<Rightarrow> 'm mvalue \<Rightarrow> 'm mvalue" where
  "SetCompleter c v =
     (case v_complete v of
        None \<Rightarrow> v
      | Some cp \<Rightarrow> (if c_done cp then v else v\<lparr>v_complete := Some (cp\<lparr>c_fn := Some c\<rparr>)\<rparr>))"

definition InputFields :: "'m mvalue \<Rightarrow> (string \<times> cval) list" where
  "InputFields v = v_inputs v"

subsection \<open>Completion and field access\<close>

text \<open>\<open>exec c a h\<close> runs the completer coded by \<open>c\<close> for the value at \<open>a\<close>.\<close>

type_synonym ('m, 'z) runner = "'m \<Rightarrow> nat \<Rightarrow> ('m, 'z) vheap_scheme \<Rightarrow> err option \<times> ('m, 'z) vheap_scheme"

definition mark_done :: "nat \<Rightarrow> ('m, 'z) vheap_scheme \<Rightarrow> ('m, 'z) vheap_scheme" where
  "mark_done a h =
     (case deref h a of
        None \<Rightarrow> h
      | Some v \<Rightarrow> set_val a (v\<lparr>v_complete := map_option (\<lambda>cp. cp\<lparr>c_done := True\<rparr>) (v_complete v)\<rparr>) h)"

definition record_err :: "nat \<Rightarrow> err option \<Rightarrow> ('m, 'z) vheap_scheme \<Rightarrow> ('m, 'z) vheap_scheme" where
  "record_err a e h =
     (case deref h a of
        None \<Rightarrow> h
      | Some v \<Rightarrow> set_val a (v\<lparr>v_complete := map_option (\<lambda>cp. cp\<lparr>c_err := e\<rparr>) (v_complete v)\<rparr>) h)"

definition completion_run ::
  "('m, 'z) runner \<Rightarrow> nat \<Rightarrow> 'm completion \<Rightarrow> ('m, 'z) vheap_scheme \<Rightarrow> err option \<times> ('m, 'z) vheap_scheme" where
  "completion_run exec a cp h =
     (if c_done cp then (c_err cp, h)
      else (let h1 = mark_done a h
            in case c_fn cp of
                 None \<Rightarrow> (Some ENoCompleterWired, record_err a (Some ENoCompleterWired) h1)
               | Some c \<Rightarrow> (let (e, h2) = exec c a h1 in (e, record_err a e h2))))"

text \<open>\<^verbatim>\<open>errors.Is(err, errNoCompleter)\<close>.\<close>

fun is_no_completer :: "err \<Rightarrow> bool" where
  "is_no_completer ENoCompleterWired = True"
| "is_no_completer (EWrap _ e) = is_no_completer e"
| "is_no_completer (EComplete _ e) = is_no_completer e"
| "is_no_completer _ = False"

definition missingInputViewField :: "'m mvalue \<Rightarrow> string \<Rightarrow> cval" where
  "missingInputViewField v field =
     (if HasInputField (v_typ v) field then CErr (EInputNotSet (v_nameStr v) field)
      else CErr (ENoField (v_nameStr v) field))"

definition getFullViewField ::
  "('m, 'z) runner \<Rightarrow> nat \<Rightarrow> 'm mvalue \<Rightarrow> string \<Rightarrow> ('m, 'z) vheap_scheme \<Rightarrow> cval \<times> ('m, 'z) vheap_scheme" where
  "getFullViewField exec a v field h =
     (if HasOutputField (v_typ v) field then
        (case v_complete v of
           None \<Rightarrow> (CErr (ENoCompleter (v_nameStr v) field), h)
         | Some cp \<Rightarrow>
             (let (e, h1) = completion_run exec a cp h
              in case e of
                   Some er \<Rightarrow>
                     (if is_no_completer er then (CErr (ENoCompleter (v_nameStr v) field), h1)
                      else (CErr (EComplete (v_nameStr v) er), h1))
                 | None \<Rightarrow>
                     (case deref h1 a of
                        None \<Rightarrow> (CErr (EDidNotSet (v_nameStr v) field), h1)
                      | Some v1 \<Rightarrow>
                          (case map_of (v_outputs v1) field of
                             Some val \<Rightarrow> (val, h1)
                           | None \<Rightarrow> (CErr (EDidNotSet (v_nameStr v) field), h1)))))
      else if HasInputField (v_typ v) field then (CErr (EInputNotSet (v_nameStr v) field), h)
      else (CErr (ENoField (v_nameStr v) field), h))"

definition Value_Get ::
  "('m, 'z) runner \<Rightarrow> nat \<Rightarrow> cval \<Rightarrow> ('m, 'z) vheap_scheme \<Rightarrow> cval \<times> ('m, 'z) vheap_scheme" where
  "Value_Get exec a key h =
     (case key of
        CStr field \<Rightarrow>
          (case deref h a of
             None \<Rightarrow> (CErr EBadKey, h)
           | Some v \<Rightarrow>
               (case map_of (v_inputs v) field of
                  Some val \<Rightarrow> (val, h)
                | None \<Rightarrow>
                    (if v_view v = inputView then (missingInputViewField v field, h)
                     else getFullViewField exec a v field h)))
      | _ \<Rightarrow> (CErr EBadKey, h))"

subsection \<open>Type providers\<close>

text \<open>
  The cel-go base provider is third-party: its answers are the arguments \<open>base_type\<close>,
  \<open>base_field\<close>, \<open>base_names\<close> and \<open>base_new\<close>.  A \<open>FieldType\<close> of a meta field is always \<open>dyn\<close>, so
  only its presence is kept.
\<close>

definition lookup_view :: "registry \<Rightarrow> string \<Rightarrow> (mtype \<times> view) option" where
  "lookup_view r name =
     (case Registry_Get r name of
        Some t \<Rightarrow> Some (t, fullView)
      | None \<Rightarrow>
          (case CutSuffix name InputViewSuffix of
             Some base \<Rightarrow>
               (if base \<noteq> [] then
                  (case Registry_Get r base of Some t \<Rightarrow> Some (t, inputView) | None \<Rightarrow> None)
                else None)
           | None \<Rightarrow> None))"

definition FullProvider_FindStructType :: "(string \<Rightarrow> bool) \<Rightarrow> registry \<Rightarrow> string \<Rightarrow> bool" where
  "FullProvider_FindStructType base_type r name =
     (case lookup_view r name of Some _ \<Rightarrow> True | None \<Rightarrow> base_type name)"

definition FullProvider_FindStructFieldType ::
  "(string \<Rightarrow> string \<Rightarrow> bool) \<Rightarrow> registry \<Rightarrow> string \<Rightarrow> string \<Rightarrow> bool" where
  "FullProvider_FindStructFieldType base_field r structType field =
     (case lookup_view r structType of
        None \<Rightarrow> base_field structType field
      | Some (t, inputView) \<Rightarrow> HasInputField t field
      | Some (t, fullView) \<Rightarrow> HasInputField t field \<or> HasOutputField t field)"

definition FullProvider_FindStructFieldNames ::
  "(string \<Rightarrow> string list option) \<Rightarrow> registry \<Rightarrow> string \<Rightarrow> string list option" where
  "FullProvider_FindStructFieldNames base_names r structType =
     (case lookup_view r structType of
        None \<Rightarrow> base_names structType
      | Some (t, inputView) \<Rightarrow> Some (t_InputFields t)
      | Some (t, fullView) \<Rightarrow> Some (t_InputFields t @ t_OutputFields t))"

text \<open>
  The field check of \<open>NewValue\<close> reports the first offending key of an iteration over the Go map;
  the model iterates in list order.
\<close>

fun literal_field_error :: "mtype \<Rightarrow> (string \<times> cval) list \<Rightarrow> err option" where
  "literal_field_error t [] = None"
| "literal_field_error t ((name, x) # rest) =
     (if \<not> HasInputField t name
      then (if HasOutputField t name then Some (EOutputInLiteral (t_FullName t) name)
            else Some (ENoField (t_FullName t) name))
      else literal_field_error t rest)"

definition FullProvider_NewValue ::
  "(string \<Rightarrow> (string \<times> cval) list \<Rightarrow> cval) \<Rightarrow> registry \<Rightarrow> string \<Rightarrow> (string \<times> cval) list
     \<Rightarrow> ('m, 'z) vheap_scheme \<Rightarrow> cval \<times> ('m, 'z) vheap_scheme" where
  "FullProvider_NewValue base_new r structType fs h =
     (case lookup_view r structType of
        None \<Rightarrow> (base_new structType fs, h)
      | Some (t, inputView) \<Rightarrow> (CErr (EInputViewNew structType), h)
      | Some (t, fullView) \<Rightarrow>
          (case literal_field_error t fs of
             Some e \<Rightarrow> (CErr e, h)
           | None \<Rightarrow>
               (case NewFullValue r (t_FullName t) fs h of
                  Inl e \<Rightarrow> (CErr e, h)
                | Inr (a, h1) \<Rightarrow> (CObj a, h1))))"

definition RequestProvider_FindStructType :: "(string \<Rightarrow> bool) \<Rightarrow> mtype \<Rightarrow> string \<Rightarrow> bool" where
  "RequestProvider_FindStructType base_type t name =
     (if name = InputViewName t then True else base_type name)"

definition RequestProvider_FindStructFieldType ::
  "(string \<Rightarrow> string \<Rightarrow> bool) \<Rightarrow> mtype \<Rightarrow> string \<Rightarrow> string \<Rightarrow> bool" where
  "RequestProvider_FindStructFieldType base_field t structType field =
     (if structType = InputViewName t then HasInputField t field else base_field structType field)"

definition RequestProvider_FindStructFieldNames ::
  "(string \<Rightarrow> string list option) \<Rightarrow> mtype \<Rightarrow> string \<Rightarrow> string list option" where
  "RequestProvider_FindStructFieldNames base_names t structType =
     (if structType = InputViewName t then Some (t_InputFields t) else base_names structType)"

definition RequestProvider_NewValue ::
  "(string \<Rightarrow> (string \<times> cval) list \<Rightarrow> cval) \<Rightarrow> mtype \<Rightarrow> string \<Rightarrow> (string \<times> cval) list
     \<Rightarrow> ('m, 'z) vheap_scheme \<Rightarrow> cval \<times> ('m, 'z) vheap_scheme" where
  "RequestProvider_NewValue base_new t structType fs h =
     (if structType = InputViewName t then (CErr (EInputViewNew structType), h)
      else (base_new structType fs, h))"

subsection \<open>Running a CEL program\<close>

text \<open>The interpreter's calls into this package, for given \<open>Get\<close> and \<open>NewValue\<close> handlers.\<close>

primrec run_cel ::
  "(nat \<Rightarrow> cval \<Rightarrow> 's \<Rightarrow> cval \<times> 's) \<Rightarrow> (string \<Rightarrow> (string \<times> cval) list \<Rightarrow> 's \<Rightarrow> cval \<times> 's)
     \<Rightarrow> cel \<Rightarrow> 's \<Rightarrow> cval \<times> 's" where
  "run_cel get new (Ret v) s = (v, s)"
| "run_cel get new (GetField a k cont) s = (let (v, s') = get a k s in run_cel get new (cont v) s')"
| "run_cel get new (NewObj ty fs cont) s = (let (v, s') = new ty fs s in run_cel get new (cont v) s')"

text \<open>\<^verbatim>\<open>errors.As(err, *apiclient.UpstreamError)\<close>: the status of an upstream failure in the chain.\<close>

fun upstream_status :: "err \<Rightarrow> nat option" where
  "upstream_status (EUpstream s) = Some s"
| "upstream_status (EWrap _ e) = upstream_status e"
| "upstream_status (EComplete _ e) = upstream_status e"
| "upstream_status _ = None"

section \<open>Lemmas\<close>

subsection \<open>The heap\<close>

lemma deref_alloc_old: "deref h a = Some v \<Longrightarrow> deref (snd (alloc w h)) a = Some v"
  by (auto simp: deref_def alloc_def nth_append split: if_splits)

lemma deref_alloc_new: "alloc w h = (a, h') \<Longrightarrow> deref h' a = Some w"
  by (auto simp: deref_def alloc_def)

lemma deref_set_val:
  "deref (set_val a w h) b =
     (if a = b \<and> b < length (h_vals h) then Some w else deref h b)"
  by (auto simp: deref_def set_val_def)

lemma deref_Some_less: "deref h a = Some v \<Longrightarrow> a < length (h_vals h)"
  by (auto simp: deref_def split: if_splits)

lemma deref_set_val_same: "deref h a = Some v \<Longrightarrow> deref (set_val a w h) a = Some w"
  by (simp add: deref_set_val deref_Some_less)

lemma set_val_more [simp]:
  "vheap.more (set_val a w h) = vheap.more h" "vheap.more (snd (alloc w h)) = vheap.more h"
  by (simp_all add: set_val_def alloc_def)

subsection \<open>Registry\<close>

lemma Registry_Register_Inr:
  "Registry_Register r (Some t) = Inr r' \<longleftrightarrow>
     t_FullName t \<noteq> [] \<and> Registry_Get r (t_FullName t) = None \<and> r' = r @ [(t_FullName t, t)]"
  by (auto simp: Registry_Register_def split: option.splits if_splits)

lemma Registry_Get_Register:
  "Registry_Register r (Some t) = Inr r' \<Longrightarrow>
     Registry_Get r' n = (if n = t_FullName t then Some t else Registry_Get r n)"
  by (auto simp: Registry_Register_Inr Registry_Get_def map_of_append map_add_def split: option.splits)

lemma Registry_Register_distinct:
  "Registry_Register r (Some t) = Inr r' \<Longrightarrow> distinct (map fst r) \<Longrightarrow> distinct (map fst r')"
  by (auto simp: Registry_Register_Inr Registry_Get_def map_of_eq_None_iff)

subsection \<open>Literals\<close>

lemma literal_field_error_None:
  "literal_field_error t fs = None \<longleftrightarrow> (\<forall>(n, c) \<in> set fs. HasInputField t n)"
  by (induction t fs rule: literal_field_error.induct) auto

lemma FullProvider_NewValue_CObj:
  assumes "FullProvider_NewValue base_new r ty fs h = (CObj a, h')" "lookup_view r ty = Some (t, fullView)"
    "Registry_Get r (t_FullName t) = Some t"
  shows "a = length (h_vals h)
    \<and> deref h' a = Some \<lparr>v_typ = t, v_view = fullView, v_nameStr = t_FullName t,
                         v_inputs = fs, v_outputs = [], v_complete = Some new_completion\<rparr>
    \<and> (\<forall>(n, c) \<in> set fs. HasInputField t n)"
  using assms
  by (auto simp: FullProvider_NewValue_def NewFullValue_def literal_field_error_None alloc_def deref_def
      split: option.splits)

subsection \<open>Completion\<close>

definition done_v :: "'m mvalue \<Rightarrow> bool" where
  "done_v v \<longleftrightarrow> (case v_complete v of None \<Rightarrow> False | Some cp \<Rightarrow> c_done cp)"

lemma Value_Get_done_pure:
  assumes "deref h a = Some v" "done_v v"
  shows "snd (Value_Get exec a k h) = h" "fst (Value_Get exec a k h) = fst (Value_Get exec' a k h)"
  using assms
  by (auto simp: Value_Get_def getFullViewField_def completion_run_def done_v_def Let_def
      split: cval.splits option.splits)

lemma SetCompleter_done: "done_v v \<Longrightarrow> SetCompleter c v = v"
  by (auto simp: SetCompleter_def done_v_def split: option.splits)

subsection \<open>Programs preserve what their handlers preserve\<close>

locale step_rel =
  fixes R :: "'s \<Rightarrow> 's \<Rightarrow> bool"
  assumes step_refl: "R s s"
    and step_trans: "R s t \<Longrightarrow> R t u \<Longrightarrow> R s u"
begin

lemma run_cel_rel:
  assumes "\<And>a k s. R s (snd (get a k s))" "\<And>ty fs s. R s (snd (new ty fs s))"
  shows "R s (snd (run_cel get new c s))"
proof (induction c arbitrary: s)
  case (Ret v)
  show ?case by (simp add: step_refl)
next
  case (GetField a k cont)
  show ?case
  proof (cases "get a k s")
    case (Pair v s')
    with assms(1) [of s a k] have "R s s'" by simp
    moreover have "R s' (snd (run_cel get new (cont v) s'))" using GetField by simp
    ultimately show ?thesis using Pair by (simp add: step_trans)
  qed
next
  case (NewObj ty fs cont)
  show ?case
  proof (cases "new ty fs s")
    case (Pair v s')
    with assms(2) [of s ty fs] have "R s s'" by simp
    moreover have "R s' (snd (run_cel get new (cont v) s'))" using NewObj by simp
    ultimately show ?thesis using Pair by (simp add: step_trans)
  qed
qed

lemma fold_rel: "(\<And>x s. R s (f x s)) \<Longrightarrow> R s (fold f xs s)"
  by (induction xs arbitrary: s) (auto intro: step_refl step_trans)

end

section \<open>Properties\<close>

text \<open>
  C38: a \<^verbatim>\<open>Type{...}\<close> literal cannot forge an output field.  When the full provider builds a literal of
  a registered meta, every key is a declared input field, the value starts with no output field,
  and reading an output field before a completer is wired is an error, never a value.
\<close>

theorem literal_cannot_forge_output:
  assumes "FullProvider_NewValue base_new r ty fs h = (CObj a, h')" "lookup_view r ty = Some (t, fullView)"
    "Registry_Get r (t_FullName t) = Some t" "HasOutputField t f" "\<not> HasInputField t f"
  shows "f \<notin> fst ` set fs
    \<and> (\<exists>e h''. Value_Get exec a (CStr f) h' = (CErr e, h''))"
proof -
  from FullProvider_NewValue_CObj [OF assms(1-3)] have
    v: "deref h' a = Some \<lparr>v_typ = t, v_view = fullView, v_nameStr = t_FullName t,
                         v_inputs = fs, v_outputs = [], v_complete = Some new_completion\<rparr>"
    and fs: "\<forall>(n, c) \<in> set fs. HasInputField t n" by auto
  from fs assms(5) have nf: "f \<notin> fst ` set fs" by auto
  then have "map_of fs f = None" by (simp add: map_of_eq_None_iff)
  with v nf assms(4) show ?thesis
    by (simp add: Value_Get_def getFullViewField_def completion_run_def new_completion_def Let_def)
qed

theorem literal_cannot_forge_output_witness:
  "\<exists>h'. FullProvider_NewValue (\<lambda>ty fs. CNull)
      [(''d.file'', \<lparr>t_FullName = ''d.file'', t_InputFields = [''id''], t_OutputFields = [''name'']\<rparr>)]
      ''d.file'' [(''id'', CStr ''x'')] \<lparr>h_vals = ([] :: nat mvalue list)\<rparr> = (CObj 0, h')
   \<and> (\<exists>e h''. Value_Get (\<lambda>m a h. (None, h)) 0 (CStr ''name'') h' = (CErr e, h''))"
proof -
  let ?t = "\<lparr>t_FullName = ''d.file'', t_InputFields = [''id''], t_OutputFields = [''name'']\<rparr>"
  let ?r = "[(''d.file'', ?t)]"
  let ?h = "\<lparr>h_vals = ([] :: nat mvalue list)\<rparr>"
  let ?h' = "snd (FullProvider_NewValue (\<lambda>ty fs. CNull) ?r ''d.file'' [(''id'', CStr ''x'')] ?h)"
  have l: "lookup_view ?r ''d.file'' = Some (?t, fullView)"
    by (simp add: lookup_view_def Registry_Get_def)
  have n: "FullProvider_NewValue (\<lambda>ty fs. CNull) ?r ''d.file'' [(''id'', CStr ''x'')] ?h = (CObj 0, ?h')"
    by (simp add: FullProvider_NewValue_def l HasInputField_def NewFullValue_def Registry_Get_def alloc_def)
  have o: "HasOutputField ?t ''name''" "\<not> HasInputField ?t ''name''" "Registry_Get ?r (t_FullName ?t) = Some ?t"
    by (simp_all add: HasOutputField_def HasInputField_def Registry_Get_def)
  from literal_cannot_forge_output [OF n l o(3) o(1) o(2), of "\<lambda>m a h. (None, h)"] n
  show ?thesis by blast
qed

text \<open>
  completion is one-shot and sticky.  Reading an output field for the first time marks the value
  completed; from then on every read of the value, by any policy and with any completer, leaves the
  heap alone and gives an answer that does not depend on the completer, and re-wiring a completer
  changes nothing.
\<close>

theorem completion_sticky:
  assumes "deref h a = Some v" "done_v v"
  shows "snd (Value_Get exec a k h) = h
    \<and> fst (Value_Get exec a k h) = fst (Value_Get exec' a k h)
    \<and> set_val a (SetCompleter c v) h = set_val a v h"
  using Value_Get_done_pure [OF assms] SetCompleter_done [OF assms(2)] by simp

theorem completion_sticky_witness:
  "let v = \<lparr>v_typ = \<lparr>t_FullName = ''d.file'', t_InputFields = [], t_OutputFields = [''name'']\<rparr>,
            v_view = fullView, v_nameStr = ''d.file'', v_inputs = [], v_outputs = [],
            v_complete = Some \<lparr>c_fn = Some (0 :: nat), c_done = True, c_err = Some (EUpstream 404)\<rparr>\<rparr>;
       h = \<lparr>h_vals = [v]\<rparr>
   in fst (Value_Get (\<lambda>m a h. (None, h)) 0 (CStr ''name'') h) = CErr (EComplete ''d.file'' (EUpstream 404))
      \<and> snd (Value_Get (\<lambda>m a h. (None, h)) 0 (CStr ''name'') h) = h"
proof -
  let ?v = "\<lparr>v_typ = \<lparr>t_FullName = ''d.file'', t_InputFields = [], t_OutputFields = [''name'']\<rparr>,
            v_view = fullView, v_nameStr = ''d.file'', v_inputs = [], v_outputs = [],
            v_complete = Some \<lparr>c_fn = Some (0 :: nat), c_done = True, c_err = Some (EUpstream 404)\<rparr>\<rparr>"
  let ?h = "\<lparr>h_vals = [?v]\<rparr>"
  have d: "deref ?h 0 = Some ?v" "done_v ?v" by (simp_all add: deref_def done_v_def)
  have "fst (Value_Get (\<lambda>m a h. (None, h)) 0 (CStr ''name'') ?h) = CErr (EComplete ''d.file'' (EUpstream 404))"
    by (simp add: Value_Get_def deref_def getFullViewField_def HasOutputField_def completion_run_def)
  with completion_sticky [OF d, of "\<lambda>m a h. (None, h)" "CStr ''name''"] show ?thesis
    by (simp add: Let_def)
qed

end
