(* ===== verification/Compiled.thy ===== *)
theory Compiled
  imports Paths Messages Models
begin

text \<open>
  Compiled artifacts, from \<^verbatim>\<open>internal/runtime/compiled\<close>: the CEL environments (\<^verbatim>\<open>envs.go\<close>), the
  typed wrappers around CEL programs (\<^verbatim>\<open>compiled.go\<close>, \<^verbatim>\<open>decorator.go\<close>), metas and their lazy
  completers (\<^verbatim>\<open>meta.go\<close>), actions (\<^verbatim>\<open>action.go\<close>) and policies (\<^verbatim>\<open>policy.go\<close>).

  The CEL compiler is third-party: it is the argument \<open>compile\<close>, from an environment and a source
  string to a checked AST.  The upstream is third-party too: \<open>x_call\<close> answers a meta request and may
  depend on everything called before, \<open>x_resolve\<close> builds the per-API client.  Completers may nest
  (a request expression may read an output field of a value held in an input field); \<open>x_depth\<close>
  bounds the nesting, and reaching the bound is the error \<open>EDepth\<close>, where the Go code would go on
  recursing.
\<close>

section \<open>Definitions\<close>

subsection \<open>CEL environments\<close>

datatype ctype =
    TBool | TStr | TDyn | TTimestamp
  | TObject string
  | TMap ctype ctype
  | TOther string

text \<open>The name \<^verbatim>\<open>Type.TypeName()\<close> gives for an object type; other types have their own names.\<close>

fun TypeName :: "ctype \<Rightarrow> string" where
  "TypeName TBool = ''bool''"
| "TypeName TStr = ''string''"
| "TypeName TDyn = ''dyn''"
| "TypeName TTimestamp = ''google.protobuf.Timestamp''"
| "TypeName (TObject n) = n"
| "TypeName (TMap _ _) = ''map''"
| "TypeName (TOther n) = n"

datatype provider = BaseProvider | RequestProvider mtype | FullProvider registry

record celenv =
  env_provider :: provider
  env_container :: "string option"
  env_vars :: "(string \<times> ctype) list"
  env_http_helpers :: bool

definition requestEnv :: "string \<Rightarrow> mtype \<Rightarrow> celenv" where
  "requestEnv apiName meta =
     \<lparr>env_provider = RequestProvider meta, env_container = Some apiName,
      env_vars = [(''input'', TObject (InputViewName meta))], env_http_helpers = True\<rparr>"

definition outputEnv :: "string \<Rightarrow> mtype \<Rightarrow> registry \<Rightarrow> celenv" where
  "outputEnv apiName meta reg =
     \<lparr>env_provider = FullProvider reg, env_container = Some apiName,
      env_vars = [(''input'', TObject (InputViewName meta)),
                  (''request'', TObject ''bouncer.Request''),
                  (''response'', TObject ''bouncer.Response'')],
      env_http_helpers = False\<rparr>"

definition filterEnv :: celenv where
  "filterEnv =
     \<lparr>env_provider = BaseProvider, env_container = None,
      env_vars = [(''request'', TObject ''bouncer.Request''), (''match'', TMap TStr TStr)],
      env_http_helpers = False\<rparr>"

definition bindEnv :: "string \<Rightarrow> registry \<Rightarrow> celenv" where
  "bindEnv apiName reg =
     \<lparr>env_provider = FullProvider reg, env_container = Some apiName,
      env_vars = [(''request'', TObject ''bouncer.Request''), (''match'', TMap TStr TStr)],
      env_http_helpers = False\<rparr>"

definition policyEnv :: "string \<Rightarrow> registry \<Rightarrow> celenv" where
  "policyEnv apiName reg =
     \<lparr>env_provider = FullProvider reg, env_container = Some apiName,
      env_vars = [(''request'', TObject ''bouncer.Request''), (''action'', TMap TStr TDyn),
                  (''principal'', TObject ''bouncer.Principal''), (''now'', TTimestamp)]
        @ map (\<lambda>t. (t_FullName t, TObject (t_FullName t))) (Registry_All reg),
      env_http_helpers = False\<rparr>"

definition actionPredicateEnv :: celenv where
  "actionPredicateEnv =
     \<lparr>env_provider = BaseProvider, env_container = None,
      env_vars = [(''action'', TMap TStr TDyn), (''request'', TObject ''bouncer.Request''),
                  (''match'', TMap TStr TStr), (''principal'', TObject ''bouncer.Principal''),
                  (''now'', TTimestamp)],
      env_http_helpers = False\<rparr>"

definition principalPredicateEnv :: celenv where
  "principalPredicateEnv =
     \<lparr>env_provider = BaseProvider, env_container = None,
      env_vars = [(''request'', TObject ''bouncer.Request''),
                  (''principal'', TObject ''bouncer.Principal''), (''now'', TTimestamp)],
      env_http_helpers = False\<rparr>"

subsection \<open>Programs\<close>

text \<open>The variables an evaluation binds.\<close>

datatype actval =
    AReq Request
  | AResp Response
  | AMatch "string \<rightharpoonup> string"
  | APrincipal Principal
  | ANow int
  | AAction string
  | AVal nat

type_synonym activation = "(string \<times> actval) list"
type_synonym prog = "activation \<Rightarrow> cel"

text \<open>A checked AST: its output type, and what \<^verbatim>\<open>env.Program\<close> makes of it.\<close>

record ast =
  ast_type :: ctype
  ast_program :: "err + prog"

type_synonym compiler = "celenv \<Rightarrow> string \<Rightarrow> err + ast"

definition checkAst :: "compiler \<Rightarrow> celenv \<Rightarrow> string \<Rightarrow> ctype \<Rightarrow> err + ast" where
  "checkAst compile env source want =
     (case compile env source of
        Inl e \<Rightarrow> Inl e
      | Inr t \<Rightarrow> (if ast_type t \<noteq> want then Inl (EMsg ''unexpected type'') else Inr t))"

definition compileChecked :: "compiler \<Rightarrow> celenv \<Rightarrow> string \<Rightarrow> ctype \<Rightarrow> err + prog" where
  "compileChecked compile env source want =
     (case checkAst compile env source want of
        Inl e \<Rightarrow> Inl e
      | Inr t \<Rightarrow> ast_program t)"

definition wrap_err :: "string \<Rightarrow> err + 'a \<Rightarrow> err + 'a" where
  "wrap_err ctx r = (case r of Inl e \<Rightarrow> Inl (EWrap ctx e) | Inr x \<Rightarrow> Inr x)"

definition NewRequest :: "compiler \<Rightarrow> celenv \<Rightarrow> string \<Rightarrow> err + prog" where
  "NewRequest compile env source =
     wrap_err ''compile request'' (compileChecked compile env source (TObject ''bouncer.MetaRequest''))"

definition NewOutput :: "compiler \<Rightarrow> celenv \<Rightarrow> string \<Rightarrow> err + prog" where
  "NewOutput compile env source =
     (case compile env source of
        Inl e \<Rightarrow> Inl (EWrap ''compile output'' e)
      | Inr t \<Rightarrow> wrap_err ''compile output'' (ast_program t))"

definition NewFilter :: "compiler \<Rightarrow> celenv \<Rightarrow> string \<Rightarrow> err + prog" where
  "NewFilter compile env source = wrap_err ''compile filter'' (compileChecked compile env source TBool)"

definition NewActionPredicate :: "compiler \<Rightarrow> celenv \<Rightarrow> string \<Rightarrow> err + prog" where
  "NewActionPredicate compile env source0 =
     (let source = (if source0 = [] then ''true'' else source0)
      in wrap_err ''compile action predicate'' (compileChecked compile env source TBool))"

definition NewPrincipalPredicate :: "compiler \<Rightarrow> celenv \<Rightarrow> string \<Rightarrow> err + prog" where
  "NewPrincipalPredicate compile env source0 =
     (let source = (if source0 = [] then ''true'' else source0)
      in wrap_err ''compile principal predicate'' (compileChecked compile env source TBool))"

record CompiledBind =
  cb_program :: prog
  cb_outputType :: ctype

definition NewBind :: "compiler \<Rightarrow> celenv \<Rightarrow> string \<Rightarrow> err + CompiledBind" where
  "NewBind compile env source =
     (case compile env source of
        Inl e \<Rightarrow> Inl (EWrap ''compile bind'' e)
      | Inr t \<Rightarrow>
          (case ast_program t of
             Inl e \<Rightarrow> Inl (EWrap ''compile bind'' e)
           | Inr p \<Rightarrow> Inr \<lparr>cb_program = p, cb_outputType = ast_type t\<rparr>))"

definition NewCondition :: "compiler \<Rightarrow> celenv \<Rightarrow> string \<Rightarrow> err + prog" where
  "NewCondition compile env source =
     (case checkAst compile env source TBool of
        Inl e \<Rightarrow> Inl (EWrap ''compile condition'' e)
      | Inr t \<Rightarrow> wrap_err ''compile condition'' (ast_program t))"

subsection \<open>Metas\<close>

record Meta =
  m_APIName :: string
  m_Type :: mtype
  m_Request :: prog
  m_Outputs :: "(string \<times> prog) list"

fun validate_inputs :: "string \<Rightarrow> string list \<Rightarrow> string list \<Rightarrow> err + string list" where
  "validate_inputs meta seen [] = Inr seen"
| "validate_inputs meta seen (f # fs) =
     (if f \<in> set seen then Inl (EMsg ''duplicate input field'')
      else validate_inputs meta (f # seen) fs)"

fun validate_outputs :: "string list \<Rightarrow> string list \<Rightarrow> string list \<Rightarrow> err option" where
  "validate_outputs ins outs [] = None"
| "validate_outputs ins outs (f # fs) =
     (if f \<in> set ins then Some (EMsg ''field declared as both input and output'')
      else if f \<in> set outs then Some (EMsg ''duplicate output field'')
      else validate_outputs ins (f # outs) fs)"

definition ValidateMetaFields :: "Metadata \<Rightarrow> err option" where
  "ValidateMetaFields meta =
     (case validate_inputs (md_Name meta) [] (map if_Name (md_Input meta)) of
        Inl e \<Rightarrow> Some e
      | Inr ins \<Rightarrow> validate_outputs ins [] (map of_Name (md_Output meta)))"

definition meta_type :: "Metadata \<Rightarrow> string \<Rightarrow> mtype" where
  "meta_type meta apiName =
     \<lparr>t_FullName = apiName @ ''.'' @ md_Name meta,
      t_InputFields = map if_Name (md_Input meta),
      t_OutputFields = map of_Name (md_Output meta)\<rparr>"

definition RegisterMetaType :: "Metadata \<Rightarrow> string \<Rightarrow> registry \<Rightarrow> err + (mtype \<times> registry)" where
  "RegisterMetaType meta apiName reg =
     (case ValidateMetaFields meta of
        Some e \<Rightarrow> Inl e
      | None \<Rightarrow>
          (let t = meta_type meta apiName
           in case Registry_Register reg (Some t) of
                Inl e \<Rightarrow> Inl (EWrap ''register meta'' e)
              | Inr reg' \<Rightarrow> Inr (t, reg')))"

fun compile_outputs :: "compiler \<Rightarrow> celenv \<Rightarrow> OutputField list \<Rightarrow> err + (string \<times> prog) list" where
  "compile_outputs compile env [] = Inr []"
| "compile_outputs compile env (f # fs) =
     (case NewOutput compile env (of_Expr f) of
        Inl e \<Rightarrow> Inl (EWrap ''meta output'' e)
      | Inr p \<Rightarrow>
          (case compile_outputs compile env fs of
             Inl e \<Rightarrow> Inl e
           | Inr rest \<Rightarrow> Inr ((of_Name f, p) # rest)))"

definition CompileMeta :: "compiler \<Rightarrow> Metadata \<Rightarrow> string \<Rightarrow> mtype \<Rightarrow> registry \<Rightarrow> err + Meta" where
  "CompileMeta compile meta apiName t reg =
     (case NewRequest compile (requestEnv apiName t) (md_Request meta) of
        Inl e \<Rightarrow> Inl (EWrap ''meta request'' e)
      | Inr req \<Rightarrow>
          (case compile_outputs compile (outputEnv apiName t reg) (md_Output meta) of
             Inl e \<Rightarrow> Inl e
           | Inr outs \<Rightarrow> Inr \<lparr>m_APIName = apiName, m_Type = t, m_Request = req, m_Outputs = outs\<rparr>))"

subsection \<open>Evaluation state\<close>

text \<open>
  One upstream side call as the fetch observer sees it, and the state of one evaluation: the heap
  of values, the calls made, the resolver's cache and the API clients built.
\<close>

record callrec =
  cr_addr :: nat
  cr_meta :: string
  cr_api :: string
  cr_req :: MetaRequest

record estate = "Meta vheap" +
  es_calls :: "callrec list"
  es_memo :: "(string \<times> err option) list"
  es_built :: "string list"

record evalctx =
  x_reg :: registry
  x_metas :: "string \<rightharpoonup> Meta"
  x_resolve :: "string list \<Rightarrow> string \<Rightarrow> err option"
  x_call :: "callrec list \<Rightarrow> string \<Rightarrow> MetaRequest \<Rightarrow> err + Response option"
  x_base_new :: "string \<Rightarrow> (string \<times> cval) list \<Rightarrow> cval"
  x_req :: Request
  x_depth :: nat

subsection \<open>Evaluating predicates\<close>

text \<open>
  Filters and the principal and action predicates run in environments with no meta types and no
  \<open>Value\<close> in scope, so they neither read nor change the heap.
\<close>

definition eval_pure :: "(string \<Rightarrow> (string \<times> cval) list \<Rightarrow> cval) \<Rightarrow> cel \<Rightarrow> cval" where
  "eval_pure base_new c =
     fst (run_cel (\<lambda>a k s. (CErr EBadKey, s)) (\<lambda>ty fs s. (base_new ty fs, s)) c ())"

definition as_bool :: "string \<Rightarrow> cval \<Rightarrow> err + bool" where
  "as_bool ctx out =
     (case out of
        CErr e \<Rightarrow> Inl (EWrap ctx e)
      | CBool b \<Rightarrow> Inr b
      | _ \<Rightarrow> Inl (EMsg (ctx @ '' returned a non-bool'')))"

definition CompiledFilter_Eval ::
  "(string \<Rightarrow> (string \<times> cval) list \<Rightarrow> cval) \<Rightarrow> prog \<Rightarrow> Request \<Rightarrow> (string \<rightharpoonup> string) \<Rightarrow> err + bool" where
  "CompiledFilter_Eval base_new p req m =
     as_bool ''eval filter'' (eval_pure base_new (p [(''request'', AReq req), (''match'', AMatch m)]))"

definition CompiledActionPredicate_Eval ::
  "(string \<Rightarrow> (string \<times> cval) list \<Rightarrow> cval) \<Rightarrow> prog \<Rightarrow> string \<Rightarrow> Request \<Rightarrow> (string \<rightharpoonup> string)
     \<Rightarrow> Principal option \<Rightarrow> int \<Rightarrow> err + bool" where
  "CompiledActionPredicate_Eval base_new p actionName req m prn now =
     (case prn of
        None \<Rightarrow> Inl (EMsg ''eval action predicate: principal is required'')
      | Some pr \<Rightarrow>
          as_bool ''eval action predicate''
            (eval_pure base_new
              (p [(''action'', AAction actionName), (''request'', AReq req), (''match'', AMatch m),
                  (''principal'', APrincipal pr), (''now'', ANow now)])))"

definition CompiledPrincipalPredicate_Eval ::
  "(string \<Rightarrow> (string \<times> cval) list \<Rightarrow> cval) \<Rightarrow> prog \<Rightarrow> Request \<Rightarrow> Principal option \<Rightarrow> int \<Rightarrow> err + bool" where
  "CompiledPrincipalPredicate_Eval base_new p req prn now =
     (case prn of
        None \<Rightarrow> Inl (EMsg ''eval principal predicate: principal is required'')
      | Some pr \<Rightarrow>
          as_bool ''eval principal predicate''
            (eval_pure base_new
              (p [(''request'', AReq req), (''principal'', APrincipal pr), (''now'', ANow now)])))"

subsection \<open>Completers\<close>

text \<open>
  \<open>CompiledRequest_Eval\<close> and \<open>CompiledOutput_Eval\<close> run with the handlers of their environment:
  reads go to \<open>Value_Get\<close>, literals to the request or full provider.  \<open>exec\<close> is the completer for
  values these programs may touch.
\<close>

type_synonym erunner = "Meta \<Rightarrow> nat \<Rightarrow> estate \<Rightarrow> err option \<times> estate"

definition CompiledRequest_Eval ::
  "evalctx \<Rightarrow> erunner \<Rightarrow> Meta \<Rightarrow> nat \<Rightarrow> estate \<Rightarrow> (err + MetaRequest) \<times> estate" where
  "CompiledRequest_Eval x exec m inp s =
     (let (out, s1) = run_cel (Value_Get exec) (RequestProvider_NewValue (x_base_new x) (m_Type m))
                        (m_Request m [(''input'', AVal inp)]) s
      in case out of
           CErr e \<Rightarrow> (Inl (EWrap ''eval request'' e), s1)
         | CMetaReq mr \<Rightarrow> (Inr mr, s1)
         | _ \<Rightarrow> (Inl (EMsg ''request expression returned a non-MetaRequest''), s1))"

definition CompiledOutput_Eval ::
  "evalctx \<Rightarrow> erunner \<Rightarrow> prog \<Rightarrow> nat \<Rightarrow> Response \<Rightarrow> estate \<Rightarrow> (err + cval) \<times> estate" where
  "CompiledOutput_Eval x exec p inp resp s =
     (let (out, s1) = run_cel (Value_Get exec) (FullProvider_NewValue (x_base_new x) (x_reg x))
                        (p [(''input'', AVal inp), (''request'', AReq (x_req x)), (''response'', AResp resp)]) s
      in case out of
           CErr e \<Rightarrow> (Inl (EWrap ''eval output'' e), s1)
         | _ \<Rightarrow> (Inr out, s1))"

text \<open>Wiring a completer onto the full-view value a CEL result denotes, if its type is a known meta.\<close>

definition wire_completer :: "evalctx \<Rightarrow> cval \<Rightarrow> estate \<Rightarrow> estate" where
  "wire_completer x out s =
     (case out of
        CObj a \<Rightarrow>
          (case deref s a of
             None \<Rightarrow> s
           | Some v \<Rightarrow>
               (if IsFullView v then
                  (case x_metas x (t_FullName (v_typ v)) of
                     Some m \<Rightarrow> set_val a (SetCompleter m v) s
                   | None \<Rightarrow> s)
                else s))
      | _ \<Rightarrow> s)"

definition store_field :: "nat \<Rightarrow> string \<Rightarrow> cval \<Rightarrow> estate \<Rightarrow> err option \<times> estate" where
  "store_field a name out s =
     (case deref s a of
        None \<Rightarrow> (Some (EMsg ''panic: no value''), s)
      | Some v \<Rightarrow>
          (case SetField name out v of
             None \<Rightarrow> (Some (EMsg ''panic: SetField''), s)
           | Some v' \<Rightarrow> (None, set_val a v' s)))"

text \<open>The loop over the meta's outputs, storing each result on the value at \<open>a\<close>.\<close>

fun eval_outputs ::
  "evalctx \<Rightarrow> erunner \<Rightarrow> nat \<Rightarrow> nat \<Rightarrow> Response \<Rightarrow> (string \<times> prog) list \<Rightarrow> estate \<Rightarrow> err option \<times> estate" where
  "eval_outputs x exec a inp resp [] s = (None, s)"
| "eval_outputs x exec a inp resp ((name, p) # ops) s =
     (case CompiledOutput_Eval x exec p inp resp s of
        (Inl e, s1) \<Rightarrow> (Some (EWrap ''meta output'' e), s1)
      | (Inr out, s1) \<Rightarrow>
          (case store_field a name out (wire_completer x out s1) of
             (Some e, s2) \<Rightarrow> (Some e, s2)
           | (None, s2) \<Rightarrow> eval_outputs x exec a inp resp ops s2))"

text \<open>
  The memoised resolver of \<^verbatim>\<open>runtime.memoizeResolver\<close>: the first lookup of a name builds the client
  and records success or failure, later lookups answer from the cache.
\<close>

definition resolve_memo :: "evalctx \<Rightarrow> string \<Rightarrow> estate \<Rightarrow> err option \<times> estate" where
  "resolve_memo x name s =
     (case map_of (es_memo s) name of
        Some e \<Rightarrow> (e, s)
      | None \<Rightarrow>
          (let e = x_resolve x (es_built s) name
           in (e, s\<lparr>es_memo := (name, e) # es_memo s, es_built := es_built s @ [name]\<rparr>)))"

definition api_Call :: "evalctx \<Rightarrow> Meta \<Rightarrow> nat \<Rightarrow> MetaRequest \<Rightarrow> estate \<Rightarrow> (err + Response option) \<times> estate" where
  "api_Call x m a mr s =
     (x_call x (es_calls s) (m_APIName m) mr,
      s\<lparr>es_calls := es_calls s @
          [\<lparr>cr_addr = a, cr_meta = t_FullName (m_Type m), cr_api = m_APIName m, cr_req = mr\<rparr>]\<rparr>)"

text \<open>\<open>CompleterFor\<close>: the closure run for the value at \<open>a\<close> of meta \<open>m\<close>, at nesting depth \<open>n\<close>.\<close>

fun CompleterFor :: "evalctx \<Rightarrow> nat \<Rightarrow> Meta \<Rightarrow> nat \<Rightarrow> estate \<Rightarrow> err option \<times> estate" where
  "CompleterFor x 0 m a s = (Some EDepth, s)"
| "CompleterFor x (Suc n) m a s =
     (case deref s a of
        None \<Rightarrow> (Some (EMsg ''panic: no value''), s)
      | Some v \<Rightarrow>
          (case NewInputValue (x_reg x) (t_FullName (m_Type m)) (InputFields v) s of
             Inl e \<Rightarrow> (Some e, s)
           | Inr (inp, s1) \<Rightarrow>
               (case CompiledRequest_Eval x (CompleterFor x n) m inp s1 of
                  (Inl e, s2) \<Rightarrow> (Some e, s2)
                | (Inr mr, s2) \<Rightarrow>
                    (case resolve_memo x (m_APIName m) s2 of
                       (Some e, s3) \<Rightarrow> (Some (EWrap ''meta resolve api'' e), s3)
                     | (None, s3) \<Rightarrow>
                         (case api_Call x m a mr s3 of
                            (Inl e, s4) \<Rightarrow> (Some (EWrap ''meta upstream'' e), s4)
                          | (Inr resp, s4) \<Rightarrow>
                              eval_outputs x (CompleterFor x n) a inp
                                (case resp of Some r \<Rightarrow> r | None \<Rightarrow> \<lparr>resp_body = None\<rparr>)
                                (m_Outputs m) s4)))))"

definition run_completer :: "evalctx \<Rightarrow> erunner" where
  "run_completer x = CompleterFor x (x_depth x)"

subsection \<open>Actions\<close>

record BoundVariable =
  bv_MetaName :: string
  bv_Bind :: CompiledBind
  bv_Meta :: Meta

record BoundValue =
  bd_Name :: string
  bd_Value :: nat

record CAction =
  ca_Name :: string
  ca_Template :: "PathTemplate option"
  ca_Filter :: "prog option"
  ca_Binds :: "BoundVariable list"

definition compileActionTemplate :: "Action \<Rightarrow> err + PathTemplate option" where
  "compileActionTemplate a =
     (if a_Method a = [] \<and> a_Path a = [] then Inr None
      else if a_Method a = [] then Inl (EMsg ''path set but method missing'')
      else if a_Path a = [] then Inl (EMsg ''method set but path missing'')
      else (case ParsePathTemplate (a_Method a) (a_Path a) of
              Inl e \<Rightarrow> Inl (EMsg ''path template'')
            | Inr t \<Rightarrow> Inr (Some t)))"

definition compileActionFilter :: "compiler \<Rightarrow> Action \<Rightarrow> err + prog option" where
  "compileActionFilter compile a =
     (if a_Filter a = [] then Inr None
      else (case NewFilter compile filterEnv (a_Filter a) of
              Inl e \<Rightarrow> Inl (EWrap ''compile filter'' e)
            | Inr p \<Rightarrow> Inr (Some p)))"

fun compile_binds ::
  "compiler \<Rightarrow> celenv \<Rightarrow> (string \<rightharpoonup> Meta) \<Rightarrow> string list \<Rightarrow> CelExpression list \<Rightarrow> err + BoundVariable list" where
  "compile_binds compile env metas seen [] = Inr []"
| "compile_binds compile env metas seen (expr # exprs) =
     (case NewBind compile env expr of
        Inl e \<Rightarrow> Inl (EWrap ''compile bind'' e)
      | Inr cb \<Rightarrow>
          (case metas (TypeName (cb_outputType cb)) of
             None \<Rightarrow> Inl (EMsg ''bind returns unknown meta type'')
           | Some meta \<Rightarrow>
               (let full = t_FullName (m_Type meta)
                in if full \<in> set seen then Inl (EMsg ''duplicate bind for meta'')
                   else (case compile_binds compile env metas (full # seen) exprs of
                           Inl e \<Rightarrow> Inl e
                         | Inr bs \<Rightarrow>
                             Inr (\<lparr>bv_MetaName = full, bv_Bind = cb, bv_Meta = meta\<rparr> # bs)))))"

definition NewAction :: "compiler \<Rightarrow> Action \<Rightarrow> string \<Rightarrow> registry \<Rightarrow> (string \<rightharpoonup> Meta) \<Rightarrow> err + CAction" where
  "NewAction compile a apiName reg metas =
     (if a_Bind a \<noteq> [] \<and> a_Binds a \<noteq> [] then Inl (EMsg ''bind and binds are mutually exclusive'')
      else (case compileActionTemplate a of
              Inl e \<Rightarrow> Inl e
            | Inr tpl \<Rightarrow>
                (case compileActionFilter compile a of
                   Inl e \<Rightarrow> Inl e
                 | Inr flt \<Rightarrow>
                     (if tpl = None \<and> flt = None
                      then Inl (EMsg ''must specify method+path, filter, or both'')
                      else (case compile_binds compile (bindEnv apiName reg) metas [] (AllBinds a) of
                              Inl e \<Rightarrow> Inl e
                            | Inr bs \<Rightarrow>
                                Inr \<lparr>ca_Name = a_Name a, ca_Template = tpl, ca_Filter = flt, ca_Binds = bs\<rparr>)))))"

text \<open>\<open>Inr None\<close>: the action does not fire; \<open>Inr (Some m)\<close>: it fires with captures \<open>m\<close>.\<close>

definition Action_Match ::
  "(string \<Rightarrow> (string \<times> cval) list \<Rightarrow> cval) \<Rightarrow> CAction \<Rightarrow> Request \<Rightarrow> err + (string \<rightharpoonup> string) option" where
  "Action_Match base_new a req =
     (if ca_Template a = None \<and> ca_Filter a = None then Inl (EMsg ''no template or filter'')
      else (let m0 = (case ca_Template a of
                        None \<Rightarrow> Some Map.empty
                      | Some t \<Rightarrow> PathTemplate_Match t req)
            in case m0 of
                 None \<Rightarrow> Inr None
               | Some m \<Rightarrow>
                   (case ca_Filter a of
                      None \<Rightarrow> Inr (Some m)
                    | Some f \<Rightarrow>
                        (case CompiledFilter_Eval base_new f req m of
                           Inl e \<Rightarrow> Inl e
                         | Inr ok \<Rightarrow> (if ok then Inr (Some m) else Inr None)))))"

text \<open>
  A bind expression runs before any completer is wired: reading an output field of a value it
  builds reports that no completer is wired.  The runner argument is therefore never called.
\<close>

definition CompiledBind_Eval ::
  "evalctx \<Rightarrow> CompiledBind \<Rightarrow> Request \<Rightarrow> (string \<rightharpoonup> string) \<Rightarrow> estate \<Rightarrow> (err + nat) \<times> estate" where
  "CompiledBind_Eval x b req m s =
     (let (out, s1) = run_cel (Value_Get (run_completer x)) (FullProvider_NewValue (x_base_new x) (x_reg x))
                        (cb_program b [(''request'', AReq req), (''match'', AMatch m)]) s
      in case out of
           CErr e \<Rightarrow> (Inl (EWrap ''eval bind'' e), s1)
         | CObj a \<Rightarrow> (Inr a, s1)
         | _ \<Rightarrow> (Inl (EMsg ''bind expression returned a non-Value''), s1))"

fun EvalBinds ::
  "evalctx \<Rightarrow> BoundVariable list \<Rightarrow> Request \<Rightarrow> (string \<rightharpoonup> string) \<Rightarrow> estate
     \<Rightarrow> (err + BoundValue list) \<times> estate" where
  "EvalBinds x [] req m s = (Inr [], s)"
| "EvalBinds x (b # bs) req m s =
     (case CompiledBind_Eval x (bv_Bind b) req m s of
        (Inl e, s1) \<Rightarrow> (Inl (EWrap ''bind'' e), s1)
      | (Inr a, s1) \<Rightarrow>
          (case EvalBinds x bs req m s1 of
             (Inl e, s2) \<Rightarrow> (Inl e, s2)
           | (Inr vs, s2) \<Rightarrow> (Inr (\<lparr>bd_Name = bv_MetaName b, bd_Value = a\<rparr> # vs), s2)))"

subsection \<open>Policies\<close>

record CPolicy =
  cp_API :: string
  cp_Name :: string
  cp_Result :: PolicyResult
  cp_principalPred :: prog
  cp_predicate :: prog
  cp_condition :: prog
  cp_source :: Policy

definition NewPolicy :: "compiler \<Rightarrow> Policy \<Rightarrow> string \<Rightarrow> registry \<Rightarrow> err + CPolicy" where
  "NewPolicy compile p apiName reg =
     (case PolicyResult_Validate (pol_Result p) of
        Some e \<Rightarrow> Inl (EMsg ''policy result'')
      | None \<Rightarrow>
          (case NewPrincipalPredicate compile principalPredicateEnv (pol_Principal p) of
             Inl e \<Rightarrow> Inl (EWrap ''policy'' e)
           | Inr princ \<Rightarrow>
               (case NewActionPredicate compile actionPredicateEnv (pol_Action p) of
                  Inl e \<Rightarrow> Inl (EWrap ''policy'' e)
                | Inr pred \<Rightarrow>
                    (case NewCondition compile (policyEnv apiName reg) (pol_Condition p) of
                       Inl e \<Rightarrow> Inl (EWrap ''policy'' e)
                     | Inr cc \<Rightarrow>
                         Inr \<lparr>cp_API = pol_API p, cp_Name = pol_Name p, cp_Result = pol_Result p,
                              cp_principalPred = princ, cp_predicate = pred, cp_condition = cc,
                              cp_source = p\<rparr>))))"

definition AppliesToPrincipal :: "evalctx \<Rightarrow> CPolicy \<Rightarrow> Principal option \<Rightarrow> int \<Rightarrow> err + bool" where
  "AppliesToPrincipal x p prn now =
     wrap_err ''policy'' (CompiledPrincipalPredicate_Eval (x_base_new x) (cp_principalPred p) (x_req x) prn now)"

definition AppliesTo ::
  "evalctx \<Rightarrow> CPolicy \<Rightarrow> string \<Rightarrow> (string \<rightharpoonup> string) \<Rightarrow> Principal option \<Rightarrow> int \<Rightarrow> err + bool" where
  "AppliesTo x p actionName m prn now =
     wrap_err ''policy'' (CompiledActionPredicate_Eval (x_base_new x) (cp_predicate p) actionName (x_req x) m prn now)"

text \<open>
  The struct-constructor decorator: a literal built by a condition gets the completer of its meta
  when it is a full-view value of a known meta.
\<close>

definition condition_new :: "evalctx \<Rightarrow> string \<Rightarrow> (string \<times> cval) list \<Rightarrow> estate \<Rightarrow> cval \<times> estate" where
  "condition_new x ty fs s =
     (let (out, s1) = FullProvider_NewValue (x_base_new x) (x_reg x) ty fs s
      in (out, wire_completer x out s1))"

definition CompiledCondition_Eval ::
  "evalctx \<Rightarrow> prog \<Rightarrow> string \<Rightarrow> Principal option \<Rightarrow> int \<Rightarrow> (string \<times> nat) list \<Rightarrow> estate
     \<Rightarrow> (err + bool) \<times> estate" where
  "CompiledCondition_Eval x p actionName prn now binds s =
     (case prn of
        None \<Rightarrow> (Inl (EMsg ''eval condition: principal is required''), s)
      | Some pr \<Rightarrow>
          (let act = [(''request'', AReq (x_req x)), (''action'', AAction actionName),
                      (''principal'', APrincipal pr), (''now'', ANow now)]
                     @ map (\<lambda>(n, a). (n, AVal a)) binds;
               (out, s1) = run_cel (Value_Get (run_completer x)) (condition_new x) (p act) s
           in (as_bool ''eval condition'' out, s1)))"

fun install_binds :: "evalctx \<Rightarrow> BoundValue list \<Rightarrow> estate \<Rightarrow> (err + (string \<times> nat) list) \<times> estate" where
  "install_binds x [] s = (Inr [], s)"
| "install_binds x (b # bs) s =
     (case x_metas x (bd_Name b) of
        None \<Rightarrow> (Inl (EMsg ''bind references unknown meta''), s)
      | Some m \<Rightarrow>
          (let s1 = (case deref s (bd_Value b) of
                       None \<Rightarrow> s
                     | Some v \<Rightarrow> set_val (bd_Value b) (SetCompleter m v) s)
           in case install_binds x bs s1 of
                (Inl e, s2) \<Rightarrow> (Inl e, s2)
              | (Inr bm, s2) \<Rightarrow> (Inr ((bd_Name b, bd_Value b) # bm), s2)))"

definition Policy_Evaluate ::
  "evalctx \<Rightarrow> CPolicy \<Rightarrow> string \<Rightarrow> Principal option \<Rightarrow> int \<Rightarrow> BoundValue list \<Rightarrow> estate
     \<Rightarrow> (err + bool) \<times> estate" where
  "Policy_Evaluate x p actionName prn now binds s =
     (case install_binds x binds s of
        (Inl e, s1) \<Rightarrow> (Inl e, s1)
      | (Inr bm, s1) \<Rightarrow>
          (let (r, s2) = CompiledCondition_Eval x (cp_condition p) actionName prn now bm s1
           in (wrap_err ''policy'' r, s2)))"

end
