(* ===== verification/Completion.thy ===== *)
theory Completion
  imports Compiled
begin

text \<open>
  What evaluation may do to its state: the values of the heap keep their type, view and inputs, a
  completed value stays completed, the log of upstream calls only grows, and an invariant ties the
  log to the heap.  All operations of \<open>Compiled\<close> are shown to move along this relation, so the
  facts about a whole request follow by transitivity.
\<close>

section \<open>Definitions\<close>

definition same_shape :: "Meta mvalue \<Rightarrow> Meta mvalue \<Rightarrow> bool" where
  "same_shape v v' \<longleftrightarrow>
     v_typ v' = v_typ v \<and> v_view v' = v_view v \<and> v_nameStr v' = v_nameStr v \<and> v_inputs v' = v_inputs v
     \<and> (v_complete v' = None \<longleftrightarrow> v_complete v = None) \<and> (done_v v \<longrightarrow> done_v v')"

definition heap_le :: "estate \<Rightarrow> estate \<Rightarrow> bool" where
  "heap_le s s' \<longleftrightarrow> (\<forall>a v. deref s a = Some v \<longrightarrow> (\<exists>v'. deref s' a = Some v' \<and> same_shape v v'))"

definition done_at :: "estate \<Rightarrow> nat \<Rightarrow> bool" where
  "done_at s a \<longleftrightarrow> (\<exists>v. deref s a = Some v \<and> done_v v)"

definition called :: "estate \<Rightarrow> nat set" where
  "called s = cr_addr ` set (es_calls s)"

text \<open>Calls are one per value, only for completed values; clients are built one per API name.\<close>

definition fetch_inv :: "estate \<Rightarrow> bool" where
  "fetch_inv s \<longleftrightarrow>
     distinct (map cr_addr (es_calls s)) \<and> (\<forall>a \<in> called s. done_at s a)
     \<and> distinct (es_built s) \<and> set (es_built s) = fst ` set (es_memo s)"

text \<open>
  The log grows by calls for values that were not yet completed, or for the value \<open>a\<close> being
  completed right now.
\<close>

definition grows :: "nat set \<Rightarrow> estate \<Rightarrow> estate \<Rightarrow> bool" where
  "grows A s s' \<longleftrightarrow>
     heap_le s s' \<and> (\<exists>cs. es_calls s' = es_calls s @ cs \<and> (\<forall>c \<in> set cs. cr_addr c \<in> A \<or> \<not> done_at s (cr_addr c)))"

definition eval_step :: "estate \<Rightarrow> estate \<Rightarrow> bool" where
  "eval_step s s' \<longleftrightarrow> (fetch_inv s \<longrightarrow> fetch_inv s' \<and> grows {} s s')"

text \<open>What running a completer for a value already marked completed must guarantee.\<close>

definition good_runner :: "erunner \<Rightarrow> bool" where
  "good_runner exec \<longleftrightarrow>
     (\<forall>m a s. fetch_inv s \<longrightarrow> done_at s a \<longrightarrow> a \<notin> called s \<longrightarrow>
        fetch_inv (snd (exec m a s)) \<and> grows {a} s (snd (exec m a s)))"

section \<open>Lemmas\<close>

lemma same_shape_refl [simp]: "same_shape v v"
  by (simp add: same_shape_def)

lemma same_shape_trans: "same_shape u v \<Longrightarrow> same_shape v w \<Longrightarrow> same_shape u w"
  by (simp add: same_shape_def)

lemma heap_le_refl [simp]: "heap_le s s"
  by (simp add: heap_le_def)

lemma heap_le_trans: "heap_le s t \<Longrightarrow> heap_le t u \<Longrightarrow> heap_le s u"
  unfolding heap_le_def by (meson same_shape_trans)

lemma heap_le_done: "heap_le s t \<Longrightarrow> done_at s a \<Longrightarrow> done_at t a"
  by (fastforce simp: heap_le_def done_at_def same_shape_def)

lemma grows_refl [simp]: "grows A s s"
  by (simp add: grows_def)

lemma grows_heap_le: "grows A s t \<Longrightarrow> heap_le s t"
  by (simp add: grows_def)

lemma grows_done: "grows A s t \<Longrightarrow> done_at s a \<Longrightarrow> done_at t a"
  by (blast intro: grows_heap_le heap_le_done)

lemma grows_trans: "grows A s t \<Longrightarrow> grows A t u \<Longrightarrow> grows A s u"
proof -
  assume st: "grows A s t" and tu: "grows A t u"
  from st obtain cs where cs: "es_calls t = es_calls s @ cs" "\<forall>c \<in> set cs. cr_addr c \<in> A \<or> \<not> done_at s (cr_addr c)"
    by (auto simp: grows_def)
  from tu obtain ds where ds: "es_calls u = es_calls t @ ds" "\<forall>c \<in> set ds. cr_addr c \<in> A \<or> \<not> done_at t (cr_addr c)"
    by (auto simp: grows_def)
  have "\<forall>c \<in> set (cs @ ds). cr_addr c \<in> A \<or> \<not> done_at s (cr_addr c)"
    using cs(2) ds(2) grows_done [OF st] by auto
  moreover have "heap_le s u" using st tu by (blast intro: grows_heap_le heap_le_trans)
  ultimately show ?thesis using cs(1) ds(1) by (auto simp: grows_def)
qed

lemma grows_mono: "grows A s t \<Longrightarrow> A \<subseteq> B \<Longrightarrow> grows B s t"
  unfolding grows_def by blast

lemma grows_called: "grows A s t \<Longrightarrow> called t \<subseteq> called s \<union> A \<union> {a. \<not> done_at s a}"
  by (auto simp: grows_def called_def)

interpretation eval: step_rel eval_step
proof
  show "eval_step s t \<Longrightarrow> eval_step t u \<Longrightarrow> eval_step s u" for s t u
    unfolding eval_step_def using grows_trans by blast
qed (simp add: eval_step_def)

lemma grows_same_calls:
  "heap_le s t \<Longrightarrow> es_calls t = es_calls s \<Longrightarrow> grows A s t"
  by (simp add: grows_def)

lemma fetch_inv_heap:
  assumes "fetch_inv s" "heap_le s t" "es_calls t = es_calls s" "es_memo t = es_memo s" "es_built t = es_built s"
  shows "fetch_inv t"
  using assms heap_le_done [OF assms(2)] by (auto simp: fetch_inv_def called_def)

lemma eval_step_heap:
  "heap_le s t \<Longrightarrow> es_calls t = es_calls s \<Longrightarrow> es_memo t = es_memo s \<Longrightarrow> es_built t = es_built s \<Longrightarrow> eval_step s t"
  by (auto simp: eval_step_def intro: fetch_inv_heap grows_same_calls)

lemma set_val_fields [simp]:
  "es_calls (set_val a v s) = es_calls s" "es_memo (set_val a v s) = es_memo s"
  "es_built (set_val a v s) = es_built s"
  "es_calls (snd (alloc v s)) = es_calls s" "es_memo (snd (alloc v s)) = es_memo s"
  "es_built (snd (alloc v s)) = es_built s"
  by (simp_all add: set_val_def alloc_def)

lemma heap_le_set_val: "deref s a = Some v \<Longrightarrow> same_shape v w \<Longrightarrow> heap_le s (set_val a w s)"
  by (auto simp: heap_le_def deref_set_val deref_Some_less)

lemma heap_le_alloc: "heap_le s (snd (alloc w s))"
  by (auto simp: heap_le_def intro: deref_alloc_old)

lemma eval_step_set_val: "deref s a = Some v \<Longrightarrow> same_shape v w \<Longrightarrow> eval_step s (set_val a w s)"
  by (rule eval_step_heap) (auto intro: heap_le_set_val)

lemma eval_step_alloc: "eval_step s (snd (alloc w s))"
  by (rule eval_step_heap) (auto intro: heap_le_alloc)

lemma same_shape_SetCompleter: "same_shape v (SetCompleter m v)"
  by (auto simp: same_shape_def SetCompleter_def done_v_def split: option.splits)

lemma same_shape_SetField: "SetField name out v = Some w \<Longrightarrow> same_shape v w"
  by (auto simp: same_shape_def SetField_def done_v_def split: if_splits)

lemma eval_step_wire_completer: "eval_step s (wire_completer x out s)"
  unfolding wire_completer_def
  by (auto split: cval.splits option.splits intro: eval.step_refl eval_step_set_val same_shape_SetCompleter)

lemma eval_step_store_field: "eval_step s (snd (store_field a name out s))"
  unfolding store_field_def
  by (auto split: option.splits intro: eval.step_refl eval_step_set_val same_shape_SetField)

lemma eval_step_NewFullValue: "NewFullValue r n fs s = Inr (a, s') \<Longrightarrow> eval_step s s'"
  using eval_step_alloc by (auto simp: NewFullValue_def alloc_def split: option.splits)

lemma eval_step_NewInputValue: "NewInputValue r n fs s = Inr (a, s') \<Longrightarrow> eval_step s s'"
  using eval_step_alloc by (auto simp: NewInputValue_def alloc_def split: option.splits)

lemma eval_step_FullProvider: "eval_step s (snd (FullProvider_NewValue b r ty fs s))"
  unfolding FullProvider_NewValue_def
  by (auto split: option.splits view.splits sum.splits intro: eval.step_refl eval_step_NewFullValue)

lemma eval_step_RequestProvider: "eval_step s (snd (RequestProvider_NewValue b t ty fs s))"
  unfolding RequestProvider_NewValue_def by (auto intro: eval.step_refl)

lemma eval_step_condition_new: "eval_step s (snd (condition_new x ty fs s))"
  unfolding condition_new_def
  by (auto split: prod.splits intro: eval.step_trans [OF _ eval_step_wire_completer])
     (metis eval_step_FullProvider eval.step_trans eval_step_wire_completer snd_conv)

lemma eval_step_resolve_memo: "eval_step s (snd (resolve_memo x name s))"
proof (cases "map_of (es_memo s) name")
  case None
  then have "name \<notin> fst ` set (es_memo s)" by (simp add: map_of_eq_None_iff)
  moreover have "deref (snd (resolve_memo x name s)) = deref s"
    by (auto simp: resolve_memo_def None Let_def deref_def fun_eq_iff)
  ultimately show ?thesis
    using None
    by (auto simp: eval_step_def fetch_inv_def resolve_memo_def Let_def grows_def heap_le_def called_def
        done_at_def fun_eq_iff)
next
  case (Some e)
  then show ?thesis by (simp add: resolve_memo_def eval.step_refl)
qed

subsection \<open>Field access\<close>

lemma done_at_mark_done: "deref s a = Some v \<Longrightarrow> v_complete v \<noteq> None \<Longrightarrow> done_at (mark_done a s) a"
  by (auto simp: mark_done_def done_at_def deref_set_val deref_Some_less done_v_def)

lemma eval_step_mark_done: "eval_step s (mark_done a s)"
  unfolding mark_done_def
  by (auto split: option.splits intro!: eval.step_refl eval_step_set_val
      simp: same_shape_def done_v_def)

lemma eval_step_record_err: "eval_step s (record_err a e s)"
  unfolding record_err_def
  by (auto split: option.splits intro!: eval.step_refl eval_step_set_val
      simp: same_shape_def done_v_def)

lemma mark_done_calls [simp]: "es_calls (mark_done a s) = es_calls s"
  by (simp add: mark_done_def split: option.split)

lemma done_at_mark_done_iff:
  "done_at (mark_done a s) b \<Longrightarrow> b \<noteq> a \<Longrightarrow> done_at s b"
  by (auto simp: mark_done_def done_at_def deref_set_val split: option.splits if_splits)

lemma eval_step_completion_run:
  assumes "good_runner exec" "deref s a = Some v" "v_complete v = Some cp"
  shows "eval_step s (snd (completion_run exec a cp s))"
proof (cases "c_done cp \<or> c_fn cp = None")
  case True
  then show ?thesis
    by (auto simp: completion_run_def Let_def intro: eval.step_refl
        eval.step_trans [OF eval_step_mark_done eval_step_record_err])
next
  case False
  then obtain c where c: "\<not> c_done cp" "c_fn cp = Some c" by auto
  let ?s1 = "mark_done a s" and ?s2 = "snd (exec c a (mark_done a s))"
  have nd: "\<not> done_at s a" using assms(2,3) c(1) by (auto simp: done_at_def done_v_def)
  have d1: "done_at ?s1 a" using assms(2,3) by (auto intro: done_at_mark_done)
  have "eval_step s ?s2"
    unfolding eval_step_def
  proof
    assume inv: "fetch_inv s"
    then have inv1: "fetch_inv ?s1" and g1: "grows {} s ?s1"
      using eval_step_mark_done unfolding eval_step_def by blast+
    have "a \<notin> called ?s1" using inv nd by (auto simp: fetch_inv_def called_def)
    with assms(1) inv1 d1 have inv2: "fetch_inv ?s2" and g2: "grows {a} ?s1 ?s2"
      unfolding good_runner_def by blast+
    from g2 obtain cs where cs: "es_calls ?s2 = es_calls ?s1 @ cs"
      "\<forall>c \<in> set cs. cr_addr c = a \<or> \<not> done_at ?s1 (cr_addr c)" by (auto simp: grows_def)
    have "\<forall>c \<in> set cs. \<not> done_at s (cr_addr c)"
      using cs(2) nd g1 by (metis grows_done)
    moreover have "heap_le s ?s2" using g1 g2 by (blast intro: grows_heap_le heap_le_trans)
    ultimately show "fetch_inv ?s2 \<and> grows {} s ?s2" using inv2 cs(1) by (auto simp: grows_def)
  qed
  then have "eval_step s (record_err a (fst (exec c a ?s1)) ?s2)"
    using eval_step_record_err eval.step_trans by blast
  with c show ?thesis by (simp add: completion_run_def Let_def split_beta)
qed

lemma eval_step_Value_Get: "good_runner exec \<Longrightarrow> eval_step s (snd (Value_Get exec a k s))"
proof -
  assume g: "good_runner exec"
  have "eval_step s (snd (getFullViewField exec a v field s))" if v: "deref s a = Some v" for v field
  proof (cases "HasOutputField (v_typ v) field \<and> v_complete v \<noteq> None")
    case True
    then obtain cp where cp: "v_complete v = Some cp" by auto
    have "snd (getFullViewField exec a v field s) = snd (completion_run exec a cp s)"
      using True cp by (auto simp: getFullViewField_def split_beta Let_def split: option.split)
    with eval_step_completion_run [OF g v cp] show ?thesis by simp
  next
    case False
    then show ?thesis by (auto simp: getFullViewField_def intro: eval.step_refl)
  qed
  then show ?thesis
    by (auto simp: Value_Get_def intro: eval.step_refl split: cval.splits option.splits)
qed

subsection \<open>Completers\<close>

lemma eval_step_CompiledRequest: "good_runner exec \<Longrightarrow> eval_step s (snd (CompiledRequest_Eval x exec m inp s))"
proof -
  assume g: "good_runner exec"
  let ?r = "run_cel (Value_Get exec) (RequestProvider_NewValue (x_base_new x) (m_Type m))
              (m_Request m [(''input'', AVal inp)]) s"
  have "snd (CompiledRequest_Eval x exec m inp s) = snd ?r"
    by (simp add: CompiledRequest_Eval_def split_beta split: cval.split)
  moreover have "eval_step s (snd ?r)"
    by (rule eval.run_cel_rel) (use g in \<open>auto intro: eval_step_Value_Get eval_step_RequestProvider\<close>)
  ultimately show ?thesis by simp
qed

lemma eval_step_CompiledOutput: "good_runner exec \<Longrightarrow> eval_step s (snd (CompiledOutput_Eval x exec p inp resp s))"
proof -
  assume g: "good_runner exec"
  let ?r = "run_cel (Value_Get exec) (FullProvider_NewValue (x_base_new x) (x_reg x))
      (p [(''input'', AVal inp), (''request'', AReq (x_req x)), (''response'', AResp resp)]) s"
  have "snd (CompiledOutput_Eval x exec p inp resp s) = snd ?r"
    by (simp add: CompiledOutput_Eval_def split_beta split: cval.split)
  moreover have "eval_step s (snd ?r)"
    by (rule eval.run_cel_rel) (use g in \<open>auto intro: eval_step_Value_Get eval_step_FullProvider\<close>)
  ultimately show ?thesis by simp
qed

lemma eval_step_eval_outputs:
  assumes "good_runner exec"
  shows "eval_step s (snd (eval_outputs x exec a inp resp ops s))"
proof (induction ops arbitrary: s)
  case Nil
  show ?case by (simp add: eval.step_refl)
next
  case (Cons op ops)
  obtain name p where op: "op = (name, p)" by (cases op)
  obtain r s1 where o: "CompiledOutput_Eval x exec p inp resp s = (r, s1)" by fastforce
  then have 1: "eval_step s s1" using eval_step_CompiledOutput [OF assms] by (metis snd_conv)
  show ?case
  proof (cases r)
    case (Inl e)
    with o op 1 show ?thesis by simp
  next
    case (Inr out)
    obtain r2 s2 where st: "store_field a name out (wire_completer x out s1) = (r2, s2)" by fastforce
    then have "eval_step s s2"
      using 1 eval_step_wire_completer eval_step_store_field eval.step_trans by (metis snd_conv)
    with Inr o op st Cons.IH [of s2] show ?thesis
      by (auto split: option.split intro: eval.step_trans)
  qed
qed

lemma grows_then_step: "grows A s t \<Longrightarrow> fetch_inv t \<Longrightarrow> eval_step t u \<Longrightarrow> fetch_inv u \<and> grows A s u"
  unfolding eval_step_def by (blast intro: grows_trans grows_mono)

lemma api_Call_grows:
  assumes "fetch_inv s" "done_at s a" "a \<notin> called s"
  shows "fetch_inv (snd (api_Call x m a mr s)) \<and> grows {a} s (snd (api_Call x m a mr s))"
proof -
  let ?t = "snd (api_Call x m a mr s)"
  have "deref ?t = deref s" by (auto simp: api_Call_def deref_def fun_eq_iff)
  then have "heap_le s ?t" "done_at ?t = done_at s" by (auto simp: heap_le_def done_at_def fun_eq_iff)
  then show ?thesis using assms by (auto simp: api_Call_def fetch_inv_def grows_def called_def)
qed

lemma not_called_step:
  "eval_step s t \<Longrightarrow> fetch_inv s \<Longrightarrow> done_at s a \<Longrightarrow> a \<notin> called s \<Longrightarrow> a \<notin> called t"
  unfolding eval_step_def using grows_called by fastforce

text \<open>The part of a completer up to and including the resolver, before the call is made.\<close>

lemma eval_step_before_call:
  assumes "good_runner exec" "NewInputValue r n fs s = Inr (inp, s1)"
    "CompiledRequest_Eval x exec m inp s1 = (req, s2)" "resolve_memo x api s2 = (e, s3)"
  shows "eval_step s s1" "eval_step s s2" "eval_step s s3"
proof -
  show 1: "eval_step s s1" using assms(2) by (rule eval_step_NewInputValue)
  have "eval_step s1 s2" using eval_step_CompiledRequest [OF assms(1), of s1 x m inp] assms(3) by simp
  with 1 show 2: "eval_step s s2" by (rule eval.step_trans)
  have "eval_step s2 s3" using eval_step_resolve_memo [of s2 x api] assms(4) by simp
  with 2 show "eval_step s s3" by (rule eval.step_trans)
qed

lemma eval_step_inv_grows: "eval_step s t \<Longrightarrow> fetch_inv s \<Longrightarrow> fetch_inv t \<and> grows A s t"
  unfolding eval_step_def by (blast intro: grows_mono)

lemma good_CompleterFor: "good_runner (CompleterFor x n)"
proof (induction n)
  case 0
  show ?case by (simp add: good_runner_def)
next
  case (Suc n)
  show ?case
    unfolding good_runner_def
  proof (intro allI impI)
    fix m a s
    assume pre: "fetch_inv s" "done_at s a" "a \<notin> called s"
    let ?goal = "\<lambda>t. fetch_inv t \<and> grows {a} s t"
    from pre(2) obtain v where v: "deref s a = Some v" by (auto simp: done_at_def)
    show "?goal (snd (CompleterFor x (Suc n) m a s))"
    proof (cases "NewInputValue (x_reg x) (t_FullName (m_Type m)) (InputFields v) s")
      case (Inl e)
      with v pre(1) show ?thesis by simp
    next
      case (Inr p)
      obtain inp s1 where p: "p = (inp, s1)" by fastforce
      obtain req s2 where r: "CompiledRequest_Eval x (CompleterFor x n) m inp s1 = (req, s2)" by fastforce
      obtain e s3 where m: "resolve_memo x (m_APIName m) s2 = (e, s3)" by fastforce
      note steps = eval_step_before_call [OF Suc.IH Inr [unfolded p] r m]
      show ?thesis
      proof (cases "\<exists>mr. req = Inr mr \<and> e = None")
        case False
        then have "snd (CompleterFor x (Suc n) m a s) \<in> {s2, s3}"
          using v Inr p r m by (cases req; cases e) auto
        with steps pre(1) eval_step_inv_grows show ?thesis by blast
      next
        case True
        then obtain mr where mr: "req = Inr mr" "e = None" by blast
        obtain resp s4 where c: "api_Call x m a mr s3 = (resp, s4)" by fastforce
        have g3: "fetch_inv s3" "grows {a} s s3" using steps(3) pre(1) eval_step_inv_grows by blast+
        have g4: "fetch_inv s4 \<and> grows {a} s3 s4"
          using api_Call_grows [of s3 a x m mr] c g3 pre not_called_step [OF steps(3)] grows_done by auto
        then have g4: "fetch_inv s4" "grows {a} s s4" using g3(2) grows_trans by blast+
        show ?thesis
        proof (cases resp)
          case (Inl er)
          with v Inr p r m mr c g4 show ?thesis by simp
        next
          case (Inr rsp)
          then have "snd (CompleterFor x (Suc n) m a s) =
              snd (eval_outputs x (CompleterFor x n) a inp
                (case rsp of Some r \<Rightarrow> r | None \<Rightarrow> \<lparr>resp_body = None\<rparr>) (m_Outputs m) s4)"
            using v \<open>NewInputValue _ _ _ s = Inr p\<close> p r m mr c by simp
          with grows_then_step [OF g4(2,1) eval_step_eval_outputs [OF Suc.IH]] show ?thesis by simp
        qed
      qed
    qed
  qed
qed

lemma good_run_completer [simp]: "good_runner (run_completer x)"
  by (simp add: run_completer_def good_CompleterFor)

subsection \<open>Binds and policies\<close>

lemma eval_step_CompiledBind: "eval_step s (snd (CompiledBind_Eval x b req m s))"
proof -
  let ?r = "run_cel (Value_Get (run_completer x)) (FullProvider_NewValue (x_base_new x) (x_reg x))
      (cb_program b [(''request'', AReq req), (''match'', AMatch m)]) s"
  have "snd (CompiledBind_Eval x b req m s) = snd ?r"
    by (simp add: CompiledBind_Eval_def split_beta split: cval.split)
  moreover have "eval_step s (snd ?r)"
    by (rule eval.run_cel_rel) (auto intro: eval_step_Value_Get eval_step_FullProvider)
  ultimately show ?thesis by simp
qed

lemma eval_step_EvalBinds: "eval_step s (snd (EvalBinds x bs req m s))"
proof (induction bs arbitrary: s)
  case (Cons b bs)
  obtain r s1 where 1: "CompiledBind_Eval x (bv_Bind b) req m s = (r, s1)" by fastforce
  then have "eval_step s s1" using eval_step_CompiledBind by (metis snd_conv)
  moreover obtain r2 s2 where "EvalBinds x bs req m s1 = (r2, s2)" by fastforce
  moreover have "eval_step s1 s2" using Cons.IH [of s1] calculation(2) by simp
  ultimately show ?case using 1 eval.step_trans [of s s1 s2] by (auto split: sum.split)
qed (simp add: eval.step_refl)

lemma eval_step_install_binds: "eval_step s (snd (install_binds x bs s))"
proof (induction bs arbitrary: s)
  case (Cons b bs)
  show ?case
  proof (cases "x_metas x (bd_Name b)")
    case None
    then show ?thesis by (simp add: eval.step_refl)
  next
    case (Some m)
    define s1 where "s1 = (case deref s (bd_Value b) of None \<Rightarrow> s | Some v \<Rightarrow> set_val (bd_Value b) (SetCompleter m v) s)"
    have "eval_step s s1"
      by (auto simp: s1_def intro: eval.step_refl eval_step_set_val same_shape_SetCompleter split: option.split)
    moreover obtain r2 s2 where r2: "install_binds x bs s1 = (r2, s2)" by fastforce
    ultimately have "eval_step s s2" using Cons.IH [of s1] eval.step_trans by (metis snd_conv)
    with Some r2 show ?thesis by (auto simp: s1_def [symmetric] Let_def split: sum.split)
  qed
qed (simp add: eval.step_refl)

lemma eval_step_CompiledCondition: "eval_step s (snd (CompiledCondition_Eval x p an prn now binds s))"
proof (cases prn)
  case None
  then show ?thesis by (simp add: CompiledCondition_Eval_def eval.step_refl)
next
  case (Some pr)
  have "eval_step s (snd (run_cel (Value_Get (run_completer x)) (condition_new x) c s))" for c
    by (rule eval.run_cel_rel) (auto intro: eval_step_Value_Get eval_step_condition_new)
  with Some show ?thesis by (simp add: CompiledCondition_Eval_def Let_def split_beta)
qed

lemma eval_step_Policy_Evaluate: "eval_step s (snd (Policy_Evaluate x p an prn now binds s))"
proof -
  obtain r s1 where 1: "install_binds x binds s = (r, s1)" by fastforce
  then have "eval_step s s1" using eval_step_install_binds by (metis snd_conv)
  with 1 show ?thesis
    by (auto simp: Policy_Evaluate_def split_beta Let_def split: sum.split
        intro: eval.step_trans [OF _ eval_step_CompiledCondition])
qed

end
