(* ===== verification/ApiRuntime.thy ===== *)
theory ApiRuntime
  imports Completion
begin

text \<open>
  One API's runtime, from \<^verbatim>\<open>internal/runtime/api.go\<close>: type registration, compilation, the deny-first
  policy store and the evaluation of a request.  The store's mutex makes each operation atomic and
  \<open>all\<close> a snapshot, so an evaluation sees one value of the store.  \<^verbatim>\<open>net/url.Parse\<close> is the argument
  \<open>parse_url\<close>; the observers of \<^verbatim>\<open>observer.go\<close> are the log of condition evaluations.
\<close>

section \<open>Definitions\<close>

subsection \<open>Policy store\<close>

record policyStore =
  st_deny :: "CPolicy list"
  st_permit :: "CPolicy list"

definition newPolicyStore :: policyStore where
  "newPolicyStore = \<lparr>st_deny = [], st_permit = []\<rparr>"

definition appendLocked :: "CPolicy \<Rightarrow> policyStore \<Rightarrow> policyStore" where
  "appendLocked p s =
     (if cp_Result p = Deny then s\<lparr>st_deny := st_deny s @ [p]\<rparr>
      else s\<lparr>st_permit := st_permit s @ [p]\<rparr>)"

definition store_add :: "CPolicy \<Rightarrow> policyStore \<Rightarrow> policyStore" where
  "store_add p s = appendLocked p s"

definition indexByName :: "CPolicy list \<Rightarrow> string \<Rightarrow> nat option" where
  "indexByName ps name = index_by cp_Name name ps"

definition delete_at :: "nat \<Rightarrow> 'a list \<Rightarrow> 'a list" where
  "delete_at i xs = take i xs @ drop (Suc i) xs"

definition removeLocked :: "string \<Rightarrow> policyStore \<Rightarrow> bool \<times> policyStore" where
  "removeLocked name s =
     (case indexByName (st_deny s) name of
        Some i \<Rightarrow> (True, s\<lparr>st_deny := delete_at i (st_deny s)\<rparr>)
      | None \<Rightarrow>
          (case indexByName (st_permit s) name of
             Some i \<Rightarrow> (True, s\<lparr>st_permit := delete_at i (st_permit s)\<rparr>)
           | None \<Rightarrow> (False, s)))"

definition store_remove :: "string \<Rightarrow> policyStore \<Rightarrow> bool \<times> policyStore" where
  "store_remove name s = removeLocked name s"

definition store_replace :: "CPolicy \<Rightarrow> policyStore \<Rightarrow> bool \<times> policyStore" where
  "store_replace p s =
     (let bucket = (if cp_Result p = Deny then st_deny s else st_permit s)
      in case indexByName bucket (cp_Name p) of
           Some i \<Rightarrow>
             (True, if cp_Result p = Deny then s\<lparr>st_deny := (st_deny s)[i := p]\<rparr>
                    else s\<lparr>st_permit := (st_permit s)[i := p]\<rparr>)
         | None \<Rightarrow>
             (let (existed, s1) = removeLocked (cp_Name p) s
              in (existed, appendLocked p s1)))"

definition store_all :: "policyStore \<Rightarrow> CPolicy list" where
  "store_all s = st_deny s @ st_permit s"

definition store_list :: "policyStore \<Rightarrow> Policy list" where
  "store_list s = map cp_source (st_deny s) @ map cp_source (st_permit s)"

subsection \<open>The runtime record and its construction\<close>

record 'u APIRuntime =
  ar_name :: string
  ar_baseURL :: string
  ar_parsedBaseURL :: 'u
  ar_accessDeniedStatus :: int
  ar_authOptional :: bool
  ar_registry :: registry
  ar_metas :: "string \<rightharpoonup> Meta"
  ar_actions :: "CAction list"
  ar_store :: policyStore

text \<open>The validation pass of \<open>registerAPITypes\<close>, then the pass that registers.\<close>

fun validate_metas :: "registry \<Rightarrow> string \<Rightarrow> string list \<Rightarrow> Metadata list \<Rightarrow> err option" where
  "validate_metas reg apiName seen [] = None"
| "validate_metas reg apiName seen (m # ms) =
     (let full = apiName @ ''.'' @ md_Name m
      in if full \<in> set seen then Some (EMsg ''duplicate meta'')
         else (case Registry_Get reg full of
                 Some _ \<Rightarrow> Some (EMsg ''type is already registered'')
               | None \<Rightarrow>
                   (case ValidateMetaFields m of
                      Some e \<Rightarrow> Some e
                    | None \<Rightarrow> validate_metas reg apiName (full # seen) ms)))"

fun register_metas ::
  "string \<Rightarrow> Metadata list \<Rightarrow> registry \<Rightarrow> (err + (string \<times> mtype) list) \<times> registry" where
  "register_metas apiName [] reg = (Inr [], reg)"
| "register_metas apiName (m # ms) reg =
     (case RegisterMetaType m apiName reg of
        Inl e \<Rightarrow> (Inl e, reg)
      | Inr (t, reg1) \<Rightarrow>
          (case register_metas apiName ms reg1 of
             (Inl e, reg2) \<Rightarrow> (Inl e, reg2)
           | (Inr ts, reg2) \<Rightarrow> (Inr ((md_Name m, t) # ts), reg2)))"

definition registerAPITypes :: "API \<Rightarrow> registry \<Rightarrow> (err + (string \<times> mtype) list) \<times> registry" where
  "registerAPITypes api reg =
     (case validate_metas reg (api_Name api) [] (api_Meta api) of
        Some e \<Rightarrow> (Inl e, reg)
      | None \<Rightarrow> register_metas (api_Name api) (api_Meta api) reg)"

fun compileAPIMetas_loop ::
  "compiler \<Rightarrow> string \<Rightarrow> registry \<Rightarrow> (string \<times> mtype) list \<Rightarrow> Metadata list \<Rightarrow> err + (string \<times> Meta) list" where
  "compileAPIMetas_loop compile apiName reg types [] = Inr []"
| "compileAPIMetas_loop compile apiName reg types (m # ms) =
     (case map_of types (md_Name m) of
        None \<Rightarrow> Inl (EMsg ''panic: no type'')
      | Some t \<Rightarrow>
          (case CompileMeta compile m apiName t reg of
             Inl e \<Rightarrow> Inl e
           | Inr cm \<Rightarrow>
               (case compileAPIMetas_loop compile apiName reg types ms of
                  Inl e \<Rightarrow> Inl e
                | Inr rest \<Rightarrow> Inr ((t_FullName (m_Type cm), cm) # rest))))"

definition compileAPIMetas ::
  "compiler \<Rightarrow> API \<Rightarrow> registry \<Rightarrow> (string \<times> mtype) list \<Rightarrow> err + (string \<times> Meta) list" where
  "compileAPIMetas compile api reg types =
     compileAPIMetas_loop compile (api_Name api) reg types (api_Meta api)"

definition validateAccessDeniedStatus :: "API \<Rightarrow> err option" where
  "validateAccessDeniedStatus api =
     (let s = api_AccessDeniedStatus api
      in if s = 0 then None
         else if s < 200 \<or> s > 599 then Some (EMsg ''access_denied_status must be in [200, 599]'')
         else None)"

definition validateAuth :: "API \<Rightarrow> err option" where
  "validateAuth api =
     (if api_Auth api \<in> {[], ''required'', ''optional''} then None
      else Some (EMsg ''auth must be one of required|optional''))"

definition compileAPIActions ::
  "compiler \<Rightarrow> (string \<Rightarrow> err + 'u) \<Rightarrow> API \<Rightarrow> registry \<Rightarrow> (string \<rightharpoonup> Meta) \<Rightarrow> err + 'u APIRuntime" where
  "compileAPIActions compile parse_url api reg allMetas =
     (case map_result (\<lambda>a. NewAction compile a (api_Name api) reg allMetas) (api_Actions api) of
        Inl e \<Rightarrow> Inl e
      | Inr actions \<Rightarrow>
          (case parse_url (api_BaseURL api) of
             Inl e \<Rightarrow> Inl e
           | Inr parsed \<Rightarrow>
               (case validateAccessDeniedStatus api of
                  Some e \<Rightarrow> Inl e
                | None \<Rightarrow>
                    (case validateAuth api of
                       Some e \<Rightarrow> Inl e
                     | None \<Rightarrow>
                         Inr \<lparr>ar_name = api_Name api, ar_baseURL = api_BaseURL api,
                              ar_parsedBaseURL = parsed,
                              ar_accessDeniedStatus = api_AccessDeniedStatus api,
                              ar_authOptional = AuthOptional api, ar_registry = reg,
                              ar_metas = allMetas, ar_actions = actions, ar_store = newPolicyStore\<rparr>))))"

definition APIRuntime_compile :: "compiler \<Rightarrow> 'u APIRuntime \<Rightarrow> Policy \<Rightarrow> err + CPolicy" where
  "APIRuntime_compile compile r p =
     (if pol_API p \<noteq> ar_name r then Inl (EMsg ''policy targets another api'')
      else NewPolicy compile p (ar_name r) (ar_registry r))"

definition APIRuntime_Add :: "compiler \<Rightarrow> Policy \<Rightarrow> 'u APIRuntime \<Rightarrow> err + 'u APIRuntime" where
  "APIRuntime_Add compile p r =
     (case APIRuntime_compile compile r p of
        Inl e \<Rightarrow> Inl e
      | Inr cp \<Rightarrow> Inr (r\<lparr>ar_store := store_add cp (ar_store r)\<rparr>))"

definition APIRuntime_Replace :: "compiler \<Rightarrow> Policy \<Rightarrow> 'u APIRuntime \<Rightarrow> err + (bool \<times> 'u APIRuntime)" where
  "APIRuntime_Replace compile p r =
     (case APIRuntime_compile compile r p of
        Inl e \<Rightarrow> Inl e
      | Inr cp \<Rightarrow>
          (let (existed, st) = store_replace cp (ar_store r)
           in Inr (existed, r\<lparr>ar_store := st\<rparr>)))"

definition APIRuntime_Remove :: "string \<Rightarrow> 'u APIRuntime \<Rightarrow> bool \<times> 'u APIRuntime" where
  "APIRuntime_Remove name r =
     (let (ok, st) = store_remove name (ar_store r) in (ok, r\<lparr>ar_store := st\<rparr>))"

definition APIRuntime_List :: "'u APIRuntime \<Rightarrow> Policy list" where
  "APIRuntime_List r = store_list (ar_store r)"

subsection \<open>Evaluation\<close>

record matchedAction =
  ma_name :: string
  ma_match :: "string \<rightharpoonup> string"
  ma_binds :: "BoundValue list"

fun matchActions ::
  "evalctx \<Rightarrow> CAction list \<Rightarrow> estate \<Rightarrow> (err + matchedAction list) \<times> estate" where
  "matchActions x [] s = (Inr [], s)"
| "matchActions x (a # as) s =
     (case Action_Match (x_base_new x) a (x_req x) of
        Inl e \<Rightarrow> (Inl e, s)
      | Inr None \<Rightarrow> matchActions x as s
      | Inr (Some m) \<Rightarrow>
          (case EvalBinds x (ca_Binds a) (x_req x) m s of
             (Inl e, s1) \<Rightarrow> (Inl e, s1)
           | (Inr binds, s1) \<Rightarrow>
               (case matchActions x as s1 of
                  (Inl e, s2) \<Rightarrow> (Inl e, s2)
                | (Inr ms, s2) \<Rightarrow>
                    (Inr (\<lparr>ma_name = ca_Name a, ma_match = m, ma_binds = binds\<rparr> # ms), s2))))"

definition APIRuntime_MatchedActions :: "evalctx \<Rightarrow> 'u APIRuntime \<Rightarrow> estate \<Rightarrow> err + string list" where
  "APIRuntime_MatchedActions x r s =
     (case fst (matchActions x (ar_actions r) s) of
        Inl e \<Rightarrow> Inl e
      | Inr ms \<Rightarrow> Inr (map ma_name ms))"

text \<open>One condition evaluation, as \<open>ConditionEvalObserver\<close> sees it: \<open>ce_fired\<close> or an error.\<close>

record condEval =
  ce_action :: string
  ce_policy :: CPolicy
  ce_fired :: bool
  ce_err :: "err option"

text \<open>
  The inner loop over matched actions: \<open>None\<close> means the next policy is tried, \<open>Some (d, e)\<close> that
  \<open>Evaluate\<close> returns decision \<open>d\<close> and error \<open>e\<close>.
\<close>

fun eval_actions ::
  "evalctx \<Rightarrow> CPolicy \<Rightarrow> Principal option \<Rightarrow> int \<Rightarrow> matchedAction list \<Rightarrow> estate
     \<Rightarrow> (PolicyResult \<times> err option) option \<times> condEval list \<times> estate" where
  "eval_actions x p prn now [] s = (None, [], s)"
| "eval_actions x p prn now (m # ms) s =
     (case AppliesTo x p (ma_name m) (ma_match m) prn now of
        Inl e \<Rightarrow> (Some (Deny, Some e), [], s)
      | Inr ok \<Rightarrow>
          (if \<not> ok then eval_actions x p prn now ms s
           else
             (case Policy_Evaluate x p (ma_name m) prn now (ma_binds m) s of
                (Inl e, s1) \<Rightarrow>
                  (Some (Deny, Some e),
                   [\<lparr>ce_action = ma_name m, ce_policy = p, ce_fired = False, ce_err = Some e\<rparr>], s1)
              | (Inr fired, s1) \<Rightarrow>
                  (let ev = \<lparr>ce_action = ma_name m, ce_policy = p, ce_fired = fired, ce_err = None\<rparr>
                   in if fired then (Some (cp_Result p, None), [ev], s1)
                      else (case eval_actions x p prn now ms s1 of
                              (out, evs, s2) \<Rightarrow> (out, ev # evs, s2))))))"

fun eval_policies ::
  "evalctx \<Rightarrow> Principal option \<Rightarrow> int \<Rightarrow> matchedAction list \<Rightarrow> CPolicy list \<Rightarrow> estate
     \<Rightarrow> (PolicyResult \<times> err option) \<times> condEval list \<times> estate" where
  "eval_policies x prn now ms [] s = ((Deny, None), [], s)"
| "eval_policies x prn now ms (p # ps) s =
     (case AppliesToPrincipal x p prn now of
        Inl e \<Rightarrow> ((Deny, Some e), [], s)
      | Inr ok \<Rightarrow>
          (if \<not> ok then eval_policies x prn now ms ps s
           else (case eval_actions x p prn now ms s of
                   (Some r, evs, s1) \<Rightarrow> (r, evs, s1)
                 | (None, evs, s1) \<Rightarrow>
                     (case eval_policies x prn now ms ps s1 of
                        (r, evs2, s2) \<Rightarrow> (r, evs @ evs2, s2)))))"

definition APIRuntime_Evaluate ::
  "evalctx \<Rightarrow> 'u APIRuntime \<Rightarrow> Principal option \<Rightarrow> int \<Rightarrow> estate
     \<Rightarrow> (PolicyResult \<times> err option) \<times> condEval list \<times> estate" where
  "APIRuntime_Evaluate x r prn now s =
     (if prn = None then ((Deny, Some (EMsg ''principal is required'')), [], s)
      else (case matchActions x (ar_actions r) s of
              (Inl e, s1) \<Rightarrow> ((Deny, Some e), [], s1)
            | (Inr ms, s1) \<Rightarrow>
                (if ms = [] then ((Deny, None), [], s1)
                 else eval_policies x prn now ms (store_all (ar_store r)) s1)))"

subsection \<open>Specification\<close>

text \<open>
  The bucket invariant (deny policies in one bucket, the rest in the other), the invariant of a store
  that is only written by name, and its abstract view as a map from names to policies.
\<close>

definition buckets_ok :: "policyStore \<Rightarrow> bool" where
  "buckets_ok s \<longleftrightarrow>
     (\<forall>p \<in> set (st_deny s). cp_Result p = Deny) \<and> (\<forall>p \<in> set (st_permit s). cp_Result p \<noteq> Deny)"

definition store_inv :: "policyStore \<Rightarrow> bool" where
  "store_inv s \<longleftrightarrow> buckets_ok s \<and> distinct (map cp_Name (store_all s))"

definition store_lookup :: "policyStore \<Rightarrow> string \<Rightarrow> CPolicy option" where
  "store_lookup s name = find_by cp_Name name (store_all s)"

text \<open>Whether the loop over policies stopped early: an error, or a condition that fired.\<close>

definition decided :: "PolicyResult \<times> err option \<Rightarrow> condEval list \<Rightarrow> bool" where
  "decided r evs \<longleftrightarrow> snd r \<noteq> None \<or> (\<exists>ev \<in> set evs. ce_fired ev)"

text \<open>
  A small drive-like API used by the concrete checks: one meta \<open>d.file\<close> with input \<open>id\<close> and output
  \<open>owner\<close>, one action on \<^verbatim>\<open>GET /d/files/{id}\<close> that binds it, a permit policy that reads \<open>owner\<close>
  twice and a deny policy for another owner.
\<close>

definition ex_file :: mtype where
  "ex_file = \<lparr>t_FullName = ''d.file'', t_InputFields = [''id''], t_OutputFields = [''owner'']\<rparr>"

definition ex_meta :: Meta where
  "ex_meta = \<lparr>m_APIName = ''d'', m_Type = ex_file,
     m_Request = (\<lambda>_. Ret (CMetaReq \<lparr>mr_method = ''GET'', mr_path = ''/d/files/7'', mr_body = None, mr_content_type = []\<rparr>)),
     m_Outputs = [(''owner'', \<lambda>_. Ret (CStr ''alice''))]\<rparr>"

definition ex_ctx :: evalctx where
  "ex_ctx = \<lparr>x_reg = [(''d.file'', ex_file)], x_metas = [''d.file'' \<mapsto> ex_meta], x_resolve = (\<lambda>_ _. None),
     x_call = (\<lambda>_ _ _. Inr (Some \<lparr>resp_body = None\<rparr>)), x_base_new = (\<lambda>_ _. CNull),
     x_req = \<lparr>req_method = ''GET'', req_path = ''/d/files/7'', req_path_segments = [''d'', ''files'', ''7''],
              req_query = [], req_body = None\<rparr>, x_depth = 2\<rparr>"

definition ex_owner_is :: "string \<Rightarrow> prog" where
  "ex_owner_is who act =
     (case map_of act ''d.file'' of
        Some (AVal a) \<Rightarrow>
          GetField a (CStr ''owner'') (\<lambda>_. GetField a (CStr ''owner'') (\<lambda>w. Ret (case w of CErr e \<Rightarrow> w | _ \<Rightarrow> CBool (w = CStr who))))
      | _ \<Rightarrow> Ret CNull)"

definition ex_policy :: "string \<Rightarrow> PolicyResult \<Rightarrow> string \<Rightarrow> CPolicy" where
  "ex_policy name res who =
     \<lparr>cp_API = ''d'', cp_Name = name, cp_Result = res, cp_principalPred = (\<lambda>_. Ret (CBool True)),
      cp_predicate = (\<lambda>_. Ret (CBool True)), cp_condition = ex_owner_is who,
      cp_source = \<lparr>pol_API = ''d'', pol_Name = name, pol_Description = [], pol_Principal = [], pol_Action = [],
                   pol_Condition = ''true'', pol_Result = res\<rparr>\<rparr>"

definition ex_api :: "unit APIRuntime" where
  "ex_api = \<lparr>ar_name = ''d'', ar_baseURL = ''https://d'', ar_parsedBaseURL = (), ar_accessDeniedStatus = 0,
     ar_authOptional = False, ar_registry = [(''d.file'', ex_file)], ar_metas = [''d.file'' \<mapsto> ex_meta],
     ar_actions = [\<lparr>ca_Name = ''read'', ca_Template = None, ca_Filter = Some (\<lambda>_. Ret (CBool True)),
       ca_Binds = [\<lparr>bv_MetaName = ''d.file'',
         bv_Bind = \<lparr>cb_program = (\<lambda>_. NewObj ''d.file'' [(''id'', CStr ''7'')] Ret), cb_outputType = TObject ''d.file''\<rparr>,
         bv_Meta = ex_meta\<rparr>]\<rparr>],
     ar_store = \<lparr>st_deny = [ex_policy ''no-bob'' Deny ''bob''], st_permit = [ex_policy ''alice'' Permit ''alice'']\<rparr>\<rparr>"

definition ex_prn :: Principal where
  "ex_prn = \<lparr>pr_subject = ''alice'', pr_kind = [], pr_scopes = [], pr_attributes = []\<rparr>"

definition ex_state :: estate where
  "ex_state = \<lparr>h_vals = [], es_calls = [], es_memo = [], es_built = []\<rparr>"

definition quiet :: "condEval list \<Rightarrow> bool" where
  "quiet evs \<longleftrightarrow> (\<forall>ev \<in> set evs. \<not> ce_fired ev \<and> ce_err ev = None)"

text \<open>
  A policy had no say: its principal predicate rejected the caller, or on every matched action its
  action predicate rejected the action or its condition was evaluated and did not fire.
\<close>

definition passed_over ::
  "evalctx \<Rightarrow> Principal option \<Rightarrow> int \<Rightarrow> matchedAction list \<Rightarrow> condEval list \<Rightarrow> CPolicy \<Rightarrow> bool" where
  "passed_over x prn now ms evs q \<longleftrightarrow>
     AppliesToPrincipal x q prn now = Inr False
     \<or> AppliesToPrincipal x q prn now = Inr True
       \<and> (\<forall>m \<in> set ms. AppliesTo x q (ma_name m) (ma_match m) prn now = Inr False
            \<or> AppliesTo x q (ma_name m) (ma_match m) prn now = Inr True
              \<and> \<lparr>ce_action = ma_name m, ce_policy = q, ce_fired = False, ce_err = None\<rparr> \<in> set evs)"

section \<open>The policy store\<close>

lemma store_lookup_split:
  "store_lookup s k = (case find_by cp_Name k (st_deny s) of
     None \<Rightarrow> find_by cp_Name k (st_permit s) | Some p \<Rightarrow> Some p)"
  by (simp add: store_lookup_def store_all_def find_by_append)

lemma buckets_ok_append: "buckets_ok s \<Longrightarrow> buckets_ok (store_add p s)"
  by (auto simp: buckets_ok_def store_add_def appendLocked_def)

lemma removeLocked_spec:
  "snd (removeLocked name s) =
     (if name \<in> cp_Name ` set (st_deny s) then s\<lparr>st_deny := remove_by cp_Name name (st_deny s)\<rparr>
      else s\<lparr>st_permit := remove_by cp_Name name (st_permit s)\<rparr>)"
  using index_by_None_iff [of cp_Name name "st_deny s"] index_by_None_iff [of cp_Name name "st_permit s"]
  by (auto simp: removeLocked_def indexByName_def delete_at_def index_by_delete remove_by_id split: option.splits)

lemma removeLocked_found: "fst (removeLocked name s) \<longleftrightarrow> store_lookup s name \<noteq> None"
  using index_by_None_iff [of cp_Name name "st_deny s"] index_by_None_iff [of cp_Name name "st_permit s"]
  by (auto simp: removeLocked_def indexByName_def store_lookup_def store_all_def find_by_None_iff image_Un
      split: option.splits)

text \<open>Writing by name: an upsert in the bucket of the policy, after leaving the other bucket.\<close>

lemma store_replace_spec:
  assumes "store_inv s"
  shows "snd (store_replace p s) =
     (if cp_Result p = Deny
      then \<lparr>st_deny = upsert_by cp_Name p (st_deny s), st_permit = remove_by cp_Name (cp_Name p) (st_permit s)\<rparr>
      else \<lparr>st_deny = remove_by cp_Name (cp_Name p) (st_deny s), st_permit = upsert_by cp_Name p (st_permit s)\<rparr>)"
proof -
  let ?b = "if cp_Result p = Deny then st_deny s else st_permit s"
  have disj: "cp_Name ` set (st_deny s) \<inter> cp_Name ` set (st_permit s) = {}"
    using assms by (auto simp: store_inv_def store_all_def)
  show ?thesis
  proof (cases "indexByName ?b (cp_Name p)")
    case None
    then have "cp_Name p \<notin> cp_Name ` set ?b" "?b @ [p] = upsert_by cp_Name p ?b"
      using index_by_None_iff [of cp_Name "cp_Name p" ?b] index_by_append [of cp_Name p ?b]
      by (simp_all add: indexByName_def)
    with None show ?thesis
      by (cases s)
         (auto simp: store_replace_def Let_def split_beta removeLocked_spec appendLocked_def remove_by_id)
  next
    case (Some i)
    then have "cp_Name p \<in> cp_Name ` set ?b" "?b[i := p] = upsert_by cp_Name p ?b"
      using index_by_None_iff [of cp_Name "cp_Name p" ?b] index_by_update [of cp_Name p ?b i]
      by (simp_all add: indexByName_def)
    moreover have "remove_by cp_Name (cp_Name p) (if cp_Result p = Deny then st_permit s else st_deny s)
        = (if cp_Result p = Deny then st_permit s else st_deny s)"
      using disj calculation(1) by (intro remove_by_id) (auto split: if_splits)
    ultimately show ?thesis using Some by (cases s) (simp add: store_replace_def Let_def split: if_splits)
  qed
qed

lemma store_replace_found: "fst (store_replace p s) \<longleftrightarrow> store_lookup s (cp_Name p) \<noteq> None"
proof (cases "indexByName (if cp_Result p = Deny then st_deny s else st_permit s) (cp_Name p)")
  case None
  then show ?thesis by (simp add: store_replace_def Let_def split_beta removeLocked_found)
next
  case (Some i)
  then have "cp_Name p \<in> cp_Name ` set (store_all s)"
    using index_by_None_iff [of cp_Name "cp_Name p" "if cp_Result p = Deny then st_deny s else st_permit s"]
    by (auto simp: indexByName_def store_all_def split: if_splits)
  with Some show ?thesis by (simp add: store_replace_def Let_def store_lookup_def find_by_None_iff)
qed

lemma store_inv_split:
  "store_inv s \<longleftrightarrow> buckets_ok s \<and> distinct (map cp_Name (st_deny s)) \<and> distinct (map cp_Name (st_permit s))
     \<and> cp_Name ` set (st_deny s) \<inter> cp_Name ` set (st_permit s) = {}"
  by (simp add: store_inv_def store_all_def)

lemma store_inv_replace:
  assumes "store_inv s" shows "store_inv (snd (store_replace p s))"
proof -
  have "buckets_ok (snd (store_replace p s))"
    using assms set_upsert_by_subset [of cp_Name p] set_remove_by_subset [of cp_Name "cp_Name p"]
    unfolding store_replace_spec [OF assms] store_inv_def buckets_ok_def by (auto dest!: subsetD)
  with assms show ?thesis
    unfolding store_inv_split store_replace_spec [OF assms]
    by (auto simp: distinct_upsert_by distinct_remove_by upsert_by_keys remove_by_keys)
qed

lemma store_inv_remove:
  assumes "store_inv s" shows "store_inv (snd (store_remove name s))"
proof -
  have "buckets_ok (snd (store_remove name s))"
    using assms set_remove_by_subset [of cp_Name name]
    by (auto simp: store_remove_def removeLocked_spec store_inv_def buckets_ok_def dest!: subsetD)
  with assms show ?thesis
    by (auto simp: store_inv_split store_remove_def removeLocked_spec distinct_remove_by remove_by_keys)
qed

lemma store_lookup_replace:
  assumes "store_inv s"
  shows "store_lookup (snd (store_replace p s)) k = (if k = cp_Name p then Some p else store_lookup s k)"
  using assms unfolding store_lookup_split store_replace_spec [OF assms]
  by (auto simp: store_inv_split find_by_upsert_by find_by_remove_by split: option.splits)

lemma store_lookup_remove:
  assumes "store_inv s"
  shows "store_lookup (snd (store_remove j s)) k = (if k = j then None else store_lookup s k)"
  using assms find_by_None_iff [of cp_Name j "st_permit s"] find_by_None_iff [of cp_Name j "st_deny s"]
  unfolding store_lookup_split store_remove_def removeLocked_spec
  by (auto simp: store_inv_split find_by_remove_by split: option.splits)

interpretation pstore: keyed_store store_inv cp_Name store_lookup
  "\<lambda>p s. snd (store_replace p s)" "\<lambda>k s. snd (store_remove k s)"
  by unfold_locales
     (simp_all add: store_inv_replace store_inv_remove store_lookup_replace store_lookup_remove)

lemma store_inv_new: "store_inv newPolicyStore"
  by (simp add: store_inv_def buckets_ok_def newPolicyStore_def store_all_def)

section \<open>Decisions\<close>

lemma quiet_simps [simp]:
  "quiet []" "quiet (ev # evs) \<longleftrightarrow> \<not> ce_fired ev \<and> ce_err ev = None \<and> quiet evs"
  "quiet (evs @ evs') \<longleftrightarrow> quiet evs \<and> quiet evs'"
  by (auto simp: quiet_def)

lemma passed_over_mono: "passed_over x prn now ms evs q \<Longrightarrow> set evs \<subseteq> set evs' \<Longrightarrow> passed_over x prn now ms evs' q"
  unfolding passed_over_def by blast

lemma eval_actions_Cons_cases:
  assumes "eval_actions x p prn now (m # ms) s = (out, evs, s')"
  obtains
    (pred_err) e where "AppliesTo x p (ma_name m) (ma_match m) prn now = Inl e"
      "out = Some (Deny, Some e)" "evs = []" "s' = s"
  | (skip) "AppliesTo x p (ma_name m) (ma_match m) prn now = Inr False"
      "eval_actions x p prn now ms s = (out, evs, s')"
  | (cond_err) e where "AppliesTo x p (ma_name m) (ma_match m) prn now = Inr True"
      "Policy_Evaluate x p (ma_name m) prn now (ma_binds m) s = (Inl e, s')" "out = Some (Deny, Some e)"
      "evs = [\<lparr>ce_action = ma_name m, ce_policy = p, ce_fired = False, ce_err = Some e\<rparr>]"
  | (fires) "AppliesTo x p (ma_name m) (ma_match m) prn now = Inr True"
      "Policy_Evaluate x p (ma_name m) prn now (ma_binds m) s = (Inr True, s')" "out = Some (cp_Result p, None)"
      "evs = [\<lparr>ce_action = ma_name m, ce_policy = p, ce_fired = True, ce_err = None\<rparr>]"
  | (silent) evs2 s1 where "AppliesTo x p (ma_name m) (ma_match m) prn now = Inr True"
      "Policy_Evaluate x p (ma_name m) prn now (ma_binds m) s = (Inr False, s1)"
      "eval_actions x p prn now ms s1 = (out, evs2, s')"
      "evs = \<lparr>ce_action = ma_name m, ce_policy = p, ce_fired = False, ce_err = None\<rparr> # evs2"
  using assms by (auto simp: Let_def split: sum.splits if_splits prod.splits)

lemma eval_actions_None:
  "eval_actions x p prn now ms s = (None, evs, s') \<Longrightarrow>
     quiet evs \<and> (\<forall>m \<in> set ms. AppliesTo x p (ma_name m) (ma_match m) prn now = Inr False
       \<or> AppliesTo x p (ma_name m) (ma_match m) prn now = Inr True
         \<and> \<lparr>ce_action = ma_name m, ce_policy = p, ce_fired = False, ce_err = None\<rparr> \<in> set evs)"
proof (induction ms arbitrary: s evs)
  case (Cons m ms)
  from Cons.prems show ?case
    by (cases rule: eval_actions_Cons_cases) (use Cons.IH in auto)
qed simp

lemma eval_actions_Some:
  "eval_actions x p prn now ms s = (Some (d, e), evs, s') \<Longrightarrow>
     e \<noteq> None \<and> d = Deny
     \<or> e = None \<and> d = cp_Result p
       \<and> (\<exists>m earlier. m \<in> set ms \<and> AppliesTo x p (ma_name m) (ma_match m) prn now = Inr True
            \<and> evs = earlier @ [\<lparr>ce_action = ma_name m, ce_policy = p, ce_fired = True, ce_err = None\<rparr>]
            \<and> quiet earlier)"
proof (induction ms arbitrary: s evs)
  case (Cons m ms)
  from Cons.prems show ?case
  proof (cases rule: eval_actions_Cons_cases)
    case skip
    from Cons.IH [OF skip(2)] show ?thesis
    proof (elim disjE conjE exE)
      fix m' earlier
      assume "e = None" "d = cp_Result p" "m' \<in> set ms" "quiet earlier"
        "AppliesTo x p (ma_name m') (ma_match m') prn now = Inr True"
        "evs = earlier @ [\<lparr>ce_action = ma_name m', ce_policy = p, ce_fired = True, ce_err = None\<rparr>]"
      then show ?thesis by (intro disjI2 conjI exI [of _ m'] exI [of _ earlier]) auto
    qed simp
  next
    case (silent evs2 s1)
    from Cons.IH [OF silent(3)] show ?thesis
    proof (elim disjE conjE exE)
      fix m' earlier
      assume "e = None" "d = cp_Result p" "m' \<in> set ms" "quiet earlier"
        "AppliesTo x p (ma_name m') (ma_match m') prn now = Inr True"
        "evs2 = earlier @ [\<lparr>ce_action = ma_name m', ce_policy = p, ce_fired = True, ce_err = None\<rparr>]"
      with silent(4) show ?thesis
        by (intro disjI2 conjI exI [of _ m']
            exI [of _ "\<lparr>ce_action = ma_name m, ce_policy = p, ce_fired = False, ce_err = None\<rparr> # earlier"]) auto
    qed simp
  qed auto
qed simp

lemma eval_policies_error: "eval_policies x prn now ms ps s = ((d, Some e), evs, s') \<Longrightarrow> d = Deny"
proof (induction ps arbitrary: s evs)
  case (Cons p ps)
  then show ?case
    by (auto split: sum.splits if_splits prod.splits option.splits dest!: eval_actions_Some)
qed simp

lemma eval_policies_Permit:
  "eval_policies x prn now ms ps s = ((Permit, e), evs, s') \<Longrightarrow>
     e = None \<and> (\<exists>pre p post m earlier.
       ps = pre @ p # post \<and> cp_Result p = Permit \<and> AppliesToPrincipal x p prn now = Inr True
       \<and> m \<in> set ms \<and> AppliesTo x p (ma_name m) (ma_match m) prn now = Inr True
       \<and> evs = earlier @ [\<lparr>ce_action = ma_name m, ce_policy = p, ce_fired = True, ce_err = None\<rparr>]
       \<and> quiet earlier \<and> (\<forall>q \<in> set pre. passed_over x prn now ms earlier q))"
    (is "_ \<Longrightarrow> _ \<and> (\<exists>pre p post m earlier. ?P ps evs pre p post m earlier)")
proof (induction ps arbitrary: s evs)
  case (Cons p ps)
  show ?case
  proof (cases "AppliesToPrincipal x p prn now")
    case (Inl er)
    with Cons.prems show ?thesis by (simp add: Permit_def Deny_def)
  next
    case (Inr ok)
    show ?thesis
    proof (cases ok)
      case False
      then have over: "passed_over x prn now ms evs' p" for evs' using Inr by (simp add: passed_over_def)
      have "eval_policies x prn now ms ps s = ((Permit, e), evs, s')" using False Inr Cons.prems by simp
      from Cons.IH [OF this] obtain pre q post m earlier
        where "?P ps evs pre q post m earlier" "e = None" by blast
      with over show ?thesis by (intro conjI exI [of _ "p # pre"]) auto
    next
      case True
      obtain out evs1 s1 where ea: "eval_actions x p prn now ms s = (out, evs1, s1)" by (metis prod_cases3)
      show ?thesis
      proof (cases out)
        case (Some r)
        with True Inr ea Cons.prems eval_actions_Some [of x p prn now ms s "fst r" "snd r" evs1 s1]
        have "e = None" "\<exists>m earlier. ?P (p # ps) evs [] p ps m earlier"
          by (auto simp: Permit_def Deny_def)
        then show ?thesis by blast
      next
        case None
        obtain evs2 where rest: "eval_policies x prn now ms ps s1 = ((Permit, e), evs2, s')" "evs = evs1 @ evs2"
          using None True Inr ea Cons.prems by (auto split: prod.splits)
        with Cons.IH obtain pre q post m earlier where P: "?P ps evs2 pre q post m earlier" "e = None" by blast
        have over: "quiet evs1" "passed_over x prn now ms (evs1 @ earlier) p"
          using eval_actions_None [OF ea [unfolded None]] Inr True by (auto simp: passed_over_def)
        have "?P (p # ps) evs (p # pre) q post m (evs1 @ earlier)"
          using P(1) over rest(2) passed_over_mono [of x prn now ms earlier _ "evs1 @ earlier"] by auto
        with P(2) show ?thesis by blast
      qed
    qed
  qed
qed (simp add: Permit_def Deny_def)

lemma decided_error: "decided (d, Some e) evs"
  by (simp add: decided_def)

lemma eval_policies_append:
  "eval_policies x prn now ms (ps @ qs) s =
     (case eval_policies x prn now ms ps s of
        (r, evs, s1) \<Rightarrow>
          if decided r evs then (r, evs, s1)
          else (case eval_policies x prn now ms qs s1 of (r2, evs2, s2) \<Rightarrow> (r2, evs @ evs2, s2)))"
proof (induction ps arbitrary: s)
  case Nil
  show ?case by (simp add: decided_def split: prod.split)
next
  case (Cons p ps)
  obtain out evs s1 where ea: "eval_actions x p prn now ms s = (out, evs, s1)" by (metis prod_cases3)
  show ?case
  proof (cases out)
    case None
    then have "quiet evs" using ea eval_actions_None by blast
    then have "decided r (evs @ evs') = decided r evs'" for r evs' by (auto simp: decided_def quiet_def)
    with Cons.IH ea None show ?thesis
      by (auto split: sum.split prod.split simp: decided_error)
  next
    case (Some r)
    then have "decided r evs"
      using eval_actions_Some [of x p prn now ms s "fst r" "snd r"] ea by (auto simp: decided_def)
    with Cons.IH ea Some show ?thesis
      by (auto split: sum.split prod.split simp: decided_error)
  qed
qed

lemma eval_step_matchActions: "eval_step s (snd (matchActions x as s))"
proof (induction "as" arbitrary: s)
  case (Cons a "as")
  have step: "eval_step s s1 \<and> eval_step s (snd (matchActions x as s1))"
    if "EvalBinds x (ca_Binds a) (x_req x) m s = (r, s1)" for m r s1
    using eval_step_EvalBinds [of s x "ca_Binds a" "x_req x" m] Cons.IH [of s1] that
    by (auto intro: eval.step_trans)
  show ?case
    using Cons.IH [of s] by (auto split: sum.split option.split prod.split intro: eval.step_refl dest!: step)
qed (simp add: eval.step_refl)

lemma eval_step_eval_actions: "eval_actions x p prn now ms s = (out, evs, s') \<Longrightarrow> eval_step s s'"
proof (induction ms arbitrary: s evs)
  case (Cons m ms)
  note pe = eval_step_Policy_Evaluate [of s x p "ma_name m" prn now "ma_binds m"]
  from Cons.prems show ?case
    by (cases rule: eval_actions_Cons_cases) (use Cons.IH pe in \<open>auto intro: eval.step_refl eval.step_trans\<close>)
qed (simp add: eval.step_refl)

lemma eval_step_eval_policies: "eval_step s (snd (snd (eval_policies x prn now ms ps s)))"
proof (induction ps arbitrary: s)
  case (Cons p ps)
  obtain out evs1 s1 where ea: "eval_actions x p prn now ms s = (out, evs1, s1)" by (metis prod_cases3)
  obtain r2 evs2 s2 where ep: "eval_policies x prn now ms ps s1 = (r2, evs2, s2)" by (metis prod_cases3)
  have "eval_step s s1" "eval_step s1 s2"
    using ea ep eval_step_eval_actions Cons.IH [of s1] by (blast, simp)
  with Cons.IH [of s] ea ep show ?case
    by (auto split: sum.split option.split intro: eval.step_refl eval.step_trans)
qed (simp add: eval.step_refl)

lemma eval_step_Evaluate: "eval_step s (snd (snd (APIRuntime_Evaluate x r prn now s)))"
proof -
  obtain ms s1 where m: "matchActions x (ar_actions r) s = (ms, s1)" by fastforce
  then have 1: "eval_step s s1" using eval_step_matchActions by (metis snd_conv)
  with m show ?thesis
    by (auto simp: APIRuntime_Evaluate_def eval.step_refl split: sum.split
        intro: eval.step_trans [OF _ eval_step_eval_policies])
qed

lemma fetch_inv_initial: "fetch_inv ex_state"
  by (simp add: fetch_inv_def ex_state_def called_def)

subsection \<open>Registration\<close>

lemma RegisterMetaType_fresh:
  "ValidateMetaFields m = None \<Longrightarrow> Registry_Get reg (apiName @ ''.'' @ md_Name m) = None \<Longrightarrow>
     RegisterMetaType m apiName reg =
       Inr (meta_type m apiName, reg @ [(apiName @ ''.'' @ md_Name m, meta_type m apiName)])"
  by (simp add: RegisterMetaType_def Registry_Register_def meta_type_def Let_def)

text \<open>Once the validation pass accepts, the second pass cannot fail half way.\<close>

lemma register_metas_validated:
  assumes "validate_metas reg apiName seen ms = None"
    and "\<And>n. Registry_Get reg1 n \<noteq> None \<Longrightarrow> Registry_Get reg n \<noteq> None \<or> n \<in> set seen"
  shows "register_metas apiName ms reg1 =
    (Inr (map (\<lambda>m. (md_Name m, meta_type m apiName)) ms),
     reg1 @ map (\<lambda>m. (apiName @ ''.'' @ md_Name m, meta_type m apiName)) ms)"
  using assms
proof (induction ms arbitrary: seen reg1)
  case (Cons m ms)
  let ?full = "apiName @ ''.'' @ md_Name m"
  let ?reg2 = "reg1 @ [(?full, meta_type m apiName)]"
  from Cons.prems(1) have v: "?full \<notin> set seen" "Registry_Get reg ?full = None" "ValidateMetaFields m = None"
    "validate_metas reg apiName (?full # seen) ms = None"
    by (auto simp: Let_def split: if_splits option.splits)
  have "Registry_Get reg1 ?full = None" using Cons.prems(2) v(1,2) by blast
  with v(3) have r: "RegisterMetaType m apiName reg1 = Inr (meta_type m apiName, ?reg2)"
    by (rule RegisterMetaType_fresh)
  have "Registry_Get ?reg2 n \<noteq> None \<Longrightarrow> Registry_Get reg n \<noteq> None \<or> n \<in> set (?full # seen)" for n
    using Cons.prems(2) [of n] by (auto simp: Registry_Get_def map_add_def split: option.splits if_splits)
  from Cons.IH [OF v(4) this] r show ?case by simp
qed simp

lemma registerAPITypes_cases:
  "registerAPITypes api reg =
     (case validate_metas reg (api_Name api) [] (api_Meta api) of
        Some e \<Rightarrow> (Inl e, reg)
      | None \<Rightarrow> (Inr (map (\<lambda>m. (md_Name m, meta_type m (api_Name api))) (api_Meta api)),
                 reg @ map (\<lambda>m. (api_Name api @ ''.'' @ md_Name m, meta_type m (api_Name api))) (api_Meta api)))"
  by (auto simp: registerAPITypes_def register_metas_validated split: option.split)

section \<open>Properties\<close>

lemma Evaluate_Permit_cases:
  assumes "buckets_ok (ar_store r)"
    and "APIRuntime_Evaluate x r prn now s = ((Permit, e), evs, s')"
  shows "e = None \<and> prn \<noteq> None \<and>
    (\<exists>ms s1 p m earlier. matchActions x (ar_actions r) s = (Inr ms, s1) \<and> m \<in> set ms
       \<and> p \<in> set (st_permit (ar_store r)) \<and> cp_Result p = Permit
       \<and> AppliesToPrincipal x p prn now = Inr True
       \<and> AppliesTo x p (ma_name m) (ma_match m) prn now = Inr True
       \<and> evs = earlier @ [\<lparr>ce_action = ma_name m, ce_policy = p, ce_fired = True, ce_err = None\<rparr>]
       \<and> quiet earlier \<and> (\<forall>q \<in> set (st_deny (ar_store r)). passed_over x prn now ms earlier q))"
proof -
  have prn: "prn \<noteq> None" using assms(2) by (auto simp: APIRuntime_Evaluate_def split: if_splits)
  then obtain ms s1 where ms: "matchActions x (ar_actions r) s = (Inr ms, s1)"
    and ev: "eval_policies x prn now ms (store_all (ar_store r)) s1 = ((Permit, e), evs, s')"
    using assms(2) by (auto simp: APIRuntime_Evaluate_def split: prod.splits sum.splits if_splits)
  from eval_policies_Permit [OF ev] obtain pre p post m earlier where
    P: "e = None" "store_all (ar_store r) = pre @ p # post" "cp_Result p = Permit"
      "AppliesToPrincipal x p prn now = Inr True" "m \<in> set ms"
      "AppliesTo x p (ma_name m) (ma_match m) prn now = Inr True"
      "evs = earlier @ [\<lparr>ce_action = ma_name m, ce_policy = p, ce_fired = True, ce_err = None\<rparr>]"
      "quiet earlier" "\<forall>q \<in> set pre. passed_over x prn now ms earlier q" by blast
  have split: "st_deny (ar_store r) @ st_permit (ar_store r) = pre @ p # post"
    using P(2) by (simp add: store_all_def)
  have "p \<notin> set (st_deny (ar_store r))" using assms(1) P(3) by (auto simp: buckets_ok_def)
  with split obtain us where us: "pre = st_deny (ar_store r) @ us" "st_permit (ar_store r) = us @ p # post"
    by (auto simp: append_eq_append_conv2 append_eq_Cons_conv)
  with P prn ms show ?thesis by (intro conjI exI [of _ ms] exI [of _ s1] exI [of _ p] exI [of _ m]) auto
qed

text \<open>
  C2: A request is permitted only by a permit policy that accepted the principal and a matched action
  and whose condition fired, after every deny policy of the API was passed over: each rejected the
  caller or the action, or its condition was evaluated, without error, and did not fire.  The
  observed condition evaluations end with that permit.
\<close>

theorem Evaluate_Permit_sound:
  assumes "buckets_ok (ar_store r)"
    and "APIRuntime_Evaluate x r prn now s = ((Permit, e), evs, s')"
  shows "e = None \<and> prn \<noteq> None \<and>
    (\<exists>ms s1 p m earlier. matchActions x (ar_actions r) s = (Inr ms, s1) \<and> m \<in> set ms
       \<and> p \<in> set (st_permit (ar_store r)) \<and> cp_Result p = Permit
       \<and> AppliesToPrincipal x p prn now = Inr True
       \<and> AppliesTo x p (ma_name m) (ma_match m) prn now = Inr True
       \<and> evs = earlier @ [\<lparr>ce_action = ma_name m, ce_policy = p, ce_fired = True, ce_err = None\<rparr>]
       \<and> quiet earlier \<and> (\<forall>q \<in> set (st_deny (ar_store r)). passed_over x prn now ms earlier q))"
  by (rule Evaluate_Permit_cases [OF assms])

theorem Evaluate_Permit_sound_witness:
  "\<exists>evs s'. APIRuntime_Evaluate ex_ctx ex_api (Some ex_prn) 0 ex_state = ((Permit, None), evs, s')
     \<and> (\<exists>p \<in> set (st_permit (ar_store ex_api)). \<exists>ev \<in> set evs. ce_policy ev = p \<and> ce_fired ev)"
proof -
  let ?R = "APIRuntime_Evaluate ex_ctx ex_api (Some ex_prn) 0 ex_state"
  have b: "buckets_ok (ar_store ex_api)" by code_simp
  have "fst ?R = (Permit, None)" by code_simp
  then have R: "?R = ((Permit, None), fst (snd ?R), snd (snd ?R))" by (metis prod.collapse)
  from Evaluate_Permit_sound [OF b R] R show ?thesis by fastforce
qed

text \<open>
  C3: Evaluation fails closed.  Whatever goes wrong (no principal, a filter, bind, predicate or condition
  that errors, an upstream lookup that fails inside a condition), the decision next to the error is
  deny; and a request that matches no action is denied without evaluating any condition.
\<close>

theorem Evaluate_fails_closed:
  "(snd (fst (APIRuntime_Evaluate x r prn now s)) \<noteq> None \<longrightarrow>
      fst (fst (APIRuntime_Evaluate x r prn now s)) = Deny)
   \<and> (fst (matchActions x (ar_actions r) s) = Inr [] \<longrightarrow>
      fst (fst (APIRuntime_Evaluate x r prn now s)) = Deny \<and> fst (snd (APIRuntime_Evaluate x r prn now s)) = [])"
proof -
  have "snd (fst (eval_policies x prn now ms ps s1)) \<noteq> None \<Longrightarrow> fst (fst (eval_policies x prn now ms ps s1)) = Deny"
    for ms ps s1 using eval_policies_error [of x prn now ms ps s1] by (metis option.exhaust prod.collapse)
  then show ?thesis
    by (auto simp: APIRuntime_Evaluate_def split: prod.split sum.split)
qed

theorem Evaluate_fails_closed_witness:
  "APIRuntime_Evaluate ex_ctx ex_api None 0 ex_state =
     ((Deny, Some (EMsg ''principal is required'')), [], ex_state)
   \<and> fst (fst (APIRuntime_Evaluate (ex_ctx\<lparr>x_call := \<lambda>_ _ _. Inl (EUpstream 500)\<rparr>) ex_api (Some ex_prn) 0 ex_state)) = Deny
   \<and> fst (fst (APIRuntime_Evaluate ex_ctx (ex_api\<lparr>ar_actions := []\<rparr>) (Some ex_prn) 0 ex_state)) = Deny"
proof -
  let ?x = "ex_ctx\<lparr>x_call := \<lambda>_ _ _. Inl (EUpstream 500)\<rparr>"
  have "snd (fst (APIRuntime_Evaluate ?x ex_api (Some ex_prn) 0 ex_state)) \<noteq> None" by code_simp
  moreover have "fst (matchActions ex_ctx (ar_actions (ex_api\<lparr>ar_actions := []\<rparr>)) ex_state) = Inr []" by simp
  ultimately show ?thesis
    using Evaluate_fails_closed [of ?x ex_api "Some ex_prn" 0 ex_state]
      Evaluate_fails_closed [of ex_ctx "ex_api\<lparr>ar_actions := []\<rparr>" "Some ex_prn" 0 ex_state]
    by (simp add: APIRuntime_Evaluate_def)
qed

text \<open>
  C19: Within one evaluation no value is fetched twice and no upstream client is built twice, however many
  policies and conditions read it; the calls made before stay in the log.
\<close>

theorem Evaluate_fetches_once:
  assumes "fetch_inv s"
  shows "let s' = snd (snd (APIRuntime_Evaluate x r prn now s))
         in distinct (map cr_addr (es_calls s')) \<and> distinct (es_built s')
            \<and> (\<exists>new. es_calls s' = es_calls s @ new \<and> (\<forall>c \<in> set new. \<not> done_at s (cr_addr c)))"
  using eval_step_Evaluate [of s x r prn now] assms
  by (auto simp: eval_step_def fetch_inv_def grows_def Let_def)

theorem Evaluate_fetches_once_witness:
  "length (es_calls (snd (snd (APIRuntime_Evaluate ex_ctx ex_api (Some ex_prn) 0 ex_state)))) = 1
   \<and> distinct (es_built (snd (snd (APIRuntime_Evaluate ex_ctx ex_api (Some ex_prn) 0 ex_state))))"
proof -
  have "length (es_calls (snd (snd (APIRuntime_Evaluate ex_ctx ex_api (Some ex_prn) 0 ex_state)))) = 1"
    by code_simp
  with Evaluate_fetches_once [OF fetch_inv_initial, of ex_ctx ex_api "Some ex_prn" 0] show ?thesis
    by (simp add: Let_def)
qed

text \<open>
  Writing policies by name keeps the store's invariant (deny policies in the deny bucket, no name
  twice) and acts on it as a map update; the boolean tells whether the name was taken, and an edit that
  keeps the result keeps the evaluation order of the names.
\<close>

theorem store_replace_correct:
  assumes "store_inv s"
  shows "store_inv (snd (store_replace p s))
    \<and> store_lookup (snd (store_replace p s)) = (store_lookup s)(cp_Name p \<mapsto> p)
    \<and> fst (store_replace p s) = (store_lookup s (cp_Name p) \<noteq> None)
    \<and> (\<forall>q. store_lookup s (cp_Name p) = Some q \<longrightarrow> (cp_Result q = Deny) = (cp_Result p = Deny) \<longrightarrow>
         map cp_Name (store_all (snd (store_replace p s))) = map cp_Name (store_all s))"
proof (intro conjI allI impI)
  show "store_inv (snd (store_replace p s))" using assms by (rule store_inv_replace)
  show "store_lookup (snd (store_replace p s)) = (store_lookup s)(cp_Name p \<mapsto> p)"
    using assms by (rule pstore.lookup_put_map)
  show "fst (store_replace p s) = (store_lookup s (cp_Name p) \<noteq> None)" by (rule store_replace_found)
  fix q assume q: "store_lookup s (cp_Name p) = Some q" "(cp_Result q = Deny) = (cp_Result p = Deny)"
  have mem: "q \<in> set (store_all s)" "cp_Name q = cp_Name p"
    using find_by_Some [of cp_Name "cp_Name p" "store_all s" q] q(1) by (simp_all add: store_lookup_def)
  then have *: "q \<in> set (if cp_Result p = Deny then st_deny s else st_permit s)"
    using assms q(2) by (auto simp: store_all_def store_inv_def buckets_ok_def)
  then have "cp_Name q \<in> cp_Name ` set (if cp_Result p = Deny then st_deny s else st_permit s)" by (rule imageI)
  moreover have "cp_Name ` set (st_deny s) \<inter> cp_Name ` set (st_permit s) = {}"
    using assms by (simp add: store_inv_split)
  ultimately have "cp_Name p \<in> cp_Name ` set (if cp_Result p = Deny then st_deny s else st_permit s)"
    "cp_Name p \<notin> cp_Name ` set (if cp_Result p = Deny then st_permit s else st_deny s)"
    unfolding mem(2) by (auto split: if_splits)
  then show "map cp_Name (store_all (snd (store_replace p s))) = map cp_Name (store_all s)"
    by (auto simp: store_replace_spec [OF assms] store_all_def remove_by_id upsert_by_order split: if_splits)
qed

theorem store_replace_correct_witness:
  "map cp_Name (store_all (snd (store_replace (ex_policy ''alice'' Permit ''carol'') (ar_store ex_api))))
     = [''no-bob'', ''alice'']
   \<and> store_lookup (snd (store_replace (ex_policy ''alice'' Permit ''carol'') (ar_store ex_api))) ''alice''
     = Some (ex_policy ''alice'' Permit ''carol'')"
proof -
  have i: "store_inv (ar_store ex_api)" by code_simp
  have l: "store_lookup (ar_store ex_api) ''alice'' = Some (ex_policy ''alice'' Permit ''alice'')"
    by (simp add: store_lookup_def store_all_def ex_api_def ex_policy_def)
  have n: "map cp_Name (store_all (ar_store ex_api)) = [''no-bob'', ''alice'']" by code_simp
  from store_replace_correct [OF i, of "ex_policy ''alice'' Permit ''carol''"] l n show ?thesis
    by (simp add: ex_policy_def)
qed

text \<open>
  Appending policies behind a decision changes nothing: once a policy of the list fired or an error
  stopped the loop, policies added after it are not evaluated; otherwise they are tried from the state
  reached so far.
\<close>

theorem later_policies_irrelevant:
  "fst (eval_policies x prn now ms (ps @ qs) s) =
     (if decided (fst (eval_policies x prn now ms ps s)) (fst (snd (eval_policies x prn now ms ps s)))
      then fst (eval_policies x prn now ms ps s)
      else fst (eval_policies x prn now ms qs (snd (snd (eval_policies x prn now ms ps s)))))"
  by (simp add: eval_policies_append split: prod.split)

text \<open>
  Registering an API's types is atomic: either it fails and the shared registry is untouched, or
  every meta of the API is registered under its qualified name, next to all types registered before.
\<close>

theorem registerAPITypes_atomic:
  "(\<exists>e. registerAPITypes api reg = (Inl e, reg))
   \<or> (\<exists>ts new. registerAPITypes api reg = (Inr ts, reg @ new)
        \<and> map fst ts = map md_Name (api_Meta api)
        \<and> map fst new = map (\<lambda>m. api_Name api @ ''.'' @ md_Name m) (api_Meta api)
        \<and> map snd new = map snd ts)"
  by (cases "validate_metas reg (api_Name api) [] (api_Meta api)") (auto simp: registerAPITypes_cases)

end
