(* ===== verification/Runtime.thy ===== *)
theory Runtime
  imports ApiRuntime "HOL-Library.Sublist"
begin

text \<open>
  The runtime over all APIs, from \<^verbatim>\<open>internal/runtime/runtime.go\<close>: the builder that registers and compiles
  API specs, the routing table, evaluation of a request, and the policy operations of the control
  plane.  A Go map from names is an association list with distinct keys.  The clients built by the
  physical-API resolver, their calls and CEL's own object construction are the fields of \<open>world\<close>.
\<close>

section \<open>Definitions\<close>

subsection \<open>Builder\<close>

record pendingAPI =
  pa_spec :: API
  pa_types :: "(string \<times> mtype) list"

record Builder =
  b_registry :: registry
  b_pending :: "(string \<times> pendingAPI) list"
  b_built :: bool

definition NewBuilder :: Builder where
  "NewBuilder = \<lparr>b_registry = NewRegistry, b_pending = [], b_built = False\<rparr>"

definition reservedTopLevelCEL :: "string list" where
  "reservedTopLevelCEL =
     [''principal'', ''request'', ''action'', ''match'', ''input'', ''response'', ''now'']"

definition AddAPI :: "API \<Rightarrow> Builder \<Rightarrow> err option \<times> Builder" where
  "AddAPI api b =
     (if b_built b then (Some (EMsg ''builder already consumed by Build''), b)
      else if api_Name api \<in> fst ` set (b_pending b) then (Some (EMsg ''api already registered''), b)
      else if api_Name api \<in> set reservedTopLevelCEL
        then (Some (EMsg ''name collides with a reserved top-level CEL variable''), b)
      else if \<exists>m \<in> set (api_Meta api). md_Name m \<in> set reservedTopLevelCEL
        then (Some (EMsg ''meta name collides with a reserved top-level CEL variable''), b)
      else (case registerAPITypes api (b_registry b) of
              (Inl e, reg) \<Rightarrow> (Some e, b\<lparr>b_registry := reg\<rparr>)
            | (Inr types, reg) \<Rightarrow>
                (None, b\<lparr>b_registry := reg,
                         b_pending := b_pending b @ [(api_Name api, \<lparr>pa_spec = api, pa_types = types\<rparr>)]\<rparr>)))"

definition sortedPending :: "Builder \<Rightarrow> pendingAPI list" where
  "sortedPending b = sort_key (\<lambda>p. api_Name (pa_spec p)) (map snd (b_pending b))"

subsection \<open>Routing\<close>

record prefixRoute =
  r_segments :: "string list"
  r_apiName :: string
  r_source :: string

definition hasSegmentPrefix :: "string list \<Rightarrow> string list \<Rightarrow> bool" where
  "hasSegmentPrefix path pre =
     (if length pre = 0 \<or> length path < length pre then False
      else list_all (\<lambda>i. path ! i = pre ! i) [0..<length pre])"

fun routeRequest_loop :: "prefixRoute list \<Rightarrow> string list \<Rightarrow> string" where
  "routeRequest_loop [] segs = []"
| "routeRequest_loop (r # rs) segs =
     (if hasSegmentPrefix segs (r_segments r) then r_apiName r else routeRequest_loop rs segs)"

definition check_prefix :: "string \<Rightarrow> string \<Rightarrow> err + prefixRoute" where
  "check_prefix name raw =
     (if raw = [] \<or> \<not> HasPrefix raw ''/'' then Inl (EMsg ''path_prefix must start with /'')
      else if HasSuffix raw ''/'' then Inl (EMsg ''path_prefix must not end with /'')
      else (let segs = SplitPath raw
            in if length segs = 0 then Inl (EMsg ''path_prefix has no segments'')
               else Inr \<lparr>r_segments = segs, r_apiName = name, r_source = raw\<rparr>))"

fun collect_routes :: "pendingAPI list \<Rightarrow> err + prefixRoute list" where
  "collect_routes [] = Inr []"
| "collect_routes (p # ps) =
     (case map_result (check_prefix (api_Name (pa_spec p))) (api_PathPrefixes (pa_spec p)) of
        Inl e \<Rightarrow> Inl e
      | Inr rs \<Rightarrow> (case collect_routes ps of Inl e \<Rightarrow> Inl e | Inr rest \<Rightarrow> Inr (rs @ rest)))"

definition prefix_conflict :: "prefixRoute list \<Rightarrow> bool" where
  "prefix_conflict routes =
     list_ex (\<lambda>i. list_ex (\<lambda>j. i \<noteq> j \<and> hasSegmentPrefix (r_segments (routes ! j)) (r_segments (routes ! i)))
                [0..<length routes]) [0..<length routes]"

definition buildPrefixRoutes :: "pendingAPI list \<Rightarrow> err + prefixRoute list" where
  "buildPrefixRoutes pending =
     (case collect_routes pending of
        Inl e \<Rightarrow> Inl e
      | Inr routes \<Rightarrow>
          (if prefix_conflict routes then Inl (EMsg ''path_prefix conflict'') else Inr routes))"

subsection \<open>The runtime\<close>

record 'u Runtime =
  rt_registry :: registry
  rt_apis :: "(string \<times> 'u APIRuntime) list"
  rt_specs :: "(string \<times> API) list"
  rt_metas :: "string \<rightharpoonup> Meta"
  rt_routes :: "prefixRoute list"

fun compile_all_metas :: "compiler \<Rightarrow> registry \<Rightarrow> pendingAPI list \<Rightarrow> (string \<rightharpoonup> Meta) \<Rightarrow> err + (string \<rightharpoonup> Meta)" where
  "compile_all_metas compile reg [] metas = Inr metas"
| "compile_all_metas compile reg (p # ps) metas =
     (case compileAPIMetas compile (pa_spec p) reg (pa_types p) of
        Inl e \<Rightarrow> Inl e
      | Inr ms \<Rightarrow> compile_all_metas compile reg ps (fold (\<lambda>(n, m) mm. mm(n \<mapsto> m)) ms metas))"

definition compile_api ::
  "compiler \<Rightarrow> (string \<Rightarrow> err + 'u) \<Rightarrow> registry \<Rightarrow> (string \<rightharpoonup> Meta) \<Rightarrow> pendingAPI \<Rightarrow> err + (string \<times> 'u APIRuntime)" where
  "compile_api compile parse_url reg metas p =
     (case compileAPIActions compile parse_url (pa_spec p) reg metas of
        Inl e \<Rightarrow> Inl e
      | Inr rt \<Rightarrow> Inr (api_Name (pa_spec p), rt))"

definition Build ::
  "compiler \<Rightarrow> (string \<Rightarrow> err + 'u) \<Rightarrow> Builder \<Rightarrow> (err + 'u Runtime) \<times> Builder" where
  "Build compile parse_url b =
     (if b_built b then (Inl (EMsg ''Builder.Build: already consumed''), b)
      else
        (let b1 = b\<lparr>b_built := True\<rparr>; pending = sortedPending b
         in (case compile_all_metas compile (b_registry b) pending Map.empty of
               Inl e \<Rightarrow> Inl e
             | Inr metas \<Rightarrow>
                 (case map_result (compile_api compile parse_url (b_registry b) metas) pending of
                    Inl e \<Rightarrow> Inl e
                  | Inr apis \<Rightarrow>
                      (case buildPrefixRoutes pending of
                         Inl e \<Rightarrow> Inl e
                       | Inr routes \<Rightarrow>
                           Inr \<lparr>rt_registry = b_registry b, rt_apis = apis,
                                rt_specs = map (\<lambda>p. (api_Name (pa_spec p), pa_spec p)) pending,
                                rt_metas = metas, rt_routes = routes\<rparr>)), b1)))"

definition routeRequest :: "'u Runtime \<Rightarrow> Request \<Rightarrow> string" where
  "routeRequest r req = routeRequest_loop (rt_routes r) (req_path_segments req)"

definition segments_request :: "string list \<Rightarrow> Request" where
  "segments_request segs =
     \<lparr>req_method = [], req_path = [], req_path_segments = segs, req_query = [], req_body = None\<rparr>"

definition APIForPath :: "'u Runtime \<Rightarrow> string \<Rightarrow> string" where
  "APIForPath r path = routeRequest r (segments_request (SplitPath path))"

definition APIForSegments :: "'u Runtime \<Rightarrow> string list \<Rightarrow> string" where
  "APIForSegments r segs = routeRequest r (segments_request segs)"

definition API_get :: "'u Runtime \<Rightarrow> string \<Rightarrow> 'u APIRuntime option" where
  "API_get r name = map_of (rt_apis r) name"

definition APISpecs :: "'u Runtime \<Rightarrow> API list" where
  "APISpecs r = map (\<lambda>n. the (map_of (rt_specs r) n)) (sort (map fst (rt_specs r)))"

definition APINames :: "'u Runtime \<Rightarrow> string list" where
  "APINames r = map fst (rt_apis r)"

text \<open>The world an evaluation talks to, and the evaluation context of one API and one request.\<close>

record world =
  w_resolve :: "string list \<Rightarrow> string \<Rightarrow> err option"
  w_call :: "callrec list \<Rightarrow> string \<Rightarrow> MetaRequest \<Rightarrow> err + Response option"
  w_base_new :: "string \<Rightarrow> (string \<times> cval) list \<Rightarrow> cval"
  w_depth :: nat

definition api_ctx :: "world \<Rightarrow> 'u APIRuntime \<Rightarrow> Request \<Rightarrow> evalctx" where
  "api_ctx w a req =
     \<lparr>x_reg = ar_registry a, x_metas = ar_metas a, x_resolve = w_resolve w, x_call = w_call w,
      x_base_new = w_base_new w, x_req = req, x_depth = w_depth w\<rparr>"

definition fresh_state :: estate where
  "fresh_state = \<lparr>h_vals = [], es_calls = [], es_memo = [], es_built = []\<rparr>"

text \<open>The API name, the decision with its error, the observed condition evaluations, the final state.\<close>

definition Runtime_Evaluate ::
  "world \<Rightarrow> 'u Runtime \<Rightarrow> Request \<Rightarrow> Principal option \<Rightarrow> int
     \<Rightarrow> string \<times> (PolicyResult \<times> err option) \<times> condEval list \<times> estate" where
  "Runtime_Evaluate w r req prn now =
     (if prn = None then ([], (Deny, Some (EMsg ''principal is required'')), [], fresh_state)
      else (let apiName = routeRequest r req
            in if apiName = [] then ([], (Deny, None), [], fresh_state)
               else (case API_get r apiName of
                       None \<Rightarrow> ([], (Deny, Some (EMsg ''panic: nil APIRuntime'')), [], fresh_state)
                     | Some a \<Rightarrow> (apiName, APIRuntime_Evaluate (api_ctx w a req) a prn now fresh_state))))"

definition Runtime_MatchedActions :: "world \<Rightarrow> 'u Runtime \<Rightarrow> Request \<Rightarrow> string \<times> (err + string list)" where
  "Runtime_MatchedActions w r req =
     (let apiName = routeRequest r req
      in if apiName = [] then ([], Inr [])
         else (case API_get r apiName of
                 None \<Rightarrow> ([], Inl (EMsg ''panic: nil APIRuntime''))
               | Some a \<Rightarrow> (apiName, APIRuntime_MatchedActions (api_ctx w a req) a fresh_state)))"

subsection \<open>Policy operations\<close>

definition set_api :: "string \<Rightarrow> 'u APIRuntime \<Rightarrow> 'u Runtime \<Rightarrow> 'u Runtime" where
  "set_api name a r = r\<lparr>rt_apis := upsert_by fst (name, a) (rt_apis r)\<rparr>"

definition AddPolicy :: "compiler \<Rightarrow> Policy \<Rightarrow> 'u Runtime \<Rightarrow> err + 'u Runtime" where
  "AddPolicy compile p r =
     (case API_get r (pol_API p) of
        None \<Rightarrow> Inl (EMsg ''policy targets an api which is not registered'')
      | Some a \<Rightarrow>
          (case APIRuntime_Add compile p a of
             Inl e \<Rightarrow> Inl e
           | Inr a' \<Rightarrow> Inr (set_api (pol_API p) a' r)))"

definition ReplacePolicy :: "compiler \<Rightarrow> Policy \<Rightarrow> 'u Runtime \<Rightarrow> err + (bool \<times> 'u Runtime)" where
  "ReplacePolicy compile p r =
     (case API_get r (pol_API p) of
        None \<Rightarrow> Inl (EMsg ''policy targets an api which is not registered'')
      | Some a \<Rightarrow>
          (case APIRuntime_Replace compile p a of
             Inl e \<Rightarrow> Inl e
           | Inr (existed, a') \<Rightarrow> Inr (existed, set_api (pol_API p) a' r)))"

definition RemovePolicy :: "string \<Rightarrow> string \<Rightarrow> 'u Runtime \<Rightarrow> err + (bool \<times> 'u Runtime)" where
  "RemovePolicy api name r =
     (case API_get r api of
        None \<Rightarrow> Inl (EMsg ''api is not registered'')
      | Some a \<Rightarrow> (let (ok, a') = APIRuntime_Remove name a in Inr (ok, set_api api a' r)))"

definition ListPolicies :: "'u Runtime \<Rightarrow> Policy list" where
  "ListPolicies r =
     concat (map (\<lambda>n. case map_of (rt_apis r) n of Some a \<Rightarrow> APIRuntime_List a | None \<Rightarrow> [])
               (sort (map fst (rt_apis r))))"

definition ValidatePolicy :: "compiler \<Rightarrow> Policy \<Rightarrow> 'u Runtime \<Rightarrow> err option" where
  "ValidatePolicy compile p r =
     (case API_get r (pol_API p) of
        None \<Rightarrow> Some (EMsg ''policy targets an api which is not registered'')
      | Some a \<Rightarrow> (case APIRuntime_compile compile a p of Inl e \<Rightarrow> Some e | Inr _ \<Rightarrow> None))"

subsection \<open>Specification\<close>

text \<open>
  The invariant of the policy set: API runtimes sit under their own name, every store keeps its
  invariant, and each compiled policy carries the source it was compiled from.
\<close>

definition sourced :: "string \<Rightarrow> CPolicy \<Rightarrow> bool" where
  "sourced api p \<longleftrightarrow> pol_API (cp_source p) = api \<and> pol_Name (cp_source p) = cp_Name p \<and> pol_Result (cp_source p) = cp_Result p"

definition api_inv :: "string \<Rightarrow> 'u APIRuntime \<Rightarrow> bool" where
  "api_inv n a \<longleftrightarrow> ar_name a = n \<and> store_inv (ar_store a) \<and> (\<forall>p \<in> set (store_all (ar_store a)). sourced n p)"

definition rt_inv :: "'u Runtime \<Rightarrow> bool" where
  "rt_inv r \<longleftrightarrow> distinct (map fst (rt_apis r)) \<and> (\<forall>(n, a) \<in> set (rt_apis r). api_inv n a)"

text \<open>All that evaluation needs of it: deny policies are in the deny lists.\<close>

definition rt_buckets :: "'u Runtime \<Rightarrow> bool" where
  "rt_buckets r \<longleftrightarrow> (\<forall>(n, a) \<in> set (rt_apis r). buckets_ok (ar_store a))"

definition pol_key :: "Policy \<Rightarrow> string \<times> string" where
  "pol_key p = (pol_API p, pol_Name p)"

definition rt_lookup :: "'u Runtime \<Rightarrow> string \<times> string \<Rightarrow> Policy option" where
  "rt_lookup r k = find_by pol_key k (ListPolicies r)"

definition rt_accepts :: "compiler \<Rightarrow> 'u Runtime \<Rightarrow> Policy \<Rightarrow> bool" where
  "rt_accepts compile r p \<longleftrightarrow> ValidatePolicy compile p r = None"

definition rt_put :: "compiler \<Rightarrow> Policy \<Rightarrow> 'u Runtime \<Rightarrow> 'u Runtime" where
  "rt_put compile p r = (case ReplacePolicy compile p r of Inl _ \<Rightarrow> r | Inr (_, r') \<Rightarrow> r')"

text \<open>The builders a program can hold, and what they keep.\<close>

inductive builder_reach :: "Builder \<Rightarrow> bool" where
  new: "builder_reach NewBuilder"
| add: "builder_reach b \<Longrightarrow> builder_reach (snd (AddAPI api b))"
| build: "builder_reach b \<Longrightarrow> builder_reach (snd (Build compile (parse_url :: string \<Rightarrow> err + unit) b))"

definition pending_ok :: "registry \<Rightarrow> string \<Rightarrow> pendingAPI \<Rightarrow> bool" where
  "pending_ok reg n p \<longleftrightarrow>
     api_Name (pa_spec p) = n \<and> n \<notin> set reservedTopLevelCEL
     \<and> pa_types p = map (\<lambda>m. (md_Name m, meta_type m n)) (api_Meta (pa_spec p))
     \<and> (\<forall>m \<in> set (api_Meta (pa_spec p)). md_Name m \<notin> set reservedTopLevelCEL
          \<and> Registry_Get reg (n @ ''.'' @ md_Name m) = Some (meta_type m n))"

definition builder_inv :: "Builder \<Rightarrow> bool" where
  "builder_inv b \<longleftrightarrow> distinct (map fst (b_pending b)) \<and> (\<forall>(n, p) \<in> set (b_pending b). pending_ok (b_registry b) n p)"

text \<open>A runtime as \<open>Build\<close> leaves it: no two prefixes overlap and every route leads to a runtime.\<close>

definition routes_ok :: "'u Runtime \<Rightarrow> bool" where
  "routes_ok r \<longleftrightarrow> \<not> prefix_conflict (rt_routes r) \<and> (\<forall>rt \<in> set (rt_routes r). API_get r (r_apiName rt) \<noteq> None)"

text \<open>
  A permit policy of the API accepted the principal and a matched action and fired, and no deny policy
  stood in the way.
\<close>

definition permitted_by_policy :: "evalctx \<Rightarrow> 'u APIRuntime \<Rightarrow> Principal \<Rightarrow> int \<Rightarrow> bool" where
  "permitted_by_policy x a prn now \<longleftrightarrow>
     (\<exists>ms st p m earlier. matchActions x (ar_actions a) fresh_state = (Inr ms, st) \<and> m \<in> set ms
        \<and> p \<in> set (st_permit (ar_store a)) \<and> cp_Result p = Permit
        \<and> AppliesToPrincipal x p (Some prn) now = Inr True
        \<and> AppliesTo x p (ma_name m) (ma_match m) (Some prn) now = Inr True
        \<and> quiet earlier \<and> (\<forall>q \<in> set (st_deny (ar_store a)). passed_over x (Some prn) now ms earlier q))"

subsection \<open>Concrete instances\<close>

definition ex_runtime :: "unit Runtime" where
  "ex_runtime = \<lparr>rt_registry = [(''d.file'', ex_file)], rt_apis = [(''d'', ex_api)], rt_specs = [], rt_metas = Map.empty,
     rt_routes = [\<lparr>r_segments = [''d''], r_apiName = ''d'', r_source = ''/d''\<rparr>,
                  \<lparr>r_segments = [''e'', ''x''], r_apiName = ''e'', r_source = ''/e/x''\<rparr>]\<rparr>"

definition ex_world :: world where
  "ex_world = \<lparr>w_resolve = (\<lambda>_ _. None), w_call = (\<lambda>_ _ _. Inr (Some \<lparr>resp_body = None\<rparr>)),
     w_base_new = (\<lambda>_ _. CNull), w_depth = 2\<rparr>"

definition ex_compiler :: compiler where
  "ex_compiler env src = Inr \<lparr>ast_type = TBool, ast_program = Inr (\<lambda>_. Ret (CBool True))\<rparr>"

definition ex_spec :: "string \<Rightarrow> string \<Rightarrow> API" where
  "ex_spec name pfx =
     \<lparr>api_Name = name, api_BaseURL = ''https://'' @ name, api_PathPrefixes = [pfx], api_Meta = [], api_Actions = [],
      api_AccessDeniedStatus = 0, api_Auth = []\<rparr>"

section \<open>Routing\<close>

lemma hasSegmentPrefix_iff: "hasSegmentPrefix path pre \<longleftrightarrow> pre \<noteq> [] \<and> prefix pre path"
proof -
  have "(\<forall>i < length pre. path ! i = pre ! i) \<longleftrightarrow> prefix pre path" if "length pre \<le> length path"
  proof -
    have "(\<forall>i < length pre. path ! i = pre ! i) \<longleftrightarrow> take (length pre) path = pre"
      using that by (auto simp: list_eq_iff_nth_eq)
    then show ?thesis by (metis append_eq_conv_conj prefix_def take_is_prefix)
  qed
  then show ?thesis by (auto simp: hasSegmentPrefix_def list_all_iff dest: prefix_length_le)
qed

lemma prefix_conflict_iff:
  "prefix_conflict routes \<longleftrightarrow>
     (\<exists>i < length routes. \<exists>j < length routes. i \<noteq> j \<and> hasSegmentPrefix (r_segments (routes ! j)) (r_segments (routes ! i)))"
  by (auto simp: prefix_conflict_def list_ex_iff Bex_def)

lemma no_conflict_unique:
  assumes "\<not> prefix_conflict routes" "i < length routes" "j < length routes"
    "hasSegmentPrefix segs (r_segments (routes ! i))" "hasSegmentPrefix segs (r_segments (routes ! j))"
  shows "i = j"
proof (rule ccontr)
  assume "i \<noteq> j"
  from assms(4,5) have "prefix (r_segments (routes ! i)) (r_segments (routes ! j))
      \<or> prefix (r_segments (routes ! j)) (r_segments (routes ! i))"
    unfolding hasSegmentPrefix_iff by (meson prefix_same_cases)
  with assms \<open>i \<noteq> j\<close> show False
    unfolding prefix_conflict_iff hasSegmentPrefix_iff by blast
qed

lemma routeRequest_loop_Nil_or_mem:
  "routeRequest_loop rs segs = [] \<or>
     (\<exists>r \<in> set rs. hasSegmentPrefix segs (r_segments r) \<and> routeRequest_loop rs segs = r_apiName r)"
  by (induction rs) auto

lemma routeRequest_loop_unique:
  assumes "\<not> prefix_conflict rs" "r \<in> set rs" "hasSegmentPrefix segs (r_segments r)"
  shows "routeRequest_loop rs segs = r_apiName r"
proof -
  obtain i where i: "i < length rs" "rs ! i = r" using assms(2) by (auto simp: in_set_conv_nth)
  have "\<exists>r' \<in> set rs. hasSegmentPrefix segs (r_segments r') \<and> routeRequest_loop rs segs = r_apiName r'"
    using assms(2,3) by (induction rs) auto
  then obtain j where j: "j < length rs" "hasSegmentPrefix segs (r_segments (rs ! j))"
    "routeRequest_loop rs segs = r_apiName (rs ! j)" by (auto simp: in_set_conv_nth)
  with no_conflict_unique [OF assms(1) i(1) j(1)] i assms(3) show ?thesis by auto
qed

lemma collect_routes_names:
  "collect_routes ps = Inr rs \<Longrightarrow> r \<in> set rs \<Longrightarrow>
     \<exists>p \<in> set ps. r_apiName r = api_Name (pa_spec p) \<and> r_source r \<in> set (api_PathPrefixes (pa_spec p))
       \<and> r_segments r = SplitPath (r_source r) \<and> r_segments r \<noteq> []"
proof (induction ps arbitrary: rs)
  case (Cons p ps)
  then obtain rs1 rest where 1: "map_result (check_prefix (api_Name (pa_spec p))) (api_PathPrefixes (pa_spec p)) = Inr rs1"
    and 2: "collect_routes ps = Inr rest" "rs = rs1 @ rest" by (auto split: sum.splits)
  show ?case
  proof (cases "r \<in> set rs1")
    case True
    with 1 obtain raw where "raw \<in> set (api_PathPrefixes (pa_spec p))" "check_prefix (api_Name (pa_spec p)) raw = Inr r"
      using map_result_mem by metis
    then show ?thesis by (auto simp: check_prefix_def Let_def split: if_splits)
  qed (use Cons 2 in auto)
qed simp

section \<open>The policy set\<close>

lemma API_get_set_api [simp]: "API_get (set_api n a r) m = (if m = n then Some a else API_get r m)"
  by (simp add: API_get_def set_api_def map_of_upsert_by)

lemma rt_inv_API_get: "rt_inv r \<Longrightarrow> API_get r n = Some a \<Longrightarrow> api_inv n a"
  by (auto simp: rt_inv_def API_get_def dest: map_of_SomeD)

lemma rt_inv_set_api: "rt_inv r \<Longrightarrow> api_inv n a \<Longrightarrow> rt_inv (set_api n a r)"
  using set_upsert_by_subset [of fst "(n, a)" "rt_apis r"]
  by (auto simp: rt_inv_def set_api_def distinct_upsert_by)

lemma APIRuntime_List_all: "APIRuntime_List a = map cp_source (store_all (ar_store a))"
  by (simp add: APIRuntime_List_def store_list_def store_all_def)

lemma rt_lookup_eq:
  assumes "rt_inv r"
  shows "rt_lookup r (api, n) =
    (case API_get r api of None \<Rightarrow> None | Some a \<Rightarrow> map_option cp_source (store_lookup (ar_store a) n))"
proof -
  let ?g = "\<lambda>n. case map_of (rt_apis r) n of Some a \<Rightarrow> APIRuntime_List a | None \<Rightarrow> []"
  have src: "map_of (rt_apis r) m = Some a \<Longrightarrow> p \<in> set (store_all (ar_store a)) \<Longrightarrow> sourced m p" for m a p
    using rt_inv_API_get [OF assms, of m a] by (simp add: API_get_def api_inv_def)
  have "rt_lookup r (api, n) = (if api \<in> set (sort (map fst (rt_apis r)))
      then find_by (\<lambda>p. (pol_API p, pol_Name p)) (api, n) (?g api) else None)"
    unfolding rt_lookup_def ListPolicies_def pol_key_def [abs_def]
    by (rule find_by_concat) (auto simp: APIRuntime_List_all split: option.splits dest!: src [unfolded sourced_def, rotated])
  also have "\<dots> = find_by (\<lambda>p. (pol_API p, pol_Name p)) (api, n) (?g api)"
    by (auto split: option.split) (metis image_eqI map_of_SomeD fst_conv)
  also have "\<dots> = (case API_get r api of None \<Rightarrow> None | Some a \<Rightarrow> map_option cp_source (store_lookup (ar_store a) n))"
  proof (cases "map_of (rt_apis r) api")
    case (Some a)
    have "find_by ((\<lambda>p. (pol_API p, pol_Name p)) \<circ> cp_source) (api, n) (store_all (ar_store a))
        = find_by cp_Name n (store_all (ar_store a))"
      by (rule find_by_cong) (auto simp: sourced_def dest: src [OF Some])
    with Some show ?thesis by (simp add: API_get_def APIRuntime_List_all find_by_map store_lookup_def)
  qed (simp add: API_get_def)
  finally show ?thesis .
qed

lemma NewPolicy_fields:
  "NewPolicy compile p api reg = Inr cp \<Longrightarrow> cp_source cp = p \<and> cp_Name cp = pol_Name p \<and> cp_Result cp = pol_Result p
     \<and> PolicyResult_Validate (pol_Result p) = None"
  by (auto simp: NewPolicy_def split: option.splits sum.splits)

lemma APIRuntime_compile_fields:
  "APIRuntime_compile compile a p = Inr cp \<Longrightarrow> cp_source cp = p \<and> cp_Name cp = pol_Name p \<and> cp_Result cp = pol_Result p
     \<and> pol_API p = ar_name a"
  by (auto simp: APIRuntime_compile_def dest: NewPolicy_fields split: if_splits)

lemma APIRuntime_compile_store [simp]: "APIRuntime_compile compile (a\<lparr>ar_store := st\<rparr>) p = APIRuntime_compile compile a p"
  by (simp add: APIRuntime_compile_def)

lemma set_store_replace: "q \<in> set (store_all (snd (store_replace p s))) \<Longrightarrow> store_inv s \<Longrightarrow> q = p \<or> q \<in> set (store_all s)"
  using set_upsert_by_subset [of cp_Name p "st_deny s"] set_upsert_by_subset [of cp_Name p "st_permit s"]
    set_remove_by_subset [of cp_Name "cp_Name p" "st_deny s"] set_remove_by_subset [of cp_Name "cp_Name p" "st_permit s"]
  by (auto simp: store_replace_spec store_all_def split: if_splits)

lemma set_store_remove: "q \<in> set (store_all (snd (store_remove n s))) \<Longrightarrow> q \<in> set (store_all s)"
  using set_remove_by_subset [of cp_Name n "st_deny s"] set_remove_by_subset [of cp_Name n "st_permit s"]
  by (auto simp: store_remove_def removeLocked_spec store_all_def split: if_splits)

text \<open>What a successful replacement is: the compiled policy put into the store of its API.\<close>

lemma ReplacePolicy_cases:
  "ReplacePolicy compile p r =
     (case ValidatePolicy compile p r of
        Some e \<Rightarrow> Inl e
      | None \<Rightarrow>
          (let a = the (API_get r (pol_API p)); cp = projr (APIRuntime_compile compile a p)
           in Inr (fst (store_replace cp (ar_store a)),
                   set_api (pol_API p) (a\<lparr>ar_store := snd (store_replace cp (ar_store a))\<rparr>) r)))"
  by (auto simp: ReplacePolicy_def ValidatePolicy_def APIRuntime_Replace_def Let_def split_beta
      split: option.split sum.split)

lemma rt_accepts_iff:
  "rt_accepts compile r p \<longleftrightarrow> (\<exists>a cp. API_get r (pol_API p) = Some a \<and> APIRuntime_compile compile a p = Inr cp)"
  by (auto simp: rt_accepts_def ValidatePolicy_def split: option.splits sum.splits)

lemma rt_put_accepted:
  assumes "API_get r (pol_API p) = Some a" "APIRuntime_compile compile a p = Inr cp"
  shows "rt_put compile p r = set_api (pol_API p) (a\<lparr>ar_store := snd (store_replace cp (ar_store a))\<rparr>) r"
    "ReplacePolicy compile p r = Inr (fst (store_replace cp (ar_store a)), rt_put compile p r)"
  using assms by (simp_all add: rt_put_def ReplacePolicy_cases ValidatePolicy_def Let_def)

lemma rt_inv_put:
  assumes "rt_inv r" "rt_accepts compile r p"
  shows "rt_inv (rt_put compile p r)"
proof -
  from assms(2) obtain a cp where a: "API_get r (pol_API p) = Some a" "APIRuntime_compile compile a p = Inr cp"
    by (auto simp: rt_accepts_iff)
  have i: "api_inv (pol_API p) a" using assms(1) a(1) by (rule rt_inv_API_get)
  have "sourced (pol_API p) cp" using APIRuntime_compile_fields [OF a(2)] by (simp add: sourced_def)
  with i have "api_inv (pol_API p) (a\<lparr>ar_store := snd (store_replace cp (ar_store a))\<rparr>)"
    by (auto simp: api_inv_def store_inv_replace dest: set_store_replace)
  with assms(1) show ?thesis unfolding rt_put_accepted [OF a] by (rule rt_inv_set_api)
qed

lemma rt_accepts_put:
  assumes "rt_accepts compile r p"
  shows "rt_accepts compile (rt_put compile p r) q = rt_accepts compile r q"
proof -
  from assms obtain a cp where a: "API_get r (pol_API p) = Some a" "APIRuntime_compile compile a p = Inr cp"
    by (auto simp: rt_accepts_iff)
  then show ?thesis by (auto simp: rt_accepts_iff rt_put_accepted)
qed

lemma rt_lookup_put:
  assumes "rt_inv r" "rt_accepts compile r p"
  shows "rt_lookup (rt_put compile p r) k = (if k = pol_key p then Some p else rt_lookup r k)"
proof -
  from assms(2) obtain a cp where a: "API_get r (pol_API p) = Some a" "APIRuntime_compile compile a p = Inr cp"
    by (auto simp: rt_accepts_iff)
  have s: "store_inv (ar_store a)" using rt_inv_API_get [OF assms(1) a(1)] by (simp add: api_inv_def)
  obtain api n where k: "k = (api, n)" by (cases k)
  have "API_get (rt_put compile p r) api =
      (if api = pol_API p then Some (a\<lparr>ar_store := snd (store_replace cp (ar_store a))\<rparr>) else API_get r api)"
    by (simp add: rt_put_accepted [OF a])
  then show ?thesis
    unfolding k rt_lookup_eq [OF assms(1)] rt_lookup_eq [OF rt_inv_put [OF assms]]
    using a(1) APIRuntime_compile_fields [OF a(2)] store_lookup_replace [OF s, of cp n]
    by (auto simp: pol_key_def)
qed

interpretation rt_policies: checked_store rt_inv pol_key rt_lookup "rt_accepts compile" "rt_put compile"
  for compile
  by unfold_locales (simp_all add: rt_inv_put rt_accepts_put rt_lookup_put)

lemma RemovePolicy_correct:
  assumes "rt_inv r" "RemovePolicy api n r = Inr (ok, r')"
  shows "rt_inv r'" "rt_lookup r' = (rt_lookup r)((api, n) := None)" "ok \<longleftrightarrow> rt_lookup r (api, n) \<noteq> None"
proof -
  from assms(2) obtain a where a: "API_get r api = Some a" "ok = fst (store_remove n (ar_store a))"
    "r' = set_api api (a\<lparr>ar_store := snd (store_remove n (ar_store a))\<rparr>) r"
    by (auto simp: RemovePolicy_def APIRuntime_Remove_def split_beta Let_def split: option.splits)
  have i: "api_inv api a" using assms(1) a(1) by (rule rt_inv_API_get)
  then have "api_inv api (a\<lparr>ar_store := snd (store_remove n (ar_store a))\<rparr>)"
    by (auto simp: api_inv_def store_inv_remove dest: set_store_remove)
  then show r': "rt_inv r'" unfolding a(3) by (rule rt_inv_set_api [OF assms(1)])
  show "ok \<longleftrightarrow> rt_lookup r (api, n) \<noteq> None"
    by (simp add: rt_lookup_eq [OF assms(1)] a(1,2) store_remove_def removeLocked_found)
  have s: "store_inv (ar_store a)" using i by (simp add: api_inv_def)
  show "rt_lookup r' = (rt_lookup r)((api, n) := None)"
  proof
    fix k :: "string \<times> string"
    obtain b m where k: "k = (b, m)" by (cases k)
    have "API_get r' b = (if b = api then Some (a\<lparr>ar_store := snd (store_remove n (ar_store a))\<rparr>) else API_get r b)"
      by (simp add: a(3))
    then show "rt_lookup r' k = ((rt_lookup r)((api, n) := None)) k"
      unfolding k fun_upd_apply rt_lookup_eq [OF assms(1)] rt_lookup_eq [OF r']
      using a(1) store_lookup_remove [OF s, of n m] by auto
  qed
qed

section \<open>The builder\<close>

lemma validate_metas_None:
  "validate_metas reg apiName seen ms = None \<Longrightarrow>
     distinct (map md_Name ms) \<and> (\<forall>m \<in> set ms. apiName @ ''.'' @ md_Name m \<notin> set seen
       \<and> Registry_Get reg (apiName @ ''.'' @ md_Name m) = None)"
proof (induction ms arbitrary: seen)
  case (Cons m ms)
  let ?full = "apiName @ ''.'' @ md_Name m"
  from Cons.prems have 1: "?full \<notin> set seen" "Registry_Get reg ?full = None"
    and 2: "validate_metas reg apiName (?full # seen) ms = None"
    by (auto simp: Let_def split: if_splits option.splits)
  from Cons.IH [OF 2] 1 show ?case by auto
qed simp

lemma registered_types:
  assumes "registerAPITypes api reg = (Inr types, reg')"
  shows "types = map (\<lambda>m. (md_Name m, meta_type m (api_Name api))) (api_Meta api)"
    "Registry_Get reg n = Some t \<Longrightarrow> Registry_Get reg' n = Some t"
    "m \<in> set (api_Meta api) \<Longrightarrow> Registry_Get reg' (api_Name api @ ''.'' @ md_Name m) = Some (meta_type m (api_Name api))"
proof -
  let ?new = "map (\<lambda>m. (api_Name api @ ''.'' @ md_Name m, meta_type m (api_Name api))) (api_Meta api)"
  have v: "validate_metas reg (api_Name api) [] (api_Meta api) = None"
    and r: "types = map (\<lambda>m. (md_Name m, meta_type m (api_Name api))) (api_Meta api)" "reg' = reg @ ?new"
    using assms by (auto simp: registerAPITypes_cases split: option.splits)
  show "types = map (\<lambda>m. (md_Name m, meta_type m (api_Name api))) (api_Meta api)" by (rule r(1))
  show "Registry_Get reg n = Some t \<Longrightarrow> Registry_Get reg' n = Some t"
    by (simp add: r(2) Registry_Get_def map_add_def)
  assume m: "m \<in> set (api_Meta api)"
  note names = validate_metas_None [OF v]
  have "distinct (map fst ?new)"
    using names by (auto simp: distinct_map inj_on_def)
  then have "map_of ?new (api_Name api @ ''.'' @ md_Name m) = Some (meta_type m (api_Name api))"
    using m by (intro map_of_is_SomeI) auto
  then show "Registry_Get reg' (api_Name api @ ''.'' @ md_Name m) = Some (meta_type m (api_Name api))"
    using names m by (simp add: r(2) Registry_Get_def map_add_def)
qed

lemma AddAPI_error: "AddAPI api b = (Some e, b') \<Longrightarrow> b' = b"
  by (cases "validate_metas (b_registry b) (api_Name api) [] (api_Meta api)")
     (auto simp: AddAPI_def registerAPITypes_cases split: if_splits)

lemma AddAPI_ok:
  assumes "AddAPI api b = (None, b')"
  obtains types reg where "registerAPITypes api (b_registry b) = (Inr types, reg)" "\<not> b_built b"
    "b' = b\<lparr>b_registry := reg, b_pending := b_pending b @ [(api_Name api, \<lparr>pa_spec = api, pa_types = types\<rparr>)]\<rparr>"
    "api_Name api \<notin> fst ` set (b_pending b)" "api_Name api \<notin> set reservedTopLevelCEL"
    "\<forall>m \<in> set (api_Meta api). md_Name m \<notin> set reservedTopLevelCEL"
  using assms by (auto simp: AddAPI_def split: if_splits prod.splits sum.splits)

lemma builder_inv_AddAPI:
  assumes "builder_inv b" shows "builder_inv (snd (AddAPI api b))"
proof (cases "fst (AddAPI api b)")
  case (Some e)
  then have "AddAPI api b = (Some e, snd (AddAPI api b))" by (metis prod.collapse)
  with assms show ?thesis using AddAPI_error by metis
next
  case None
  then have "AddAPI api b = (None, snd (AddAPI api b))" by (metis prod.collapse)
  then show ?thesis
  proof (cases rule: AddAPI_ok)
    case (1 types reg)
    have "pending_ok reg n p" if "(n, p) \<in> set (b_pending b)" for n p
      using assms that registered_types(2) [OF 1(1)] by (fastforce simp: builder_inv_def pending_ok_def)
    moreover have "pending_ok reg (api_Name api) \<lparr>pa_spec = api, pa_types = types\<rparr>"
      using 1 registered_types(1,3) [OF 1(1)] by (simp add: pending_ok_def)
    ultimately show ?thesis using assms 1(4) unfolding 1(3) by (auto simp: builder_inv_def)
  qed
qed

lemma builder_inv_reach: "builder_reach b \<Longrightarrow> builder_inv b"
proof (induction rule: builder_reach.induct)
  case new
  show ?case by (simp add: builder_inv_def NewBuilder_def)
next
  case (add b api)
  then show ?case by (simp add: builder_inv_AddAPI)
next
  case (build b compile parse_url)
  then show ?case by (auto simp: Build_def Let_def builder_inv_def)
qed

lemma sortedPending_names:
  assumes "builder_inv b"
  shows "distinct (map (\<lambda>p. api_Name (pa_spec p)) (sortedPending b))"
    "set (map (\<lambda>p. api_Name (pa_spec p)) (sortedPending b)) = fst ` set (b_pending b)"
proof -
  have n: "map (\<lambda>p. api_Name (pa_spec p)) (map snd (b_pending b)) = map fst (b_pending b)"
    using assms by (auto simp: builder_inv_def pending_ok_def)
  have "distinct (map (\<lambda>p. api_Name (pa_spec p)) (map snd (b_pending b)))"
    unfolding n using assms by (simp add: builder_inv_def)
  then show "distinct (map (\<lambda>p. api_Name (pa_spec p)) (sortedPending b))"
    by (auto simp: sortedPending_def distinct_map dest: inj_on_imageI2 inj_on_imageI)
  show "set (map (\<lambda>p. api_Name (pa_spec p)) (sortedPending b)) = fst ` set (b_pending b)"
    using arg_cong [OF n, of set] by (simp add: sortedPending_def image_image)
qed

lemma compile_api_fields:
  "compile_api compile parse_url reg metas p = Inr (n, a) \<Longrightarrow>
     n = api_Name (pa_spec p) \<and> ar_name a = n \<and> ar_store a = newPolicyStore \<and> ar_metas a = metas \<and> ar_registry a = reg"
  by (auto simp: compile_api_def compileAPIActions_def split: sum.splits option.splits)

lemma compile_apis_keys:
  "map_result (compile_api compile parse_url reg metas) ps = Inr apis \<Longrightarrow>
     map fst apis = map (\<lambda>p. api_Name (pa_spec p)) ps"
proof (induction ps arbitrary: apis)
  case (Cons p ps)
  then show ?case
    using compile_api_fields [of compile parse_url reg metas p] by (auto split: sum.splits)
qed simp

lemma Build_cases:
  assumes "Build compile parse_url b = (Inr r, b')"
  obtains metas where "\<not> b_built b" "b' = b\<lparr>b_built := True\<rparr>"
    "map_result (compile_api compile parse_url (b_registry b) metas) (sortedPending b) = Inr (rt_apis r)"
    "buildPrefixRoutes (sortedPending b) = Inr (rt_routes r)"
  using assms by (auto simp: Build_def Let_def split: if_splits sum.splits)

lemma Build_rt_inv:
  assumes "builder_inv b" "Build compile parse_url b = (Inr r, b')"
  shows "rt_inv r" "routes_ok r" "ListPolicies r = []" "map fst (rt_apis r) = map (\<lambda>p. api_Name (pa_spec p)) (sortedPending b)"
proof -
  from assms(2) obtain metas where
    apis: "map_result (compile_api compile parse_url (b_registry b) metas) (sortedPending b) = Inr (rt_apis r)"
    and routes: "buildPrefixRoutes (sortedPending b) = Inr (rt_routes r)" by (rule Build_cases)
  show keys: "map fst (rt_apis r) = map (\<lambda>p. api_Name (pa_spec p)) (sortedPending b)"
    using apis by (rule compile_apis_keys)
  have each: "ar_name a = n \<and> ar_store a = newPolicyStore" if "(n, a) \<in> set (rt_apis r)" for n a
    using map_result_mem [OF apis that] compile_api_fields by metis
  then show "rt_inv r"
    using sortedPending_names(1) [OF assms(1)] store_inv_new
    by (auto simp: rt_inv_def api_inv_def keys newPolicyStore_def store_all_def)
  from routes have nc: "\<not> prefix_conflict (rt_routes r)" "collect_routes (sortedPending b) = Inr (rt_routes r)"
    by (auto simp: buildPrefixRoutes_def split: sum.splits if_splits)
  have "API_get r (r_apiName rt) \<noteq> None" if "rt \<in> set (rt_routes r)" for rt
  proof -
    have "r_apiName rt \<in> set (map fst (rt_apis r))"
      using collect_routes_names [OF nc(2) that] by (auto simp: keys)
    then show ?thesis by (simp add: API_get_def map_of_eq_None_iff)
  qed
  with nc(1) show "routes_ok r" by (simp add: routes_ok_def)
  have "APIRuntime_List a = []" if "map_of (rt_apis r) n = Some a" for n a
    using each [OF map_of_SomeD [OF that]] by (simp add: APIRuntime_List_all newPolicyStore_def store_all_def)
  then show "ListPolicies r = []" by (auto simp: ListPolicies_def split: option.split)
qed

section \<open>Properties\<close>

text \<open>
  Routing after a successful build is unambiguous: a path claimed by some declared prefix is routed
  to that prefix's API, so no two APIs claim the same path and the order of the table is irrelevant.
  A path no prefix claims is not routed.
\<close>

theorem routing_unambiguous:
  assumes "buildPrefixRoutes pending = Inr routes"
  shows "(\<forall>rt \<in> set routes. hasSegmentPrefix segs (r_segments rt) \<longrightarrow> routeRequest_loop routes segs = r_apiName rt)
    \<and> (\<forall>rt \<in> set routes. \<forall>rt' \<in> set routes. hasSegmentPrefix segs (r_segments rt) \<longrightarrow>
         hasSegmentPrefix segs (r_segments rt') \<longrightarrow> rt = rt')
    \<and> ((\<forall>rt \<in> set routes. \<not> hasSegmentPrefix segs (r_segments rt)) \<longrightarrow> routeRequest_loop routes segs = [])"
proof -
  have nc: "\<not> prefix_conflict routes"
    using assms by (auto simp: buildPrefixRoutes_def split: sum.splits if_splits)
  have "rt = rt'" if "rt \<in> set routes" "rt' \<in> set routes" "hasSegmentPrefix segs (r_segments rt)"
    "hasSegmentPrefix segs (r_segments rt')" for rt rt'
    using that no_conflict_unique [OF nc] by (metis in_set_conv_nth)
  then show ?thesis
    using routeRequest_loop_unique [OF nc] routeRequest_loop_Nil_or_mem [of routes segs] by blast
qed

theorem routing_unambiguous_witness:
  "\<exists>routes. buildPrefixRoutes [\<lparr>pa_spec = ex_spec ''d'' ''/d'', pa_types = []\<rparr>, \<lparr>pa_spec = ex_spec ''e'' ''/e/x'', pa_types = []\<rparr>]
       = Inr routes \<and> routeRequest_loop routes [''e'', ''x'', ''1''] = ''e'' \<and> routeRequest_loop routes [''e''] = []"
proof -
  let ?p = "[\<lparr>pa_spec = ex_spec ''d'' ''/d'', pa_types = []\<rparr>, \<lparr>pa_spec = ex_spec ''e'' ''/e/x'', pa_types = []\<rparr>]"
  let ?r = "[\<lparr>r_segments = [''d''], r_apiName = ''d'', r_source = ''/d''\<rparr>,
             \<lparr>r_segments = [''e'', ''x''], r_apiName = ''e'', r_source = ''/e/x''\<rparr>]"
  have b: "buildPrefixRoutes ?p = Inr ?r" by code_simp
  have h: "hasSegmentPrefix [''e'', ''x'', ''1''] [''e'', ''x'']" "\<not> hasSegmentPrefix [''e''] [''d'']"
    "\<not> hasSegmentPrefix [''e''] [''e'', ''x'']" by code_simp+
  have "routeRequest_loop ?r [''e'', ''x'', ''1''] = ''e''"
    using conjunct1 [OF routing_unambiguous [OF b, of "[''e'', ''x'', ''1'']"]] h(1) by simp
  moreover have "routeRequest_loop ?r [''e''] = []"
    using conjunct2 [OF conjunct2 [OF routing_unambiguous [OF b, of "[''e'']"]]] h(2,3) by simp
  ultimately show ?thesis using b by blast
qed

text \<open>
  Every builder a program can reach keeps its pending APIs under distinct, unreserved names with all
  their meta types in the shared registry; a failed \<open>AddAPI\<close> changes nothing; after \<open>Build\<close> both
  \<open>AddAPI\<close> and \<open>Build\<close> refuse.
\<close>

theorem builder_lifecycle:
  assumes "builder_reach b"
  shows "builder_inv b \<and> (\<forall>e b'. AddAPI api b = (Some e, b') \<longrightarrow> b' = b)
    \<and> (let b1 = snd (Build compile parse_url b)
       in b_built b1 \<and> fst (AddAPI api b1) \<noteq> None \<and> (\<exists>e. Build compile parse_url b1 = (Inl e, b1)))"
  using builder_inv_reach [OF assms] AddAPI_error by (auto simp: Build_def AddAPI_def Let_def)

theorem builder_lifecycle_witness:
  "let b = snd (AddAPI (ex_spec ''d'' ''/d'') NewBuilder)
   in length (b_pending b) = 1 \<and> builder_inv b
      \<and> fst (AddAPI (ex_spec ''e'' ''/e'') (snd (Build ex_compiler (\<lambda>_. Inr ()) b))) \<noteq> None"
proof -
  let ?b = "snd (AddAPI (ex_spec ''d'' ''/d'') NewBuilder)"
  have r: "builder_reach ?b" by (intro builder_reach.intros)
  have "length (b_pending ?b) = 1" by code_simp
  with builder_lifecycle [OF r, of "ex_spec ''e'' ''/e''" ex_compiler "\<lambda>_. Inr ()"] show ?thesis by (simp add: Let_def)
qed



lemma APIRuntime_Permit_no_error:
  "APIRuntime_Evaluate x a prn now s = ((Permit, e), evs, s') \<Longrightarrow> e = None"
  using eval_policies_Permit [of x prn now _ "store_all (ar_store a)"]
  by (auto simp: APIRuntime_Evaluate_def split: if_splits prod.splits sum.splits)

lemma Runtime_Permit_cases:
  assumes "Runtime_Evaluate w r req prn now = (name, (Permit, e), evs, s')"
  obtains a where "e = None" "name = routeRequest r req" "name \<noteq> []" "API_get r name = Some a"
    "APIRuntime_Evaluate (api_ctx w a req) a prn now fresh_state = ((Permit, None), evs, s')"
  using assms
  by (auto simp: Runtime_Evaluate_def Let_def split: if_splits option.splits dest: APIRuntime_Permit_no_error)

lemma rt_inv_buckets: "rt_inv r \<Longrightarrow> rt_buckets r"
  by (auto simp: rt_inv_def rt_buckets_def api_inv_def store_inv_def)

lemma rt_buckets_get: "rt_buckets r \<Longrightarrow> API_get r n = Some a \<Longrightarrow> buckets_ok (ar_store a)"
  by (auto simp: rt_buckets_def API_get_def dest: map_of_SomeD)

lemma rt_buckets_set_api: "rt_buckets r \<Longrightarrow> buckets_ok (ar_store a) \<Longrightarrow> rt_buckets (set_api n a r)"
  using set_upsert_by_subset [of fst "(n, a)" "rt_apis r"] by (auto simp: rt_buckets_def set_api_def)

lemma rt_buckets_AddPolicy: "AddPolicy compile p r = Inr r' \<Longrightarrow> rt_buckets r \<Longrightarrow> rt_buckets r'"
  by (auto simp: AddPolicy_def APIRuntime_Add_def buckets_ok_append intro!: rt_buckets_set_api
      dest: rt_buckets_get split: option.splits sum.splits)

lemma Runtime_Permit_policy:
  assumes "Runtime_Evaluate w r req (Some prn) now = (name, (Permit, e), evs, s')" "rt_buckets r"
  shows "name = routeRequest r req \<and> (\<exists>a. API_get r name = Some a \<and> permitted_by_policy (api_ctx w a req) a prn now)"
proof -
  obtain a where a: "name = routeRequest r req" "API_get r name = Some a"
    and perm: "APIRuntime_Evaluate (api_ctx w a req) a (Some prn) now fresh_state = ((Permit, None), evs, s')"
    by (rule Runtime_Permit_cases [OF assms(1)])
  have "buckets_ok (ar_store a)" by (rule rt_buckets_get [OF assms(2) a(2)])
  from Evaluate_Permit_cases [OF this perm] have "permitted_by_policy (api_ctx w a req) a prn now"
    unfolding permitted_by_policy_def by blast
  with a show ?thesis by blast
qed

text \<open>
  C4: A request is permitted only if its path is routed, by the table, to a registered API and that API's
  own evaluation permits it; an unrouted request is denied with no name, no error and no upstream call.
\<close>

theorem Runtime_Evaluate_routed:
  assumes "Runtime_Evaluate w r req prn now = (name, (d, e), evs, s')"
  shows "(d = Permit \<longrightarrow> e = None \<and> name = routeRequest r req \<and> name \<noteq> [] \<and>
            (\<exists>a. API_get r name = Some a
               \<and> APIRuntime_Evaluate (api_ctx w a req) a prn now fresh_state = ((Permit, None), evs, s')))
    \<and> (prn \<noteq> None \<longrightarrow> routeRequest r req = [] \<longrightarrow> name = [] \<and> d = Deny \<and> e = None \<and> es_calls s' = [])"
proof (intro conjI impI)
  show "e = None" "name = routeRequest r req" "name \<noteq> []"
    "\<exists>a. API_get r name = Some a \<and> APIRuntime_Evaluate (api_ctx w a req) a prn now fresh_state = ((Permit, None), evs, s')"
    if "d = Permit" using assms Runtime_Permit_cases unfolding that by metis+
  show "name = []" "d = Deny" "e = None" "es_calls s' = []" if "prn \<noteq> None" "routeRequest r req = []"
    using assms that by (auto simp: Runtime_Evaluate_def Let_def fresh_state_def)
qed

theorem Runtime_Evaluate_routed_witness:
  "\<exists>evs s'. Runtime_Evaluate ex_world ex_runtime (x_req ex_ctx) (Some ex_prn) 0 = (''d'', (Permit, None), evs, s')
     \<and> routeRequest ex_runtime (x_req ex_ctx) = ''d''"
proof -
  let ?R = "Runtime_Evaluate ex_world ex_runtime (x_req ex_ctx) (Some ex_prn) 0"
  have "fst ?R = ''d'' \<and> fst (snd ?R) = (Permit, None)" by code_simp
  then have R: "?R = (''d'', (Permit, None), fst (snd (snd ?R)), snd (snd (snd ?R)))" by (metis prod.collapse)
  from Runtime_Evaluate_routed [OF R] R show ?thesis by metis
qed

text \<open>
  Replacing a policy either fails and changes nothing, exactly when \<open>ValidatePolicy\<close> rejects it, or
  keeps the runtime's invariant and updates the policy set, as the control plane lists it, at that one
  (api, name); the boolean reports whether one was there before.
\<close>

theorem ReplacePolicy_correct:
  assumes "rt_inv r"
  shows "case ReplacePolicy compile p r of
      Inl e \<Rightarrow> ValidatePolicy compile p r = Some e
    | Inr (existed, r') \<Rightarrow> ValidatePolicy compile p r = None \<and> rt_inv r' \<and> rt_lookup r' = (rt_lookup r)(pol_key p \<mapsto> p)
        \<and> existed = (rt_lookup r (pol_key p) \<noteq> None)"
proof (cases "ValidatePolicy compile p r")
  case (Some e)
  then show ?thesis by (simp add: ReplacePolicy_cases)
next
  case None
  then have acc: "rt_accepts compile r p" by (simp add: rt_accepts_def)
  then obtain a cp where a: "API_get r (pol_API p) = Some a" "APIRuntime_compile compile a p = Inr cp"
    by (auto simp: rt_accepts_iff)
  have "fst (store_replace cp (ar_store a)) = (rt_lookup r (pol_key p) \<noteq> None)"
    using APIRuntime_compile_fields [OF a(2)] a(1)
    by (auto simp: store_replace_found pol_key_def rt_lookup_eq [OF assms])
  moreover have "rt_lookup (rt_put compile p r) = (rt_lookup r)(pol_key p \<mapsto> p)"
    using rt_lookup_put [OF assms acc] by auto
  ultimately show ?thesis
    using None rt_inv_put [OF assms acc] by (simp add: rt_put_accepted(2) [OF a])
qed

theorem ReplacePolicy_correct_witness:
  "\<exists>existed r'. ReplacePolicy ex_compiler (cp_source (ex_policy ''alice'' Deny ''bob'')) ex_runtime = Inr (existed, r')
     \<and> existed \<and> rt_lookup r' (''d'', ''alice'') = Some (cp_source (ex_policy ''alice'' Deny ''bob''))"
proof -
  let ?p = "cp_source (ex_policy ''alice'' Deny ''bob'')"
  have i: "rt_inv ex_runtime" by code_simp
  have "is_ok (ReplacePolicy ex_compiler ?p ex_runtime)" "pol_key ?p = (''d'', ''alice'')"
    "rt_lookup ex_runtime (''d'', ''alice'') \<noteq> None" by code_simp+
  with ReplacePolicy_correct [OF i, of ex_compiler ?p] show ?thesis by (auto simp: is_ok_iff)
qed

end
