(* ===== verification/ApiClient.thy ===== *)
theory ApiClient
  imports Urls Messages Auth
begin

text \<open>
  HTTP headers as Go keeps them, and the client of \<^verbatim>\<open>internal/apiclient/http.go\<close> that performs a meta's
  side call: request construction, form encoding of bodies, and the treatment of the answer.  Sending a
  request, building one, and the JSON codecs are parameters.
\<close>

section \<open>Definitions\<close>

subsection \<open>Headers\<close>

type_synonym headers = "(string \<times> string list) list"

definition token_byte :: "char \<Rightarrow> bool" where
  "token_byte c \<longleftrightarrow> is_lower c \<or> is_upper c \<or> is_digit c \<or> c \<in> set ''!#$%&*+-.^_|~'' \<or> c = CHR 0x27 \<or> c = CHR 0x60"

fun canonical_bytes :: "bool \<Rightarrow> string \<Rightarrow> string" where
  "canonical_bytes up [] = []"
| "canonical_bytes up (c # cs) = (if up then upper_char c else lower_char c) # canonical_bytes (c = CHR ''-'') cs"

definition CanonicalMIMEHeaderKey :: "string \<Rightarrow> string" where
  "CanonicalMIMEHeaderKey s = (if list_all token_byte s then canonical_bytes True s else s)"

definition Header_Set :: "string \<Rightarrow> string \<Rightarrow> headers \<Rightarrow> headers" where
  "Header_Set k v h = upsert_by fst (CanonicalMIMEHeaderKey k, [v]) h"

definition Header_Values :: "headers \<Rightarrow> string \<Rightarrow> string list" where
  "Header_Values h k = (case map_of h (CanonicalMIMEHeaderKey k) of None \<Rightarrow> [] | Some vs \<Rightarrow> vs)"

definition Header_Get :: "headers \<Rightarrow> string \<Rightarrow> string" where
  "Header_Get h k = (case Header_Values h k of [] \<Rightarrow> [] | v # _ \<Rightarrow> v)"

definition Header_Add :: "string \<Rightarrow> string \<Rightarrow> headers \<Rightarrow> headers" where
  "Header_Add k v h = upsert_by fst (CanonicalMIMEHeaderKey k, Header_Values h k @ [v]) h"

definition set_headers :: "Header list \<Rightarrow> headers \<Rightarrow> headers" where
  "set_headers hs h = fold (\<lambda>x. Header_Set (hd_Name x) (hd_Value x)) hs h"

subsection \<open>Bodies\<close>

fun DropJSONNulls :: "json \<Rightarrow> json"
  and drop_fields :: "(string \<times> json) list \<Rightarrow> (string \<times> json) list"
  and drop_items :: "json list \<Rightarrow> json list" where
  "DropJSONNulls (JObj kvs) = JObj (drop_fields kvs)"
| "DropJSONNulls (JArr vs) = JArr (drop_items vs)"
| "DropJSONNulls v = v"
| "drop_fields [] = []"
| "drop_fields ((k, v) # kvs) = (if v = JNull then drop_fields kvs else (k, DropJSONNulls v) # drop_fields kvs)"
| "drop_items [] = []"
| "drop_items (v # vs) = DropJSONNulls v # drop_items vs"

text \<open>The codecs: \<open>protojson.Marshal\<close>, \<open>json.Unmarshal\<close> into \<open>any\<close>, \<open>structpb.NewValue\<close>, \<open>FormatFloat\<close>.\<close>

record codecs =
  cd_marshal :: "json \<Rightarrow> string option"
  cd_unmarshal :: "string \<Rightarrow> json option"
  cd_newValue :: "json \<Rightarrow> json option"
  cd_number :: "string \<Rightarrow> string"

fun formFieldValue :: "codecs \<Rightarrow> json \<Rightarrow> string option" where
  "formFieldValue C (JStr s) = Some s"
| "formFieldValue C (JNum n) = Some (cd_number C n)"
| "formFieldValue C (JBool b) = Some (if b then ''true'' else ''false'')"
| "formFieldValue C JNull = Some []"
| "formFieldValue C v = cd_marshal C v"

fun form_values :: "codecs \<Rightarrow> (string \<times> json) list \<Rightarrow> url_values \<Rightarrow> url_values option" where
  "form_values C [] acc = Some acc"
| "form_values C ((k, v) # kvs) acc =
     (case formFieldValue C v of
        None \<Rightarrow> None
      | Some s \<Rightarrow> form_values C kvs (upsert_by fst (k, [s]) acc))"

definition encodeForm :: "codecs \<Rightarrow> json \<Rightarrow> err + string" where
  "encodeForm C v =
     (case v of
        JObj fs \<Rightarrow> (case form_values C (sort_key fst fs) [] of None \<Rightarrow> Inl (EMsg ''field'') | Some vs \<Rightarrow> Inr (Values_Encode vs))
      | _ \<Rightarrow> Inl (EMsg ''form body must be an object''))"

definition formType :: string where "formType = ''application/x-www-form-urlencoded''"

definition encodeBody :: "codecs \<Rightarrow> json \<Rightarrow> string \<Rightarrow> err + string" where
  "encodeBody C v contentType =
     (if contentType = formType then encodeForm C v
      else (case cd_marshal C v of None \<Rightarrow> Inl (EMsg ''marshal'') | Some s \<Rightarrow> Inr s))"

subsection \<open>Side calls\<close>

record outreq =
  o_Method :: string
  o_URL :: url
  o_Header :: headers
  o_Body :: "string option"

record HTTPAPI =
  ha_BaseURL :: url
  ha_AccessToken :: string
  ha_ExtraHeaders :: "Header list"

text \<open>
  The transport: whether a method and URL make a request, and the answer to one: an error, or a status
  with a body that cannot be read or is a byte string.
\<close>

record transport =
  tr_NewRequest :: "string \<Rightarrow> url \<Rightarrow> bool"
  tr_Do :: "outreq \<Rightarrow> err + (int \<times> headers \<times> string option)"

definition maxResponseBodyBytes :: nat where "maxResponseBodyBytes = 10 * 2 ^ 20"

definition call_headers :: "HTTPAPI \<Rightarrow> string \<Rightarrow> bool \<Rightarrow> headers" where
  "call_headers a contentType hasBody =
     (let h1 = (if ha_AccessToken a \<noteq> [] then Header_Set ''Authorization'' (''Bearer '' @ ha_AccessToken a) [] else []);
          h2 = Header_Set ''Accept'' ''application/json'' h1;
          h3 = (if hasBody then Header_Set ''Content-Type'' contentType h2 else h2)
      in set_headers (ha_ExtraHeaders a) h3)"

text \<open>\<open>Call\<close> up to the sending of the request.\<close>

definition call_request :: "codecs \<Rightarrow> transport \<Rightarrow> HTTPAPI \<Rightarrow> MetaRequest \<Rightarrow> err + outreq" where
  "call_request C T a req =
     (case JoinPath (ha_BaseURL a) (mr_path req) of
        Inl e \<Rightarrow> Inl (EMsg ''path'')
      | Inr target \<Rightarrow>
          (let contentType = (if mr_content_type req = [] then ''application/json'' else mr_content_type req)
           in case (case mr_body req of
                      None \<Rightarrow> Inr None
                    | Some b \<Rightarrow> (case encodeBody C b contentType of Inl e \<Rightarrow> Inl (EWrap ''marshal body'' e) | Inr raw \<Rightarrow> Inr (Some raw))) of
                Inl e \<Rightarrow> Inl e
              | Inr body \<Rightarrow>
                  (if \<not> tr_NewRequest T (mr_method req) target then Inl (EMsg ''build request'')
                   else Inr \<lparr>o_Method = mr_method req, o_URL = target,
                             o_Header = call_headers a contentType (body \<noteq> None), o_Body = body\<rparr>)))"

definition call_response :: "codecs \<Rightarrow> int \<Rightarrow> string option \<Rightarrow> err + Response" where
  "call_response C status body =
     (case body of
        None \<Rightarrow> Inl (EMsg ''read body'')
      | Some raw \<Rightarrow>
          (if length raw > maxResponseBodyBytes then Inl (EMsg ''upstream body exceeded'')
           else if status < 200 \<or> status \<ge> 300 then Inl (EUpstream (nat status))
           else if raw = [] then Inr \<lparr>resp_body = None\<rparr>
           else (case cd_unmarshal C raw of
                   None \<Rightarrow> Inl (EMsg ''decode body'')
                 | Some v \<Rightarrow>
                     (case cd_newValue C (DropJSONNulls v) of
                        None \<Rightarrow> Inl (EMsg ''body to value'')
                      | Some pv \<Rightarrow> Inr \<lparr>resp_body = Some pv\<rparr>))))"

definition HTTPAPI_Call :: "codecs \<Rightarrow> transport \<Rightarrow> HTTPAPI \<Rightarrow> MetaRequest \<Rightarrow> err + Response" where
  "HTTPAPI_Call C T a req =
     (case call_request C T a req of
        Inl e \<Rightarrow> Inl e
      | Inr out \<Rightarrow>
          (case tr_Do T out of
             Inl e \<Rightarrow> Inl (EWrap ''http call'' e)
           | Inr (status, hdrs, body) \<Rightarrow> call_response C status body))"

subsection \<open>Specification\<close>

text \<open>No object anywhere in a value has a null field.\<close>

fun null_free :: "json \<Rightarrow> bool"
  and null_free_fields :: "(string \<times> json) list \<Rightarrow> bool"
  and null_free_items :: "json list \<Rightarrow> bool" where
  "null_free (JObj kvs) = null_free_fields kvs"
| "null_free (JArr vs) = null_free_items vs"
| "null_free v = True"
| "null_free_fields [] = True"
| "null_free_fields ((k, v) # kvs) = (v \<noteq> JNull \<and> null_free v \<and> null_free_fields kvs)"
| "null_free_items [] = True"
| "null_free_items (v # vs) = (null_free v \<and> null_free_items vs)"

section \<open>Bodies\<close>

lemma DropJSONNulls_null: "DropJSONNulls v = JNull \<longleftrightarrow> v = JNull"
  by (cases v) auto

lemma DropJSONNulls_null_free:
  "null_free (DropJSONNulls v)" "null_free_fields (drop_fields kvs)" "null_free_items (drop_items vs)"
  by (induction v and kvs and vs rule: DropJSONNulls_drop_fields_drop_items.induct) (auto simp: DropJSONNulls_null)

lemma DropJSONNulls_id:
  "null_free v \<Longrightarrow> DropJSONNulls v = v" "null_free_fields kvs \<Longrightarrow> drop_fields kvs = kvs" "null_free_items vs \<Longrightarrow> drop_items vs = vs"
  by (induction v and kvs and vs rule: DropJSONNulls_drop_fields_drop_items.induct) auto

lemma DropJSONNulls_idem: "DropJSONNulls (DropJSONNulls v) = DropJSONNulls v"
  by (simp add: DropJSONNulls_id DropJSONNulls_null_free)

section \<open>Header names\<close>

lemma all_chars_case: "\<forall>c :: char. lower_char (upper_char c) = lower_char c \<and> lower_char (lower_char c) = lower_char c"
  by code_simp

lemma lower_canonical_bytes: "ToLower (canonical_bytes up s) = ToLower s"
  using all_chars_case by (induction s arbitrary: up) (simp_all add: ToLower_def)

lemma lower_canonical [simp]: "ToLower (CanonicalMIMEHeaderKey k) = ToLower k"
  by (simp add: CanonicalMIMEHeaderKey_def lower_canonical_bytes)

lemma map_of_Header_Set:
  "map_of (Header_Set k v h) j = (if j = CanonicalMIMEHeaderKey k then Some [v] else map_of h j)"
  by (simp add: Header_Set_def map_of_upsert_by)

lemma map_of_Header_Add:
  "map_of (Header_Add k v h) j = (if j = CanonicalMIMEHeaderKey k then Some (Header_Values h k @ [v]) else map_of h j)"
  by (simp add: Header_Add_def map_of_upsert_by)

lemma set_headers_source:
  "map_of (set_headers hs h) k = Some vs \<Longrightarrow>
     map_of h k = Some vs \<or> (\<exists>x \<in> set hs. k = CanonicalMIMEHeaderKey (hd_Name x) \<and> vs = [hd_Value x])"
proof (induction hs arbitrary: h)
  case (Cons x hs)
  from Cons.IH [of "Header_Set (hd_Name x) (hd_Value x) h"] Cons.prems show ?case
    by (auto simp: set_headers_def map_of_Header_Set split: if_splits)
qed (simp add: set_headers_def)

text \<open>A header an operator bundled reaches the request, unless a later bundled one has the same name.\<close>

lemma set_headers_last:
  "map_of (set_headers (hs @ [x]) h) (CanonicalMIMEHeaderKey (hd_Name x)) = Some [hd_Value x]"
  by (simp add: set_headers_def map_of_Header_Set)

section \<open>Side calls\<close>

text \<open>
  A side call goes to the configured scheme and host and carries the access token and the bundled
  headers, which alone decide the credential headers.
\<close>

lemma JoinPath_host: "JoinPath base p = Inr u \<Longrightarrow> u_Scheme u = u_Scheme base \<and> u_Host u = u_Host base"
  by (auto simp: JoinPath_def Let_def split: if_splits option.splits prod.splits)

lemma call_confined:
  assumes "call_request C T a req = Inr out"
  shows "u_Scheme (o_URL out) = u_Scheme (ha_BaseURL a) \<and> u_Host (o_URL out) = u_Host (ha_BaseURL a)
    \<and> o_Method out = mr_method req"
  using assms JoinPath_host by (fastforce simp: call_request_def Let_def split: sum.splits option.splits if_splits)

section \<open>Form bodies\<close>

lemma form_values_keys:
  "form_values C kvs acc = Some vs \<Longrightarrow> values_ok acc \<Longrightarrow> values_ok vs"
proof (induction C kvs acc rule: form_values.induct)
  case (2 C k v kvs acc)
  then obtain s where s: "formFieldValue C v = Some s" "form_values C kvs (upsert_by fst (k, [s]) acc) = Some vs"
    by (auto split: option.splits)
  have "values_ok (upsert_by fst (k, [s]) acc)"
    using 2(3) set_upsert_by_subset [of fst "(k, [s])" acc] by (auto simp: values_ok_def distinct_upsert_by)
  with 2(1) [OF s(1,2)] show ?case .
qed simp

text \<open>A form body of the client parses back, without error, into one value per field.\<close>

lemma encodeForm_parses:
  assumes "encodeForm C (JObj fs) = Inr body"
  obtains vs where "form_values C (sort_key fst fs) [] = Some vs" "ParseQuery body = (True, sort_key fst vs)"
  using assms ParseQuery_Encode form_values_keys [of C "sort_key fst fs" "[]"]
  by (auto simp: encodeForm_def values_ok_def split: option.splits)

end
