(* ===== verification/Proxy.thy ===== *)
theory Proxy
  imports Runtime ApiClient Traffic
begin

text \<open>
  The data plane: \<^verbatim>\<open>internal/server/proxy.go\<close> and the per-request capture of
  \<^verbatim>\<open>internal/server/recorder.go\<close>.  \<open>handle\<close> is the whole handler: it splits the path, routes,
  authenticates, reads and parses the body, evaluates the policies, and forwards.  Its result is the
  reply, the request sent upstream if one was, and the captured event.  Error texts are reduced to
  short tags; log lines and trace spans are not modelled.
\<close>

section \<open>Definitions\<close>

subsection \<open>Requests and the server\<close>

record HTTPRequest =
  r_Method :: string
  r_EscapedPath :: string
  r_Path :: string
  r_RawQuery :: string
  r_RequestURI :: string
  r_Header :: headers
  r_Body :: "string option"

text \<open>A part of a multipart body; \<open>None\<close> as its data means that reading it failed.\<close>

record part =
  p_FormName :: string
  p_FileName :: string
  p_ContentType :: string
  p_Data :: "string option"

text \<open>
  What the handler takes from libraries: media types, multipart bodies as their parts and whether they
  end properly, the parse of a request URI into escaped path and query, and the texts of statuses.
\<close>

record httplib =
  hl_codecs :: codecs
  hl_mediaType :: "string \<Rightarrow> string \<times> string"
  hl_parts :: "string \<Rightarrow> string \<Rightarrow> part list \<times> bool"
  hl_requestURI :: "string \<Rightarrow> (string \<times> string) option"
  hl_errText :: "err \<Rightarrow> string"

record Server =
  s_runtime :: "url Runtime"
  s_keys :: ServerKeys
  s_world :: "AccessCreds \<Rightarrow> world"
  s_recorder :: bool

definition MaxRequestBodyBytes :: nat where "MaxRequestBodyBytes = 2 ^ 20"

subsection \<open>Authentication\<close>

definition authOptionalFor :: "Server \<Rightarrow> string \<Rightarrow> bool" where
  "authOptionalFor sv apiName = (case API_get (s_runtime sv) apiName of None \<Rightarrow> False | Some a \<Rightarrow> ar_authOptional a)"

datatype auth_fail = MissingBearer | BadToken auth_error | NoCredential

definition authenticate :: "crypto \<Rightarrow> int \<Rightarrow> Server \<Rightarrow> HTTPRequest \<Rightarrow> auth_fail + AccessToken" where
  "authenticate L now sv r =
     (case CutPrefix (Header_Get (r_Header r) ''Authorization'') ''Bearer '' of
        None \<Rightarrow> Inl MissingBearer
      | Some rest \<Rightarrow>
          (case VerifyAccessToken L now (s_keys sv) rest of
             Inl e \<Rightarrow> Inl (BadToken e)
           | Inr tok \<Rightarrow>
               (if ac_AccessToken (at_Creds tok) = [] \<and> ac_Headers (at_Creds tok) = [] then Inl NoCredential
                else Inr tok)))"

text \<open>\<open>Inr None\<close> is the anonymous caller of an API that admits one.\<close>

definition authenticateOrAnonymous ::
  "crypto \<Rightarrow> int \<Rightarrow> Server \<Rightarrow> HTTPRequest \<Rightarrow> string \<Rightarrow> auth_fail + AccessToken option" where
  "authenticateOrAnonymous L now sv r matchedAPI =
     (if Header_Get (r_Header r) ''Authorization'' = [] then
        (if matchedAPI \<noteq> [] \<and> authOptionalFor sv matchedAPI then Inr None else Inl MissingBearer)
      else (case authenticate L now sv r of Inl e \<Rightarrow> Inl e | Inr tok \<Rightarrow> Inr (Some tok)))"

definition buildPrincipal :: "string \<Rightarrow> bool \<Rightarrow> Principal" where
  "buildPrincipal subject anonymous =
     (if anonymous then \<lparr>pr_subject = [], pr_kind = ''anonymous'', pr_scopes = [], pr_attributes = []\<rparr>
      else \<lparr>pr_subject = subject, pr_kind = ''agent'', pr_scopes = [], pr_attributes = []\<rparr>)"

definition deniedStatusFor :: "Server \<Rightarrow> string \<Rightarrow> int \<Rightarrow> int" where
  "deniedStatusFor sv apiName defaultStatus =
     (if apiName = [] then defaultStatus
      else (case API_get (s_runtime sv) apiName of
              None \<Rightarrow> defaultStatus
            | Some a \<Rightarrow> if ar_accessDeniedStatus a \<noteq> 0 then ar_accessDeniedStatus a else defaultStatus))"

definition upstreamFor :: "Server \<Rightarrow> string \<Rightarrow> err + url" where
  "upstreamFor sv apiName =
     (case API_get (s_runtime sv) apiName of
        None \<Rightarrow> Inl (EMsg ''api not registered'') | Some a \<Rightarrow> Inr (ar_parsedBaseURL a))"

subsection \<open>The policy request\<close>

definition parseJSONBody :: "codecs \<Rightarrow> string \<Rightarrow> err + json option" where
  "parseJSONBody C body =
     (case cd_unmarshal C body of
        None \<Rightarrow> Inl (EMsg ''invalid JSON'')
      | Some v \<Rightarrow> (case cd_newValue C (DropJSONNulls v) of None \<Rightarrow> Inl (EMsg ''body to value'') | Some pv \<Rightarrow> Inr (Some pv)))"

definition one_or_list :: "json list \<Rightarrow> json" where
  "one_or_list vs = (case vs of [v] \<Rightarrow> v | _ \<Rightarrow> JArr vs)"

definition parseFormBody :: "codecs \<Rightarrow> string \<Rightarrow> err + json option" where
  "parseFormBody C body =
     (case ParseQuery body of
        (False, _) \<Rightarrow> Inl (EMsg ''invalid form body'')
      | (True, vals) \<Rightarrow>
          (case cd_newValue C (JObj (map (\<lambda>(k, vs). (k, one_or_list (map JStr vs))) vals)) of
             None \<Rightarrow> Inl (EMsg ''body to value'') | Some pv \<Rightarrow> Inr (Some pv)))"

definition part_entry :: "part \<Rightarrow> string \<Rightarrow> json" where
  "part_entry p dat =
     (if p_FileName p = [] then JStr dat
      else JObj [(''filename'', JStr (p_FileName p)),
                 (''content_type'', JStr (if p_ContentType p = [] then ''application/octet-stream'' else p_ContentType p)),
                 (''size'', JNum (itoa (length dat)))])"

definition append_entry :: "string \<Rightarrow> json \<Rightarrow> (string \<times> json list) list \<Rightarrow> (string \<times> json list) list" where
  "append_entry k v m =
     (case map_of m k of None \<Rightarrow> m @ [(k, [v])] | Some vs \<Rightarrow> upsert_by fst (k, vs @ [v]) m)"

fun collect_parts :: "part list \<Rightarrow> (string \<times> json list) list \<Rightarrow> err + (string \<times> json list) list" where
  "collect_parts [] m = Inr m"
| "collect_parts (p # ps) m =
     (case p_Data p of
        None \<Rightarrow> Inl (EMsg ''multipart part'')
      | Some dat \<Rightarrow>
          (if p_FormName p = [] then collect_parts ps m
           else collect_parts ps (append_entry (p_FormName p) (part_entry p dat) m)))"

definition parseMultipartBody :: "httplib \<Rightarrow> string \<Rightarrow> string \<Rightarrow> err + json option" where
  "parseMultipartBody H body boundary =
     (if boundary = [] then Inl (EMsg ''multipart body: missing boundary parameter'')
      else (let (ps, complete) = hl_parts H boundary body
            in case collect_parts ps [] of
                 Inl e \<Rightarrow> Inl e
               | Inr m \<Rightarrow>
                   (if \<not> complete then Inl (EMsg ''multipart body'')
                    else (case cd_newValue (hl_codecs H) (JObj (map (\<lambda>(k, vs). (k, one_or_list vs)) m)) of
                            None \<Rightarrow> Inl (EMsg ''body to value'') | Some pv \<Rightarrow> Inr (Some pv)))))"

definition parseRequestBody :: "httplib \<Rightarrow> string \<Rightarrow> string \<Rightarrow> err + json option" where
  "parseRequestBody H contentType body =
     (if body = [] then Inr None
      else (let (mediaType, boundary) = hl_mediaType H contentType
            in if mediaType = formType then parseFormBody (hl_codecs H) body
               else if mediaType = ''multipart/form-data'' then parseMultipartBody H body boundary
               else parseJSONBody (hl_codecs H) body))"

definition buildPolicyRequest :: "httplib \<Rightarrow> HTTPRequest \<Rightarrow> string list \<Rightarrow> string \<Rightarrow> err + Request" where
  "buildPolicyRequest H r pathSegs body =
     (case parseRequestBody H (Header_Get (r_Header r) ''Content-Type'') body of
        Inl e \<Rightarrow> Inl e
      | Inr pbBody \<Rightarrow>
          Inr \<lparr>req_method = ToUpper (r_Method r), req_path = JoinSegments pathSegs, req_path_segments = pathSegs,
               req_query = map (\<lambda>(k, v). \<lparr>kv_key = k, kv_value = v\<rparr>) (values_pairs (snd (ParseQuery (r_RawQuery r)))),
               req_body = pbBody\<rparr>)"

subsection \<open>Forwarding\<close>

definition strippedHeaders :: "string list" where
  "strippedHeaders =
     [''host'', ''authorization'', ''content-length'', ''connection'', ''keep-alive'', ''cookie'', ''set-cookie'',
      ''proxy-authenticate'', ''proxy-authorization'', ''te'', ''trailer'', ''transfer-encoding'', ''upgrade'',
      ''forwarded'', ''x-forwarded-for'', ''x-forwarded-host'', ''x-forwarded-proto'', ''x-real-ip'']"

definition shouldStripForwarded :: "string \<Rightarrow> bool" where
  "shouldStripForwarded name \<longleftrightarrow> ToLower name \<in> set strippedHeaders"

definition connectionNamedHeaders :: "headers \<Rightarrow> string list" where
  "connectionNamedHeaders h =
     filter (\<lambda>n. n \<noteq> []) (map (CanonicalMIMEHeaderKey \<circ> TrimSpace)
       (concat (map (Split CHR '','') (Header_Values h ''Connection''))))"

definition copy_headers :: "headers \<Rightarrow> headers \<Rightarrow> headers" where
  "copy_headers src dst =
     (let hop = connectionNamedHeaders src
      in fold (\<lambda>(name, vals) out.
           if shouldStripForwarded name \<or> name \<in> set hop then out
           else fold (\<lambda>v o'. Header_Add name v o') vals out) src dst)"

definition applyCredentials :: "AccessCreds \<Rightarrow> headers \<Rightarrow> headers" where
  "applyCredentials creds h =
     set_headers (ac_Headers creds)
       (if ac_AccessToken creds \<noteq> [] then Header_Set ''Authorization'' (''Bearer '' @ ac_AccessToken creds) h else h)"

definition forward_request :: "transport \<Rightarrow> HTTPRequest \<Rightarrow> string \<Rightarrow> AccessCreds \<Rightarrow> url \<Rightarrow> err + outreq" where
  "forward_request T r body creds baseURL =
     (case JoinPath baseURL (r_EscapedPath r) of
        Inl e \<Rightarrow> Inl (EMsg ''path'')
      | Inr target \<Rightarrow>
          (let target' = target\<lparr>u_RawQuery := r_RawQuery r\<rparr>
           in if \<not> tr_NewRequest T (r_Method r) target' then Inl (EMsg ''request'')
              else Inr \<lparr>o_Method = r_Method r, o_URL = target',
                        o_Header = applyCredentials creds (copy_headers (r_Header r) []), o_Body = Some body\<rparr>))"

subsection \<open>Capture\<close>

definition DecisionPermit :: string where "DecisionPermit = ''permit''"
definition DecisionDeny :: string where "DecisionDeny = ''deny''"
definition DecisionNoMatch :: string where "DecisionNoMatch = ''no_match''"
definition DecisionError :: string where "DecisionError = ''error''"

definition decisionLabel :: "string \<Rightarrow> PolicyResult \<Rightarrow> string" where
  "decisionLabel apiName decision =
     (if apiName = [] then DecisionNoMatch else if decision = Permit then DecisionPermit else DecisionDeny)"

record recorderHook =
  hk_rec :: bool
  hk_id :: EventID
  hk_started :: int
  hk_method :: string
  hk_url :: string
  hk_headers :: "KV list"
  hk_subject :: string
  hk_api :: string
  hk_decision :: string
  hk_action :: string
  hk_policy :: string
  hk_fetches :: "MetaFetch list"
  hk_policyEvals :: "PolicyEvaluation list"
  hk_forwardedStatus :: int
  hk_forwarded :: bool
  hk_errMsg :: string

definition getRequestAPI :: "string \<Rightarrow> string" where
  "getRequestAPI path =
     (if HasPrefix path ''/_admin'' then ''admin'' else if HasPrefix path ''/_api/mcp'' then ''mcp'' else [])"

definition isSensitiveHeader :: "string \<Rightarrow> bool" where
  "isSensitiveHeader name \<longleftrightarrow> ToLower name \<in> set [''authorization'', ''cookie'', ''set-cookie'', ''proxy-authorization'']"

definition cloneRequestHeaders :: "headers \<Rightarrow> KV list" where
  "cloneRequestHeaders h =
     sort_key (\<lambda>kv. (ToLower (kv_Key kv), kv_Value kv))
       (concat (map (\<lambda>(k, vs). if isSensitiveHeader k then [] else map (\<lambda>v. \<lparr>kv_Key = k, kv_Value = v\<rparr>) vs) h))"

definition sanitizeURL :: "httplib \<Rightarrow> string \<Rightarrow> string" where
  "sanitizeURL H raw =
     (case hl_requestURI H raw of
        None \<Rightarrow> raw
      | Some (path, query) \<Rightarrow> if query = [] then raw else path @ ''?'' @ redactQuery query)"

definition newRecorderHook :: "httplib \<Rightarrow> EventID \<Rightarrow> int \<Rightarrow> Server \<Rightarrow> HTTPRequest \<Rightarrow> recorderHook" where
  "newRecorderHook H i now sv r =
     (if \<not> s_recorder sv then
        \<lparr>hk_rec = False, hk_id = [], hk_started = zeroTime, hk_method = [], hk_url = [], hk_headers = [], hk_subject = [],
         hk_api = [], hk_decision = [], hk_action = [], hk_policy = [], hk_fetches = [], hk_policyEvals = [],
         hk_forwardedStatus = 0, hk_forwarded = False, hk_errMsg = []\<rparr>
      else
        \<lparr>hk_rec = True, hk_id = i, hk_started = now, hk_method = r_Method r, hk_url = sanitizeURL H (r_RequestURI r),
         hk_headers = cloneRequestHeaders (r_Header r), hk_subject = [], hk_api = getRequestAPI (r_Path r),
         hk_decision = DecisionError, hk_action = [], hk_policy = [], hk_fetches = [], hk_policyEvals = [],
         hk_forwardedStatus = 0, hk_forwarded = False, hk_errMsg = []\<rparr>)"

definition marshalStructpb :: "codecs \<Rightarrow> json option \<Rightarrow> string" where
  "marshalStructpb C v = (case v of None \<Rightarrow> [] | Some j \<Rightarrow> (case cd_marshal C j of None \<Rightarrow> [] | Some s \<Rightarrow> s))"

definition onFetch :: "httplib \<Rightarrow> callrec \<Rightarrow> err + Response option \<Rightarrow> MetaFetch" where
  "onFetch H c res =
     (let f = \<lparr>mf_Meta = cr_meta c, mf_API = cr_api c, mf_Method = mr_method (cr_req c), mf_Path = mr_path (cr_req c),
               mf_RequestBody = marshalStructpb (hl_codecs H) (mr_body (cr_req c)), mf_Status = 0, mf_ResponseBody = [],
               mf_LatencyMS = 0, mf_Error = []\<rparr>
      in case res of
           Inr resp \<Rightarrow> f\<lparr>mf_Status := 200,
             mf_ResponseBody := marshalStructpb (hl_codecs H) (case resp of None \<Rightarrow> None | Some x \<Rightarrow> resp_body x)\<rparr>
         | Inl e \<Rightarrow> f\<lparr>mf_Error := hl_errText H e,
             mf_Status := (case upstream_status e of None \<Rightarrow> 0 | Some st \<Rightarrow> int st)\<rparr>)"

text \<open>The side calls of an evaluation, in order, each with the answer the world gave after the earlier ones.\<close>

fun observed_fetches :: "httplib \<Rightarrow> world \<Rightarrow> callrec list \<Rightarrow> callrec list \<Rightarrow> MetaFetch list" where
  "observed_fetches H w done_calls [] = []"
| "observed_fetches H w done_calls (c # cs) =
     onFetch H c (w_call w done_calls (cr_api c) (cr_req c)) # observed_fetches H w (done_calls @ [c]) cs"

definition onConditionEval :: "httplib \<Rightarrow> condEval \<Rightarrow> PolicyEvaluation" where
  "onConditionEval H ev =
     \<lparr>pe_Policy = cp_Name (ce_policy ev), pe_Action = ce_action ev,
      pe_Result = (if cp_Result (ce_policy ev) = Permit then ''permit'' else ''deny''),
      pe_Fired = ce_fired ev, pe_Error = (case ce_err ev of None \<Rightarrow> [] | Some e \<Rightarrow> hl_errText H e)\<rparr>"

definition onFiring :: "condEval list \<Rightarrow> recorderHook \<Rightarrow> recorderHook" where
  "onFiring evs hk =
     (case filter ce_fired evs of
        [] \<Rightarrow> hk
      | ev # _ \<Rightarrow> hk\<lparr>hk_action := ce_action ev, hk_policy := cp_Name (ce_policy ev)\<rparr>)"

definition observe :: "httplib \<Rightarrow> world \<Rightarrow> condEval list \<Rightarrow> estate \<Rightarrow> recorderHook \<Rightarrow> recorderHook" where
  "observe H w evs st hk =
     (if \<not> hk_rec hk then hk
      else onFiring evs (hk\<lparr>hk_fetches := observed_fetches H w [] (es_calls st), hk_policyEvals := map (onConditionEval H) evs\<rparr>))"

text \<open>The event \<open>commit\<close> records, if any; the firing action's binds and the latency are arguments.\<close>

definition commit :: "ResolvedBind list \<Rightarrow> int \<Rightarrow> recorderHook \<Rightarrow> Event option" where
  "commit binds latency hk =
     (if \<not> hk_rec hk then None
      else if hk_decision hk = DecisionNoMatch then None
      else Some \<lparr>ev_ID = hk_id hk, ev_Timestamp = hk_started hk, ev_Subject = hk_subject hk, ev_Method = hk_method hk,
                 ev_URL = hk_url hk, ev_RequestHeaders = hk_headers hk, ev_RequestBody = [],
                 ev_API = (if hk_api hk = [] then ''unknown'' else hk_api hk), ev_Action = hk_action hk, ev_Binds = binds,
                 ev_MetaFetches = hk_fetches hk, ev_Decision = hk_decision hk, ev_Policy = hk_policy hk,
                 ev_PolicyEvaluations = hk_policyEvals hk,
                 ev_UpstreamStatus = (if hk_forwarded hk then hk_forwardedStatus hk else 0), ev_UpstreamHeaders = [],
                 ev_UpstreamBody = [], ev_LatencyMS = latency, ev_Error = hk_errMsg hk, ev_Truncated = False\<rparr>)"

subsection \<open>The handler\<close>

text \<open>
  A plain error reply, a structured denial (wire status, semantic status, API, matched actions, and
  whether the \<open>WWW-Authenticate\<close> header is set), or the upstream's response.
\<close>

datatype reply =
    Failure int
  | Denial int int string "string list" bool
  | Relayed int headers

definition classifyEvalError :: "err \<Rightarrow> int" where
  "classifyEvalError e =
     (case upstream_status e of
        None \<Rightarrow> 403
      | Some st \<Rightarrow> if st = 401 then 401 else if st = 403 then 403 else if st = 404 then 404 else 502)"

definition handleEvalError :: "Server \<Rightarrow> string \<Rightarrow> err \<Rightarrow> reply" where
  "handleEvalError sv apiName e =
     (let semantic = classifyEvalError e in Denial (deniedStatusFor sv apiName semantic) semantic apiName [] False)"

record outcome =
  oc_reply :: reply
  oc_upstream :: "outreq option"
  oc_hook :: recorderHook

definition forward ::
  "transport \<Rightarrow> HTTPRequest \<Rightarrow> string \<Rightarrow> AccessCreds \<Rightarrow> url \<Rightarrow> recorderHook \<Rightarrow> outcome" where
  "forward T r body creds baseURL hk =
     (case forward_request T r body creds baseURL of
        Inl e \<Rightarrow> \<lparr>oc_reply = Failure 502, oc_upstream = None, oc_hook = hk\<lparr>hk_errMsg := ''upstream''\<rparr>\<rparr>
      | Inr out \<Rightarrow>
          (case tr_Do T out of
             Inl e \<Rightarrow> \<lparr>oc_reply = Failure 502, oc_upstream = Some out, oc_hook = hk\<lparr>hk_errMsg := ''upstream''\<rparr>\<rparr>
           | Inr (status, hdrs, body') \<Rightarrow>
               \<lparr>oc_reply = Relayed status (copy_headers hdrs []), oc_upstream = Some out,
                oc_hook = hk\<lparr>hk_forwarded := True, hk_forwardedStatus := status,
                             hk_errMsg := (if body' = None then ''response stream truncated'' else hk_errMsg hk)\<rparr>\<rparr>))"

definition stop :: "reply \<Rightarrow> recorderHook \<Rightarrow> outcome" where
  "stop rep hk = \<lparr>oc_reply = rep, oc_upstream = None, oc_hook = hk\<rparr>"

definition handle_permitted ::
  "transport \<Rightarrow> Server \<Rightarrow> HTTPRequest \<Rightarrow> string \<Rightarrow> AccessCreds \<Rightarrow> string \<Rightarrow> recorderHook \<Rightarrow> outcome" where
  "handle_permitted T sv r body creds apiName hk =
     (case upstreamFor sv apiName of
        Inl e \<Rightarrow> stop (Failure 500) (hk\<lparr>hk_errMsg := ''upstream lookup''\<rparr>)
      | Inr base \<Rightarrow> forward T r body creds base hk)"

definition handle_evaluated ::
  "transport \<Rightarrow> Server \<Rightarrow> HTTPRequest \<Rightarrow> Request \<Rightarrow> string \<Rightarrow> AccessCreds \<Rightarrow> string \<Rightarrow> PolicyResult \<Rightarrow> recorderHook \<Rightarrow> outcome" where
  "handle_evaluated T sv r req body creds apiName decision hk0 =
     (let hk = hk0\<lparr>hk_api := apiName, hk_decision := decisionLabel apiName decision\<rparr>
      in if apiName = [] then stop (Denial 404 404 [] [] False) hk
         else if decision \<noteq> Permit then
           stop (Denial (deniedStatusFor sv apiName 403) 403 apiName
             (case snd (Runtime_MatchedActions (s_world sv creds) (s_runtime sv) req) of Inl _ \<Rightarrow> [] | Inr as \<Rightarrow> as) False) hk
         else handle_permitted T sv r body creds apiName hk)"

definition handle ::
  "crypto \<Rightarrow> httplib \<Rightarrow> transport \<Rightarrow> EventID \<Rightarrow> int \<Rightarrow> Server \<Rightarrow> HTTPRequest \<Rightarrow> outcome" where
  "handle L H T i now sv r =
     (let hk = newRecorderHook H i now sv r
      in case SplitEscapedPath (r_EscapedPath r) of
           Inl e \<Rightarrow> stop (Failure 400) (hk\<lparr>hk_errMsg := ''parse path''\<rparr>)
         | Inr pathSegs \<Rightarrow>
             (let matchedAPI = APIForSegments (s_runtime sv) pathSegs
              in case authenticateOrAnonymous L now sv r matchedAPI of
                   Inl e \<Rightarrow>
                     (let wire = deniedStatusFor sv matchedAPI 401
                      in stop (Denial wire 401 [] [] (wire = 401)) (hk\<lparr>hk_errMsg := ''unauthorized''\<rparr>))
                 | Inr tok \<Rightarrow>
                     (let subject = (case tok of None \<Rightarrow> [] | Some t \<Rightarrow> at_Subject t);
                          creds = (case tok of None \<Rightarrow> \<lparr>ac_AccessToken = [], ac_Headers = []\<rparr> | Some t \<Rightarrow> at_Creds t);
                          hk1 = hk\<lparr>hk_subject := subject\<rparr>
                      in case r_Body r of
                           None \<Rightarrow> stop (Failure 500) (hk1\<lparr>hk_errMsg := ''read body''\<rparr>)
                         | Some body \<Rightarrow>
                             (if length body > MaxRequestBodyBytes then
                                stop (Failure 413) (hk1\<lparr>hk_errMsg := ''request body too large''\<rparr>)
                              else (case buildPolicyRequest H r pathSegs body of
                                      Inl e \<Rightarrow> stop (Failure 400) (hk1\<lparr>hk_errMsg := hl_errText H e\<rparr>)
                                    | Inr req \<Rightarrow>
                                        (case Runtime_Evaluate (s_world sv creds) (s_runtime sv) req
                                                (Some (buildPrincipal subject (tok = None))) now of
                                           (apiName, (decision, e), evs, st) \<Rightarrow>
                                             (let hk2 = observe H (s_world sv creds) evs st hk1
                                              in case e of
                                                   Some er \<Rightarrow> stop (handleEvalError sv apiName er) (hk2\<lparr>hk_errMsg := hl_errText H er\<rparr>)
                                                 | None \<Rightarrow> handle_evaluated T sv r req body creds apiName decision hk2)))))))"

subsection \<open>Concrete instance\<close>

definition ex_base :: url where
  "ex_base = \<lparr>u_Scheme = ''https'', u_Host = ''d'', u_Path = ''/v1'', u_RawPath = [], u_RawQuery = [], u_Fragment = []\<rparr>"

definition ex_url_api :: "url APIRuntime" where
  "ex_url_api =
     \<lparr>ar_name = ''d'', ar_baseURL = ''https://d/v1'', ar_parsedBaseURL = ex_base, ar_accessDeniedStatus = 0,
      ar_authOptional = False, ar_registry = [(''d.file'', ex_file)], ar_metas = [''d.file'' \<mapsto> ex_meta],
      ar_actions = ar_actions ex_api, ar_store = ar_store ex_api\<rparr>"

definition ex_creds :: AccessCreds where "ex_creds = \<lparr>ac_AccessToken = ''up'', ac_Headers = []\<rparr>"

definition ex_claims :: jwtClaims where
  "ex_claims = issued_claims 5 ''alice'' typAccess (ex_nonce @ [1]) (Some (60 * second)) False"

definition ex_L :: crypto where "ex_L = ex_crypto [ex_claims] [ex_creds] []"

definition ex_log :: "issue list" where "ex_log = [IssuedAccess ex_nonce 5 ''alice'' ex_creds (60 * second) False]"

definition ex_server :: Server where
  "ex_server =
     \<lparr>s_runtime = \<lparr>rt_registry = [(''d.file'', ex_file)], rt_apis = [(''d'', ex_url_api)], rt_specs = [], rt_metas = Map.empty,
        rt_routes = [\<lparr>r_segments = [''d''], r_apiName = ''d'', r_source = ''/d''\<rparr>]\<rparr>,
      s_keys = ex_keys, s_world = (\<lambda>_. ex_world), s_recorder = True\<rparr>"

definition ex_request :: HTTPRequest where
  "ex_request =
     \<lparr>r_Method = ''GET'', r_EscapedPath = ''/d/files/7'', r_Path = ''/d/files/7'', r_RawQuery = [],
      r_RequestURI = ''/d/files/7'', r_Header = [(''Authorization'', [''Bearer '']), (''Cookie'', [''a=b'']), (''X-Id'', [''1''])],
      r_Body = Some []\<rparr>"

definition ex_http :: httplib where
  "ex_http =
     \<lparr>hl_codecs = \<lparr>cd_marshal = (\<lambda>_. None), cd_unmarshal = (\<lambda>_. None), cd_newValue = Some, cd_number = id\<rparr>,
      hl_mediaType = (\<lambda>s. (s, [])), hl_parts = (\<lambda>_ _. ([], True)), hl_requestURI = (\<lambda>s. Some (s, [])), hl_errText = (\<lambda>_. ''error'')\<rparr>"

definition ex_transport :: transport where
  "ex_transport = \<lparr>tr_NewRequest = (\<lambda>_ _. True), tr_Do = (\<lambda>_. Inr (200, [(''Set-Cookie'', [''s=1''])], Some []))\<rparr>"

section \<open>The example's library\<close>

lemma ex_L_laws:
  "jwt_unforgeable ex_L (k_Signing (s_keys ex_server)) (issued_set ex_L (s_keys ex_server) ex_log)"
  "aead_roundtrip ex_L" "json_creds_roundtrip ex_L" "keys_ok ex_L (s_keys ex_server)" "log_ok ex_log"
proof -
  have keys: "s_keys ex_server = ex_keys" by (simp add: ex_server_def)
  have "([], ex_claims) \<in> issued_set ex_L ex_keys ex_log"
    by (simp add: issued_set_def ex_log_def IssueAccess_Inr) (simp add: ex_L_def ex_crypto_def ex_keys_def ex_claims_def)
  then show "jwt_unforgeable ex_L (k_Signing (s_keys ex_server)) (issued_set ex_L (s_keys ex_server) ex_log)"
    unfolding keys ex_keys_def ServerKeys.select_convs unfolding ex_L_def
    by (intro ex_crypto_unforgeable) (auto simp: at_index_def split: if_splits)
  show "aead_roundtrip ex_L" "json_creds_roundtrip ex_L" "keys_ok ex_L (s_keys ex_server)"
    unfolding keys ex_L_def by (fact ex_crypto_laws)+
  show "log_ok ex_log" by (simp add: log_ok_def ex_log_def ex_nonce_def NonceSize_def)
qed

lemma CutPrefix_Some: "CutPrefix s p = Some t \<longleftrightarrow> s = p @ t"
  by (auto simp: CutPrefix_def HasPrefix_def) (metis append_take_drop_id)

section \<open>Headers of the forwarded request\<close>

text \<open>A header that is copied from one side to the other has a name on neither list.\<close>

lemma copy_values_source:
  "map_of (fold (\<lambda>v o'. Header_Add name v o') vals out) k = Some vs \<Longrightarrow>
     map_of out k = Some vs \<or> k = CanonicalMIMEHeaderKey name"
proof (induction vals arbitrary: out)
  case (Cons v vals)
  from Cons.IH [of "Header_Add name v out"] Cons.prems show ?case
    by (auto simp: map_of_Header_Add split: if_splits)
qed simp

lemma copy_headers_source:
  assumes "map_of (copy_headers src []) k = Some vs"
  shows "\<not> shouldStripForwarded k \<and> (\<exists>name \<in> fst ` set src. k = CanonicalMIMEHeaderKey name \<and> name \<notin> set (connectionNamedHeaders src))"
proof -
  let ?step = "\<lambda>(name, vals) out. if shouldStripForwarded name \<or> name \<in> set (connectionNamedHeaders src) then out
      else fold (\<lambda>v o'. Header_Add name v o') vals out"
  have "map_of (fold ?step hs out) k = Some vs \<Longrightarrow> map_of out k = Some vs
      \<or> (\<exists>name \<in> fst ` set hs. \<not> shouldStripForwarded name \<and> name \<notin> set (connectionNamedHeaders src) \<and> k = CanonicalMIMEHeaderKey name)"
    for hs out
  proof (induction hs arbitrary: out)
    case (Cons x hs)
    obtain name vals where x: "x = (name, vals)" by force
    show ?case
    proof (cases "shouldStripForwarded name \<or> name \<in> set (connectionNamedHeaders src)")
      case True
      then show ?thesis using Cons.IH [of out] Cons.prems by (auto simp: x)
    next
      case False
      then show ?thesis
        using Cons.IH [of "fold (\<lambda>v o'. Header_Add name v o') vals out"] Cons.prems copy_values_source [of name vals out k vs]
        by (auto simp: x)
    qed
  qed simp
  from this [of src "[]"] assms show ?thesis by (auto simp: copy_headers_def shouldStripForwarded_def)
qed

lemma applyCredentials_source:
  assumes "map_of (applyCredentials creds h) k = Some vs"
  shows "map_of h k = Some vs
    \<or> (k = ''Authorization'' \<and> ac_AccessToken creds \<noteq> [] \<and> vs = [''Bearer '' @ ac_AccessToken creds])
    \<or> (\<exists>x \<in> set (ac_Headers creds). k = CanonicalMIMEHeaderKey (hd_Name x) \<and> vs = [hd_Value x])"
proof -
  have "CanonicalMIMEHeaderKey ''Authorization'' = ''Authorization''" by code_simp
  then show ?thesis using set_headers_source [OF assms [unfolded applyCredentials_def]]
    by (auto simp: map_of_Header_Set split: if_splits)
qed

text \<open>
  C11: credentials and routing headers never cross the proxy.  Every header of the request sent upstream
  either was bundled into the caller's token by its issuer, or is the token's bearer credential, or is
  a header of the client whose name is neither on the list of stripped names (authorization, cookies,
  hop-by-hop, forwarding headers, in any case) nor declared hop-by-hop by the client's Connection
  header; and the response relayed to the client has no header with a stripped name.
\<close>

theorem forward_header_hygiene:
  assumes "forward_request T r body creds base = Inr out"
  shows "(\<forall>k vs. map_of (o_Header out) k = Some vs \<longrightarrow>
      (\<exists>x \<in> set (ac_Headers creds). k = CanonicalMIMEHeaderKey (hd_Name x) \<and> vs = [hd_Value x])
      \<or> (k = ''Authorization'' \<and> ac_AccessToken creds \<noteq> [] \<and> vs = [''Bearer '' @ ac_AccessToken creds])
      \<or> (\<not> shouldStripForwarded k \<and> (\<exists>name \<in> fst ` set (r_Header r). k = CanonicalMIMEHeaderKey name
            \<and> name \<notin> set (connectionNamedHeaders (r_Header r)))))
    \<and> (\<forall>hk status hdrs. oc_reply (forward T r body creds base hk) = Relayed status hdrs \<longrightarrow>
         (\<forall>k vs. map_of hdrs k = Some vs \<longrightarrow> \<not> shouldStripForwarded k))"
proof (intro conjI allI impI)
  fix k vs assume "map_of (o_Header out) k = Some vs"
  then have "map_of (applyCredentials creds (copy_headers (r_Header r) [])) k = Some vs"
    using assms by (auto simp: forward_request_def Let_def split: sum.splits if_splits)
  from applyCredentials_source [OF this] copy_headers_source [of "r_Header r" k vs]
  show "(\<exists>x \<in> set (ac_Headers creds). k = CanonicalMIMEHeaderKey (hd_Name x) \<and> vs = [hd_Value x])
      \<or> (k = ''Authorization'' \<and> ac_AccessToken creds \<noteq> [] \<and> vs = [''Bearer '' @ ac_AccessToken creds])
      \<or> (\<not> shouldStripForwarded k \<and> (\<exists>name \<in> fst ` set (r_Header r). k = CanonicalMIMEHeaderKey name
            \<and> name \<notin> set (connectionNamedHeaders (r_Header r))))" by blast
next
  fix hk status hdrs k vs
  assume "oc_reply (forward T r body creds base hk) = Relayed status hdrs" "map_of hdrs k = Some vs"
  then obtain h where "map_of (copy_headers h []) k = Some vs"
    by (auto simp: forward_def split: sum.splits prod.splits)
  from copy_headers_source [OF this] show "\<not> shouldStripForwarded k" by blast
qed

section \<open>The handler\<close>

lemma forward_upstream:
  "oc_upstream (forward T r body creds base hk) = Some out \<Longrightarrow> forward_request T r body creds base = Inr out"
  by (auto simp: forward_def split: sum.splits prod.splits)

lemma handle_upstream:
  assumes "oc_upstream (handle L H T i now sv r) = Some out"
  obtains pathSegs tok body req apiName evs st a where
    "SplitEscapedPath (r_EscapedPath r) = Inr pathSegs"
    "authenticateOrAnonymous L now sv r (APIForSegments (s_runtime sv) pathSegs) = Inr tok"
    "r_Body r = Some body" "length body \<le> MaxRequestBodyBytes" "buildPolicyRequest H r pathSegs body = Inr req"
    "Runtime_Evaluate (s_world sv (case tok of None \<Rightarrow> \<lparr>ac_AccessToken = [], ac_Headers = []\<rparr> | Some t \<Rightarrow> at_Creds t))
       (s_runtime sv) req (Some (buildPrincipal (case tok of None \<Rightarrow> [] | Some t \<Rightarrow> at_Subject t) (tok = None))) now
       = (apiName, (Permit, None), evs, st)"
    "apiName \<noteq> []" "API_get (s_runtime sv) apiName = Some a"
    "forward_request T r body (case tok of None \<Rightarrow> \<lparr>ac_AccessToken = [], ac_Headers = []\<rparr> | Some t \<Rightarrow> at_Creds t) (ar_parsedBaseURL a) = Inr out"
  using assms
  by (auto simp: handle_def handle_evaluated_def handle_permitted_def upstreamFor_def stop_def Let_def not_less
      split: sum.splits option.splits if_splits prod.splits dest!: forward_upstream)

text \<open>
  The query string is parsed for the policies but forwarded as it was sent: a malformed pair, dropped
  by the parser, is invisible to every policy and still reaches the upstream.
\<close>

lemma dropped_query_forwarded:
  assumes "r_RawQuery r = ''a=1;b=2''" "buildPolicyRequest H r segs body = Inr req" "forward_request T r body creds base = Inr out"
  shows "req_query req = [] \<and> u_RawQuery (o_URL out) = ''a=1;b=2''"
proof -
  have "values_pairs (snd (ParseQuery ''a=1;b=2'')) = []" by code_simp
  with assms show ?thesis
    by (auto simp: buildPolicyRequest_def forward_request_def Let_def split: sum.splits if_splits)
qed

text \<open>A header that an observer may not see never enters the captured event, whatever the outcome.\<close>

lemma clone_no_secrets: "kv \<in> set (cloneRequestHeaders h) \<Longrightarrow> \<not> isSensitiveHeader (kv_Key kv)"
  by (auto simp: cloneRequestHeaders_def split: if_splits)

lemma forward_hook_headers: "hk_headers (oc_hook (forward T r body creds base hk)) = hk_headers hk"
  by (auto simp: forward_def split: sum.split prod.split)

lemma observe_headers: "hk_headers (observe H w evs st hk) = hk_headers hk"
  by (auto simp: observe_def onFiring_def split: list.split)

lemma handle_hook_headers:
  "hk_headers (oc_hook (handle L H T i now sv r)) = hk_headers (newRecorderHook H i now sv r)"
  by (auto simp: handle_def handle_evaluated_def handle_permitted_def stop_def Let_def observe_headers forward_hook_headers
      split: sum.split option.split prod.split)

lemma captured_headers_safe:
  assumes "commit binds lat (oc_hook (handle L H T i now sv r)) = Some ev" "kv \<in> set (ev_RequestHeaders ev)"
  shows "\<not> isSensitiveHeader (kv_Key kv)"
proof -
  have "kv \<in> set (hk_headers (newRecorderHook H i now sv r))"
    using assms by (auto simp: commit_def handle_hook_headers split: if_splits)
  then show ?thesis by (auto simp: newRecorderHook_def Let_def dest: clone_no_secrets split: if_splits)
qed

text \<open>The example request is answered by the upstream of the example API.\<close>

lemma ex_forwarded: "oc_upstream (handle ex_L ex_http ex_transport [] second ex_server ex_request) \<noteq> None"
proof -
  let ?tok = "\<lparr>at_Subject = ''alice'', at_Creds = ex_creds, at_Admin = False\<rparr>"
  let ?req = "\<lparr>req_method = ''GET'', req_path = ''/d/files/7'', req_path_segments = [''d'', ''files'', ''7''], req_query = [], req_body = None\<rparr>"
  let ?prn = "Some (buildPrincipal ''alice'' False)"
  let ?R = "Runtime_Evaluate (s_world ex_server ex_creds) (s_runtime ex_server) ?req ?prn second"
  have "SplitEscapedPath (r_EscapedPath ex_request) = Inr [''d'', ''files'', ''7'']" by code_simp
  moreover have "authenticateOrAnonymous ex_L second ex_server ex_request (APIForSegments (s_runtime ex_server) [''d'', ''files'', ''7'']) = Inr (Some ?tok)"
    by code_simp
  moreover have "r_Body ex_request = Some []" by code_simp
  moreover have "buildPolicyRequest ex_http ex_request [''d'', ''files'', ''7''] [] = Inr ?req" by code_simp
  moreover have "fst ?R = ''d'' \<and> fst (snd ?R) = (Permit, None)" by code_simp
  then obtain evs st where "?R = (''d'', (Permit, None), evs, st)" by (metis prod.collapse)
  moreover have "API_get (s_runtime ex_server) ''d'' = Some ex_url_api" by (simp add: ex_server_def API_get_def)
  moreover have "is_ok (forward_request ex_transport ex_request [] ex_creds (ar_parsedBaseURL ex_url_api))" by code_simp
  then obtain out where "forward_request ex_transport ex_request [] ex_creds (ar_parsedBaseURL ex_url_api) = Inr out"
    by (auto simp: is_ok_def split: sum.splits)
  ultimately show ?thesis
    by (simp add: handle_def Let_def handle_evaluated_def handle_permitted_def upstreamFor_def forward_def ex_transport_def
        del: One_nat_def split: prod.split)
qed

theorem forward_header_hygiene_witness:
  "\<exists>out. forward_request ex_transport ex_request [] ex_creds ex_base = Inr out
     \<and> map_of (o_Header out) ''X-Id'' = Some [''1''] \<and> map_of (o_Header out) ''Cookie'' = None
     \<and> map_of (o_Header out) ''Authorization'' = Some [''Bearer up'']"
proof -
  let ?out = "forward_request ex_transport ex_request [] ex_creds ex_base"
  have "is_ok ?out" by code_simp
  then obtain out where out: "?out = Inr out" by (auto simp: is_ok_def split: sum.splits)
  have "map_of (o_Header (projr ?out)) ''X-Id'' = Some [''1'']" "map_of (o_Header (projr ?out)) ''Authorization'' = Some [''Bearer up'']"
    by code_simp+
  moreover have "shouldStripForwarded ''Cookie''" "ac_Headers ex_creds = []" by code_simp+
  then have "map_of (o_Header out) ''Cookie'' \<noteq> Some vs" for vs
    using conjunct1 [OF forward_header_hygiene [OF out], rule_format, of "''Cookie''" vs] by auto
  then have "map_of (o_Header out) ''Cookie'' = None" by (cases "map_of (o_Header out) ''Cookie''") auto
  ultimately show ?thesis unfolding out by simp
qed

end
