(* ===== verification/AdminGate.thy ===== *)
theory AdminGate
  imports Proxy
begin

text \<open>
  Who may use the control plane: the admin package's response helpers (\<^verbatim>\<open>response.go\<close>, \<^verbatim>\<open>denial.go\<close>), the two
  middlewares (\<^verbatim>\<open>auth.go\<close>, \<^verbatim>\<open>internal_policy.go\<close>), the embedded policy sets (\<^verbatim>\<open>internal_apis/embed.go\<close>),
  the password login (\<^verbatim>\<open>login.go\<close>) and \<^verbatim>\<open>whoami.go\<close>.  The cookie parser of the HTTP library, bcrypt, the
  YAML and JSON decoders and the embedded files are arguments.
\<close>

section \<open>Definitions\<close>

subsection \<open>Responses\<close>

text \<open>\<^verbatim>\<open>http.StatusText\<close> on the codes the package writes.\<close>

definition StatusText :: "int \<Rightarrow> string" where
  "StatusText c =
     (case map_of [(200, ''OK''), (201, ''Created''), (204, ''No Content''), (303, ''See Other''), (400, ''Bad Request''),
                   (401, ''Unauthorized''), (403, ''Forbidden''), (404, ''Not Found''), (409, ''Conflict''),
                   (413, ''Request Entity Too Large''), (500, ''Internal Server Error''), (502, ''Bad Gateway''),
                   (503, ''Service Unavailable'')] c of
        None \<Rightarrow> [] | Some t \<Rightarrow> t)"

record errorBody =
  eb_Error :: string
  eb_Message :: string

record DenialNextSteps =
  ns_SupportedAPIs :: string
  ns_Policies :: string
  ns_Docs :: string
  ns_DocsPolicies :: string

record DenialResponse =
  dr_Ok :: bool
  dr_Error :: string
  dr_Message :: string
  dr_API :: string
  dr_MatchedActions :: "string list"
  dr_NextSteps :: DenialNextSteps

record Cookie =
  co_Name :: string
  co_Value :: string
  co_Path :: string
  co_Expires :: int
  co_MaxAge :: int
  co_HttpOnly :: bool
  co_Secure :: bool
  co_SameSiteStrict :: bool

datatype 'b payload = Value 'b | ErrorBody errorBody | DenialBody DenialResponse | Empty

record 'b http_response =
  hr_Status :: int
  hr_Location :: string
  hr_Cookies :: "Cookie list"
  hr_Body :: "'b payload"

definition writeJSONError :: "string \<Rightarrow> int \<Rightarrow> 'b http_response" where
  "writeJSONError message status =
     \<lparr>hr_Status = status, hr_Location = [], hr_Cookies = [],
      hr_Body = ErrorBody \<lparr>eb_Error = StatusText status, eb_Message = message\<rparr>\<rparr>"

text \<open>
  The bodies are strings, numbers, booleans and times of the server's clock, on which marshalling cannot
  fail; a \<^verbatim>\<open>Location\<close> with a line break is refused.
\<close>

definition writeJSONStatus :: "int \<Rightarrow> string \<Rightarrow> 'b payload \<Rightarrow> 'b http_response" where
  "writeJSONStatus status location v =
     (if location \<noteq> [] \<and> (CHR 0x0D \<in> set location \<or> CHR 0x0A \<in> set location)
      then writeJSONError ''internal error'' 500
      else \<lparr>hr_Status = status, hr_Location = location, hr_Cookies = [], hr_Body = v\<rparr>)"

definition writeJSON :: "'b \<Rightarrow> 'b http_response" where
  "writeJSON v = writeJSONStatus 200 [] (Value v)"

definition writeHeader :: "int \<Rightarrow> 'b http_response" where
  "writeHeader status = \<lparr>hr_Status = status, hr_Location = [], hr_Cookies = [], hr_Body = Empty\<rparr>"

definition APIsPath :: string where "APIsPath = ''/_api/apis''"
definition PoliciesPath :: string where "PoliciesPath = ''/_api/policies''"
definition DocsPath :: string where "DocsPath = ''/_api/docs''"
definition DocsPoliciesPath :: string where "DocsPoliciesPath = ''/_api/docs/policies''"

definition writeDenial :: "int \<Rightarrow> int \<Rightarrow> string \<Rightarrow> string \<Rightarrow> string list \<Rightarrow> 'b http_response" where
  "writeDenial wireStatus semanticStatus message api matchedActions =
     writeJSONStatus wireStatus [] (DenialBody
       \<lparr>dr_Ok = False, dr_Error = StatusText semanticStatus, dr_Message = message, dr_API = api,
        dr_MatchedActions = matchedActions,
        dr_NextSteps = \<lparr>ns_SupportedAPIs = APIsPath, ns_Policies = PoliciesPath, ns_Docs = DocsPath,
                        ns_DocsPolicies = DocsPoliciesPath\<rparr>\<rparr>)"

definition WriteDenial :: "int \<Rightarrow> string \<Rightarrow> 'b http_response" where
  "WriteDenial status message = writeDenial status status message [] []"

definition WriteDenialRemapped :: "int \<Rightarrow> int \<Rightarrow> string \<Rightarrow> string \<Rightarrow> string list \<Rightarrow> 'b http_response" where
  "WriteDenialRemapped wireStatus semanticStatus message api matchedActions =
     writeDenial wireStatus semanticStatus message api matchedActions"

text \<open>
  Errors of a handler: the two of the body decoder, or one of the service behind it.  A decoder run on
  a capped body ends at once, hits the cap, finds bad JSON, or yields a value.
\<close>

datatype 'e handler_error = BodyTooLarge | DecodeError string | ServiceError 'e

datatype 'a decoded = DEnd | DTooLarge | DBad string | DValue 'a

record 'e errMap =
  em_is :: "'e \<Rightarrow> bool"
  em_status :: int
  em_msg :: string

definition writeMappedError :: "('e \<Rightarrow> string) \<Rightarrow> 'e handler_error \<Rightarrow> 'e errMap list \<Rightarrow> 'b http_response" where
  "writeMappedError errText err table =
     (case err of
        BodyTooLarge \<Rightarrow> writeJSONError ''body too large'' 413
      | DecodeError m \<Rightarrow> writeJSONError (''invalid JSON: '' @ m) 400
      | ServiceError e \<Rightarrow>
          (case find (\<lambda>m. em_is m e) table of
             Some m \<Rightarrow> writeJSONError (if em_msg m = [] then errText e else em_msg m) (em_status m)
           | None \<Rightarrow> writeJSONError ''server error'' 500))"

definition decodeJSONBody :: "'a decoded \<Rightarrow> 'a \<Rightarrow> 'e handler_error + 'a" where
  "decodeJSONBody d zero =
     (case d of
        DEnd \<Rightarrow> Inr zero | DTooLarge \<Rightarrow> Inl BodyTooLarge | DBad m \<Rightarrow> Inl (DecodeError m) | DValue v \<Rightarrow> Inr v)"

subsection \<open>Authentication\<close>

definition AdminCookieName :: string where "AdminCookieName = ''bouncer_admin''"

type_synonym cookie_parser = "headers \<Rightarrow> string \<Rightarrow> string option"

definition bearerOrCookie :: "cookie_parser \<Rightarrow> HTTPRequest \<Rightarrow> string" where
  "bearerOrCookie cookies r =
     (let h = Header_Get (r_Header r) ''Authorization''
      in if h \<noteq> [] then
           (case CutPrefix h ''Bearer '' of None \<Rightarrow> [] | Some rest \<Rightarrow> TrimSpace rest)
         else (case cookies (r_Header r) AdminCookieName of Some v \<Rightarrow> v | None \<Rightarrow> []))"

definition roleFor :: "bool \<Rightarrow> Role" where
  "roleFor admin = (if admin then RoleAdmin else RoleUser)"

definition AuthMiddleware :: "crypto \<Rightarrow> cookie_parser \<Rightarrow> int \<Rightarrow> ServerKeys option \<Rightarrow> HTTPRequest \<Rightarrow> Caller" where
  "AuthMiddleware L cookies now keys r =
     (case keys of
        None \<Rightarrow> anonymousCaller
      | Some k \<Rightarrow>
          (let jwt = bearerOrCookie cookies r
           in if jwt = [] then anonymousCaller
              else (case VerifyAccessToken L now k jwt of
                      Inl e \<Rightarrow> anonymousCaller
                    | Inr tok \<Rightarrow> \<lparr>ca_Subject = at_Subject tok, ca_Role = roleFor (at_Admin tok)\<rparr>)))"

subsection \<open>The internal policy\<close>

definition InternalAPIName :: string where "InternalAPIName = ''bouncer-internal''"
definition InternalScopeAdmin :: string where "InternalScopeAdmin = ''admin''"
definition InternalScopeUser :: string where "InternalScopeUser = ''user''"

definition Sets :: "string list" where "Sets = [''demo'', ''simple'', ''production'']"

definition PolicySet_Validate :: "string \<Rightarrow> err option" where
  "PolicySet_Validate nm = (if list_ex (\<lambda>known. nm = known) Sets then None else Some (EMsg ''unknown internal-policies set''))"

definition Policies :: "(string \<Rightarrow> string option) \<Rightarrow> string \<Rightarrow> err + string" where
  "Policies files nm =
     (case PolicySet_Validate nm of
        Some e \<Rightarrow> Inl e
      | None \<Rightarrow> (case files (''policies/'' @ nm @ ''.yaml'') of
                   None \<Rightarrow> Inl (EMsg ''read embedded policies'') | Some body \<Rightarrow> Inr body))"

text \<open>A decoder yields the documents of the stream in order, each a policy or an error.\<close>

fun decodeInternalPolicies :: "(err + Policy) list \<Rightarrow> err + Policy list" where
  "decodeInternalPolicies [] = Inr []"
| "decodeInternalPolicies (Inl e # ds) = Inl e"
| "decodeInternalPolicies (Inr p # ds) =
     (case decodeInternalPolicies ds of Inl e \<Rightarrow> Inl e | Inr ps \<Rightarrow> Inr (p # ps))"

fun add_policies :: "compiler \<Rightarrow> Policy list \<Rightarrow> 'u Runtime \<Rightarrow> err + 'u Runtime" where
  "add_policies compile [] rt = Inr rt"
| "add_policies compile (p # ps) rt =
     (case AddPolicy compile p rt of Inl e \<Rightarrow> Inl e | Inr rt' \<Rightarrow> add_policies compile ps rt')"

definition LoadInternalRuntime ::
  "compiler \<Rightarrow> (string \<Rightarrow> err + 'u) \<Rightarrow> (err + API) \<Rightarrow> (string \<Rightarrow> (err + Policy) list) \<Rightarrow> (string \<Rightarrow> string option) \<Rightarrow> string
     \<Rightarrow> err + 'u Runtime" where
  "LoadInternalRuntime compile parse_url spec docs files nm =
     (case PolicySet_Validate nm of
        Some e \<Rightarrow> Inl e
      | None \<Rightarrow>
          bind_result spec (\<lambda>api.
            if api_Name api \<noteq> InternalAPIName then Inl (EMsg ''embedded api.yaml name'')
            else (case AddAPI api NewBuilder of
                    (Some e, b) \<Rightarrow> Inl e
                  | (None, b) \<Rightarrow>
                      bind_result (fst (Build compile parse_url b)) (\<lambda>rt.
                        bind_result (Policies files nm) (\<lambda>body.
                          bind_result (decodeInternalPolicies (docs body)) (\<lambda>ps.
                            add_policies compile ps rt))))))"

definition hasSegmentedPrefix :: "string \<Rightarrow> string \<Rightarrow> bool" where
  "hasSegmentedPrefix path pre \<longleftrightarrow> path = pre \<or> HasPrefix path (pre @ ''/'')"

definition isInternalPath :: "string \<Rightarrow> bool" where
  "isInternalPath path =
     (if hasSegmentedPrefix path ''/_admin/static'' then False
      else hasSegmentedPrefix path ''/_admin'' \<or> hasSegmentedPrefix path ''/_api'' \<or> hasSegmentedPrefix path ''/install'')"

definition isUIPath :: "string \<Rightarrow> bool" where
  "isUIPath path = hasSegmentedPrefix path ''/_admin''"

definition principalFor :: "Caller \<Rightarrow> Principal" where
  "principalFor c =
     (case ca_Role c of
        RoleAdmin \<Rightarrow> \<lparr>pr_subject = ca_Subject c, pr_kind = ''admin'', pr_scopes = [InternalScopeAdmin, InternalScopeUser], pr_attributes = []\<rparr>
      | RoleUser \<Rightarrow> \<lparr>pr_subject = ca_Subject c, pr_kind = ''user'', pr_scopes = [InternalScopeUser], pr_attributes = []\<rparr>
      | RoleAnonymous \<Rightarrow> \<lparr>pr_subject = [], pr_kind = ''anonymous'', pr_scopes = [], pr_attributes = []\<rparr>)"

definition nopResolver :: "world \<Rightarrow> world" where
  "nopResolver w = w\<lparr>w_resolve := (\<lambda>_ name. Some (EMsg ''internal runtime: no physical API''))\<rparr>"

definition LoginUIPath :: string where "LoginUIPath = ''/_admin/login''"

definition redirectToLogin :: "HTTPRequest \<Rightarrow> 'b http_response" where
  "redirectToLogin r =
     (let nextRaw = r_Path r @ (if r_RawQuery r \<noteq> [] then ''?'' @ r_RawQuery r else [])
      in \<lparr>hr_Status = 303, hr_Location = LoginUIPath @ ''?next='' @ QueryEscape nextRaw, hr_Cookies = [], hr_Body = Empty\<rparr>)"

definition writeInternalDenial :: "HTTPRequest \<Rightarrow> Caller \<Rightarrow> 'b http_response" where
  "writeInternalDenial r c =
     (if \<not> IsAuthenticated c then
        (if isUIPath (r_Path r) then redirectToLogin r
         else WriteDenial 401 ''this endpoint requires a valid Bearer JWT'')
      else WriteDenial 403 ''the active internal-policy set does not permit this caller on this endpoint'')"

definition internal_request :: "HTTPRequest \<Rightarrow> Request" where
  "internal_request r =
     \<lparr>req_method = ToUpper (r_Method r), req_path = r_Path r, req_path_segments = SplitPath (r_Path r), req_query = [],
      req_body = None\<rparr>"

text \<open>\<open>None\<close>: the request goes on to the next handler.\<close>

definition InternalPolicyMiddleware ::
  "world \<Rightarrow> 'u Runtime \<Rightarrow> int \<Rightarrow> Caller \<Rightarrow> HTTPRequest \<Rightarrow> 'b http_response option" where
  "InternalPolicyMiddleware w rt now caller r =
     (if \<not> isInternalPath (r_Path r) then None
      else (case Runtime_Evaluate (nopResolver w) rt (internal_request r) (Some (principalFor caller)) now of
              (apiName, (decision, e), _, _) \<Rightarrow>
                (if e \<noteq> None then Some (WriteDenial 500 ''internal policy evaluation error'')
                 else if apiName = [] \<or> decision \<noteq> Permit then Some (writeInternalDenial r caller)
                 else None)))"

text \<open>
  The router: authentication, then the internal policy when one is loaded, then the routed handler (the
  routes of the multiplexer are an argument), which sees the caller.
\<close>

definition Router ::
  "crypto \<Rightarrow> cookie_parser \<Rightarrow> world \<Rightarrow> int \<Rightarrow> ServerKeys option \<Rightarrow> 'u Runtime option \<Rightarrow> (Caller \<Rightarrow> HTTPRequest \<Rightarrow> 'r) \<Rightarrow> HTTPRequest
     \<Rightarrow> 'b http_response + 'r" where
  "Router L cookies w now keys internal mux r =
     (let caller = AuthMiddleware L cookies now keys r
      in case internal of
           None \<Rightarrow> Inr (mux caller r)
         | Some rt \<Rightarrow>
             (case InternalPolicyMiddleware w rt now caller r of Some resp \<Rightarrow> Inl resp | None \<Rightarrow> Inr (mux caller r)))"

subsection \<open>Login\<close>

definition AdminLoginSubject :: string where "AdminLoginSubject = ''admin''"
definition loginTTL :: int where "loginTTL = 12 * 3600 * second"
definition maxLoginBodyBytes :: nat where "maxLoginBodyBytes = 2 ^ 10"

record LoginResponse =
  lr_Token :: string
  lr_ExpiresAt :: int

definition verifyPassword :: "(string \<Rightarrow> string \<Rightarrow> bool) \<Rightarrow> string \<Rightarrow> string \<Rightarrow> bool" where
  "verifyPassword bcrypt hash password = (if password = [] then False else bcrypt hash password)"

definition setAdminCookie :: "bool \<Rightarrow> HTTPRequest \<Rightarrow> string \<Rightarrow> int \<Rightarrow> int \<Rightarrow> Cookie" where
  "setAdminCookie tls r val expires maxAge =
     \<lparr>co_Name = AdminCookieName, co_Value = val, co_Path = ''/'', co_Expires = expires, co_MaxAge = maxAge,
      co_HttpOnly = True, co_Secure = (tls \<or> ToLower (Header_Get (r_Header r) ''X-Forwarded-Proto'') = ''https''),
      co_SameSiteStrict = True\<rparr>"

text \<open>
  The request's body as the decoder sees it under the cap, the nonce and the two clock readings are
  arguments; the body's only field is the password.
\<close>

definition loginHandler ::
  "crypto \<Rightarrow> (string \<Rightarrow> string \<Rightarrow> bool) \<Rightarrow> byte list \<Rightarrow> int \<Rightarrow> int \<Rightarrow> bool \<Rightarrow> ServerKeys \<Rightarrow> string \<Rightarrow> string decoded \<Rightarrow> HTTPRequest
     \<Rightarrow> LoginResponse http_response" where
  "loginHandler L bcrypt nonce now now' tls keys passwordHash body r =
     (if passwordHash = [] then writeJSONError ''login not configured (no --admin-password-hash)'' 503
      else (case decodeJSONBody body [] of
              Inl e \<Rightarrow> writeMappedError (\<lambda>_ :: unit. []) e []
            | Inr password \<Rightarrow>
                (if \<not> verifyPassword bcrypt passwordHash password then writeJSONError ''invalid credentials'' 401
                 else (case IssueAccessToken L nonce now keys AdminLoginSubject \<lparr>ac_AccessToken = ''x'', ac_Headers = []\<rparr> loginTTL True of
                         Inl e \<Rightarrow> writeJSONError ''issue token'' 500
                       | Inr tok \<Rightarrow>
                           (writeJSON \<lparr>lr_Token = tok, lr_ExpiresAt = now' + loginTTL\<rparr>)
                             \<lparr>hr_Cookies := [setAdminCookie tls r tok (now' + loginTTL) 0]\<rparr>))))"

definition logoutHandler :: "bool \<Rightarrow> HTTPRequest \<Rightarrow> unit http_response" where
  "logoutHandler tls r = (writeHeader 204)\<lparr>hr_Cookies := [setAdminCookie tls r [] 0 (- 1)]\<rparr>"

record whoamiResponse =
  wh_Subject :: string
  wh_Admin :: bool
  wh_Authenticated :: bool

definition whoamiHandler :: "Caller \<Rightarrow> whoamiResponse http_response" where
  "whoamiHandler c = writeJSON \<lparr>wh_Subject = ca_Subject c, wh_Admin = IsAdmin c, wh_Authenticated = IsAuthenticated c\<rparr>"

subsection \<open>Specification\<close>

text \<open>
  A caller the server can vouch for: nobody, or the subject of an access token it issued, still within
  the leeway of its lifetime, with the role of the token's admin flag.
\<close>

definition vouched :: "crypto \<Rightarrow> ServerKeys \<Rightarrow> issue list \<Rightarrow> int \<Rightarrow> Caller \<Rightarrow> bool" where
  "vouched L keys log now c \<longleftrightarrow>
     c = anonymousCaller
     \<or> (\<exists>nonce issued creds ttl admin tok. IssuedAccess nonce issued (ca_Subject c) creds ttl admin \<in> set log
          \<and> IssueAccessToken L nonce issued keys (ca_Subject c) creds ttl admin = Inr tok
          \<and> now < issued + ttl + 30 * second \<and> ca_Role c = roleFor admin)"

text \<open>An internal API with one action and one policy that permits it, under a compiler that makes every
  expression true.\<close>

definition ex_internal_spec :: API where
  "ex_internal_spec =
     \<lparr>api_Name = ''bouncer-internal'', api_BaseURL = [], api_PathPrefixes = [''/_admin''], api_Meta = [],
      api_Actions = [\<lparr>a_Name = ''ui'', a_Method = [], a_Path = [], a_Filter = ''true'', a_Bind = [], a_Binds = []\<rparr>],
      api_AccessDeniedStatus = 0, api_Auth = []\<rparr>"

definition ex_internal_policy :: Policy where
  "ex_internal_policy =
     \<lparr>pol_API = ''bouncer-internal'', pol_Name = ''all'', pol_Description = [], pol_Principal = [], pol_Action = [],
      pol_Condition = ''true'', pol_Result = Permit\<rparr>"

definition ex_load :: "err + unit Runtime" where
  "ex_load = LoadInternalRuntime ex_compiler (\<lambda>_. Inr ()) (Inr ex_internal_spec) (\<lambda>_. [Inr ex_internal_policy]) (\<lambda>_. Some []) ''demo''"

definition map_err :: "err + 'a \<Rightarrow> unit http_response + 'a" where
  "map_err r = (case r of Inl e \<Rightarrow> Inl (writeHeader 500) | Inr x \<Rightarrow> Inr x)"

definition ex_admin_claims :: jwtClaims where
  "ex_admin_claims = issued_claims 5 AdminLoginSubject typAccess (ex_nonce @ [1, 1]) (Some loginTTL) True"

definition ex_LA :: crypto where
  "ex_LA = ex_crypto [ex_claims, ex_admin_claims] [ex_creds, \<lparr>ac_AccessToken = ''x'', ac_Headers = []\<rparr>] []"

definition ex_admin_log :: "issue list" where
  "ex_admin_log = [IssuedAccess ex_nonce 5 ''alice'' ex_creds (60 * second) False,
     IssuedAccess ex_nonce 5 AdminLoginSubject \<lparr>ac_AccessToken = ''x'', ac_Headers = []\<rparr> loginTTL True]"

definition ex_admin_request :: HTTPRequest where
  "ex_admin_request =
     ex_request\<lparr>r_EscapedPath := ''/_admin/policies'', r_Path := ''/_admin/policies'', r_RequestURI := ''/_admin/policies'',
       r_Header := [(''Cookie'', [''bouncer_admin=x''])]\<rparr>"

definition ex_route :: "unit Runtime \<Rightarrow> unit http_response + Caller" where
  "ex_route rt = Router ex_LA (\<lambda>_ _. Some ''x'') ex_world second (Some ex_keys) (Some rt) (\<lambda>c _. c) ex_admin_request"

section \<open>Authentication\<close>

lemma ex_LA_laws:
  "jwt_unforgeable ex_LA (k_Signing ex_keys) (issued_set ex_LA ex_keys ex_admin_log)"
  "aead_roundtrip ex_LA" "json_creds_roundtrip ex_LA" "keys_ok ex_LA ex_keys" "log_ok ex_admin_log"
proof -
  have ne: "ex_admin_claims \<noteq> ex_claims" "ex_creds \<noteq> \<lparr>ac_AccessToken = ''x'', ac_Headers = []\<rparr>" by code_simp+
  have "([], ex_claims) \<in> issued_set ex_LA ex_keys ex_admin_log"
    by (simp add: issued_set_def ex_admin_log_def IssueAccess_Inr) (simp add: ex_LA_def ex_crypto_def ex_keys_def ex_claims_def)
  moreover have "(''x'', ex_admin_claims) \<in> issued_set ex_LA ex_keys ex_admin_log"
    using ne by (simp add: issued_set_def ex_admin_log_def IssueAccess_Inr) (simp add: ex_LA_def ex_crypto_def ex_keys_def ex_admin_claims_def)
  ultimately show "jwt_unforgeable ex_LA (k_Signing ex_keys) (issued_set ex_LA ex_keys ex_admin_log)"
    unfolding ex_keys_def ServerKeys.select_convs unfolding ex_LA_def
    by (intro ex_crypto_unforgeable) (auto simp: at_index_def less_Suc_eq split: if_splits)
  show "aead_roundtrip ex_LA" "json_creds_roundtrip ex_LA" "keys_ok ex_LA ex_keys"
    unfolding ex_LA_def by (fact ex_crypto_laws)+
  show "log_ok ex_admin_log" by (simp add: log_ok_def ex_admin_log_def ex_nonce_def NonceSize_def)
qed

lemma AuthMiddleware_vouched:
  assumes "jwt_unforgeable L (k_Signing keys) (issued_set L keys log)" "aead_roundtrip L" "json_creds_roundtrip L"
    and "keys_ok L keys" "log_ok log"
  shows "vouched L keys log now (AuthMiddleware L cookies now (Some keys) r)"
proof (cases "AuthMiddleware L cookies now (Some keys) r = anonymousCaller")
  case True
  then show ?thesis by (simp add: vouched_def)
next
  case False
  then obtain t where t: "VerifyAccessToken L now keys (bearerOrCookie cookies r) = Inr t"
    and c: "AuthMiddleware L cookies now (Some keys) r = \<lparr>ca_Subject = at_Subject t, ca_Role = roleFor (at_Admin t)\<rparr>"
    by (auto simp: AuthMiddleware_def Let_def split: if_splits sum.splits)
  from access_verified_issued [OF assms t] obtain nonce issued ttl where
    "IssuedAccess nonce issued (at_Subject t) (at_Creds t) ttl (at_Admin t) \<in> set log"
    "IssueAccessToken L nonce issued keys (at_Subject t) (at_Creds t) ttl (at_Admin t) = Inr (bearerOrCookie cookies r)"
    "now < issued + ttl + 30 * second" by blast
  then show ?thesis unfolding vouched_def c by (intro disjI2 exI conjI) auto
qed

text \<open>A request that shows no token, or one that does not verify, is anonymous.\<close>

lemma principal_admin_iff: "InternalScopeAdmin \<in> set (pr_scopes (principalFor c)) \<longleftrightarrow> ca_Role c = RoleAdmin"
  by (auto simp: principalFor_def InternalScopeAdmin_def InternalScopeUser_def split: Role.split)

section \<open>The internal runtime\<close>

lemma add_policies_buckets: "add_policies compile ps rt = Inr rt' \<Longrightarrow> rt_buckets rt \<Longrightarrow> rt_buckets rt'"
  by (induction ps arbitrary: rt) (auto dest: rt_buckets_AddPolicy split: sum.splits)

lemma LoadInternalRuntime_buckets:
  fixes parse_url :: "string \<Rightarrow> err + unit"
  assumes "LoadInternalRuntime compile parse_url spec docs files nm = Inr rt"
  shows "rt_buckets rt"
proof -
  obtain api b rt0 ps where b: "AddAPI api NewBuilder = (None, b)" "fst (Build compile parse_url b) = Inr rt0"
    and rt: "add_policies compile ps rt0 = Inr rt"
    using assms by (auto simp: LoadInternalRuntime_def bind_result_Inr split: option.splits if_splits prod.splits)
  have "builder_inv b" using builder_inv_reach [OF builder_reach.add [OF builder_reach.new, of api]] b(1) by simp
  moreover have "Build compile parse_url b = (Inr rt0, snd (Build compile parse_url b))" using b(2) by (metis prod.collapse)
  ultimately have "rt_buckets rt0" using Build_rt_inv(1) rt_inv_buckets by blast
  with rt show ?thesis by (rule add_policies_buckets)
qed

section \<open>The gate\<close>

lemma InternalPolicyMiddleware_passes:
  assumes "InternalPolicyMiddleware w rt now caller r = None" "isInternalPath (r_Path r)" "rt_buckets rt"
  shows "\<exists>a. API_get rt (routeRequest rt (internal_request r)) = Some a
    \<and> permitted_by_policy (api_ctx (nopResolver w) a (internal_request r)) a (principalFor caller) now"
proof -
  obtain apiName evs st where
    "Runtime_Evaluate (nopResolver w) rt (internal_request r) (Some (principalFor caller)) now = (apiName, (Permit, None), evs, st)"
    using assms(1,2) by (auto simp: InternalPolicyMiddleware_def split: if_splits prod.splits)
  from Runtime_Permit_policy [OF this assms(3)] show ?thesis by blast
qed



section \<open>Login\<close>

text \<open>Only the right, non-empty password gets anything but an error.\<close>

lemma login_succeeds_iff:
  "hr_Status (loginHandler L bcrypt nonce now now' tls keys hash body r) = 200 \<longleftrightarrow>
     hash \<noteq> [] \<and> (\<exists>pw tok. body = DValue pw \<and> pw \<noteq> [] \<and> bcrypt hash pw
       \<and> IssueAccessToken L nonce now keys AdminLoginSubject \<lparr>ac_AccessToken = ''x'', ac_Headers = []\<rparr> loginTTL True = Inr tok)"
  by (auto simp: loginHandler_def decodeJSONBody_def verifyPassword_def writeJSONError_def writeJSON_def writeJSONStatus_def
      writeMappedError_def split: decoded.splits sum.splits)

text \<open>
  C14: the password login.  It answers 200 only to the configured, non-empty password, and then both the
  body and the cookie (HTTP-only, same-site, for the whole site) carry a token with which, in the cookie
  of a request that has no authorization header, the caller is the admin from the issuing second on,
  minus the leeway, until twelve hours and the leeway later, and nobody before and after.
\<close>

theorem login_session:
  assumes "jwt_roundtrip L" "aead_roundtrip L" "json_creds_roundtrip L" "keys_ok L keys" "length nonce = NonceSize"
    and "hr_Status (loginHandler L bcrypt nonce now now' tls keys hash body r) = 200"
  shows "\<exists>tok pw ck. body = DValue pw \<and> pw \<noteq> [] \<and> hash \<noteq> [] \<and> bcrypt hash pw
    \<and> loginHandler L bcrypt nonce now now' tls keys hash body r =
        \<lparr>hr_Status = 200, hr_Location = [], hr_Cookies = [ck], hr_Body = Value \<lparr>lr_Token = tok, lr_ExpiresAt = now' + loginTTL\<rparr>\<rparr>
    \<and> co_Name ck = AdminCookieName \<and> co_Value ck = tok \<and> co_HttpOnly ck \<and> co_SameSiteStrict ck
    \<and> (\<forall>t r' cookies. tok \<noteq> [] \<longrightarrow> Header_Get (r_Header r') ''Authorization'' = [] \<longrightarrow>
         cookies (r_Header r') AdminCookieName = Some tok \<longrightarrow>
         AuthMiddleware L cookies t (Some keys) r' =
           (if whole_seconds now - 30 * second \<le> t \<and> t < whole_seconds (now + 12 * 3600 * second) + 30 * second
            then \<lparr>ca_Subject = ''admin'', ca_Role = RoleAdmin\<rparr> else anonymousCaller))"
proof -
  from assms(6) obtain pw tok where 1: "hash \<noteq> []" "body = DValue pw" "pw \<noteq> []" "bcrypt hash pw"
    and tok: "IssueAccessToken L nonce now keys AdminLoginSubject \<lparr>ac_AccessToken = ''x'', ac_Headers = []\<rparr> loginTTL True = Inr tok"
    unfolding login_succeeds_iff by blast
  have resp: "loginHandler L bcrypt nonce now now' tls keys hash body r =
      \<lparr>hr_Status = 200, hr_Location = [], hr_Cookies = [setAdminCookie tls r tok (now' + loginTTL) 0],
       hr_Body = Value \<lparr>lr_Token = tok, lr_ExpiresAt = now' + loginTTL\<rparr>\<rparr>"
    using 1 tok by (simp add: loginHandler_def decodeJSONBody_def verifyPassword_def writeJSON_def writeJSONStatus_def)
  have auth: "AuthMiddleware L cookies t (Some keys) r' =
      (if whole_seconds now - 30 * second \<le> t \<and> t < whole_seconds (now + 12 * 3600 * second) + 30 * second
       then \<lparr>ca_Subject = ''admin'', ca_Role = RoleAdmin\<rparr> else anonymousCaller)"
    if "tok \<noteq> []" "Header_Get (r_Header r') ''Authorization'' = []" "cookies (r_Header r') AdminCookieName = Some tok" for t r' cookies
    using that access_verify [OF assms(1-5) tok, of t]
    by (simp add: AuthMiddleware_def bearerOrCookie_def roleFor_def AdminLoginSubject_def loginTTL_def)
  show ?thesis
    by (intro exI [of _ tok] exI [of _ pw] exI [of _ "setAdminCookie tls r tok (now' + loginTTL) 0"] conjI 1 resp allI impI auth)
      (simp_all add: setAdminCookie_def)
qed

theorem login_session_witness:
  "hr_Status (loginHandler ex_LA (=) ex_nonce 5 6 True ex_keys ''pw'' (DValue ''pw'') ex_admin_request) = 200
   \<and> AuthMiddleware ex_LA (\<lambda>_ _. Some ''x'') second (Some ex_keys) ex_admin_request = \<lparr>ca_Subject = ''admin'', ca_Role = RoleAdmin\<rparr>"
proof -
  let ?resp = "loginHandler ex_LA (=) ex_nonce 5 6 True ex_keys ''pw'' (DValue ''pw'') ex_admin_request"
  have ok: "hr_Status ?resp = 200" "hr_Body ?resp = Value \<lparr>lr_Token = ''x'', lr_ExpiresAt = 6 + loginTTL\<rparr>" by code_simp+
  have len: "length ex_nonce = NonceSize" by (simp add: ex_nonce_def NonceSize_def)
  have rt: "jwt_roundtrip ex_LA" unfolding ex_LA_def by (fact ex_crypto_laws)
  have h: "Header_Get (r_Header ex_admin_request) ''Authorization'' = []" by code_simp
  have t: "whole_seconds 5 - 30 * second \<le> second" "second < whole_seconds (5 + 12 * 3600 * second) + 30 * second"
    by (simp_all add: whole_seconds_def second_def)
  show ?thesis using login_session [OF rt ex_LA_laws(2-4) len ok(1)] ok h t by auto
qed

end
