(* ===== verification/PolicyStores.thy ===== *)
theory PolicyStores
  imports Runtime "HOL-Library.Product_Lexorder"
begin

text \<open>
  The durable policy stores of \<^verbatim>\<open>internal/control/policies\<close>: the \<open>Store\<close> interface as a record of
  operations, and its SQLite, YAML-directory and layered implementations.  JSON and YAML encoding are
  arguments (\<open>marshal\<close>, \<open>unmarshal\<close>, \<open>enc\<close>, \<open>dec\<close>); the outcome of a database or file-system call is an
  argument too (\<open>io\<close>), so every error branch of the code is a branch of the model.
\<close>

section \<open>Definitions\<close>

subsection \<open>The interface\<close>

datatype perr =
    ErrInvalid
  | ErrNotFound
  | ErrConflict
  | ErrAPIPath
  | ErrReadOnly
  | PWrap string perr
  | PIO string

text \<open>\<^verbatim>\<open>errors.Is\<close> along the chain of an error.\<close>

fun is_err :: "perr \<Rightarrow> perr \<Rightarrow> bool" where
  "is_err target (PWrap m e) = (PWrap m e = target \<or> is_err target e)"
| "is_err target e = (e = target)"

record 's Store =
  so_List :: "'s \<Rightarrow> perr + Policy list"
  so_Put :: "Policy \<Rightarrow> 's \<Rightarrow> perr option \<times> 's"
  so_Delete :: "string \<Rightarrow> string \<Rightarrow> 's \<Rightarrow> perr option \<times> 's"

text \<open>What a boot makes of a store: per key, the last policy of the list.\<close>

definition view_of :: "'s Store \<Rightarrow> 's \<Rightarrow> string \<times> string \<Rightarrow> Policy option" where
  "view_of ops s k = (case so_List ops s of Inl _ \<Rightarrow> None | Inr ps \<Rightarrow> last_by pol_key k ps)"

definition listing :: "'s Store \<Rightarrow> 's \<Rightarrow> Policy set" where
  "listing ops s = (case so_List ops s of Inl _ \<Rightarrow> {} | Inr ps \<Rightarrow> set ps)"

subsection \<open>SQLite\<close>

record row =
  row_api :: string
  row_name :: string
  row_payload :: string

definition row_key :: "row \<Rightarrow> string \<times> string" where
  "row_key r = (row_api r, row_name r)"

fun decode_rows :: "(string \<Rightarrow> Policy option) \<Rightarrow> row list \<Rightarrow> perr + Policy list" where
  "decode_rows unmarshal [] = Inr []"
| "decode_rows unmarshal (r # rs) =
     (case unmarshal (row_payload r) of
        None \<Rightarrow> Inl (PIO ''policies/sqlite: decode'')
      | Some p \<Rightarrow> (case decode_rows unmarshal rs of Inl e \<Rightarrow> Inl e | Inr ps \<Rightarrow> Inr (p # ps)))"

definition sqlite_List :: "(string \<Rightarrow> Policy option) \<Rightarrow> row list \<Rightarrow> perr + Policy list" where
  "sqlite_List unmarshal db = decode_rows unmarshal (sort_key row_key db)"

definition sqlite_Put ::
  "(Policy \<Rightarrow> string) \<Rightarrow> string option \<Rightarrow> Policy \<Rightarrow> row list \<Rightarrow> perr option \<times> row list" where
  "sqlite_Put marshal io p db =
     (case io of
        Some e \<Rightarrow> (Some (PWrap ''policies/sqlite: put'' (PIO e)), db)
      | None \<Rightarrow>
          (None, upsert_by row_key \<lparr>row_api = pol_API p, row_name = pol_Name p, row_payload = marshal p\<rparr> db))"

definition sqlite_Delete ::
  "string option \<Rightarrow> string \<Rightarrow> string \<Rightarrow> row list \<Rightarrow> perr option \<times> row list" where
  "sqlite_Delete io api name db =
     (case io of
        Some e \<Rightarrow> (Some (PWrap ''policies/sqlite: delete'' (PIO e)), db)
      | None \<Rightarrow>
          (let db' = filter (\<lambda>r. \<not> (row_api r = api \<and> row_name r = name)) db
           in if length db' = length db then (Some ErrNotFound, db') else (None, db')))"

definition sqliteStore ::
  "(Policy \<Rightarrow> string) \<Rightarrow> (string \<Rightarrow> Policy option) \<Rightarrow> string option \<Rightarrow> row list Store" where
  "sqliteStore marshal unmarshal io =
     \<lparr>so_List = sqlite_List unmarshal, so_Put = sqlite_Put marshal io, so_Delete = sqlite_Delete io\<rparr>"

subsection \<open>YAML directory\<close>

record dentry =
  de_name :: string
  de_regular :: bool
  de_raw :: string

definition isYAML :: "string \<Rightarrow> bool" where
  "isYAML name = (let n = ToLower name in HasSuffix n ''.yaml'' \<or> HasSuffix n ''.yml'')"

definition validAPIName :: "string \<Rightarrow> bool" where
  "validAPIName api =
     (if api = [] \<or> api = ''.'' \<or> api = ''..'' then False
      else if list_ex (\<lambda>c. c = CHR ''/'' \<or> c = CHR 0x5C) api then False
      else if HasPrefix api ''/'' then False
      else True)"

definition canonical :: "string \<Rightarrow> string" where
  "canonical api = api @ ''_policy.yaml''"

definition filterByAPI :: "Policy list \<Rightarrow> string \<Rightarrow> Policy list" where
  "filterByAPI all api = filter (\<lambda>p. pol_API p = api) all"

definition upsert :: "Policy list \<Rightarrow> Policy \<Rightarrow> Policy list" where
  "upsert ps p = upsert_by pol_Name p ps"

definition remove :: "Policy list \<Rightarrow> string \<Rightarrow> Policy list" where
  "remove ps name = remove_by pol_Name name ps"

definition withoutEntry :: "Policy list \<Rightarrow> string \<Rightarrow> string \<Rightarrow> Policy list" where
  "withoutEntry ps api name = filter (\<lambda>p. \<not> (pol_API p = api \<and> pol_Name p = name)) ps"

fun bytes_Contains :: "string \<Rightarrow> string \<Rightarrow> bool" where
  "bytes_Contains [] sub = (sub = [])"
| "bytes_Contains (c # s) sub = (HasPrefix (c # s) sub \<or> bytes_Contains s sub)"

definition mightContainEntry :: "string \<Rightarrow> string \<Rightarrow> string \<Rightarrow> bool" where
  "mightContainEntry raw api name = (bytes_Contains raw api \<and> bytes_Contains raw name)"

type_synonym yaml_enc = "Policy list \<Rightarrow> string option"
type_synonym yaml_dec = "string \<Rightarrow> Policy list option"
type_synonym fs_io = "string \<Rightarrow> string option"

definition decodePoliciesFile :: "yaml_dec \<Rightarrow> dentry \<Rightarrow> perr + Policy list" where
  "decodePoliciesFile dec e =
     (case dec (de_raw e) of None \<Rightarrow> Inl (PIO ''decode'') | Some ps \<Rightarrow> Inr ps)"

fun read_files :: "yaml_dec \<Rightarrow> dentry list \<Rightarrow> perr + Policy list" where
  "read_files dec [] = Inr []"
| "read_files dec (e # es) =
     (if \<not> de_regular e \<or> \<not> isYAML (de_name e) then read_files dec es
      else (case decodePoliciesFile dec e of
              Inl er \<Rightarrow> Inl er
            | Inr ps \<Rightarrow> (case read_files dec es of Inl er \<Rightarrow> Inl er | Inr rest \<Rightarrow> Inr (ps @ rest))))"

definition readAll :: "yaml_dec \<Rightarrow> dentry list \<Rightarrow> perr + Policy list" where
  "readAll dec dir = read_files dec (sort_key de_name dir)"

definition atomicWrite :: "fs_io \<Rightarrow> string \<Rightarrow> string \<Rightarrow> dentry list \<Rightarrow> perr option \<times> dentry list" where
  "atomicWrite io path data dir =
     (case io path of
        Some e \<Rightarrow> (Some (PWrap ''atomic write'' (PIO e)), dir)
      | None \<Rightarrow> (None, upsert_by de_name \<lparr>de_name = path, de_regular = True, de_raw = data\<rparr> dir))"

definition writeAPIFile ::
  "yaml_enc \<Rightarrow> fs_io \<Rightarrow> string \<Rightarrow> Policy list \<Rightarrow> dentry list \<Rightarrow> perr option \<times> dentry list" where
  "writeAPIFile enc io api ps dir =
     (if \<not> validAPIName api then (Some (PIO ''invalid api name''), dir)
      else (let path = canonical api
            in if ps = [] then
                 (case io path of
                    Some e \<Rightarrow> (Some (PWrap ''remove empty'' (PIO e)), dir)
                  | None \<Rightarrow> (None, remove_by de_name path dir))
               else (case enc ps of
                       None \<Rightarrow> (Some (PIO ''encode policy''), dir)
                     | Some raw \<Rightarrow> atomicWrite io path raw dir)))"

text \<open>The loop over the directory as it was listed, rewriting the files that still carry the entry.\<close>

fun scrub_loop ::
  "yaml_enc \<Rightarrow> yaml_dec \<Rightarrow> fs_io \<Rightarrow> string \<Rightarrow> string \<Rightarrow> dentry list \<Rightarrow> dentry list \<Rightarrow> perr option \<times> dentry list" where
  "scrub_loop enc dec io api name [] dir = (None, dir)"
| "scrub_loop enc dec io api name (e # es) dir =
     (if \<not> de_regular e \<or> \<not> isYAML (de_name e) \<or> de_name e = canonical api then scrub_loop enc dec io api name es dir
      else if \<not> mightContainEntry (de_raw e) api name then scrub_loop enc dec io api name es dir
      else (case decodePoliciesFile dec e of
              Inl er \<Rightarrow> (Some er, dir)
            | Inr ps \<Rightarrow>
                (let kept = withoutEntry ps api name
                 in if length kept = length ps then scrub_loop enc dec io api name es dir
                    else (case (if kept = [] then Some [] else enc kept) of
                            None \<Rightarrow> (Some (PIO ''encode''), dir)
                          | Some raw \<Rightarrow>
                              (case atomicWrite io (de_name e) raw dir of
                                 (Some er, dir1) \<Rightarrow> (Some er, dir1)
                               | (None, dir1) \<Rightarrow> scrub_loop enc dec io api name es dir1)))))"

definition scrubLegacyEntry ::
  "yaml_enc \<Rightarrow> yaml_dec \<Rightarrow> fs_io \<Rightarrow> string \<Rightarrow> string \<Rightarrow> dentry list \<Rightarrow> perr option \<times> dentry list" where
  "scrubLegacyEntry enc dec io api name dir = scrub_loop enc dec io api name (sort_key de_name dir) dir"

definition file_List :: "yaml_dec \<Rightarrow> dentry list \<Rightarrow> perr + Policy list" where
  "file_List dec dir = readAll dec dir"

definition file_Put ::
  "yaml_enc \<Rightarrow> yaml_dec \<Rightarrow> fs_io \<Rightarrow> Policy \<Rightarrow> dentry list \<Rightarrow> perr option \<times> dentry list" where
  "file_Put enc dec io p dir =
     (case readAll dec dir of
        Inl e \<Rightarrow> (Some e, dir)
      | Inr all \<Rightarrow>
          (case writeAPIFile enc io (pol_API p) (upsert (filterByAPI all (pol_API p)) p) dir of
             (Some e, dir1) \<Rightarrow> (Some e, dir1)
           | (None, dir1) \<Rightarrow> (None, snd (scrubLegacyEntry enc dec io (pol_API p) (pol_Name p) dir1))))"

definition file_Delete ::
  "yaml_enc \<Rightarrow> yaml_dec \<Rightarrow> fs_io \<Rightarrow> string \<Rightarrow> string \<Rightarrow> dentry list \<Rightarrow> perr option \<times> dentry list" where
  "file_Delete enc dec io api name dir =
     (case readAll dec dir of
        Inl e \<Rightarrow> (Some e, dir)
      | Inr all \<Rightarrow>
          (let scoped = filterByAPI all api; ps = remove scoped name
           in if length ps = length scoped then (Some ErrNotFound, dir)
              else (case writeAPIFile enc io api ps dir of
                      (Some e, dir1) \<Rightarrow> (Some e, dir1)
                    | (None, dir1) \<Rightarrow> (None, snd (scrubLegacyEntry enc dec io api name dir1)))))"

definition FileStore :: "yaml_enc \<Rightarrow> yaml_dec \<Rightarrow> fs_io \<Rightarrow> dentry list Store" where
  "FileStore enc dec io = \<lparr>so_List = file_List dec, so_Put = file_Put enc dec io, so_Delete = file_Delete enc dec io\<rparr>"

subsection \<open>Layers\<close>

definition layered_List :: "'p Store \<Rightarrow> 'q Store \<Rightarrow> 'p \<times> 'q \<Rightarrow> perr + Policy list" where
  "layered_List primary seed = (\<lambda>(p, q).
     (case so_List seed q of
        Inl e \<Rightarrow> Inl (PWrap ''seed layer'' e)
      | Inr seeded \<Rightarrow>
          (case so_List primary p of Inl e \<Rightarrow> Inl e | Inr stored \<Rightarrow> Inr (seeded @ stored))))"

definition layered_Put :: "'p Store \<Rightarrow> Policy \<Rightarrow> 'p \<times> 'q \<Rightarrow> perr option \<times> ('p \<times> 'q)" where
  "layered_Put primary pol = (\<lambda>(p, q). (let (e, p') = so_Put primary pol p in (e, (p', q))))"

definition layered_Delete ::
  "'p Store \<Rightarrow> 'q Store \<Rightarrow> string \<Rightarrow> string \<Rightarrow> 'p \<times> 'q \<Rightarrow> perr option \<times> ('p \<times> 'q)" where
  "layered_Delete primary seed api name = (\<lambda>(p, q).
     (case so_List seed q of
        Inl e \<Rightarrow> (Some (PWrap ''seed layer'' e), (p, q))
      | Inr seeded \<Rightarrow>
          (if list_ex (\<lambda>x. pol_API x = api \<and> pol_Name x = name) seeded
           then (Some (PWrap ''policy is defined in the policies directory'' ErrReadOnly), (p, q))
           else (let (e, p') = so_Delete primary api name p in (e, (p', q))))))"

definition LayeredStore :: "'p Store \<Rightarrow> 'q Store \<Rightarrow> ('p \<times> 'q) Store" where
  "LayeredStore primary seed =
     \<lparr>so_List = layered_List primary seed, so_Put = layered_Put primary, so_Delete = layered_Delete primary seed\<rparr>"

subsection \<open>Contracts\<close>

text \<open>\<^verbatim>\<open>encoding/json\<close> gives a policy back as it was stored; so does the YAML codec for a list of documents.\<close>

definition json_roundtrip :: "(Policy \<Rightarrow> string) \<Rightarrow> (string \<Rightarrow> Policy option) \<Rightarrow> bool" where
  "json_roundtrip marshal unmarshal \<longleftrightarrow> (\<forall>p. unmarshal (marshal p) = Some p)"

definition yaml_roundtrip :: "yaml_enc \<Rightarrow> yaml_dec \<Rightarrow> bool" where
  "yaml_roundtrip enc dec \<longleftrightarrow> (\<forall>ps raw. ps \<noteq> [] \<longrightarrow> enc ps = Some raw \<longrightarrow> dec raw = Some ps)"

text \<open>The table holds one row per key, and each payload is a policy with that key.\<close>

definition sqlite_inv :: "(Policy \<Rightarrow> string) \<Rightarrow> (string \<Rightarrow> Policy option) \<Rightarrow> row list \<Rightarrow> bool" where
  "sqlite_inv marshal unmarshal db \<longleftrightarrow>
     json_roundtrip marshal unmarshal \<and> distinct (map row_key db)
     \<and> (\<forall>r \<in> set db. \<exists>p. unmarshal (row_payload r) = Some p \<and> pol_key p = row_key r)"

text \<open>
  A directory laid out by the store itself: every policy sits in the canonical file of its API, once.
\<close>

definition policy_file :: "yaml_dec \<Rightarrow> dentry \<Rightarrow> bool" where
  "policy_file dec e \<longleftrightarrow>
     (\<exists>api ps. de_name e = canonical api \<and> dec (de_raw e) = Some ps
        \<and> (\<forall>p \<in> set ps. pol_API p = api) \<and> distinct (map pol_Name ps))"

definition file_inv :: "yaml_enc \<Rightarrow> yaml_dec \<Rightarrow> dentry list \<Rightarrow> bool" where
  "file_inv enc dec dir \<longleftrightarrow>
     yaml_roundtrip enc dec \<and> distinct (map de_name dir)
     \<and> (\<forall>e \<in> set dir. de_regular e \<and> isYAML (de_name e) \<longrightarrow> policy_file dec e)"

text \<open>The files a listing reads, their policies, and the policies in the canonical file of an API.\<close>

definition yaml_files :: "dentry list \<Rightarrow> dentry list" where
  "yaml_files dir = filter (\<lambda>e. de_regular e \<and> isYAML (de_name e)) (sort_key de_name dir)"

definition file_policies :: "yaml_dec \<Rightarrow> dentry \<Rightarrow> Policy list" where
  "file_policies dec e = the (dec (de_raw e))"

definition api_policies :: "yaml_dec \<Rightarrow> dentry list \<Rightarrow> string \<Rightarrow> Policy list" where
  "api_policies dec dir api =
     (case find_by de_name (canonical api) dir of
        Some e \<Rightarrow> (if de_regular e then file_policies dec e else [])
      | None \<Rightarrow> [])"

text \<open>A line format for the concrete checks: one line per policy, with api, name and description.\<close>

definition ex_pol :: "string \<Rightarrow> string \<Rightarrow> string \<Rightarrow> Policy" where
  "ex_pol api name desc = \<lparr>pol_API = api, pol_Name = name, pol_Description = desc, pol_Principal = [], pol_Action = [],
     pol_Condition = ''true'', pol_Result = Permit\<rparr>"

definition ex_enc :: yaml_enc where
  "ex_enc ps = Some (concat (map (\<lambda>p. pol_API p @ ''/'' @ pol_Name p @ ''='' @ pol_Description p @ '';'') ps))"

text \<open>A self-delimiting field codec, as a payload format whose round trip can be proved.\<close>

definition ex_field :: "string \<Rightarrow> string" where
  "ex_field f = concat (map (\<lambda>c. [CHR ''x'', c]) f) @ ''.''"

fun ex_take :: "string \<Rightarrow> (string \<times> string) option" where
  "ex_take [] = None"
| "ex_take [c] = (if c = CHR ''.'' then Some ([], []) else None)"
| "ex_take (c # d # r) =
     (if c = CHR ''.'' then Some ([], d # r)
      else (case ex_take r of None \<Rightarrow> None | Some (f, r') \<Rightarrow> Some (d # f, r')))"

fun ex_takes :: "nat \<Rightarrow> string \<Rightarrow> string list option" where
  "ex_takes 0 s = (if s = [] then Some [] else None)"
| "ex_takes (Suc n) s =
     (case ex_take s of
        None \<Rightarrow> None
      | Some (f, r) \<Rightarrow> (case ex_takes n r of None \<Rightarrow> None | Some fs \<Rightarrow> Some (f # fs)))"

definition ex_marshal :: "Policy \<Rightarrow> string" where
  "ex_marshal p = concat (map ex_field
     [pol_API p, pol_Name p, pol_Description p, pol_Principal p, pol_Action p, pol_Condition p, pol_Result p])"

definition ex_unmarshal :: "string \<Rightarrow> Policy option" where
  "ex_unmarshal s =
     (case ex_takes 7 s of
        Some [a, n, d, p, ac, c, r] \<Rightarrow>
          Some \<lparr>pol_API = a, pol_Name = n, pol_Description = d, pol_Principal = p, pol_Action = ac,
                pol_Condition = c, pol_Result = r\<rparr>
      | _ \<Rightarrow> None)"

definition ex_dec_line :: "string \<Rightarrow> Policy option" where
  "ex_dec_line l =
     (case Split (CHR ''/'') l of
        [a, rest] \<Rightarrow> (case Split (CHR ''='') rest of [n, d] \<Rightarrow> Some (ex_pol a n d) | _ \<Rightarrow> None)
      | _ \<Rightarrow> None)"

definition ex_dec :: yaml_dec where
  "ex_dec raw = those (map ex_dec_line (butlast (Split (CHR '';'') raw)))"

locale policy_store =
  fixes ops :: "'s Store" and inv :: "'s \<Rightarrow> bool"
  assumes list_total: "inv s \<Longrightarrow> \<exists>ps. so_List ops s = Inr ps"
    and put_ok: "inv s \<Longrightarrow> so_Put ops p s = (None, s') \<Longrightarrow> inv s' \<and> view_of ops s' = (view_of ops s)(pol_key p \<mapsto> p)"
    and put_listing: "inv s \<Longrightarrow> so_Put ops p s = (None, s') \<Longrightarrow> listing ops s' \<subseteq> insert p (listing ops s)"
    and put_err: "inv s \<Longrightarrow> so_Put ops p s = (Some e, s') \<Longrightarrow> s' = s"
    and del_ok: "inv s \<Longrightarrow> so_Delete ops api n s = (None, s') \<Longrightarrow>
      inv s' \<and> view_of ops s (api, n) \<noteq> None \<and> view_of ops s' = (view_of ops s)((api, n) := None)"
    and del_listing: "inv s \<Longrightarrow> so_Delete ops api n s = (None, s') \<Longrightarrow> listing ops s' \<subseteq> listing ops s"
    and del_err: "inv s \<Longrightarrow> so_Delete ops api n s = (Some e, s') \<Longrightarrow> s' = s"
    and del_missing: "inv s \<Longrightarrow> so_Delete ops api n s = (Some e, s') \<Longrightarrow> is_err ErrNotFound e \<Longrightarrow> view_of ops s (api, n) = None"
begin

lemma put_then_delete:
  "inv s \<Longrightarrow> so_Put ops p s = (None, s1) \<Longrightarrow> so_Delete ops (pol_API p) (pol_Name p) s1 = (None, s2) \<Longrightarrow>
     view_of ops s2 = (view_of ops s)(pol_key p := None)"
  using put_ok [of s p s1] del_ok [of s1 "pol_API p" "pol_Name p" s2] by (simp add: pol_key_def)

end

section \<open>SQLite\<close>

lemma ex_take_field: "ex_take (ex_field f @ r) = Some (f, r)"
proof (induction f)
  case Nil
  show ?case by (cases r) (simp_all add: ex_field_def)
qed (simp add: ex_field_def)

lemma ex_takes_fields: "ex_takes (length fs) (concat (map ex_field fs)) = Some fs"
  by (induction fs) (simp_all add: ex_take_field)

lemma ex_json_roundtrip: "json_roundtrip ex_marshal ex_unmarshal"
proof -
  have "ex_takes 7 (ex_marshal p) = Some [pol_API p, pol_Name p, pol_Description p, pol_Principal p, pol_Action p,
      pol_Condition p, pol_Result p]" (is "_ = Some ?fs") for p
  proof -
    have len: "length ?fs = 7" by simp
    show ?thesis using ex_takes_fields [of ?fs] unfolding len ex_marshal_def .
  qed
  then show ?thesis by (simp add: json_roundtrip_def ex_unmarshal_def)
qed

lemma decode_rows_ok:
  "\<forall>r \<in> set rs. unmarshal (row_payload r) \<noteq> None \<Longrightarrow>
     decode_rows unmarshal rs = Inr (map (\<lambda>r. the (unmarshal (row_payload r))) rs)"
  by (induction rs) auto

lemma sqlite_list:
  assumes "sqlite_inv marshal unmarshal db"
  shows "sqlite_List unmarshal db = Inr (map (\<lambda>r. the (unmarshal (row_payload r))) (sort_key row_key db))"
proof -
  have "\<forall>r \<in> set (sort_key row_key db). unmarshal (row_payload r) \<noteq> None"
    using assms unfolding sqlite_inv_def set_sort by fastforce
  then show ?thesis unfolding sqlite_List_def by (rule decode_rows_ok)
qed

lemma sqlite_view:
  assumes "sqlite_inv marshal unmarshal db"
  shows "view_of (sqliteStore marshal unmarshal io) db k
    = map_option (\<lambda>r. the (unmarshal (row_payload r))) (find_by row_key k db)"
proof -
  let ?f = "\<lambda>r. the (unmarshal (row_payload r))"
  have d: "distinct (map row_key db)" using assms by (simp add: sqlite_inv_def)
  then have ds: "distinct (map row_key (sort_key row_key db))" by (simp add: distinct_map)
  have key: "pol_key (?f r) = row_key r" if "r \<in> set db" for r
    using assms that by (fastforce simp: sqlite_inv_def)
  have "view_of (sqliteStore marshal unmarshal io) db k = last_by pol_key k (map ?f (sort_key row_key db))"
    by (simp add: view_of_def sqliteStore_def sqlite_list [OF assms])
  also have "\<dots> = map_option ?f (last_by row_key k (sort_key row_key db))"
    unfolding last_by_map by (rule arg_cong [where f = "map_option ?f"], rule last_by_cong) (simp add: key)
  also have "last_by row_key k (sort_key row_key db) = find_by row_key k db"
    using d ds by (simp add: distinct_find_last find_by_sort)
  finally show ?thesis .
qed

lemma sqlite_listing:
  assumes "sqlite_inv marshal unmarshal db"
  shows "listing (sqliteStore marshal unmarshal io) db = (\<lambda>r. the (unmarshal (row_payload r))) ` set db"
  by (simp add: listing_def sqliteStore_def sqlite_list [OF assms])

lemma sqlite_inv_Put:
  assumes "sqlite_inv marshal unmarshal db" "sqlite_Put marshal io p db = (None, db')"
  shows "sqlite_inv marshal unmarshal db'"
proof -
  let ?r = "\<lparr>row_api = pol_API p, row_name = pol_Name p, row_payload = marshal p\<rparr>"
  have db': "db' = upsert_by row_key ?r db" using assms(2) by (auto simp: sqlite_Put_def split: option.splits)
  have "pol_key p = row_key ?r" by (simp add: pol_key_def row_key_def)
  with assms(1) show ?thesis
    using set_upsert_by_subset [of row_key ?r db]
    unfolding db' sqlite_inv_def json_roundtrip_def by (auto simp: distinct_upsert_by)
qed

lemma sqlite_Delete_remove:
  assumes "distinct (map row_key db)"
  shows "filter (\<lambda>r. row_api r = api \<longrightarrow> row_name r \<noteq> n) db = remove_by row_key (api, n) db"
  unfolding remove_by_filter [OF assms] by (rule filter_cong) (auto simp: row_key_def)

lemma sqlite_inv_remove: "sqlite_inv marshal unmarshal db \<Longrightarrow> sqlite_inv marshal unmarshal (remove_by row_key k db)"
  using set_remove_by_subset [of row_key k db] by (auto simp: sqlite_inv_def distinct_remove_by)

interpretation sqlite: policy_store "sqliteStore marshal unmarshal io" "sqlite_inv marshal unmarshal"
  for marshal unmarshal io
proof
  let ?ops = "sqliteStore marshal unmarshal io" and ?inv = "sqlite_inv marshal unmarshal"
  fix s s' :: "row list" and p e api n
  assume inv: "?inv s"
  have d: "distinct (map row_key s)" using inv by (simp add: sqlite_inv_def)
  show "\<exists>ps. so_List ?ops s = Inr ps" using sqlite_list [OF inv] by (simp add: sqliteStore_def)
  show "?inv s' \<and> view_of ?ops s' = (view_of ?ops s)(pol_key p \<mapsto> p)" if put: "so_Put ?ops p s = (None, s')"
  proof -
    have put': "sqlite_Put marshal io p s = (None, s')" using put by (simp add: sqliteStore_def)
    then have s': "s' = upsert_by row_key \<lparr>row_api = pol_API p, row_name = pol_Name p, row_payload = marshal p\<rparr> s"
      by (auto simp: sqlite_Put_def split: option.splits)
    have inv': "?inv s'" using inv put' by (rule sqlite_inv_Put)
    moreover have "view_of ?ops s' k = ((view_of ?ops s)(pol_key p \<mapsto> p)) k" for k
      unfolding fun_upd_apply sqlite_view [OF inv'] sqlite_view [OF inv] unfolding s' using inv
      by (auto simp: find_by_upsert_by sqlite_inv_def json_roundtrip_def pol_key_def row_key_def)
    ultimately show ?thesis by blast
  qed
  show "listing ?ops s' \<subseteq> insert p (listing ?ops s)" if put: "so_Put ?ops p s = (None, s')"
  proof -
    let ?r = "\<lparr>row_api = pol_API p, row_name = pol_Name p, row_payload = marshal p\<rparr>"
    have put': "sqlite_Put marshal io p s = (None, s')" using put by (simp add: sqliteStore_def)
    then have s': "s' = upsert_by row_key ?r s" by (auto simp: sqlite_Put_def split: option.splits)
    have "the (unmarshal (row_payload ?r)) = p" using inv by (simp add: sqlite_inv_def json_roundtrip_def)
    then show ?thesis
      unfolding sqlite_listing [OF inv] sqlite_listing [OF sqlite_inv_Put [OF inv put']] unfolding s'
      using set_upsert_by_subset [of row_key ?r s] by auto
  qed
  show "s' = s" if "so_Put ?ops p s = (Some e, s')"
    using that by (auto simp: sqliteStore_def sqlite_Put_def split: option.splits)
  show "listing ?ops s' \<subseteq> listing ?ops s" if del: "so_Delete ?ops api n s = (None, s')"
  proof -
    have s': "s' = remove_by row_key (api, n) s"
      using del by (auto simp: sqliteStore_def sqlite_Delete_def Let_def sqlite_Delete_remove [OF d]
          split: option.splits if_splits)
    have "?inv s'" using inv unfolding s' by (rule sqlite_inv_remove)
    then show ?thesis unfolding sqlite_listing [OF inv]
      using set_remove_by_subset [of row_key "(api, n)" s] by (auto simp: sqlite_listing s')
  qed
  show "?inv s' \<and> view_of ?ops s (api, n) \<noteq> None \<and> view_of ?ops s' = (view_of ?ops s)((api, n) := None)"
    if del: "so_Delete ?ops api n s = (None, s')"
  proof -
    have s': "s' = remove_by row_key (api, n) s" "length s' \<noteq> length s"
      using del by (auto simp: sqliteStore_def sqlite_Delete_def Let_def sqlite_Delete_remove [OF d]
          split: option.splits if_splits)
    then have "find_by row_key (api, n) s \<noteq> None" by (simp add: length_remove_by_eq find_by_None_iff)
    moreover have inv': "?inv s'" using inv unfolding s'(1) by (rule sqlite_inv_remove)
    moreover have "view_of ?ops s' = (view_of ?ops s)((api, n) := None)"
      by (rule ext) (simp add: sqlite_view [OF inv] sqlite_view [OF inv'], simp add: s'(1) find_by_remove_by [OF d])
    ultimately show ?thesis by (simp add: sqlite_view [OF inv])
  qed
  have err: "s' = s \<and> (is_err ErrNotFound e \<longrightarrow> find_by row_key (api, n) s = None)"
    if "so_Delete ?ops api n s = (Some e, s')" for e
    using that remove_by_id [of "(api, n)" row_key s]
    by (auto simp: sqliteStore_def sqlite_Delete_def Let_def sqlite_Delete_remove [OF d] find_by_None_iff
        length_remove_by_eq split: option.splits if_splits)
  show "s' = s" if "so_Delete ?ops api n s = (Some e, s')"
    using err [OF that] by simp
  show "view_of ?ops s (api, n) = None" if "so_Delete ?ops api n s = (Some e, s')" "is_err ErrNotFound e"
    using err [OF that(1)] that(2) by (simp add: sqlite_view [OF inv])
qed

section \<open>YAML directory\<close>

lemma canonical_inject [simp]: "canonical a = canonical b \<longleftrightarrow> a = b"
  by (simp add: canonical_def)

lemma isYAML_canonical [simp]: "isYAML (canonical api)"
  by (simp add: isYAML_def canonical_def ToLower_def HasSuffix_def lower_char_def is_upper_def Let_def)

lemma read_files_ok:
  "\<forall>e \<in> set es. de_regular e \<and> isYAML (de_name e) \<longrightarrow> dec (de_raw e) \<noteq> None \<Longrightarrow>
     read_files dec es = Inr (concat (map (file_policies dec) (filter (\<lambda>e. de_regular e \<and> isYAML (de_name e)) es)))"
  by (induction es) (auto simp: decodePoliciesFile_def file_policies_def)

lemma readAll_ok:
  assumes "file_inv enc dec dir"
  shows "readAll dec dir = Inr (concat (map (file_policies dec) (yaml_files dir)))"
  unfolding readAll_def yaml_files_def using assms
  by (intro read_files_ok) (fastforce simp: file_inv_def policy_file_def)

lemma yaml_files_policy:
  assumes "file_inv enc dec dir" "e \<in> set (yaml_files dir)"
  shows "find_by de_name (de_name e) dir = Some e" "p \<in> set (file_policies dec e) \<Longrightarrow> canonical (pol_API p) = de_name e"
    "distinct (map pol_Name (file_policies dec e))" "de_regular e"
proof -
  have e: "e \<in> set dir" "de_regular e" "policy_file dec e"
    using assms by (auto simp: yaml_files_def file_inv_def)
  show "find_by de_name (de_name e) dir = Some e" using assms(1) e(1) by (simp add: file_inv_def find_by_distinct)
  show "p \<in> set (file_policies dec e) \<Longrightarrow> canonical (pol_API p) = de_name e"
    "distinct (map pol_Name (file_policies dec e))" "de_regular e"
    using e by (auto simp: policy_file_def file_policies_def)
qed

lemma distinct_yaml_files: "file_inv enc dec dir \<Longrightarrow> distinct (map de_name (yaml_files dir))"
  by (auto simp: file_inv_def yaml_files_def distinct_map inj_on_def)

lemma yaml_files_by_name:
  assumes "file_inv enc dec dir"
  shows "concat (map (file_policies dec) (yaml_files dir)) =
    concat (map (\<lambda>n. file_policies dec (the (find_by de_name n dir))) (map de_name (yaml_files dir)))"
  using yaml_files_policy(1) [OF assms] by (auto intro!: arg_cong [where f = concat])

lemma canonical_listed:
  assumes "file_inv enc dec dir"
  shows "canonical api \<in> set (map de_name (yaml_files dir)) \<longleftrightarrow>
    (\<exists>e. find_by de_name (canonical api) dir = Some e \<and> de_regular e)"
proof
  assume "canonical api \<in> set (map de_name (yaml_files dir))"
  then obtain e where "e \<in> set (yaml_files dir)" "de_name e = canonical api" by auto
  with yaml_files_policy [OF assms this(1)] show "\<exists>e. find_by de_name (canonical api) dir = Some e \<and> de_regular e"
    by auto
next
  assume "\<exists>e. find_by de_name (canonical api) dir = Some e \<and> de_regular e"
  then obtain e where e: "find_by de_name (canonical api) dir = Some e" "de_regular e" by blast
  then have "e \<in> set dir" "de_name e = canonical api" using find_by_Some [OF e(1)] by auto
  moreover have "isYAML (de_name e)" unfolding calculation(2) by simp
  ultimately show "canonical api \<in> set (map de_name (yaml_files dir))"
    using e(2) by (force simp: yaml_files_def)
qed

lemma file_last_by:
  assumes "file_inv enc dec dir"
  shows "last_by pol_key (api, n) (concat (map (file_policies dec) (yaml_files dir)))
    = find_by pol_Name n (api_policies dec dir api)"
proof -
  let ?g = "\<lambda>n. file_policies dec (the (find_by de_name n dir))" and ?ns = "map de_name (yaml_files dir)"
  have own: "canonical (pol_API p) = m" if "m \<in> set ?ns" "p \<in> set (?g m)" for m p
    using that yaml_files_policy [OF assms] by fastforce
  have "last_by pol_key (api, n) (concat (map ?g ?ns)) =
      last_by (\<lambda>p. (canonical (pol_API p), pol_Name p)) (canonical api, n) (concat (map ?g ?ns))"
    by (rule last_by_cong) (auto simp: pol_key_def)
  also have "\<dots> = (if canonical api \<in> set ?ns
      then last_by (\<lambda>p. (canonical (pol_API p), pol_Name p)) (canonical api, n) (?g (canonical api)) else None)"
    by (rule last_by_concat) (rule own)
  also have "\<dots> = find_by pol_Name n (api_policies dec dir api)"
  proof (cases "canonical api \<in> set ?ns")
    case True
    then obtain e where e: "find_by de_name (canonical api) dir = Some e" "de_regular e" "e \<in> set (yaml_files dir)"
      using yaml_files_policy [OF assms] by fastforce
    have "last_by (\<lambda>p. (canonical (pol_API p), pol_Name p)) (canonical api, n) (?g (canonical api))
        = last_by pol_Name n (?g (canonical api))"
      by (rule last_by_cong) (use own [OF True] in auto)
    also have "\<dots> = find_by pol_Name n (?g (canonical api))"
      using yaml_files_policy(3) [OF assms e(3)] e(1) by (intro distinct_find_last) simp
    finally show ?thesis using True e by (simp add: api_policies_def)
  next
    case False
    with canonical_listed [OF assms] show ?thesis by (auto simp: api_policies_def split: option.splits)
  qed
  finally show ?thesis by (simp only: yaml_files_by_name [OF assms])
qed

lemma file_view:
  assumes "file_inv enc dec dir"
  shows "view_of (FileStore enc dec io) dir (api, n) = find_by pol_Name n (api_policies dec dir api)"
  by (simp add: view_of_def FileStore_def file_List_def readAll_ok [OF assms] file_last_by [OF assms])

lemma file_scoped:
  assumes "file_inv enc dec dir"
  shows "filterByAPI (concat (map (file_policies dec) (yaml_files dir))) api = api_policies dec dir api"
proof -
  let ?g = "\<lambda>n. file_policies dec (the (find_by de_name n dir))" and ?ns = "map de_name (yaml_files dir)"
  have own: "canonical (pol_API p) = m" if "m \<in> set ?ns" "p \<in> set (?g m)" for m p
    using that yaml_files_policy [OF assms] by fastforce
  have "filterByAPI (concat (map ?g ?ns)) api = filter (\<lambda>p. canonical (pol_API p) = canonical api) (concat (map ?g ?ns))"
    by (simp add: filterByAPI_def)
  also have "\<dots> = (if canonical api \<in> set ?ns then ?g (canonical api) else [])"
    using distinct_yaml_files [OF assms] by (rule filter_concat_key) (rule own)
  also have "\<dots> = api_policies dec dir api"
    unfolding canonical_listed [OF assms] by (auto simp: api_policies_def split: option.split)
  finally show ?thesis by (simp only: yaml_files_by_name [OF assms])
qed

lemma file_listing:
  assumes "file_inv enc dec dir"
  shows "p \<in> listing (FileStore enc dec io) dir \<longleftrightarrow> p \<in> set (api_policies dec dir (pol_API p))"
  unfolding file_scoped [OF assms, symmetric]
  by (simp add: listing_def FileStore_def file_List_def readAll_ok [OF assms] filterByAPI_def)

lemma api_policies_distinct:
  assumes "file_inv enc dec dir"
  shows "distinct (map pol_Name (api_policies dec dir api))" "p \<in> set (api_policies dec dir api) \<Longrightarrow> pol_API p = api"
proof -
  have "distinct (map pol_Name (file_policies dec e)) \<and> (\<forall>p \<in> set (file_policies dec e). pol_API p = api)"
    if "find_by de_name (canonical api) dir = Some e" "de_regular e" for e
  proof -
    have "e \<in> set dir" "de_name e = canonical api" using find_by_Some [OF that(1)] by auto
    then have "policy_file dec e" using assms that(2) by (simp add: file_inv_def)
    with \<open>de_name e = canonical api\<close> show ?thesis by (auto simp: policy_file_def file_policies_def)
  qed
  then show "distinct (map pol_Name (api_policies dec dir api))" "p \<in> set (api_policies dec dir api) \<Longrightarrow> pol_API p = api"
    by (cases "find_by de_name (canonical api) dir"; auto simp: api_policies_def split: if_splits)+
qed

lemma scrub_noop:
  assumes "\<And>e. e \<in> set es \<Longrightarrow> de_regular e \<Longrightarrow> isYAML (de_name e) \<Longrightarrow> policy_file dec e"
  shows "scrub_loop enc dec io api n es dir = (None, dir)"
  using assms
proof (induction es)
  case (Cons e es)
  show ?case
  proof (cases "de_regular e \<and> isYAML (de_name e) \<and> de_name e \<noteq> canonical api")
    case True
    then obtain api' ps where "de_name e = canonical api'" "dec (de_raw e) = Some ps" "\<forall>p \<in> set ps. pol_API p = api'"
      "api' \<noteq> api" using Cons.prems [of e] by (auto simp: policy_file_def)
    moreover from this have "withoutEntry ps api n = ps" by (auto simp: withoutEntry_def)
    ultimately show ?thesis using Cons by (simp add: decodePoliciesFile_def Let_def)
  qed (use Cons in auto)
qed simp

lemma scrub_inv: "file_inv enc dec dir \<Longrightarrow> scrubLegacyEntry enc dec io api n dir = (None, dir)"
  unfolding scrubLegacyEntry_def by (rule scrub_noop) (simp add: file_inv_def)

text \<open>The canonical file rewritten: only the policies of that API change.\<close>

lemma writeAPIFile_ok:
  assumes inv: "file_inv enc dec dir" and w: "writeAPIFile enc io api ps dir = (None, dir')"
    and ps: "\<forall>p \<in> set ps. pol_API p = api" "distinct (map pol_Name ps)"
  shows "file_inv enc dec dir'" "api_policies dec dir' b = (if b = api then ps else api_policies dec dir b)"
proof -
  have d: "distinct (map de_name dir)" using inv by (simp add: file_inv_def)
  have "file_inv enc dec dir' \<and> api_policies dec dir' b = (if b = api then ps else api_policies dec dir b)"
  proof (cases "ps = []")
    case True
    then have dir': "dir' = remove_by de_name (canonical api) dir"
      using w by (auto simp: writeAPIFile_def Let_def split: if_splits option.splits)
    have "file_inv enc dec dir'"
      using inv set_remove_by_subset [of de_name "canonical api" dir]
      unfolding dir' by (auto simp: file_inv_def distinct_remove_by)
    moreover have "api_policies dec dir' b = (if b = api then ps else api_policies dec dir b)"
      by (simp add: api_policies_def dir' find_by_remove_by [OF d] True)
    ultimately show ?thesis by blast
  next
    case False
    then obtain raw where raw: "enc ps = Some raw"
      and dir': "dir' = upsert_by de_name \<lparr>de_name = canonical api, de_regular = True, de_raw = raw\<rparr> dir"
      using w by (auto simp: writeAPIFile_def Let_def atomicWrite_def split: if_splits option.splits)
    let ?e = "\<lparr>de_name = canonical api, de_regular = True, de_raw = raw\<rparr>"
    have dec: "dec raw = Some ps" using inv raw False by (simp add: file_inv_def yaml_roundtrip_def)
    then have "policy_file dec ?e" using ps by (auto simp: policy_file_def)
    with inv have "file_inv enc dec dir'"
      using set_upsert_by_subset [of de_name ?e dir] unfolding dir' by (auto simp: file_inv_def distinct_upsert_by)
    moreover have "api_policies dec dir' b = (if b = api then ps else api_policies dec dir b)"
      by (simp add: api_policies_def dir' find_by_upsert_by file_policies_def dec)
    ultimately show ?thesis by blast
  qed
  then show "file_inv enc dec dir'" "api_policies dec dir' b = (if b = api then ps else api_policies dec dir b)"
    by blast+
qed

lemma writeAPIFile_err: "writeAPIFile enc io api ps dir = (Some e, dir') \<Longrightarrow> dir' = dir"
  by (auto simp: writeAPIFile_def Let_def atomicWrite_def split: if_splits option.splits)

lemma file_Put_ok:
  assumes inv: "file_inv enc dec dir" and put: "file_Put enc dec io p dir = (None, dir')"
  shows "file_inv enc dec dir'" "api_policies dec dir' b =
    (if b = pol_API p then upsert_by pol_Name p (api_policies dec dir b) else api_policies dec dir b)"
proof -
  let ?ps = "upsert_by pol_Name p (api_policies dec dir (pol_API p))"
  obtain dir1 where w: "writeAPIFile enc io (pol_API p) ?ps dir = (None, dir1)"
    and dir': "dir' = snd (scrubLegacyEntry enc dec io (pol_API p) (pol_Name p) dir1)"
    using put by (auto simp: file_Put_def readAll_ok [OF inv] file_scoped [OF inv] upsert_def split: prod.splits option.splits)
  have "\<forall>q \<in> set ?ps. pol_API q = pol_API p"
    using set_upsert_by_subset [of pol_Name p "api_policies dec dir (pol_API p)"] api_policies_distinct(2) [OF inv] by auto
  from writeAPIFile_ok [OF inv w this distinct_upsert_by [OF api_policies_distinct(1) [OF inv]]]
  show "file_inv enc dec dir'" "api_policies dec dir' b =
    (if b = pol_API p then upsert_by pol_Name p (api_policies dec dir b) else api_policies dec dir b)"
    by (auto simp: dir' scrub_inv)
qed

lemma file_Delete_ok:
  assumes inv: "file_inv enc dec dir" and del: "file_Delete enc dec io api n dir = (None, dir')"
  shows "file_inv enc dec dir'" "n \<in> pol_Name ` set (api_policies dec dir api)" "api_policies dec dir' b =
    (if b = api then remove_by pol_Name n (api_policies dec dir b) else api_policies dec dir b)"
proof -
  let ?ps = "remove_by pol_Name n (api_policies dec dir api)"
  obtain dir1 where w: "writeAPIFile enc io api ?ps dir = (None, dir1)"
    and dir': "dir' = snd (scrubLegacyEntry enc dec io api n dir1)"
    and len: "length ?ps \<noteq> length (api_policies dec dir api)"
    using del by (auto simp: file_Delete_def readAll_ok [OF inv] file_scoped [OF inv] remove_def Let_def
        split: prod.splits option.splits if_splits)
  show "n \<in> pol_Name ` set (api_policies dec dir api)" using len by (simp add: length_remove_by_eq)
  have "\<forall>q \<in> set ?ps. pol_API q = api"
    using set_remove_by_subset [of pol_Name n "api_policies dec dir api"] api_policies_distinct(2) [OF inv] by auto
  from writeAPIFile_ok [OF inv w this distinct_remove_by [OF api_policies_distinct(1) [OF inv]]]
  show "file_inv enc dec dir'" "api_policies dec dir' b =
    (if b = api then remove_by pol_Name n (api_policies dec dir b) else api_policies dec dir b)"
    by (auto simp: dir' scrub_inv)
qed

lemma file_err:
  assumes "file_inv enc dec dir"
  shows "file_Put enc dec io p dir = (Some e, dir') \<Longrightarrow> dir' = dir"
    "file_Delete enc dec io api n dir = (Some e, dir') \<Longrightarrow>
       dir' = dir \<and> (is_err ErrNotFound e \<longrightarrow> n \<notin> pol_Name ` set (api_policies dec dir api))"
  by (auto simp: file_Put_def file_Delete_def readAll_ok [OF assms] file_scoped [OF assms] remove_def Let_def
      length_remove_by_eq atomicWrite_def writeAPIFile_def
      split: prod.splits option.splits if_splits dest: writeAPIFile_err)

interpretation files: policy_store "FileStore enc dec io" "file_inv enc dec"
  for enc dec io
proof
  let ?ops = "FileStore enc dec io"
  fix s s' :: "dentry list" and p e api n
  assume inv: "file_inv enc dec s"
  have views: "file_inv enc dec s' \<Longrightarrow> view_of ?ops s' (b, m) = find_by pol_Name m (api_policies dec s' b)" for b m s'
    by (rule file_view)
  show "\<exists>ps. so_List ?ops s = Inr ps" by (simp add: FileStore_def file_List_def readAll_ok [OF inv])
  show "file_inv enc dec s' \<and> view_of ?ops s' = (view_of ?ops s)(pol_key p \<mapsto> p)" if "so_Put ?ops p s = (None, s')"
  proof -
    have put: "file_Put enc dec io p s = (None, s')" using that by (simp add: FileStore_def)
    note P = file_Put_ok [OF inv put]
    have "view_of ?ops s' k = ((view_of ?ops s)(pol_key p \<mapsto> p)) k" for k
      by (cases k) (simp add: views [OF P(1)] views [OF inv] P(2) find_by_upsert_by pol_key_def)
    with P(1) show ?thesis by blast
  qed
  show "file_inv enc dec s' \<and> view_of ?ops s (api, n) \<noteq> None \<and> view_of ?ops s' = (view_of ?ops s)((api, n) := None)"
    if "so_Delete ?ops api n s = (None, s')"
  proof -
    have del: "file_Delete enc dec io api n s = (None, s')" using that by (simp add: FileStore_def)
    note D = file_Delete_ok [OF inv del]
    have "view_of ?ops s' k = ((view_of ?ops s)((api, n) := None)) k" for k
      by (cases k) (simp add: views [OF D(1)] views [OF inv] D(3) find_by_remove_by api_policies_distinct(1) [OF inv])
    moreover have "view_of ?ops s (api, n) \<noteq> None" using D(2) by (simp add: views [OF inv] find_by_None_iff)
    ultimately show ?thesis using D(1) by blast
  qed
  show "listing ?ops s' \<subseteq> insert p (listing ?ops s)" if "so_Put ?ops p s = (None, s')"
  proof -
    have put: "file_Put enc dec io p s = (None, s')" using that by (simp add: FileStore_def)
    note P = file_Put_ok [OF inv put]
    show ?thesis
      using set_upsert_by_subset [of pol_Name p "api_policies dec s (pol_API p)"]
      by (auto simp: file_listing [OF inv] file_listing [OF P(1)] P(2) split: if_splits)
  qed
  show "listing ?ops s' \<subseteq> listing ?ops s" if "so_Delete ?ops api n s = (None, s')"
  proof -
    have del: "file_Delete enc dec io api n s = (None, s')" using that by (simp add: FileStore_def)
    note D = file_Delete_ok [OF inv del]
    show ?thesis
      using set_remove_by_subset [of pol_Name n "api_policies dec s api"]
      by (auto simp: file_listing [OF inv] file_listing [OF D(1)] D(3) split: if_splits)
  qed
  show "s' = s" if "so_Put ?ops p s = (Some e, s')"
    using that file_err(1) [OF inv] by (auto simp: FileStore_def)
  show "s' = s" if "so_Delete ?ops api n s = (Some e, s')"
    using that file_err(2) [OF inv, of io api n e s'] by (simp add: FileStore_def)
  show "view_of ?ops s (api, n) = None" if "so_Delete ?ops api n s = (Some e, s')" "is_err ErrNotFound e"
    using that file_err(2) [OF inv, of io api n e s'] unfolding views [OF inv]
    by (simp add: FileStore_def find_by_None_iff)
qed

section \<open>Layers\<close>

text \<open>A writable store over a read-only one keeps the contract, for any pair of stores.\<close>

locale layered_stores = primary: policy_store pops pinv
  for pops :: "'p Store" and pinv :: "'p \<Rightarrow> bool" +
  fixes seed :: "'q Store"
begin

lemma layered_view:
  assumes "so_List seed q = Inr qs" "pinv p"
  shows "view_of (LayeredStore pops seed) (p, q) k =
    (case view_of pops p k of Some v \<Rightarrow> Some v | None \<Rightarrow> last_by pol_key k qs)"
  using primary.list_total [OF assms(2)] assms(1)
  by (auto simp: view_of_def LayeredStore_def layered_List_def last_by_append split: option.split)

lemma layered_listing:
  assumes "so_List seed q = Inr qs" "pinv p"
  shows "listing (LayeredStore pops seed) (p, q) = set qs \<union> listing pops p"
  using primary.list_total [OF assms(2)] assms(1) by (auto simp: listing_def LayeredStore_def layered_List_def)

end

sublocale layered_stores \<subseteq> layered: policy_store "LayeredStore pops seed"
  "\<lambda>(p, q). pinv p \<and> (\<exists>qs. so_List seed q = Inr qs)"
proof
  let ?ops = "LayeredStore pops seed"
  fix s s' :: "'p \<times> 'q" and pol e api n
  assume "case s of (p, q) \<Rightarrow> pinv p \<and> (\<exists>qs. so_List seed q = Inr qs)"
  then obtain p q qs where s: "s = (p, q)" "pinv p" "so_List seed q = Inr qs" by (cases s) auto
  note view = layered_view [OF s(3)]
  show "\<exists>ps. so_List ?ops s = Inr ps"
    using primary.list_total [OF s(2)] s by (auto simp: LayeredStore_def layered_List_def)
  show "(case s' of (p, q) \<Rightarrow> pinv p \<and> (\<exists>qs. so_List seed q = Inr qs)) \<and> view_of ?ops s' = (view_of ?ops s)(pol_key pol \<mapsto> pol)"
    if put: "so_Put ?ops pol s = (None, s')"
  proof -
    obtain p' where p': "so_Put pops pol p = (None, p')" "s' = (p', q)"
      using put s(1) by (auto simp: LayeredStore_def layered_Put_def split: prod.splits)
    from primary.put_ok [OF s(2) p'(1)] s(1,3) p'(2) show ?thesis
      by (auto simp: view [OF s(2)] view fun_eq_iff)
  qed
  show "listing ?ops s' \<subseteq> insert pol (listing ?ops s)" if put: "so_Put ?ops pol s = (None, s')"
  proof -
    obtain p' where p': "so_Put pops pol p = (None, p')" "s' = (p', q)"
      using put s(1) by (auto simp: LayeredStore_def layered_Put_def split: prod.splits)
    with primary.put_listing [OF s(2) p'(1)] primary.put_ok [OF s(2) p'(1)] s show ?thesis
      by (auto simp: layered_listing)
  qed
  show "s' = s" if put: "so_Put ?ops pol s = (Some e, s')"
    using put s(1) primary.put_err [OF s(2)] by (auto simp: LayeredStore_def layered_Put_def split: prod.splits)
  have not_seeded: "last_by pol_key (api, n) qs = None" if "\<not> list_ex (\<lambda>x. pol_API x = api \<and> pol_Name x = n) qs"
    using that by (auto simp: last_by_None_iff list_ex_iff pol_key_def)
  have del: "(so_Delete ?ops api n s = (r, s')) \<longleftrightarrow>
      (if list_ex (\<lambda>x. pol_API x = api \<and> pol_Name x = n) qs
       then r = Some (PWrap ''policy is defined in the policies directory'' ErrReadOnly) \<and> s' = s
       else \<exists>p'. so_Delete pops api n p = (r, p') \<and> s' = (p', q))" for r
    using s(1,3) by (auto simp: LayeredStore_def layered_Delete_def split: prod.splits)
  show "(case s' of (p, q) \<Rightarrow> pinv p \<and> (\<exists>qs. so_List seed q = Inr qs)) \<and> view_of ?ops s (api, n) \<noteq> None
      \<and> view_of ?ops s' = (view_of ?ops s)((api, n) := None)" if d: "so_Delete ?ops api n s = (None, s')"
  proof -
    from d obtain p' where p': "so_Delete pops api n p = (None, p')" "s' = (p', q)"
      "\<not> list_ex (\<lambda>x. pol_API x = api \<and> pol_Name x = n) qs" unfolding del by (auto split: if_splits)
    from primary.del_ok [OF s(2) p'(1)] s(1,3) p'(2) not_seeded [OF p'(3)] show ?thesis
      by (auto simp: view [OF s(2)] view fun_eq_iff split: option.split)
  qed
  show "listing ?ops s' \<subseteq> listing ?ops s" if d: "so_Delete ?ops api n s = (None, s')"
  proof -
    from d obtain p' where p': "so_Delete pops api n p = (None, p')" "s' = (p', q)"
      unfolding del by (auto split: if_splits)
    with primary.del_listing [OF s(2) p'(1)] primary.del_ok [OF s(2) p'(1)] s show ?thesis
      by (auto simp: layered_listing)
  qed
  show "s' = s" if d: "so_Delete ?ops api n s = (Some e, s')"
    using d primary.del_err [OF s(2)] s(1) unfolding del by (auto split: if_splits)
  show "view_of ?ops s (api, n) = None" if d: "so_Delete ?ops api n s = (Some e, s')" "is_err ErrNotFound e"
  proof -
    from d obtain p' where p': "so_Delete pops api n p = (Some e, p')"
      "\<not> list_ex (\<lambda>x. pol_API x = api \<and> pol_Name x = n) qs" unfolding del by (auto split: if_splits)
    from primary.del_missing [OF s(2) p'(1) d(2)] not_seeded [OF p'(2)] s(1) show ?thesis
      by (simp add: view [OF s(2)])
  qed
qed

text \<open>The layout of a data directory: SQLite over a seed such as the files of \<^verbatim>\<open>--policies-dir\<close>.\<close>

interpretation data_dir: layered_stores "sqliteStore marshal unmarshal db_io" "sqlite_inv marshal unmarshal" seed
  for marshal unmarshal db_io seed
  by unfold_locales

section \<open>Properties\<close>



text \<open>
  A policy edit over the YAML seed shadows the file and survives a restart; a delete succeeds only
  for a policy no seed file defines, so a boot never brings a deleted policy back.
\<close>

theorem LayeredStore_contract:
  fixes io :: "string option"
  assumes "sqlite_inv marshal unmarshal db" "so_List seed q = Inr qs"
  defines "ops \<equiv> LayeredStore (sqliteStore marshal unmarshal io) seed"
  shows "(\<forall>s'. so_Put ops p (db, q) = (None, s') \<longrightarrow> view_of ops s' = (view_of ops (db, q))(pol_key p \<mapsto> p) \<and> snd s' = q)
    \<and> (\<forall>s'. so_Delete ops api n (db, q) = (None, s') \<longrightarrow>
         (\<forall>x \<in> set qs. pol_key x \<noteq> (api, n)) \<and> view_of ops s' = (view_of ops (db, q))((api, n) := None) \<and> snd s' = q)"
proof -
  have i: "case (db, q) of (p, q) \<Rightarrow> sqlite_inv marshal unmarshal p \<and> (\<exists>qs. so_List seed q = Inr qs)"
    using assms by simp
  have "so_Put ops p (db, q) = (None, s') \<Longrightarrow> view_of ops s' = (view_of ops (db, q))(pol_key p \<mapsto> p)" for s'
    using data_dir.layered.put_ok [OF i, of io p s'] by (simp add: ops_def)
  moreover have "so_Put ops p (db, q) = (None, s') \<Longrightarrow> snd s' = q" for s'
    by (auto simp: ops_def LayeredStore_def layered_Put_def split: prod.splits)
  moreover have "so_Delete ops api n (db, q) = (None, s') \<Longrightarrow> view_of ops s' = (view_of ops (db, q))((api, n) := None)" for s'
    using data_dir.layered.del_ok [OF i, of io api n s'] by (simp add: ops_def)
  moreover have "so_Delete ops api n (db, q) = (None, s') \<Longrightarrow> snd s' = q \<and> (\<forall>x \<in> set qs. pol_key x \<noteq> (api, n))" for s'
    using assms(2) by (auto simp: ops_def LayeredStore_def layered_Delete_def list_ex_iff pol_key_def split: prod.splits if_splits)
  ultimately show ?thesis by blast
qed

theorem LayeredStore_contract_witness:
  "let seed = FileStore ex_enc ex_dec (\<lambda>_. None); q = [\<lparr>de_name = ''d_policy.yaml'', de_regular = True, de_raw = ''d/a=file;''\<rparr>];
       ops = LayeredStore (sqliteStore ex_marshal ex_unmarshal None) seed
   in so_List seed q = Inr [ex_pol ''d'' ''a'' ''file'']
      \<and> view_of ops ([], q) (''d'', ''a'') = Some (ex_pol ''d'' ''a'' ''file'')
      \<and> (\<exists>s'. so_Put ops (ex_pol ''d'' ''a'' ''edit'') ([], q) = (None, s')
            \<and> view_of ops s' (''d'', ''a'') = Some (ex_pol ''d'' ''a'' ''edit''))"
proof -
  let ?seed = "FileStore ex_enc ex_dec (\<lambda>_. None)"
  let ?q = "[\<lparr>de_name = ''d_policy.yaml'', de_regular = True, de_raw = ''d/a=file;''\<rparr>]"
  let ?ops = "LayeredStore (sqliteStore ex_marshal ex_unmarshal None) ?seed"
  let ?p = "ex_pol ''d'' ''a'' ''edit''"
  have i: "sqlite_inv ex_marshal ex_unmarshal []" using ex_json_roundtrip by (simp add: sqlite_inv_def)
  have l: "so_List ?seed ?q = Inr [ex_pol ''d'' ''a'' ''file'']"
    "view_of ?ops ([], ?q) (''d'', ''a'') = Some (ex_pol ''d'' ''a'' ''file'')" by code_simp+
  have k: "pol_key ?p = (''d'', ''a'')" by (simp add: ex_pol_def pol_key_def)
  obtain s' where put: "so_Put ?ops ?p ([], ?q) = (None, s')"
    by (simp add: LayeredStore_def layered_Put_def sqliteStore_def sqlite_Put_def)
  have "view_of ?ops s' = (view_of ?ops ([], ?q))(pol_key ?p \<mapsto> ?p)"
    using conjunct1 [OF LayeredStore_contract [OF i l(1), of None ?p "''d''" "''a''"]] put by blast
  then have "view_of ?ops s' (''d'', ''a'') = Some ?p" unfolding k by simp
  with put l show ?thesis unfolding Let_def by blast
qed

text \<open>
  With legacy files the directory does not keep this contract.  Here \<^verbatim>\<open>z.yaml\<close> holds policy \<open>q\<close>; a first
  \<open>Put\<close> of another policy of the API copies \<open>q\<close> into the canonical file; the second \<open>Put\<close>, of a new
  \<open>q\<close>, replaces only the first of the two copies it has read and writes the stale one behind it.  Both
  operations succeed, and the next boot, where the last entry wins, loads the old \<open>q\<close>.  A \<open>Delete\<close> of
  \<open>q\<close> in the same state succeeds and leaves the stale copy in the canonical file.
\<close>

lemma FileStore_legacy_put_lost:
  "let dir0 = [\<lparr>de_name = ''z.yaml'', de_regular = True, de_raw = ''d/q=old;''\<rparr>];
       (e1, dir1) = file_Put ex_enc ex_dec (\<lambda>_. None) (ex_pol ''d'' ''p'' ''new'') dir0;
       (e2, dir2) = file_Put ex_enc ex_dec (\<lambda>_. None) (ex_pol ''d'' ''q'' ''new'') dir1;
       (e3, dir3) = file_Delete ex_enc ex_dec (\<lambda>_. None) ''d'' ''q'' dir1
   in e1 = None \<and> e2 = None \<and> e3 = None
      \<and> view_of (FileStore ex_enc ex_dec (\<lambda>_. None)) dir2 (''d'', ''q'') = Some (ex_pol ''d'' ''q'' ''old'')
      \<and> view_of (FileStore ex_enc ex_dec (\<lambda>_. None)) dir3 (''d'', ''q'') = Some (ex_pol ''d'' ''q'' ''old'')"
  by code_simp

end
