(* ===== verification/PolicyService.thy ===== *)
theory PolicyService
  imports PolicyStores
begin

text \<open>
  The policy service of \<^verbatim>\<open>internal/control/policies/policies.go\<close>: validate, persist, apply.  Its mutex makes
  every write one step.  The store is any implementation of the interface; the lemmas are proved once
  from the contract \<open>policy_store\<close>.
\<close>

section \<open>Definitions\<close>

record ('s, 'u) Service =
  sv_rt :: "'u Runtime"
  sv_store :: 's
  sv_readOnly :: bool

definition New :: "'u Runtime \<Rightarrow> 's \<Rightarrow> ('s, 'u) Service" where
  "New rt store = \<lparr>sv_rt = rt, sv_store = store, sv_readOnly = False\<rparr>"

definition SetReadOnly :: "bool \<Rightarrow> ('s, 'u) Service \<Rightarrow> ('s, 'u) Service" where
  "SetReadOnly ro sv = sv\<lparr>sv_readOnly := ro\<rparr>"

definition Writeable :: "('s, 'u) Service \<Rightarrow> bool" where
  "Writeable sv \<longleftrightarrow> \<not> sv_readOnly sv"

definition basicSchema :: "Policy \<Rightarrow> string option" where
  "basicSchema p =
     (if pol_API p = [] then Some ''api is required''
      else if pol_Name p = [] then Some ''name is required''
      else if pol_Condition p = [] then Some ''condition is required''
      else (case PolicyResult_Validate (pol_Result p) of
              Some e \<Rightarrow> Some ''result''
            | None \<Rightarrow> None))"

definition Validate :: "compiler \<Rightarrow> Policy \<Rightarrow> 'u Runtime \<Rightarrow> perr option" where
  "Validate compile p rt =
     (case basicSchema p of
        Some msg \<Rightarrow> Some (PWrap msg ErrInvalid)
      | None \<Rightarrow>
          (case ValidatePolicy compile p rt of
             Some e \<Rightarrow> Some (PWrap ''compile'' ErrInvalid)
           | None \<Rightarrow> None))"

definition Service_find :: "'u Runtime \<Rightarrow> string \<Rightarrow> string \<Rightarrow> Policy option" where
  "Service_find rt api name = find_by pol_key (api, name) (ListPolicies rt)"

definition Service_List :: "('s, 'u) Service \<Rightarrow> Policy list" where
  "Service_List sv = ListPolicies (sv_rt sv)"

definition Service_Get :: "string \<Rightarrow> string \<Rightarrow> ('s, 'u) Service \<Rightarrow> perr + Policy" where
  "Service_Get api name sv =
     (case Service_find (sv_rt sv) api name of Some p \<Rightarrow> Inr p | None \<Rightarrow> Inl ErrNotFound)"

definition persistAndApply ::
  "compiler \<Rightarrow> 's Store \<Rightarrow> Policy \<Rightarrow> ('s, 'u) Service \<Rightarrow> perr option \<times> ('s, 'u) Service" where
  "persistAndApply compile ops p sv =
     (case so_Put ops p (sv_store sv) of
        (Some e, st) \<Rightarrow> (Some (PWrap ''store put'' e), sv\<lparr>sv_store := st\<rparr>)
      | (None, st) \<Rightarrow>
          (case ReplacePolicy compile p (sv_rt sv) of
             Inl e \<Rightarrow> (Some (PIO ''runtime apply''), sv\<lparr>sv_store := st\<rparr>)
           | Inr (_, rt) \<Rightarrow> (None, sv\<lparr>sv_rt := rt, sv_store := st\<rparr>)))"

definition Service_Create ::
  "compiler \<Rightarrow> 's Store \<Rightarrow> Policy \<Rightarrow> ('s, 'u) Service \<Rightarrow> perr option \<times> ('s, 'u) Service" where
  "Service_Create compile ops p sv =
     (if sv_readOnly sv then (Some ErrReadOnly, sv)
      else (case Validate compile p (sv_rt sv) of
              Some e \<Rightarrow> (Some e, sv)
            | None \<Rightarrow>
                (if Service_find (sv_rt sv) (pol_API p) (pol_Name p) \<noteq> None then (Some ErrConflict, sv)
                 else persistAndApply compile ops p sv)))"

definition Service_Replace ::
  "compiler \<Rightarrow> 's Store \<Rightarrow> string \<Rightarrow> string \<Rightarrow> Policy \<Rightarrow> ('s, 'u) Service \<Rightarrow> perr option \<times> ('s, 'u) Service" where
  "Service_Replace compile ops api name p sv =
     (if sv_readOnly sv then (Some ErrReadOnly, sv)
      else if pol_API p \<noteq> api \<or> pol_Name p \<noteq> name then (Some ErrAPIPath, sv)
      else (case Validate compile p (sv_rt sv) of
              Some e \<Rightarrow> (Some e, sv)
            | None \<Rightarrow> persistAndApply compile ops p sv))"

definition Service_Delete ::
  "'s Store \<Rightarrow> string \<Rightarrow> string \<Rightarrow> ('s, 'u) Service \<Rightarrow> perr option \<times> ('s, 'u) Service" where
  "Service_Delete ops api name sv =
     (if sv_readOnly sv then (Some ErrReadOnly, sv)
      else if Service_find (sv_rt sv) api name = None then (Some ErrNotFound, sv)
      else (case so_Delete ops api name (sv_store sv) of
              (Some e, st) \<Rightarrow> (Some (PWrap ''store delete'' e), sv\<lparr>sv_store := st\<rparr>)
            | (None, st) \<Rightarrow>
                (case RemovePolicy api name (sv_rt sv) of
                   Inl e \<Rightarrow> (Some (PIO ''runtime remove''), sv\<lparr>sv_store := st\<rparr>)
                 | Inr (_, rt) \<Rightarrow> (None, sv\<lparr>sv_rt := rt, sv_store := st\<rparr>))))"

fun load_all :: "compiler \<Rightarrow> Policy list \<Rightarrow> 'u Runtime \<Rightarrow> perr option \<times> 'u Runtime" where
  "load_all compile [] rt = (None, rt)"
| "load_all compile (p # ps) rt =
     (case ReplacePolicy compile p rt of
        Inl e \<Rightarrow> (Some (PIO ''load policy''), rt)
      | Inr (_, rt') \<Rightarrow> load_all compile ps rt')"

definition LoadFromStore ::
  "compiler \<Rightarrow> 's Store \<Rightarrow> ('s, 'u) Service \<Rightarrow> perr option \<times> ('s, 'u) Service" where
  "LoadFromStore compile ops sv =
     (case so_List ops (sv_store sv) of
        Inl e \<Rightarrow> (Some (PWrap ''load'' e), sv)
      | Inr all \<Rightarrow> (let (e, rt) = load_all compile all (sv_rt sv) in (e, sv\<lparr>sv_rt := rt\<rparr>)))"

subsection \<open>Import\<close>

record ImportResult =
  ir_Created :: "string list"
  ir_Overwritten :: "string list"
  ir_Errors :: "(string \<times> perr) list"

definition import_label :: "Policy \<Rightarrow> string" where
  "import_label p = pol_API p @ ''/'' @ pol_Name p"

fun idx_from :: "nat \<Rightarrow> Policy list \<Rightarrow> (string \<rightharpoonup> nat) \<Rightarrow> string \<rightharpoonup> nat" where
  "idx_from i [] m = m"
| "idx_from i (p # ps) m = idx_from (Suc i) ps (m(import_label p \<mapsto> i))"

definition lastIdx :: "Policy list \<Rightarrow> string \<rightharpoonup> nat" where
  "lastIdx incoming = idx_from 0 incoming Map.empty"

fun keep_last :: "(string \<rightharpoonup> nat) \<Rightarrow> nat \<Rightarrow> Policy list \<Rightarrow> Policy list" where
  "keep_last m i [] = []"
| "keep_last m i (p # ps) =
     (if m (import_label p) = Some i then p # keep_last m (Suc i) ps else keep_last m (Suc i) ps)"

definition dedupe :: "Policy list \<Rightarrow> Policy list" where
  "dedupe incoming = keep_last (lastIdx incoming) 0 incoming"

fun import_check :: "compiler \<Rightarrow> 'u Runtime \<Rightarrow> nat \<Rightarrow> Policy list \<Rightarrow> ImportResult" where
  "import_check compile rt i [] = \<lparr>ir_Created = [], ir_Overwritten = [], ir_Errors = []\<rparr>"
| "import_check compile rt i (p # ps) =
     (let rest = import_check compile rt (Suc i) ps;
          label = (if pol_API p = [] \<or> pol_Name p = [] then ''entry '' @ itoa (Suc i) else import_label p)
      in case Validate compile p rt of
           Some e \<Rightarrow> rest\<lparr>ir_Errors := (label, e) # ir_Errors rest\<rparr>
         | None \<Rightarrow>
             (if Service_find rt (pol_API p) (pol_Name p) \<noteq> None
              then rest\<lparr>ir_Overwritten := import_label p # ir_Overwritten rest\<rparr>
              else rest\<lparr>ir_Created := import_label p # ir_Created rest\<rparr>))"

fun persist_all ::
  "compiler \<Rightarrow> 's Store \<Rightarrow> Policy list \<Rightarrow> ('s, 'u) Service \<Rightarrow> perr option \<times> ('s, 'u) Service" where
  "persist_all compile ops [] sv = (None, sv)"
| "persist_all compile ops (p # ps) sv =
     (case persistAndApply compile ops p sv of
        (Some e, sv1) \<Rightarrow> (Some (PWrap ''persist'' e), sv1)
      | (None, sv1) \<Rightarrow> persist_all compile ops ps sv1)"

definition Service_Import ::
  "compiler \<Rightarrow> 's Store \<Rightarrow> Policy list \<Rightarrow> bool \<Rightarrow> ('s, 'u) Service
     \<Rightarrow> ImportResult \<times> perr option \<times> ('s, 'u) Service" where
  "Service_Import compile ops incoming dryRun sv =
     (if sv_readOnly sv
      then (\<lparr>ir_Created = [], ir_Overwritten = [], ir_Errors = []\<rparr>, Some ErrReadOnly, sv)
      else (let deduped = dedupe incoming; result = import_check compile (sv_rt sv) 0 deduped
            in if ir_Errors result \<noteq> [] then (result, Some (PWrap ''import has validation errors'' ErrInvalid), sv)
               else if dryRun then (result, None, sv)
               else (let (e, sv') = persist_all compile ops deduped sv in (result, e, sv'))))"

text \<open>The last entry per label, as a recursion.\<close>

fun last_occ :: "Policy list \<Rightarrow> Policy list" where
  "last_occ [] = []"
| "last_occ (p # ps) = (if import_label p \<in> import_label ` set ps then last_occ ps else p # last_occ ps)"

text \<open>Labels tell the keys of a batch apart; they do when no API name contains a slash.\<close>

definition labels_ok :: "Policy list \<Rightarrow> bool" where
  "labels_ok ps \<longleftrightarrow> (\<forall>p \<in> set ps. \<forall>q \<in> set ps. import_label p = import_label q \<longrightarrow> pol_key p = pol_key q)"

subsection \<open>Coherence\<close>

text \<open>
  The live policy set and what the store would load at the next boot agree, and every stored policy
  compiles.
\<close>

definition coherent :: "compiler \<Rightarrow> 's Store \<Rightarrow> ('s \<Rightarrow> bool) \<Rightarrow> ('s, 'u) Service \<Rightarrow> bool" where
  "coherent compile ops sinv sv \<longleftrightarrow>
     rt_inv (sv_rt sv) \<and> sinv (sv_store sv) \<and> rt_lookup (sv_rt sv) = view_of ops (sv_store sv)
     \<and> (\<forall>p \<in> listing ops (sv_store sv). rt_accepts compile (sv_rt sv) p)"

definition data_dir_inv :: "(Policy \<Rightarrow> string) \<Rightarrow> (string \<Rightarrow> Policy option) \<Rightarrow> 'q Store \<Rightarrow> row list \<times> 'q \<Rightarrow> bool" where
  "data_dir_inv marshal unmarshal seed = (\<lambda>(p, q). sqlite_inv marshal unmarshal p \<and> (\<exists>qs. so_List seed q = Inr qs))"

text \<open>A service over an empty table and no seed, with one API and no policies.\<close>

definition ex_rt :: "unit Runtime" where
  "ex_rt = ex_runtime\<lparr>rt_apis := [(''d'', ex_api\<lparr>ar_store := newPolicyStore\<rparr>)]\<rparr>"

definition ex_ops :: "(row list \<times> row list) Store" where
  "ex_ops = LayeredStore (sqliteStore ex_marshal ex_unmarshal None) (sqliteStore ex_marshal ex_unmarshal None)"

definition ex_svc :: "(row list \<times> row list, unit) Service" where
  "ex_svc = New ex_rt ([], [])"

text \<open>The writes of the control plane, as one relation between service states.\<close>

inductive svc_step :: "compiler \<Rightarrow> 's Store \<Rightarrow> ('s, 'u) Service \<Rightarrow> ('s, 'u) Service \<Rightarrow> bool"
  for compile ops where
  create: "svc_step compile ops sv (snd (Service_Create compile ops p sv))"
| replace: "svc_step compile ops sv (snd (Service_Replace compile ops api name p sv))"
| delete: "svc_step compile ops sv (snd (Service_Delete ops api name sv))"
| import: "svc_step compile ops sv (snd (snd (Service_Import compile ops incoming dryRun sv)))"
| readonly: "svc_step compile ops sv (SetReadOnly ro sv)"

section \<open>Lemmas\<close>

lemma Service_find_lookup: "Service_find rt api name = rt_lookup rt (api, name)"
  by (simp add: Service_find_def rt_lookup_def)

lemma Validate_accepts: "Validate compile p rt = None \<Longrightarrow> rt_accepts compile rt p"
  by (auto simp: Validate_def rt_accepts_def split: option.splits)

lemma rt_accepts_Remove:
  assumes "RemovePolicy api n rt = Inr (ok, rt')"
  shows "rt_accepts compile rt' p = rt_accepts compile rt p"
proof -
  obtain a st where "API_get rt api = Some a" "rt' = set_api api (a\<lparr>ar_store := st\<rparr>) rt"
    using assms by (auto simp: RemovePolicy_def APIRuntime_Remove_def split_beta Let_def split: option.splits)
  then show ?thesis by (auto simp: rt_accepts_iff)
qed

lemma ReplacePolicy_accepted: "rt_accepts compile rt p \<Longrightarrow> \<exists>ex. ReplacePolicy compile p rt = Inr (ex, rt_put compile p rt)"
  unfolding rt_accepts_iff by (metis rt_put_accepted(2))

lemma load_all_accepted:
  "rt_inv rt \<Longrightarrow> \<forall>p \<in> set ps. rt_accepts compile rt p \<Longrightarrow> load_all compile ps rt = (None, fold (rt_put compile) ps rt)"
proof (induction ps arbitrary: rt)
  case (Cons p ps)
  then show ?case
    using ReplacePolicy_accepted [of compile rt p] by (auto simp: rt_inv_put rt_accepts_put)
qed simp

lemma load_all_None:
  "rt_inv rt \<Longrightarrow> load_all compile ps rt = (None, rt') \<Longrightarrow> \<forall>p \<in> set ps. rt_accepts compile rt p"
proof (induction ps arbitrary: rt)
  case (Cons p ps)
  then obtain ex where r: "ReplacePolicy compile p rt = Inr (ex, rt_put compile p rt)"
    by (auto simp: rt_put_def split: sum.splits)
  then have acc: "rt_accepts compile rt p"
    by (auto simp: ReplacePolicy_cases rt_accepts_def split: option.splits)
  have "\<forall>q \<in> set ps. rt_accepts compile (rt_put compile p rt) q"
    using Cons.IH [OF rt_inv_put [OF Cons.prems(1) acc]] Cons.prems(2) r by simp
  with acc show ?case by (simp add: rt_accepts_put [OF acc])
qed simp

lemma rt_accepts_fold_put:
  "rt_inv rt \<Longrightarrow> \<forall>p \<in> set ps. rt_accepts compile rt p \<Longrightarrow> rt_accepts compile (fold (rt_put compile) ps rt) q = rt_accepts compile rt q"
  by (induction ps arbitrary: rt) (auto simp: rt_inv_put rt_accepts_put)

context policy_store
begin

lemma persist_coherent:
  assumes c: "coherent compile ops inv sv" and acc: "rt_accepts compile (sv_rt sv) p"
    and r: "persistAndApply compile ops p sv = (e, sv')"
  shows "coherent compile ops inv sv'" "e = None \<Longrightarrow> rt_lookup (sv_rt sv') = (rt_lookup (sv_rt sv))(pol_key p \<mapsto> p)"
    "e \<noteq> None \<Longrightarrow> sv' = sv" "rt_accepts compile (sv_rt sv') q = rt_accepts compile (sv_rt sv) q"
proof -
  note C = c [unfolded coherent_def]
  obtain e1 st where put: "so_Put ops p (sv_store sv) = (e1, st)" by fastforce
  have "coherent compile ops inv sv' \<and> (e = None \<longrightarrow> rt_lookup (sv_rt sv') = (rt_lookup (sv_rt sv))(pol_key p \<mapsto> p))
      \<and> (e \<noteq> None \<longrightarrow> sv' = sv) \<and> rt_accepts compile (sv_rt sv') q = rt_accepts compile (sv_rt sv) q"
  proof (cases e1)
    case (Some er)
    with put r put_err [of "sv_store sv" p er st] C c show ?thesis by (auto simp: persistAndApply_def)
  next
    case None
    obtain ex where "ReplacePolicy compile p (sv_rt sv) = Inr (ex, rt_put compile p (sv_rt sv))"
      using ReplacePolicy_accepted [OF acc] by blast
    with None put r have sv': "e = None" "sv' = sv\<lparr>sv_rt := rt_put compile p (sv_rt sv), sv_store := st\<rparr>"
      by (auto simp: persistAndApply_def)
    have lk: "rt_lookup (rt_put compile p (sv_rt sv)) = (rt_lookup (sv_rt sv))(pol_key p \<mapsto> p)"
      using rt_lookup_put [OF conjunct1 [OF C] acc] by auto
    have "coherent compile ops inv sv'"
      using C put_ok [of "sv_store sv" p st] put_listing [of "sv_store sv" p st] put None acc
      by (auto simp: coherent_def sv' lk rt_inv_put rt_accepts_put)
    with sv' lk acc show ?thesis by (simp add: rt_accepts_put)
  qed
  then show "coherent compile ops inv sv'" "e = None \<Longrightarrow> rt_lookup (sv_rt sv') = (rt_lookup (sv_rt sv))(pol_key p \<mapsto> p)"
    "e \<noteq> None \<Longrightarrow> sv' = sv" "rt_accepts compile (sv_rt sv') q = rt_accepts compile (sv_rt sv) q" by blast+
qed

lemma create_coherent:
  assumes "coherent compile ops inv sv" "Service_Create compile ops p sv = (e, sv')"
  shows "coherent compile ops inv sv'" "e \<noteq> None \<Longrightarrow> sv' = sv"
    "e = None \<Longrightarrow> rt_lookup (sv_rt sv) (pol_key p) = None \<and> rt_lookup (sv_rt sv') = (rt_lookup (sv_rt sv))(pol_key p \<mapsto> p)"
  using assms persist_coherent [OF assms(1), of p e sv'] Validate_accepts [of compile p "sv_rt sv"]
  by (auto simp: Service_Create_def Service_find_lookup pol_key_def split: if_splits option.splits)

lemma replace_coherent:
  assumes "coherent compile ops inv sv" "Service_Replace compile ops api n p sv = (e, sv')"
  shows "coherent compile ops inv sv'" "e \<noteq> None \<Longrightarrow> sv' = sv"
    "e = None \<Longrightarrow> pol_key p = (api, n) \<and> rt_lookup (sv_rt sv') = (rt_lookup (sv_rt sv))(pol_key p \<mapsto> p)"
  using assms persist_coherent [OF assms(1), of p e sv'] Validate_accepts [of compile p "sv_rt sv"]
  by (auto simp: Service_Replace_def pol_key_def split: if_splits option.splits)

lemma delete_coherent:
  assumes c: "coherent compile ops inv sv" and r: "Service_Delete ops api n sv = (e, sv')"
  shows "coherent compile ops inv sv'" "e \<noteq> None \<Longrightarrow> sv' = sv"
    "e = None \<Longrightarrow> rt_lookup (sv_rt sv) (api, n) \<noteq> None \<and> rt_lookup (sv_rt sv') = (rt_lookup (sv_rt sv))((api, n) := None)"
proof -
  note C = c [unfolded coherent_def]
  have "coherent compile ops inv sv' \<and> (e \<noteq> None \<longrightarrow> sv' = sv) \<and> (e = None \<longrightarrow>
      rt_lookup (sv_rt sv) (api, n) \<noteq> None \<and> rt_lookup (sv_rt sv') = (rt_lookup (sv_rt sv))((api, n) := None))"
  proof (cases "sv_readOnly sv \<or> rt_lookup (sv_rt sv) (api, n) = None")
    case True
    with r c show ?thesis by (auto simp: Service_Delete_def Service_find_lookup split: if_splits)
  next
    case False
    obtain e1 st where del: "so_Delete ops api n (sv_store sv) = (e1, st)" by fastforce
    show ?thesis
    proof (cases e1)
      case (Some er)
      with False del r del_err [of "sv_store sv" api n er st] C c show ?thesis
        by (auto simp: Service_Delete_def Service_find_lookup)
    next
      case None
      have "API_get (sv_rt sv) api \<noteq> None" using False rt_lookup_eq [OF conjunct1 [OF C], of api n] by (cases "API_get (sv_rt sv) api") auto
      then obtain ok rt' where rm: "RemovePolicy api n (sv_rt sv) = Inr (ok, rt')"
        by (auto simp: RemovePolicy_def split_beta Let_def)
      with False del None r have sv': "e = None" "sv' = sv\<lparr>sv_rt := rt', sv_store := st\<rparr>"
        by (auto simp: Service_Delete_def Service_find_lookup)
      note R = RemovePolicy_correct [OF conjunct1 [OF C] rm]
      have "coherent compile ops inv sv'"
        using C R del_ok [of "sv_store sv" api n st] del_listing [of "sv_store sv" api n st] del None
        by (auto simp: coherent_def sv' rt_accepts_Remove [OF rm])
      with sv' R(2) False show ?thesis by simp
    qed
  qed
  then show "coherent compile ops inv sv'" "e \<noteq> None \<Longrightarrow> sv' = sv"
    "e = None \<Longrightarrow> rt_lookup (sv_rt sv) (api, n) \<noteq> None \<and> rt_lookup (sv_rt sv') = (rt_lookup (sv_rt sv))((api, n) := None)"
    by blast+
qed

lemma delete_missing:
  assumes c: "coherent compile ops inv sv" and r: "Service_Delete ops api n sv = (Some e, sv')" and e: "is_err ErrNotFound e"
  shows "rt_lookup (sv_rt sv) (api, n) = None"
proof (rule ccontr)
  note C = c [unfolded coherent_def]
  assume some: "rt_lookup (sv_rt sv) (api, n) \<noteq> None"
  then have "API_get (sv_rt sv) api \<noteq> None"
    using rt_lookup_eq [OF conjunct1 [OF C], of api n] by (cases "API_get (sv_rt sv) api") auto
  then obtain ok rt' where "RemovePolicy api n (sv_rt sv) = Inr (ok, rt')"
    by (auto simp: RemovePolicy_def split_beta Let_def)
  with r e some obtain e1 st where "so_Delete ops api n (sv_store sv) = (Some e1, st)" "is_err ErrNotFound e1"
    by (auto simp: Service_Delete_def Service_find_lookup split: if_splits prod.splits option.splits)
  with C some del_missing [of "sv_store sv" api n e1 st] show False by simp
qed

lemma persist_all_coherent:
  "coherent compile ops inv sv \<Longrightarrow> \<forall>p \<in> set ps. rt_accepts compile (sv_rt sv) p \<Longrightarrow>
     persist_all compile ops ps sv = (e, sv') \<Longrightarrow> coherent compile ops inv sv'
       \<and> (e = None \<longrightarrow> (\<forall>k. rt_lookup (sv_rt sv') k =
            (case last_by pol_key k ps of Some p \<Rightarrow> Some p | None \<Rightarrow> rt_lookup (sv_rt sv) k)))"
proof (induction ps arbitrary: sv)
  case (Cons p ps)
  obtain e1 sv1 where p: "persistAndApply compile ops p sv = (e1, sv1)" by fastforce
  have acc: "rt_accepts compile (sv_rt sv) p" using Cons.prems(2) by simp
  note P = persist_coherent [OF Cons.prems(1) acc p]
  show ?case
  proof (cases e1)
    case (Some er)
    with Cons.prems p P(1) show ?thesis by auto
  next
    case None
    have "last_by pol_key k (p # ps) = (case last_by pol_key k ps of None \<Rightarrow> last_by pol_key k [p] | Some y \<Rightarrow> Some y)" for k
      using last_by_append [of pol_key k "[p]" ps] by simp
    moreover have "persist_all compile ops ps sv1 = (e, sv')" using Cons.prems(3) p None by simp
    from Cons.IH [OF P(1) _ this] have "coherent compile ops inv sv' \<and> (e = None \<longrightarrow> (\<forall>k. rt_lookup (sv_rt sv') k =
        (case last_by pol_key k ps of Some p \<Rightarrow> Some p | None \<Rightarrow> rt_lookup (sv_rt sv1) k)))"
      using Cons.prems(2) P(4) by simp
    ultimately show ?thesis using P(2) [OF None] by (auto split: option.split)
  qed
qed simp

lemma load_coherent:
  assumes "rt_inv (sv_rt sv)" "ListPolicies (sv_rt sv) = []" "inv (sv_store sv)" "LoadFromStore compile ops sv = (None, sv')"
  shows "coherent compile ops inv sv'"
proof -
  obtain all where all: "so_List ops (sv_store sv) = Inr all" using list_total [OF assms(3)] by blast
  with assms(4) obtain rt' where l: "load_all compile all (sv_rt sv) = (None, rt')" "sv' = sv\<lparr>sv_rt := rt'\<rparr>"
    by (auto simp: LoadFromStore_def split: prod.splits)
  note acc = load_all_None [OF assms(1) l(1)]
  have rt': "rt' = fold (rt_put compile) all (sv_rt sv)" using load_all_accepted [OF assms(1) acc] l(1) by simp
  have "rt_lookup (sv_rt sv) k = None" for k using assms(2) by (simp add: rt_lookup_def)
  then have "rt_lookup rt' k = last_by pol_key k all" for k
    using rt_policies.lookup_replay [OF assms(1) acc, of k] by (simp add: rt' split: option.split)
  then show ?thesis
    using rt_policies.inv_replay [OF assms(1) acc] acc assms(3)
    by (auto simp: coherent_def l(2) rt' view_of_def listing_def all rt_accepts_fold_put [OF assms(1) acc] fun_eq_iff)
qed

lemma load_total:
  assumes "rt_inv (sv_rt sv)" "inv (sv_store sv)" "\<forall>p \<in> listing ops (sv_store sv). rt_accepts compile (sv_rt sv) p"
  shows "fst (LoadFromStore compile ops sv) = None"
proof -
  obtain all where all: "so_List ops (sv_store sv) = Inr all" using list_total [OF assms(2)] by blast
  with assms load_all_accepted [of "sv_rt sv" all compile] show ?thesis
    by (simp add: LoadFromStore_def listing_def)
qed

end

subsection \<open>Import\<close>

lemma idx_from_split: "idx_from n ps m l = (case idx_from n ps Map.empty l of None \<Rightarrow> m l | Some i \<Rightarrow> Some i)"
proof (induction ps arbitrary: n m)
  case (Cons p ps)
  note IH = Cons.IH [of "Suc n" "m(import_label p \<mapsto> n)"] Cons.IH [of "Suc n" "[import_label p \<mapsto> n]"]
  show ?case unfolding idx_from.simps IH by (simp split: option.split)
qed simp

lemma idx_from_Cons:
  "idx_from n (p # ps) Map.empty l =
     (case idx_from (Suc n) ps Map.empty l of None \<Rightarrow> if l = import_label p then Some n else None | Some i \<Rightarrow> Some i)"
  unfolding idx_from.simps idx_from_split [of "Suc n" ps "[import_label p \<mapsto> n]" l] by (simp split: option.split)

lemma idx_from_None: "idx_from n ps Map.empty l = None \<longleftrightarrow> l \<notin> import_label ` set ps"
proof (induction ps arbitrary: n)
  case (Cons p ps)
  show ?case
    using Cons.IH [of "Suc n"] unfolding idx_from_Cons by (cases "idx_from (Suc n) ps Map.empty l") auto
qed simp

lemma idx_from_ge: "idx_from n ps Map.empty l = Some i \<Longrightarrow> n \<le> i"
proof (induction ps arbitrary: n)
  case (Cons p ps)
  from Cons.prems Cons.IH [of "Suc n"] show ?case
    by (auto simp: idx_from_Cons simp del: idx_from.simps split: option.splits if_splits)
qed simp

lemma keep_last_cong:
  "(\<And>q. q \<in> set ps \<Longrightarrow> m (import_label q) = m' (import_label q)) \<Longrightarrow> keep_last m n ps = keep_last m' n ps"
  by (induction ps arbitrary: n) auto

lemma keep_last_last_occ: "keep_last (idx_from n ps Map.empty) n ps = last_occ ps"
proof (induction ps arbitrary: n)
  case (Cons p ps)
  have head: "idx_from n (p # ps) Map.empty (import_label p) = Some n \<longleftrightarrow> import_label p \<notin> import_label ` set ps"
    using idx_from_None [of "Suc n" ps "import_label p"] idx_from_ge [of "Suc n" ps "import_label p" n]
    by (auto simp: idx_from_Cons simp del: idx_from.simps split: option.splits)
  have "keep_last (idx_from n (p # ps) Map.empty) (Suc n) ps = keep_last (idx_from (Suc n) ps Map.empty) (Suc n) ps"
  proof (rule keep_last_cong)
    fix q assume "q \<in> set ps"
    then have "idx_from (Suc n) ps Map.empty (import_label q) \<noteq> None" by (simp add: idx_from_None)
    then show "idx_from n (p # ps) Map.empty (import_label q) = idx_from (Suc n) ps Map.empty (import_label q)"
      unfolding idx_from_Cons by auto
  qed
  with head Cons.IH [of "Suc n"] show ?case by (simp del: idx_from.simps)
qed simp

lemma dedupe_last_occ: "dedupe ps = last_occ ps"
  by (simp add: dedupe_def lastIdx_def keep_last_last_occ)

lemma set_last_occ: "set (last_occ ps) \<subseteq> set ps"
  by (induction ps) auto

lemma last_by_Cons:
  "last_by f k (p # ps) = (case last_by f k ps of None \<Rightarrow> if f p = k then Some p else None | Some y \<Rightarrow> Some y)"
  using last_by_append [of f k "[p]" ps] by (simp split: option.split)

lemma last_by_last_occ: "labels_ok ps \<Longrightarrow> last_by pol_key k (last_occ ps) = last_by pol_key k ps"
proof (induction ps)
  case (Cons p ps)
  have IH: "last_by pol_key k (last_occ ps) = last_by pol_key k ps"
    by (rule Cons.IH) (use Cons.prems in \<open>unfold labels_ok_def, meson list.set_intros(2)\<close>)
  show ?case
  proof (cases "import_label p \<in> import_label ` set ps")
    case True
    then obtain q where "q \<in> set ps" "import_label q = import_label p" by auto
    moreover from this have "pol_key q = pol_key p"
      using Cons.prems unfolding labels_ok_def by (meson list.set_intros)
    ultimately have "pol_key p \<in> pol_key ` set ps" by (metis imageI)
    then have "pol_key p = k \<Longrightarrow> last_by pol_key k ps \<noteq> None" by (auto simp: last_by_None_iff)
    with True IH show ?thesis by (auto simp: last_by_Cons split: option.split)
  qed (simp add: last_by_Cons IH)
qed simp

lemma import_check_no_errors:
  "ir_Errors (import_check compile rt i ps) = [] \<Longrightarrow> \<forall>p \<in> set ps. Validate compile p rt = None"
  by (induction ps arbitrary: i) (auto simp: Let_def split: option.splits if_splits)

context policy_store
begin

lemma import_coherent:
  assumes c: "coherent compile ops inv sv" and r: "Service_Import compile ops ps dry sv = (res, e, sv')"
  shows "coherent compile ops inv sv'" "dry \<or> ir_Errors res \<noteq> [] \<Longrightarrow> sv' = sv"
    "e = None \<Longrightarrow> \<not> dry \<Longrightarrow> labels_ok ps \<Longrightarrow> rt_lookup (sv_rt sv') k =
       (case last_by pol_key k ps of Some p \<Rightarrow> Some p | None \<Rightarrow> rt_lookup (sv_rt sv) k)"
proof -
  have acc: "\<forall>p \<in> set (dedupe ps). rt_accepts compile (sv_rt sv) p"
    if "ir_Errors (import_check compile (sv_rt sv) 0 (dedupe ps)) = []"
    using import_check_no_errors [OF that] Validate_accepts by blast
  have ran: "sv' = sv \<and> (e = None \<longrightarrow> dry) \<or> (persist_all compile ops (dedupe ps) sv = (e, sv')
      \<and> \<not> dry \<and> ir_Errors res = [] \<and> ir_Errors (import_check compile (sv_rt sv) 0 (dedupe ps)) = [])"
    using r by (auto simp: Service_Import_def Let_def split: if_splits prod.splits)
  then show "coherent compile ops inv sv'" using c persist_all_coherent [OF c acc] by blast
  show "dry \<or> ir_Errors res \<noteq> [] \<Longrightarrow> sv' = sv"
    using r by (auto simp: Service_Import_def Let_def split: if_splits prod.splits)
  assume "e = None" "\<not> dry" "labels_ok ps"
  then show "rt_lookup (sv_rt sv') k = (case last_by pol_key k ps of Some p \<Rightarrow> Some p | None \<Rightarrow> rt_lookup (sv_rt sv) k)"
    using ran persist_all_coherent [OF c acc, of e sv'] last_by_last_occ [of ps k] by (cases k) (auto simp: dedupe_last_occ)
qed

lemma persist_accepts:
  "coherent compile ops inv sv \<Longrightarrow> rt_accepts compile (sv_rt sv) p \<Longrightarrow>
     rt_accepts compile (sv_rt (snd (persistAndApply compile ops p sv))) q = rt_accepts compile (sv_rt sv) q"
  by (rule persist_coherent(4) [OF _ _ prod.collapse [symmetric]])

lemma persist_all_accepts:
  "coherent compile ops inv sv \<Longrightarrow> \<forall>p \<in> set ps. rt_accepts compile (sv_rt sv) p \<Longrightarrow>
     rt_accepts compile (sv_rt (snd (persist_all compile ops ps sv))) q = rt_accepts compile (sv_rt sv) q"
proof (induction ps arbitrary: sv)
  case (Cons p ps)
  obtain e1 sv1 where p: "persistAndApply compile ops p sv = (e1, sv1)" by fastforce
  have acc: "rt_accepts compile (sv_rt sv) p" using Cons.prems(2) by simp
  note P = persist_coherent [OF Cons.prems(1) acc p]
  show ?case using Cons.IH [OF P(1)] Cons.prems(2) P(4) p by (simp split: option.split)
qed simp

lemma step_coherent:
  assumes c: "coherent compile ops inv sv" and st: "svc_step compile ops sv sv'"
  shows "coherent compile ops inv sv' \<and> rt_accepts compile (sv_rt sv') q = rt_accepts compile (sv_rt sv) q"
  using st
proof cases
  case (create p)
  have "rt_accepts compile (sv_rt (snd (Service_Create compile ops p sv))) q = rt_accepts compile (sv_rt sv) q"
    using persist_accepts [OF c, of p q] Validate_accepts [of compile p "sv_rt sv"]
    by (auto simp: Service_Create_def split: option.split)
  then show ?thesis unfolding create using create_coherent(1) [OF c] by (metis prod.collapse)
next
  case (replace api name p)
  have "rt_accepts compile (sv_rt (snd (Service_Replace compile ops api name p sv))) q = rt_accepts compile (sv_rt sv) q"
    using persist_accepts [OF c, of p q] Validate_accepts [of compile p "sv_rt sv"]
    by (auto simp: Service_Replace_def split: option.split)
  then show ?thesis unfolding replace using replace_coherent(1) [OF c] by (metis prod.collapse)
next
  case (delete api name)
  have "rt_accepts compile (sv_rt (snd (Service_Delete ops api name sv))) q = rt_accepts compile (sv_rt sv) q"
    using rt_accepts_Remove [of api name "sv_rt sv" _ _ compile q]
    by (auto simp: Service_Delete_def split: option.split sum.split prod.split)
  then show ?thesis unfolding delete using delete_coherent(1) [OF c] by (metis prod.collapse)
next
  case (import ps dry)
  let ?r = "import_check compile (sv_rt sv) 0 (dedupe ps)"
  have "ir_Errors ?r = [] \<Longrightarrow> \<forall>p \<in> set (dedupe ps). rt_accepts compile (sv_rt sv) p"
    using import_check_no_errors Validate_accepts by blast
  then have "rt_accepts compile (sv_rt (snd (snd (Service_Import compile ops ps dry sv)))) q = rt_accepts compile (sv_rt sv) q"
    using persist_all_accepts [OF c, of "dedupe ps" q] by (auto simp: Service_Import_def Let_def split_beta)
  then show ?thesis unfolding import using import_coherent(1) [OF c] by (metis prod.collapse)
next
  case (readonly ro)
  with c show ?thesis by (simp add: SetReadOnly_def coherent_def)
qed

lemma steps_coherent:
  assumes "(svc_step compile ops)\<^sup>*\<^sup>* sv sv'" "coherent compile ops inv sv"
  shows "coherent compile ops inv sv' \<and> rt_accepts compile (sv_rt sv') q = rt_accepts compile (sv_rt sv) q"
  using assms(1)
proof (induction rule: rtranclp_induct)
  case (step y z)
  then show ?case using step_coherent [of compile y z q] by simp
qed (simp add: assms(2))

lemma restart_agrees:
  assumes c: "coherent compile ops inv sv" and rt0: "rt_inv rt0" "ListPolicies rt0 = []"
    and same: "\<And>p. rt_accepts compile rt0 p = rt_accepts compile (sv_rt sv) p"
  shows "\<exists>sv'. LoadFromStore compile ops (New rt0 (sv_store sv)) = (None, sv') \<and> rt_lookup (sv_rt sv') = rt_lookup (sv_rt sv)"
proof -
  note C = c [unfolded coherent_def]
  let ?n = "New rt0 (sv_store sv)"
  have n: "sv_rt ?n = rt0" "sv_store ?n = sv_store sv" by (simp_all add: New_def)
  have "fst (LoadFromStore compile ops ?n) = None" by (rule load_total) (use C rt0 same in \<open>simp_all add: n\<close>)
  then obtain sv' where l: "LoadFromStore compile ops ?n = (None, sv')" by (metis prod.collapse)
  then have "coherent compile ops inv sv'" by (intro load_coherent [OF _ _ _ l]) (use C rt0 in \<open>simp_all add: n\<close>)
  moreover have "sv_store sv' = sv_store sv"
    using l by (auto simp: LoadFromStore_def n split: sum.splits prod.splits)
  ultimately have "rt_lookup (sv_rt sv') = rt_lookup (sv_rt sv)" using C by (simp add: coherent_def)
  with l show ?thesis by blast
qed

end

section \<open>Properties\<close>

lemma ex_coherent:
  "coherent compile ex_ops (data_dir_inv ex_marshal ex_unmarshal (sqliteStore ex_marshal ex_unmarshal None)) ex_svc"
proof -
  have "ListPolicies ex_rt = []" "rt_inv ex_rt" by code_simp+
  then have "rt_lookup ex_rt = Map.empty" "rt_inv ex_rt" by (auto simp: rt_lookup_def)
  moreover have "so_List ex_ops ([], []) = Inr []" by code_simp
  moreover have "sqlite_inv ex_marshal ex_unmarshal []" using ex_json_roundtrip by (simp add: sqlite_inv_def)
  ultimately show ?thesis
    by (auto simp: coherent_def ex_svc_def New_def data_dir_inv_def view_of_def listing_def sqliteStore_def sqlite_List_def)
qed



text \<open>
  On every branch a write is all or nothing.  An error (read-only, invalid, conflict, path mismatch,
  not found, a failing store) leaves policy set and store as they were; a success changes exactly the
  named policy: create only where there was none, delete only where there was one.
\<close>

theorem service_writes_atomic:
  assumes "coherent compile (LayeredStore (sqliteStore marshal unmarshal io) seed) (data_dir_inv marshal unmarshal seed) sv"
  defines "ops \<equiv> LayeredStore (sqliteStore marshal unmarshal io) seed"
  shows "(case Service_Create compile ops p sv of
            (None, sv') \<Rightarrow> rt_lookup (sv_rt sv) (pol_key p) = None \<and> rt_lookup (sv_rt sv') = (rt_lookup (sv_rt sv))(pol_key p \<mapsto> p)
          | (Some _, sv') \<Rightarrow> sv' = sv)
    \<and> (case Service_Replace compile ops api n p sv of
            (None, sv') \<Rightarrow> pol_key p = (api, n) \<and> rt_lookup (sv_rt sv') = (rt_lookup (sv_rt sv))(pol_key p \<mapsto> p)
          | (Some _, sv') \<Rightarrow> sv' = sv)
    \<and> (case Service_Delete ops api n sv of
            (None, sv') \<Rightarrow> rt_lookup (sv_rt sv) (api, n) \<noteq> None \<and> rt_lookup (sv_rt sv') = (rt_lookup (sv_rt sv))((api, n) := None)
          | (Some _, sv') \<Rightarrow> sv' = sv)"
proof -
  note c0 = assms(1) [unfolded data_dir_inv_def]
  show ?thesis unfolding ops_def
  proof (intro conjI)
    let ?ops = "LayeredStore (sqliteStore marshal unmarshal io) seed"
    show "case Service_Create compile ?ops p sv of
        (None, sv') \<Rightarrow> rt_lookup (sv_rt sv) (pol_key p) = None \<and> rt_lookup (sv_rt sv') = (rt_lookup (sv_rt sv))(pol_key p \<mapsto> p)
      | (Some _, sv') \<Rightarrow> sv' = sv"
      using data_dir.layered.create_coherent(2,3) [OF c0 prod.collapse [symmetric], of p]
      by (cases "fst (Service_Create compile ?ops p sv)") (simp_all add: split_beta)
    show "case Service_Replace compile ?ops api n p sv of
        (None, sv') \<Rightarrow> pol_key p = (api, n) \<and> rt_lookup (sv_rt sv') = (rt_lookup (sv_rt sv))(pol_key p \<mapsto> p)
      | (Some _, sv') \<Rightarrow> sv' = sv"
      using data_dir.layered.replace_coherent(2,3) [OF c0 prod.collapse [symmetric], of api n p]
      by (cases "fst (Service_Replace compile ?ops api n p sv)") (simp_all add: split_beta)
    show "case Service_Delete ?ops api n sv of
        (None, sv') \<Rightarrow> rt_lookup (sv_rt sv) (api, n) \<noteq> None \<and> rt_lookup (sv_rt sv') = (rt_lookup (sv_rt sv))((api, n) := None)
      | (Some _, sv') \<Rightarrow> sv' = sv"
      using data_dir.layered.delete_coherent(2,3) [OF c0 prod.collapse [symmetric], of api n]
      by (cases "fst (Service_Delete ?ops api n sv)") (simp_all add: split_beta)
  qed
qed

theorem service_writes_atomic_witness:
  "fst (Service_Create ex_compiler ex_ops (ex_pol ''d'' ''a'' ''x'') ex_svc) = None
   \<and> rt_lookup (sv_rt (snd (Service_Create ex_compiler ex_ops (ex_pol ''d'' ''a'' ''x'') ex_svc))) (''d'', ''a'')
       = Some (ex_pol ''d'' ''a'' ''x'')
   \<and> Service_Delete ex_ops ''d'' ''a'' ex_svc = (Some ErrNotFound, ex_svc)"
proof -
  let ?p = "ex_pol ''d'' ''a'' ''x''"
  note A = service_writes_atomic [OF ex_coherent [unfolded ex_ops_def], where p = ?p and api = "''d''" and n = "''a''" and compile = ex_compiler, folded ex_ops_def]
  have e: "fst (Service_Create ex_compiler ex_ops ?p ex_svc) = None" by code_simp
  moreover have "rt_lookup (sv_rt (snd (Service_Create ex_compiler ex_ops ?p ex_svc))) (''d'', ''a'') = Some ?p"
    using conjunct1 [OF A] e by (cases "Service_Create ex_compiler ex_ops ?p ex_svc") (simp add: ex_pol_def pol_key_def)
  moreover have "fst (Service_Delete ex_ops ''d'' ''a'' ex_svc) = Some ErrNotFound" by code_simp
  then have "Service_Delete ex_ops ''d'' ''a'' ex_svc = (Some ErrNotFound, ex_svc)"
    using conjunct2 [OF conjunct2 [OF A]] by (cases "Service_Delete ex_ops ''d'' ''a'' ex_svc") simp
  ultimately show ?thesis by blast
qed

text \<open>
  An import changes nothing when it is a dry run or when any policy of the batch is invalid.  When it
  succeeds, each key of the batch holds its last entry and every other policy is as before.  The batch
  must have labels \<^verbatim>\<open>api/name\<close> that tell its keys apart.
\<close>

theorem import_last_wins:
  assumes "coherent compile (LayeredStore (sqliteStore marshal unmarshal io) seed) (data_dir_inv marshal unmarshal seed) sv"
    and "Service_Import compile (LayeredStore (sqliteStore marshal unmarshal io) seed) ps dry sv = (res, e, sv')"
  shows "(dry \<or> ir_Errors res \<noteq> [] \<longrightarrow> sv' = sv)
    \<and> (e = None \<longrightarrow> \<not> dry \<longrightarrow> labels_ok ps \<longrightarrow>
         (\<forall>k. rt_lookup (sv_rt sv') k = (case last_by pol_key k ps of Some p \<Rightarrow> Some p | None \<Rightarrow> rt_lookup (sv_rt sv) k)))"
  using data_dir.layered.import_coherent [OF assms(1) [unfolded data_dir_inv_def] assms(2)] by blast

theorem import_last_wins_witness:
  "let ps = [ex_pol ''d'' ''a'' ''1'', ex_pol ''d'' ''b'' ''2'', ex_pol ''d'' ''a'' ''3''];
       (res, e, sv') = Service_Import ex_compiler ex_ops ps False ex_svc
   in e = None \<and> rt_lookup (sv_rt sv') (''d'', ''a'') = Some (ex_pol ''d'' ''a'' ''3'')"
proof -
  let ?ps = "[ex_pol ''d'' ''a'' ''1'', ex_pol ''d'' ''b'' ''2'', ex_pol ''d'' ''a'' ''3'']"
  obtain res e sv' where r: "Service_Import ex_compiler ex_ops ?ps False ex_svc = (res, e, sv')" by (metis prod_cases3)
  have "fst (snd (Service_Import ex_compiler ex_ops ?ps False ex_svc)) = None" by code_simp
  with r have e: "e = None" by simp
  have l: "labels_ok ?ps" "last_by pol_key (''d'', ''a'') ?ps = Some (ex_pol ''d'' ''a'' ''3'')" by code_simp+
  from import_last_wins [OF ex_coherent [unfolded ex_ops_def] r [unfolded ex_ops_def]] e l r show ?thesis by simp
qed

text \<open>
  Labels that collide lose a policy: the two keys below are different, yet deduplication keeps only the
  second entry.
\<close>

lemma import_label_collision:
  "let p = ex_pol ''a'' ''b/c'' ''1''; q = ex_pol ''a/b'' ''c'' ''2''
   in pol_key p \<noteq> pol_key q \<and> dedupe [p, q] = [q]"
  by code_simp

end
