(* ===== verification/Proposals.thy ===== *)
theory Proposals
  imports PolicyService
begin

text \<open>
  The proposal workflow of \<^verbatim>\<open>internal/control/proposals\<close>: drafts of policies that a reviewer edits, rejects or
  approves.  The clock and the id generator are inputs of the operations (\<open>now\<close>, \<open>pid\<close>); the policy service
  behind \<open>PolicyValidator\<close> is a record of operations over its state.
\<close>

section \<open>Definitions\<close>

subsection \<open>Records\<close>

type_synonym Status = string

definition StatusProposed :: Status where "StatusProposed = ''proposed''"
definition StatusApproved :: Status where "StatusApproved = ''approved''"
definition StatusRejected :: Status where "StatusRejected = ''rejected''"

type_synonym OriginKind = string

definition OriginKind_Validate :: "OriginKind \<Rightarrow> string option" where
  "OriginKind_Validate k =
     (if k \<in> {[], ''manual'', ''agent'', ''from_request''} then None else Some ''unknown origin kind'')"

record Origin =
  og_Kind :: OriginKind
  og_Agent :: string
  og_RequestID :: string

type_synonym Kind = string

definition KindApply :: Kind where "KindApply = ''apply''"
definition KindDelete :: Kind where "KindDelete = ''delete''"

definition Kind_Validate :: "Kind \<Rightarrow> string option" where
  "Kind_Validate k = (if k \<in> {[], KindApply, KindDelete} then None else Some ''unknown proposal kind'')"

definition Kind_Resolve :: "Kind \<Rightarrow> Kind" where
  "Kind_Resolve k = (if k = [] then KindApply else k)"

record Proposal =
  pp_ID :: string
  pp_Kind :: Kind
  pp_Policy :: Policy
  pp_Status :: Status
  pp_Origin :: Origin
  pp_Author :: string
  pp_Rationale :: string
  pp_CreatedAt :: int
  pp_UpdatedAt :: int
  pp_DecidedAt :: "int option"
  pp_DecidedBy :: string
  pp_RejectionReason :: string

record CreateInput =
  ci_Kind :: Kind
  ci_Policy :: Policy
  ci_Origin :: Origin
  ci_Author :: string
  ci_Rationale :: string

record UpdateInput =
  ui_Policy :: "Policy option"
  ui_Rationale :: "string option"

record ListOpts =
  lo_Status :: Status
  lo_API :: string

datatype prop_err =
    PErrNotFound
  | PErrInvalid
  | PErrBadTransition
  | PErrPolicyConflict
  | PErrStore prop_err
  | PErrIO string
  | PErrApply perr

record 'v PolicyValidator =
  pv_Validate :: "Policy \<Rightarrow> 'v \<Rightarrow> perr option"
  pv_Replace :: "string \<Rightarrow> string \<Rightarrow> Policy \<Rightarrow> 'v \<Rightarrow> perr option \<times> 'v"
  pv_Delete :: "string \<Rightarrow> string \<Rightarrow> 'v \<Rightarrow> perr option \<times> 'v"
  pv_Get :: "string \<Rightarrow> string \<Rightarrow> 'v \<Rightarrow> perr + Policy"

record 'q PropStore =
  ps_List :: "ListOpts \<Rightarrow> 'q \<Rightarrow> prop_err + Proposal list"
  ps_Get :: "string \<Rightarrow> 'q \<Rightarrow> prop_err + Proposal"
  ps_Put :: "Proposal \<Rightarrow> 'q \<Rightarrow> prop_err option \<times> 'q"
  ps_Delete :: "string \<Rightarrow> 'q \<Rightarrow> prop_err option \<times> 'q"

subsection \<open>SQLite store\<close>

record prow =
  prow_id :: string
  prow_status :: string
  prow_api :: string
  prow_payload :: string

definition listHardLimit :: nat where "listHardLimit = 10000"

definition pget :: "(string \<Rightarrow> Proposal option) \<Rightarrow> string option \<Rightarrow> string \<Rightarrow> prow list \<Rightarrow> prop_err + Proposal" where
  "pget unmarshal io pid db =
     (case io of
        Some e \<Rightarrow> Inl (PErrIO e)
      | None \<Rightarrow>
          (case find_by prow_id pid db of
             None \<Rightarrow> Inl PErrNotFound
           | Some r \<Rightarrow> (case unmarshal (prow_payload r) of None \<Rightarrow> Inl (PErrIO ''decode'') | Some p \<Rightarrow> Inr p)))"

definition pput :: "(Proposal \<Rightarrow> string) \<Rightarrow> string option \<Rightarrow> Proposal \<Rightarrow> prow list \<Rightarrow> prop_err option \<times> prow list" where
  "pput marshal io p db =
     (case io of
        Some e \<Rightarrow> (Some (PErrIO e), db)
      | None \<Rightarrow>
          (None, upsert_by prow_id
             \<lparr>prow_id = pp_ID p, prow_status = pp_Status p, prow_api = pol_API (pp_Policy p), prow_payload = marshal p\<rparr> db))"

definition pdelete :: "string option \<Rightarrow> string \<Rightarrow> prow list \<Rightarrow> prop_err option \<times> prow list" where
  "pdelete io pid db =
     (case io of
        Some e \<Rightarrow> (Some (PErrIO e), db)
      | None \<Rightarrow>
          (let db' = filter (\<lambda>r. prow_id r \<noteq> pid) db
           in if length db' = length db then (Some PErrNotFound, db') else (None, db')))"

fun decode_props :: "(string \<Rightarrow> Proposal option) \<Rightarrow> prow list \<Rightarrow> prop_err + Proposal list" where
  "decode_props unmarshal [] = Inr []"
| "decode_props unmarshal (r # rs) =
     (case unmarshal (prow_payload r) of
        None \<Rightarrow> Inl (PErrIO ''decode'')
      | Some p \<Rightarrow> (case decode_props unmarshal rs of Inl e \<Rightarrow> Inl e | Inr ps \<Rightarrow> Inr (p # ps)))"

definition plist ::
  "(string \<Rightarrow> Proposal option) \<Rightarrow> string option \<Rightarrow> ListOpts \<Rightarrow> prow list \<Rightarrow> prop_err + Proposal list" where
  "plist unmarshal io opts db =
     (case io of
        Some e \<Rightarrow> Inl (PErrIO e)
      | None \<Rightarrow>
          decode_props unmarshal
            (take listHardLimit (sort_key prow_id
               (filter (\<lambda>r. (lo_Status opts \<noteq> [] \<longrightarrow> prow_status r = lo_Status opts)
                          \<and> (lo_API opts \<noteq> [] \<longrightarrow> prow_api r = lo_API opts)) db))))"

definition propSqlite ::
  "(Proposal \<Rightarrow> string) \<Rightarrow> (string \<Rightarrow> Proposal option) \<Rightarrow> string option \<Rightarrow> prow list PropStore" where
  "propSqlite marshal unmarshal io =
     \<lparr>ps_List = plist unmarshal io, ps_Get = pget unmarshal io, ps_Put = pput marshal io, ps_Delete = pdelete io\<rparr>"

subsection \<open>The service\<close>

record ('q, 'v) PropService =
  sp_store :: 'q
  sp_val :: 'v

definition validateForKind :: "'v PolicyValidator \<Rightarrow> Kind \<Rightarrow> Policy \<Rightarrow> 'v \<Rightarrow> prop_err option" where
  "validateForKind V kind p v =
     (if kind = KindDelete then
        (if pol_API p = [] \<or> pol_Name p = [] then Some (PErrIO ''api and name are required for kind=delete'') else None)
      else (case pv_Validate V p v of Some e \<Rightarrow> Some (PErrApply e) | None \<Rightarrow> None))"

definition Prop_Create ::
  "'q PropStore \<Rightarrow> 'v PolicyValidator \<Rightarrow> string \<Rightarrow> int \<Rightarrow> CreateInput \<Rightarrow> ('q, 'v) PropService
     \<Rightarrow> (prop_err + Proposal) \<times> ('q, 'v) PropService" where
  "Prop_Create P V pid now ci s =
     (let kind = Kind_Resolve (ci_Kind ci)
      in if Kind_Validate (ci_Kind ci) \<noteq> None then (Inl PErrInvalid, s)
         else if OriginKind_Validate (og_Kind (ci_Origin ci)) \<noteq> None then (Inl PErrInvalid, s)
         else if validateForKind V kind (ci_Policy ci) (sp_val s) \<noteq> None then (Inl PErrInvalid, s)
         else (let p = \<lparr>pp_ID = pid, pp_Kind = kind, pp_Policy = ci_Policy ci, pp_Status = StatusProposed,
                        pp_Origin = ci_Origin ci, pp_Author = ci_Author ci, pp_Rationale = ci_Rationale ci,
                        pp_CreatedAt = now, pp_UpdatedAt = now, pp_DecidedAt = None, pp_DecidedBy = [],
                        pp_RejectionReason = []\<rparr>
               in case ps_Put P p (sp_store s) of
                    (Some e, st) \<Rightarrow> (Inl (PErrStore e), s\<lparr>sp_store := st\<rparr>)
                  | (None, st) \<Rightarrow> (Inr p, s\<lparr>sp_store := st\<rparr>)))"

definition Prop_Get :: "'q PropStore \<Rightarrow> string \<Rightarrow> ('q, 'v) PropService \<Rightarrow> prop_err + Proposal" where
  "Prop_Get P pid s = ps_Get P pid (sp_store s)"

definition Prop_List :: "'q PropStore \<Rightarrow> ListOpts \<Rightarrow> ('q, 'v) PropService \<Rightarrow> prop_err + Proposal list" where
  "Prop_List P opts s = ps_List P opts (sp_store s)"

definition Prop_Update ::
  "'q PropStore \<Rightarrow> 'v PolicyValidator \<Rightarrow> string \<Rightarrow> int \<Rightarrow> UpdateInput \<Rightarrow> ('q, 'v) PropService
     \<Rightarrow> (prop_err + Proposal) \<times> ('q, 'v) PropService" where
  "Prop_Update P V pid now ui s =
     (case ps_Get P pid (sp_store s) of
        Inl e \<Rightarrow> (Inl e, s)
      | Inr cur \<Rightarrow>
          (if pp_Status cur \<noteq> StatusProposed then (Inl PErrBadTransition, s)
           else if (case ui_Policy ui of
                      None \<Rightarrow> False
                    | Some p \<Rightarrow> validateForKind V (Kind_Resolve (pp_Kind cur)) p (sp_val s) \<noteq> None)
             then (Inl PErrInvalid, s)
           else (let cur1 = (case ui_Policy ui of None \<Rightarrow> cur | Some p \<Rightarrow> cur\<lparr>pp_Policy := p\<rparr>);
                     cur2 = (case ui_Rationale ui of None \<Rightarrow> cur1 | Some r \<Rightarrow> cur1\<lparr>pp_Rationale := r\<rparr>);
                     cur3 = cur2\<lparr>pp_UpdatedAt := now\<rparr>
                 in case ps_Put P cur3 (sp_store s) of
                      (Some e, st) \<Rightarrow> (Inl (PErrStore e), s\<lparr>sp_store := st\<rparr>)
                    | (None, st) \<Rightarrow> (Inr cur3, s\<lparr>sp_store := st\<rparr>))))"

text \<open>The part of \<open>Approve\<close> that applies the proposal to the live policies.\<close>

definition apply_proposal ::
  "'v PolicyValidator \<Rightarrow> Proposal \<Rightarrow> bool \<Rightarrow> 'v \<Rightarrow> prop_err option \<times> 'v" where
  "apply_proposal V cur overwrite v =
     (let api = pol_API (pp_Policy cur); name = pol_Name (pp_Policy cur)
      in if Kind_Resolve (pp_Kind cur) = KindDelete then
           (case pv_Delete V api name v of
              (Some e, v1) \<Rightarrow> (if is_err ErrNotFound e then (None, v1) else (Some (PErrApply e), v1))
            | (None, v1) \<Rightarrow> (None, v1))
         else
           (let conflict = (if overwrite then None
                            else (case pv_Get V api name v of
                                    Inr _ \<Rightarrow> Some PErrPolicyConflict
                                  | Inl e \<Rightarrow> (if is_err ErrNotFound e then None else Some (PErrApply e))))
            in case conflict of
                 Some e \<Rightarrow> (Some e, v)
               | None \<Rightarrow>
                   (case pv_Replace V api name (pp_Policy cur) v of
                      (Some e, v1) \<Rightarrow> (Some (PErrApply e), v1)
                    | (None, v1) \<Rightarrow> (None, v1))))"

definition Prop_Approve ::
  "'q PropStore \<Rightarrow> 'v PolicyValidator \<Rightarrow> string \<Rightarrow> int \<Rightarrow> string \<Rightarrow> bool \<Rightarrow> ('q, 'v) PropService
     \<Rightarrow> (prop_err + Proposal) \<times> ('q, 'v) PropService" where
  "Prop_Approve P V pid now by' overwrite s =
     (case ps_Get P pid (sp_store s) of
        Inl e \<Rightarrow> (Inl e, s)
      | Inr cur \<Rightarrow>
          (if pp_Status cur \<noteq> StatusProposed then (Inl PErrBadTransition, s)
           else (case apply_proposal V cur overwrite (sp_val s) of
                   (Some e, v1) \<Rightarrow> (Inl e, s\<lparr>sp_val := v1\<rparr>)
                 | (None, v1) \<Rightarrow>
                     (let cur1 = cur\<lparr>pp_Status := StatusApproved, pp_UpdatedAt := now, pp_DecidedAt := Some now,
                                     pp_DecidedBy := by'\<rparr>
                      in case ps_Put P cur1 (sp_store s) of
                           (Some e, st) \<Rightarrow> (Inl (PErrStore e), s\<lparr>sp_val := v1, sp_store := st\<rparr>)
                         | (None, st) \<Rightarrow> (Inr cur1, s\<lparr>sp_val := v1, sp_store := st\<rparr>)))))"

definition Prop_Reject ::
  "'q PropStore \<Rightarrow> string \<Rightarrow> int \<Rightarrow> string \<Rightarrow> string \<Rightarrow> ('q, 'v) PropService
     \<Rightarrow> (prop_err + Proposal) \<times> ('q, 'v) PropService" where
  "Prop_Reject P pid now by' reason s =
     (case ps_Get P pid (sp_store s) of
        Inl e \<Rightarrow> (Inl e, s)
      | Inr cur \<Rightarrow>
          (if pp_Status cur \<noteq> StatusProposed then (Inl PErrBadTransition, s)
           else (let cur1 = cur\<lparr>pp_Status := StatusRejected, pp_UpdatedAt := now, pp_DecidedAt := Some now,
                                pp_DecidedBy := by', pp_RejectionReason := reason\<rparr>
                 in case ps_Put P cur1 (sp_store s) of
                      (Some e, st) \<Rightarrow> (Inl (PErrStore e), s\<lparr>sp_store := st\<rparr>)
                    | (None, st) \<Rightarrow> (Inr cur1, s\<lparr>sp_store := st\<rparr>))))"

definition Prop_Delete ::
  "'q PropStore \<Rightarrow> string \<Rightarrow> ('q, 'v) PropService \<Rightarrow> prop_err option \<times> ('q, 'v) PropService" where
  "Prop_Delete P pid s =
     (let (e, st) = ps_Delete P pid (sp_store s) in (e, s\<lparr>sp_store := st\<rparr>))"

text \<open>The live policy service as the validator.\<close>

definition policyValidator :: "compiler \<Rightarrow> 's Store \<Rightarrow> ('s, 'u) Service PolicyValidator" where
  "policyValidator compile ops =
     \<lparr>pv_Validate = (\<lambda>p sv. Validate compile p (sv_rt sv)),
      pv_Replace = Service_Replace compile ops, pv_Delete = Service_Delete ops, pv_Get = Service_Get\<rparr>"

subsection \<open>Specification\<close>

text \<open>
  The writes of the review surface.  A create uses an id no stored proposal has: ids carry ten random
  bytes.
\<close>

inductive prop_step ::
  "'q PropStore \<Rightarrow> 'v PolicyValidator \<Rightarrow> ('q, 'v) PropService \<Rightarrow> ('q, 'v) PropService \<Rightarrow> bool"
  for P V where
  create: "ps_Get P pid (sp_store s) = Inl PErrNotFound \<Longrightarrow> prop_step P V s (snd (Prop_Create P V pid now ci s))"
| update: "prop_step P V s (snd (Prop_Update P V pid now ui s))"
| approve: "prop_step P V s (snd (Prop_Approve P V pid now by' overwrite s))"
| reject: "prop_step P V s (snd (Prop_Reject P pid now by' reason s))"
| delete: "prop_step P V s (snd (Prop_Delete P pid s))"

definition proposal_ok :: "Proposal \<Rightarrow> bool" where
  "proposal_ok p \<longleftrightarrow>
     (pp_Status p = StatusProposed \<and> pp_DecidedAt p = None
      \<or> pp_Status p \<in> {StatusApproved, StatusRejected} \<and> pp_DecidedAt p = Some (pp_UpdatedAt p))
     \<and> pp_Kind p \<in> {KindApply, KindDelete} \<and> OriginKind_Validate (og_Kind (pp_Origin p)) = None"

definition prop_json :: "(Proposal \<Rightarrow> string) \<Rightarrow> (string \<Rightarrow> Proposal option) \<Rightarrow> bool" where
  "prop_json marshal unmarshal \<longleftrightarrow> (\<forall>p. unmarshal (marshal p) = Some p)"

definition prop_inv :: "(Proposal \<Rightarrow> string) \<Rightarrow> (string \<Rightarrow> Proposal option) \<Rightarrow> prow list \<Rightarrow> bool" where
  "prop_inv marshal unmarshal db \<longleftrightarrow>
     prop_json marshal unmarshal \<and> distinct (map prow_id db)
     \<and> (\<forall>r \<in> set db. \<exists>p. unmarshal (prow_payload r) = Some p \<and> pp_ID p = prow_id r
          \<and> pp_Status p = prow_status r \<and> pol_API (pp_Policy p) = prow_api r)"

text \<open>What an approved proposal means for the live policy set.\<close>

definition approved_effect :: "Proposal \<Rightarrow> bool \<Rightarrow> (string \<times> string \<rightharpoonup> Policy) \<Rightarrow> (string \<times> string \<rightharpoonup> Policy) \<Rightarrow> bool" where
  "approved_effect cur overwrite m m' \<longleftrightarrow>
     (if Kind_Resolve (pp_Kind cur) = KindDelete then m' = m(pol_key (pp_Policy cur) := None)
      else m' = m(pol_key (pp_Policy cur) \<mapsto> pp_Policy cur) \<and> (\<not> overwrite \<longrightarrow> m (pol_key (pp_Policy cur)) = None))"

text \<open>A stand-in payload codec for one proposal, used by the concrete checks.\<close>

definition ex_ci :: CreateInput where
  "ex_ci = \<lparr>ci_Kind = [], ci_Policy = ex_pol ''d'' ''a'' ''x'', ci_Origin = \<lparr>og_Kind = ''agent'', og_Agent = ''bot'', og_RequestID = []\<rparr>,
     ci_Author = ''bot'', ci_Rationale = ''why''\<rparr>"

definition ex_fields :: "Proposal \<Rightarrow> string list" where
  "ex_fields p = [pp_ID p, pp_Kind p, ex_marshal (pp_Policy p), pp_Status p, og_Kind (pp_Origin p), og_Agent (pp_Origin p),
     og_RequestID (pp_Origin p), pp_Author p, pp_Rationale p, pp_DecidedBy p, pp_RejectionReason p]"

definition ex_int :: "int \<Rightarrow> string" where
  "ex_int i = (if i < 0 then ''-'' else ''+'') @ replicate (nat \<bar>i\<bar>) (CHR ''1'')"

definition ex_unint :: "string \<Rightarrow> int" where
  "ex_unint s = (if hd s = CHR ''-'' then - int (length s - 1) else int (length s - 1))"

definition ex_pmarshal :: "Proposal \<Rightarrow> string" where
  "ex_pmarshal p = concat (map ex_field (ex_fields p @
     [ex_int (pp_CreatedAt p), ex_int (pp_UpdatedAt p), (case pp_DecidedAt p of None \<Rightarrow> [] | Some t \<Rightarrow> ex_int t)]))"

definition ex_punmarshal :: "string \<Rightarrow> Proposal option" where
  "ex_punmarshal s =
     (case ex_takes 14 s of
        Some [i, k, pol, st, ok, oa, orq, au, ra, db, rr, ct, ut, dt] \<Rightarrow>
          (case ex_unmarshal pol of
             None \<Rightarrow> None
           | Some q \<Rightarrow>
               Some \<lparr>pp_ID = i, pp_Kind = k, pp_Policy = q, pp_Status = st,
                     pp_Origin = \<lparr>og_Kind = ok, og_Agent = oa, og_RequestID = orq\<rparr>, pp_Author = au, pp_Rationale = ra,
                     pp_CreatedAt = ex_unint ct, pp_UpdatedAt = ex_unint ut,
                     pp_DecidedAt = (if dt = [] then None else Some (ex_unint dt)), pp_DecidedBy = db, pp_RejectionReason = rr\<rparr>)
      | _ \<Rightarrow> None)"

locale proposal_store =
  fixes P :: "'q PropStore" and qinv :: "'q \<Rightarrow> bool"
  assumes p_put_ok: "qinv s \<Longrightarrow> ps_Put P p s = (None, s') \<Longrightarrow>
      qinv s' \<and> (\<forall>i. ps_Get P i s' = (if i = pp_ID p then Inr p else ps_Get P i s))"
    and p_put_err: "qinv s \<Longrightarrow> ps_Put P p s = (Some e, s') \<Longrightarrow> s' = s"
    and p_del_ok: "qinv s \<Longrightarrow> ps_Delete P i s = (None, s') \<Longrightarrow>
      qinv s' \<and> (\<forall>j. ps_Get P j s' = (if j = i then Inl PErrNotFound else ps_Get P j s))"
    and p_del_err: "qinv s \<Longrightarrow> ps_Delete P i s = (Some e, s') \<Longrightarrow> s' = s"
    and p_get_id: "qinv s \<Longrightarrow> ps_Get P i s = Inr p \<Longrightarrow> pp_ID p = i"
begin

lemma put_view:
  assumes "qinv s"
  shows "qinv (snd (ps_Put P p s))" "ps_Get P i (snd (ps_Put P p s)) =
    (if fst (ps_Put P p s) = None \<and> i = pp_ID p then Inr p else ps_Get P i s)"
  using p_put_ok [OF assms, of p "snd (ps_Put P p s)"] p_put_err [OF assms, of p _ "snd (ps_Put P p s)"] assms
  by (cases "ps_Put P p s"; cases "fst (ps_Put P p s)"; simp)+

lemma del_view:
  assumes "qinv s"
  shows "qinv (snd (ps_Delete P j s))" "ps_Get P i (snd (ps_Delete P j s)) =
    (if fst (ps_Delete P j s) = None \<and> i = j then Inl PErrNotFound else ps_Get P i s)"
  using p_del_ok [OF assms, of j "snd (ps_Delete P j s)"] p_del_err [OF assms, of j _ "snd (ps_Delete P j s)"] assms
  by (cases "ps_Delete P j s"; cases "fst (ps_Delete P j s)"; simp)+

text \<open>What one write does to the stored proposals: nothing, one put, or one delete.\<close>

lemma step_cases:
  assumes st: "prop_step P V s s'" and inv: "qinv (sp_store s)"
  obtains
    (same) "sp_store s' = sp_store s"
  | (new) p where "sp_store s' = snd (ps_Put P p (sp_store s))" "ps_Get P (pp_ID p) (sp_store s) = Inl PErrNotFound" "proposal_ok p"
  | (edit) cur p where "ps_Get P (pp_ID p) (sp_store s) = Inr cur" "pp_Status cur = StatusProposed"
      "sp_store s' = snd (ps_Put P p (sp_store s))" "proposal_ok cur \<Longrightarrow> proposal_ok p"
  | (drop) i where "sp_store s' = snd (ps_Delete P i (sp_store s))"
  using st
proof cases
  case (create pid now ci)
  then show thesis
    using same new [of "\<lparr>pp_ID = pid, pp_Kind = Kind_Resolve (ci_Kind ci), pp_Policy = ci_Policy ci, pp_Status = StatusProposed,
        pp_Origin = ci_Origin ci, pp_Author = ci_Author ci, pp_Rationale = ci_Rationale ci, pp_CreatedAt = now,
        pp_UpdatedAt = now, pp_DecidedAt = None, pp_DecidedBy = [], pp_RejectionReason = []\<rparr>"]
    by (auto simp: Prop_Create_def Let_def proposal_ok_def Kind_Validate_def Kind_Resolve_def
        split: if_splits prod.splits option.splits)
next
  case (update pid now ui)
  show thesis
  proof (cases "ps_Get P pid (sp_store s)")
    case (Inr cur)
    let ?cur1 = "case ui_Policy ui of None \<Rightarrow> cur | Some p \<Rightarrow> cur\<lparr>pp_Policy := p\<rparr>"
    let ?cur3 = "(case ui_Rationale ui of None \<Rightarrow> ?cur1 | Some r \<Rightarrow> ?cur1\<lparr>pp_Rationale := r\<rparr>)\<lparr>pp_UpdatedAt := now\<rparr>"
    have f: "pp_ID ?cur3 = pp_ID cur" "pp_Status ?cur3 = pp_Status cur" "pp_DecidedAt ?cur3 = pp_DecidedAt cur"
      "pp_Kind ?cur3 = pp_Kind cur" "pp_Origin ?cur3 = pp_Origin cur" by (simp_all split: option.split)
    have pid: "pp_ID cur = pid" using inv Inr by (rule p_get_id)
    have "sp_store s' = sp_store s \<or> pp_Status cur = StatusProposed \<and> sp_store s' = snd (ps_Put P ?cur3 (sp_store s))"
      unfolding update Prop_Update_def Inr by (simp add: Let_def split: prod.split option.split)
    moreover have "pp_Status cur = StatusProposed \<Longrightarrow> proposal_ok cur \<Longrightarrow> proposal_ok ?cur3"
      unfolding proposal_ok_def f by (simp add: StatusProposed_def StatusApproved_def StatusRejected_def)
    ultimately show thesis using same edit [of ?cur3 cur] Inr f(1) pid by metis
  qed (use update same in \<open>simp add: Prop_Update_def\<close>)
next
  case (approve pid now by' overwrite)
  show thesis
  proof (cases "ps_Get P pid (sp_store s)")
    case (Inr cur)
    let ?cur1 = "cur\<lparr>pp_Status := StatusApproved, pp_UpdatedAt := now, pp_DecidedAt := Some now, pp_DecidedBy := by'\<rparr>"
    have pid: "pp_ID cur = pid" using inv Inr by (rule p_get_id)
    have "sp_store s' = sp_store s \<or> pp_Status cur = StatusProposed \<and> sp_store s' = snd (ps_Put P ?cur1 (sp_store s))"
      unfolding approve Prop_Approve_def Inr by (simp add: Let_def split: prod.split option.split)
    moreover have "proposal_ok cur \<Longrightarrow> proposal_ok ?cur1" by (simp add: proposal_ok_def)
    ultimately show thesis using same edit [of ?cur1 cur] Inr pid by auto
  qed (use approve same in \<open>simp add: Prop_Approve_def\<close>)
next
  case (reject pid now by' reason)
  show thesis
  proof (cases "ps_Get P pid (sp_store s)")
    case (Inr cur)
    let ?cur1 = "cur\<lparr>pp_Status := StatusRejected, pp_UpdatedAt := now, pp_DecidedAt := Some now, pp_DecidedBy := by',
        pp_RejectionReason := reason\<rparr>"
    have pid: "pp_ID cur = pid" using inv Inr by (rule p_get_id)
    have "sp_store s' = sp_store s \<or> pp_Status cur = StatusProposed \<and> sp_store s' = snd (ps_Put P ?cur1 (sp_store s))"
      unfolding reject Prop_Reject_def Inr by (simp add: Let_def split: prod.split option.split)
    moreover have "proposal_ok cur \<Longrightarrow> proposal_ok ?cur1" by (simp add: proposal_ok_def)
    ultimately show thesis using same edit [of ?cur1 cur] Inr pid by auto
  qed (use reject same in \<open>simp add: Prop_Reject_def\<close>)
next
  case (delete pid)
  then show thesis using drop [of pid] by (simp add: Prop_Delete_def split_beta)
qed

lemma step_inv: "prop_step P V s s' \<Longrightarrow> qinv (sp_store s) \<Longrightarrow> qinv (sp_store s')"
  by (erule (1) step_cases) (simp_all add: put_view del_view)

lemma step_ok:
  assumes "prop_step P V s s'" "qinv (sp_store s)" "\<And>i p. ps_Get P i (sp_store s) = Inr p \<Longrightarrow> proposal_ok p"
    "ps_Get P i (sp_store s') = Inr p"
  shows "proposal_ok p"
  using assms by (elim step_cases) (auto simp: put_view del_view split: if_splits)

lemma decided_final:
  assumes "prop_step P V s s'" "qinv (sp_store s)" "ps_Get P i (sp_store s) = Inr p" "pp_Status p \<noteq> StatusProposed"
  shows "ps_Get P i (sp_store s') \<in> {Inr p, Inl PErrNotFound}"
  using assms by (elim step_cases) (auto simp: put_view del_view)

lemma steps_ok:
  assumes "(prop_step P V)\<^sup>*\<^sup>* s s'" "qinv (sp_store s)" "\<forall>i p. ps_Get P i (sp_store s) = Inr p \<longrightarrow> proposal_ok p"
  shows "qinv (sp_store s') \<and> (\<forall>i p. ps_Get P i (sp_store s') = Inr p \<longrightarrow> proposal_ok p)"
  using assms(1)
proof (induction rule: rtranclp_induct)
  case (step y z)
  then show ?case using step_inv step_ok by metis
qed (use assms in simp)

end

section \<open>SQLite store\<close>

interpretation prop_sqlite: proposal_store "propSqlite marshal unmarshal io" "prop_inv marshal unmarshal"
  for marshal unmarshal io
proof
  let ?P = "propSqlite marshal unmarshal io" and ?inv = "prop_inv marshal unmarshal"
  fix s s' :: "prow list" and p e i
  assume inv: "?inv s"
  have d: "distinct (map prow_id s)" using inv by (simp add: prop_inv_def)
  have rt: "unmarshal (marshal q) = Some q" for q using inv by (simp add: prop_inv_def prop_json_def)
  show "?inv s' \<and> (\<forall>i. ps_Get ?P i s' = (if i = pp_ID p then Inr p else ps_Get ?P i s))" if "ps_Put ?P p s = (None, s')"
  proof -
    let ?r = "\<lparr>prow_id = pp_ID p, prow_status = pp_Status p, prow_api = pol_API (pp_Policy p), prow_payload = marshal p\<rparr>"
    have s': "io = None" "s' = upsert_by prow_id ?r s"
      using that by (auto simp: propSqlite_def pput_def split: option.splits)
    have "?inv s'"
      using inv rt set_upsert_by_subset [of prow_id ?r s] unfolding s'(2) by (auto simp: prop_inv_def distinct_upsert_by)
    then show ?thesis by (auto simp: propSqlite_def pget_def s' find_by_upsert_by rt split: option.split)
  qed
  show "s' = s" if "ps_Put ?P p s = (Some e, s')"
    using that by (auto simp: propSqlite_def pput_def split: option.splits)
  have rm: "filter (\<lambda>r. prow_id r \<noteq> i) s = remove_by prow_id i s" by (rule remove_by_filter [OF d, symmetric])
  show "?inv s' \<and> (\<forall>j. ps_Get ?P j s' = (if j = i then Inl PErrNotFound else ps_Get ?P j s))"
    if "ps_Delete ?P i s = (None, s')"
  proof -
    have s': "io = None" "s' = remove_by prow_id i s"
      using that by (auto simp: propSqlite_def pdelete_def rm Let_def split: option.splits if_splits)
    have "?inv s'"
      using inv set_remove_by_subset [of prow_id i s] unfolding s'(2) by (auto simp: prop_inv_def distinct_remove_by)
    then show ?thesis by (auto simp: propSqlite_def pget_def s' find_by_remove_by [OF d])
  qed
  show "s' = s" if "ps_Delete ?P i s = (Some e, s')"
    using that by (auto simp: propSqlite_def pdelete_def rm Let_def length_remove_by_eq remove_by_id
        split: option.splits if_splits)
  show "pp_ID p = i" if "ps_Get ?P i s = Inr p"
    using that inv find_by_Some [of prow_id i s]
    by (fastforce simp: propSqlite_def pget_def prop_inv_def split: option.splits)
qed

lemma ex_unint_int: "ex_unint (ex_int i) = i" "ex_int i \<noteq> []"
  by (auto simp: ex_unint_def ex_int_def)

lemma ex_prop_json: "prop_json ex_pmarshal ex_punmarshal"
proof -
  have "ex_takes 14 (ex_pmarshal p) = Some (ex_fields p @ [ex_int (pp_CreatedAt p), ex_int (pp_UpdatedAt p),
      (case pp_DecidedAt p of None \<Rightarrow> [] | Some t \<Rightarrow> ex_int t)])" (is "_ = Some ?fs") for p
  proof -
    have len: "length ?fs = 14" by (simp add: ex_fields_def)
    show ?thesis using ex_takes_fields [of ?fs] unfolding len ex_pmarshal_def .
  qed
  moreover have "ex_unmarshal (ex_marshal q) = Some q" for q using ex_json_roundtrip by (simp add: json_roundtrip_def)
  ultimately show ?thesis
    by (simp add: prop_json_def ex_punmarshal_def ex_fields_def ex_unint_int split: option.split)
qed

section \<open>Approval\<close>

lemma apply_proposal_effect:
  assumes c: "coherent compile (LayeredStore (sqliteStore marshal unmarshal io) seed) (data_dir_inv marshal unmarshal seed) sv"
    and r: "apply_proposal (policyValidator compile (LayeredStore (sqliteStore marshal unmarshal io) seed)) cur ow sv = (e, sv')"
  shows "e = None \<Longrightarrow> approved_effect cur ow (rt_lookup (sv_rt sv)) (rt_lookup (sv_rt sv'))" "e \<noteq> None \<Longrightarrow> sv' = sv"
proof -
  let ?ops = "LayeredStore (sqliteStore marshal unmarshal io) seed"
  let ?V = "policyValidator compile ?ops"
  let ?p = "pp_Policy cur"
  let ?api = "pol_API ?p" and ?n = "pol_Name ?p"
  note c0 = c [unfolded data_dir_inv_def]
  obtain de dv where d: "Service_Delete ?ops ?api ?n sv = (de, dv)" by fastforce
  obtain re rv where rp: "Service_Replace compile ?ops ?api ?n ?p sv = (re, rv)" by fastforce
  note D = data_dir.layered.delete_coherent(2,3) [OF c0 d] and R = data_dir.layered.replace_coherent(2,3) [OF c0 rp]
  have missing: "de = Some x \<Longrightarrow> is_err ErrNotFound x \<Longrightarrow> rt_lookup (sv_rt sv) (?api, ?n) = None" for x
    using data_dir.layered.delete_missing [OF c0] d by blast
  have V: "pv_Delete ?V = Service_Delete ?ops" "pv_Replace ?V = Service_Replace compile ?ops" "pv_Get ?V = Service_Get"
    by (simp_all add: policyValidator_def)
  show "e = None \<Longrightarrow> approved_effect cur ow (rt_lookup (sv_rt sv)) (rt_lookup (sv_rt sv'))"
    using r d rp D R missing
    by (auto simp: apply_proposal_def V Let_def approved_effect_def pol_key_def Service_Get_def Service_find_lookup fun_upd_idem
        split: if_splits option.splits sum.splits)
  show "e \<noteq> None \<Longrightarrow> sv' = sv"
    using r d rp D R
    by (auto simp: apply_proposal_def V Let_def Service_Get_def split: if_splits option.splits sum.splits)
qed

section \<open>Properties\<close>

text \<open>
  C31: Decided proposals are final: once a proposal is approved or rejected, no create, edit, approval,
  rejection or delete changes its record; a delete can only remove it as a whole.
\<close>

theorem decided_proposals_final:
  assumes "prop_inv marshal unmarshal (sp_store s)" "prop_step (propSqlite marshal unmarshal io) V s s'"
    and "Prop_Get (propSqlite marshal unmarshal io) pid s = Inr p" "pp_Status p \<noteq> StatusProposed"
  shows "Prop_Get (propSqlite marshal unmarshal io) pid s' \<in> {Inr p, Inl PErrNotFound}"
  using prop_sqlite.decided_final [OF assms(2,1) assms(3) [unfolded Prop_Get_def] assms(4)] by (simp add: Prop_Get_def)

theorem decided_proposals_final_witness:
  "let P = propSqlite ex_pmarshal ex_punmarshal None; V = policyValidator ex_compiler ex_ops;
       s0 = \<lparr>sp_store = [], sp_val = ex_svc\<rparr>;
       s1 = snd (Prop_Create P V ''p1'' 5 ex_ci s0); s2 = snd (Prop_Reject P ''p1'' 6 ''eve'' ''no'' s1);
       s3 = snd (Prop_Approve P V ''p1'' 7 ''eve'' True s2)
   in \<exists>p. Prop_Get P ''p1'' s2 = Inr p \<and> pp_Status p = StatusRejected \<and> Prop_Get P ''p1'' s3 = Inr p"
proof -
  let ?P = "propSqlite ex_pmarshal ex_punmarshal None" and ?V = "policyValidator ex_compiler ex_ops"
  let ?s0 = "\<lparr>sp_store = [], sp_val = ex_svc\<rparr>"
  let ?s1 = "snd (Prop_Create ?P ?V ''p1'' 5 ex_ci ?s0)"
  let ?s2 = "snd (Prop_Reject ?P ''p1'' 6 ''eve'' ''no'' ?s1)"
  let ?s3 = "snd (Prop_Approve ?P ?V ''p1'' 7 ''eve'' True ?s2)"
  have i0: "prop_inv ex_pmarshal ex_punmarshal (sp_store ?s0)" using ex_prop_json by (simp add: prop_inv_def)
  have fresh: "ps_Get ?P ''p1'' (sp_store ?s0) = Inl PErrNotFound" by (simp add: propSqlite_def pget_def)
  have "prop_step ?P ?V ?s0 ?s1" using fresh by (rule prop_step.create)
  then have i1: "prop_inv ex_pmarshal ex_punmarshal (sp_store ?s1)" using i0 by (rule prop_sqlite.step_inv)
  have "prop_step ?P ?V ?s1 ?s2" by (rule prop_step.reject)
  then have i2: "prop_inv ex_pmarshal ex_punmarshal (sp_store ?s2)" using i1 by (rule prop_sqlite.step_inv)
  have "map_sum id pp_Status (Prop_Get ?P ''p1'' ?s2) = Inr StatusRejected" by code_simp
  then obtain p where p: "Prop_Get ?P ''p1'' ?s2 = Inr p" "pp_Status p = StatusRejected"
    by (cases "Prop_Get ?P ''p1'' ?s2") auto
  have "pp_Status p \<noteq> StatusProposed" using p(2) by (simp add: StatusRejected_def StatusProposed_def)
  from decided_proposals_final [OF i2 prop_step.approve p(1) this]
  have "Prop_Get ?P ''p1'' ?s3 \<in> {Inr p, Inl PErrNotFound}" .
  moreover have "is_ok (Prop_Get ?P ''p1'' ?s3)" by code_simp
  ultimately have "Prop_Get ?P ''p1'' ?s3 = Inr p" by (auto simp: is_ok_def)
  with p show ?thesis unfolding Let_def by blast
qed

text \<open>
  Every stored proposal is consistent at all times: it is proposed with no decision date, or approved
  or rejected with one; its kind and origin are known ones.
\<close>

theorem proposals_consistent:
  assumes "prop_json marshal unmarshal"
    and "(prop_step (propSqlite marshal unmarshal io) V)\<^sup>*\<^sup>* \<lparr>sp_store = [], sp_val = v\<rparr> s"
    and "Prop_Get (propSqlite marshal unmarshal io) pid s = Inr p"
  shows "proposal_ok p"
proof -
  have i: "prop_inv marshal unmarshal (sp_store \<lparr>sp_store = [], sp_val = v\<rparr>)" using assms(1) by (simp add: prop_inv_def)
  have "ps_Get (propSqlite marshal unmarshal io) j [] \<noteq> Inr q" for j q
    by (simp add: propSqlite_def pget_def split: option.split)
  with prop_sqlite.steps_ok [OF assms(2) i] assms(3) show ?thesis by (simp add: Prop_Get_def)
qed

theorem proposals_consistent_witness:
  "let P = propSqlite ex_pmarshal ex_punmarshal None; V = policyValidator ex_compiler ex_ops;
       s1 = snd (Prop_Create P V ''p1'' 5 ex_ci \<lparr>sp_store = [], sp_val = ex_svc\<rparr>)
   in \<exists>p. Prop_Get P ''p1'' s1 = Inr p \<and> proposal_ok p"
proof -
  let ?P = "propSqlite ex_pmarshal ex_punmarshal None" and ?V = "policyValidator ex_compiler ex_ops"
  let ?s0 = "\<lparr>sp_store = [], sp_val = ex_svc\<rparr>"
  let ?s1 = "snd (Prop_Create ?P ?V ''p1'' 5 ex_ci ?s0)"
  have fresh: "ps_Get ?P ''p1'' (sp_store ?s0) = Inl PErrNotFound" by (simp add: propSqlite_def pget_def)
  have st: "(prop_step ?P ?V)\<^sup>*\<^sup>* ?s0 ?s1" by (rule r_into_rtranclp, rule prop_step.create, rule fresh)
  have "is_ok (Prop_Get ?P ''p1'' ?s1)" by code_simp
  then obtain p where p: "Prop_Get ?P ''p1'' ?s1 = Inr p" by (auto simp: is_ok_iff)
  from proposals_consistent [OF ex_prop_json st p] p show ?thesis unfolding Let_def by blast
qed

text \<open>
  Approval does what the reviewer was shown.  When it succeeds the live policy set has exactly the
  proposed policy added or replaced (or, for a deletion, removed), and without \<open>overwrite\<close> nothing was
  displaced; the record becomes approved.  When it fails before the record is written, nothing changed.
\<close>

theorem Approve_effect:
  assumes "coherent compile (LayeredStore (sqliteStore marshal unmarshal io) seed) (data_dir_inv marshal unmarshal seed) (sp_val s)"
    and "Prop_Approve P (policyValidator compile (LayeredStore (sqliteStore marshal unmarshal io) seed)) pid now by' ow s = (r, s')"
  shows "case r of
      Inr p \<Rightarrow> pp_Status p = StatusApproved \<and> pp_DecidedBy p = by' \<and>
        (\<exists>cur. ps_Get P pid (sp_store s) = Inr cur \<and> pp_Status cur = StatusProposed \<and> pp_Policy p = pp_Policy cur
           \<and> approved_effect cur ow (rt_lookup (sv_rt (sp_val s))) (rt_lookup (sv_rt (sp_val s'))))
    | Inl e \<Rightarrow> (\<forall>e'. e \<noteq> PErrStore e') \<longrightarrow> s' = s"
proof (cases "ps_Get P pid (sp_store s)")
  case (Inl e)
  then have "r = Inl e" "s' = s" using assms(2) by (auto simp: Prop_Approve_def)
  then show ?thesis by simp
next
  case (Inr cur)
  let ?V = "policyValidator compile (LayeredStore (sqliteStore marshal unmarshal io) seed)"
  obtain e v1 where a: "apply_proposal ?V cur ow (sp_val s) = (e, v1)" by fastforce
  note A = apply_proposal_effect [OF assms(1) a]
  show ?thesis
  proof (cases "pp_Status cur = StatusProposed")
    case False
    with Inr assms(2) show ?thesis by (auto simp: Prop_Approve_def)
  next
    case True
    show ?thesis
    proof (cases e)
      case None
      with Inr True a assms(2) A(1) show ?thesis
        by (auto simp: Prop_Approve_def Let_def split: prod.splits option.splits)
    next
      case (Some x)
      with Inr True a assms(2) A(2) show ?thesis by (auto simp: Prop_Approve_def)
    qed
  qed
qed

theorem Approve_effect_witness:
  "let P = propSqlite ex_pmarshal ex_punmarshal None; V = policyValidator ex_compiler ex_ops;
       s1 = snd (Prop_Create P V ''p1'' 5 ex_ci \<lparr>sp_store = [], sp_val = ex_svc\<rparr>);
       (r, s2) = Prop_Approve P V ''p1'' 6 ''eve'' False s1
   in \<exists>p. r = Inr p \<and> pp_Status p = StatusApproved
        \<and> rt_lookup (sv_rt (sp_val s2)) (''d'', ''a'') = Some (ex_pol ''d'' ''a'' ''x'')"
proof -
  let ?P = "propSqlite ex_pmarshal ex_punmarshal None" and ?V = "policyValidator ex_compiler ex_ops"
  let ?s1 = "snd (Prop_Create ?P ?V ''p1'' 5 ex_ci \<lparr>sp_store = [], sp_val = ex_svc\<rparr>)"
  have v: "sp_val ?s1 = ex_svc" by (auto simp: Prop_Create_def Let_def split: prod.split option.split)
  obtain r s2 where a: "Prop_Approve ?P ?V ''p1'' 6 ''eve'' False ?s1 = (r, s2)" by fastforce
  have "is_ok (fst (Prop_Approve ?P ?V ''p1'' 6 ''eve'' False ?s1))" by code_simp
  with a obtain p where r: "r = Inr p" by (auto simp: is_ok_iff)
  have cur: "map_sum id (\<lambda>c. (pp_Policy c, Kind_Resolve (pp_Kind c) = KindDelete)) (ps_Get ?P ''p1'' (sp_store ?s1))
      = Inr (ex_pol ''d'' ''a'' ''x'', False)" by code_simp
  have c: "coherent ex_compiler ex_ops (data_dir_inv ex_marshal ex_unmarshal (sqliteStore ex_marshal ex_unmarshal None)) (sp_val ?s1)"
    unfolding v by (rule ex_coherent)
  from Approve_effect [OF c [unfolded ex_ops_def] a [unfolded ex_ops_def]] r obtain c1 where
    "pp_Status p = StatusApproved" "ps_Get ?P ''p1'' (sp_store ?s1) = Inr c1"
    "approved_effect c1 False (rt_lookup (sv_rt (sp_val ?s1))) (rt_lookup (sv_rt (sp_val s2)))"
    by (auto simp: ex_ops_def)
  with cur r a show ?thesis by (auto simp: approved_effect_def pol_key_def ex_pol_def)
qed

end
