(* ===== verification/AdminApi.thy ===== *)
theory AdminApi
  imports AdminGate Proposals
begin

text \<open>
  The JSON handlers of the control plane over the policy service (\<^verbatim>\<open>internal/server/admin/policies.go\<close>) and the
  proposal service (\<^verbatim>\<open>proposals.go\<close>).  A handler takes what the request carries (the caller that the
  authentication middleware found, the parameters of the route, the query, the body as its decoder sees
  it) and the service's state, and returns the response and the new state.
\<close>

section \<open>Definitions\<close>

definition query_get :: "HTTPRequest \<Rightarrow> string \<Rightarrow> string" where
  "query_get r k = (case map_of (snd (ParseQuery (r_RawQuery r))) k of Some (v # vs) \<Rightarrow> v | _ \<Rightarrow> [])"

definition query_all :: "HTTPRequest \<Rightarrow> string \<Rightarrow> string list" where
  "query_all r k = (case map_of (snd (ParseQuery (r_RawQuery r))) k of Some vs \<Rightarrow> vs | None \<Rightarrow> [])"

subsection \<open>Policies\<close>

definition MaxPolicyBodyBytes :: nat where "MaxPolicyBodyBytes = 2 ^ 16"
definition MaxImportBodyBytes :: nat where "MaxImportBodyBytes = 2 ^ 20"

record capabilitiesResponse =
  cr_Writeable :: bool

record policiesListResponse =
  pl_Policies :: "Policy list"

record dryRunResponse =
  dn_OK :: bool
  dn_Error :: string

record importResponse =
  im_Created :: "string list"
  im_Overwritten :: "string list"
  im_Errors :: "string list"

datatype policy_payload =
    Capabilities capabilitiesResponse
  | PolicyList policiesListResponse
  | OnePolicy Policy
  | DryRun dryRunResponse
  | YAML string
  | Imported importResponse

definition policy_errors :: "perr errMap list" where
  "policy_errors =
     [\<lparr>em_is = is_err ErrInvalid, em_status = 400, em_msg = []\<rparr>,
      \<lparr>em_is = is_err ErrAPIPath, em_status = 400, em_msg = []\<rparr>,
      \<lparr>em_is = is_err ErrConflict, em_status = 409, em_msg = []\<rparr>,
      \<lparr>em_is = is_err ErrNotFound, em_status = 404, em_msg = ''not found''\<rparr>,
      \<lparr>em_is = is_err ErrReadOnly, em_status = 403, em_msg = []\<rparr>]"

definition writePolicyError :: "(perr \<Rightarrow> string) \<Rightarrow> perr handler_error \<Rightarrow> policy_payload http_response" where
  "writePolicyError txt e = writeMappedError txt e policy_errors"

definition filter_by_api :: "string list \<Rightarrow> Policy list \<Rightarrow> Policy list" where
  "filter_by_api filters all = (if filters \<noteq> [] then filter (\<lambda>p. pol_API p \<in> set filters) all else all)"

definition capabilitiesHandler :: "('s, 'u) Service \<Rightarrow> policy_payload http_response" where
  "capabilitiesHandler sv = writeJSON (Capabilities \<lparr>cr_Writeable = Writeable sv\<rparr>)"

definition listPoliciesHandler :: "HTTPRequest \<Rightarrow> ('s, 'u) Service \<Rightarrow> policy_payload http_response" where
  "listPoliciesHandler r sv = writeJSON (PolicyList \<lparr>pl_Policies = filter_by_api (query_all r ''api'') (Service_List sv)\<rparr>)"

definition getPolicyHandler :: "(perr \<Rightarrow> string) \<Rightarrow> string \<Rightarrow> string \<Rightarrow> ('s, 'u) Service \<Rightarrow> policy_payload http_response" where
  "getPolicyHandler txt api name sv =
     (case Service_Get api name sv of
        Inl e \<Rightarrow> writePolicyError txt (ServiceError e) | Inr p \<Rightarrow> writeJSON (OnePolicy p))"

definition zero_policy :: Policy where
  "zero_policy = \<lparr>pol_API = [], pol_Name = [], pol_Description = [], pol_Principal = [], pol_Action = [], pol_Condition = [],
     pol_Result = []\<rparr>"

definition createPolicyHandler ::
  "compiler \<Rightarrow> 's Store \<Rightarrow> (perr \<Rightarrow> string) \<Rightarrow> Policy decoded \<Rightarrow> ('s, 'u) Service \<Rightarrow> policy_payload http_response \<times> ('s, 'u) Service" where
  "createPolicyHandler compile ops txt body sv =
     (case decodeJSONBody body zero_policy of
        Inl e \<Rightarrow> (writePolicyError txt e, sv)
      | Inr p \<Rightarrow>
          (case Service_Create compile ops p sv of
             (Some e, sv') \<Rightarrow> (writePolicyError txt (ServiceError e), sv')
           | (None, sv') \<Rightarrow>
               (writeJSONStatus 201 (PoliciesPath @ ''/'' @ PathEscape (pol_API p) @ ''/'' @ PathEscape (pol_Name p)) (Value (OnePolicy p)), sv')))"

definition replacePolicyHandler ::
  "compiler \<Rightarrow> 's Store \<Rightarrow> (perr \<Rightarrow> string) \<Rightarrow> string \<Rightarrow> string \<Rightarrow> Policy decoded \<Rightarrow> ('s, 'u) Service
     \<Rightarrow> policy_payload http_response \<times> ('s, 'u) Service" where
  "replacePolicyHandler compile ops txt api name body sv =
     (case decodeJSONBody body zero_policy of
        Inl e \<Rightarrow> (writePolicyError txt e, sv)
      | Inr p \<Rightarrow>
          (case Service_Replace compile ops api name p sv of
             (Some e, sv') \<Rightarrow> (writePolicyError txt (ServiceError e), sv')
           | (None, sv') \<Rightarrow> (writeJSON (OnePolicy p), sv')))"

definition deletePolicyHandler ::
  "'s Store \<Rightarrow> (perr \<Rightarrow> string) \<Rightarrow> string \<Rightarrow> string \<Rightarrow> ('s, 'u) Service \<Rightarrow> policy_payload http_response \<times> ('s, 'u) Service" where
  "deletePolicyHandler ops txt api name sv =
     (case Service_Delete ops api name sv of
        (Some e, sv') \<Rightarrow> (writePolicyError txt (ServiceError e), sv')
      | (None, sv') \<Rightarrow> (writeHeader 204, sv'))"

definition dryRunPolicyHandler ::
  "compiler \<Rightarrow> (perr \<Rightarrow> string) \<Rightarrow> Policy decoded \<Rightarrow> ('s, 'u) Service \<Rightarrow> policy_payload http_response" where
  "dryRunPolicyHandler compile txt body sv =
     (case decodeJSONBody body zero_policy of
        Inl e \<Rightarrow> writePolicyError txt e
      | Inr p \<Rightarrow>
          (case Validate compile p (sv_rt sv) of
             Some e \<Rightarrow> writeJSON (DryRun \<lparr>dn_OK = False, dn_Error = txt e\<rparr>)
           | None \<Rightarrow> writeJSON (DryRun \<lparr>dn_OK = True, dn_Error = []\<rparr>)))"

text \<open>The encoder yields the text of one document per policy; closing it may fail.\<close>

fun encode_all :: "(Policy \<Rightarrow> string option) \<Rightarrow> Policy list \<Rightarrow> string option" where
  "encode_all enc [] = Some []"
| "encode_all enc (p # ps) =
     (case enc p of None \<Rightarrow> None | Some t \<Rightarrow> (case encode_all enc ps of None \<Rightarrow> None | Some ts \<Rightarrow> Some (t @ ts)))"

definition exportPoliciesHandler ::
  "(Policy \<Rightarrow> string option) \<Rightarrow> bool \<Rightarrow> HTTPRequest \<Rightarrow> ('s, 'u) Service \<Rightarrow> policy_payload http_response" where
  "exportPoliciesHandler enc closes r sv =
     (let all = filter_by_api (query_all r ''api'') (Service_List sv)
      in if all = [] then writeHeader 200
         else (case encode_all enc all of
                 None \<Rightarrow> writeJSONError ''encode error'' 500
               | Some text \<Rightarrow>
                   (if \<not> closes then writeJSONError ''encode error'' 500
                    else \<lparr>hr_Status = 200, hr_Location = [], hr_Cookies = [], hr_Body = Value (YAML text)\<rparr>)))"

fun decodePoliciesYAML :: "(string + Policy) list \<Rightarrow> string + Policy list" where
  "decodePoliciesYAML [] = Inr []"
| "decodePoliciesYAML (Inl e # ds) = Inl e"
| "decodePoliciesYAML (Inr p # ds) =
     (case decodePoliciesYAML ds of
        Inl e \<Rightarrow> Inl e
      | Inr ps \<Rightarrow> if pol_API p = [] \<and> pol_Name p = [] then Inr ps else Inr (p # ps))"

text \<open>The body is read whole under the cap before the YAML decoder, an argument, runs on it.\<close>

definition importPoliciesHandler ::
  "compiler \<Rightarrow> 's Store \<Rightarrow> (perr \<Rightarrow> string) \<Rightarrow> (string \<Rightarrow> (string + Policy) list) \<Rightarrow> string decoded \<Rightarrow> HTTPRequest \<Rightarrow> ('s, 'u) Service
     \<Rightarrow> policy_payload http_response \<times> ('s, 'u) Service" where
  "importPoliciesHandler compile ops txt docs body r sv =
     (case body of
        DTooLarge \<Rightarrow> (writeJSONError ''body too large'' 413, sv)
      | DBad m \<Rightarrow> (writeJSONError (''read body: '' @ m) 400, sv)
      | _ \<Rightarrow>
          (let raw = (case body of DValue v \<Rightarrow> v | _ \<Rightarrow> [])
           in case decodePoliciesYAML (docs raw) of
                Inl e \<Rightarrow> (writeJSONError (''invalid YAML: '' @ e) 400, sv)
              | Inr parsed \<Rightarrow>
                  (if parsed = [] then (writeJSONError ''no policies found in YAML'' 400, sv)
                   else (case Service_Import compile ops parsed (query_get r ''dry_run'' = ''true'') sv of
                           (result, e, sv') \<Rightarrow>
                             (let resp = Imported \<lparr>im_Created = ir_Created result, im_Overwritten = ir_Overwritten result,
                                                   im_Errors = map (\<lambda>(l, x). l @ '': '' @ txt x) (ir_Errors result)\<rparr>
                              in case e of
                                   Some er \<Rightarrow>
                                     (if is_err ErrInvalid er then (writeJSONStatus 400 [] (Value resp), sv')
                                      else (writePolicyError txt (ServiceError er), sv'))
                                 | None \<Rightarrow> (writeJSON resp, sv'))))))"

text \<open>The routes of \<open>MountPolicies\<close>, with the YAML decoder of the import and the encoder of the export.\<close>

datatype policy_request =
    GetCapabilities
  | ListPolicyRoute
  | GetPolicy string string
  | CreatePolicy "Policy decoded"
  | PutPolicy string string "Policy decoded"
  | DeletePolicy string string
  | DryRunPolicy "Policy decoded"
  | ExportPolicies
  | ImportPolicies "string decoded"

fun MountPolicies ::
  "compiler \<Rightarrow> 's Store \<Rightarrow> (perr \<Rightarrow> string) \<Rightarrow> (string \<Rightarrow> (string + Policy) list) \<Rightarrow> (Policy \<Rightarrow> string option) \<times> bool \<Rightarrow> HTTPRequest \<Rightarrow> policy_request \<Rightarrow> ('s, 'u) Service
     \<Rightarrow> policy_payload http_response \<times> ('s, 'u) Service" where
  "MountPolicies compile ops txt docs enc r GetCapabilities sv = (capabilitiesHandler sv, sv)"
| "MountPolicies compile ops txt docs enc r ListPolicyRoute sv = (listPoliciesHandler r sv, sv)"
| "MountPolicies compile ops txt docs enc r (GetPolicy api n) sv = (getPolicyHandler txt api n sv, sv)"
| "MountPolicies compile ops txt docs enc r (CreatePolicy b) sv = createPolicyHandler compile ops txt b sv"
| "MountPolicies compile ops txt docs enc r (PutPolicy api n b) sv = replacePolicyHandler compile ops txt api n b sv"
| "MountPolicies compile ops txt docs enc r (DeletePolicy api n) sv = deletePolicyHandler ops txt api n sv"
| "MountPolicies compile ops txt docs enc r (DryRunPolicy b) sv = (dryRunPolicyHandler compile txt b sv, sv)"
| "MountPolicies compile ops txt docs enc r ExportPolicies sv = (exportPoliciesHandler (fst enc) (snd enc) r sv, sv)"
| "MountPolicies compile ops txt docs enc r (ImportPolicies b) sv = importPoliciesHandler compile ops txt docs b r sv"

subsection \<open>Proposals\<close>

definition MaxProposalBodyBytes :: nat where "MaxProposalBodyBytes = 2 ^ 16"
definition ProposalsPath :: string where "ProposalsPath = ''/_api/proposals''"

datatype proposal_payload = ProposalList "Proposal list" | OneProposal Proposal

text \<open>\<^verbatim>\<open>errors.Is\<close> for the sentinels of the two packages.\<close>

fun prop_is :: "prop_err \<Rightarrow> prop_err \<Rightarrow> bool" where
  "prop_is target (PErrStore e) = (PErrStore e = target \<or> prop_is target e)"
| "prop_is target e = (e = target)"

fun prop_is_policy :: "perr \<Rightarrow> prop_err \<Rightarrow> bool" where
  "prop_is_policy target (PErrStore e) = prop_is_policy target e"
| "prop_is_policy target (PErrApply e) = is_err target e"
| "prop_is_policy target e = False"

definition proposal_errors :: "prop_err errMap list" where
  "proposal_errors =
     [\<lparr>em_is = prop_is PErrInvalid, em_status = 400, em_msg = []\<rparr>,
      \<lparr>em_is = prop_is_policy ErrInvalid, em_status = 400, em_msg = []\<rparr>,
      \<lparr>em_is = prop_is_policy ErrAPIPath, em_status = 400, em_msg = []\<rparr>,
      \<lparr>em_is = prop_is PErrNotFound, em_status = 404, em_msg = ''not found''\<rparr>,
      \<lparr>em_is = prop_is PErrBadTransition, em_status = 409, em_msg = []\<rparr>,
      \<lparr>em_is = prop_is PErrPolicyConflict, em_status = 409, em_msg = []\<rparr>,
      \<lparr>em_is = prop_is_policy ErrReadOnly, em_status = 403, em_msg = []\<rparr>]"

definition writeProposalError :: "(prop_err \<Rightarrow> string) \<Rightarrow> prop_err handler_error \<Rightarrow> proposal_payload http_response" where
  "writeProposalError txt e = writeMappedError txt e proposal_errors"

definition callerCanSeeProposal :: "Caller \<Rightarrow> Proposal \<Rightarrow> bool" where
  "callerCanSeeProposal c p \<longleftrightarrow> IsAdmin c \<or> ca_Subject c \<noteq> [] \<and> pp_Author p = ca_Subject c"

definition filterProposalsBySubject :: "Proposal list \<Rightarrow> string \<Rightarrow> Proposal list" where
  "filterProposalsBySubject ps subject = (if subject = [] then [] else filter (\<lambda>p. pp_Author p = subject) ps)"

definition ensureCallerCanModify :: "'q PropStore \<Rightarrow> Caller \<Rightarrow> string \<Rightarrow> ('q, 'v) PropService \<Rightarrow> prop_err option" where
  "ensureCallerCanModify P caller pid s =
     (if IsAdmin caller then None
      else (case Prop_Get P pid s of
              Inl e \<Rightarrow> Some PErrNotFound
            | Inr cur \<Rightarrow> if callerCanSeeProposal caller cur then None else Some PErrNotFound))"

definition listProposalsHandler ::
  "'q PropStore \<Rightarrow> (prop_err \<Rightarrow> string) \<Rightarrow> Caller \<Rightarrow> HTTPRequest \<Rightarrow> ('q, 'v) PropService \<Rightarrow> proposal_payload http_response" where
  "listProposalsHandler P txt caller r s =
     (case Prop_List P (ListOpts.make (query_get r ''status'') (query_get r ''api'')) s of
        Inl e \<Rightarrow> writeProposalError txt (ServiceError e)
      | Inr out \<Rightarrow>
          writeJSON (ProposalList (if IsAdmin caller then out else filterProposalsBySubject out (ca_Subject caller))))"

definition getProposalHandler ::
  "'q PropStore \<Rightarrow> (prop_err \<Rightarrow> string) \<Rightarrow> Caller \<Rightarrow> string \<Rightarrow> ('q, 'v) PropService \<Rightarrow> proposal_payload http_response" where
  "getProposalHandler P txt caller pid s =
     (case Prop_Get P pid s of
        Inl e \<Rightarrow> writeProposalError txt (ServiceError e)
      | Inr p \<Rightarrow>
          (if \<not> callerCanSeeProposal caller p then writeProposalError txt (ServiceError PErrNotFound)
           else writeJSON (OneProposal p)))"

definition zero_create :: CreateInput where
  "zero_create =
     \<lparr>ci_Kind = [], ci_Policy = zero_policy, ci_Origin = \<lparr>og_Kind = [], og_Agent = [], og_RequestID = []\<rparr>, ci_Author = [], ci_Rationale = []\<rparr>"

definition createProposalHandler ::
  "'q PropStore \<Rightarrow> 'v PolicyValidator \<Rightarrow> (prop_err \<Rightarrow> string) \<Rightarrow> string \<Rightarrow> int \<Rightarrow> Caller \<Rightarrow> CreateInput decoded \<Rightarrow> ('q, 'v) PropService
     \<Rightarrow> proposal_payload http_response \<times> ('q, 'v) PropService" where
  "createProposalHandler P V txt pid now caller body s =
     (case decodeJSONBody body zero_create of
        Inl e \<Rightarrow> (writeProposalError txt e, s)
      | Inr ci0 \<Rightarrow>
          (let ci = (if \<not> IsAdmin caller then ci0\<lparr>ci_Author := ca_Subject caller\<rparr> else ci0)
           in case Prop_Create P V pid now ci s of
                (Inl e, s') \<Rightarrow> (writeProposalError txt (ServiceError e), s')
              | (Inr p, s') \<Rightarrow> (writeJSONStatus 201 (ProposalsPath @ ''/'' @ pp_ID p) (Value (OneProposal p)), s')))"

definition updateProposalHandler ::
  "'q PropStore \<Rightarrow> 'v PolicyValidator \<Rightarrow> (prop_err \<Rightarrow> string) \<Rightarrow> string \<Rightarrow> int \<Rightarrow> Caller \<Rightarrow> UpdateInput decoded \<Rightarrow> ('q, 'v) PropService
     \<Rightarrow> proposal_payload http_response \<times> ('q, 'v) PropService" where
  "updateProposalHandler P V txt pid now caller body s =
     (case decodeJSONBody body \<lparr>ui_Policy = None, ui_Rationale = None\<rparr> of
        Inl e \<Rightarrow> (writeProposalError txt e, s)
      | Inr ui \<Rightarrow>
          (case ensureCallerCanModify P caller pid s of
             Some e \<Rightarrow> (writeProposalError txt (ServiceError e), s)
           | None \<Rightarrow>
               (case Prop_Update P V pid now ui s of
                  (Inl e, s') \<Rightarrow> (writeProposalError txt (ServiceError e), s')
                | (Inr p, s') \<Rightarrow> (writeJSON (OneProposal p), s'))))"

definition deleteProposalHandler ::
  "'q PropStore \<Rightarrow> (prop_err \<Rightarrow> string) \<Rightarrow> string \<Rightarrow> Caller \<Rightarrow> ('q, 'v) PropService
     \<Rightarrow> proposal_payload http_response \<times> ('q, 'v) PropService" where
  "deleteProposalHandler P txt pid caller s =
     (case ensureCallerCanModify P caller pid s of
        Some e \<Rightarrow> (writeProposalError txt (ServiceError e), s)
      | None \<Rightarrow>
          (case Prop_Delete P pid s of
             (Some e, s') \<Rightarrow> (writeProposalError txt (ServiceError e), s')
           | (None, s') \<Rightarrow> (writeHeader 204, s')))"

record approveBody =
  ab_By :: string
  ab_Overwrite :: bool

record rejectBody =
  rb_By :: string
  rb_Reason :: string

definition approveProposalHandler ::
  "'q PropStore \<Rightarrow> 'v PolicyValidator \<Rightarrow> (prop_err \<Rightarrow> string) \<Rightarrow> string \<Rightarrow> int \<Rightarrow> Caller \<Rightarrow> approveBody decoded \<Rightarrow> ('q, 'v) PropService
     \<Rightarrow> proposal_payload http_response \<times> ('q, 'v) PropService" where
  "approveProposalHandler P V txt pid now caller body s =
     (case decodeJSONBody body \<lparr>ab_By = [], ab_Overwrite = False\<rparr> of
        Inl e \<Rightarrow> (writeProposalError txt e, s)
      | Inr b \<Rightarrow>
          (let by' = (if ab_By b = [] then ca_Subject caller else ab_By b)
           in case Prop_Approve P V pid now by' (ab_Overwrite b) s of
                (Inl e, s') \<Rightarrow> (writeProposalError txt (ServiceError e), s')
              | (Inr p, s') \<Rightarrow> (writeJSON (OneProposal p), s')))"

definition rejectProposalHandler ::
  "'q PropStore \<Rightarrow> (prop_err \<Rightarrow> string) \<Rightarrow> string \<Rightarrow> int \<Rightarrow> Caller \<Rightarrow> rejectBody decoded \<Rightarrow> ('q, 'v) PropService
     \<Rightarrow> proposal_payload http_response \<times> ('q, 'v) PropService" where
  "rejectProposalHandler P txt pid now caller body s =
     (case decodeJSONBody body \<lparr>rb_By = [], rb_Reason = []\<rparr> of
        Inl e \<Rightarrow> (writeProposalError txt e, s)
      | Inr b \<Rightarrow>
          (let by' = (if rb_By b = [] then ca_Subject caller else rb_By b)
           in case Prop_Reject P pid now by' (rb_Reason b) s of
                (Inl e, s') \<Rightarrow> (writeProposalError txt (ServiceError e), s')
              | (Inr p, s') \<Rightarrow> (writeJSON (OneProposal p), s')))"

text \<open>The routes of \<open>MountProposals\<close>; the id of a created proposal and the clock come from outside.\<close>

datatype proposal_request =
    ListProposals
  | GetProposal string
  | CreateProposal "CreateInput decoded"
  | UpdateProposal string "UpdateInput decoded"
  | DeleteProposal string
  | ApproveProposal string "approveBody decoded"
  | RejectProposal string "rejectBody decoded"

fun MountProposals ::
  "'q PropStore \<Rightarrow> 'v PolicyValidator \<Rightarrow> (prop_err \<Rightarrow> string) \<Rightarrow> string \<Rightarrow> int \<Rightarrow> Caller \<Rightarrow> HTTPRequest \<Rightarrow> proposal_request
     \<Rightarrow> ('q, 'v) PropService \<Rightarrow> proposal_payload http_response \<times> ('q, 'v) PropService" where
  "MountProposals P V txt fresh now caller r ListProposals s = (listProposalsHandler P txt caller r s, s)"
| "MountProposals P V txt fresh now caller r (GetProposal i) s = (getProposalHandler P txt caller i s, s)"
| "MountProposals P V txt fresh now caller r (CreateProposal b) s = createProposalHandler P V txt fresh now caller b s"
| "MountProposals P V txt fresh now caller r (UpdateProposal i b) s = updateProposalHandler P V txt i now caller b s"
| "MountProposals P V txt fresh now caller r (DeleteProposal i) s = deleteProposalHandler P txt i caller s"
| "MountProposals P V txt fresh now caller r (ApproveProposal i b) s = approveProposalHandler P V txt i now caller b s"
| "MountProposals P V txt fresh now caller r (RejectProposal i b) s = rejectProposalHandler P txt i now caller b s"

subsection \<open>Specification\<close>

text \<open>
  The contract of the policy resource: a map from API and name to policies, the status of the response
  and what it does to the map.  An import, which may stop midway, is left to the service's own
  properties.
\<close>

fun policy_contract ::
  "policy_request \<Rightarrow> policy_payload http_response \<Rightarrow> (string \<times> string \<rightharpoonup> Policy) \<Rightarrow> (string \<times> string \<rightharpoonup> Policy) \<Rightarrow> bool" where
  "policy_contract (GetPolicy api n) resp m m' \<longleftrightarrow> m' = m \<and>
     (case m (api, n) of
        Some p \<Rightarrow> hr_Status resp = 200 \<and> hr_Body resp = Value (OnePolicy p) | None \<Rightarrow> hr_Status resp = 404)"
| "policy_contract (CreatePolicy b) resp m m' \<longleftrightarrow>
     hr_Status resp \<ge> 400 \<and> m' = m
     \<or> (\<exists>p. hr_Status resp = 201 \<and> hr_Body resp = Value (OnePolicy p) \<and> m (pol_key p) = None \<and> m' = m(pol_key p \<mapsto> p)
          \<and> b \<in> {DValue p, DEnd})"
| "policy_contract (PutPolicy api n b) resp m m' \<longleftrightarrow>
     hr_Status resp \<ge> 400 \<and> m' = m
     \<or> (\<exists>p. hr_Status resp = 200 \<and> hr_Body resp = Value (OnePolicy p) \<and> pol_key p = (api, n) \<and> m' = m((api, n) \<mapsto> p)
          \<and> b \<in> {DValue p, DEnd})"
| "policy_contract (DeletePolicy api n) resp m m' \<longleftrightarrow>
     hr_Status resp \<ge> 400 \<and> m' = m \<or> hr_Status resp = 204 \<and> m (api, n) \<noteq> None \<and> m' = m((api, n) := None)"
| "policy_contract (ImportPolicies b) resp m m' \<longleftrightarrow> True"
| "policy_contract req resp m m' \<longleftrightarrow> m' = m"

text \<open>The proposals a response shows.\<close>

definition shown :: "proposal_payload http_response \<Rightarrow> Proposal set" where
  "shown resp =
     (case hr_Body resp of Value (ProposalList ps) \<Rightarrow> set ps | Value (OneProposal p) \<Rightarrow> {p} | _ \<Rightarrow> {})"

definition is_review :: "proposal_request \<Rightarrow> bool" where
  "is_review req = (case req of ApproveProposal i b \<Rightarrow> True | RejectProposal i b \<Rightarrow> True | _ \<Rightarrow> False)"

section \<open>Responses\<close>

lemma policy_error_status: "400 \<le> hr_Status (writePolicyError txt e)"
  by (auto simp: writePolicyError_def writeMappedError_def writeJSONError_def policy_errors_def
      split: handler_error.split option.split)

lemma policy_error_missing: "hr_Status (writePolicyError txt (ServiceError ErrNotFound)) = 404"
  by (simp add: writePolicyError_def writeMappedError_def writeJSONError_def policy_errors_def)

lemma proposal_error_shows: "shown (writeProposalError txt e) = {}"
  by (auto simp: writeProposalError_def writeMappedError_def writeJSONError_def shown_def
      split: handler_error.split option.split)

lemma shown_simps [simp]:
  "shown (writeJSON (ProposalList ps)) = set ps" "shown (writeJSON (OneProposal p)) = {p}" "shown (writeHeader st) = {}"
  by (simp_all add: shown_def writeJSON_def writeJSONStatus_def writeHeader_def)

lemma shown_created: "shown (writeJSONStatus st loc (Value (OneProposal p))) \<subseteq> {p}"
  by (simp add: shown_def writeJSONStatus_def writeJSONError_def)

lemma create_location_ok:
  "writeJSONStatus st (PoliciesPath @ ''/'' @ PathEscape a @ ''/'' @ PathEscape b) v =
     \<lparr>hr_Status = st, hr_Location = PoliciesPath @ ''/'' @ PathEscape a @ ''/'' @ PathEscape b, hr_Cookies = [], hr_Body = v\<rparr>"
  using PathEscape_no_break [of a] PathEscape_no_break [of b]
  by (auto simp: writeJSONStatus_def PoliciesPath_def)

section \<open>The policy resource\<close>

lemma decodeJSONBody_Inr: "decodeJSONBody d z = Inr v \<Longrightarrow> d \<in> {DValue v, DEnd}"
  by (auto simp: decodeJSONBody_def split: decoded.splits)

context policy_store
begin

lemma policies_contract:
  assumes c: "coherent compile ops inv sv" and m: "MountPolicies compile ops txt docs enc r req sv = (resp, sv')"
  shows "policy_contract req resp (rt_lookup (sv_rt sv)) (rt_lookup (sv_rt sv'))"
proof (cases req)
  case (GetPolicy api n)
  then show ?thesis using m
    by (auto simp: getPolicyHandler_def Service_Get_def Service_find_lookup policy_error_missing writeJSON_def writeJSONStatus_def
        split: option.splits)
next
  case (CreatePolicy b)
  show ?thesis
  proof (cases "decodeJSONBody b zero_policy :: perr handler_error + Policy")
    case (Inr p)
    obtain e sv1 where r: "Service_Create compile ops p sv = (e, sv1)" by fastforce
    note C = create_coherent [OF c r]
    show ?thesis using m CreatePolicy Inr r C(2,3) decodeJSONBody_Inr [OF Inr] policy_error_status
      by (cases e) (auto simp: createPolicyHandler_def create_location_ok [simplified])
  qed (use m CreatePolicy policy_error_status in \<open>auto simp: createPolicyHandler_def\<close>)
next
  case (PutPolicy api n b)
  show ?thesis
  proof (cases "decodeJSONBody b zero_policy :: perr handler_error + Policy")
    case (Inr p)
    obtain e sv1 where r: "Service_Replace compile ops api n p sv = (e, sv1)" by fastforce
    note C = replace_coherent [OF c r]
    show ?thesis using m PutPolicy Inr r C(2,3) decodeJSONBody_Inr [OF Inr] policy_error_status
      by (cases e) (auto simp: replacePolicyHandler_def writeJSON_def writeJSONStatus_def)
  qed (use m PutPolicy policy_error_status in \<open>auto simp: replacePolicyHandler_def\<close>)
next
  case (DeletePolicy api n)
  obtain e sv1 where r: "Service_Delete ops api n sv = (e, sv1)" by fastforce
  note C = delete_coherent [OF c r]
  show ?thesis using m DeletePolicy r C(2,3) policy_error_status
    by (cases e) (auto simp: deletePolicyHandler_def writeHeader_def)
qed (use m in auto)

end



section \<open>Proposals of others\<close>

context proposal_store
begin

text \<open>What a caller without the admin role can do to a stored proposal.\<close>

lemma ensure_modify:
  assumes "ensureCallerCanModify P c i s = None" "\<not> IsAdmin c"
  obtains cur where "ps_Get P i (sp_store s) = Inr cur" "pp_Author cur = ca_Subject c"
  using assms by (auto simp: ensureCallerCanModify_def callerCanSeeProposal_def Prop_Get_def split: sum.splits if_splits)

lemma update_author:
  assumes inv: "qinv (sp_store s)" and g: "ps_Get P i (sp_store s) = Inr cur" and u: "Prop_Update P V i now ui s = (res, s')"
  obtains p where "pp_Author p = pp_Author cur" "res = Inr p \<or> (\<exists>e. res = Inl e)"
    "\<forall>k. ps_Get P k (sp_store s') = ps_Get P k (sp_store s) \<or> k = i \<and> ps_Get P k (sp_store s') = Inr p"
proof -
  let ?cur1 = "case ui_Policy ui of None \<Rightarrow> cur | Some p \<Rightarrow> cur\<lparr>pp_Policy := p\<rparr>"
  let ?cur3 = "(case ui_Rationale ui of None \<Rightarrow> ?cur1 | Some r \<Rightarrow> ?cur1\<lparr>pp_Rationale := r\<rparr>)\<lparr>pp_UpdatedAt := now\<rparr>"
  have f: "pp_ID ?cur3 = pp_ID cur" "pp_Author ?cur3 = pp_Author cur" by (simp_all split: option.split)
  have pid: "pp_ID cur = i" using inv g by (rule p_get_id)
  have "(fst (Prop_Update P V i now ui s) = Inr ?cur3 \<or> (\<exists>e. fst (Prop_Update P V i now ui s) = Inl e))
      \<and> (snd (Prop_Update P V i now ui s) = s \<or> sp_store (snd (Prop_Update P V i now ui s)) = snd (ps_Put P ?cur3 (sp_store s)))"
    unfolding Prop_Update_def g by (simp add: Let_def split: prod.split option.split)
  then have "(res = Inr ?cur3 \<or> (\<exists>e. res = Inl e)) \<and> (s' = s \<or> sp_store s' = snd (ps_Put P ?cur3 (sp_store s)))"
    unfolding u fst_conv snd_conv .
  then obtain p where p: "pp_ID p = i" "pp_Author p = pp_Author cur" "res = Inr p \<or> (\<exists>e. res = Inl e)"
    and s': "s' = s \<or> sp_store s' = snd (ps_Put P p (sp_store s))" using f pid by metis
  from s' have "ps_Get P j (sp_store s') = ps_Get P j (sp_store s) \<or> j = i \<and> ps_Get P j (sp_store s') = Inr p" for j
    using put_view(2) [OF inv, of j p] p(1) by (auto split: if_splits)
  with p show thesis by (intro that [of p]) auto
qed

lemma one_write_isolated:
  assumes "\<And>k. ps_Get P k t' = ps_Get P k t \<or> k = i \<and> ps_Get P k t' = Inr p" "pp_Author p = sub"
    and "ps_Get P i t = Inl PErrNotFound \<or> (\<exists>cur. ps_Get P i t = Inr cur \<and> pp_Author cur = sub)"
  shows "(\<forall>k q. ps_Get P k t = Inr q \<longrightarrow> pp_Author q \<noteq> sub \<longrightarrow> ps_Get P k t' = Inr q)
    \<and> (\<forall>k q. ps_Get P k t' = Inr q \<longrightarrow> ps_Get P k t = Inr q \<or> pp_Author q = sub)"
proof (intro conjI allI impI)
  fix k q assume "ps_Get P k t = Inr q" "pp_Author q \<noteq> sub"
  then show "ps_Get P k t' = Inr q" using assms(1) [of k] assms(3) by auto
next
  fix k q assume "ps_Get P k t' = Inr q"
  then show "ps_Get P k t = Inr q \<or> pp_Author q = sub" using assms(1) [of k] assms(2) by auto
qed

lemma create_isolated:
  assumes inv: "qinv (sp_store s)" and c: "\<not> IsAdmin c"
    and fresh: "ps_Get P fr (sp_store s) = Inl PErrNotFound"
    and m: "MountProposals P V txt fr now c r (CreateProposal b) s = (resp, s')"
  shows "(\<forall>p \<in> shown resp. pp_Author p = ca_Subject c)
    \<and> (\<forall>i p. ps_Get P i (sp_store s) = Inr p \<longrightarrow> pp_Author p \<noteq> ca_Subject c \<longrightarrow> ps_Get P i (sp_store s') = Inr p)
    \<and> (\<forall>i p. ps_Get P i (sp_store s') = Inr p \<longrightarrow> ps_Get P i (sp_store s) = Inr p \<or> pp_Author p = ca_Subject c)"
proof (cases "decodeJSONBody b zero_create :: prop_err handler_error + CreateInput")
  case (Inr ci0)
  let ?ci = "ci0\<lparr>ci_Author := ca_Subject c\<rparr>"
  obtain res s1 where cr: "Prop_Create P V fr now ?ci s = (res, s1)" by fastforce
  let ?p = "\<lparr>pp_ID = fr, pp_Kind = Kind_Resolve (ci_Kind ci0), pp_Policy = ci_Policy ci0, pp_Status = StatusProposed,
      pp_Origin = ci_Origin ci0, pp_Author = ca_Subject c, pp_Rationale = ci_Rationale ci0, pp_CreatedAt = now,
      pp_UpdatedAt = now, pp_DecidedAt = None, pp_DecidedBy = [], pp_RejectionReason = []\<rparr>"
  have "(res = Inr ?p \<or> (\<exists>e. res = Inl e)) \<and> (s1 = s \<or> sp_store s1 = snd (ps_Put P ?p (sp_store s)))"
    using cr by (auto simp: Prop_Create_def Let_def split: if_splits prod.splits option.splits)
  then obtain p where p: "pp_ID p = fr" "pp_Author p = ca_Subject c" "res = Inr p \<or> (\<exists>e. res = Inl e)"
    and s1: "s1 = s \<or> sp_store s1 = snd (ps_Put P p (sp_store s))" by (metis Proposal.select_convs(1,6))
  have w: "ps_Get P k (sp_store s1) = ps_Get P k (sp_store s) \<or> k = fr \<and> ps_Get P k (sp_store s1) = Inr p" for k
    using s1 put_view(2) [OF inv, of k p] p(1) by (auto split: if_splits)
  have res: "s' = s1" "shown resp \<subseteq> {p. res = Inr p}"
    using m Inr cr c proposal_error_shows
    by (auto simp: createProposalHandler_def Let_def dest!: subsetD [OF shown_created] split: sum.splits if_splits)
  show ?thesis using one_write_isolated [OF w p(2) disjI1 [OF fresh]] res p by auto
qed (use m in \<open>auto simp: createProposalHandler_def proposal_error_shows\<close>)

lemma isolated:
  assumes inv: "qinv (sp_store s)" and c: "\<not> IsAdmin c" and rev: "\<not> is_review req"
    and fresh: "ps_Get P fr (sp_store s) = Inl PErrNotFound"
    and m: "MountProposals P V txt fr now c r req s = (resp, s')"
  shows "(\<forall>p \<in> shown resp. pp_Author p = ca_Subject c)
    \<and> (\<forall>i p. ps_Get P i (sp_store s) = Inr p \<longrightarrow> pp_Author p \<noteq> ca_Subject c \<longrightarrow> ps_Get P i (sp_store s') = Inr p)
    \<and> (\<forall>i p. ps_Get P i (sp_store s') = Inr p \<longrightarrow> ps_Get P i (sp_store s) = Inr p \<or> pp_Author p = ca_Subject c)"
proof (cases req)
  case ListProposals
  then show ?thesis using m c
    by (auto simp: listProposalsHandler_def proposal_error_shows filterProposalsBySubject_def
        split: sum.splits if_splits)
next
  case (GetProposal i)
  then show ?thesis using m c
    by (auto simp: getProposalHandler_def proposal_error_shows callerCanSeeProposal_def
        split: sum.splits if_splits)
next
  case (CreateProposal b)
  show ?thesis by (rule create_isolated [OF inv c fresh m [unfolded CreateProposal]])
next
  case (UpdateProposal i b)
  show ?thesis
  proof (cases "s' = s \<and> shown resp = {}")
    case False
    then obtain ui res where ok: "ensureCallerCanModify P c i s = None" and u: "Prop_Update P V i now ui s = (res, s')"
      and sh: "shown resp \<subseteq> {p. res = Inr p}"
      using m UpdateProposal proposal_error_shows
      by (fastforce simp: updateProposalHandler_def split: sum.splits option.splits prod.splits)
    obtain cur where cur: "ps_Get P i (sp_store s) = Inr cur" "pp_Author cur = ca_Subject c"
      using ensure_modify [OF ok c] by blast
    obtain p where p: "pp_Author p = pp_Author cur" "res = Inr p \<or> (\<exists>e. res = Inl e)"
      and w: "\<forall>k. ps_Get P k (sp_store s') = ps_Get P k (sp_store s) \<or> k = i \<and> ps_Get P k (sp_store s') = Inr p"
      by (rule update_author [OF inv cur(1) u])
    show ?thesis using one_write_isolated [OF w [rule_format] p(1)] cur p sh by auto
  qed simp
next
  case (DeleteProposal i)
  show ?thesis
  proof (cases "ensureCallerCanModify P c i s")
    case None
    obtain cur where cur: "ps_Get P i (sp_store s) = Inr cur" "pp_Author cur = ca_Subject c"
      using ensure_modify [OF None c] by blast
    have "sp_store s' = snd (ps_Delete P i (sp_store s))" "shown resp = {}"
      using m DeleteProposal None by (auto simp: deleteProposalHandler_def Prop_Delete_def proposal_error_shows split_beta
          split: option.splits prod.splits)
    with cur del_view(2) [OF inv] show ?thesis by auto
  qed (use m DeleteProposal in \<open>auto simp: deleteProposalHandler_def proposal_error_shows\<close>)
qed (use rev in \<open>simp_all add: is_review_def\<close>)

end

text \<open>
  C23: callers without the admin role keep to their own proposals.  Whatever such a caller sends to the
  routes of the proposal resource other than approve and reject (which the internal policy reserves to
  reviewers), every proposal in the response is its own, every stored proposal of somebody else is
  still there unchanged, and whatever is new or changed in the store carries the caller's subject as
  its author, never the one a body claims.
\<close>

theorem proposals_isolated:
  assumes "prop_inv marshal unmarshal (sp_store s)" "\<not> IsAdmin caller" "\<not> is_review req"
    and "Prop_Get (propSqlite marshal unmarshal io) fresh s = Inl PErrNotFound"
    and "MountProposals (propSqlite marshal unmarshal io) V txt fresh now caller r req s = (resp, s')"
  shows "(\<forall>p \<in> shown resp. pp_Author p = ca_Subject caller)
    \<and> (\<forall>i p. Prop_Get (propSqlite marshal unmarshal io) i s = Inr p \<longrightarrow> pp_Author p \<noteq> ca_Subject caller \<longrightarrow>
         Prop_Get (propSqlite marshal unmarshal io) i s' = Inr p)
    \<and> (\<forall>i p. Prop_Get (propSqlite marshal unmarshal io) i s' = Inr p \<longrightarrow>
         Prop_Get (propSqlite marshal unmarshal io) i s = Inr p \<or> pp_Author p = ca_Subject caller)"
  using prop_sqlite.isolated [OF assms(1-3) assms(4) [unfolded Prop_Get_def] assms(5)] unfolding Prop_Get_def .

theorem proposals_isolated_witness:
  "let P = propSqlite ex_pmarshal ex_punmarshal None; V = policyValidator ex_compiler ex_ops;
       c = \<lparr>ca_Subject = ''eve'', ca_Role = RoleUser\<rparr>; s0 = \<lparr>sp_store = [], sp_val = ex_svc\<rparr>;
       R = MountProposals P V (\<lambda>_. ''e'') ''p1'' 5 c ex_request (CreateProposal (DValue ex_ci)) s0
   in hr_Status (fst R) = 201 \<and> (\<forall>p \<in> shown (fst R). pp_Author p = ''eve'')"
proof -
  let ?P = "propSqlite ex_pmarshal ex_punmarshal None" and ?V = "policyValidator ex_compiler ex_ops"
  let ?s0 = "\<lparr>sp_store = [], sp_val = ex_svc\<rparr>" and ?c = "\<lparr>ca_Subject = ''eve'', ca_Role = RoleUser\<rparr>"
  let ?R = "MountProposals ?P ?V (\<lambda>_. ''e'') ''p1'' 5 ?c ex_request (CreateProposal (DValue ex_ci)) ?s0"
  have inv: "prop_inv ex_pmarshal ex_punmarshal (sp_store ?s0)" using ex_prop_json by (simp add: prop_inv_def)
  have user: "\<not> IsAdmin ?c" "\<not> is_review (CreateProposal (DValue ex_ci))" by (simp_all add: IsAdmin_def is_review_def)
  have fresh: "Prop_Get ?P ''p1'' ?s0 = Inl PErrNotFound" by (simp add: Prop_Get_def propSqlite_def pget_def)
  have "hr_Status (fst ?R) = 201" by code_simp
  moreover have "\<forall>p \<in> shown (fst ?R). pp_Author p = ca_Subject ?c"
    using proposals_isolated [OF inv user fresh prod.collapse [symmetric]] by blast
  ultimately show ?thesis by (simp add: Let_def)
qed

end
