(* ===== verification/AdminViews.thy ===== *)
theory AdminViews
  imports AdminApi TrafficSqlite Bundles
begin

text \<open>
  The read-only resources of the control plane: the traffic viewer (\<^verbatim>\<open>internal/server/admin/traffic.go\<close>) over
  either traffic store, the catalogue of APIs with the bundle READMEs (\<^verbatim>\<open>apis.go\<close>) and the certificate of the
  interception CA (\<^verbatim>\<open>ca.go\<close>).  The textual forms of cursors and timestamps and the reading of a file are
  arguments.
\<close>

section \<open>Definitions\<close>

definition quoted :: "string \<Rightarrow> string" where "quoted s = [CHR 0x22] @ s @ [CHR 0x22]"

subsection \<open>Reading traffic\<close>

datatype traffic_error = TErrBadCursor | TErrNotFound | TErrOther sql_err

text \<open>The reading half of \<^verbatim>\<open>traffic.Store\<close> in its current state, for the two implementations.\<close>

record TrafficReader =
  st_List :: "TrafficListOpts \<Rightarrow> traffic_error + (Summary list \<times> Cursor)"
  st_Get :: "EventID \<Rightarrow> traffic_error + Event"

definition memory_reader :: "memoryStore \<Rightarrow> TrafficReader" where
  "memory_reader s =
     \<lparr>st_List = (\<lambda>opts. case memory_List opts s of None \<Rightarrow> Inl TErrBadCursor | Some r \<Rightarrow> Inr r),
      st_Get = (\<lambda>i. case memory_Get i s of None \<Rightarrow> Inl TErrNotFound | Some ev \<Rightarrow> Inr ev)\<rparr>"

definition sqlite_reader :: "(string \<Rightarrow> Event option) \<Rightarrow> sqliteEvents \<Rightarrow> TrafficReader" where
  "sqlite_reader unmarshal s =
     \<lparr>st_List = (\<lambda>opts. case sqlite_ListEvents opts s of None \<Rightarrow> Inl TErrBadCursor | Some r \<Rightarrow> Inr r),
      st_Get = (\<lambda>i. case sqlite_Get unmarshal i s of
                      Inl e \<Rightarrow> Inl (if e = ENotFound then TErrNotFound else TErrOther e) | Inr ev \<Rightarrow> Inr ev)\<rparr>"

subsection \<open>The traffic viewer\<close>

text \<open>\<^verbatim>\<open>strconv.Atoi\<close>: an optional sign, then decimal digits, within the range of \<open>int64\<close>.\<close>

fun digits_value :: "int \<Rightarrow> string \<Rightarrow> int option" where
  "digits_value acc [] = Some acc"
| "digits_value acc (c # cs) =
     (if is_digit c then digits_value (10 * acc + (int (of_char c) - 48)) cs else None)"

definition Atoi :: "string \<Rightarrow> int option" where
  "Atoi s =
     (let neg = (case s of c # _ \<Rightarrow> c = CHR ''-'' | [] \<Rightarrow> False);
          body = (case s of c # cs \<Rightarrow> if c = CHR ''-'' \<or> c = CHR ''+'' then cs else s | [] \<Rightarrow> [])
      in if body = [] then None
         else (case digits_value 0 body of
                 None \<Rightarrow> None
               | Some n \<Rightarrow> (let v = (if neg then - n else n) in if - (2 ^ 63) \<le> v \<and> v < 2 ^ 63 then Some v else None)))"

record text_forms =
  tf_cursor :: "string \<Rightarrow> Cursor"
  tf_RFC3339 :: "string \<Rightarrow> int option"

definition parse_time :: "text_forms \<Rightarrow> string \<Rightarrow> string \<Rightarrow> string + int" where
  "parse_time F msg s =
     (if s = [] then Inr zeroTime else (case tf_RFC3339 F s of None \<Rightarrow> Inl msg | Some t \<Rightarrow> Inr t))"

definition parseListOpts :: "text_forms \<Rightarrow> HTTPRequest \<Rightarrow> string + TrafficListOpts" where
  "parseListOpts F r =
     (let apis = query_all r ''api'';
          one = (if length apis = 1 then hd apis else []);
          many = (if length apis \<ge> 2 then apis else [])
      in case (if query_get r ''limit'' = [] then Inr 0
               else (case Atoi (query_get r ''limit'') of None \<Rightarrow> Inl ''limit: not an integer'' | Some n \<Rightarrow> Inr n)) of
           Inl e \<Rightarrow> Inl e
         | Inr lim \<Rightarrow>
             (case parse_time F ''since: expected RFC3339 timestamp'' (query_get r ''since'') of
                Inl e \<Rightarrow> Inl e
              | Inr since \<Rightarrow>
                  (case parse_time F ''until: expected RFC3339 timestamp'' (query_get r ''until'') of
                     Inl e \<Rightarrow> Inl e
                   | Inr until \<Rightarrow>
                       Inr (TrafficListOpts.make one many (query_get r ''action'') (query_get r ''method'') (query_get r ''decision'')
                              (query_get r ''path_prefix'') since until None lim (tf_cursor F (query_get r ''cursor''))))))"

record listResponse =
  lr_Rows :: "Summary list"
  lr_NextCursor :: Cursor

datatype traffic_payload = TrafficRows listResponse | TrafficEvent Event

text \<open>\<open>None\<close> as the principal means that the caller sees every row.\<close>

type_synonym PrincipalExtractor = "HTTPRequest \<Rightarrow> string option"

definition AnonymousPrincipal :: PrincipalExtractor where
  "AnonymousPrincipal r = None"

definition traffic_listHandler :: "TrafficReader \<Rightarrow> (traffic_error \<Rightarrow> string) \<Rightarrow> text_forms \<Rightarrow> PrincipalExtractor \<Rightarrow> HTTPRequest \<Rightarrow> traffic_payload http_response" where
  "traffic_listHandler T txt F who r =
     (case parseListOpts F r of
        Inl e \<Rightarrow> writeJSONError e 400
      | Inr opts \<Rightarrow>
          (case st_List T (opts\<lparr>lo_Subject := who r\<rparr>) of
             Inl e \<Rightarrow> writeMappedError txt (ServiceError e) [\<lparr>em_is = (\<lambda>e. e = TErrBadCursor), em_status = 400, em_msg = ''bad cursor''\<rparr>]
           | Inr (rows, next) \<Rightarrow> writeJSON (TrafficRows \<lparr>lr_Rows = rows, lr_NextCursor = next\<rparr>)))"

definition traffic_getHandler :: "TrafficReader \<Rightarrow> (traffic_error \<Rightarrow> string) \<Rightarrow> PrincipalExtractor \<Rightarrow> EventID \<Rightarrow> HTTPRequest \<Rightarrow> traffic_payload http_response" where
  "traffic_getHandler T txt who i r =
     (case st_Get T i of
        Inl e \<Rightarrow> writeMappedError txt (ServiceError e) [\<lparr>em_is = (\<lambda>e. e = TErrNotFound), em_status = 404, em_msg = ''not found''\<rparr>]
      | Inr ev \<Rightarrow>
          (if (case who r of None \<Rightarrow> False | Some subj \<Rightarrow> ev_Subject ev \<noteq> subj) then writeJSONError ''not found'' 404
           else writeJSON (TrafficEvent ev)))"

subsection \<open>The catalogue of APIs\<close>

record ActionDescriptor =
  ad_Name :: string
  ad_Method :: string
  ad_Path :: string
  ad_Filter :: string
  ad_Binds :: "string list"

record OutputDescriptor =
  ot_Name :: string
  ot_Expr :: string

record MetaDescriptor =
  mt_Name :: string
  mt_Kind :: string
  mt_Input :: "string list"
  mt_Output :: "OutputDescriptor list"

record APIDescriptor =
  dp_Name :: string
  dp_BaseURL :: string
  dp_PathPrefixes :: "string list"
  dp_Actions :: "ActionDescriptor list"
  dp_Meta :: "MetaDescriptor list"
  dp_AccessDeniedStatus :: int
  dp_ReadmeURL :: string

record BundleData =
  bd_Readmes :: "string \<rightharpoonup> string"
  bd_APIBundle :: "string \<rightharpoonup> string"
  bd_Services :: "LoadedService list"

text \<open>The one placeholder of \<^verbatim>\<open>APIsReadmePath\<close>, replaced.\<close>

definition readmeURLFor :: "string \<Rightarrow> string" where
  "readmeURLFor bundle = ''/_api/apis/'' @ bundle @ ''/readme''"

definition describeAction :: "Action \<Rightarrow> ActionDescriptor" where
  "describeAction a =
     \<lparr>ad_Name = a_Name a, ad_Method = a_Method a, ad_Path = a_Path a, ad_Filter = a_Filter a, ad_Binds = AllBinds a\<rparr>"

definition describeMeta :: "Metadata \<Rightarrow> MetaDescriptor" where
  "describeMeta m =
     \<lparr>mt_Name = md_Name m, mt_Kind = md_Kind m, mt_Input = map if_Name (md_Input m),
      mt_Output = map (\<lambda>out. \<lparr>ot_Name = of_Name out, ot_Expr = of_Expr out\<rparr>) (md_Output m)\<rparr>"

definition describeAPI :: "API \<Rightarrow> BundleData \<Rightarrow> APIDescriptor" where
  "describeAPI api bd =
     \<lparr>dp_Name = api_Name api, dp_BaseURL = api_BaseURL api, dp_PathPrefixes = api_PathPrefixes api,
      dp_Actions = map describeAction (api_Actions api), dp_Meta = map describeMeta (api_Meta api),
      dp_AccessDeniedStatus = api_AccessDeniedStatus api,
      dp_ReadmeURL = (case bd_APIBundle bd (api_Name api) of
                        None \<Rightarrow> [] | Some bundle \<Rightarrow> if bd_Readmes bd bundle \<noteq> None then readmeURLFor bundle else [])\<rparr>"

datatype catalogue_payload = APIsList "APIDescriptor list" | Markdown string

definition listAPIsHandler :: "'u Runtime \<Rightarrow> BundleData \<Rightarrow> catalogue_payload http_response" where
  "listAPIsHandler rt bd = writeJSON (APIsList (map (\<lambda>s. describeAPI s bd) (APISpecs rt)))"

text \<open>\<^verbatim>\<open>http.NotFound\<close>, whose body is a fixed text.\<close>

definition readmeHandler :: "(string \<rightharpoonup> string) \<Rightarrow> string \<Rightarrow> catalogue_payload http_response" where
  "readmeHandler readmes bundle =
     (case readmes bundle of
        None \<Rightarrow> writeHeader 404
      | Some body \<Rightarrow> if body = [] then writeHeader 404 else writeJSON (Markdown body))"

subsection \<open>The certificate\<close>

datatype read_error = RNotExist | ROther

definition caHandler :: "(string \<Rightarrow> read_error + string) \<Rightarrow> string \<Rightarrow> string http_response" where
  "caHandler ReadFile caPath =
     (if caPath = [] then writeJSONError ''MITM disabled - no CA configured'' 404
      else (case ReadFile caPath of
              Inl e \<Rightarrow> (if e = RNotExist then writeJSONError ''CA cert not found'' 404 else writeJSONError ''server error'' 500)
            | Inr body \<Rightarrow> writeJSON body))"

section \<open>What the traffic viewer shows\<close>

text \<open>The contract of the reading half that access control rests on: a listing under a subject shows that subject only.\<close>

locale traffic_reader =
  fixes T :: TrafficReader
  assumes list_subject: "st_List T opts = Inr (rows, next) \<Longrightarrow> TrafficListOpts.lo_Subject opts = Some subj \<Longrightarrow> r \<in> set rows \<Longrightarrow> su_Subject r = subj"
begin

lemma list_scoped:
  assumes "who r = Some subj" "hr_Body (traffic_listHandler T txt F who r) = Value (TrafficRows l)" "x \<in> set (lr_Rows l)"
  shows "su_Subject x = subj"
proof -
  obtain opts rows nxt where "st_List T (opts\<lparr>lo_Subject := Some subj\<rparr>) = Inr (rows, nxt)" "lr_Rows l = rows"
    using assms(1,2)
    by (auto simp: traffic_listHandler_def writeMappedError_def writeJSON_def writeJSONStatus_def writeJSONError_def
        split: sum.splits option.splits if_splits)
  then show ?thesis using list_subject [of "opts\<lparr>lo_Subject := Some subj\<rparr>" rows nxt subj x] assms(3) by simp
qed

end

lemma match_opts_subject: "match_opts ev opts \<Longrightarrow> TrafficListOpts.lo_Subject opts = Some subj \<Longrightarrow> ev_Subject ev = subj"
  by (auto simp: match_opts_def split: if_splits)

lemma skip_to_subset: "set (skip_to ts i evs) \<subseteq> set evs"
  by (induction evs) auto

interpretation memory_reading: traffic_reader "memory_reader s" for s
proof
  fix opts rows nxt subj r
  assume l: "st_List (memory_reader s) opts = Inr (rows, nxt)" and s: "TrafficListOpts.lo_Subject opts = Some subj" and r: "r \<in> set rows"
  have "\<exists>ev. r = summary ev \<and> match_opts ev opts"
    using l r skip_to_subset
    by (auto simp: memory_reader_def memory_List_def Let_def newest_first_def dest!: in_set_takeD
        split: option.splits if_splits) (fastforce simp: newest_first_def)+
  then show "su_Subject r = subj" using match_opts_subject [OF _ s] by (auto simp: summary_def)
qed

interpretation sqlite_reading: traffic_reader "sqlite_reader unmarshal s" for unmarshal s
proof
  fix opts rows nxt subj r
  assume l: "st_List (sqlite_reader unmarshal s) opts = Inr (rows, nxt)" and s: "TrafficListOpts.lo_Subject opts = Some subj" and r: "r \<in> set rows"
  have "\<exists>row. r = scan_summary row \<and> where_clause opts row"
    using l r by (auto simp: sqlite_reader_def sqlite_ListEvents_def Let_def oldest_first_def dest!: in_set_takeD
        split: option.splits if_splits) blast+
  then show "su_Subject r = subj" using s by (auto simp: where_clause_def scan_summary_def)
qed

text \<open>
  A caller with a subject sees rows of that subject only, and an event of somebody else is answered exactly like an
  id that is not stored, whichever store is behind the viewer.
\<close>

theorem traffic_view_scoped:
  assumes "T \<in> {memory_reader m, sqlite_reader unmarshal q}" "who r = Some subj"
  shows "\<And>l x. hr_Body (traffic_listHandler T txt F who r) = Value (TrafficRows l) \<Longrightarrow> x \<in> set (lr_Rows l) \<Longrightarrow> su_Subject x = subj"
    and "\<And>i ev. hr_Body (traffic_getHandler T txt who i r) = Value (TrafficEvent ev) \<Longrightarrow> ev_Subject ev = subj"
    and "\<And>i j ev. st_Get T i = Inr ev \<Longrightarrow> ev_Subject ev \<noteq> subj \<Longrightarrow> st_Get T j = Inl TErrNotFound \<Longrightarrow>
           traffic_getHandler T txt who i r = traffic_getHandler T txt who j r"
proof -
  show "su_Subject x = subj" if "hr_Body (traffic_listHandler T txt F who r) = Value (TrafficRows l)" "x \<in> set (lr_Rows l)" for l x
    using assms that memory_reading.list_scoped sqlite_reading.list_scoped by auto
  show "ev_Subject ev = subj" if "hr_Body (traffic_getHandler T txt who i r) = Value (TrafficEvent ev)" for i ev
    using assms(2) that
    by (auto simp: traffic_getHandler_def writeMappedError_def writeJSON_def writeJSONStatus_def writeJSONError_def
        split: sum.splits option.splits if_splits)
  show "traffic_getHandler T txt who i r = traffic_getHandler T txt who j r"
    if "st_Get T i = Inr ev" "ev_Subject ev \<noteq> subj" "st_Get T j = Inl TErrNotFound" for i j ev
    using assms(2) that by (simp add: traffic_getHandler_def writeMappedError_def)
qed

section \<open>Where the handlers depart from their comments\<close>

text \<open>The comment on the handler of one event announces status 403 for a row of another subject; the answer is 404.\<close>

lemma traffic_hidden_is_404:
  "st_Get T i = Inr ev \<Longrightarrow> who r = Some subj \<Longrightarrow> ev_Subject ev \<noteq> subj \<Longrightarrow> hr_Status (traffic_getHandler T txt who i r) = 404"
  by (simp add: traffic_getHandler_def writeJSONError_def)

text \<open>A filter with a broken escape is dropped by the query parser before the strict parses see it: every row is listed.\<close>

lemma malformed_since_dropped:
  "parseListOpts F \<lparr>r_Method = ''GET'', r_EscapedPath = [], r_Path = [], r_RawQuery = ''since=%zz'', r_RequestURI = [], r_Header = [], r_Body = None\<rparr>
     = Inr (TrafficListOpts.make [] [] [] [] [] [] zeroTime zeroTime None 0 (tf_cursor F []))"
proof -
  let ?r = "\<lparr>r_Method = ''GET'', r_EscapedPath = [], r_Path = [], r_RawQuery = ''since=%zz'', r_RequestURI = [], r_Header = [], r_Body = None\<rparr>"
  have "snd (ParseQuery ''since=%zz'') = []" by code_simp
  then show ?thesis by (simp add: parseListOpts_def query_get_def query_all_def parse_time_def)
qed

lemma Atoi_examples: "Atoi ''-12'' = Some (- 12)" "Atoi ''9223372036854775808'' = None" "Atoi ''+'' = None" "Atoi ''1x'' = None"
  by code_simp+

end
