(* ===== verification/OAuth.thy ===== *)
theory OAuth
  imports Auth
begin

text \<open>
  Token issue requests (\<^verbatim>\<open>internal/control/tokens/tokens.go\<close>) and the refresh endpoint POST /token
  (\<^verbatim>\<open>internal/server/oauth/oauth.go\<close>).  URL parsing, the HTTP client and the JSON decoding of the
  upstream's answer are parameters; form fields are a function that gives the empty string for an
  absent field.  Each reading of the clock is an argument, in the order of the code.  The
  multiplication of seconds into a duration wraps as on \<open>int64\<close>.
\<close>

section \<open>Definitions\<close>

subsection \<open>Issue requests\<close>

record Spec =
  sp_Subject :: string
  sp_AccessToken :: string
  sp_Headers :: "Header list"
  sp_TTLSeconds :: int
  sp_Admin :: bool

record RefreshSpec =
  rs_Subject :: string
  rs_RefreshToken :: string
  rs_TokenURL :: string
  rs_Headers :: "Header list"
  rs_TTLSeconds :: int
  rs_Admin :: bool

datatype token_error =
    SubjectRequired | BadHeader nat | BadTTL | RefreshTokenRequired | TokenURLRequired | IssueFailed auth_error

record Result =
  res_Token :: string
  res_ExpiresAt :: int

fun bad_header :: "nat \<Rightarrow> Header list \<Rightarrow> nat option" where
  "bad_header i [] = None"
| "bad_header i (h # hs) = (if hd_Name h = [] \<or> hd_Value h = [] then Some i else bad_header (Suc i) hs)"

definition Spec_Validate :: "Spec \<Rightarrow> token_error option" where
  "Spec_Validate s =
     (if sp_Subject s = [] then Some SubjectRequired
      else (case bad_header 0 (sp_Headers s) of
              Some i \<Rightarrow> Some (BadHeader i)
            | None \<Rightarrow> if sp_TTLSeconds s \<le> 0 then Some BadTTL else None))"

definition seconds :: "int \<Rightarrow> int" where
  "seconds n = int64 (n * second)"

text \<open>\<open>Issue\<close> reads the clock for its result, then \<open>IssueAccessToken\<close> reads it for the claims.\<close>

definition Issue :: "crypto \<Rightarrow> byte list \<Rightarrow> int \<Rightarrow> int \<Rightarrow> ServerKeys \<Rightarrow> Spec \<Rightarrow> token_error + Result" where
  "Issue L nonce now now' keys spec =
     (case Spec_Validate spec of
        Some e \<Rightarrow> Inl e
      | None \<Rightarrow>
          (let ttl = seconds (sp_TTLSeconds spec)
           in case IssueAccessToken L nonce now' keys (sp_Subject spec)
                     \<lparr>ac_AccessToken = sp_AccessToken spec, ac_Headers = sp_Headers spec\<rparr> ttl (sp_Admin spec) of
                Inl e \<Rightarrow> Inl (IssueFailed e)
              | Inr tok \<Rightarrow> Inr \<lparr>res_Token = tok, res_ExpiresAt = now + ttl\<rparr>))"

definition RefreshSpec_Validate :: "RefreshSpec \<Rightarrow> token_error option" where
  "RefreshSpec_Validate s =
     (if rs_Subject s = [] then Some SubjectRequired
      else if rs_RefreshToken s = [] then Some RefreshTokenRequired
      else if rs_TokenURL s = [] then Some TokenURLRequired
      else (case bad_header 0 (rs_Headers s) of
              Some i \<Rightarrow> Some (BadHeader i)
            | None \<Rightarrow> if rs_TTLSeconds s < 0 then Some BadTTL else None))"

definition IssueRefresh :: "crypto \<Rightarrow> byte list \<Rightarrow> int \<Rightarrow> int \<Rightarrow> ServerKeys \<Rightarrow> RefreshSpec \<Rightarrow> token_error + Result" where
  "IssueRefresh L nonce now now' keys spec =
     (case RefreshSpec_Validate spec of
        Some e \<Rightarrow> Inl e
      | None \<Rightarrow>
          (let ttl = seconds (rs_TTLSeconds spec)
           in case IssueRefreshToken L nonce now' keys (rs_Subject spec)
                     \<lparr>rc_RefreshToken = rs_RefreshToken spec, rc_TokenURL = rs_TokenURL spec, rc_Headers = rs_Headers spec\<rparr>
                     ttl (rs_Admin spec) of
                Inl e \<Rightarrow> Inl (IssueFailed e)
              | Inr tok \<Rightarrow> Inr \<lparr>res_Token = tok, res_ExpiresAt = (if ttl > 0 then now + ttl else zeroTime)\<rparr>))"

subsection \<open>POST /token\<close>

definition MaxFormBodyBytes :: int where "MaxFormBodyBytes = 2 ^ 14"
definition MaxUpstreamBodyBytes :: int where "MaxUpstreamBodyBytes = 2 ^ 16"

record upstreamTokens =
  ut_AccessToken :: string
  ut_RefreshToken :: string
  ut_ExpiresIn :: int

record response =
  re_AccessToken :: string
  re_TokenType :: string
  re_ExpiresIn :: int
  re_RefreshToken :: string

record oauthError =
  oe_Status :: int
  oe_Code :: string

definition errOAuth :: "int \<Rightarrow> string \<Rightarrow> oauthError" where
  "errOAuth status code = \<lparr>oe_Status = status, oe_Code = code\<rparr>"

text \<open>The parts of a parsed URL the checks read: scheme, host, host name; and whether that is a loopback address.\<close>

record URL =
  url_Scheme :: string
  url_Host :: string
  url_Hostname :: string
  url_Loopback :: bool

definition validateTokenURL :: "(string \<Rightarrow> URL option) \<Rightarrow> string \<Rightarrow> bool" where
  "validateTokenURL parse raw =
     (case parse raw of
        None \<Rightarrow> False
      | Some u \<Rightarrow>
          (if url_Host u = [] then False
           else if url_Scheme u = ''https'' then True
           else if url_Scheme u = ''http'' then url_Hostname u = ''localhost'' \<or> url_Loopback u
           else False))"

text \<open>
  The upstream: whether the request can be built, and the answer to the exchange form: unreachable, or
  a status with a body, which is unreadable or a byte string.
\<close>

record upstream =
  up_parse :: "string \<Rightarrow> URL option"
  up_buildable :: "string \<Rightarrow> bool"
  up_post :: "string \<Rightarrow> (string \<times> string) list \<Rightarrow> (int \<times> string option) option"
  up_decode :: "string \<Rightarrow> upstreamTokens option"

definition exchange_form :: "RefreshCreds \<Rightarrow> string \<Rightarrow> string \<Rightarrow> (string \<times> string) list" where
  "exchange_form creds clientID clientSecret =
     [(''grant_type'', ''refresh_token''), (''refresh_token'', rc_RefreshToken creds)]
     @ (if clientID \<noteq> [] then [(''client_id'', clientID)] else [])
     @ (if clientSecret \<noteq> [] then [(''client_secret'', clientSecret)] else [])"

definition exchange :: "upstream \<Rightarrow> RefreshCreds \<Rightarrow> string \<Rightarrow> string \<Rightarrow> oauthError + upstreamTokens" where
  "exchange U creds clientID clientSecret =
     (if \<not> validateTokenURL (up_parse U) (rc_TokenURL creds) then Inl (errOAuth 400 ''invalid_grant'')
      else if \<not> up_buildable U (rc_TokenURL creds) then Inl (errOAuth 500 ''server_error'')
      else (case up_post U (rc_TokenURL creds) (exchange_form creds clientID clientSecret) of
              None \<Rightarrow> Inl (errOAuth 503 ''temporarily_unavailable'')
            | Some (status, None) \<Rightarrow> Inl (errOAuth 503 ''temporarily_unavailable'')
            | Some (status, Some body) \<Rightarrow>
                (if int (length body) > MaxUpstreamBodyBytes then Inl (errOAuth 503 ''temporarily_unavailable'')
                 else if status \<ge> 500 then Inl (errOAuth 503 ''temporarily_unavailable'')
                 else if status \<ge> 400 then Inl (errOAuth 400 ''invalid_grant'')
                 else (case up_decode U body of
                         None \<Rightarrow> Inl (errOAuth 502 ''server_error'')
                       | Some u \<Rightarrow> if ut_AccessToken u = [] then Inl (errOAuth 502 ''server_error'') else Inr u))))"

definition rotatedRefreshTTL :: "int \<Rightarrow> int \<Rightarrow> int \<Rightarrow> int \<times> bool" where
  "rotatedRefreshTTL originalExp configuredTTL now =
     (if originalExp = zeroTime then (configuredTTL, True)
      else (let remaining = time_Sub originalExp now
            in if remaining \<le> 0 then (0, False)
               else if configuredTTL = 0 \<or> remaining < configuredTTL then (remaining, True)
               else (configuredTTL, True)))"

text \<open>
  \<open>issueResponse\<close> with the instants it reads: the access token's, the one handed to \<open>rotatedRefreshTTL\<close>,
  the refresh token's; and the two nonces.
\<close>

definition issueResponse ::
  "crypto \<Rightarrow> byte list \<Rightarrow> byte list \<Rightarrow> int \<Rightarrow> int \<Rightarrow> int \<Rightarrow> ServerKeys \<Rightarrow> int \<Rightarrow> RefreshToken \<Rightarrow> upstreamTokens
     \<Rightarrow> oauthError + response" where
  "issueResponse L nonceA nonceR nowA now nowR keys refreshTTL rt u =
     (let ttl0 = seconds (ut_ExpiresIn u)
      in if ttl0 \<le> AccessLeeway then Inl (errOAuth 503 ''temporarily_unavailable'')
         else (let accessTTL = ttl0 - AccessLeeway
               in case IssueAccessToken L nonceA nowA keys (rt_Subject rt)
                         \<lparr>ac_AccessToken = ut_AccessToken u, ac_Headers = rc_Headers (rt_Creds rt)\<rparr> accessTTL (rt_Admin rt) of
                    Inl e \<Rightarrow> Inl (errOAuth 500 ''server_error'')
                  | Inr accessJWT \<Rightarrow>
                      (let resp = \<lparr>re_AccessToken = accessJWT, re_TokenType = ''Bearer'',
                                   re_ExpiresIn = accessTTL div second, re_RefreshToken = []\<rparr>
                       in if ut_RefreshToken u \<noteq> [] \<and> ut_RefreshToken u \<noteq> rc_RefreshToken (rt_Creds rt) then
                            (case rotatedRefreshTTL (rt_ExpiresAt rt) refreshTTL now of
                               (ttl, False) \<Rightarrow> Inr resp
                             | (ttl, True) \<Rightarrow>
                                 (case IssueRefreshToken L nonceR nowR keys (rt_Subject rt)
                                         \<lparr>rc_RefreshToken = ut_RefreshToken u, rc_TokenURL = rc_TokenURL (rt_Creds rt),
                                          rc_Headers = rc_Headers (rt_Creds rt)\<rparr> ttl (rt_Admin rt) of
                                    Inl e \<Rightarrow> Inl (errOAuth 500 ''server_error'')
                                  | Inr newRefresh \<Rightarrow> Inr (resp\<lparr>re_RefreshToken := newRefresh\<rparr>)))
                          else Inr resp)))"

record clock =
  ck_verify :: int
  ck_check :: int
  ck_access :: int
  ck_rotate :: int
  ck_refresh :: int

record Handler =
  h_keys :: ServerKeys
  h_refreshTTL :: int

text \<open>The handler on a method and a parsed form; \<open>None\<close> for a form that does not parse.\<close>

definition ServeHTTP ::
  "crypto \<Rightarrow> upstream \<Rightarrow> clock \<Rightarrow> byte list \<Rightarrow> byte list \<Rightarrow> Handler \<Rightarrow> string \<Rightarrow> (string \<Rightarrow> string) option
     \<Rightarrow> oauthError + response" where
  "ServeHTTP L U ck nonceA nonceR h meth form =
     (if meth \<noteq> ''POST'' then Inl (errOAuth 405 ''invalid_request'')
      else (case form of
              None \<Rightarrow> Inl (errOAuth 400 ''invalid_request'')
            | Some f \<Rightarrow>
                (if f ''grant_type'' \<noteq> ''refresh_token'' then Inl (errOAuth 400 ''unsupported_grant_type'')
                 else if f ''refresh_token'' = [] then Inl (errOAuth 400 ''invalid_request'')
                 else (case VerifyRefreshToken L (ck_verify ck) (h_keys h) (f ''refresh_token'') of
                         Inl e \<Rightarrow> Inl (errOAuth 400 ''invalid_grant'')
                       | Inr rt \<Rightarrow>
                           (if rt_ExpiresAt rt \<noteq> zeroTime \<and> \<not> rt_ExpiresAt rt > ck_check ck then
                              Inl (errOAuth 400 ''invalid_grant'')
                            else bind_result (exchange U (rt_Creds rt) (f ''client_id'') (f ''client_secret'')) (\<lambda>u.
                                   issueResponse L nonceA nonceR (ck_access ck) (ck_rotate ck) (ck_refresh ck)
                                     (h_keys h) (h_refreshTTL h) rt u))))))"

subsection \<open>Specification\<close>

text \<open>
  The refresh tokens a client can reach from one it was given by presenting each to the endpoint, whose
  upstream, clock, client fields and nonces may differ at every step.  The two readings of the clock
  around the rotation are in order and less than a second apart.
\<close>

definition rotation_clock :: "clock \<Rightarrow> bool" where
  "rotation_clock ck \<longleftrightarrow> 0 \<le> ck_rotate ck \<and> ck_rotate ck \<le> ck_refresh ck \<and> ck_refresh ck < ck_rotate ck + second"

inductive rotated :: "crypto \<Rightarrow> Handler \<Rightarrow> string \<Rightarrow> string \<Rightarrow> bool" for L h tok0 where
  start: "rotated L h tok0 tok0"
| rotate: "rotated L h tok0 (f ''refresh_token'') \<Longrightarrow> ServeHTTP L U ck nonceA nonceR h ''POST'' (Some f) = Inr resp \<Longrightarrow>
     re_RefreshToken resp \<noteq> [] \<Longrightarrow> rotation_clock ck \<Longrightarrow> length nonceR = NonceSize \<Longrightarrow>
     rotated L h tok0 (re_RefreshToken resp)"

text \<open>A refresh token that was signed by the server, for a subject, with an expiry no later than \<open>e\<close>.\<close>

definition bounded_refresh :: "crypto \<Rightarrow> ServerKeys \<Rightarrow> string \<Rightarrow> bool \<Rightarrow> string \<Rightarrow> int \<Rightarrow> string \<Rightarrow> bool" where
  "bounded_refresh L keys subject admin url e tok \<longleftrightarrow>
     (\<exists>nonce t creds ttl. length nonce = NonceSize \<and> 0 \<le> t \<and> 0 < ttl \<and> rc_TokenURL creds = url
        \<and> IssueRefreshToken L nonce t keys subject creds ttl admin = Inr tok \<and> whole_seconds (t + ttl) \<le> e)"

section \<open>Lifetimes\<close>

lemma refresh_verify:
  assumes "jwt_roundtrip L" "aead_roundtrip L" "json_creds_roundtrip L" "keys_ok L keys" "length nonce = NonceSize"
    and "IssueRefreshToken L nonce t keys subject creds ttl admin = Inr tok" "0 < ttl"
    and "VerifyRefreshToken L now keys tok = Inr rt"
  shows "rt = \<lparr>rt_Subject = subject, rt_Creds = creds, rt_Admin = admin, rt_ExpiresAt = whole_seconds (t + ttl)\<rparr>
    \<and> now < whole_seconds (t + ttl) + 30 * second"
proof -
  obtain pt where pt: "marshalRefresh L creds = Some pt"
    and s: "SignedString L (k_Signing keys) (issued_claims t subject typRefresh
        (nonce @ Seal L (k_EncryptRefresh keys) nonce pt) (Some ttl) admin) = Some tok"
    using assms(6,7) by (auto simp: IssueRefresh_Inr)
  have un: "unmarshalRefresh L pt = Some creds" using assms(3) pt by (simp add: json_creds_roundtrip_def)
  have exp: "tokenExpiry L tok = whole_seconds (t + ttl)"
    using assms(1) s unfolding jwt_roundtrip_def tokenExpiry_def by (simp add: issued_claims_def)
  from verify_signed [where unmarshal = "unmarshalRefresh L", OF assms(1,2,4,5) un s, of now typRefresh False] assms(8) exp
  show ?thesis by (auto simp: VerifyRefreshToken_def bind_result_Inr claims_valid_issued jwtLeeway_def split: if_splits)
qed

lemma rotated_ttl:
  assumes "rotatedRefreshTTL e cfg now = (ttl, True)" "e \<noteq> zeroTime" "0 \<le> cfg"
  shows "0 < ttl" "now + ttl \<le> e"
  using assms by (auto simp: rotatedRefreshTTL_def time_Sub_def Let_def split: if_splits)

lemma issueResponse_rotation:
  assumes "issueResponse L nonceA nonceR nowA now nowR keys cfg rt u = Inr resp" "re_RefreshToken resp \<noteq> []"
  obtains ttl where "rotatedRefreshTTL (rt_ExpiresAt rt) cfg now = (ttl, True)"
    "IssueRefreshToken L nonceR nowR keys (rt_Subject rt)
       \<lparr>rc_RefreshToken = ut_RefreshToken u, rc_TokenURL = rc_TokenURL (rt_Creds rt), rc_Headers = rc_Headers (rt_Creds rt)\<rparr>
       ttl (rt_Admin rt) = Inr (re_RefreshToken resp)"
  using assms by (auto simp: issueResponse_def Let_def split: if_splits sum.splits prod.splits bool.splits)

lemma ServeHTTP_Inr:
  assumes "ServeHTTP L U ck nonceA nonceR h ''POST'' (Some f) = Inr resp"
  obtains rt u where "VerifyRefreshToken L (ck_verify ck) (h_keys h) (f ''refresh_token'') = Inr rt"
    "exchange U (rt_Creds rt) (f ''client_id'') (f ''client_secret'') = Inr u"
    "issueResponse L nonceA nonceR (ck_access ck) (ck_rotate ck) (ck_refresh ck) (h_keys h) (h_refreshTTL h) rt u = Inr resp"
  using assms by (auto simp: ServeHTTP_def bind_result_Inr split: if_splits sum.splits)

lemma whole_seconds_bound: "whole_seconds e = e \<Longrightarrow> t < e + second \<Longrightarrow> whole_seconds t \<le> e"
  using whole_seconds_mono [of t "e + (second - 1)"] whole_seconds_drift [of e "second - 1"] by (simp add: second_def)

lemma rotation_step:
  assumes laws: "jwt_roundtrip L" "aead_roundtrip L" "json_creds_roundtrip L" "keys_ok L (h_keys h)" "0 \<le> h_refreshTTL h"
    and "bounded_refresh L (h_keys h) subject admin url e (f ''refresh_token'')"
    and "ServeHTTP L U ck nonceA nonceR h ''POST'' (Some f) = Inr resp" "re_RefreshToken resp \<noteq> []"
    and "rotation_clock ck" "length nonceR = NonceSize"
  shows "bounded_refresh L (h_keys h) subject admin url e (re_RefreshToken resp)"
proof -
  obtain nonce t creds ttl where b: "length nonce = NonceSize" "0 \<le> t" "0 < ttl" "rc_TokenURL creds = url"
      "IssueRefreshToken L nonce t (h_keys h) subject creds ttl admin = Inr (f ''refresh_token'')" "whole_seconds (t + ttl) \<le> e"
    using assms(6) by (auto simp: bounded_refresh_def)
  obtain rt u where rt: "VerifyRefreshToken L (ck_verify ck) (h_keys h) (f ''refresh_token'') = Inr rt"
    and issue: "issueResponse L nonceA nonceR (ck_access ck) (ck_rotate ck) (ck_refresh ck) (h_keys h) (h_refreshTTL h) rt u = Inr resp"
    using ServeHTTP_Inr [OF assms(7)] by metis
  note v = refresh_verify [OF laws(1-4) b(1,5,3) rt]
  have "0 \<le> whole_seconds (t + ttl)" using b(2,3) by (simp add: whole_seconds_def second_def)
  then have nz: "rt_ExpiresAt rt \<noteq> zeroTime" using v by (simp add: zeroTime_def)
  obtain ttl' where r: "rotatedRefreshTTL (rt_ExpiresAt rt) (h_refreshTTL h) (ck_rotate ck) = (ttl', True)"
    and i: "IssueRefreshToken L nonceR (ck_refresh ck) (h_keys h) (rt_Subject rt)
       \<lparr>rc_RefreshToken = ut_RefreshToken u, rc_TokenURL = rc_TokenURL (rt_Creds rt), rc_Headers = rc_Headers (rt_Creds rt)\<rparr>
       ttl' (rt_Admin rt) = Inr (re_RefreshToken resp)"
    using issueResponse_rotation [OF issue assms(8)] by metis
  have bound: "0 < ttl'" "ck_rotate ck + ttl' \<le> whole_seconds (t + ttl)"
    using rotated_ttl [OF r nz laws(5)] v by simp_all
  have "ck_refresh ck + ttl' < whole_seconds (t + ttl) + second" "0 \<le> ck_refresh ck"
    using bound(2) assms(9) by (auto simp: rotation_clock_def)
  then have "whole_seconds (ck_refresh ck + ttl') \<le> e"
    using whole_seconds_bound [OF whole_seconds_idem [of "t + ttl"]] b(6) by force
  with i v b(4) bound(1) assms(10) \<open>0 \<le> ck_refresh ck\<close> show ?thesis
    unfolding bounded_refresh_def by (intro exI conjI) auto
qed



lemma issueResponse_access:
  assumes "issueResponse L nonceA nonceR nowA now nowR keys cfg rt u = Inr resp"
  shows "30 * second < seconds (ut_ExpiresIn u) \<and> IssueAccessToken L nonceA nowA keys (rt_Subject rt)
      \<lparr>ac_AccessToken = ut_AccessToken u, ac_Headers = rc_Headers (rt_Creds rt)\<rparr>
      (seconds (ut_ExpiresIn u) - 30 * second) (rt_Admin rt) = Inr (re_AccessToken resp)"
  using assms by (auto simp: issueResponse_def Let_def AccessLeeway_def jwtLeeway_def
      split: if_splits sum.splits prod.splits bool.splits)

text \<open>
  C18: an access token the endpoint hands out carries the refresh token's subject and admin flag and the
  upstream's new credential, and it is never accepted once the lifetime the upstream reported has
  passed since it was issued, leeway and overflow of the duration included.
\<close>

theorem access_within_upstream_lifetime:
  assumes "jwt_roundtrip L" "aead_roundtrip L" "json_creds_roundtrip L" "keys_ok L keys" "length nonceA = NonceSize"
    and "issueResponse L nonceA nonceR nowA now nowR keys cfg rt u = Inr resp" "0 \<le> ut_ExpiresIn u"
    and "VerifyAccessToken L t keys (re_AccessToken resp) = Inr tok"
  shows "at_Subject tok = rt_Subject rt \<and> at_Admin tok = rt_Admin rt \<and> ac_AccessToken (at_Creds tok) = ut_AccessToken u
    \<and> t < nowA + ut_ExpiresIn u * second"
proof -
  note i = issueResponse_access [OF assms(6)]
  from assms(8) have "tok = \<lparr>at_Subject = rt_Subject rt,
      at_Creds = \<lparr>ac_AccessToken = ut_AccessToken u, ac_Headers = rc_Headers (rt_Creds rt)\<rparr>, at_Admin = rt_Admin rt\<rparr>
      \<and> t < whole_seconds (nowA + (seconds (ut_ExpiresIn u) - 30 * second)) + 30 * second"
    unfolding access_verify [OF assms(1-5) conjunct2 [OF i]] by (simp split: if_splits)
  moreover have "seconds (ut_ExpiresIn u) \<le> ut_ExpiresIn u * second"
    unfolding seconds_def using assms(7) by (intro int64_le) (simp add: second_def)
  ultimately show ?thesis
    using whole_seconds_le [of "nowA + (seconds (ut_ExpiresIn u) - 30 * second)"] by simp
qed

theorem access_within_upstream_lifetime_witness:
  "let rt = \<lparr>rt_Subject = ''bob'', rt_Creds = \<lparr>rc_RefreshToken = ''r'', rc_TokenURL = ''https://x'', rc_Headers = []\<rparr>,
             rt_Admin = False, rt_ExpiresAt = zeroTime\<rparr>;
       u = \<lparr>ut_AccessToken = ''up'', ut_RefreshToken = [], ut_ExpiresIn = 3600\<rparr>;
       c = issued_claims 0 ''bob'' typAccess (ex_nonce @ [1]) (Some (3570 * second)) False;
       L = ex_crypto [c] [\<lparr>ac_AccessToken = ''up'', ac_Headers = []\<rparr>] []
   in \<exists>resp tok. issueResponse L ex_nonce ex_nonce 0 0 0 ex_keys 0 rt u = Inr resp
        \<and> VerifyAccessToken L (3599 * second) ex_keys (re_AccessToken resp) = Inr tok \<and> at_Subject tok = ''bob''
        \<and> ac_AccessToken (at_Creds tok) = ''up''"
proof -
  let ?rt = "\<lparr>rt_Subject = ''bob'', rt_Creds = \<lparr>rc_RefreshToken = ''r'', rc_TokenURL = ''https://x'', rc_Headers = []\<rparr>,
             rt_Admin = False, rt_ExpiresAt = zeroTime\<rparr>"
  let ?u = "\<lparr>ut_AccessToken = ''up'', ut_RefreshToken = [], ut_ExpiresIn = 3600\<rparr>"
  let ?c = "issued_claims 0 ''bob'' typAccess (ex_nonce @ [1]) (Some (3570 * second)) False"
  let ?L = "ex_crypto [?c] [\<lparr>ac_AccessToken = ''up'', ac_Headers = []\<rparr>] []"
  have "is_ok (issueResponse ?L ex_nonce ex_nonce 0 0 0 ex_keys 0 ?rt ?u)" by code_simp
  then obtain resp where resp: "issueResponse ?L ex_nonce ex_nonce 0 0 0 ex_keys 0 ?rt ?u = Inr resp"
    by (auto simp: is_ok_def split: sum.splits)
  have "bind_result (issueResponse ?L ex_nonce ex_nonce 0 0 0 ex_keys 0 ?rt ?u)
      (\<lambda>r. Inr (is_ok (VerifyAccessToken ?L (3599 * second) ex_keys (re_AccessToken r)))) = Inr True" by code_simp
  then obtain tok where tok: "VerifyAccessToken ?L (3599 * second) ex_keys (re_AccessToken resp) = Inr tok"
    by (auto simp: resp is_ok_def split: sum.splits)
  have n: "length ex_nonce = NonceSize" "0 \<le> ut_ExpiresIn ?u" by (simp_all add: ex_nonce_def NonceSize_def)
  from access_within_upstream_lifetime [OF ex_crypto_laws n(1) resp n(2) tok] resp tok show ?thesis
    unfolding Let_def by auto
qed

section \<open>Boundary cases\<close>

text \<open>Every failure of the endpoint is one of five codes, whatever the upstream answered.\<close>

lemma exchange_error_codes:
  "exchange U creds cid csec = Inl e \<Longrightarrow> oe_Code e \<in> {''invalid_grant'', ''server_error'', ''temporarily_unavailable''}"
  by (auto simp: exchange_def errOAuth_def split: if_splits option.splits prod.splits)

lemma issueResponse_error_codes:
  "issueResponse L nA nR tA t tR keys cfg rt u = Inl e \<Longrightarrow> oe_Code e \<in> {''server_error'', ''temporarily_unavailable''}"
  by (auto simp: issueResponse_def Let_def errOAuth_def split: if_splits sum.splits prod.splits bool.splits)

lemma bind_result_Inl: "bind_result r f = Inl e \<longleftrightarrow> r = Inl e \<or> (\<exists>x. r = Inr x \<and> f x = Inl e)"
  by (cases r) auto

lemma token_error_codes:
  assumes "ServeHTTP L U ck nA nR h m form = Inl e"
  shows "oe_Code e \<in> {''invalid_request'', ''unsupported_grant_type'', ''invalid_grant'', ''server_error'', ''temporarily_unavailable''}"
  using assms exchange_error_codes issueResponse_error_codes
  by (fastforce simp: ServeHTTP_def errOAuth_def bind_result_Inl split: if_splits option.splits sum.splits)

text \<open>
  A negative rotation lifetime, which no flag check excludes, wins against the remaining lifetime of the
  original and then means no expiry at all.
\<close>

lemma negative_refresh_ttl_unbounded:
  assumes "cfg < 0" "e \<noteq> zeroTime" "now < e"
    and "rotatedRefreshTTL e cfg now = (ttl, ok)" "IssueRefreshToken L nonce t keys subject creds ttl admin = Inr tok" "jwt_roundtrip L"
  shows "ok \<and> tokenExpiry L tok = zeroTime"
proof -
  have ttl: "ok" "ttl < 0" using assms(1-4) by (auto simp: rotatedRefreshTTL_def time_Sub_def Let_def split: if_splits)
  then obtain c where "SignedString L (k_Signing keys) c = Some tok" "c_ExpiresAt c = None"
    using assms(5) by (auto simp: IssueRefresh_Inr issued_claims_def)
  with assms(6) ttl show ?thesis by (simp add: tokenExpiry_def jwt_roundtrip_def)
qed

text \<open>
  A refresh specification with a positive lifetime of more seconds than a duration holds overflows to a
  negative duration and is issued without expiry.
\<close>

lemma refresh_ttl_overflow:
  assumes "rs_TTLSeconds spec = 9223372037" "IssueRefresh L nonce now now' keys spec = Inr r" "jwt_roundtrip L"
  shows "res_ExpiresAt r = zeroTime \<and> tokenExpiry L (res_Token r) = zeroTime"
proof -
  have neg: "seconds (rs_TTLSeconds spec) < 0" by (simp add: assms(1) seconds_def second_def int64_def)
  then obtain c where "SignedString L (k_Signing keys) c = Some (res_Token r)" "c_ExpiresAt c = None"
    and "res_ExpiresAt r = zeroTime"
    using assms(2) by (auto simp: IssueRefresh_def IssueRefresh_Inr issued_claims_def Let_def split: option.splits sum.splits)
  with assms(3) show ?thesis by (simp add: tokenExpiry_def jwt_roundtrip_def)
qed

end
