(* ===== verification/TokensApi.thy ===== *)
theory TokensApi
  imports AdminViews OAuth
begin

text \<open>
  Services and their bring-your-own-token forms: the registry of \<^verbatim>\<open>internal/control/services/services.go\<close>, the endpoints
  of \<^verbatim>\<open>internal/server/admin/services.go\<close>, and the two issue endpoints of \<^verbatim>\<open>internal/server/admin/tokens_page.go\<close>, which
  turn a raw specification or a filled form into a token.  The JSON decoders and the template engine are
  arguments; HTML shells are left out.
\<close>

section \<open>Definitions\<close>

subsection \<open>The registry\<close>

record RefreshDescriptor =
  rd_TokenURL :: string

record FieldDescriptor =
  fd_Name :: string
  fd_Label :: string
  fd_Kind :: string
  fd_Placeholder :: string
  fd_Help :: string
  fd_Required :: bool
  fd_Header :: string
  fd_Template :: string

record VariantDescriptor =
  vd_ID :: string
  vd_Title :: string
  vd_Description :: string
  vd_Refresh :: "RefreshDescriptor option"
  vd_Fields :: "FieldDescriptor list"

record Descriptor =
  ds_Slug :: string
  ds_Title :: string
  ds_Description :: string
  ds_BundleName :: string
  ds_APIs :: "string list"
  ds_TokenVariants :: "VariantDescriptor list"

record ServiceRegistry =
  sg_services :: "LoadedService list"
  sg_bySlug :: "string \<rightharpoonup> LoadedService"

definition services_New :: "LoadedService list \<Rightarrow> ServiceRegistry" where
  "services_New loaded =
     \<lparr>sg_services = loaded, sg_bySlug = fold (\<lambda>l m. m(bs_Slug (ls_Service l) \<mapsto> l)) loaded Map.empty\<rparr>"

definition describeVariant :: "TokenVariant \<Rightarrow> VariantDescriptor" where
  "describeVariant v =
     \<lparr>vd_ID = tv_ID v, vd_Title = tv_Title v, vd_Description = tv_Description v,
      vd_Refresh = map_option (\<lambda>r. \<lparr>rd_TokenURL = rg_TokenURL r\<rparr>) (tv_Refresh v),
      vd_Fields = map (\<lambda>f. \<lparr>fd_Name = tf_Name f, fd_Label = tf_Label f, fd_Kind = (if tf_Kind f = [] then ''text'' else tf_Kind f),
                           fd_Placeholder = tf_Placeholder f, fd_Help = tf_Help f, fd_Required = tf_Required f,
                           fd_Header = tf_Header f, fd_Template = tf_Template f\<rparr>) (tv_Fields v)\<rparr>"

definition describe :: "LoadedService \<Rightarrow> Descriptor" where
  "describe l =
     \<lparr>ds_Slug = bs_Slug (ls_Service l), ds_Title = bs_Title (ls_Service l), ds_Description = bs_Description (ls_Service l),
      ds_BundleName = ls_BundleName l, ds_APIs = ls_APIs l, ds_TokenVariants = map describeVariant (ls_TokenVariants l)\<rparr>"

definition services_List :: "ServiceRegistry \<Rightarrow> Descriptor list" where
  "services_List r = map describe (sg_services r)"

datatype service_error = ErrUnknownService

definition services_Get :: "ServiceRegistry \<Rightarrow> string \<Rightarrow> service_error + Descriptor" where
  "services_Get r slug = (case sg_bySlug r slug of None \<Rightarrow> Inl ErrUnknownService | Some l \<Rightarrow> Inr (describe l))"

definition services_Variant :: "ServiceRegistry \<Rightarrow> string \<Rightarrow> string \<Rightarrow> service_error + TokenVariant" where
  "services_Variant r slug variant =
     (case sg_bySlug r slug of
        None \<Rightarrow> Inl ErrUnknownService
      | Some l \<Rightarrow> (case find_by tv_ID variant (ls_TokenVariants l) of None \<Rightarrow> Inl ErrUnknownService | Some v \<Rightarrow> Inr v))"

subsection \<open>The services endpoints\<close>

datatype service_payload = ServiceList "Descriptor list" | OneService Descriptor

definition respondServiceError :: "(service_error \<Rightarrow> string) \<Rightarrow> service_error \<Rightarrow> service_payload http_response" where
  "respondServiceError txt e =
     writeMappedError txt (ServiceError e) [\<lparr>em_is = (\<lambda>e. e = ErrUnknownService), em_status = 404, em_msg = []\<rparr>]"

definition listServicesHandler :: "ServiceRegistry option \<Rightarrow> service_payload http_response" where
  "listServicesHandler svc = writeJSON (ServiceList (case svc of None \<Rightarrow> [] | Some r \<Rightarrow> services_List r))"

definition getServiceHandler :: "(service_error \<Rightarrow> string) \<Rightarrow> ServiceRegistry option \<Rightarrow> string \<Rightarrow> service_payload http_response" where
  "getServiceHandler txt svc slug =
     (case svc of
        None \<Rightarrow> respondServiceError txt ErrUnknownService
      | Some r \<Rightarrow> (case services_Get r slug of Inl e \<Rightarrow> respondServiceError txt e | Inr d \<Rightarrow> writeJSON (OneService d)))"

subsection \<open>Issuing tokens\<close>

definition defaultAccessTokenTTL :: int where "defaultAccessTokenTTL = 3600 * second"
definition TokensIssueRefreshPath :: string where "TokensIssueRefreshPath = ''/_api/tokens/issue/refresh''"
definition MaxTokensIssueBodyBytes :: int where "MaxTokensIssueBodyBytes = 2 ^ 16"

record tokensIssueRequest =
  tr_Subject :: string
  tr_Service :: string
  tr_Variant :: string
  tr_Fields :: "string \<rightharpoonup> string"

text \<open>\<open>None\<close> for a token without an expiry.\<close>

record IssueResponse =
  ir_Token :: string
  ir_ExpiresAt :: "int option"

datatype issue_error = UnknownVariant service_error | InvalidSpec string | TokenSpec token_error | NoRegistry | BadTemplate | AuthFailed auth_error

text \<open>The decoders of a body: the lenient probe for \<^verbatim>\<open>service\<close> and the strict decoders of the three shapes.\<close>

record issue_decoders =
  id_probe :: "string \<Rightarrow> string"
  id_spec :: "string \<Rightarrow> Spec decoded"
  id_refresh :: "string \<Rightarrow> RefreshSpec decoded"
  id_request :: "string \<Rightarrow> tokensIssueRequest decoded"

definition is_invalid_spec :: "issue_error \<Rightarrow> bool" where
  "is_invalid_spec e \<longleftrightarrow> (case e of InvalidSpec _ \<Rightarrow> True | TokenSpec t \<Rightarrow> (case t of IssueFailed _ \<Rightarrow> False | _ \<Rightarrow> True) | _ \<Rightarrow> False)"

definition is_unknown :: "issue_error \<Rightarrow> bool" where
  "is_unknown e \<longleftrightarrow> (case e of UnknownVariant _ \<Rightarrow> True | _ \<Rightarrow> False)"

definition respondTokensError :: "(issue_error \<Rightarrow> string) \<Rightarrow> issue_error handler_error \<Rightarrow> IssueResponse http_response" where
  "respondTokensError txt e =
     writeMappedError txt e
       [\<lparr>em_is = is_unknown, em_status = 404, em_msg = []\<rparr>, \<lparr>em_is = is_invalid_spec, em_status = 400, em_msg = []\<rparr>]"

definition isVariantRequest :: "issue_decoders \<Rightarrow> string \<Rightarrow> bool" where
  "isVariantRequest D raw = (id_probe D raw \<noteq> [])"

text \<open>A body that cannot be read to its end is \<open>None\<close>.\<close>

definition readIssueBody :: "string option \<Rightarrow> issue_error handler_error + string" where
  "readIssueBody body =
     (case body of
        None \<Rightarrow> Inl (DecodeError ''read'')
      | Some raw \<Rightarrow> if int (length raw) > MaxTokensIssueBodyBytes then Inl BodyTooLarge else Inr raw)"

definition decodeStrict :: "'a decoded \<Rightarrow> 'a \<Rightarrow> issue_error handler_error + 'a" where
  "decodeStrict d zero = decodeJSONBody d zero"

definition zero_request :: tokensIssueRequest where
  "zero_request = \<lparr>tr_Subject = [], tr_Service = [], tr_Variant = [], tr_Fields = Map.empty\<rparr>"

definition zero_spec :: Spec where
  "zero_spec = \<lparr>sp_Subject = [], sp_AccessToken = [], sp_Headers = [], sp_TTLSeconds = 0, sp_Admin = False\<rparr>"

definition zero_refresh :: RefreshSpec where
  "zero_refresh = \<lparr>rs_Subject = [], rs_RefreshToken = [], rs_TokenURL = [], rs_Headers = [], rs_TTLSeconds = 0, rs_Admin = False\<rparr>"

text \<open>On an error the response has been written.\<close>

definition decodeIssueRequest ::
  "(issue_error \<Rightarrow> string) \<Rightarrow> issue_decoders \<Rightarrow> string \<Rightarrow> IssueResponse http_response + tokensIssueRequest" where
  "decodeIssueRequest txt D raw =
     (case decodeStrict (id_request D raw) zero_request of
        Inl e \<Rightarrow> Inl (respondTokensError txt e)
      | Inr body \<Rightarrow>
          (if TrimSpace (tr_Subject body) = [] then Inl (writeJSONError ''subject is required'' 400)
           else if TrimSpace (tr_Variant body) = [] then Inl (writeJSONError ''variant is required'' 400)
           else Inr body))"

definition field_value :: "(string \<rightharpoonup> string) \<Rightarrow> string \<Rightarrow> string" where
  "field_value vals n = (case vals n of Some v \<Rightarrow> v | None \<Rightarrow> [])"

definition resolveVariant :: "ServiceRegistry option \<Rightarrow> tokensIssueRequest \<Rightarrow> issue_error + TokenVariant" where
  "resolveVariant svc body =
     (case svc of
        None \<Rightarrow> Inl NoRegistry
      | Some r \<Rightarrow>
          (case services_Variant r (tr_Service body) (tr_Variant body) of
             Inl e \<Rightarrow> Inl (UnknownVariant e)
           | Inr v \<Rightarrow>
               (case find (\<lambda>f. tf_Required f \<and> TrimSpace (field_value (tr_Fields body) (tf_Name f)) = []) (tv_Fields v) of
                  Some f \<Rightarrow> Inl (InvalidSpec (tf_Name f))
                | None \<Rightarrow> Inr v)))"

definition header_name :: "TokenField \<Rightarrow> string" where
  "header_name f = (if tf_Header f = [] then ''Authorization'' else tf_Header f)"

definition header_template :: "TokenField \<Rightarrow> string" where
  "header_template f =
     (if tf_Template f \<noteq> [] then tf_Template f
      else if ToLower (header_name f) = ''authorization'' then ''Bearer {{.}}'' else ''{{.}}'')"

text \<open>The template engine yields the rendered text, or nothing when a template does not parse or execute.\<close>

fun render_fields :: "(string \<Rightarrow> string \<Rightarrow> string option) \<Rightarrow> (string \<rightharpoonup> string) \<Rightarrow> TokenField list \<Rightarrow> issue_error + Header list" where
  "render_fields renderTemplate vals [] = Inr []"
| "render_fields renderTemplate vals (f # fs) =
     (let val = field_value vals (tf_Name f)
      in if val = [] then render_fields renderTemplate vals fs
         else (case renderTemplate (header_template f) val of
                 None \<Rightarrow> Inl BadTemplate
               | Some rendered \<Rightarrow>
                   (case render_fields renderTemplate vals fs of
                      Inl e \<Rightarrow> Inl e | Inr hs \<Rightarrow> Inr (\<lparr>hd_Name = header_name f, hd_Value = rendered\<rparr> # hs))))"

definition buildAccessCreds :: "(string \<Rightarrow> string \<Rightarrow> string option) \<Rightarrow> TokenVariant \<Rightarrow> (string \<rightharpoonup> string) \<Rightarrow> issue_error + AccessCreds" where
  "buildAccessCreds renderTemplate v vals =
     (case render_fields renderTemplate vals (tv_Fields v) of
        Inl e \<Rightarrow> Inl e
      | Inr hs \<Rightarrow> if hs = [] then Inl (InvalidSpec ''no field values supplied'') else Inr \<lparr>ac_AccessToken = [], ac_Headers = hs\<rparr>)"

text \<open>The clock is read before, at and after the issue of the token.\<close>

definition tokensIssueHandler ::
  "crypto \<Rightarrow> byte list \<Rightarrow> int \<Rightarrow> int \<Rightarrow> int \<Rightarrow> (issue_error \<Rightarrow> string) \<Rightarrow> issue_decoders \<Rightarrow> (string \<Rightarrow> string \<Rightarrow> string option)
     \<Rightarrow> ServerKeys \<Rightarrow> ServiceRegistry option \<Rightarrow> string option \<Rightarrow> IssueResponse http_response" where
  "tokensIssueHandler L nonce now now1 now2 txt D renderTemplate keys svc request =
     (case readIssueBody request of
        Inl e \<Rightarrow> respondTokensError txt e
      | Inr raw \<Rightarrow>
          (if \<not> isVariantRequest D raw then
             (case decodeStrict (id_spec D raw) zero_spec of
                Inl e \<Rightarrow> respondTokensError txt e
              | Inr spec \<Rightarrow>
                  (case Issue L nonce now now1 keys spec of
                     Inl e \<Rightarrow> respondTokensError txt (ServiceError (TokenSpec e))
                   | Inr res \<Rightarrow> writeJSON \<lparr>ir_Token = res_Token res, ir_ExpiresAt = Some (res_ExpiresAt res)\<rparr>))
           else
             (case decodeIssueRequest txt D raw of
                Inl resp \<Rightarrow> resp
              | Inr body \<Rightarrow>
                  (case resolveVariant svc body of
                     Inl e \<Rightarrow> respondTokensError txt (ServiceError e)
                   | Inr variant \<Rightarrow>
                       (if tv_Refresh variant \<noteq> None then writeJSONError (''variant is refresh-only; POST to '' @ TokensIssueRefreshPath) 400
                        else (case buildAccessCreds renderTemplate variant (tr_Fields body) of
                                Inl e \<Rightarrow> respondTokensError txt (ServiceError e)
                              | Inr creds \<Rightarrow>
                                  (case IssueAccessToken L nonce now1 keys (tr_Subject body) creds defaultAccessTokenTTL False of
                                     Inl e \<Rightarrow> respondTokensError txt (ServiceError (AuthFailed e))
                                   | Inr tok \<Rightarrow> writeJSON \<lparr>ir_Token = tok, ir_ExpiresAt = Some (now2 + defaultAccessTokenTTL)\<rparr>)))))))"

definition tokensIssueRefreshHandler ::
  "crypto \<Rightarrow> byte list \<Rightarrow> int \<Rightarrow> int \<Rightarrow> (issue_error \<Rightarrow> string) \<Rightarrow> issue_decoders
     \<Rightarrow> ServerKeys \<Rightarrow> ServiceRegistry option \<Rightarrow> string option \<Rightarrow> IssueResponse http_response" where
  "tokensIssueRefreshHandler L nonce now now1 txt D keys svc request =
     (case readIssueBody request of
        Inl e \<Rightarrow> respondTokensError txt e
      | Inr raw \<Rightarrow>
          (if \<not> isVariantRequest D raw then
             (case decodeStrict (id_refresh D raw) zero_refresh of
                Inl e \<Rightarrow> respondTokensError txt e
              | Inr spec \<Rightarrow>
                  (case IssueRefresh L nonce now now1 keys spec of
                     Inl e \<Rightarrow> respondTokensError txt (ServiceError (TokenSpec e))
                   | Inr res \<Rightarrow>
                       writeJSON \<lparr>ir_Token = res_Token res,
                                 ir_ExpiresAt = (if res_ExpiresAt res = zeroTime then None else Some (res_ExpiresAt res))\<rparr>))
           else
             (case decodeIssueRequest txt D raw of
                Inl resp \<Rightarrow> resp
              | Inr body \<Rightarrow>
                  (case resolveVariant svc body of
                     Inl e \<Rightarrow> respondTokensError txt (ServiceError e)
                   | Inr variant \<Rightarrow>
                       (case tv_Refresh variant of
                          None \<Rightarrow> writeJSONError ''variant does not declare a refresh token_url'' 400
                        | Some rc \<Rightarrow>
                            (let refreshTok = field_value (tr_Fields body) ''refresh_token''
                             in if refreshTok = [] then writeJSONError (''field '' @ quoted ''refresh_token'' @ '' is required'') 400
                                else (case IssueRefreshToken L nonce now1 keys (tr_Subject body)
                                             \<lparr>rc_RefreshToken = refreshTok, rc_TokenURL = rg_TokenURL rc, rc_Headers = []\<rparr> 0 False of
                                        Inl e \<Rightarrow> respondTokensError txt (ServiceError (AuthFailed e))
                                      | Inr tok \<Rightarrow> writeJSON \<lparr>ir_Token = tok, ir_ExpiresAt = None\<rparr>)))))))"


section \<open>The registry\<close>

lemma bySlug_None: "fold (\<lambda>l m. m(bs_Slug (ls_Service l) \<mapsto> l)) ls m s = None \<longleftrightarrow> m s = None \<and> s \<notin> (\<lambda>l. bs_Slug (ls_Service l)) ` set ls"
  by (induction ls arbitrary: m) auto

lemma bySlug_Some:
  "fold (\<lambda>l m. m(bs_Slug (ls_Service l) \<mapsto> l)) ls m s = Some l \<Longrightarrow> m s = Some l \<or> l \<in> set ls \<and> bs_Slug (ls_Service l) = s"
  by (induction ls arbitrary: m) (fastforce split: if_splits)+

text \<open>\<^verbatim>\<open>Get\<close> misses exactly the slugs that \<^verbatim>\<open>List\<close> does not show, and what it finds is a descriptor of the list.\<close>

theorem services_Get_lists:
  "services_Get (services_New ls) slug = Inl ErrUnknownService \<longleftrightarrow> slug \<notin> ds_Slug ` set (services_List (services_New ls))"
  "services_Get (services_New ls) slug = Inr d \<Longrightarrow> d \<in> set (services_List (services_New ls)) \<and> ds_Slug d = slug"
  by (auto simp: services_Get_def services_List_def services_New_def bySlug_None describe_def image_image
      split: option.splits dest: bySlug_Some)

section \<open>Issuing\<close>

definition filled :: "(string \<rightharpoonup> string) \<Rightarrow> TokenField \<Rightarrow> bool" where
  "filled vals f \<longleftrightarrow> field_value vals (tf_Name f) \<noteq> []"

definition rendered_headers :: "(string \<Rightarrow> string \<Rightarrow> string option) \<Rightarrow> (string \<rightharpoonup> string) \<Rightarrow> TokenField list \<Rightarrow> Header list" where
  "rendered_headers renderTemplate vals fs =
     map (\<lambda>f. \<lparr>hd_Name = header_name f, hd_Value = the (renderTemplate (header_template f) (field_value vals (tf_Name f)))\<rparr>)
       (filter (filled vals) fs)"

lemma map_sum_Inr: "map_sum id g x = Inr y \<longleftrightarrow> (\<exists>z. x = Inr z \<and> y = g z)"
  by (cases x) auto

lemma render_fields_Cons:
  "render_fields R vals (f # fs) =
     (if \<not> filled vals f then render_fields R vals fs
      else case R (header_template f) (field_value vals (tf_Name f)) of
             None \<Rightarrow> Inl BadTemplate
           | Some x \<Rightarrow> map_sum id (\<lambda>hs. \<lparr>hd_Name = header_name f, hd_Value = x\<rparr> # hs) (render_fields R vals fs))"
  by (auto simp: Let_def filled_def split: option.splits sum.splits)

lemma render_fields_Inr:
  "render_fields R vals fs = Inr hs \<longleftrightarrow>
     (\<forall>f \<in> set fs. filled vals f \<longrightarrow> R (header_template f) (field_value vals (tf_Name f)) \<noteq> None) \<and> hs = rendered_headers R vals fs"
proof (induction fs arbitrary: hs)
  case (Cons f fs)
  show ?case
    by (cases "filled vals f"; cases "R (header_template f) (field_value vals (tf_Name f))")
      (auto simp: render_fields_Cons map_sum_Inr Cons.IH rendered_headers_def simp del: render_fields.simps)
qed (auto simp: rendered_headers_def)

lemma buildAccessCreds_Inr:
  "buildAccessCreds R v vals = Inr creds \<longleftrightarrow>
     (\<forall>f \<in> set (tv_Fields v). filled vals f \<longrightarrow> R (header_template f) (field_value vals (tf_Name f)) \<noteq> None)
     \<and> rendered_headers R vals (tv_Fields v) \<noteq> [] \<and> creds = \<lparr>ac_AccessToken = [], ac_Headers = rendered_headers R vals (tv_Fields v)\<rparr>"
proof (cases "render_fields R vals (tv_Fields v)")
  case (Inl e)
  then show ?thesis using render_fields_Inr [of R vals "tv_Fields v" "rendered_headers R vals (tv_Fields v)"]
    by (auto simp: buildAccessCreds_def)
next
  case (Inr hs)
  then show ?thesis using render_fields_Inr [of R vals "tv_Fields v" hs] by (auto simp: buildAccessCreds_def)
qed

lemma resolveVariant_Inr:
  "resolveVariant svc body = Inr v \<longleftrightarrow>
     (\<exists>r. svc = Some r \<and> services_Variant r (tr_Service body) (tr_Variant body) = Inr v
        \<and> (\<forall>f \<in> set (tv_Fields v). tf_Required f \<longrightarrow> TrimSpace (field_value (tr_Fields body) (tf_Name f)) \<noteq> []))"
  by (auto simp: resolveVariant_def find_None_iff find_Some_iff split: option.splits sum.splits dest: nth_mem)

lemma decodeIssueRequest_Inr:
  "decodeIssueRequest txt D raw = Inr body \<longleftrightarrow>
     decodeStrict (id_request D raw) zero_request = Inr body \<and> TrimSpace (tr_Subject body) \<noteq> [] \<and> TrimSpace (tr_Variant body) \<noteq> []"
  by (auto simp: decodeIssueRequest_def split: sum.splits if_splits)

lemma respondTokensError_status: "hr_Status (respondTokensError txt e) \<in> {400, 404, 413, 500}"
  by (auto simp: respondTokensError_def writeMappedError_def writeJSONError_def split: handler_error.splits option.splits if_splits)

lemma decodeStrict_Inr:
  "decodeStrict d z = Inr x \<longleftrightarrow> d = DValue x \<or> d = DEnd \<and> x = z"
  by (auto simp: decodeStrict_def decodeJSONBody_def split: decoded.splits)

lemma readIssueBody_Inr: "readIssueBody b = Inr raw \<longleftrightarrow> b = Some raw \<and> int (length raw) \<le> MaxTokensIssueBodyBytes"
  by (auto simp: readIssueBody_def split: option.splits)

declare TrimSpace_Nil [simp]

lemma zero_request_refused: "decodeIssueRequest txt D raw = Inr body \<Longrightarrow> id_request D raw = DValue body"
  by (auto simp: decodeIssueRequest_Inr decodeStrict_Inr zero_request_def)

lemma respondTokensError_not_ok [simp]: "hr_Status (respondTokensError txt e) \<noteq> 200"
proof
  assume "hr_Status (respondTokensError txt e) = 200"
  moreover have "hr_Status (respondTokensError txt e) \<in> {400, 404, 413, 500}" by (rule respondTokensError_status)
  ultimately show False by simp
qed

lemma writeJSONError_not_ok [simp]: "hr_Status (writeJSONError m 400) \<noteq> 200"
  by (simp add: writeJSONError_def)

lemma decodeIssueRequest_refused [simp]: "decodeIssueRequest txt D raw = Inl resp \<Longrightarrow> hr_Status resp \<noteq> 200"
  by (auto simp: decodeIssueRequest_def split: sum.splits if_splits)

text \<open>The inputs of a form that is answered with a token.\<close>

definition accepted_form ::
  "issue_decoders \<Rightarrow> ServiceRegistry option \<Rightarrow> string \<Rightarrow> tokensIssueRequest \<Rightarrow> TokenVariant \<Rightarrow> bool" where
  "accepted_form D svc raw body v \<longleftrightarrow>
     id_probe D raw \<noteq> [] \<and> id_request D raw = DValue body \<and> TrimSpace (tr_Subject body) \<noteq> [] \<and> TrimSpace (tr_Variant body) \<noteq> []
     \<and> (\<exists>r. svc = Some r \<and> services_Variant r (tr_Service body) (tr_Variant body) = Inr v)
     \<and> (\<forall>f \<in> set (tv_Fields v). tf_Required f \<longrightarrow> TrimSpace (field_value (tr_Fields body) (tf_Name f)) \<noteq> [])"

lemma accepted_formI:
  "isVariantRequest D raw \<Longrightarrow> decodeIssueRequest txt D raw = Inr body \<Longrightarrow> resolveVariant svc body = Inr v
     \<Longrightarrow> accepted_form D svc raw body v"
  by (auto simp: accepted_form_def isVariantRequest_def resolveVariant_Inr zero_request_refused decodeIssueRequest_Inr)

lemma issue_ok_cases:
  assumes "hr_Status (tokensIssueHandler L nonce now now1 now2 txt D R keys svc request) = 200"
  obtains (raw) raw spec tok where "request = Some raw" "int (length raw) \<le> MaxTokensIssueBodyBytes" "id_probe D raw = []"
      "id_spec D raw = DValue spec" "Spec_Validate spec = None"
      "IssueAccessToken L nonce now1 keys (sp_Subject spec) \<lparr>ac_AccessToken = sp_AccessToken spec, ac_Headers = sp_Headers spec\<rparr>
         (seconds (sp_TTLSeconds spec)) (sp_Admin spec) = Inr tok"
      "tokensIssueHandler L nonce now now1 now2 txt D R keys svc request =
         writeJSON \<lparr>ir_Token = tok, ir_ExpiresAt = Some (now + seconds (sp_TTLSeconds spec))\<rparr>"
  | (form) raw body v tok creds where "request = Some raw" "int (length raw) \<le> MaxTokensIssueBodyBytes" "accepted_form D svc raw body v"
      "tv_Refresh v = None" "buildAccessCreds R v (tr_Fields body) = Inr creds"
      "IssueAccessToken L nonce now1 keys (tr_Subject body) creds defaultAccessTokenTTL False = Inr tok"
      "tokensIssueHandler L nonce now now1 now2 txt D R keys svc request =
         writeJSON \<lparr>ir_Token = tok, ir_ExpiresAt = Some (now2 + defaultAccessTokenTTL)\<rparr>"
proof -
  obtain raw where r: "readIssueBody request = Inr raw"
    using assms by (cases "readIssueBody request") (auto simp: tokensIssueHandler_def)
  show thesis
  proof (cases "isVariantRequest D raw")
    case False
    obtain spec where d: "decodeStrict (id_spec D raw) zero_spec = Inr spec"
      using assms r False by (cases "decodeStrict (id_spec D raw) zero_spec") (auto simp: tokensIssueHandler_def)
    obtain res where i: "Issue L nonce now now1 keys spec = Inr res"
      using assms r False d by (cases "Issue L nonce now now1 keys spec") (auto simp: tokensIssueHandler_def)
    have "spec \<noteq> zero_spec" using i by (auto simp: Issue_def Spec_Validate_def zero_spec_def)
    moreover obtain tok where v: "Spec_Validate spec = None" and t: "IssueAccessToken L nonce now1 keys (sp_Subject spec)
          \<lparr>ac_AccessToken = sp_AccessToken spec, ac_Headers = sp_Headers spec\<rparr> (seconds (sp_TTLSeconds spec)) (sp_Admin spec) = Inr tok"
      and "res = \<lparr>res_Token = tok, res_ExpiresAt = now + seconds (sp_TTLSeconds spec)\<rparr>"
      using i by (auto simp: Issue_def Let_def split: option.splits sum.splits)
    then have h: "tokensIssueHandler L nonce now now1 now2 txt D R keys svc request =
         writeJSON \<lparr>ir_Token = tok, ir_ExpiresAt = Some (now + seconds (sp_TTLSeconds spec))\<rparr>"
      using r False d i by (simp add: tokensIssueHandler_def)
    show thesis using raw [OF _ _ _ _ v t h] d r False calculation
      by (auto simp: decodeStrict_Inr readIssueBody_Inr isVariantRequest_def)
  next
    case True
    obtain body where d: "decodeIssueRequest txt D raw = Inr body"
      using assms r True by (cases "decodeIssueRequest txt D raw") (auto simp: tokensIssueHandler_def)
    obtain v where v: "resolveVariant svc body = Inr v"
      using assms r True d by (cases "resolveVariant svc body") (auto simp: tokensIssueHandler_def)
    have ref: "tv_Refresh v = None"
      using assms r True d v by (cases "tv_Refresh v") (auto simp: tokensIssueHandler_def)
    obtain creds where c: "buildAccessCreds R v (tr_Fields body) = Inr creds"
      using assms r True d v ref by (cases "buildAccessCreds R v (tr_Fields body)") (auto simp: tokensIssueHandler_def)
    obtain tok where t: "IssueAccessToken L nonce now1 keys (tr_Subject body) creds defaultAccessTokenTTL False = Inr tok"
      using assms r True d v ref c
      by (cases "IssueAccessToken L nonce now1 keys (tr_Subject body) creds defaultAccessTokenTTL False") (auto simp: tokensIssueHandler_def)
    have h: "tokensIssueHandler L nonce now now1 now2 txt D R keys svc request =
        writeJSON \<lparr>ir_Token = tok, ir_ExpiresAt = Some (now2 + defaultAccessTokenTTL)\<rparr>"
      using r True d v ref c t by (simp add: tokensIssueHandler_def)
    show thesis using form [OF _ _ accepted_formI [OF True d v] ref c t h] r by (auto simp: readIssueBody_Inr)
  qed
qed

text \<open>
  C16: the issue endpoint.  Whatever it answers with 200 carries a token that the server accepts from the
  issuing second on, minus the leeway, until the lifetime and the leeway have passed, and never otherwise.
  For a filled form it stands for the posted subject without the admin flag for one hour, its credentials
  are one rendered header for each field of the declared variant that was filled, in order, and none else,
  and every required field was filled; a variant that only refreshes gets no token.  For a raw
  specification it stands for exactly the specified subject, credentials, lifetime and admin flag.
\<close>

theorem issued_token_faithful:
  assumes "jwt_roundtrip L" "aead_roundtrip L" "json_creds_roundtrip L" "keys_ok L keys" "length nonce = NonceSize"
    and "hr_Status (tokensIssueHandler L nonce now now1 now2 txt D R keys svc request) = 200"
  shows "\<exists>raw tok ttl t e.
      request = Some raw \<and> length raw \<le> 65536
      \<and> hr_Body (tokensIssueHandler L nonce now now1 now2 txt D R keys svc request) = Value \<lparr>ir_Token = tok, ir_ExpiresAt = Some e\<rparr>
      \<and> (\<forall>c. VerifyAccessToken L c keys tok =
             (if whole_seconds now1 - 30 * second \<le> c \<and> c < whole_seconds (now1 + ttl) + 30 * second then Inr t else Inl EToken))
      \<and> (if id_probe D raw \<noteq> [] then
           \<exists>body v. accepted_form D svc raw body v \<and> tv_Refresh v = None \<and> ttl = 3600 * second \<and> e = now2 + ttl
             \<and> rendered_headers R (tr_Fields body) (tv_Fields v) \<noteq> []
             \<and> t = \<lparr>at_Subject = tr_Subject body, at_Creds = \<lparr>ac_AccessToken = [], ac_Headers = rendered_headers R (tr_Fields body) (tv_Fields v)\<rparr>,
                   at_Admin = False\<rparr>
         else
           \<exists>spec. id_spec D raw = DValue spec \<and> Spec_Validate spec = None \<and> ttl = seconds (sp_TTLSeconds spec) \<and> e = now + ttl
             \<and> t = \<lparr>at_Subject = sp_Subject spec, at_Creds = \<lparr>ac_AccessToken = sp_AccessToken spec, ac_Headers = sp_Headers spec\<rparr>,
                   at_Admin = sp_Admin spec\<rparr>)"
  using assms(6)
proof (cases rule: issue_ok_cases)
  case (raw raw spec tok)
  then show ?thesis using access_verify [OF assms(1-5) raw(6)]
    by (auto simp: writeJSON_def writeJSONStatus_def MaxTokensIssueBodyBytes_def intro!: exI [of _ tok] exI [of _ "seconds (sp_TTLSeconds spec)"])
next
  case (form raw body v tok creds)
  then show ?thesis using access_verify [OF assms(1-5) form(6)]
    by (auto simp: writeJSON_def writeJSONStatus_def MaxTokensIssueBodyBytes_def defaultAccessTokenTTL_def buildAccessCreds_Inr accepted_form_def
        intro!: exI [of _ tok] exI [of _ "3600 * second"])
qed

lemma refresh_verify_forever:
  assumes "jwt_roundtrip L" "aead_roundtrip L" "json_creds_roundtrip L" "keys_ok L keys" "length nonce = NonceSize"
    and "IssueRefreshToken L nonce t keys subject creds 0 admin = Inr tok" "rc_TokenURL creds \<noteq> []"
  shows "VerifyRefreshToken L c keys tok =
    (if whole_seconds t - 30 * second \<le> c
     then Inr \<lparr>rt_Subject = subject, rt_Creds = creds, rt_Admin = admin, rt_ExpiresAt = zeroTime\<rparr> else Inl EToken)"
proof -
  obtain pt where pt: "marshalRefresh L creds = Some pt"
    and s: "SignedString L (k_Signing keys) (issued_claims t subject typRefresh
        (nonce @ Seal L (k_EncryptRefresh keys) nonce pt) None admin) = Some tok"
    using assms(6) by (auto simp: IssueRefresh_Inr)
  have un: "unmarshalRefresh L pt = Some creds" using assms(3) pt by (simp add: json_creds_roundtrip_def)
  have exp: "tokenExpiry L tok = zeroTime"
    using assms(1) s unfolding jwt_roundtrip_def tokenExpiry_def by (simp add: issued_claims_def)
  from verify_signed [where unmarshal = "unmarshalRefresh L", OF assms(1,2,4,5) un s, of c typRefresh False] exp assms(7)
  show ?thesis by (auto simp: VerifyRefreshToken_def claims_valid_issued jwtLeeway_def)
qed

text \<open>
  The refresh endpoint answers a form with 200 only for a variant that declares a token URL; the refresh token
  then stands for the posted subject and secret at that declared URL (which a valid manifest does not leave empty), without the admin flag and without end.
\<close>

theorem issued_refresh_bound:
  assumes "jwt_roundtrip L" "aead_roundtrip L" "json_creds_roundtrip L" "keys_ok L keys" "length nonce = NonceSize"
    and "hr_Status (tokensIssueRefreshHandler L nonce now now1 txt D keys svc (Some raw)) = 200" "id_probe D raw \<noteq> []"
  shows "\<exists>body v rc tok. accepted_form D svc raw body v \<and> tv_Refresh v = Some rc
    \<and> hr_Body (tokensIssueRefreshHandler L nonce now now1 txt D keys svc (Some raw)) = Value \<lparr>ir_Token = tok, ir_ExpiresAt = None\<rparr>
    \<and> (\<forall>c. rg_TokenURL rc \<noteq> [] \<longrightarrow> VerifyRefreshToken L c keys tok =
         (if whole_seconds now1 - 30 * second \<le> c
          then Inr \<lparr>rt_Subject = tr_Subject body,
                    rt_Creds = \<lparr>rc_RefreshToken = field_value (tr_Fields body) ''refresh_token'', rc_TokenURL = rg_TokenURL rc, rc_Headers = []\<rparr>,
                    rt_Admin = False, rt_ExpiresAt = zeroTime\<rparr>
          else Inl EToken))"
proof -
  let ?H = "tokensIssueRefreshHandler L nonce now now1 txt D keys svc (Some raw)"
  have True: "isVariantRequest D raw" using assms(7) by (simp add: isVariantRequest_def)
  have r: "readIssueBody (Some raw) = Inr raw"
    using assms(6) by (cases "readIssueBody (Some raw)") (auto simp: tokensIssueRefreshHandler_def readIssueBody_Inr)
  obtain body where d: "decodeIssueRequest txt D raw = Inr body"
    using assms(6) r True by (cases "decodeIssueRequest txt D raw") (auto simp: tokensIssueRefreshHandler_def)
  obtain v where v: "resolveVariant svc body = Inr v"
    using assms(6) r True d by (cases "resolveVariant svc body") (auto simp: tokensIssueRefreshHandler_def)
  obtain rc where rc: "tv_Refresh v = Some rc"
    using assms(6) r True d v by (cases "tv_Refresh v") (auto simp: tokensIssueRefreshHandler_def)
  let ?creds = "\<lparr>rc_RefreshToken = field_value (tr_Fields body) ''refresh_token'', rc_TokenURL = rg_TokenURL rc, rc_Headers = []\<rparr>"
  have f: "field_value (tr_Fields body) ''refresh_token'' \<noteq> []"
    using assms(6) r True d v rc by (auto simp: tokensIssueRefreshHandler_def split: if_splits)
  obtain tok where t: "IssueRefreshToken L nonce now1 keys (tr_Subject body) ?creds 0 False = Inr tok"
    using assms(6) r True d v rc f
    by (cases "IssueRefreshToken L nonce now1 keys (tr_Subject body) ?creds 0 False") (auto simp: tokensIssueRefreshHandler_def)
  have "hr_Body ?H = Value \<lparr>ir_Token = tok, ir_ExpiresAt = None\<rparr>"
    using r True d v rc f t by (simp add: tokensIssueRefreshHandler_def writeJSON_def writeJSONStatus_def)
  moreover note accepted_formI [OF True d v] rc refresh_verify_forever [OF assms(1-5) t, simplified]
  ultimately show ?thesis by (intro exI [of _ body] exI [of _ v] exI [of _ rc] exI [of _ tok]) simp
qed

definition ex_field :: TokenField where
  "ex_field = \<lparr>tf_Name = ''pat'', tf_Label = ''Token'', tf_Kind = [], tf_Placeholder = [], tf_Help = [], tf_Required = True, tf_Header = [], tf_Template = []\<rparr>"

definition ex_registry :: ServiceRegistry where
  "ex_registry = services_New [\<lparr>ls_Service = \<lparr>bs_Slug = ''gh'', bs_Title = ''GH'', bs_Description = []\<rparr>,
     ls_TokenVariants = [\<lparr>tv_ID = ''pat'', tv_Title = [], tv_Description = [], tv_Refresh = None, tv_Fields = [ex_field]\<rparr>],
     ls_APIs = [], ls_BundleName = ''gh''\<rparr>]"

definition ex_form :: tokensIssueRequest where
  "ex_form = \<lparr>tr_Subject = ''alice'', tr_Service = ''gh'', tr_Variant = ''pat'', tr_Fields = [''pat'' \<mapsto> ''s3cret'']\<rparr>"

definition ex_decoders :: issue_decoders where
  "ex_decoders = \<lparr>id_probe = (\<lambda>_. ''gh''), id_spec = (\<lambda>_. DEnd), id_refresh = (\<lambda>_. DEnd), id_request = (\<lambda>_. DValue ex_form)\<rparr>"

definition ex_form_creds :: AccessCreds where
  "ex_form_creds = \<lparr>ac_AccessToken = [], ac_Headers = [\<lparr>hd_Name = ''Authorization'', hd_Value = ''Bearer s3cret''\<rparr>]\<rparr>"

definition ex_LF :: crypto where
  "ex_LF = ex_crypto [issued_claims 0 ''alice'' typAccess (ex_nonce @ k_EncryptAccess ex_keys) (Some (3600 * second)) False] [ex_form_creds] []"

theorem issued_token_faithful_witness:
  "let h = tokensIssueHandler ex_LF ex_nonce 0 0 5 (\<lambda>_. []) ex_decoders (\<lambda>t v. if t = ''Bearer {{.}}'' then Some (''Bearer '' @ v) else None)
             ex_keys (Some ex_registry) (Some ''{}'')
   in hr_Status h = 200 \<and> hr_Body h = Value \<lparr>ir_Token = [], ir_ExpiresAt = Some (5 + 3600 * second)\<rparr>
      \<and> VerifyAccessToken ex_LF second ex_keys [] = Inr \<lparr>at_Subject = ''alice'', at_Creds = ex_form_creds, at_Admin = False\<rparr>
      \<and> VerifyAccessToken ex_LF (3630 * second) ex_keys [] = Inl EToken"
proof -
  let ?h = "tokensIssueHandler ex_LF ex_nonce 0 0 5 (\<lambda>_. []) ex_decoders (\<lambda>t v. if t = ''Bearer {{.}}'' then Some (''Bearer '' @ v) else None)
             ex_keys (Some ex_registry) (Some ''{}'')"
  have ok: "hr_Status ?h = 200" "hr_Body ?h = Value \<lparr>ir_Token = [], ir_ExpiresAt = Some (5 + 3600 * second)\<rparr>" by code_simp+
  have len: "length ex_nonce = NonceSize" by (simp add: ex_nonce_def NonceSize_def)
  have laws: "jwt_roundtrip ex_LF" "aead_roundtrip ex_LF" "json_creds_roundtrip ex_LF" "keys_ok ex_LF ex_keys"
    unfolding ex_LF_def by (fact ex_crypto_laws)+
  have v: "services_Variant ex_registry ''gh'' ''pat'' = Inr \<lparr>tv_ID = ''pat'', tv_Title = [], tv_Description = [], tv_Refresh = None, tv_Fields = [ex_field]\<rparr>"
    by code_simp
  have hs: "rendered_headers (\<lambda>t v. if t = ''Bearer {{.}}'' then Some (''Bearer '' @ v) else None) (tr_Fields ex_form) [ex_field] = ac_Headers ex_form_creds"
    by code_simp
  have t: "whole_seconds 0 - 30 * second \<le> second" "second < whole_seconds (3600 * second) + 30 * second"
    "\<not> 3630 * second < whole_seconds (3600 * second) + 30 * second"
    by (simp_all add: whole_seconds_def second_def)
  from issued_token_faithful [OF laws len ok(1)] show ?thesis
    using ok v hs t by (auto simp: ex_decoders_def accepted_form_def ex_form_def ex_form_creds_def)
qed

end
