(* ===== verification/Mcp.thy ===== *)
theory Mcp
  imports AdminViews
begin

text \<open>
  The JSON-RPC endpoint for agents, \<^verbatim>\<open>internal/server/admin/mcp\<close>: dispatch, tools, resources, prompts.  Its state is the
  proposal service over the live policy service, whose runtime is the one the server routes by.  JSON decoding
  and encoding are arguments, as are the texts of errors, the id of a new proposal and the clock; titles and
  descriptions are left out.
\<close>

section \<open>Definitions\<close>

subsection \<open>Wire types\<close>

definition MaxBodyBytes :: int where "MaxBodyBytes = 2 ^ 20"

definition codeParseError :: int where "codeParseError = - 32700"
definition codeInvalidRequest :: int where "codeInvalidRequest = - 32600"
definition codeMethodNotFound :: int where "codeMethodNotFound = - 32601"
definition codeInvalidParams :: int where "codeInvalidParams = - 32602"
definition codeInternalError :: int where "codeInternalError = - 32603"

record rpc_request =
  rq_JSONRPC :: string
  rq_ID :: string
  rq_Method :: string
  rq_Params :: string

record rpc_error =
  er_Code :: int
  er_Message :: string

definition invalidParams :: "string \<Rightarrow> rpc_error" where
  "invalidParams m = \<lparr>er_Code = codeInvalidParams, er_Message = m\<rparr>"

definition internalError :: "string \<Rightarrow> rpc_error" where
  "internalError m = \<lparr>er_Code = codeInternalError, er_Message = m\<rparr>"

record apiSummary =
  as_API :: API
  as_Bundle :: string
  as_ReadmeURI :: string

record proposePolicyResult =
  pr_OK :: bool
  pr_Applied :: bool
  pr_ProposalID :: string
  pr_Policy :: "Policy option"
  pr_Message :: string
  pr_Error :: string

record redactedTrafficEventResult =
  rt_ID :: EventID
  rt_Timestamp :: string
  rt_EvSubject :: string
  rt_Method :: string
  rt_URL :: string
  rt_API :: string
  rt_Action :: string
  rt_Decision :: string
  rt_Policy :: string
  rt_UpstreamStatus :: int
  rt_LatencyMS :: int
  rt_Error :: string

datatype tool_result =
    ToolAPIs "apiSummary list"
  | ToolPolicies "Policy list"
  | ToolPolicy Policy
  | ToolDryRun dryRunResponse
  | ToolPropose proposePolicyResult
  | ToolRows "Summary list"
  | ToolEvent Event
  | ToolRedacted redactedTrafficEventResult

record callToolResult =
  ct_Text :: string
  ct_IsError :: bool

record toolDescriptor =
  td_Name :: string
  td_InputSchema :: json

record resourceDescriptor =
  rs_URI :: string
  rs_Name :: string
  rs_MIMEType :: string

record resourceContent =
  rn_URI :: string
  rn_MIMEType :: string
  rn_Text :: string

record initializeResult =
  iz_ProtocolVersion :: string
  iz_Capabilities :: "string list"
  iz_ServerName :: string
  iz_ServerVersion :: string

datatype rpc_result =
    Initialized initializeResult
  | ToolsList "toolDescriptor list"
  | ToolCalled callToolResult
  | ResourcesList "resourceDescriptor list"
  | ResourcesRead resourceContent
  | PromptsList
  | EmptyObject

record rpc_response =
  rp_ID :: string
  rp_Result :: "rpc_result option"
  rp_Error :: "rpc_error option"

record listTrafficArgs =
  ta_API :: string
  ta_Action :: string
  ta_Method :: string
  ta_Decision :: string
  ta_PathPrefix :: string
  ta_Limit :: int

text \<open>The JSON decoders (\<open>Inl\<close> the text of the error) and encoders the package calls.\<close>

record mcp_json =
  mj_request :: "string \<Rightarrow> string + rpc_request"
  mj_initialize :: "string \<Rightarrow> string + unit"
  mj_call :: "string \<Rightarrow> string + (string \<times> string)"
  mj_uri :: "string \<Rightarrow> string + string"
  mj_prompt :: "string \<Rightarrow> string + string"
  mj_api :: "string \<Rightarrow> string + string"
  mj_key :: "string \<Rightarrow> string + (string \<times> string)"
  mj_policy :: "string \<Rightarrow> string + Policy"
  mj_traffic :: "string \<Rightarrow> string + listTrafficArgs"
  mj_id :: "string \<Rightarrow> string + string"
  mj_encode :: "tool_result \<Rightarrow> string option"
  mj_apis :: "API list \<Rightarrow> string option"
  mj_timestamp :: "int \<Rightarrow> string"

subsection \<open>Dependencies\<close>

record Docs =
  dc_AgentGuide :: string
  dc_PolicyAuthoring :: string
  dc_APIAuthoring :: string

record Deps =
  dm_PolicyService :: bool
  dm_ProposalService :: bool
  dm_TrafficStore :: "TrafficReader option"
  dm_BundleReadmes :: "(string \<times> string) list"
  dm_APIBundle :: "string \<rightharpoonup> string"
  dm_Docs :: Docs

text \<open>What the services behind the endpoint are called with.\<close>

record ('s, 'q) mcp_env =
  me_json :: mcp_json
  me_compile :: compiler
  me_ops :: "'s Store"
  me_props :: "'q PropStore"
  me_policy_text :: "perr \<Rightarrow> string"
  me_proposal_text :: "prop_err \<Rightarrow> string"
  me_traffic_text :: "traffic_error \<Rightarrow> string"
  me_fresh :: string
  me_now :: int

type_synonym ('s, 'u, 'q) mcp_state = "('q, ('s, 'u) Service) PropService"

definition requireService :: "bool \<Rightarrow> string \<Rightarrow> rpc_error option" where
  "requireService present what =
     (if present then None
      else Some \<lparr>er_Code = codeMethodNotFound, er_Message = ''this deployment has no '' @ what @ '' configured''\<rparr>)"

subsection \<open>Tools: APIs\<close>

definition BundleReadmeURI :: "string \<Rightarrow> string" where
  "BundleReadmeURI bundle = ''bouncer://bundles/'' @ bundle @ ''/readme''"

definition api_row :: "Deps \<Rightarrow> API \<Rightarrow> apiSummary" where
  "api_row deps s =
     (case dm_APIBundle deps (api_Name s) of
        None \<Rightarrow> \<lparr>as_API = s, as_Bundle = [], as_ReadmeURI = []\<rparr>
      | Some bundle \<Rightarrow>
          \<lparr>as_API = s, as_Bundle = bundle,
           as_ReadmeURI = (if map_of (dm_BundleReadmes deps) bundle \<noteq> None then BundleReadmeURI bundle else [])\<rparr>)"

definition runListAPIs :: "Deps \<Rightarrow> ('s, 'u, 'q) mcp_state \<Rightarrow> rpc_error + tool_result" where
  "runListAPIs deps s = Inr (ToolAPIs (map (api_row deps) (APISpecs (sv_rt (sp_val s)))))"

subsection \<open>Tools: policies\<close>

definition mapPolicyError :: "(perr \<Rightarrow> string) \<Rightarrow> perr \<Rightarrow> rpc_error" where
  "mapPolicyError text e =
     (if is_err ErrNotFound e then \<lparr>er_Code = codeInvalidParams, er_Message = ''policy not found''\<rparr>
      else if is_err ErrInvalid e \<or> is_err ErrAPIPath e then \<lparr>er_Code = codeInvalidParams, er_Message = text e\<rparr>
      else if is_err ErrConflict e then \<lparr>er_Code = codeInvalidParams, er_Message = text e\<rparr>
      else if is_err ErrReadOnly e then \<lparr>er_Code = codeInvalidRequest, er_Message = text e\<rparr>
      else internalError (text e))"

definition runListPolicies :: "('s, 'q) mcp_env \<Rightarrow> Deps \<Rightarrow> string \<Rightarrow> ('s, 'u, 'q) mcp_state \<Rightarrow> rpc_error + tool_result" where
  "runListPolicies env deps raw s =
     (case requireService (dm_PolicyService deps) ''policy service'' of
        Some e \<Rightarrow> Inl e
      | None \<Rightarrow>
          (case mj_api (me_json env) raw of
             Inl e \<Rightarrow> Inl (invalidParams (''decode: '' @ e))
           | Inr api \<Rightarrow>
               (let all = Service_List (sp_val s)
                in Inr (ToolPolicies (if api = [] then all else filter (\<lambda>p. pol_API p = api) all)))))"

definition runGetPolicy :: "('s, 'q) mcp_env \<Rightarrow> Deps \<Rightarrow> string \<Rightarrow> ('s, 'u, 'q) mcp_state \<Rightarrow> rpc_error + tool_result" where
  "runGetPolicy env deps raw s =
     (case requireService (dm_PolicyService deps) ''policy service'' of
        Some e \<Rightarrow> Inl e
      | None \<Rightarrow>
          (case mj_key (me_json env) raw of
             Inl e \<Rightarrow> Inl (invalidParams (''decode: '' @ e))
           | Inr (api, name) \<Rightarrow>
               (if api = [] \<or> name = [] then Inl (invalidParams ''api and name are required'')
                else (case Service_Get api name (sp_val s) of
                        Inl e \<Rightarrow> Inl (mapPolicyError (me_policy_text env) e)
                      | Inr p \<Rightarrow> Inr (ToolPolicy p)))))"

definition runDryRunPolicy :: "('s, 'q) mcp_env \<Rightarrow> Deps \<Rightarrow> string \<Rightarrow> ('s, 'u, 'q) mcp_state \<Rightarrow> rpc_error + tool_result" where
  "runDryRunPolicy env deps raw s =
     (case requireService (dm_PolicyService deps) ''policy service'' of
        Some e \<Rightarrow> Inl e
      | None \<Rightarrow>
          (case mj_policy (me_json env) raw of
             Inl e \<Rightarrow> Inl (invalidParams (''decode policy: '' @ e))
           | Inr p \<Rightarrow>
               (case Validate (me_compile env) p (sv_rt (sp_val s)) of
                  Some e \<Rightarrow> Inr (ToolDryRun \<lparr>dn_OK = False, dn_Error = me_policy_text env e\<rparr>)
                | None \<Rightarrow> Inr (ToolDryRun \<lparr>dn_OK = True, dn_Error = []\<rparr>))))"

definition propose_result :: "bool \<Rightarrow> string \<Rightarrow> Policy \<Rightarrow> string \<Rightarrow> tool_result" where
  "propose_result applied i p m =
     ToolPropose \<lparr>pr_OK = True, pr_Applied = applied, pr_ProposalID = i, pr_Policy = Some p, pr_Message = m, pr_Error = []\<rparr>"

definition agent_draft :: "Caller \<Rightarrow> Policy \<Rightarrow> CreateInput" where
  "agent_draft caller p =
     \<lparr>ci_Kind = [], ci_Policy = p, ci_Origin = \<lparr>og_Kind = ''agent'', og_Agent = ca_Subject caller, og_RequestID = []\<rparr>,
      ci_Author = ca_Subject caller, ci_Rationale = []\<rparr>"

definition runProposePolicy ::
  "('s, 'q) mcp_env \<Rightarrow> Deps \<Rightarrow> Caller \<Rightarrow> string \<Rightarrow> ('s, 'u, 'q) mcp_state \<Rightarrow> (rpc_error + tool_result) \<times> ('s, 'u, 'q) mcp_state" where
  "runProposePolicy env deps caller raw s =
     (case requireService (dm_PolicyService deps) ''policy service'' of
        Some e \<Rightarrow> (Inl e, s)
      | None \<Rightarrow>
          (case mj_policy (me_json env) raw of
             Inl e \<Rightarrow> (Inl (invalidParams (''decode policy: '' @ e)), s)
           | Inr p \<Rightarrow>
               (case Validate (me_compile env) p (sv_rt (sp_val s)) of
                  Some e \<Rightarrow> (Inr (ToolPropose \<lparr>pr_OK = False, pr_Applied = False, pr_ProposalID = [], pr_Policy = None, pr_Message = [],
                                           pr_Error = me_policy_text env e\<rparr>), s)
                | None \<Rightarrow>
                    (case Service_Get (pol_API p) (pol_Name p) (sp_val s) of
                       Inr _ \<Rightarrow> (Inr (propose_result False [] p
                          ''Policy is valid but (api, name) already exists. Pick a different name or ask the operator to replace the existing policy.''), s)
                     | Inl _ \<Rightarrow>
                         (if \<not> IsAdmin caller then
                            (if \<not> dm_ProposalService deps then
                               (Inr (propose_result False [] p
                                  ''Policy compiled cleanly. Surface this draft to the user; an operator with admin role must apply it.''), s)
                             else (case Prop_Create (me_props env) (policyValidator (me_compile env) (me_ops env)) (me_fresh env) (me_now env)
                                          (agent_draft caller p) s of
                                     (Inl e, s') \<Rightarrow> (Inl (internalError (me_proposal_text env e)), s')
                                   | (Inr prop, s') \<Rightarrow>
                                       (Inr (propose_result False (pp_ID prop) p
                                          (''Draft enqueued for review at /_admin/proposals (id '' @ pp_ID prop @ '').'')), s')))
                          else (case Service_Create (me_compile env) (me_ops env) p (sp_val s) of
                                  (Some e, sv) \<Rightarrow> (Inl (mapPolicyError (me_policy_text env) e), s\<lparr>sp_val := sv\<rparr>)
                                | (None, sv) \<Rightarrow>
                                    (Inr (propose_result True [] p ''Policy created and applied to the live runtime.''), s\<lparr>sp_val := sv\<rparr>)))))))"

subsection \<open>Tools: traffic\<close>

definition mapTrafficError :: "(traffic_error \<Rightarrow> string) \<Rightarrow> traffic_error \<Rightarrow> rpc_error" where
  "mapTrafficError text e =
     (if e = TErrNotFound then \<lparr>er_Code = codeInvalidParams, er_Message = ''traffic event not found''\<rparr> else internalError (text e))"

definition redactedTrafficEvent :: "(int \<Rightarrow> string) \<Rightarrow> Event \<Rightarrow> redactedTrafficEventResult" where
  "redactedTrafficEvent fmt ev =
     \<lparr>rt_ID = ev_ID ev, rt_Timestamp = fmt (ev_Timestamp ev), rt_EvSubject = ev_Subject ev, rt_Method = ev_Method ev, rt_URL = ev_URL ev,
      rt_API = ev_API ev, rt_Action = ev_Action ev, rt_Decision = ev_Decision ev, rt_Policy = ev_Policy ev,
      rt_UpstreamStatus = ev_UpstreamStatus ev, rt_LatencyMS = ev_LatencyMS ev, rt_Error = ev_Error ev\<rparr>"

definition runListTraffic :: "('s, 'q) mcp_env \<Rightarrow> Deps \<Rightarrow> string \<Rightarrow> rpc_error + tool_result" where
  "runListTraffic env deps raw =
     (case dm_TrafficStore deps of
        None \<Rightarrow> Inl (the (requireService False ''traffic store''))
      | Some T \<Rightarrow>
          (case mj_traffic (me_json env) raw of
             Inl e \<Rightarrow> Inl (invalidParams (''decode: '' @ e))
           | Inr a \<Rightarrow>
               (case st_List T (TrafficListOpts.make (ta_API a) [] (ta_Action a) (ta_Method a) (ta_Decision a) (ta_PathPrefix a)
                                  zeroTime zeroTime None (ta_Limit a) CEmpty) of
                  Inl e \<Rightarrow> Inl (internalError (''list traffic: '' @ me_traffic_text env e))
                | Inr (rows, _) \<Rightarrow> Inr (ToolRows rows))))"

definition runGetTrafficEvent :: "('s, 'q) mcp_env \<Rightarrow> Deps \<Rightarrow> Caller \<Rightarrow> string \<Rightarrow> rpc_error + tool_result" where
  "runGetTrafficEvent env deps caller raw =
     (case dm_TrafficStore deps of
        None \<Rightarrow> Inl (the (requireService False ''traffic store''))
      | Some T \<Rightarrow>
          (case mj_id (me_json env) raw of
             Inl e \<Rightarrow> Inl (invalidParams (''decode: '' @ e))
           | Inr i \<Rightarrow>
               (if i = [] then Inl (invalidParams ''id is required'')
                else (case st_Get T i of
                        Inl e \<Rightarrow> Inl (mapTrafficError (me_traffic_text env) e)
                      | Inr ev \<Rightarrow>
                          (if IsAdmin caller then Inr (ToolEvent ev)
                           else Inr (ToolRedacted (redactedTrafficEvent (mj_timestamp (me_json env)) ev)))))))"

subsection \<open>The registry of tools\<close>

record 's tool =
  to_Name :: string
  to_AdminOnly :: bool
  to_InputSchema :: json
  to_Run :: "Caller \<Rightarrow> string \<Rightarrow> 's \<Rightarrow> (rpc_error + tool_result) \<times> 's"

definition schemaObject :: "(string \<times> json) list \<Rightarrow> string list \<Rightarrow> json" where
  "schemaObject props required =
     JObj ([(''type'', JStr ''object'')] @ (if props \<noteq> [] then [(''properties'', JObj props)] else [])
           @ (if required \<noteq> [] then [(''required'', JArr (map JStr required))] else []))"

definition typed :: "string \<Rightarrow> string \<Rightarrow> string \<times> json" where
  "typed n t = (n, JObj [(''type'', JStr t)])"

definition enum_prop :: "string \<Rightarrow> string list \<Rightarrow> string \<times> json" where
  "enum_prop n vs = (n, JObj [(''type'', JStr ''string''), (''enum'', JArr (map JStr vs))])"

definition policyInputSchema :: json where
  "policyInputSchema =
     schemaObject (map (\<lambda>n. typed n ''string'') [''api'', ''name'', ''description'', ''principal'', ''action'', ''condition'']
                   @ [enum_prop ''result'' [''permit'', ''deny'']])
       [''api'', ''name'', ''action'', ''condition'', ''result'']"

definition reading :: "(Caller \<Rightarrow> string \<Rightarrow> 's \<Rightarrow> rpc_error + tool_result) \<Rightarrow> Caller \<Rightarrow> string \<Rightarrow> 's \<Rightarrow> (rpc_error + tool_result) \<times> 's" where
  "reading f c raw s = (f c raw s, s)"

definition apisTools :: "Deps \<Rightarrow> ('s, 'u, 'q) mcp_state tool list" where
  "apisTools deps =
     [\<lparr>to_Name = ''list_apis'', to_AdminOnly = False, to_InputSchema = schemaObject [] [], to_Run = reading (\<lambda>_ _. runListAPIs deps)\<rparr>]"

definition policiesTools :: "('s, 'q) mcp_env \<Rightarrow> Deps \<Rightarrow> ('s, 'u, 'q) mcp_state tool list" where
  "policiesTools env deps =
     [\<lparr>to_Name = ''list_policies'', to_AdminOnly = False, to_InputSchema = schemaObject [typed ''api'' ''string''] [],
       to_Run = reading (\<lambda>_. runListPolicies env deps)\<rparr>,
      \<lparr>to_Name = ''get_policy'', to_AdminOnly = False,
       to_InputSchema = schemaObject [typed ''api'' ''string'', typed ''name'' ''string''] [''api'', ''name''],
       to_Run = reading (\<lambda>_. runGetPolicy env deps)\<rparr>,
      \<lparr>to_Name = ''dry_run_policy'', to_AdminOnly = False, to_InputSchema = policyInputSchema, to_Run = reading (\<lambda>_. runDryRunPolicy env deps)\<rparr>,
      \<lparr>to_Name = ''propose_policy'', to_AdminOnly = False, to_InputSchema = policyInputSchema, to_Run = runProposePolicy env deps\<rparr>]"

definition trafficTools :: "('s, 'q) mcp_env \<Rightarrow> Deps \<Rightarrow> ('s, 'u, 'q) mcp_state tool list" where
  "trafficTools env deps =
     [\<lparr>to_Name = ''list_traffic'', to_AdminOnly = False,
       to_InputSchema = schemaObject [typed ''api'' ''string'', typed ''action'' ''string'', typed ''method'' ''string'',
          enum_prop ''decision'' [''permit'', ''deny'', ''no_match'', ''error''], typed ''path_prefix'' ''string'',
          (''limit'', JObj [(''type'', JStr ''integer''), (''minimum'', JNum ''1'')])] [],
       to_Run = reading (\<lambda>_ raw _. runListTraffic env deps raw)\<rparr>,
      \<lparr>to_Name = ''get_traffic_event'', to_AdminOnly = False, to_InputSchema = schemaObject [typed ''id'' ''string''] [''id''],
       to_Run = reading (\<lambda>c raw _. runGetTrafficEvent env deps c raw)\<rparr>]"

definition allTools :: "('s, 'q) mcp_env \<Rightarrow> Deps \<Rightarrow> ('s, 'u, 'q) mcp_state tool list" where
  "allTools env deps = apisTools deps @ policiesTools env deps @ trafficTools env deps"

subsection \<open>Methods\<close>

definition ProtocolVersion :: string where "ProtocolVersion = ''2025-06-18''"

definition handleInitialize :: "mcp_json \<Rightarrow> string \<Rightarrow> rpc_error + rpc_result" where
  "handleInitialize J params =
     (case (if params \<noteq> [] then mj_initialize J params else Inr ()) of
        Inl e \<Rightarrow> Inl (invalidParams (''could not decode params: '' @ e))
      | Inr _ \<Rightarrow>
          Inr (Initialized \<lparr>iz_ProtocolVersion = ProtocolVersion, iz_Capabilities = [''tools'', ''resources'', ''prompts''],
                 iz_ServerName = ''bouncer'', iz_ServerVersion = ''0.1.0''\<rparr>))"

definition handleToolsList :: "'s tool list \<Rightarrow> Caller \<Rightarrow> rpc_result" where
  "handleToolsList ts caller =
     ToolsList (map (\<lambda>t. \<lparr>td_Name = to_Name t, td_InputSchema = to_InputSchema t\<rparr>)
       (filter (\<lambda>t. \<not> (to_AdminOnly t \<and> \<not> IsAdmin caller)) ts))"

definition handleToolsCall :: "mcp_json \<Rightarrow> 's tool list \<Rightarrow> Caller \<Rightarrow> string \<Rightarrow> 's \<Rightarrow> (rpc_error + rpc_result) \<times> 's" where
  "handleToolsCall J ts caller params s =
     (case mj_call J params of
        Inl e \<Rightarrow> (Inl (invalidParams (''could not decode params: '' @ e)), s)
      | Inr (name, arguments) \<Rightarrow>
          (if name = [] then (Inl (invalidParams (quoted ''name'' @ '' is required'')), s)
           else (case find_by to_Name name ts of
                   None \<Rightarrow> (Inl \<lparr>er_Code = codeMethodNotFound, er_Message = ''tool not found: '' @ name\<rparr>, s)
                 | Some t \<Rightarrow>
                     (if to_AdminOnly t \<and> ca_Role caller \<noteq> RoleAdmin
                      then (Inl \<lparr>er_Code = codeInvalidRequest, er_Message = ''tool '' @ name @ '' requires the admin role''\<rparr>, s)
                      else (case to_Run t caller (if arguments = [] then ''{}'' else arguments) s of
                              (Inl e, s') \<Rightarrow> (Inr (ToolCalled \<lparr>ct_Text = er_Message e, ct_IsError = True\<rparr>), s')
                            | (Inr r, s') \<Rightarrow>
                                (case mj_encode J r of
                                   None \<Rightarrow> (Inl (internalError ''could not encode tool result''), s')
                                 | Some text \<Rightarrow> (Inr (ToolCalled \<lparr>ct_Text = text, ct_IsError = False\<rparr>), s')))))))"

definition URIDocsAgent :: string where "URIDocsAgent = ''bouncer://docs/agent''"
definition URIDocsPolicies :: string where "URIDocsPolicies = ''bouncer://docs/policies''"
definition URIDocsAPIs :: string where "URIDocsAPIs = ''bouncer://docs/apis''"
definition URIAPIs :: string where "URIAPIs = ''bouncer://apis''"

definition handleResourcesList :: "Deps \<Rightarrow> rpc_result" where
  "handleResourcesList deps =
     ResourcesList
       ([\<lparr>rs_URI = URIDocsAgent, rs_Name = ''agent_guide'', rs_MIMEType = ''text/markdown''\<rparr>,
         \<lparr>rs_URI = URIDocsPolicies, rs_Name = ''policy_authoring'', rs_MIMEType = ''text/markdown''\<rparr>,
         \<lparr>rs_URI = URIDocsAPIs, rs_Name = ''api_authoring'', rs_MIMEType = ''text/markdown''\<rparr>,
         \<lparr>rs_URI = URIAPIs, rs_Name = ''registered_apis'', rs_MIMEType = ''application/json''\<rparr>]
        @ map (\<lambda>n. \<lparr>rs_URI = BundleReadmeURI n, rs_Name = ''bundle_readme_'' @ n, rs_MIMEType = ''text/markdown''\<rparr>)
            (sort (map fst (dm_BundleReadmes deps))))"

definition bundleFromReadmeURI :: "string \<Rightarrow> string option" where
  "bundleFromReadmeURI uri =
     (case CutPrefix uri ''bouncer://bundles/'' of
        None \<Rightarrow> None
      | Some rest \<Rightarrow>
          (case CutSuffix rest ''/readme'' of
             None \<Rightarrow> None
           | Some name \<Rightarrow> if name = [] \<or> CHR ''/'' \<in> set name then None else Some name))"

definition mdResource :: "string \<Rightarrow> string \<Rightarrow> rpc_result" where
  "mdResource uri body = ResourcesRead \<lparr>rn_URI = uri, rn_MIMEType = ''text/markdown'', rn_Text = body\<rparr>"

definition handleResourcesRead :: "mcp_json \<Rightarrow> Deps \<Rightarrow> string \<Rightarrow> 'u Runtime \<Rightarrow> rpc_error + rpc_result" where
  "handleResourcesRead J deps params rt =
     (case mj_uri J params of
        Inl e \<Rightarrow> Inl (invalidParams (''could not decode params: '' @ e))
      | Inr uri \<Rightarrow>
          (if uri = [] then Inl (invalidParams (quoted ''uri'' @ '' is required''))
           else if uri = URIDocsAgent then Inr (mdResource uri (dc_AgentGuide (dm_Docs deps)))
           else if uri = URIDocsPolicies then Inr (mdResource uri (dc_PolicyAuthoring (dm_Docs deps)))
           else if uri = URIDocsAPIs then Inr (mdResource uri (dc_APIAuthoring (dm_Docs deps)))
           else if uri = URIAPIs then
             (case mj_apis J (APISpecs rt) of
                None \<Rightarrow> Inl (internalError ''marshal apis'')
              | Some body \<Rightarrow> Inr (ResourcesRead \<lparr>rn_URI = uri, rn_MIMEType = ''application/json'', rn_Text = body\<rparr>))
           else (case bundleFromReadmeURI uri of
                   Some name \<Rightarrow>
                     (case map_of (dm_BundleReadmes deps) name of
                        None \<Rightarrow> Inl \<lparr>er_Code = codeInvalidParams, er_Message = ''unknown bundle: '' @ name\<rparr>
                      | Some body \<Rightarrow>
                          if body = [] then Inl \<lparr>er_Code = codeInvalidParams, er_Message = ''unknown bundle: '' @ name\<rparr>
                          else Inr (mdResource uri body))
                 | None \<Rightarrow> Inl \<lparr>er_Code = codeInvalidParams, er_Message = ''unknown resource uri: '' @ uri\<rparr>)))"

definition handlePromptsGet :: "mcp_json \<Rightarrow> string \<Rightarrow> rpc_error + rpc_result" where
  "handlePromptsGet J params =
     (case mj_prompt J params of
        Inl e \<Rightarrow> Inl (invalidParams (''could not decode params: '' @ e))
      | Inr name \<Rightarrow> Inl \<lparr>er_Code = codeInvalidParams, er_Message = ''unknown prompt: '' @ name\<rparr>)"

text \<open>The method table; \<open>None\<close> for a method that is not registered.\<close>

definition call_method ::
  "('s, 'q) mcp_env \<Rightarrow> Deps \<Rightarrow> Caller \<Rightarrow> string \<Rightarrow> string \<Rightarrow> ('s, 'u, 'q) mcp_state
     \<Rightarrow> ((rpc_error + rpc_result) \<times> ('s, 'u, 'q) mcp_state) option" where
  "call_method env deps caller m params s =
     (if m = ''initialize'' then Some (handleInitialize (me_json env) params, s)
      else if m = ''tools/list'' then
        Some (Inr (handleToolsList (allTools env deps :: ('s, 'u, 'q) mcp_state tool list) caller), s)
      else if m = ''tools/call'' then Some (handleToolsCall (me_json env) (allTools env deps) caller params s)
      else if m = ''resources/list'' then Some (Inr (handleResourcesList deps), s)
      else if m = ''resources/read'' then Some (handleResourcesRead (me_json env) deps params (sv_rt (sp_val s)), s)
      else if m = ''prompts/list'' then Some (Inr PromptsList, s)
      else if m = ''prompts/get'' then Some (handlePromptsGet (me_json env) params, s)
      else if m = ''notifications/initialized'' then Some (Inr EmptyObject, s)
      else if m = ''ping'' then Some (Inr EmptyObject, s)
      else None)"

definition makeError :: "string \<Rightarrow> int \<Rightarrow> string \<Rightarrow> rpc_response" where
  "makeError i code message = \<lparr>rp_ID = i, rp_Result = None, rp_Error = Some \<lparr>er_Code = code, er_Message = message\<rparr>\<rparr>"

text \<open>A body that cannot be read to its end is \<open>None\<close>.\<close>

definition mcp_ServeHTTP ::
  "('s, 'q) mcp_env \<Rightarrow> Deps \<Rightarrow> Caller \<Rightarrow> string option \<Rightarrow> ('s, 'u, 'q) mcp_state
     \<Rightarrow> rpc_response http_response \<times> ('s, 'u, 'q) mcp_state" where
  "mcp_ServeHTTP env deps caller request s =
     (case request of
        None \<Rightarrow> (writeJSON (makeError [] codeInvalidRequest ''could not read body''), s)
      | Some body \<Rightarrow>
          (if int (length body) > MaxBodyBytes then (writeJSON (makeError [] codeInvalidRequest ''request body too large''), s)
           else (case mj_request (me_json env) body of
                   Inl e \<Rightarrow> (writeJSON (makeError [] codeParseError (''invalid JSON: '' @ e)), s)
                 | Inr req \<Rightarrow>
                     (if rq_JSONRPC req \<noteq> ''2.0'' then (writeJSON (makeError (rq_ID req) codeInvalidRequest (quoted ''jsonrpc'' @ '' must be '' @ quoted ''2.0'')), s)
                      else if rq_Method req = [] then (writeJSON (makeError (rq_ID req) codeInvalidRequest (quoted ''method'' @ '' is required'')), s)
                      else (case call_method env deps caller (rq_Method req) (rq_Params req) s of
                              None \<Rightarrow> (writeJSON (makeError (rq_ID req) codeMethodNotFound (''method not found: '' @ rq_Method req)), s)
                            | Some (Inl e, s') \<Rightarrow> (writeJSON (makeError (rq_ID req) (er_Code e) (er_Message e)), s')
                            | Some (Inr result, s') \<Rightarrow>
                                (if rq_ID req = [] then (writeHeader 204, s')
                                 else (writeJSON \<lparr>rp_ID = rq_ID req, rp_Result = Some result, rp_Error = None\<rparr>, s')))))))"

subsection \<open>Discovery probes\<close>

definition handlerNotOAuth :: "string http_response" where
  "handlerNotOAuth = \<lparr>hr_Status = 404, hr_Location = [], hr_Cookies = [], hr_Body = Value ''pre_issued_bearer''\<rparr>"

subsection \<open>Specification\<close>

text \<open>Two traffic stores that look the same without the parts that only the admin may read.\<close>

definition same_redacted :: "(int \<Rightarrow> string) \<Rightarrow> TrafficReader \<Rightarrow> TrafficReader \<Rightarrow> bool" where
  "same_redacted fmt T T' \<longleftrightarrow> st_List T = st_List T'
     \<and> (\<forall>i. map_sum id (redactedTrafficEvent fmt) (st_Get T i) = map_sum id (redactedTrafficEvent fmt) (st_Get T' i))"

text \<open>One draft of the caller put into the store of proposals.\<close>

definition drafted :: "('s, 'q) mcp_env \<Rightarrow> Caller \<Rightarrow> ('s, 'u, 'q) mcp_state \<Rightarrow> ('s, 'u, 'q) mcp_state \<Rightarrow> bool" where
  "drafted env caller s s' \<longleftrightarrow>
     (\<exists>p e st. ps_Put (me_props env) p (sp_store s) = (e, st) \<and> s' = s\<lparr>sp_store := st\<rparr>
        \<and> pp_ID p = me_fresh env \<and> pp_Status p = StatusProposed \<and> pp_Kind p = KindApply \<and> pp_Author p = ca_Subject caller
        \<and> og_Kind (pp_Origin p) = ''agent'' \<and> og_Agent (pp_Origin p) = ca_Subject caller
        \<and> Validate (me_compile env) (pp_Policy p) (sv_rt (sp_val s)) = None
        \<and> Service_find (sv_rt (sp_val s)) (pol_API (pp_Policy p)) (pol_Name (pp_Policy p)) = None)"

section \<open>Tools\<close>

lemmas tool_defs = allTools_def apisTools_def policiesTools_def trafficTools_def

lemma tool_names: "map to_Name (allTools env deps) =
    [''list_apis'', ''list_policies'', ''get_policy'', ''dry_run_policy'', ''propose_policy'', ''list_traffic'', ''get_traffic_event'']"
  by (simp add: tool_defs)

text \<open>The package comment has the reads of traffic marked for the admin; no tool is.\<close>

lemma no_tool_admin_only: "t \<in> set (allTools env deps) \<Longrightarrow> \<not> to_AdminOnly t"
  by (auto simp: tool_defs)

lemma reading_state [simp]: "snd (reading f c raw s) = s" "fst (reading f c raw s) = f c raw s"
  by (simp_all add: reading_def)

lemma tool_state:
  assumes "t \<in> set (allTools env deps)"
  shows "to_Name t = ''propose_policy'' \<and> to_Run t = runProposePolicy env deps \<or> snd (to_Run t c raw s) = s"
  using assms by (auto simp: tool_defs)

lemma propose_non_admin:
  assumes "\<not> IsAdmin c" "runProposePolicy env deps c raw s = (r, s')"
  shows "s' = s \<or> drafted env c s s'"
proof (cases "s' = s")
  case False
  then obtain p where p: "Validate (me_compile env) p (sv_rt (sp_val s)) = None" "Service_find (sv_rt (sp_val s)) (pol_API p) (pol_Name p) = None"
    and s': "s' = snd (Prop_Create (me_props env) (policyValidator (me_compile env) (me_ops env)) (me_fresh env) (me_now env) (agent_draft c p) s)"
    using assms
    by (auto simp: runProposePolicy_def Service_Get_def split: option.splits sum.splits prod.splits if_splits)
  let ?pr = "\<lparr>pp_ID = me_fresh env, pp_Kind = KindApply, pp_Policy = p, pp_Status = StatusProposed,
      pp_Origin = \<lparr>og_Kind = ''agent'', og_Agent = ca_Subject c, og_RequestID = []\<rparr>, pp_Author = ca_Subject c, pp_Rationale = [],
      pp_CreatedAt = me_now env, pp_UpdatedAt = me_now env, pp_DecidedAt = None, pp_DecidedBy = [], pp_RejectionReason = []\<rparr>"
  obtain e st where put: "ps_Put (me_props env) ?pr (sp_store s) = (e, st)" by fastforce
  have "s' = s\<lparr>sp_store := st\<rparr>"
    using p put unfolding s'
    by (simp add: Prop_Create_def Let_def agent_draft_def Kind_Resolve_def Kind_Validate_def OriginKind_Validate_def validateForKind_def
        policyValidator_def KindApply_def KindDelete_def split: option.splits)
  then have "drafted env c s s'"
    unfolding drafted_def using p by (intro exI [of _ ?pr] exI [of _ e] exI [of _ st]) (simp add: put)
  then show ?thesis ..
qed simp

section \<open>Callers without the admin role\<close>

text \<open>Tools that look alike to a caller.\<close>

definition alike :: "Caller \<Rightarrow> 's tool \<Rightarrow> 's tool \<Rightarrow> bool" where
  "alike c t t' \<longleftrightarrow> to_Name t = to_Name t' \<and> to_AdminOnly t = to_AdminOnly t' \<and> to_InputSchema t = to_InputSchema t'
     \<and> (\<forall>raw s. to_Run t c raw s = to_Run t' c raw s)"

lemma alike_find:
  "list_all2 (alike c) ts ts' \<Longrightarrow> rel_option (alike c) (find_by to_Name n ts) (find_by to_Name n ts')"
  by (induction rule: list_all2_induct) (auto simp: alike_def)

lemma alike_call:
  assumes "list_all2 (alike c) ts ts'"
  shows "handleToolsCall J ts c params s = handleToolsCall J ts' c params s"
proof (cases "mj_call J params")
  case (Inr r)
  then obtain n raw where c: "mj_call J params = Inr (n, raw)" by (cases r) auto
  show ?thesis
  proof (cases "find_by to_Name n ts")
    case None
    then show ?thesis using c alike_find [OF assms, of n] by (simp add: handleToolsCall_def option_rel_Some2)
  next
    case (Some t)
    then obtain t' where "find_by to_Name n ts' = Some t'" "alike c t t'"
      using alike_find [OF assms, of n] by (auto simp: option_rel_Some1)
    with Some c show ?thesis by (simp add: handleToolsCall_def alike_def)
  qed
qed (simp add: handleToolsCall_def)

lemma alike_list: "list_all2 (alike c) ts ts' \<Longrightarrow> handleToolsList ts c = handleToolsList ts' c"
  by (induction rule: list_all2_induct) (auto simp: handleToolsList_def alike_def)

lemma traffic_irrelevant:
  "runListPolicies env (deps\<lparr>dm_TrafficStore := t\<rparr>) = runListPolicies env deps"
  "runGetPolicy env (deps\<lparr>dm_TrafficStore := t\<rparr>) = runGetPolicy env deps"
  "runDryRunPolicy env (deps\<lparr>dm_TrafficStore := t\<rparr>) = runDryRunPolicy env deps"
  "runListAPIs (deps\<lparr>dm_TrafficStore := t\<rparr>) = runListAPIs deps"
  "handleResourcesList (deps\<lparr>dm_TrafficStore := t\<rparr>) = handleResourcesList deps"
  by (auto simp: fun_eq_iff runListPolicies_def runGetPolicy_def runDryRunPolicy_def runListAPIs_def api_row_def handleResourcesList_def
      split: option.splits)

lemma propose_traffic_irrelevant: "runProposePolicy env (deps\<lparr>dm_TrafficStore := t\<rparr>) c raw s = runProposePolicy env deps c raw s"
  by (cases "mj_policy (me_json env) raw")
    (auto simp: runProposePolicy_def split: option.split sum.split)

lemma read_traffic_irrelevant: "handleResourcesRead J (deps\<lparr>dm_TrafficStore := t\<rparr>) params rt = handleResourcesRead J deps params rt"
  by (cases "mj_uri J params") (simp_all add: handleResourcesRead_def split: option.split)

lemma redacted_tools_alike:
  assumes "\<not> IsAdmin c" "dm_TrafficStore deps = Some T" "same_redacted (mj_timestamp (me_json env)) T T'"
  shows "list_all2 (alike c) (allTools env deps) (allTools env (deps\<lparr>dm_TrafficStore := Some T'\<rparr>))"
proof -
  let ?d = "deps\<lparr>dm_TrafficStore := Some T'\<rparr>"
  have "runGetTrafficEvent env deps c raw = runGetTrafficEvent env ?d c raw" for raw
  proof -
    have "map_sum id (redactedTrafficEvent (mj_timestamp (me_json env))) (st_Get T i) =
        map_sum id (redactedTrafficEvent (mj_timestamp (me_json env))) (st_Get T' i)" for i
      using assms(3) by (simp add: same_redacted_def)
    then show ?thesis using assms(1,2)
      by (auto simp: runGetTrafficEvent_def split: sum.splits) (metis map_sum.simps old.sum.exhaust sum.inject sum.distinct(1) id_apply)+
  qed
  moreover have "runListTraffic env deps raw = runListTraffic env ?d raw" for raw
  proof -
    have "st_List T = st_List T'" using assms(3) by (simp add: same_redacted_def)
    then show ?thesis using assms(2) by (simp add: runListTraffic_def split: sum.split)
  qed
  ultimately show ?thesis
    by (simp add: tool_defs alike_def reading_def traffic_irrelevant propose_traffic_irrelevant)
qed

lemma call_method_cases:
  assumes "call_method env deps c m params s = Some (r, s')"
  shows "s' = s \<or> (\<exists>raw r0. runProposePolicy env deps c raw s = (r0, s'))"
proof (cases "m = ''tools/call''")
  case True
  then have h: "handleToolsCall (me_json env) (allTools env deps) c params s = (r, s')"
    using assms by (simp add: call_method_def)
  show ?thesis
  proof (cases "s' = s")
    case False
    then obtain n raw t r0 where t: "find_by to_Name n (allTools env deps) = Some t" and run: "to_Run t c raw s = (r0, s')"
      using h by (auto simp: handleToolsCall_def split: sum.splits option.splits prod.splits if_splits)
    have "t \<in> set (allTools env deps)" using t by (auto dest: find_by_Some)
    from tool_state [OF this, of c raw s] show ?thesis using run False by auto
  qed simp
next
  case False
  then show ?thesis using assms by (auto simp: call_method_def split: if_splits)
qed

lemma call_method_redacted:
  assumes "\<not> IsAdmin c" "dm_TrafficStore deps = Some T" "same_redacted (mj_timestamp (me_json env)) T T'"
  shows "call_method env (deps\<lparr>dm_TrafficStore := Some T'\<rparr>) c m params s = call_method env deps c m params s"
proof -
  note al = redacted_tools_alike [OF assms]
  show ?thesis
    unfolding call_method_def alike_call [OF al, symmetric] alike_list [OF al, symmetric] traffic_irrelevant read_traffic_irrelevant by simp
qed

text \<open>
  C6: an agent without the admin role.  Whatever it posts, the live policies and their store stay as they
  are; at most one draft under its own name, valid and for a name that no live policy has, is put into the
  queue of proposals.  And it learns nothing of the recorded headers, bodies, binds, fetches and evaluation
  traces: over two traffic stores that agree on everything else the answer is the same.
\<close>

theorem mcp_confined:
  assumes "\<not> IsAdmin caller" "mcp_ServeHTTP env deps caller request s = (resp, s')"
  shows "sp_val s' = sp_val s \<and> (s' = s \<or> drafted env caller s s')
    \<and> (\<forall>T T'. dm_TrafficStore deps = Some T \<longrightarrow> same_redacted (mj_timestamp (me_json env)) T T' \<longrightarrow>
         mcp_ServeHTTP env (deps\<lparr>dm_TrafficStore := Some T'\<rparr>) caller request s = (resp, s'))"
proof (intro conjI allI impI)
  have "s' = s \<or> (\<exists>raw r0. runProposePolicy env deps caller raw s = (r0, s'))"
    using assms(2)
    by (auto simp: mcp_ServeHTTP_def dest: call_method_cases split: option.splits if_splits sum.splits prod.splits)
  then show "s' = s \<or> drafted env caller s s'" using propose_non_admin [OF assms(1)] by blast
  then show "sp_val s' = sp_val s" by (auto simp: drafted_def)
  fix T T' assume "dm_TrafficStore deps = Some T" "same_redacted (mj_timestamp (me_json env)) T T'"
  note redacted = call_method_redacted [OF assms(1) this]
  show "mcp_ServeHTTP env (deps\<lparr>dm_TrafficStore := Some T'\<rparr>) caller request s = (resp, s')"
    using assms(2) unfolding mcp_ServeHTTP_def redacted .
qed

definition ex_mcp_json :: "string \<Rightarrow> mcp_json" where
  "ex_mcp_json tool =
     \<lparr>mj_request = (\<lambda>b. Inr \<lparr>rq_JSONRPC = ''2.0'', rq_ID = ''7'', rq_Method = ''tools/call'', rq_Params = b\<rparr>),
      mj_initialize = (\<lambda>_. Inr ()), mj_call = (\<lambda>b. Inr (tool, b)), mj_uri = Inr, mj_prompt = Inr, mj_api = Inr, mj_key = (\<lambda>b. Inr (b, b)),
      mj_policy = (\<lambda>_. Inr (ex_pol ''d'' ''a'' ''x'')), mj_traffic = (\<lambda>_. Inl ''bad''), mj_id = Inr,
      mj_encode = (\<lambda>r. case r of ToolEvent ev \<Rightarrow> Some (ev_RequestBody ev) | ToolRedacted ev \<Rightarrow> Some (rt_URL ev) | ToolPropose p \<Rightarrow> Some (pr_Message p) | _ \<Rightarrow> None),
      mj_apis = (\<lambda>_. None), mj_timestamp = (\<lambda>_. [])\<rparr>"

definition ex_mcp_env :: "string \<Rightarrow> (row list \<times> row list, prow list) mcp_env" where
  "ex_mcp_env tool =
     \<lparr>me_json = ex_mcp_json tool, me_compile = ex_compiler, me_ops = ex_ops, me_props = propSqlite ex_pmarshal ex_punmarshal None,
      me_policy_text = (\<lambda>_. ''e''), me_proposal_text = (\<lambda>_. ''e''), me_traffic_text = (\<lambda>_. ''e''), me_fresh = ''p1'', me_now = 5\<rparr>"

definition ex_mcp_deps :: "TrafficReader \<Rightarrow> Deps" where
  "ex_mcp_deps T = \<lparr>dm_PolicyService = True, dm_ProposalService = True, dm_TrafficStore = Some T, dm_BundleReadmes = [], dm_APIBundle = Map.empty,
     dm_Docs = \<lparr>dc_AgentGuide = [], dc_PolicyAuthoring = [], dc_APIAuthoring = []\<rparr>\<rparr>"

definition ex_mcp_traffic :: TrafficReader where
  "ex_mcp_traffic = memory_reader (memory_Insert 0 (sample_event ''e1'' 0) (newMemoryStore \<lparr>op_MaxBytes = 0, op_MaxAge = 0\<rparr>))"

text \<open>The same store with other request bodies.\<close>

definition ex_mcp_other :: TrafficReader where
  "ex_mcp_other = ex_mcp_traffic\<lparr>st_Get := \<lambda>i. map_sum id (\<lambda>ev. ev\<lparr>ev_RequestBody := ''other''\<rparr>) (st_Get ex_mcp_traffic i)\<rparr>"

theorem mcp_confined_witness:
  "let c = \<lparr>ca_Subject = ''bot'', ca_Role = RoleUser\<rparr>; s0 = \<lparr>sp_store = [], sp_val = ex_svc\<rparr>;
       (resp, s1) = mcp_ServeHTTP (ex_mcp_env ''propose_policy'') (ex_mcp_deps ex_mcp_traffic) c (Some ''{}'') s0;
       get = (\<lambda>T. mcp_ServeHTTP (ex_mcp_env ''get_traffic_event'') (ex_mcp_deps T) c (Some ''e1'') s0)
   in sp_val s1 = ex_svc \<and> map prow_id (sp_store s1) = [''p1'']
      \<and> hr_Body (fst (get ex_mcp_traffic)) = Value \<lparr>rp_ID = ''7'', rp_Result = Some (ToolCalled \<lparr>ct_Text = ''/a'', ct_IsError = False\<rparr>), rp_Error = None\<rparr>
      \<and> get ex_mcp_other = get ex_mcp_traffic"
proof -
  let ?c = "\<lparr>ca_Subject = ''bot'', ca_Role = RoleUser\<rparr>" and ?s0 = "\<lparr>sp_store = [], sp_val = ex_svc\<rparr>"
  let ?E1 = "ex_mcp_env ''propose_policy''" and ?E2 = "ex_mcp_env ''get_traffic_event''" and ?d = "ex_mcp_deps ex_mcp_traffic"
  have c: "\<not> IsAdmin ?c" by (simp add: IsAdmin_def)
  obtain resp s1 where 1: "mcp_ServeHTTP ?E1 ?d ?c (Some ''{}'') ?s0 = (resp, s1)" by fastforce
  obtain resp2 s2 where 2: "mcp_ServeHTTP ?E2 ?d ?c (Some ''e1'') ?s0 = (resp2, s2)" by fastforce
  have "map prow_id (sp_store (snd (mcp_ServeHTTP ?E1 ?d ?c (Some ''{}'') ?s0))) = [''p1'']" by code_simp
  moreover have "hr_Body (fst (mcp_ServeHTTP ?E2 ?d ?c (Some ''e1'') ?s0)) =
      Value \<lparr>rp_ID = ''7'', rp_Result = Some (ToolCalled \<lparr>ct_Text = ''/a'', ct_IsError = False\<rparr>), rp_Error = None\<rparr>" by code_simp
  moreover have "same_redacted (mj_timestamp (me_json ?E2)) ex_mcp_traffic ex_mcp_other"
  proof -
    have "map_sum id (redactedTrafficEvent f) (map_sum id (\<lambda>ev. ev\<lparr>ev_RequestBody := b\<rparr>) r) = map_sum id (redactedTrafficEvent f) r"
      for f b and r :: "traffic_error + Event"
      by (cases r) (simp_all add: redactedTrafficEvent_def)
    then show ?thesis by (simp add: same_redacted_def ex_mcp_other_def)
  qed
  moreover have "dm_TrafficStore ?d = Some ex_mcp_traffic" "?d\<lparr>dm_TrafficStore := Some ex_mcp_other\<rparr> = ex_mcp_deps ex_mcp_other"
    by (simp_all add: ex_mcp_deps_def)
  moreover note mcp_confined [OF c 1] mcp_confined [OF c 2]
  ultimately show ?thesis using 1 2 by auto
qed

section \<open>Callers with the admin role\<close>

lemma propose_admin:
  assumes "IsAdmin c" "dm_PolicyService deps" "mj_policy (me_json env) raw = Inr p"
  shows "runProposePolicy env deps c raw s =
     (let (e, sv) = Service_Create (me_compile env) (me_ops env) p (sp_val s)
      in (case Validate (me_compile env) p (sv_rt (sp_val s)) of
            Some v \<Rightarrow> Inr (ToolPropose \<lparr>pr_OK = False, pr_Applied = False, pr_ProposalID = [], pr_Policy = None, pr_Message = [],
                                       pr_Error = me_policy_text env v\<rparr>)
          | None \<Rightarrow>
              (if Service_find (sv_rt (sp_val s)) (pol_API p) (pol_Name p) \<noteq> None
               then Inr (propose_result False [] p ''Policy is valid but (api, name) already exists. Pick a different name or ask the operator to replace the existing policy.'')
               else (case e of Some v \<Rightarrow> Inl (mapPolicyError (me_policy_text env) v)
                     | None \<Rightarrow> Inr (propose_result True [] p ''Policy created and applied to the live runtime.''))),
          s\<lparr>sp_val := sv\<rparr>))"
  using assms
  by (auto simp: runProposePolicy_def requireService_def Service_Get_def Service_Create_def Let_def split: option.splits prod.splits)

text \<open>
  For the admin, proposing is creating: the state after the tool is the state after \<^verbatim>\<open>POST /_api/policies\<close> with the same
  policy, and the tool reports it as applied exactly when that request would be answered with 201.
\<close>

theorem mcp_propose_is_create:
  assumes "IsAdmin c" "dm_PolicyService deps" "mj_policy (me_json env) raw = Inr p"
    and "runProposePolicy env deps c raw s = (r, s')"
    and "createPolicyHandler (me_compile env) (me_ops env) txt (DValue p) (sp_val s) = (resp, sv')"
  shows "s' = s\<lparr>sp_val := sv'\<rparr>"
    and "(\<exists>m. r = Inr (propose_result True [] p m)) \<longleftrightarrow> hr_Status resp = 201"
proof -
  obtain e sv where c0: "Service_Create (me_compile env) (me_ops env) p (sp_val s) = (e, sv)" by fastforce
  have r: "createPolicyHandler (me_compile env) (me_ops env) txt (DValue p) (sp_val s) =
      (case e of Some v \<Rightarrow> writePolicyError txt (ServiceError v)
       | None \<Rightarrow> \<lparr>hr_Status = 201, hr_Location = PoliciesPath @ ''/'' @ PathEscape (pol_API p) @ ''/'' @ PathEscape (pol_Name p),
                  hr_Cookies = [], hr_Body = Value (OnePolicy p)\<rparr>, sv)"
    by (cases e) (simp_all add: createPolicyHandler_def decodeJSONBody_def c0 create_location_ok [unfolded append_Cons append_Nil])
  have "hr_Status (writePolicyError txt (ServiceError v)) \<noteq> 201" for v
    by (auto simp: writePolicyError_def writeMappedError_def writeJSONError_def policy_errors_def split: option.splits)
  then have st: "hr_Status resp = 201 \<longleftrightarrow> e = None" and "sv' = sv"
    using assms(5) r by (cases e; auto)+
  then have c: "Service_Create (me_compile env) (me_ops env) p (sp_val s) = (e, sv')" using c0 by simp
  show "s' = s\<lparr>sp_val := sv'\<rparr>" using assms(4) unfolding propose_admin [OF assms(1-3)] by (simp add: c)
  have "Service_find (sv_rt (sp_val s)) (pol_API p) (pol_Name p) \<noteq> None \<or> Validate (me_compile env) p (sv_rt (sp_val s)) \<noteq> None \<Longrightarrow> e \<noteq> None"
    using c by (auto simp: Service_Create_def split: if_splits option.splits) metis+
  then show "(\<exists>m. r = Inr (propose_result True [] p m)) \<longleftrightarrow> hr_Status resp = 201"
    using assms(4) unfolding propose_admin [OF assms(1-3)] st by (auto simp: c propose_result_def split: option.splits if_splits)
qed

section \<open>Where the endpoint departs from its comments\<close>

text \<open>The instructions of the handshake name documents under URIs that no resource has.\<close>

lemma instructions_name_unknown_uri:
  assumes "mj_uri J params = Inr ''bouncer://docs/agent.md''"
  shows "handleResourcesRead J deps params rt =
    Inl \<lparr>er_Code = codeInvalidParams, er_Message = ''unknown resource uri: bouncer://docs/agent.md''\<rparr>"
proof -
  have "bundleFromReadmeURI ''bouncer://docs/agent.md'' = None" by code_simp
  then show ?thesis using assms
    by (simp add: handleResourcesRead_def URIDocsAgent_def URIDocsPolicies_def URIDocsAPIs_def URIAPIs_def)
qed

text \<open>A notification, which has no id, is answered with an error body when it fails.\<close>

lemma failed_notification_answered:
  assumes "mj_request (me_json env) body = Inr \<lparr>rq_JSONRPC = ''2.0'', rq_ID = [], rq_Method = ''nope'', rq_Params = []\<rparr>"
    "int (length body) \<le> MaxBodyBytes"
  shows "fst (mcp_ServeHTTP env deps caller (Some body) s) = writeJSON (makeError [] codeMethodNotFound ''method not found: nope'')"
  using assms by (simp add: mcp_ServeHTTP_def call_method_def)

end
