(* ===== verification/Boot.thy ===== *)
theory Boot
  imports TokensApi Mcp
begin

text \<open>
  Booting: \<^verbatim>\<open>Load\<close> of \<^verbatim>\<open>internal/server/load.go\<close>, which composes the bundle loader, the runtime builder, the policy and proposal
  services and the internal policy set, and \<^verbatim>\<open>bouncer apis verify\<close> (\<^verbatim>\<open>internal/cli/apiscmd/verify.go\<close>), which runs the same
  chain ahead of it.  HTTP clients and tracing are left out.
\<close>

section \<open>Definitions\<close>

datatype boot_error =
    BLoadAPIs string
  | BRegister string err
  | BCompile err
  | BPolicyStoreRequired
  | BProposalStoreRequired
  | BLoadPolicies perr
  | BInternal err

text \<open>A store is a pair of its operations and its contents.\<close>

record ('s, 'q) Config =
  cf_ApisDir :: string
  cf_PolicyStore :: "('s Store \<times> 's) option"
  cf_PolicyStoreReadOnly :: bool
  cf_ProposalStore :: "('q PropStore \<times> 'q) option"
  cf_RefreshTTL :: int
  cf_AdminPasswordHash :: string
  cf_MITMCAPath :: string
  cf_InternalPolicies :: string
  cf_TrafficStore :: "TrafficReader option"

text \<open>The dependencies a server is made of; the proposal service holds the policy service it validates with.\<close>

record ('s, 'u, 'q) Dependencies =
  dd_Services :: "('s, 'u, 'q) mcp_state"
  dd_Keys :: ServerKeys
  dd_RefreshTTL :: int
  dd_TrafficStore :: "TrafficReader option"
  dd_AdminPasswordHash :: string
  dd_MITMCAPath :: string
  dd_BundleData :: BundleData
  dd_ServicesRegistry :: ServiceRegistry
  dd_InternalRuntime :: "'u Runtime"

definition PolicySetSimple :: string where "PolicySetSimple = ''simple''"

fun register_apis :: "API list \<Rightarrow> Builder \<Rightarrow> (string \<times> err) + Builder" where
  "register_apis [] b = Inr b"
| "register_apis (spec # specs) b =
     (case AddAPI spec b of (Some e, _) \<Rightarrow> Inl (api_Name spec, e) | (None, b') \<Rightarrow> register_apis specs b')"

text \<open>The embedded specification and policy documents of the internal API are the files of \<^verbatim>\<open>internal_apis\<close>.\<close>

record internal_files =
  in_spec :: "err + API"
  in_docs :: "string \<Rightarrow> (err + Policy) list"
  in_files :: "string \<Rightarrow> string option"

definition Load ::
  "compiler \<Rightarrow> (string \<Rightarrow> err + 'u) \<Rightarrow> bundle_files \<Rightarrow> internal_files \<Rightarrow> ('s, 'q) Config \<Rightarrow> ServerKeys
     \<Rightarrow> boot_error + ('s, 'u, 'q) Dependencies" where
  "Load compile parse_url F I cfg keys =
     (case LoadAll F (cf_ApisDir cfg) of
        Inl e \<Rightarrow> Inl (BLoadAPIs e)
      | Inr loaded \<Rightarrow>
          (case register_apis (map la_Spec loaded) NewBuilder of
             Inl (n, e) \<Rightarrow> Inl (BRegister n e)
           | Inr b \<Rightarrow>
               (case fst (Build compile parse_url b) of
                  Inl e \<Rightarrow> Inl (BCompile e)
                | Inr rt \<Rightarrow>
                    (case cf_PolicyStore cfg of
                       None \<Rightarrow> Inl BPolicyStoreRequired
                     | Some (ops, st) \<Rightarrow>
                         (case cf_ProposalStore cfg of
                            None \<Rightarrow> Inl BProposalStoreRequired
                          | Some (P, q) \<Rightarrow>
                              (case LoadFromStore compile ops (New rt st) of
                                 (Some e, _) \<Rightarrow> Inl (BLoadPolicies e)
                               | (None, sv) \<Rightarrow>
                                   (let internalSet = (if cf_InternalPolicies cfg = [] then PolicySetSimple else cf_InternalPolicies cfg)
                                    in case LoadInternalRuntime compile parse_url (in_spec I) (in_docs I) (in_files I) internalSet of
                                         Inl e \<Rightarrow> Inl (BInternal e)
                                       | Inr internal \<Rightarrow>
                                           Inr \<lparr>dd_Services = \<lparr>sp_store = q, sp_val = SetReadOnly (cf_PolicyStoreReadOnly cfg) sv\<rparr>,
                                                dd_Keys = keys, dd_RefreshTTL = cf_RefreshTTL cfg, dd_TrafficStore = cf_TrafficStore cfg,
                                                dd_AdminPasswordHash = cf_AdminPasswordHash cfg, dd_MITMCAPath = cf_MITMCAPath cfg,
                                                dd_BundleData = \<lparr>bd_Readmes = Readmes loaded, bd_APIBundle = APIBundles loaded, bd_Services = Services loaded\<rparr>,
                                                dd_ServicesRegistry = services_New (Services loaded),
                                                dd_InternalRuntime = internal\<rparr>)))))))"

subsection \<open>Verifying ahead\<close>

definition buildRuntime :: "compiler \<Rightarrow> (string \<Rightarrow> err + 'u) \<Rightarrow> API list \<Rightarrow> string option" where
  "buildRuntime compile parse_url apis =
     (case register_apis apis NewBuilder of
        Inl (n, e) \<Rightarrow> Some (''compile '' @ n)
      | Inr b \<Rightarrow> (case fst (Build compile parse_url b) of Inl e \<Rightarrow> Some ''build runtime'' | Inr rt \<Rightarrow> None))"

fun read_docs :: "(string \<Rightarrow> string + API list) \<Rightarrow> string list \<Rightarrow> string + API list" where
  "read_docs docs [] = Inr []"
| "read_docs docs (p # ps) =
     (case docs p of Inl e \<Rightarrow> Inl e | Inr here \<Rightarrow> (case read_docs docs ps of Inl e \<Rightarrow> Inl e | Inr rest \<Rightarrow> Inr (here @ rest)))"

fun read_entries :: "bundle_files \<Rightarrow> string \<Rightarrow> string list \<Rightarrow> string + API list" where
  "read_entries F dir [] = Inr []"
| "read_entries F dir (rel # rels) =
     (case ResolveManifestEntry F dir rel of
        Inl e \<Rightarrow> Inl e
      | Inr paths \<Rightarrow>
          (case read_docs (bf_docs F) paths of
             Inl e \<Rightarrow> Inl e
           | Inr here \<Rightarrow> (case read_entries F dir rels of Inl e \<Rightarrow> Inl e | Inr rest \<Rightarrow> Inr (here @ rest))))"

definition verifyBundle :: "compiler \<Rightarrow> (string \<Rightarrow> err + 'u) \<Rightarrow> bundle_files \<Rightarrow> string \<Rightarrow> string option" where
  "verifyBundle compile parse_url F dir =
     (case LoadManifest (bf_manifest F) (path_Join dir ManifestFile) of
        Inl e \<Rightarrow> Some e
      | Inr mf \<Rightarrow>
          (case read_entries F dir (mf_APIs mf) of
             Inl e \<Rightarrow> Some e
           | Inr apis \<Rightarrow> if apis = [] then Some ''manifest resolves to no API specs'' else buildRuntime compile parse_url apis))"

text \<open>\<^verbatim>\<open>FromYAMLDir\<close>: the regular YAML files of a directory, in the order of the listing.\<close>

definition FromYAMLDir :: "bundle_files \<Rightarrow> string \<Rightarrow> string + API list" where
  "FromYAMLDir F dir =
     (case bf_ReadDir F dir of
        Inl e \<Rightarrow> Inl e
      | Inr None \<Rightarrow> Inl ''read dir''
      | Inr (Some entries) \<Rightarrow>
          read_docs (bf_docs F) (map (\<lambda>(n, _). path_Join dir n) (filter (\<lambda>(n, d). \<not> d \<and> isYAMLFile n) entries)))"

definition verifyApisDir :: "compiler \<Rightarrow> (string \<Rightarrow> err + 'u) \<Rightarrow> bundle_files \<Rightarrow> string \<Rightarrow> string option" where
  "verifyApisDir compile parse_url F dir =
     (case FromYAMLDir F dir of
        Inl e \<Rightarrow> Some e
      | Inr apis \<Rightarrow> if apis = [] then Some ''contains no api YAML files'' else buildRuntime compile parse_url apis)"

definition runVerify :: "compiler \<Rightarrow> (string \<Rightarrow> err + 'u) \<Rightarrow> bundle_files \<Rightarrow> string list \<Rightarrow> string option" where
  "runVerify compile parse_url F args =
     (if length args \<noteq> 1 then Some ''expected one directory argument''
      else (let dir = Clean (hd args)
            in case bf_Stat F dir of
                 None \<Rightarrow> Some ''source dir''
               | Some False \<Rightarrow> Some ''not a directory''
               | Some True \<Rightarrow>
                   (if bf_Stat F (path_Join dir ManifestFile) \<noteq> None then verifyBundle compile parse_url F dir
                    else verifyApisDir compile parse_url F dir)))"

section \<open>Registering\<close>

lemma register_apis_Inr:
  assumes "register_apis specs b = Inr b'" "builder_inv b"
  shows "builder_inv b'" "map fst (b_pending b') = map fst (b_pending b) @ map api_Name specs"
    "map (\<lambda>x. pa_spec (snd x)) (b_pending b') = map (\<lambda>x. pa_spec (snd x)) (b_pending b) @ specs"
proof -
  have "builder_inv b' \<and> map fst (b_pending b') = map fst (b_pending b) @ map api_Name specs
      \<and> map (\<lambda>x. pa_spec (snd x)) (b_pending b') = map (\<lambda>x. pa_spec (snd x)) (b_pending b) @ specs"
    using assms
  proof (induction specs arbitrary: b)
    case (Cons spec specs)
    then obtain b1 where a: "AddAPI spec b = (None, b1)" and r: "register_apis specs b1 = Inr b'"
      by (auto split: prod.splits option.splits)
    have i: "builder_inv b1" using builder_inv_AddAPI [OF Cons.prems(2), of spec] a by simp
    from a obtain types reg where
      "b1 = b\<lparr>b_registry := reg, b_pending := b_pending b @ [(api_Name spec, \<lparr>pa_spec = spec, pa_types = types\<rparr>)]\<rparr>"
      by (rule AddAPI_ok)
    then show ?case using Cons.IH [OF r i] by simp
  qed simp
  then show "builder_inv b'" "map fst (b_pending b') = map fst (b_pending b) @ map api_Name specs"
    "map (\<lambda>x. pa_spec (snd x)) (b_pending b') = map (\<lambda>x. pa_spec (snd x)) (b_pending b) @ specs" by blast+
qed

lemma builder_inv_New: "builder_inv NewBuilder"
  by (simp add: builder_inv_def NewBuilder_def)

lemma register_new:
  assumes "register_apis specs NewBuilder = Inr b"
  shows "builder_inv b" "map fst (b_pending b) = map api_Name specs" "map (\<lambda>x. pa_spec (snd x)) (b_pending b) = specs"
    "distinct (map api_Name specs)"
proof -
  note R = register_apis_Inr [OF assms builder_inv_New]
  show "builder_inv b" "map fst (b_pending b) = map api_Name specs" "map (\<lambda>x. pa_spec (snd x)) (b_pending b) = specs"
    using R by (simp_all add: NewBuilder_def)
  then show "distinct (map api_Name specs)" by (metis builder_inv_def)
qed

lemma assertUniqueNames_None:
  "assertUniqueNames ls seen = None \<longleftrightarrow>
     distinct (map (\<lambda>l. api_Name (la_Spec l)) ls) \<and> (\<lambda>l. api_Name (la_Spec l)) ` set ls \<inter> set seen = {}"
  by (induction ls seen rule: assertUniqueNames.induct) auto

section \<open>Routing what is installed\<close>

lemma collect_routes_declared:
  assumes "collect_routes ps = Inr rts" "p \<in> set ps" "pre \<in> set (api_PathPrefixes (pa_spec p))"
  shows "\<exists>rt \<in> set rts. r_segments rt = SplitPath pre \<and> r_apiName rt = api_Name (pa_spec p)"
  using assms
proof (induction ps arbitrary: rts)
  case (Cons q ps)
  obtain rs rest where rs: "map_result (check_prefix (api_Name (pa_spec q))) (api_PathPrefixes (pa_spec q)) = Inr rs"
    and rest: "collect_routes ps = Inr rest" and rts: "rts = rs @ rest"
    using Cons.prems(1) by (auto split: sum.splits)
  show ?case
  proof (cases "p = q")
    case True
    obtain i where i: "i < length (api_PathPrefixes (pa_spec q))" "api_PathPrefixes (pa_spec q) ! i = pre"
      using Cons.prems(3) True by (auto simp: in_set_conv_nth)
    from rs have "list_all2 (\<lambda>x y. check_prefix (api_Name (pa_spec q)) x = Inr y) (api_PathPrefixes (pa_spec q)) rs"
      by (simp add: map_result_Inr_iff)
    then have "check_prefix (api_Name (pa_spec q)) pre = Inr (rs ! i)" "rs ! i \<in> set rs"
      using i by (auto simp: list_all2_conv_all_nth)
    moreover from this have "r_segments (rs ! i) = SplitPath pre" "r_apiName (rs ! i) = api_Name (pa_spec q)"
      by (auto simp: check_prefix_def Let_def elim: subst split: if_splits)
    ultimately show ?thesis using True rts by auto
  next
    case False
    then show ?thesis using Cons.IH [OF rest] Cons.prems(2,3) rts by auto
  qed
qed simp

lemma rt_put_keeps:
  assumes "rt_accepts compile rt p"
  shows "rt_routes (rt_put compile p rt) = rt_routes rt" "map fst (rt_apis (rt_put compile p rt)) = map fst (rt_apis rt)"
proof -
  from assms obtain a cp where a: "API_get rt (pol_API p) = Some a" "APIRuntime_compile compile a p = Inr cp"
    by (auto simp: rt_accepts_iff)
  have "pol_API p \<in> fst ` set (rt_apis rt)"
    using a(1) by (metis API_get_def fst_conv image_eqI map_of_SomeD)
  then show "rt_routes (rt_put compile p rt) = rt_routes rt" "map fst (rt_apis (rt_put compile p rt)) = map fst (rt_apis rt)"
    unfolding rt_put_accepted(1) [OF a] by (simp_all add: set_api_def upsert_by_order)
qed

lemma load_all_keeps:
  assumes "rt_inv rt" "load_all compile ps rt = (None, rt')"
  shows "rt_routes rt' = rt_routes rt \<and> map fst (rt_apis rt') = map fst (rt_apis rt)"
proof -
  have acc: "\<forall>p \<in> set ps. rt_accepts compile rt p" using load_all_None [OF assms] .
  have "rt_routes (fold (rt_put compile) ps rt) = rt_routes rt \<and> map fst (rt_apis (fold (rt_put compile) ps rt)) = map fst (rt_apis rt)"
    using assms(1) acc by (induction ps arbitrary: rt) (auto simp: rt_put_keeps rt_inv_put rt_accepts_put)
  then show ?thesis using load_all_accepted [OF assms(1) acc] assms(2) by simp
qed

lemma Load_cases:
  assumes "Load compile parse_url F I cfg keys = Inr d"
  obtains loaded b rt ops st P q sv where "LoadAll F (cf_ApisDir cfg) = Inr loaded"
    "register_apis (map la_Spec loaded) NewBuilder = Inr b" "fst (Build compile parse_url b) = Inr rt"
    "cf_PolicyStore cfg = Some (ops, st)" "cf_ProposalStore cfg = Some (P, q)" "LoadFromStore compile ops (New rt st) = (None, sv)"
    "dd_Services d = \<lparr>sp_store = q, sp_val = SetReadOnly (cf_PolicyStoreReadOnly cfg) sv\<rparr>"
    "LoadInternalRuntime compile parse_url (in_spec I) (in_docs I) (in_files I)
       (if cf_InternalPolicies cfg = [] then PolicySetSimple else cf_InternalPolicies cfg) = Inr (dd_InternalRuntime d)"
  using assms
  by (auto simp: Load_def Let_def split: sum.splits option.splits prod.splits)

lemma LoadFromStore_keeps:
  assumes "LoadFromStore compile ops (New rt st) = (None, sv)" "rt_inv rt"
  shows "rt_routes (sv_rt sv) = rt_routes rt" "map fst (rt_apis (sv_rt sv)) = map fst (rt_apis rt)"
proof -
  obtain ps rt' where "load_all compile ps rt = (None, rt')" "sv_rt sv = rt'"
    using assms(1) by (auto simp: LoadFromStore_def New_def split: sum.splits prod.splits)
  then show "rt_routes (sv_rt sv) = rt_routes rt" "map fst (rt_apis (sv_rt sv)) = map fst (rt_apis rt)"
    using load_all_keeps [OF assms(2)] by auto
qed

text \<open>One bundle with one specification.\<close>

definition ex_boot_manifest :: Manifest where
  "ex_boot_manifest = \<lparr>mf_SchemaVersion = 1, mf_Name = ''b'', mf_Version = ''1'', mf_Description = [], mf_MinProxyVersion = [],
     mf_MaxProxyVersion = [], mf_APIs = [''d.yaml''], mf_Service = None, mf_Token = []\<rparr>"

definition ex_boot_files :: bundle_files where
  "ex_boot_files =
     \<lparr>bf_ReadDir = (\<lambda>p. if p = ''apis'' then Inr (Some [(''b'', True)]) else Inr None),
      bf_Stat = (\<lambda>p. if p = ''apis/b'' then Some True else if p \<in> {''apis/b/bouncer.yaml'', ''apis/b/d.yaml''} then Some False else None),
      bf_docs = (\<lambda>p. if p = ''apis/b/d.yaml'' then Inr [ex_spec ''d'' ''/d''] else Inl ''open''),
      bf_manifest = (\<lambda>p. if p = ''apis/b/bouncer.yaml'' then Inr ex_boot_manifest else Inl ''open''),
      bf_source = (\<lambda>_. Inr \<lparr>sr_Ref = ''r'', sr_ResolvedSHA = ''s'', sr_FetchedAt = 0, sr_APIRenames = []\<rparr>),
      bf_readme = (\<lambda>_. [])\<rparr>"

definition ex_boot_config :: "(row list \<times> row list, prow list) Config" where
  "ex_boot_config =
     \<lparr>cf_ApisDir = ''apis'', cf_PolicyStore = Some (ex_ops, ([], [])), cf_PolicyStoreReadOnly = True,
      cf_ProposalStore = Some (propSqlite ex_pmarshal ex_punmarshal None, []), cf_RefreshTTL = 0, cf_AdminPasswordHash = [],
      cf_MITMCAPath = [], cf_InternalPolicies = [], cf_TrafficStore = None\<rparr>"

definition ex_internal_files :: internal_files where
  "ex_internal_files = \<lparr>in_spec = Inr ex_internal_spec, in_docs = (\<lambda>_. [Inr ex_internal_policy]), in_files = (\<lambda>_. Some [])\<rparr>"

text \<open>
  C7: what a booted server serves.  When \<open>Load\<close> succeeds over the deployed layout of stores, the APIs of the
  runtime are exactly the ones found in the APIs directory, under distinct names; every path under a
  prefix that one of them declares is routed to it; the live policies are exactly the stored ones, and
  every one of them compiles; writes are refused exactly when configured so; and the control plane is gated
  by the selected set of internal policies, the simple one by default.
\<close>

theorem Load_serves:
  assumes "Load compile parse_url F I cfg keys = Inr d"
    and "cf_PolicyStore cfg = Some (LayeredStore (sqliteStore marshal unmarshal io) seed, st)" "data_dir_inv marshal unmarshal seed st"
  shows "\<exists>loaded. LoadAll F (cf_ApisDir cfg) = Inr loaded
    \<and> (let sv = sp_val (dd_Services d); rt = sv_rt sv
       in distinct (map (\<lambda>l. api_Name (la_Spec l)) loaded) \<and> set (APINames rt) = (\<lambda>l. api_Name (la_Spec l)) ` set loaded
          \<and> (\<forall>l \<in> set loaded. \<forall>pre \<in> set (api_PathPrefixes (la_Spec l)). \<forall>segs. hasSegmentPrefix segs (SplitPath pre) \<longrightarrow>
               APIForSegments rt segs = api_Name (la_Spec l))
          \<and> coherent compile (LayeredStore (sqliteStore marshal unmarshal io) seed) (data_dir_inv marshal unmarshal seed) sv
          \<and> sv_readOnly sv = cf_PolicyStoreReadOnly cfg
          \<and> LoadInternalRuntime compile parse_url (in_spec I) (in_docs I) (in_files I)
              (if cf_InternalPolicies cfg = [] then ''simple'' else cf_InternalPolicies cfg) = Inr (dd_InternalRuntime d))"
  using assms(1)
proof (cases rule: Load_cases)
  case (1 loaded b rt ops st' P q sv)
  let ?ops = "LayeredStore (sqliteStore marshal unmarshal io) seed" and ?rt = "sv_rt (sp_val (dd_Services d))"
  have ops: "ops = ?ops" "st' = st" using 1(4) assms(2) by auto
  note R = register_new [OF 1(2)]
  obtain b' where b: "Build compile parse_url b = (Inr rt, b')" using 1(3) by (cases "Build compile parse_url b") auto
  note B = Build_rt_inv [OF R(1) b]
  have routes: "buildPrefixRoutes (sortedPending b) = Inr (rt_routes rt)" using b by (rule Build_cases)
  have keep: "rt_routes ?rt = rt_routes rt" "map fst (rt_apis ?rt) = map fst (rt_apis rt)"
    using LoadFromStore_keeps [OF 1(6) B(1)] by (simp_all add: 1(7) SetReadOnly_def)
  have "coherent compile ?ops (data_dir_inv marshal unmarshal seed) sv"
    unfolding data_dir_inv_def
    by (rule data_dir.layered.load_coherent [OF _ _ _ 1(6) [unfolded ops]])
      (use B assms(3) in \<open>simp_all add: New_def data_dir_inv_def\<close>)
  then have coh: "coherent compile ?ops (data_dir_inv marshal unmarshal seed) (sp_val (dd_Services d))"
    by (simp add: 1(7) SetReadOnly_def coherent_def)
  have names: "set (APINames ?rt) = (\<lambda>l. api_Name (la_Spec l)) ` set loaded"
    using sortedPending_names(2) [OF R(1)] R(2) unfolding APINames_def keep B(4) by (metis image_image image_set map_map set_map)
  have "APIForSegments ?rt segs = api_Name (la_Spec l)"
    if l: "l \<in> set loaded" "pre \<in> set (api_PathPrefixes (la_Spec l))" "hasSegmentPrefix segs (SplitPath pre)" for l pre segs
  proof -
    from R(3) l(1) obtain x where "x \<in> set (b_pending b)" "pa_spec (snd x) = la_Spec l" by (metis (no_types, lifting) imageE image_eqI set_map)
    then have p: "snd x \<in> set (sortedPending b)" by (auto simp: sortedPending_def)
    from routes have nc: "\<not> prefix_conflict (rt_routes rt)" and c: "collect_routes (sortedPending b) = Inr (rt_routes rt)"
      by (auto simp: buildPrefixRoutes_def split: sum.splits if_splits)
    obtain r where "r \<in> set (rt_routes rt)" "r_segments r = SplitPath pre" "r_apiName r = api_Name (la_Spec l)"
      using collect_routes_declared [OF c p] l(2) \<open>pa_spec (snd x) = la_Spec l\<close> by auto
    with routeRequest_loop_unique [OF nc] l(3) show ?thesis
      by (simp add: APIForSegments_def routeRequest_def segments_request_def keep)
  qed
  moreover have "distinct (map (\<lambda>l. api_Name (la_Spec l)) loaded)" using R(4) by (simp add: comp_def)
  moreover have "sv_readOnly (sp_val (dd_Services d)) = cf_PolicyStoreReadOnly cfg" by (simp add: 1(7) SetReadOnly_def)
  ultimately show ?thesis using 1(1,8) coh names unfolding Let_def PolicySetSimple_def by blast
qed

theorem Load_serves_witness:
  "\<exists>d. Load ex_compiler (\<lambda>_. Inr ()) ex_boot_files ex_internal_files ex_boot_config ex_keys = Inr d
     \<and> set (APINames (sv_rt (sp_val (dd_Services d)))) = {''d''}
     \<and> APIForSegments (sv_rt (sp_val (dd_Services d))) [''d'', ''x''] = ''d'' \<and> sv_readOnly (sp_val (dd_Services d))"
proof -
  have "is_ok (Load ex_compiler (\<lambda>_. Inr ()) ex_boot_files ex_internal_files ex_boot_config ex_keys)" by code_simp
  then obtain d where d: "Load ex_compiler (\<lambda>_. Inr ()) ex_boot_files ex_internal_files ex_boot_config ex_keys = Inr d"
    by (auto simp: is_ok_iff)
  have st: "cf_PolicyStore ex_boot_config = Some (LayeredStore (sqliteStore ex_marshal ex_unmarshal None) (sqliteStore ex_marshal ex_unmarshal None), ([], []))"
    by (simp add: ex_boot_config_def ex_ops_def)
  have inv: "data_dir_inv ex_marshal ex_unmarshal (sqliteStore ex_marshal ex_unmarshal None) ([], [])"
    using ex_json_roundtrip by (simp add: data_dir_inv_def sqlite_inv_def sqliteStore_def sqlite_List_def)
  have l: "map_sum id (map (\<lambda>l. (api_Name (la_Spec l), api_PathPrefixes (la_Spec l)))) (LoadAll ex_boot_files (cf_ApisDir ex_boot_config)) = Inr [(''d'', [''/d''])]"
    by code_simp
  have seg: "hasSegmentPrefix [''d'', ''x''] (SplitPath ''/d'')" by code_simp
  from Load_serves [OF d st inv, unfolded Let_def] obtain loaded where
    L: "LoadAll ex_boot_files (cf_ApisDir ex_boot_config) = Inr loaded"
      "set (APINames (sv_rt (sp_val (dd_Services d)))) = (\<lambda>l. api_Name (la_Spec l)) ` set loaded"
      "\<forall>l \<in> set loaded. \<forall>pre \<in> set (api_PathPrefixes (la_Spec l)). \<forall>segs. hasSegmentPrefix segs (SplitPath pre) \<longrightarrow>
               APIForSegments (sv_rt (sp_val (dd_Services d))) segs = api_Name (la_Spec l)"
      "sv_readOnly (sp_val (dd_Services d)) = cf_PolicyStoreReadOnly ex_boot_config"
    by blast
  from l [unfolded L(1)] obtain l0 where "loaded = [l0]" "api_Name (la_Spec l0) = ''d''" "api_PathPrefixes (la_Spec l0) = [''/d'']" by auto
  with L(2-4) d seg show ?thesis by (auto simp: ex_boot_config_def)
qed

section \<open>Verifying ahead of the boot\<close>

lemma load_paths_docs:
  assumes "read_docs (bf_docs F) ps = Inr apis" "\<And>p a. la_Spec (mk p a) = a"
  shows "\<exists>ls. load_paths F mk ps = Inr ls \<and> map la_Spec ls = apis"
  using assms(1) by (induction ps arbitrary: apis) (auto split: sum.splits simp: assms(2) comp_def)

lemma load_entries_read:
  assumes "read_entries F root rels = Inr apis" "\<And>p a. la_Spec (mk p a) = a"
  shows "\<exists>ls. load_entries F mk root rels = Inr ls \<and> map la_Spec ls = apis"
  using assms(1)
proof (induction rels arbitrary: apis)
  case (Cons rel rels)
  then obtain ps here rest where "ResolveManifestEntry F root rel = Inr ps" "read_docs (bf_docs F) ps = Inr here"
    "read_entries F root rels = Inr rest" "apis = here @ rest" by (auto split: sum.splits)
  with Cons.IH load_paths_docs [where mk = mk, OF _ assms(2)] show ?case by fastforce
qed simp

lemma Clean_path_Join: "a \<noteq> [] \<Longrightarrow> Clean (path_Join a b) = path_Join a b"
  by (simp add: path_Join_def)



text \<open>
  Passing over a whole directory promises less: the bare mode skips the bundles in it, so a directory whose
  bundles do not load can be passed.
\<close>

lemma verify_dir_skips_bundles:
  "let F = ex_boot_files\<lparr>bf_ReadDir := (\<lambda>_. Inr (Some [(''b'', True), (''d.yaml'', False)])),
                        bf_Stat := (\<lambda>p. if p \<in> {''apis'', ''apis/b''} then Some True else if p = ''apis/b/bouncer.yaml'' then Some False else None),
                        bf_docs := (\<lambda>_. Inr [ex_spec ''d'' ''/d'']),
                        bf_manifest := (\<lambda>_. Inl ''invalid'')\<rparr>
   in runVerify ex_compiler (\<lambda>_. Inr ()) F [''apis''] = None \<and> LoadAll F ''apis'' = Inl ''invalid''"
  by code_simp

end
