(* ===== verification/Serve.thy ===== *)
theory Serve
  imports InitCmd Boot
begin

text \<open>
  \<^verbatim>\<open>bouncer serve\<close>, \<^verbatim>\<open>internal/cli/servecmd\<close>: from the parsed flags and environment to a loaded server.  The reading of
  flags and environment into the configuration (viper, \<^verbatim>\<open>cliconfig.Load\<close>) is an argument; logging and tracing options are
  left out.  Store kinds are the strings of the code.
\<close>

section \<open>Definitions\<close>

subsection \<open>The configuration\<close>

record serve_config =
  sc_Addr :: string
  sc_ApisDir :: string
  sc_PoliciesDir :: string
  sc_SecretHex :: string
  sc_InboundReadHeaderTimeout :: int
  sc_InboundReadTimeout :: int
  sc_InboundWriteTimeout :: int
  sc_InboundIdleTimeout :: int
  sc_UpstreamCallTimeout :: int
  sc_RefreshTTL :: int
  sc_MITM :: bool
  sc_MITMCAPath :: string
  sc_MITMCAKey :: string
  sc_TrafficStore :: string
  sc_TrafficDB :: string
  sc_TrafficBudget :: int
  sc_TrafficMaxAge :: int
  sc_PoliciesStore :: string
  sc_PoliciesDB :: string
  sc_PoliciesReadOnly :: bool
  sc_ProposalsStore :: string
  sc_ProposalsDB :: string
  sc_StoreDB :: string
  sc_AdminPasswordHash :: string
  sc_AdminPassword :: string
  sc_DataDir :: string
  sc_Init :: bool
  sc_WithApis :: "string list"
  sc_InternalPolicies :: string

definition TrafficStoreNone :: string where "TrafficStoreNone = ''none''"
definition TrafficStoreMemory :: string where "TrafficStoreMemory = ''memory''"
definition TrafficStoreSqlite :: string where "TrafficStoreSqlite = ''sqlite''"
definition PoliciesStoreFile :: string where "PoliciesStoreFile = ''file''"
definition PoliciesStoreMemory :: string where "PoliciesStoreMemory = ''memory''"
definition PoliciesStoreSqlite :: string where "PoliciesStoreSqlite = ''sqlite''"
definition ProposalsStoreMemory :: string where "ProposalsStoreMemory = ''memory''"
definition ProposalsStoreSqlite :: string where "ProposalsStoreSqlite = ''sqlite''"

definition TrafficStoreKind_UnmarshalText :: "string \<Rightarrow> string option" where
  "TrafficStoreKind_UnmarshalText b =
     (let s = ToLower (TrimSpace b) in if s \<in> {TrafficStoreNone, TrafficStoreMemory, TrafficStoreSqlite} then Some s else None)"

definition PoliciesStoreKind_UnmarshalText :: "string \<Rightarrow> string option" where
  "PoliciesStoreKind_UnmarshalText b =
     (let s = ToLower (TrimSpace b) in if s \<in> {PoliciesStoreFile, PoliciesStoreMemory, PoliciesStoreSqlite} then Some s else None)"

definition ProposalsStoreKind_UnmarshalText :: "string \<Rightarrow> string option" where
  "ProposalsStoreKind_UnmarshalText b =
     (let s = ToLower (TrimSpace b) in if s \<in> {ProposalsStoreMemory, ProposalsStoreSqlite} then Some s else None)"

text \<open>The defaults of the flags.\<close>

definition serve_defaults :: serve_config where
  "serve_defaults =
     \<lparr>sc_Addr = '':8080'', sc_ApisDir = ''./apis'', sc_PoliciesDir = ''./policies'', sc_SecretHex = [],
      sc_InboundReadHeaderTimeout = 5 * second, sc_InboundReadTimeout = 30 * second, sc_InboundWriteTimeout = 60 * second,
      sc_InboundIdleTimeout = 120 * second, sc_UpstreamCallTimeout = 30 * second, sc_RefreshTTL = 0,
      sc_MITM = True, sc_MITMCAPath = [], sc_MITMCAKey = [],
      sc_TrafficStore = ''none'', sc_TrafficDB = [], sc_TrafficBudget = 16 * 1024 * 1024, sc_TrafficMaxAge = 24 * 60 * minute,
      sc_PoliciesStore = ''file'', sc_PoliciesDB = [], sc_PoliciesReadOnly = False,
      sc_ProposalsStore = ''memory'', sc_ProposalsDB = [], sc_StoreDB = [],
      sc_AdminPasswordHash = [], sc_AdminPassword = [], sc_DataDir = [], sc_Init = False, sc_WithApis = [],
      sc_InternalPolicies = ''demo''\<rparr>"

text \<open>Which flags were given, and the environment's variables.\<close>

record flags =
  fl_Changed :: "string \<Rightarrow> bool"
  fl_LookupEnv :: "string \<Rightarrow> string option"

definition flagOrEnvSet :: "flags \<Rightarrow> string \<Rightarrow> bool" where
  "flagOrEnvSet fs name \<longleftrightarrow>
     fl_Changed fs name \<or> fl_LookupEnv fs (''BOUNCER'' @ ''_'' @ ToUpper (ReplaceAll name (CHR ''-'') ''_'')) \<noteq> None"

subsection \<open>Resolving it\<close>

definition defaultDataDirFromCwd :: "fs_world \<Rightarrow> serve_config \<Rightarrow> serve_config" where
  "defaultDataDirFromCwd w cfg =
     (if sc_DataDir cfg \<noteq> [] then cfg
      else if sc_Init cfg \<or> IsInitialized w ''.'' then cfg\<lparr>sc_DataDir := ''.''\<rparr> else cfg)"

definition bootstrapIfRequested :: "init_env \<Rightarrow> serve_config \<Rightarrow> fs_world \<Rightarrow> string option \<times> fs_world" where
  "bootstrapIfRequested E cfg w =
     (if \<not> sc_Init cfg then (None, w)
      else init_Run E (sc_DataDir cfg)
             \<lparr>io_AdminPassword = sc_AdminPassword cfg, io_MITM = sc_MITM cfg, io_MITMCommonName = [], io_Force = False,
              io_SkipIfInitialized = True, io_WithApis = sc_WithApis cfg\<rparr> w)"

definition installRequestedBundles :: "init_env \<Rightarrow> serve_config \<Rightarrow> fs_world \<Rightarrow> string option \<times> fs_world" where
  "installRequestedBundles E cfg w =
     (if sc_Init cfg \<or> sc_WithApis cfg = [] then (None, w)
      else InstallRefs (ce_codecs E) (ce_Do E) (ce_getenv E) (ce_now E) (sc_ApisDir cfg) (sc_WithApis cfg) w)"

definition resolveMITMDefault :: "flags \<Rightarrow> serve_config \<Rightarrow> serve_config" where
  "resolveMITMDefault fs cfg =
     (if flagOrEnvSet fs ''mitm'' then cfg
      else if sc_MITMCAPath cfg = [] \<or> sc_MITMCAKey cfg = [] then cfg\<lparr>sc_MITM := False\<rparr> else cfg)"

text \<open>A file that is there and cannot be read is an error; one that is not there is not.\<close>

definition data_dir_file :: "fs_world \<Rightarrow> string \<Rightarrow> string option \<Rightarrow> string + string option" where
  "data_dir_file w path contents =
     (case contents of Some v \<Rightarrow> Inr (Some v) | None \<Rightarrow> if os_Stat w path = None then Inr None else Inl ''data-dir'')"

definition secret_default :: "fs_world \<Rightarrow> flags \<Rightarrow> serve_config \<Rightarrow> string + serve_config" where
  "secret_default w fs cfg =
     (if \<not> flagOrEnvSet fs ''secret-hex'' \<and> sc_SecretHex cfg = []
      then (case data_dir_file w (path_Join (sc_DataDir cfg) SecretFile) (Layout_ReadSecret w (sc_DataDir cfg)) of
              Inl e \<Rightarrow> Inl e
            | Inr (Some v) \<Rightarrow> Inr (cfg\<lparr>sc_SecretHex := v\<rparr>)
            | Inr None \<Rightarrow> Inr cfg)
      else Inr cfg)"

definition dir_defaults :: "fs_world \<Rightarrow> flags \<Rightarrow> serve_config \<Rightarrow> serve_config" where
  "dir_defaults w fs cfg =
     (let cfg1 = (if \<not> flagOrEnvSet fs ''apis-dir'' \<and> Exists w (Layout_APIs (sc_DataDir cfg))
                  then cfg\<lparr>sc_ApisDir := Layout_APIs (sc_DataDir cfg)\<rparr> else cfg)
      in if \<not> flagOrEnvSet fs ''policies-dir'' \<and> Exists w (Layout_Policies (sc_DataDir cfg))
         then cfg1\<lparr>sc_PoliciesDir := Layout_Policies (sc_DataDir cfg)\<rparr> else cfg1)"

definition hash_default :: "fs_world \<Rightarrow> flags \<Rightarrow> serve_config \<Rightarrow> string + serve_config" where
  "hash_default w fs cfg =
     (if \<not> flagOrEnvSet fs ''admin-password-hash'' \<and> sc_AdminPasswordHash cfg = []
      then (case data_dir_file w (path_Join (sc_DataDir cfg) AdminPasswordFile) (Layout_ReadAdminHash w (sc_DataDir cfg)) of
              Inl e \<Rightarrow> Inl e
            | Inr (Some v) \<Rightarrow> Inr (cfg\<lparr>sc_AdminPasswordHash := v\<rparr>)
            | Inr None \<Rightarrow> Inr cfg)
      else Inr cfg)"

definition store_default :: "flags \<Rightarrow> serve_config \<Rightarrow> fs_world \<Rightarrow> (string + serve_config) \<times> fs_world" where
  "store_default fs cfg w =
     (if \<not> flagOrEnvSet fs ''store-db'' \<and> sc_StoreDB cfg = []
      then (case do_op (MkdirAll (Layout_Store (sc_DataDir cfg))) w of
              (False, w1) \<Rightarrow> (Inl ''data-dir store/'', w1)
            | (True, w1) \<Rightarrow>
                (let c1 = cfg\<lparr>sc_StoreDB := Layout_StoreDB (sc_DataDir cfg)\<rparr>;
                     c2 = (if \<not> flagOrEnvSet fs ''traffic-store'' then c1\<lparr>sc_TrafficStore := TrafficStoreSqlite\<rparr> else c1);
                     c3 = (if \<not> flagOrEnvSet fs ''policies-store'' then c2\<lparr>sc_PoliciesStore := PoliciesStoreSqlite\<rparr> else c2);
                     c4 = (if \<not> flagOrEnvSet fs ''proposals-store'' then c3\<lparr>sc_ProposalsStore := ProposalsStoreSqlite\<rparr> else c3)
                 in (Inr c4, w1)))
      else (Inr cfg, w))"

definition ca_defaults :: "fs_world \<Rightarrow> flags \<Rightarrow> serve_config \<Rightarrow> serve_config" where
  "ca_defaults w fs cfg =
     (let cfg1 = (if \<not> flagOrEnvSet fs ''mitm-ca-cert'' \<and> Exists w (Layout_MITMCert (sc_DataDir cfg))
                  then cfg\<lparr>sc_MITMCAPath := Layout_MITMCert (sc_DataDir cfg)\<rparr> else cfg)
      in if \<not> flagOrEnvSet fs ''mitm-ca-key'' \<and> Exists w (Layout_MITMKey (sc_DataDir cfg))
         then cfg1\<lparr>sc_MITMCAKey := Layout_MITMKey (sc_DataDir cfg)\<rparr> else cfg1)"

definition applyDataDir :: "flags \<Rightarrow> serve_config \<Rightarrow> fs_world \<Rightarrow> (string + serve_config) \<times> fs_world" where
  "applyDataDir fs cfg w =
     (if sc_DataDir cfg = [] then (Inr cfg, w)
      else (case secret_default w fs cfg of
              Inl e \<Rightarrow> (Inl e, w)
            | Inr c1 \<Rightarrow>
                (case hash_default w fs (dir_defaults w fs c1) of
                   Inl e \<Rightarrow> (Inl e, w)
                 | Inr c2 \<Rightarrow>
                     (case store_default fs c2 w of
                        (Inl e, w1) \<Rightarrow> (Inl e, w1)
                      | (Inr c3, w1) \<Rightarrow> (Inr (ca_defaults w1 fs c3), w1)))))"

definition validateStoreDB :: "bool \<Rightarrow> string \<Rightarrow> string \<Rightarrow> string option" where
  "validateStoreDB isSqlite perDB fallback =
     (if isSqlite \<and> perDB = [] \<and> fallback = [] then Some ''sqlite requires a db''
      else if \<not> isSqlite \<and> perDB \<noteq> [] then Some ''db set without sqlite'' else None)"

definition serve_validate :: "serve_config \<Rightarrow> string option" where
  "serve_validate c =
     (if sc_SecretHex c = [] then Some ''must set --secret-hex''
      else if sc_MITM c \<and> (sc_MITMCAPath c = [] \<or> sc_MITMCAKey c = []) then Some ''--mitm requires both --mitm-ca-cert and --mitm-ca-key''
      else (case validateStoreDB (sc_TrafficStore c = TrafficStoreSqlite) (sc_TrafficDB c) (sc_StoreDB c) of
              Some e \<Rightarrow> Some e
            | None \<Rightarrow>
                (case validateStoreDB (sc_PoliciesStore c = PoliciesStoreSqlite) (sc_PoliciesDB c) (sc_StoreDB c) of
                   Some e \<Rightarrow> Some e
                 | None \<Rightarrow>
                     (case validateStoreDB (sc_ProposalsStore c = ProposalsStoreSqlite) (sc_ProposalsDB c) (sc_StoreDB c) of
                        Some e \<Rightarrow> Some e
                      | None \<Rightarrow>
                          (case PolicySet_Validate (sc_InternalPolicies c) of Some _ \<Rightarrow> Some ''--internal-policies'' | None \<Rightarrow> None)))))"

definition buildConfig :: "init_env \<Rightarrow> flags \<Rightarrow> string + serve_config \<Rightarrow> fs_world \<Rightarrow> (string + serve_config) \<times> fs_world" where
  "buildConfig E fs loaded w =
     (case loaded of
        Inl e \<Rightarrow> (Inl e, w)
      | Inr cfg0 \<Rightarrow>
          (if fl_Changed fs ''admin-password'' \<and> \<not> sc_Init cfg0 then (Inl ''--admin-password requires --init'', w)
           else (let cfg1 = defaultDataDirFromCwd w cfg0
                 in case bootstrapIfRequested E cfg1 w of
                      (Some e, w1) \<Rightarrow> (Inl e, w1)
                    | (None, w1) \<Rightarrow>
                        (case applyDataDir fs cfg1 w1 of
                           (Inl e, w2) \<Rightarrow> (Inl e, w2)
                         | (Inr cfg2, w2) \<Rightarrow>
                             (case installRequestedBundles E cfg2 w2 of
                                (Some e, w3) \<Rightarrow> (Inl e, w3)
                              | (None, w3) \<Rightarrow>
                                  (let cfg3 = resolveMITMDefault fs cfg2
                                   in case serve_validate cfg3 of
                                        Some e \<Rightarrow> (Inl e, w3)
                                      | None \<Rightarrow> (Inr cfg3, w3)))))))"

subsection \<open>Opening the stores\<close>

text \<open>
  Opened databases are numbered in the order of their opening; the cache remembers the number of each path.
\<close>

record backendCache =
  bc_sqlite :: "(string \<times> nat) list"
  bc_open :: "string list"

record database =
  db_Open :: "string \<Rightarrow> bool"
  db_Migrate :: "string \<Rightarrow> string \<Rightarrow> bool"

definition sqliteAt :: "database \<Rightarrow> string \<Rightarrow> backendCache \<Rightarrow> nat option \<times> backendCache" where
  "sqliteAt D path c =
     (case map_of (bc_sqlite c) path of
        Some b \<Rightarrow> (Some b, c)
      | None \<Rightarrow>
          (if \<not> db_Open D path then (None, c)
           else (let b = length (bc_open c)
                 in (Some b, c\<lparr>bc_sqlite := (path, b) # bc_sqlite c, bc_open := bc_open c @ [path]\<rparr>))))"

text \<open>The databases that are closed, in this order.\<close>

definition closeAll :: "backendCache \<Rightarrow> nat list" where
  "closeAll c = rev [0..<length (bc_open c)]"

definition resolveDBPath :: "string \<Rightarrow> string \<Rightarrow> string" where
  "resolveDBPath perDomain fallback = (if perDomain \<noteq> [] then perDomain else fallback)"

datatype traffic_backend = TrafficOff | TrafficMemory Options | TrafficSqlite nat Options

datatype policy_backend = PolicyFile string | PolicyMemory | PolicySqlite nat | PolicyLayered nat string

datatype proposal_backend = ProposalMemory | ProposalSqlite nat

definition buildTraffic :: "database \<Rightarrow> serve_config \<Rightarrow> backendCache \<Rightarrow> (string + traffic_backend) \<times> backendCache" where
  "buildTraffic D cfg cache =
     (let opts = \<lparr>op_MaxBytes = sc_TrafficBudget cfg, op_MaxAge = sc_TrafficMaxAge cfg\<rparr>
      in if sc_TrafficStore cfg = TrafficStoreNone then (Inr TrafficOff, cache)
         else if sc_TrafficStore cfg = TrafficStoreMemory then (Inr (TrafficMemory opts), cache)
         else if sc_TrafficStore cfg = TrafficStoreSqlite then
           (let path = resolveDBPath (sc_TrafficDB cfg) (sc_StoreDB cfg)
            in case sqliteAt D path cache of
                 (None, c1) \<Rightarrow> (Inl ''open traffic db'', c1)
               | (Some b, c1) \<Rightarrow> if db_Migrate D ''traffic'' path then (Inr (TrafficSqlite b opts), c1) else (Inl ''traffic.Open'', c1))
         else (Inl ''unhandled traffic store'', cache))"

definition NewFileStore :: "fs_world \<Rightarrow> string \<Rightarrow> string option" where
  "NewFileStore w dir = (case os_Stat w dir of Some Dir \<Rightarrow> None | _ \<Rightarrow> Some ''policies dir'')"

definition buildPolicyStore :: "database \<Rightarrow> fs_world \<Rightarrow> serve_config \<Rightarrow> backendCache \<Rightarrow> (string + policy_backend) \<times> backendCache" where
  "buildPolicyStore D w cfg cache =
     (if sc_PoliciesStore cfg = PoliciesStoreFile then
        (case NewFileStore w (sc_PoliciesDir cfg) of Some e \<Rightarrow> (Inl e, cache) | None \<Rightarrow> (Inr (PolicyFile (sc_PoliciesDir cfg)), cache))
      else if sc_PoliciesStore cfg = PoliciesStoreMemory then (Inr PolicyMemory, cache)
      else if sc_PoliciesStore cfg = PoliciesStoreSqlite then
        (let path = resolveDBPath (sc_PoliciesDB cfg) (sc_StoreDB cfg)
         in case sqliteAt D path cache of
              (None, c1) \<Rightarrow> (Inl ''open policies db'', c1)
            | (Some b, c1) \<Rightarrow>
                (if \<not> db_Migrate D ''policies'' path then (Inl ''policies.Open'', c1)
                 else if Exists w (sc_PoliciesDir cfg) then
                   (case NewFileStore w (sc_PoliciesDir cfg) of
                      Some e \<Rightarrow> (Inl ''policies dir seed'', c1)
                    | None \<Rightarrow> (Inr (PolicyLayered b (sc_PoliciesDir cfg)), c1))
                 else (Inr (PolicySqlite b), c1)))
      else (Inl ''unhandled policies store'', cache))"

definition buildProposalStore :: "database \<Rightarrow> serve_config \<Rightarrow> backendCache \<Rightarrow> (string + proposal_backend) \<times> backendCache" where
  "buildProposalStore D cfg cache =
     (if sc_ProposalsStore cfg = ProposalsStoreMemory then (Inr ProposalMemory, cache)
      else if sc_ProposalsStore cfg = ProposalsStoreSqlite then
        (let path = resolveDBPath (sc_ProposalsDB cfg) (sc_StoreDB cfg)
         in case sqliteAt D path cache of
              (None, c1) \<Rightarrow> (Inl ''open proposals db'', c1)
            | (Some b, c1) \<Rightarrow> if db_Migrate D ''proposals'' path then (Inr (ProposalSqlite b), c1) else (Inl ''proposals.Open'', c1))
      else (Inl ''unhandled proposals store'', cache))"

subsection \<open>Serving\<close>

definition caDownloadPath :: "serve_config \<Rightarrow> string" where
  "caDownloadPath cfg = (if \<not> sc_MITM cfg then [] else sc_MITMCAPath cfg)"

text \<open>The listener: the router itself, or the router behind the TLS-terminating proxy.\<close>

datatype 'c listener = PathPrefix | Mitm "'c CA" mitm_handler

definition buildListenerHandler :: "pki \<Rightarrow> 'c lru \<Rightarrow> fs_world \<Rightarrow> serve_config \<Rightarrow> mitm_error + 'c listener" where
  "buildListenerHandler P L w cfg =
     (if \<not> sc_MITM cfg then Inr PathPrefix
      else (case CAFromFiles P L w (sc_MITMCAPath cfg) (sc_MITMCAKey cfg) of
              Inl e \<Rightarrow> Inl e
            | Inr ca \<Rightarrow> Inr (Mitm ca (mitm_New (sc_InboundIdleTimeout cfg) (sc_InboundReadHeaderTimeout cfg)))))"

record http_server =
  hs_Addr :: string
  hs_ReadHeaderTimeout :: int
  hs_ReadTimeout :: int
  hs_WriteTimeout :: int
  hs_IdleTimeout :: int

definition newHTTPServer :: "serve_config \<Rightarrow> http_server" where
  "newHTTPServer cfg =
     \<lparr>hs_Addr = sc_Addr cfg, hs_ReadHeaderTimeout = sc_InboundReadHeaderTimeout cfg, hs_ReadTimeout = sc_InboundReadTimeout cfg,
      hs_WriteTimeout = sc_InboundWriteTimeout cfg, hs_IdleTimeout = sc_InboundIdleTimeout cfg\<rparr>"

definition warnOpenControlPlane :: "serve_config \<Rightarrow> bool" where
  "warnOpenControlPlane cfg \<longleftrightarrow> sc_InternalPolicies cfg = ''demo''"

text \<open>
  What the chosen backends hold when the server starts, and the libraries the loader uses.
\<close>

record ('s, 'u, 'q, 'c) deployment =
  de_crypto :: crypto
  de_db :: database
  de_policies :: "policy_backend \<Rightarrow> 's Store \<times> 's"
  de_proposals :: "proposal_backend \<Rightarrow> 'q PropStore \<times> 'q"
  de_traffic :: "traffic_backend \<Rightarrow> TrafficReader option"
  de_compile :: compiler
  de_parse_url :: "string \<Rightarrow> err + 'u"
  de_files :: "fs_world \<Rightarrow> bundle_files"
  de_internal :: internal_files
  de_pki :: pki
  de_lru :: "'c lru"

record ('s, 'u, 'q, 'c) running =
  ru_deps :: "('s, 'u, 'q) Dependencies"
  ru_http :: http_server
  ru_listener :: "'c listener"
  ru_traffic :: traffic_backend
  ru_cache :: backendCache

datatype serve_error =
    SSecret auth_error
  | SKeys auth_error
  | SPolicyStore string
  | SProposalStore string
  | STrafficStore string
  | SLoad boot_error
  | SListener mitm_error

text \<open>A failing start gives its error and the databases it closes.\<close>

definition runServe ::
  "('s, 'u, 'q, 'c) deployment \<Rightarrow> fs_world \<Rightarrow> serve_config \<Rightarrow> (serve_error \<times> nat list) + ('s, 'u, 'q, 'c) running" where
  "runServe V w cfg =
     (case SecretFromHex (sc_SecretHex cfg) of
        Inl e \<Rightarrow> Inl (SSecret e, [])
      | Inr secret \<Rightarrow>
     (case FromSecret (de_crypto V) secret of
        Inl e \<Rightarrow> Inl (SKeys e, [])
      | Inr keys \<Rightarrow>
     (case buildPolicyStore (de_db V) w cfg \<lparr>bc_sqlite = [], bc_open = []\<rparr> of
        (Inl e, c1) \<Rightarrow> Inl (SPolicyStore e, closeAll c1)
      | (Inr pol, c1) \<Rightarrow>
     (case buildProposalStore (de_db V) cfg c1 of
        (Inl e, c2) \<Rightarrow> Inl (SProposalStore e, closeAll c2)
      | (Inr prop, c2) \<Rightarrow>
     (case buildTraffic (de_db V) cfg c2 of
        (Inl e, c3) \<Rightarrow> Inl (STrafficStore e, closeAll c3)
      | (Inr tr, c3) \<Rightarrow>
     (case Load (de_compile V) (de_parse_url V) (de_files V w) (de_internal V)
             \<lparr>cf_ApisDir = sc_ApisDir cfg, cf_PolicyStore = Some (de_policies V pol), cf_PolicyStoreReadOnly = sc_PoliciesReadOnly cfg,
              cf_ProposalStore = Some (de_proposals V prop), cf_RefreshTTL = sc_RefreshTTL cfg,
              cf_AdminPasswordHash = sc_AdminPasswordHash cfg, cf_MITMCAPath = caDownloadPath cfg,
              cf_InternalPolicies = sc_InternalPolicies cfg, cf_TrafficStore = de_traffic V tr\<rparr> keys of
        Inl e \<Rightarrow> Inl (SLoad e, closeAll c3)
      | Inr deps \<Rightarrow>
     (case buildListenerHandler (de_pki V) (de_lru V) w cfg of
        Inl e \<Rightarrow> Inl (SListener e, closeAll c3)
      | Inr h \<Rightarrow> Inr \<lparr>ru_deps = deps, ru_http = newHTTPServer cfg, ru_listener = h, ru_traffic = tr, ru_cache = c3\<rparr>)))))))"

subsection \<open>Shutting down\<close>

text \<open>The steps of a shutdown, in order.\<close>

datatype shutdown_step = StopHTTP | DrainRecorder | AbandonRecorder | CloseBackend nat | AwaitServe

definition closeAfterServe :: "bool \<Rightarrow> bool \<Rightarrow> backendCache \<Rightarrow> shutdown_step list" where
  "closeAfterServe recorder drained cache =
     (if recorder then (if drained then DrainRecorder # map CloseBackend (closeAll cache) else [AbandonRecorder])
      else map CloseBackend (closeAll cache))"

text \<open>The server ends by itself with an error, or a signal arrives; what its goroutine returns comes last.\<close>

definition runWithShutdown :: "string option option \<Rightarrow> string option \<Rightarrow> bool \<Rightarrow> bool \<Rightarrow> backendCache \<Rightarrow> string option \<times> shutdown_step list" where
  "runWithShutdown own serveErr recorder drained cache =
     (case own of
        Some err \<Rightarrow> (err, closeAfterServe recorder drained cache)
      | None \<Rightarrow> (serveErr, StopHTTP # closeAfterServe recorder drained cache @ [AwaitServe]))"

section \<open>What the operator gave is kept\<close>

text \<open>
  \<open>c'\<close> keeps of \<open>c\<close> every setting that a flag or a variable of the environment gave, and every setting the data
  directory has nothing to say about.
\<close>

definition keeps_given :: "flags \<Rightarrow> serve_config \<Rightarrow> serve_config \<Rightarrow> bool" where
  "keeps_given fs c c' \<longleftrightarrow>
     (flagOrEnvSet fs ''secret-hex'' \<or> sc_SecretHex c \<noteq> [] \<longrightarrow> sc_SecretHex c' = sc_SecretHex c)
     \<and> (flagOrEnvSet fs ''apis-dir'' \<longrightarrow> sc_ApisDir c' = sc_ApisDir c)
     \<and> (flagOrEnvSet fs ''policies-dir'' \<longrightarrow> sc_PoliciesDir c' = sc_PoliciesDir c)
     \<and> (flagOrEnvSet fs ''admin-password-hash'' \<or> sc_AdminPasswordHash c \<noteq> [] \<longrightarrow> sc_AdminPasswordHash c' = sc_AdminPasswordHash c)
     \<and> (flagOrEnvSet fs ''store-db'' \<or> sc_StoreDB c \<noteq> [] \<longrightarrow> sc_StoreDB c' = sc_StoreDB c)
     \<and> (flagOrEnvSet fs ''traffic-store'' \<longrightarrow> sc_TrafficStore c' = sc_TrafficStore c)
     \<and> (flagOrEnvSet fs ''policies-store'' \<longrightarrow> sc_PoliciesStore c' = sc_PoliciesStore c)
     \<and> (flagOrEnvSet fs ''proposals-store'' \<longrightarrow> sc_ProposalsStore c' = sc_ProposalsStore c)
     \<and> (flagOrEnvSet fs ''mitm-ca-cert'' \<longrightarrow> sc_MITMCAPath c' = sc_MITMCAPath c)
     \<and> (flagOrEnvSet fs ''mitm-ca-key'' \<longrightarrow> sc_MITMCAKey c' = sc_MITMCAKey c)
     \<and> (flagOrEnvSet fs ''mitm'' \<longrightarrow> sc_MITM c' = sc_MITM c) \<and> (sc_MITM c' \<longrightarrow> sc_MITM c)
     \<and> (sc_DataDir c \<noteq> [] \<longrightarrow> sc_DataDir c' = sc_DataDir c)
     \<and> (sc_Addr c', sc_InboundReadHeaderTimeout c', sc_InboundReadTimeout c', sc_InboundWriteTimeout c', sc_InboundIdleTimeout c',
        sc_UpstreamCallTimeout c', sc_RefreshTTL c', sc_TrafficDB c', sc_TrafficBudget c', sc_TrafficMaxAge c', sc_PoliciesDB c',
        sc_PoliciesReadOnly c', sc_ProposalsDB c', sc_AdminPassword c', sc_Init c', sc_WithApis c', sc_InternalPolicies c')
       = (sc_Addr c, sc_InboundReadHeaderTimeout c, sc_InboundReadTimeout c, sc_InboundWriteTimeout c, sc_InboundIdleTimeout c,
        sc_UpstreamCallTimeout c, sc_RefreshTTL c, sc_TrafficDB c, sc_TrafficBudget c, sc_TrafficMaxAge c, sc_PoliciesDB c,
        sc_PoliciesReadOnly c, sc_ProposalsDB c, sc_AdminPassword c, sc_Init c, sc_WithApis c, sc_InternalPolicies c)"

lemma keeps_given_refl [simp]: "keeps_given fs c c"
  by (simp add: keeps_given_def)

lemma keeps_given_trans [trans]:
  assumes "keeps_given fs a b" "keeps_given fs b c"
  shows "keeps_given fs a c"
  using assms unfolding keeps_given_def prod.inject by (intro conjI; metis)

text \<open>A step that has only defaults to add keeps what was given.\<close>

lemma if_update:
  "(if P then c\<lparr>sc_TrafficStore := a\<rparr> else c) = c\<lparr>sc_TrafficStore := (if P then a else sc_TrafficStore c)\<rparr>"
  "(if P then c\<lparr>sc_PoliciesStore := a\<rparr> else c) = c\<lparr>sc_PoliciesStore := (if P then a else sc_PoliciesStore c)\<rparr>"
  "(if P then c\<lparr>sc_ProposalsStore := a\<rparr> else c) = c\<lparr>sc_ProposalsStore := (if P then a else sc_ProposalsStore c)\<rparr>"
  by simp_all

lemma store_default_ok:
  assumes "store_default fs c w = (Inr c', w')"
  shows "c' = c \<and> w' = w \<and> (flagOrEnvSet fs ''store-db'' \<or> sc_StoreDB c \<noteq> [])
    \<or> \<not> flagOrEnvSet fs ''store-db'' \<and> sc_StoreDB c = [] \<and> do_op (MkdirAll (Layout_Store (sc_DataDir c))) w = (True, w')
      \<and> c' = c\<lparr>sc_StoreDB := Layout_StoreDB (sc_DataDir c),
                sc_TrafficStore := (if flagOrEnvSet fs ''traffic-store'' then sc_TrafficStore c else TrafficStoreSqlite),
                sc_PoliciesStore := (if flagOrEnvSet fs ''policies-store'' then sc_PoliciesStore c else PoliciesStoreSqlite),
                sc_ProposalsStore := (if flagOrEnvSet fs ''proposals-store'' then sc_ProposalsStore c else ProposalsStoreSqlite)\<rparr>"
proof -
  obtain ok w1 where 1: "do_op (MkdirAll (Layout_Store (sc_DataDir c))) w = (ok, w1)" by fastforce
  show ?thesis using assms 1 unfolding store_default_def Let_def if_update by (auto split: if_split_asm bool.split_asm)
qed

lemma keeps_given_steps:
  shows keeps_given_cwd: "keeps_given fs c (defaultDataDirFromCwd w c)"
    and keeps_given_secret: "secret_default w fs c = Inr c1 \<Longrightarrow> keeps_given fs c c1"
    and keeps_given_dirs: "keeps_given fs c (dir_defaults w fs c)"
    and keeps_given_hash: "hash_default w fs c = Inr c1 \<Longrightarrow> keeps_given fs c c1"
    and keeps_given_store: "store_default fs c w = (Inr c1, w1) \<Longrightarrow> keeps_given fs c c1"
    and keeps_given_ca: "keeps_given fs c (ca_defaults w fs c)"
    and keeps_given_mitm: "keeps_given fs c (resolveMITMDefault fs c)"
proof -
  show "keeps_given fs c (defaultDataDirFromCwd w c)" by (simp add: keeps_given_def defaultDataDirFromCwd_def)
  show "secret_default w fs c = Inr c1 \<Longrightarrow> keeps_given fs c c1"
    by (auto simp: secret_default_def split: if_splits sum.splits option.splits) (simp add: keeps_given_def)
  show "keeps_given fs c (dir_defaults w fs c)" by (simp add: keeps_given_def dir_defaults_def Let_def)
  show "hash_default w fs c = Inr c1 \<Longrightarrow> keeps_given fs c c1"
    by (auto simp: hash_default_def split: if_splits sum.splits option.splits) (simp add: keeps_given_def)
  show "store_default fs c w = (Inr c1, w1) \<Longrightarrow> keeps_given fs c c1"
    by (drule store_default_ok, elim disjE) (simp_all add: keeps_given_def)
  show "keeps_given fs c (ca_defaults w fs c)" by (simp add: keeps_given_def ca_defaults_def Let_def)
  show "keeps_given fs c (resolveMITMDefault fs c)" by (simp add: keeps_given_def resolveMITMDefault_def)
qed

lemma applyDataDir_cases:
  assumes "applyDataDir fs c w = (Inr c', w')"
  obtains "sc_DataDir c = []" "c' = c" "w' = w"
  | c1 c2 c3 where "sc_DataDir c \<noteq> []" "secret_default w fs c = Inr c1" "hash_default w fs (dir_defaults w fs c1) = Inr c2"
      "store_default fs c2 w = (Inr c3, w')" "c' = ca_defaults w' fs c3"
  using assms by (auto simp: applyDataDir_def split: if_splits sum.splits prod.splits)

lemma keeps_given_applyDataDir: "applyDataDir fs c w = (Inr c', w') \<Longrightarrow> keeps_given fs c c'"
proof (erule applyDataDir_cases)
  fix c1 c2 c3
  assume "secret_default w fs c = Inr c1" "hash_default w fs (dir_defaults w fs c1) = Inr c2" "store_default fs c2 w = (Inr c3, w')"
    and c': "c' = ca_defaults w' fs c3"
  note keeps_given_secret [OF this(1)]
  also note keeps_given_dirs
  also note keeps_given_hash [OF \<open>hash_default _ _ _ = _\<close>]
  also note keeps_given_store [OF \<open>store_default _ _ _ = _\<close>]
  also note keeps_given_ca [of fs c3 w', folded c']
  finally show ?thesis .
qed simp

lemma buildConfig_cases:
  assumes "buildConfig E fs (Inr c0) w = (Inr c, w')"
  obtains w1 c2 w2 where "fl_Changed fs ''admin-password'' \<longrightarrow> sc_Init c0" "bootstrapIfRequested E (defaultDataDirFromCwd w c0) w = (None, w1)"
    "applyDataDir fs (defaultDataDirFromCwd w c0) w1 = (Inr c2, w2)" "installRequestedBundles E c2 w2 = (None, w')"
    "c = resolveMITMDefault fs c2" "serve_validate c = None"
  using assms by (auto simp: buildConfig_def Let_def split: if_splits sum.splits prod.splits option.splits)

definition ex_flags :: "string list \<Rightarrow> flags" where
  "ex_flags given = \<lparr>fl_Changed = (\<lambda>n. n \<in> set given), fl_LookupEnv = (\<lambda>_. None)\<rparr>"

text \<open>What flags and environment say wins over the data directory, and the data directory says nothing about the rest.\<close>

theorem explicit_settings_win:
  assumes "buildConfig E fs (Inr c0) w = (Inr c, w')"
  shows "keeps_given fs c0 c"
  using assms
proof (cases rule: buildConfig_cases)
  case (1 w1 c2 w2)
  have "keeps_given fs c0 (defaultDataDirFromCwd w c0)" by (rule keeps_given_cwd)
  also have "keeps_given fs \<dots> c2" by (rule keeps_given_applyDataDir [OF 1(3)])
  also have "keeps_given fs c2 c" unfolding 1(5) by (rule keeps_given_mitm)
  finally show ?thesis .
qed

theorem explicit_settings_win_witness:
  "\<exists>c w. buildConfig (ex_init_env []) (ex_flags [''secret-hex'']) (Inr (serve_defaults\<lparr>sc_SecretHex := ''aa'', sc_DataDir := ''/d''\<rparr>)) ex_secret_world = (Inr c, w)
     \<and> sc_SecretHex c = ''aa'' \<and> sc_Addr c = '':8080''"
proof -
  let ?r = "buildConfig (ex_init_env []) (ex_flags [''secret-hex'']) (Inr (serve_defaults\<lparr>sc_SecretHex := ''aa'', sc_DataDir := ''/d''\<rparr>)) ex_secret_world"
  have "is_ok (fst ?r)" by code_simp
  then obtain c w where r: "?r = (Inr c, w)" by (cases ?r) (auto simp: is_ok_iff)
  from explicit_settings_win [OF r] r show ?thesis
    by (auto simp: keeps_given_def flagOrEnvSet_def ex_flags_def serve_defaults_def)
qed

section \<open>Opening the stores\<close>

definition kinds_valid :: "serve_config \<Rightarrow> bool" where
  "kinds_valid c \<longleftrightarrow>
     sc_TrafficStore c \<in> {''none'', ''memory'', ''sqlite''} \<and> sc_PoliciesStore c \<in> {''file'', ''memory'', ''sqlite''}
     \<and> sc_ProposalsStore c \<in> {''memory'', ''sqlite''}"

lemmas kind_defs = TrafficStoreNone_def TrafficStoreMemory_def TrafficStoreSqlite_def PoliciesStoreFile_def PoliciesStoreMemory_def
  PoliciesStoreSqlite_def ProposalsStoreMemory_def ProposalsStoreSqlite_def

text \<open>The decoders of the flags give such kinds.\<close>

lemma kinds_unmarshalled:
  "TrafficStoreKind_UnmarshalText b = Some k \<Longrightarrow> k \<in> {''none'', ''memory'', ''sqlite''}"
  "PoliciesStoreKind_UnmarshalText b = Some k \<Longrightarrow> k \<in> {''file'', ''memory'', ''sqlite''}"
  "ProposalsStoreKind_UnmarshalText b = Some k \<Longrightarrow> k \<in> {''memory'', ''sqlite''}"
  by (auto simp: TrafficStoreKind_UnmarshalText_def PoliciesStoreKind_UnmarshalText_def ProposalsStoreKind_UnmarshalText_def
      kind_defs Let_def split: if_splits)

lemma kinds_kept:
  assumes "applyDataDir fs c w = (Inr c', w')" "kinds_valid c"
  shows "kinds_valid c'"
  using assms(1)
proof (cases rule: applyDataDir_cases)
  case (2 c1 c2 c3)
  have "kinds_valid c1" using 2(2) assms(2) by (auto simp: secret_default_def kinds_valid_def split: if_splits sum.splits option.splits)
  then have "kinds_valid (dir_defaults w fs c1)" by (simp add: dir_defaults_def kinds_valid_def Let_def)
  then have "kinds_valid c2" using 2(3) by (auto simp: hash_default_def kinds_valid_def split: if_splits sum.splits option.splits)
  then have "kinds_valid c3" using store_default_ok [OF 2(4)] by (elim disjE) (simp_all add: kinds_valid_def kind_defs)
  then show ?thesis using 2(5) by (simp add: ca_defaults_def kinds_valid_def Let_def)
qed (use assms(2) in simp)

definition cache_ok :: "backendCache \<Rightarrow> bool" where
  "cache_ok c \<longleftrightarrow>
     distinct (bc_open c) \<and> [] \<notin> set (bc_open c)
     \<and> (\<forall>p b. map_of (bc_sqlite c) p = Some b \<longleftrightarrow> b < length (bc_open c) \<and> bc_open c ! b = p)"

text \<open>The handle a path gets is the one of its file, and keeps being that.\<close>

lemma sqliteAt_ok:
  assumes "cache_ok c" "sqliteAt D p c = (r, c')" "p \<noteq> []"
  shows "cache_ok c'" "prefix (bc_open c) (bc_open c')" "r = Some b \<Longrightarrow> b < length (bc_open c') \<and> bc_open c' ! b = p"
    "db_Open D p \<Longrightarrow> r \<noteq> None"
proof -
  have inv: "map_of (bc_sqlite c) p = Some b \<longleftrightarrow> b < length (bc_open c) \<and> bc_open c ! b = p" for p b
    using assms(1) by (simp add: cache_ok_def)
  have old: "map_of (bc_sqlite c) p = None \<Longrightarrow> p \<notin> set (bc_open c)" for p
    using inv by (metis in_set_conv_nth option.distinct(1))
  show "cache_ok c'"
    using assms old [of p] by (auto simp: sqliteAt_def cache_ok_def Let_def nth_append split: option.splits if_splits)
  show "prefix (bc_open c) (bc_open c')" "r = Some b \<Longrightarrow> b < length (bc_open c') \<and> bc_open c' ! b = p" "db_Open D p \<Longrightarrow> r \<noteq> None"
    using assms(2) inv by (auto simp: sqliteAt_def Let_def split: option.splits if_splits)
qed

definition opened :: "backendCache \<Rightarrow> nat \<Rightarrow> string \<Rightarrow> bool" where
  "opened c b p \<longleftrightarrow> b < length (bc_open c) \<and> bc_open c ! b = p"

lemma opened_mono: "opened c b p \<Longrightarrow> prefix (bc_open c) (bc_open c') \<Longrightarrow> opened c' b p"
  by (auto simp: opened_def prefix_def nth_append)

definition db_path :: "string \<Rightarrow> serve_config \<Rightarrow> string" where
  "db_path perDomain c = (if perDomain \<noteq> [] then perDomain else sc_StoreDB c)"

lemma validated:
  assumes "serve_validate c = None"
  shows "sc_SecretHex c \<noteq> []" "sc_MITM c \<Longrightarrow> sc_MITMCAPath c \<noteq> [] \<and> sc_MITMCAKey c \<noteq> []"
    "sc_TrafficStore c = TrafficStoreSqlite \<Longrightarrow> db_path (sc_TrafficDB c) c \<noteq> []"
    "sc_PoliciesStore c = PoliciesStoreSqlite \<Longrightarrow> db_path (sc_PoliciesDB c) c \<noteq> []"
    "sc_ProposalsStore c = ProposalsStoreSqlite \<Longrightarrow> db_path (sc_ProposalsDB c) c \<noteq> []"
  using assms by (auto simp: serve_validate_def validateStoreDB_def db_path_def split: if_splits option.splits)

text \<open>
  A validated configuration always finds its stores: where the databases open and the policies directory, if it is
  used, is a directory, no store fails, every database file is opened once, whichever domains share it, and each
  domain's handle is the one of its own file.
\<close>

theorem validated_stores_open:
  assumes "kinds_valid c" "serve_validate c = None" "\<forall>p. db_Open D p" "\<forall>n p. db_Migrate D n p" "os_Stat w (sc_PoliciesDir c) = Some Dir"
  shows "\<exists>pol c1 prp c2 tr c3. buildPolicyStore D w c \<lparr>bc_sqlite = [], bc_open = []\<rparr> = (Inr pol, c1)
    \<and> buildProposalStore D c c1 = (Inr prp, c2) \<and> buildTraffic D c c2 = (Inr tr, c3)
    \<and> distinct (bc_open c3) \<and> [] \<notin> set (bc_open c3)
    \<and> (\<forall>b d. pol = PolicyLayered b d \<longrightarrow> opened c3 b (db_path (sc_PoliciesDB c) c))
    \<and> (\<forall>b. prp = ProposalSqlite b \<longrightarrow> opened c3 b (db_path (sc_ProposalsDB c) c))
    \<and> (\<forall>b os. tr = TrafficSqlite b os \<longrightarrow> opened c3 b (db_path (sc_TrafficDB c) c))"
proof -
  let ?c0 = "\<lparr>bc_sqlite = [], bc_open = []\<rparr>"
  have ok0: "cache_ok ?c0" by (simp add: cache_ok_def)
  have pd: "Exists w (sc_PoliciesDir c)" "NewFileStore w (sc_PoliciesDir c) = None" using assms(5) by (simp_all add: Exists_def NewFileStore_def)
  have rp: "resolveDBPath p (sc_StoreDB c) = db_path p c" for p by (simp add: resolveDBPath_def db_path_def)
  have at: "\<exists>b c'. sqliteAt D p k = (Some b, c') \<and> cache_ok c' \<and> prefix (bc_open k) (bc_open c') \<and> opened c' b p"
    if "cache_ok k" "p \<noteq> []" for p k
  proof -
    obtain r c' where r: "sqliteAt D p k = (r, c')" by fastforce
    then show ?thesis using sqliteAt_ok [OF that(1) r that(2)] assms(3) by (auto simp: opened_def)
  qed
  note V = validated(3-5) [OF assms(2)]
  obtain pol c1 where 1: "buildPolicyStore D w c ?c0 = (Inr pol, c1)" "cache_ok c1"
    "\<forall>b d. pol = PolicyLayered b d \<longrightarrow> opened c1 b (db_path (sc_PoliciesDB c) c)"
  proof (cases "sc_PoliciesStore c = PoliciesStoreSqlite")
    case True
    obtain b c' where "sqliteAt D (db_path (sc_PoliciesDB c) c) ?c0 = (Some b, c')" "cache_ok c'" "opened c' b (db_path (sc_PoliciesDB c) c)"
      using at [OF ok0 V(2) [OF True]] by auto
    with True pd assms(4) that [of "PolicyLayered b (sc_PoliciesDir c)" c'] show ?thesis
      by (simp add: buildPolicyStore_def rp Let_def kind_defs)
  qed (use assms(1) pd ok0 that in \<open>auto simp: buildPolicyStore_def kinds_valid_def kind_defs\<close>)
  obtain prp c2 where 2: "buildProposalStore D c c1 = (Inr prp, c2)" "cache_ok c2" "prefix (bc_open c1) (bc_open c2)"
    "\<forall>b. prp = ProposalSqlite b \<longrightarrow> opened c2 b (db_path (sc_ProposalsDB c) c)"
  proof (cases "sc_ProposalsStore c = ProposalsStoreSqlite")
    case True
    obtain b c' where "sqliteAt D (db_path (sc_ProposalsDB c) c) c1 = (Some b, c')" "cache_ok c'" "prefix (bc_open c1) (bc_open c')"
      "opened c' b (db_path (sc_ProposalsDB c) c)" using at [OF 1(2) V(3) [OF True]] by auto
    with True assms(4) that [of "ProposalSqlite b" c'] show ?thesis
      by (simp add: buildProposalStore_def rp Let_def kind_defs)
  qed (use assms(1) 1(2) that in \<open>auto simp: buildProposalStore_def kinds_valid_def kind_defs\<close>)
  obtain tr c3 where 3: "buildTraffic D c c2 = (Inr tr, c3)" "cache_ok c3" "prefix (bc_open c2) (bc_open c3)"
    "\<forall>b os. tr = TrafficSqlite b os \<longrightarrow> opened c3 b (db_path (sc_TrafficDB c) c)"
  proof (cases "sc_TrafficStore c = TrafficStoreSqlite")
    case True
    obtain b c' where "sqliteAt D (db_path (sc_TrafficDB c) c) c2 = (Some b, c')" "cache_ok c'" "prefix (bc_open c2) (bc_open c')"
      "opened c' b (db_path (sc_TrafficDB c) c)" using at [OF 2(2) V(1) [OF True]] by auto
    with True assms(4) that [of "TrafficSqlite b \<lparr>op_MaxBytes = sc_TrafficBudget c, op_MaxAge = sc_TrafficMaxAge c\<rparr>" c'] show ?thesis
      by (simp add: buildTraffic_def rp Let_def kind_defs)
  qed (use assms(1) 2(2) that in \<open>auto simp: buildTraffic_def kinds_valid_def kind_defs Let_def\<close>)
  have "prefix (bc_open c1) (bc_open c3)" using 2(3) 3(3) by (rule prefix_order.trans)
  then have "\<forall>b d. pol = PolicyLayered b d \<longrightarrow> opened c3 b (db_path (sc_PoliciesDB c) c)"
    "\<forall>b. prp = ProposalSqlite b \<longrightarrow> opened c3 b (db_path (sc_ProposalsDB c) c)"
    using 1(3) 2(4) opened_mono 3(3) by blast+
  moreover have "distinct (bc_open c3)" "[] \<notin> set (bc_open c3)" using 3(2) by (simp_all add: cache_ok_def)
  ultimately show ?thesis using 1(1) 2(1) 3(1,4) by (intro exI conjI) assumption+
qed

text \<open>However the stores are chosen, a running server holds one handle per database file.\<close>

lemma shutdown_drains_first:
  "snd (runWithShutdown own err True drained cache) = xs @ CloseBackend b # ys \<Longrightarrow> DrainRecorder \<in> set xs"
  by (auto simp: runWithShutdown_def closeAfterServe_def append_eq_Cons_conv Cons_eq_append_conv split: option.splits if_splits)

section \<open>Init, then serve\<close>

lemma init_Run_plain:
  assumes "init_Run E dir opts w = (None, w1)" "io_WithApis opts = []" "\<not> io_SkipIfInitialized opts" "dir \<noteq> []"
  shows "bootstrap E dir opts w = (None, w1)"
  using assms by (auto simp: init_Run_def split: prod.splits option.splits)

lemma read_layout:
  assumes "dir \<noteq> []" "plain_name n" "map_of (w_fs w) (fkey dir @ [n]) = Some (File b)"
  shows "os_ReadFile w (path_Join dir n) = Some b" "Exists w (path_Join dir n)"
  using fkey_Join [OF assms(1,2)] assms(3) by (simp_all add: os_ReadFile_def Exists_def os_Stat_def)

text \<open>The configuration of a server on a freshly initialised directory, with no flag but the directory's.\<close>

definition data_dir_config :: "string \<Rightarrow> bool \<Rightarrow> string \<Rightarrow> string \<Rightarrow> serve_config" where
  "data_dir_config dir mitm secret hash =
     serve_defaults\<lparr>sc_DataDir := dir, sc_SecretHex := secret, sc_AdminPasswordHash := hash, sc_ApisDir := path_Join dir ''apis'',
       sc_PoliciesDir := path_Join dir ''policies'', sc_StoreDB := path_Join (path_Join dir ''store'') ''store.db'',
       sc_TrafficStore := ''sqlite'', sc_PoliciesStore := ''sqlite'', sc_ProposalsStore := ''sqlite'', sc_MITM := mitm,
       sc_MITMCAPath := (if mitm then path_Join dir ''mitm-ca.crt'' else []),
       sc_MITMCAKey := (if mitm then path_Join dir ''mitm-ca.key'' else [])\<rparr>"

lemmas layout_defs = Layout_APIs_def Layout_Policies_def Layout_Store_def Layout_StoreDB_def Layout_MITMCert_def Layout_MITMKey_def
  APIsDir_def PoliciesDir_def StoreDir_def StoreDBFile_def MITMCertFile_def MITMKeyFile_def

lemma ca_defaults_apis: "sc_WithApis (ca_defaults w fs c) = sc_WithApis c"
  using keeps_given_ca [of fs c w] by (simp add: keeps_given_def)

text \<open>The certificate authority's files are where they were, and there exactly when init was asked for them.\<close>

lemma initialised_ca:
  assumes "initialised E opts dir raw hash w" "\<not> io_Force opts" "dir \<noteq> []"
    and "do_op (MkdirAll (path_Join dir StoreDir)) w = (True, w1)"
  shows "Exists w1 (Layout_MITMCert dir) = io_MITM opts" "Exists w1 (Layout_MITMKey dir) = io_MITM opts"
proof -
  have k: "fkey (path_Join dir n) = fkey dir @ [n]" if "plain_name n" for n using fkey_Join [OF assms(3) that] .
  have keep: "os_Stat w1 (path_Join dir n) = os_Stat w (path_Join dir n)" if "n \<in> {MITMCertFile, MITMKeyFile}" for n
  proof -
    have n: "plain_name n" "n \<noteq> StoreDir" using that layout_distinct by auto
    have "\<not> prefix (fkey dir @ [n]) (fkey (path_Join dir StoreDir))" using n(2) by (simp add: k)
    then have "map_of (w_fs w1) (fkey dir @ [n]) = map_of (w_fs w) (fkey dir @ [n])" using mkdir_monotone [OF assms(4)] by metis
    moreover have "n \<noteq> ''/''" using n(1) by (auto simp: plain_name_def)
    ultimately show ?thesis using n(1) by (simp add: os_Stat_def k is_dir_snoc)
  qed
  have here: "(os_Stat w1 (path_Join dir n) \<noteq> None) = io_MITM opts" if n: "n \<in> {MITMCertFile, MITMKeyFile}" for n
  proof (cases "io_MITM opts")
    case True
    then obtain b where "map_of (w_fs w) (fkey dir @ [n]) = Some (File b)" using assms(1) n unfolding initialised_def by blast
    then show ?thesis using True keep [OF n] n by (auto simp: os_Stat_def k)
  next
    case False
    then have "map_of (w_fs w) (fkey dir @ [n]) = None" using assms(1,2) n unfolding initialised_def by blast
    moreover have "plain_name n" "n \<noteq> ''/''" using n by (auto simp: plain_name_def MITMCertFile_def MITMKeyFile_def)
    ultimately show ?thesis using False keep [OF n] by (simp add: os_Stat_def k is_dir_snoc)
  qed
  show "Exists w1 (Layout_MITMCert dir) = io_MITM opts" "Exists w1 (Layout_MITMKey dir) = io_MITM opts"
    using here by (simp_all add: Exists_def Layout_MITMCert_def Layout_MITMKey_def)
qed

lemma initialised_apply:
  assumes "initialised E opts dir raw hash w" "dir \<noteq> []" "EncodeToString raw \<noteq> []" "hash \<noteq> []"
    and "list_all (\<lambda>c. CHR 0x21 \<le> c \<and> c \<le> CHR 0x7E) hash" "\<And>n. \<not> flagOrEnvSet fs n"
    and "do_op (MkdirAll (path_Join dir StoreDir)) w = (True, w1)"
  shows "applyDataDir fs (serve_defaults\<lparr>sc_DataDir := dir\<rparr>) w =
    (Inr (ca_defaults w1 fs (serve_defaults\<lparr>sc_DataDir := dir, sc_SecretHex := EncodeToString raw, sc_ApisDir := Layout_APIs dir,
      sc_PoliciesDir := Layout_Policies dir, sc_AdminPasswordHash := hash, sc_StoreDB := Layout_StoreDB dir, sc_TrafficStore := ''sqlite'',
      sc_PoliciesStore := ''sqlite'', sc_ProposalsStore := ''sqlite''\<rparr>)), w1)"
proof -
  let ?c0 = "serve_defaults\<lparr>sc_DataDir := dir\<rparr>"
  have k: "fkey (path_Join dir n) = fkey dir @ [n]" if "plain_name n" for n using fkey_Join [OF assms(2) that] .
  have secret: "Layout_ReadSecret w dir = Some (EncodeToString raw)"
    using assms(1) read_layout(1) [OF assms(2), of SecretFile w] assms(3)
    by (simp add: initialised_def Layout_ReadSecret_def readTrimmed_def TrimSpace_line EncodeToString_graphic)
  have hash: "Layout_ReadAdminHash w dir = Some hash"
    using assms(1,4,5) read_layout(1) [OF assms(2), of AdminPasswordFile w]
    by (simp add: initialised_def Layout_ReadAdminHash_def readTrimmed_def TrimSpace_line)
  have dirs: "Exists w (Layout_APIs dir)" "Exists w (Layout_Policies dir)"
    using assms(1) by (simp_all add: initialised_def Exists_def os_Stat_def Layout_APIs_def Layout_Policies_def k)
  have s1: "secret_default w fs ?c0 = Inr (?c0\<lparr>sc_SecretHex := EncodeToString raw\<rparr>)"
    using assms(6) secret by (simp add: secret_default_def data_dir_file_def serve_defaults_def)
  have s2: "dir_defaults w fs (?c0\<lparr>sc_SecretHex := EncodeToString raw\<rparr>)
      = ?c0\<lparr>sc_SecretHex := EncodeToString raw, sc_ApisDir := Layout_APIs dir, sc_PoliciesDir := Layout_Policies dir\<rparr>"
    using assms(6) dirs by (simp add: dir_defaults_def)
  have s3: "hash_default w fs (?c0\<lparr>sc_SecretHex := EncodeToString raw, sc_ApisDir := Layout_APIs dir, sc_PoliciesDir := Layout_Policies dir\<rparr>)
      = Inr (?c0\<lparr>sc_SecretHex := EncodeToString raw, sc_ApisDir := Layout_APIs dir, sc_PoliciesDir := Layout_Policies dir, sc_AdminPasswordHash := hash\<rparr>)"
    using assms(6) hash by (simp add: hash_default_def data_dir_file_def serve_defaults_def)
  show ?thesis
    unfolding applyDataDir_def using assms(2,6,7) by (simp add: s1 s2 s3 store_default_def Layout_Store_def kind_defs) (simp add: serve_defaults_def)
qed

lemma initialised_config:
  assumes "initialised E opts dir raw hash w" "\<not> io_Force opts" "dir \<noteq> []" "raw \<noteq> []" "hash \<noteq> []"
    and "list_all (\<lambda>c. CHR 0x21 \<le> c \<and> c \<le> CHR 0x7E) hash" "\<And>n. \<not> flagOrEnvSet fs n"
    and "do_op (MkdirAll (path_Join dir StoreDir)) w = (True, w1)"
  shows "buildConfig E' fs (Inr (serve_defaults\<lparr>sc_DataDir := dir\<rparr>)) w =
    (Inr (data_dir_config dir (io_MITM opts) (EncodeToString raw) hash), w1)"
proof -
  let ?c0 = "serve_defaults\<lparr>sc_DataDir := dir\<rparr>"
  have ne: "EncodeToString raw \<noteq> []" using assms(4) by (cases raw) simp_all
  note app = initialised_apply [OF assms(1,3) ne assms(5-8)]
  note ca = initialised_ca [OF assms(1,2,3,8)]
  have val: "serve_validate (data_dir_config dir (io_MITM opts) (EncodeToString raw) hash) = None"
  proof -
    have "PolicySet_Validate ''demo'' = None" by code_simp
    then show ?thesis using ne
      by (simp add: serve_validate_def data_dir_config_def validateStoreDB_def serve_defaults_def kind_defs path_Join_def)
  qed
  have res: "resolveMITMDefault fs (ca_defaults w1 fs (?c0\<lparr>sc_SecretHex := EncodeToString raw, sc_ApisDir := Layout_APIs dir,
      sc_PoliciesDir := Layout_Policies dir, sc_AdminPasswordHash := hash, sc_StoreDB := Layout_StoreDB dir, sc_TrafficStore := ''sqlite'',
      sc_PoliciesStore := ''sqlite'', sc_ProposalsStore := ''sqlite''\<rparr>)) = data_dir_config dir (io_MITM opts) (EncodeToString raw) hash"
    using assms(7) ca
    by (cases "io_MITM opts") (simp_all add: ca_defaults_def resolveMITMDefault_def data_dir_config_def layout_defs serve_defaults_def path_Join_def)
  have "\<not> fl_Changed fs ''admin-password''" using assms(7) by (simp add: flagOrEnvSet_def)
  moreover have "defaultDataDirFromCwd w ?c0 = ?c0" using assms(3) by (simp add: defaultDataDirFromCwd_def)
  moreover have "bootstrapIfRequested E' ?c0 w = (None, w)" by (simp add: bootstrapIfRequested_def serve_defaults_def)
  moreover have "installRequestedBundles E' (ca_defaults w1 fs (?c0\<lparr>sc_SecretHex := s, sc_ApisDir := a,
      sc_PoliciesDir := p, sc_AdminPasswordHash := h, sc_StoreDB := d, sc_TrafficStore := x, sc_PoliciesStore := y, sc_ProposalsStore := z\<rparr>)) w1 = (None, w1)"
    for s a p h d x y z by (simp add: installRequestedBundles_def ca_defaults_apis) (simp add: serve_defaults_def)
  ultimately show ?thesis unfolding buildConfig_def by (simp add: app res val)
qed

text \<open>
  C8: a server finds what init made.  After a successful \<^verbatim>\<open>bouncer init\<close> of a directory, \<^verbatim>\<open>bouncer serve\<close> with nothing but
  that directory resolves to a valid configuration: its secret decodes to the 32 bytes init drew, its password hash
  is the one of the password init was given, API and policy directories are the ones init made, all three stores
  are in the directory's database, and the listener terminates TLS, under a certificate authority that loads, exactly
  when init was asked for one.
\<close>

theorem init_then_serve:
  assumes "init_Run E dir opts w = (None, w1)" "io_WithApis opts = []" "\<not> io_Force opts" "\<not> io_SkipIfInitialized opts" "dir \<noteq> []"
    and "\<forall>raw. ie_secret E = Some raw \<longrightarrow> length raw = 32"
    and "\<forall>p h. ie_bcrypt E p = Some h \<longrightarrow> h \<noteq> [] \<and> list_all (\<lambda>c. CHR 0x21 \<le> c \<and> c \<le> CHR 0x7E) h"
    and "\<forall>n. \<not> flagOrEnvSet fs n" "\<forall>l op. \<not> w_fails w1 l op"
    and "pki_roundtrip (ie_pki E)" "lru_New L DefaultMaxCacheSize \<noteq> None"
  shows "\<exists>c w2 raw pw h. buildConfig E' fs (Inr (serve_defaults\<lparr>sc_DataDir := dir\<rparr>)) w1 = (Inr c, w2)
    \<and> ie_secret E = Some raw \<and> SecretFromHex (sc_SecretHex c) = Inr raw
    \<and> resolvePassword E (io_AdminPassword opts) = Inr pw \<and> ie_bcrypt E pw = Some (sc_AdminPasswordHash c)
    \<and> sc_ApisDir c = path_Join dir ''apis'' \<and> sc_PoliciesDir c = path_Join dir ''policies''
    \<and> os_Stat w2 (sc_ApisDir c) = Some Dir \<and> os_Stat w2 (sc_PoliciesDir c) = Some Dir
    \<and> sc_TrafficStore c = ''sqlite'' \<and> sc_PoliciesStore c = ''sqlite'' \<and> sc_ProposalsStore c = ''sqlite''
    \<and> sc_StoreDB c = path_Join (path_Join dir ''store'') ''store.db''
    \<and> buildListenerHandler (ie_pki E) L w2 c = Inr h \<and> (h = PathPrefix \<longleftrightarrow> \<not> io_MITM opts)"
proof -
  have b: "bootstrap E dir opts w = (None, w1)" by (rule init_Run_plain [OF assms(1,2,4,5)])
  obtain raw pw hash where i: "ie_secret E = Some raw" "resolvePassword E (io_AdminPassword opts) = Inr pw" "ie_bcrypt E pw = Some hash"
    "initialised E opts dir raw hash w1" using bootstrap_ok [OF b] by blast
  have k: "fkey (path_Join dir n) = fkey dir @ [n]" if "plain_name n" for n using fkey_Join [OF assms(5) that] .
  have "op_ok (w_fs w1) (MkdirAll (path_Join dir StoreDir))"
    using bootstrap_store_path [OF b] by (auto simp: k list_all_iff)
  then obtain w2 where w2: "do_op (MkdirAll (path_Join dir StoreDir)) w1 = (True, w2)" using assms(9) by (simp add: do_op_def)
  let ?c = "data_dir_config dir (io_MITM opts) (EncodeToString raw) hash"
  have len: "length raw = 32" using assms(6) i(1) by blast
  have c: "buildConfig E' fs (Inr (serve_defaults\<lparr>sc_DataDir := dir\<rparr>)) w1 = (Inr ?c, w2)"
    using assms(3,5,7,8) i(3,4) len by (intro initialised_config [OF _ _ _ _ _ _ _ w2]) auto
  have same: "map_of (w_fs w2) (fkey dir @ [n]) = map_of (w_fs w1) (fkey dir @ [n])" if "map_of (w_fs w1) (fkey dir @ [n]) \<noteq> None" for n
    using mkdir_monotone [OF w2, of "fkey dir @ [n]"] that by auto
  have dirs: "os_Stat w2 (path_Join dir n) = Some Dir" if "n \<in> {APIsDir, PoliciesDir}" for n
  proof -
    have "is_dir (w_fs w1) (fkey dir @ [n])" "plain_name n" using that i(4) by (auto simp: initialised_def)
    then show ?thesis using same [of n] by (auto simp: os_Stat_def k is_dir_def)
  qed
  have "\<exists>h. buildListenerHandler (ie_pki E) L w2 ?c = Inr h \<and> (h = PathPrefix \<longleftrightarrow> \<not> io_MITM opts)"
  proof (cases "io_MITM opts")
    case True
    then obtain cert key where ck: "GenerateCA (ie_pki E) (ie_draw E) (ce_now E) (ce_now E)
        (if io_MITMCommonName opts = [] then ''bouncer MITM CA'' else io_MITMCommonName opts) ca_validity = Inr (cert, key)"
      "map_of (w_fs w1) (fkey dir @ [MITMCertFile]) = Some (File cert)" "map_of (w_fs w1) (fkey dir @ [MITMKeyFile]) = Some (File key)"
      using i(4) unfolding initialised_def by blast
    have "os_ReadFile w2 (path_Join dir MITMCertFile) = Some cert" "os_ReadFile w2 (path_Join dir MITMKeyFile) = Some key"
      using ck(2,3) same by (simp_all add: os_ReadFile_def k)
    moreover from assms(11) obtain cache where cache: "lru_New L DefaultMaxCacheSize = Some cache" by auto
    from GenerateCA_loads [OF assms(10) cache ck(1)] obtain ca where "CAFromPEM (ie_pki E) L cert key = Inr ca" by auto
    ultimately show ?thesis
      using True by (simp add: buildListenerHandler_def data_dir_config_def CAFromFiles_def MITMCertFile_def MITMKeyFile_def)
  qed (simp add: buildListenerHandler_def data_dir_config_def)
  then obtain h where "buildListenerHandler (ie_pki E) L w2 ?c = Inr h" "h = PathPrefix \<longleftrightarrow> \<not> io_MITM opts" by blast
  moreover have "SecretFromHex (EncodeToString raw) = Inr raw" using len by (simp add: SecretFromHex_def hex_decode_EncodeToString)
  moreover have "sc_SecretHex ?c = EncodeToString raw" "sc_AdminPasswordHash ?c = hash" "sc_ApisDir ?c = path_Join dir ''apis''"
    "sc_PoliciesDir ?c = path_Join dir ''policies''" "sc_TrafficStore ?c = ''sqlite''" "sc_PoliciesStore ?c = ''sqlite''"
    "sc_ProposalsStore ?c = ''sqlite''" "sc_StoreDB ?c = path_Join (path_Join dir ''store'') ''store.db''"
    by (simp_all add: data_dir_config_def)
  moreover have "os_Stat w2 (path_Join dir ''apis'') = Some Dir" "os_Stat w2 (path_Join dir ''policies'') = Some Dir"
    using dirs by (simp_all add: APIsDir_def PoliciesDir_def)
  ultimately show ?thesis
    using c i(1-3) by (intro exI [of _ ?c] exI [of _ w2] exI [of _ raw] exI [of _ pw] exI [of _ h] conjI) (simp_all only:)
qed

theorem init_then_serve_witness:
  "\<exists>w1 c w2 h. init_Run (ex_init_env ''pw'') ''/d'' (ex_init_options\<lparr>io_SkipIfInitialized := False\<rparr>) ex_empty_world = (None, w1)
     \<and> buildConfig (ex_init_env []) (ex_flags []) (Inr (serve_defaults\<lparr>sc_DataDir := ''/d''\<rparr>)) w1 = (Inr c, w2)
     \<and> SecretFromHex (sc_SecretHex c) = Inr (replicate 32 7) \<and> sc_StoreDB c = path_Join (path_Join ''/d'' ''store'') ''store.db''
     \<and> buildListenerHandler ex_pki ex_lru w2 c = Inr h \<and> h \<noteq> PathPrefix"
proof -
  let ?r = "init_Run (ex_init_env ''pw'') ''/d'' (ex_init_options\<lparr>io_SkipIfInitialized := False\<rparr>) ex_empty_world"
  have "fst ?r = None" by code_simp
  then have r: "?r = (None, snd ?r)" by (metis prod.collapse)
  have nf: "\<not> w_fails (snd ?r) l op" for l op by code_simp
  have secret: "ie_secret (ex_init_env ''pw'') = Some raw \<Longrightarrow> raw = replicate 32 7" for raw by (simp add: ex_init_env_def)
  have 1: "\<forall>raw. ie_secret (ex_init_env ''pw'') = Some raw \<longrightarrow> length raw = 32" by (auto dest!: secret)
  have 2: "\<forall>p h. ie_bcrypt (ex_init_env ''pw'') p = Some h \<longrightarrow> h \<noteq> [] \<and> list_all (\<lambda>c. CHR 0x21 \<le> c \<and> c \<le> CHR 0x7E) h"
    by (auto simp: ex_init_env_def less_eq_char_def split: if_splits)
  have 3: "\<forall>n. \<not> flagOrEnvSet (ex_flags []) n" by (simp add: flagOrEnvSet_def ex_flags_def)
  have 4: "pki_roundtrip (ie_pki (ex_init_env ''pw''))" using ex_pki_roundtrip by (simp add: ex_init_env_def)
  have 5: "lru_New ex_lru DefaultMaxCacheSize \<noteq> None" by (simp add: ex_lru_def)
  have 6: "ie_pki (ex_init_env ''pw'') = ex_pki" by (simp add: ex_init_env_def)
  from init_then_serve [OF r _ _ _ _ 1 2 3 _ 4 5, of "ex_init_env []", unfolded 6] nf obtain c w2 raw h where
    "buildConfig (ex_init_env []) (ex_flags []) (Inr (serve_defaults\<lparr>sc_DataDir := ''/d''\<rparr>)) (snd ?r) = (Inr c, w2)"
    "ie_secret (ex_init_env ''pw'') = Some raw" "SecretFromHex (sc_SecretHex c) = Inr raw"
    "sc_StoreDB c = path_Join (path_Join ''/d'' ''store'') ''store.db''" "buildListenerHandler ex_pki ex_lru w2 c = Inr h" "h \<noteq> PathPrefix"
    by (auto simp: ex_init_options_def)
  then show ?thesis using r secret by blast
qed

end
