(* ===== verification/IssueTokenCmd.thy ===== *)
theory IssueTokenCmd
  imports Serve
begin

text \<open>
  \<^verbatim>\<open>bouncer issue-token\<close>, \<^verbatim>\<open>internal/cli/issuetokencmd\<close>: one access token on standard output, or a credentials file with a
  refresh token.  The reading of flags and environment into the configuration, URL parsing and the JSON codecs are
  parameters.
\<close>

section \<open>Definitions\<close>

record issue_config =
  ic_Subject :: string
  ic_SecretHex :: string
  ic_AccessToken :: string
  ic_TTL :: int
  ic_Headers :: "string list"
  ic_OutPath :: string
  ic_CredentialsFile :: string
  ic_ProxyURL :: string
  ic_TokenURL :: string
  ic_RefreshTTL :: int
  ic_Admin :: bool

definition defaultGoogleTokenURL :: string where "defaultGoogleTokenURL = ''https://oauth2.googleapis.com/token''"

definition issue_defaults :: issue_config where
  "issue_defaults =
     \<lparr>ic_Subject = [], ic_SecretHex = [], ic_AccessToken = [], ic_TTL = 60 * minute, ic_Headers = [], ic_OutPath = [],
      ic_CredentialsFile = [], ic_ProxyURL = [], ic_TokenURL = defaultGoogleTokenURL, ic_RefreshTTL = 0, ic_Admin = False\<rparr>"

datatype issue_mode = modeAccess | modeCredentials

definition config_mode :: "issue_config \<Rightarrow> issue_mode" where
  "config_mode c = (if ic_OutPath c \<noteq> [] then modeCredentials else modeAccess)"

subsection \<open>The configuration\<close>

definition defaultSecretFromDataDir ::
  "fs_world \<Rightarrow> (string \<Rightarrow> string) \<Rightarrow> flags \<Rightarrow> string \<Rightarrow> issue_config \<Rightarrow> string + issue_config" where
  "defaultSecretFromDataDir w getenv fs dataDir cfg =
     (if ic_SecretHex cfg \<noteq> [] then Inr cfg
      else if fl_Changed fs ''secret-hex'' then Inr cfg
      else (let dir = datadir_Resolve w getenv dataDir
            in if dir = [] then Inr cfg
               else (case Layout_ReadSecret w dir of
                       Some hex \<Rightarrow> Inr (cfg\<lparr>ic_SecretHex := hex\<rparr>)
                     | None \<Rightarrow> if os_Stat w (path_Join dir SecretFile) = None then Inr cfg else Inl ''read secret'')))"

record parsed_url =
  pu_Scheme :: string
  pu_Host :: string
  pu_Path :: string
  pu_RawQuery :: string
  pu_Fragment :: string

definition normalizeOrigin :: "(string \<Rightarrow> parsed_url option) \<Rightarrow> string \<Rightarrow> string + string" where
  "normalizeOrigin parse raw =
     (case parse raw of
        None \<Rightarrow> Inl ''not a URL''
      | Some u \<Rightarrow>
          (if pu_Scheme u \<noteq> ''http'' \<and> pu_Scheme u \<noteq> ''https'' then Inl ''must be an absolute http(s) URL''
           else if pu_Host u = [] then Inl ''missing host''
           else if dropWhile (\<lambda>c. c = slash) (pu_Path u) \<noteq> [] then Inl ''must be the proxy origin (no path)''
           else if pu_RawQuery u \<noteq> [] \<or> pu_Fragment u \<noteq> [] then Inl ''must be the proxy origin (no query/fragment)''
           else Inr (pu_Scheme u @ ''://'' @ pu_Host u)))"

definition issue_validate :: "(string \<Rightarrow> parsed_url option) \<Rightarrow> issue_config \<Rightarrow> string + issue_config" where
  "issue_validate parse c =
     (if ic_SecretHex c = [] then Inl ''must set --secret-hex''
      else if ic_Subject c = [] then Inl ''--subject is required''
      else if config_mode c = modeAccess then
        (if ic_AccessToken c = [] \<and> ic_Headers c = [] then Inl ''at least one of --access-token or --header is required''
         else if ic_TTL c \<le> 0 then Inl ''--ttl must be positive''
         else Inr c)
      else if ic_CredentialsFile c = [] then Inl ''--credentials-file is required''
      else if ic_ProxyURL c = [] then Inl ''--proxy-url is required''
      else (case normalizeOrigin parse (ic_ProxyURL c) of
              Inl e \<Rightarrow> Inl e
            | Inr normalized \<Rightarrow>
                (if ic_TokenURL c = [] then Inl ''--token-url is required'' else Inr (c\<lparr>ic_ProxyURL := normalized\<rparr>))))"

definition configFromFlags ::
  "(string \<Rightarrow> parsed_url option) \<Rightarrow> fs_world \<Rightarrow> (string \<Rightarrow> string) \<Rightarrow> flags \<Rightarrow> string \<Rightarrow> string + issue_config \<Rightarrow> string + issue_config" where
  "configFromFlags parse w getenv fs dataDir loaded =
     (case loaded of
        Inl e \<Rightarrow> Inl e
      | Inr cfg0 \<Rightarrow>
          (case defaultSecretFromDataDir w getenv fs dataDir cfg0 of
             Inl e \<Rightarrow> Inl e
           | Inr cfg \<Rightarrow> issue_validate parse cfg))"

subsection \<open>Issuing\<close>

text \<open>\<^verbatim>\<open>strings.Cut(s, "=")\<close>; then both parts are trimmed.\<close>

fun parseHeaderPairs :: "string list \<Rightarrow> string + Header list" where
  "parseHeaderPairs [] = Inr []"
| "parseHeaderPairs (s # ss) =
     (if CHR ''='' \<notin> set s then Inl ''expected Name=Value''
      else (let k = TrimSpace (takeWhile (\<lambda>c. c \<noteq> CHR ''='') s); v = TrimSpace (drop 1 (dropWhile (\<lambda>c. c \<noteq> CHR ''='') s))
            in if k = [] \<or> v = [] then Inl ''name and value are required''
               else (case parseHeaderPairs ss of Inl e \<Rightarrow> Inl e | Inr hs \<Rightarrow> Inr (\<lparr>hd_Name = k, hd_Value = v\<rparr> # hs))))"

record credentialsFile =
  cf_ClientID :: string
  cf_ClientSecret :: string
  cf_RefreshToken :: string

record credentialsDoc =
  cd_Type :: string
  cd_ClientID :: string
  cd_ClientSecret :: string
  cd_RefreshToken :: string
  cd_TokenURI :: string

definition credentialsType :: string where "credentialsType = ''authorized_user''"

datatype issue_error =
    ISecret auth_error
  | IKeys auth_error
  | IHeader string
  | IIssue token_error
  | ICredentials string
  | IRefresh auth_error
  | IMarshal
  | IWrite

datatype issue_output = Printed string | Wrote string

record issue_env =
  iv_crypto :: crypto
  iv_nonce :: "byte list"
  iv_now :: int
  iv_now' :: int
  iv_wd :: bool
  iv_unmarshal :: "string \<Rightarrow> credentialsFile option"
  iv_marshal :: "credentialsDoc \<Rightarrow> string option"

text \<open>Integer division truncates towards zero.\<close>

definition whole_ttl :: "int \<Rightarrow> int" where
  "whole_ttl d = (if d \<ge> 0 then d div second else - (- d div second))"

definition runAccessMode :: "issue_env \<Rightarrow> issue_config \<Rightarrow> ServerKeys \<Rightarrow> issue_error + issue_output" where
  "runAccessMode V cfg keys =
     (case parseHeaderPairs (ic_Headers cfg) of
        Inl e \<Rightarrow> Inl (IHeader e)
      | Inr headers \<Rightarrow>
          (case Issue (iv_crypto V) (iv_nonce V) (iv_now V) (iv_now' V) keys
                  \<lparr>sp_Subject = ic_Subject cfg, sp_AccessToken = ic_AccessToken cfg, sp_Headers = headers,
                   sp_TTLSeconds = whole_ttl (ic_TTL cfg), sp_Admin = ic_Admin cfg\<rparr> of
             Inl e \<Rightarrow> Inl (IIssue e)
           | Inr res \<Rightarrow> Inr (Printed (res_Token res))))"

definition loadCredentialsFile :: "issue_env \<Rightarrow> fs_world \<Rightarrow> string \<Rightarrow> string + credentialsFile" where
  "loadCredentialsFile V w path =
     (case os_ReadFile w path of
        None \<Rightarrow> Inl ''read''
      | Some raw \<Rightarrow>
          (case iv_unmarshal V raw of
             None \<Rightarrow> Inl ''parse''
           | Some doc \<Rightarrow>
               (let missing = (if cf_ClientID doc = [] then [''client_id''] else []) @ (if cf_ClientSecret doc = [] then [''client_secret''] else [])
                              @ (if cf_RefreshToken doc = [] then [''refresh_token''] else [])
                in if missing \<noteq> [] then Inl (''missing '' @ Join missing '', '') else Inr doc)))"

definition writeOutput :: "issue_env \<Rightarrow> string \<Rightarrow> string \<Rightarrow> fs_world \<Rightarrow> bool \<times> fs_world" where
  "writeOutput V path raw w =
     (case path_Abs (iv_wd V) path of None \<Rightarrow> (False, w) | Some absd \<Rightarrow> os_WriteFile absd (raw @ [lf]) w)"

definition runCredentialsMode :: "issue_env \<Rightarrow> issue_config \<Rightarrow> ServerKeys \<Rightarrow> fs_world \<Rightarrow> (issue_error + issue_output) \<times> fs_world" where
  "runCredentialsMode V cfg keys w =
     (case loadCredentialsFile V w (ic_CredentialsFile cfg) of
        Inl e \<Rightarrow> (Inl (ICredentials e), w)
      | Inr creds \<Rightarrow>
          (case parseHeaderPairs (ic_Headers cfg) of
             Inl e \<Rightarrow> (Inl (IHeader e), w)
           | Inr headers \<Rightarrow>
               (case IssueRefreshToken (iv_crypto V) (iv_nonce V) (iv_now V) keys (ic_Subject cfg)
                       \<lparr>rc_RefreshToken = cf_RefreshToken creds, rc_TokenURL = ic_TokenURL cfg, rc_Headers = headers\<rparr>
                       (ic_RefreshTTL cfg) (ic_Admin cfg) of
                  Inl e \<Rightarrow> (Inl (IRefresh e), w)
                | Inr refreshJWT \<Rightarrow>
                    (case iv_marshal V \<lparr>cd_Type = credentialsType, cd_ClientID = cf_ClientID creds, cd_ClientSecret = cf_ClientSecret creds,
                                        cd_RefreshToken = refreshJWT, cd_TokenURI = ic_ProxyURL cfg @ ''/token''\<rparr> of
                       None \<Rightarrow> (Inl IMarshal, w)
                     | Some raw \<Rightarrow>
                         (case writeOutput V (ic_OutPath cfg) raw w of
                            (False, w1) \<Rightarrow> (Inl IWrite, w1)
                          | (True, w1) \<Rightarrow> (Inr (Wrote (ic_OutPath cfg)), w1))))))"

definition runIssueToken :: "issue_env \<Rightarrow> issue_config \<Rightarrow> fs_world \<Rightarrow> (issue_error + issue_output) \<times> fs_world" where
  "runIssueToken V cfg w =
     (case SecretFromHex (ic_SecretHex cfg) of
        Inl e \<Rightarrow> (Inl (ISecret e), w)
      | Inr secret \<Rightarrow>
          (case FromSecret (iv_crypto V) secret of
             Inl e \<Rightarrow> (Inl (IKeys e), w)
           | Inr keys \<Rightarrow>
               (case config_mode cfg of
                  modeAccess \<Rightarrow> (runAccessMode V cfg keys, w)
                | modeCredentials \<Rightarrow> runCredentialsMode V cfg keys w)))"

section \<open>One data directory, one secret\<close>

lemma FromSecret_keys_ok: "FromSecret L secret = Inr keys \<Longrightarrow> keys_ok L keys"
  by (auto simp: FromSecret_def keys_ok_def Let_def bind_result_Inr_iff)

text \<open>The keys of a running server are derived from its configured secret.\<close>

lemma runServe_keys:
  assumes "runServe V w c = Inr r"
  obtains secret where "SecretFromHex (sc_SecretHex c) = Inr secret" "FromSecret (de_crypto V) secret = Inr (dd_Keys (ru_deps r))"
  using assms by (auto simp: runServe_def Load_def Let_def split: sum.splits prod.splits option.splits)

text \<open>A server on a data directory, with no secret given otherwise, has the secret of that directory.\<close>

lemma buildConfig_secret:
  assumes "buildConfig E fs (Inr c0) w = (Inr c, w')" "sc_DataDir c0 = dir" "dir \<noteq> []" "\<not> sc_Init c0" "sc_SecretHex c0 = []"
    and "\<not> flagOrEnvSet fs ''secret-hex''" "Layout_ReadSecret w dir = Some hex" "hex \<noteq> []"
  shows "sc_SecretHex c = hex"
  using assms(1)
proof (cases rule: buildConfig_cases)
  case (1 w1 c2 w2)
  have d: "defaultDataDirFromCwd w c0 = c0" using assms(2,3) by (simp add: defaultDataDirFromCwd_def)
  then have w1: "w1 = w" using 1(2) assms(4) by (simp add: bootstrapIfRequested_def)
  have s: "secret_default w fs c0 = Inr (c0\<lparr>sc_SecretHex := hex\<rparr>)"
    using assms by (simp add: secret_default_def data_dir_file_def)
  from 1(3) have "sc_SecretHex c2 = hex"
  proof (cases rule: applyDataDir_cases)
    case (2 c1 c3 c4)
    have "c1 = c0\<lparr>sc_SecretHex := hex\<rparr>" using 2(2) s d w1 by simp
    then have "keeps_given fs (c0\<lparr>sc_SecretHex := hex\<rparr>) c2"
      using keeps_given_dirs [of fs c1] keeps_given_hash [OF 2(3)] keeps_given_store [OF 2(4)] keeps_given_ca [of fs c4] 2(5) keeps_given_trans by metis
    then show ?thesis using assms(8) by (simp add: keeps_given_def)
  qed (use d assms(2,3) in simp)
  then show ?thesis using assms(8) keeps_given_mitm [of fs c2] unfolding 1(5) by (simp add: keeps_given_def)
qed

lemma configFromFlags_secret:
  assumes "configFromFlags parse w getenv fs dir (Inr c0) = Inr c" "ic_SecretHex c0 = []" "\<not> fl_Changed fs ''secret-hex''" "dir \<noteq> []"
    and "Layout_ReadSecret w dir = Some hex"
  shows "ic_SecretHex c = hex" "config_mode c0 = modeAccess \<Longrightarrow> c = c0\<lparr>ic_SecretHex := hex\<rparr> \<and> ic_TTL c0 > 0"
  using assms
  by (auto simp: configFromFlags_def defaultSecretFromDataDir_def datadir_Resolve_def issue_validate_def config_mode_def
      split: if_splits sum.splits)

text \<open>
  C17: a token from the command line is a token of the server.  When \<^verbatim>\<open>issue-token\<close> and \<^verbatim>\<open>serve\<close> run on the same data
  directory, with no secret given to either, the server accepts the token the command prints, for the
  subject, with exactly the access token, the parsed headers and the admin flag the operator gave, from thirty
  seconds before its issue until thirty seconds after its lifetime, and at no other time.
\<close>

theorem cli_token_accepted:
  assumes "jwt_roundtrip L" "aead_roundtrip L" "json_creds_roundtrip L" "length (iv_nonce I) = NonceSize" "iv_crypto I = L" "de_crypto V = L"
    and "dir \<noteq> []" "Layout_ReadSecret w dir = Some hex" "hex \<noteq> []"
    and "buildConfig E fs (Inr c0) w = (Inr c, w1)" "sc_DataDir c0 = dir" "\<not> sc_Init c0" "sc_SecretHex c0 = []"
      "\<not> flagOrEnvSet fs ''secret-hex''" "runServe V w1 c = Inr server"
    and "configFromFlags parse w getenv fs' dir (Inr i0) = Inr i" "ic_SecretHex i0 = []" "\<not> fl_Changed fs' ''secret-hex''" "ic_OutPath i0 = []"
      "runIssueToken I i w = (Inr out, w2)"
  shows "\<exists>tok headers. out = Printed tok \<and> w2 = w \<and> parseHeaderPairs (ic_Headers i0) = Inr headers
    \<and> (\<forall>now. VerifyAccessToken L now (dd_Keys (ru_deps server)) tok =
         (if whole_seconds (iv_now' I) - 30 * second \<le> now
             \<and> now < whole_seconds (iv_now' I + seconds (whole_ttl (ic_TTL i0))) + 30 * second
          then Inr \<lparr>at_Subject = ic_Subject i0, at_Creds = \<lparr>ac_AccessToken = ic_AccessToken i0, ac_Headers = headers\<rparr>, at_Admin = ic_Admin i0\<rparr>
          else Inl EToken))"
proof -
  have m: "config_mode i0 = modeAccess" using assms(19) by (simp add: config_mode_def)
  have i: "i = i0\<lparr>ic_SecretHex := hex\<rparr>" using configFromFlags_secret(2) [OF assms(16-18,7,8) m] by blast
  have c: "sc_SecretHex c = hex" by (rule buildConfig_secret [OF assms(10,11,7,12-14,8,9)])
  obtain secret where s: "SecretFromHex hex = Inr secret" "FromSecret L secret = Inr (dd_Keys (ru_deps server))"
    using runServe_keys [OF assms(15)] c assms(6) by metis
  let ?keys = "dd_Keys (ru_deps server)"
  have mi: "config_mode i = modeAccess" using m i by (simp add: config_mode_def)
  have run: "runAccessMode I i ?keys = Inr out" "w2 = w"
    using assms(20,5) s i mi by (simp_all add: runIssueToken_def)
  then obtain headers tok where h: "parseHeaderPairs (ic_Headers i0) = Inr headers" "out = Printed tok"
    "IssueAccessToken L (iv_nonce I) (iv_now' I) ?keys (ic_Subject i0) \<lparr>ac_AccessToken = ic_AccessToken i0, ac_Headers = headers\<rparr>
       (seconds (whole_ttl (ic_TTL i0))) (ic_Admin i0) = Inr tok"
    using assms(5) by (auto simp: runAccessMode_def Issue_def Let_def i split: sum.splits option.splits)
  show ?thesis
    using h(1,2) run(2) access_verify [OF assms(1-3) FromSecret_keys_ok [OF s(2)] assms(4) h(3)] by blast
qed

text \<open>A data directory that is the working directory, a server with one bundle on it, and a token for one hour.\<close>

definition ex_cli_world :: fs_world where
  "ex_cli_world = ex_empty_world\<lparr>w_fs := [([''apis''], Dir), ([''policies''], Dir), ([''store''], Dir),
     ([''secret.hex''], File (EncodeToString (replicate 32 7) @ [lf])), ([''admin-password.hash''], File (''h'' @ [lf]))]\<rparr>"

definition ex_cli_creds :: AccessCreds where
  "ex_cli_creds = \<lparr>ac_AccessToken = ''up'', ac_Headers = [\<lparr>hd_Name = ''X-A'', hd_Value = ''1''\<rparr>]\<rparr>"

definition ex_cli_crypto :: crypto where
  "ex_cli_crypto = ex_crypto [issued_claims 0 ''me'' typAccess (ex_nonce @ replicate 32 14) (Some (3600 * second)) True] [ex_cli_creds] []"

definition ex_cli_env :: issue_env where
  "ex_cli_env = \<lparr>iv_crypto = ex_cli_crypto, iv_nonce = ex_nonce, iv_now = 0, iv_now' = 0, iv_wd = True, iv_unmarshal = (\<lambda>_. None), iv_marshal = (\<lambda>_. None)\<rparr>"

definition ex_cli_config :: issue_config where
  "ex_cli_config = issue_defaults\<lparr>ic_Subject := ''me'', ic_AccessToken := ''up'', ic_Headers := [''X-A = 1''], ic_Admin := True\<rparr>"

definition ex_deployment :: "(row list \<times> row list, unit, prow list, (string \<times> cacheEntry) option) deployment" where
  "ex_deployment =
     \<lparr>de_crypto = ex_cli_crypto, de_db = \<lparr>db_Open = (\<lambda>_. True), db_Migrate = (\<lambda>_ _. True)\<rparr>, de_policies = (\<lambda>_. (ex_ops, ([], []))),
      de_proposals = (\<lambda>_. (propSqlite ex_pmarshal ex_punmarshal None, [])), de_traffic = (\<lambda>_. None), de_compile = ex_compiler,
      de_parse_url = (\<lambda>_. Inr ()), de_files = (\<lambda>_. ex_boot_files), de_internal = ex_internal_files, de_pki = ex_pki, de_lru = ex_lru\<rparr>"

lemma ex_cli_buildConfig:
  "\<exists>w1. buildConfig (ex_init_env []) (ex_flags []) (Inr (serve_defaults\<lparr>sc_DataDir := ''.''\<rparr>)) ex_cli_world =
     (Inr (data_dir_config ''.'' False (EncodeToString (replicate 32 7)) ''h''), w1) \<and> w_fs w1 = w_fs ex_cli_world"
proof -
  have k: "fkey ''.'' = []" by code_simp
  have i: "initialised (ex_init_env []) (ex_init_options\<lparr>io_MITM := False\<rparr>) ''.'' (replicate 32 7) ''h'' ex_cli_world"
    by (simp add: initialised_def k ex_cli_world_def ex_init_options_def is_dir_def SecretFile_def AdminPasswordFile_def APIsDir_def
        PoliciesDir_def StoreDir_def MITMCertFile_def MITMKeyFile_def)
  obtain w1 where w1: "do_op (MkdirAll (path_Join ''.'' StoreDir)) ex_cli_world = (True, w1)" "w_fs w1 = w_fs ex_cli_world"
  proof -
    have "fkey (path_Join ''.'' StoreDir) = [''store'']" by code_simp
    then show ?thesis using that by (auto simp: do_op_def ex_cli_world_def ex_empty_world_def is_dir_def)
  qed
  have nf: "\<not> flagOrEnvSet (ex_flags []) n" for n by (simp add: flagOrEnvSet_def ex_flags_def)
  from initialised_config [OF i _ _ _ _ _ nf w1(1), of "ex_init_env []"] w1(2) show ?thesis
    by (auto simp: ex_init_options_def less_eq_char_def)
qed

lemma ex_cli_serves:
  assumes "w_fs w1 = w_fs ex_cli_world"
  shows "\<exists>server. runServe ex_deployment w1 (data_dir_config ''.'' False (EncodeToString (replicate 32 7)) ''h'') = Inr server"
proof -
  let ?c = "data_dir_config ''.'' False (EncodeToString (replicate 32 7)) ''h''"
  have "is_ok (runServe ex_deployment ex_cli_world ?c)" by code_simp
  moreover have "\<not> sc_MITM ?c" by (simp add: data_dir_config_def)
  then have l: "buildListenerHandler (de_pki ex_deployment) (de_lru ex_deployment) w1 ?c
      = buildListenerHandler (de_pki ex_deployment) (de_lru ex_deployment) ex_cli_world ?c"
    by (simp add: buildListenerHandler_def)
  have "NewFileStore w1 = NewFileStore ex_cli_world" "Exists w1 = Exists ex_cli_world"
    by (simp_all add: fun_eq_iff NewFileStore_def Exists_def os_Stat_def assms)
  then have p: "buildPolicyStore D w1 ?c k = buildPolicyStore D ex_cli_world ?c k" for D k unfolding buildPolicyStore_def by presburger
  have f: "de_files ex_deployment w1 = de_files ex_deployment ex_cli_world" by (simp add: ex_deployment_def)
  have "runServe ex_deployment w1 ?c = runServe ex_deployment ex_cli_world ?c" unfolding runServe_def l p f by (rule refl)
  ultimately show ?thesis by (simp add: is_ok_iff)
qed

theorem cli_token_accepted_witness:
  "\<exists>c w1 server i tok. buildConfig (ex_init_env []) (ex_flags []) (Inr (serve_defaults\<lparr>sc_DataDir := ''.''\<rparr>)) ex_cli_world = (Inr c, w1)
     \<and> runServe ex_deployment w1 c = Inr server
     \<and> configFromFlags (\<lambda>_. None) ex_cli_world (\<lambda>_. []) (ex_flags []) ''.'' (Inr ex_cli_config) = Inr i
     \<and> runIssueToken ex_cli_env i ex_cli_world = (Inr (Printed tok), ex_cli_world)
     \<and> VerifyAccessToken ex_cli_crypto second (dd_Keys (ru_deps server)) tok = Inr \<lparr>at_Subject = ''me'', at_Creds = ex_cli_creds, at_Admin = True\<rparr>
     \<and> VerifyAccessToken ex_cli_crypto (3630 * second) (dd_Keys (ru_deps server)) tok = Inl EToken"
proof -
  let ?f = "configFromFlags (\<lambda>_. None) ex_cli_world (\<lambda>_. []) (ex_flags []) ''.'' (Inr ex_cli_config)"
  have f: "is_ok ?f" and t: "is_ok (fst (runIssueToken ex_cli_env (projr ?f) ex_cli_world))" by code_simp+
  obtain c w1 server where c: "buildConfig (ex_init_env []) (ex_flags []) (Inr (serve_defaults\<lparr>sc_DataDir := ''.''\<rparr>)) ex_cli_world = (Inr c, w1)"
    and server: "runServe ex_deployment w1 c = Inr server" using ex_cli_buildConfig ex_cli_serves by blast
  obtain i where i: "?f = Inr i" using f by (auto simp: is_ok_iff)
  obtain out w2 where out: "runIssueToken ex_cli_env i ex_cli_world = (Inr out, w2)"
    using t i by (cases "runIssueToken ex_cli_env i ex_cli_world") (auto simp: is_ok_iff)
  have laws: "jwt_roundtrip ex_cli_crypto" "aead_roundtrip ex_cli_crypto" "json_creds_roundtrip ex_cli_crypto"
    unfolding ex_cli_crypto_def by (fact ex_crypto_laws)+
  have env: "length (iv_nonce ex_cli_env) = NonceSize" "iv_crypto ex_cli_env = ex_cli_crypto" "de_crypto ex_deployment = ex_cli_crypto"
    by (simp_all add: ex_cli_env_def ex_deployment_def ex_nonce_def NonceSize_def)
  obtain hex where hex: "Layout_ReadSecret ex_cli_world ''.'' = Some hex" "hex \<noteq> []"
  proof -
    have "case Layout_ReadSecret ex_cli_world ''.'' of Some h \<Rightarrow> h \<noteq> [] | None \<Rightarrow> False" by code_simp
    then show ?thesis using that by (auto split: option.splits)
  qed
  have hp: "parseHeaderPairs (ic_Headers ex_cli_config) = Inr (ac_Headers ex_cli_creds)" by code_simp
  have ttl: "seconds (whole_ttl (ic_TTL ex_cli_config)) = 3600 * second" by code_simp
  have cfg: "ic_Subject ex_cli_config = ''me''" "ic_AccessToken ex_cli_config = ''up''" "ic_Admin ex_cli_config"
    "ic_SecretHex ex_cli_config = []" "ic_OutPath ex_cli_config = []" "ac_AccessToken ex_cli_creds = ''up''"
    by (simp_all add: ex_cli_config_def issue_defaults_def ex_cli_creds_def)
  have creds: "\<lparr>ac_AccessToken = ''up'', ac_Headers = ac_Headers ex_cli_creds\<rparr> = ex_cli_creds" by (simp add: ex_cli_creds_def)
  have nf: "\<not> flagOrEnvSet (ex_flags []) ''secret-hex''" "\<not> fl_Changed (ex_flags []) ''secret-hex''" by (simp_all add: flagOrEnvSet_def ex_flags_def)
  have d: "sc_DataDir (serve_defaults\<lparr>sc_DataDir := ''.''\<rparr>) = ''.''" "\<not> sc_Init (serve_defaults\<lparr>sc_DataDir := ''.''\<rparr>)"
    "sc_SecretHex (serve_defaults\<lparr>sc_DataDir := ''.''\<rparr>) = []" by (simp_all add: serve_defaults_def)
  from cli_token_accepted [OF laws env _ hex c d nf(1) server i cfg(4) nf(2) cfg(5) out] obtain tok where
    tok: "out = Printed tok" "w2 = ex_cli_world"
    and v: "\<And>now. VerifyAccessToken ex_cli_crypto now (dd_Keys (ru_deps server)) tok =
         (if whole_seconds 0 - 30 * second \<le> now \<and> now < whole_seconds (3600 * second) + 30 * second
          then Inr \<lparr>at_Subject = ''me'', at_Creds = ex_cli_creds, at_Admin = True\<rparr> else Inl EToken)"
    by (auto simp: hp ttl cfg creds ex_cli_env_def)
  have n: "whole_seconds 0 - 30 * second \<le> second" "second < whole_seconds (3600 * second) + 30 * second"
    "\<not> 3630 * second < whole_seconds (3600 * second) + 30 * second"
    by (simp_all add: whole_seconds_def second_def)
  show ?thesis using c server i out tok v n by auto
qed

section \<open>Lifetimes\<close>

text \<open>The credentials mode does not check the lifetime of the refresh token: a negative one gives a token without expiry.\<close>

lemma negative_refresh_ttl_never_expires:
  assumes "ic_RefreshTTL cfg < 0"
  shows "issue_validate parse (cfg\<lparr>ic_RefreshTTL := 0\<rparr>) = Inr cfg' \<Longrightarrow> issue_validate parse cfg = Inr (cfg'\<lparr>ic_RefreshTTL := ic_RefreshTTL cfg\<rparr>)"
    and "IssueRefreshToken L nonce now keys subject creds (ic_RefreshTTL cfg) admin = IssueRefreshToken L nonce now keys subject creds 0 admin"
proof -
  show "issue_validate parse (cfg\<lparr>ic_RefreshTTL := 0\<rparr>) = Inr cfg' \<Longrightarrow> issue_validate parse cfg = Inr (cfg'\<lparr>ic_RefreshTTL := ic_RefreshTTL cfg\<rparr>)"
    by (auto simp: issue_validate_def config_mode_def split: if_splits sum.splits)
  show "IssueRefreshToken L nonce now keys subject creds (ic_RefreshTTL cfg) admin = IssueRefreshToken L nonce now keys subject creds 0 admin"
    using assms by (simp add: IssueRefreshToken_def)
qed

text \<open>A positive lifetime below a second passes the check of the flags and is refused by the issuer.\<close>

lemma subsecond_ttl_refused:
  assumes "0 < ic_TTL cfg" "ic_TTL cfg < second" "parseHeaderPairs (ic_Headers cfg) = Inr headers" "ic_Subject cfg \<noteq> []" "bad_header 0 headers = None"
  shows "runAccessMode V cfg keys = Inl (IIssue BadTTL)"
  using assms by (simp add: runAccessMode_def Issue_def Spec_Validate_def whole_ttl_def)

end
