(* ===== verification/Backends.thy ===== *)
theory Backends
  imports InitCmd
begin

text \<open>
  What the stores are built on: the SQLite backend with its migrations and the directory backend
  (\<^verbatim>\<open>internal/control/store\<close>), and time-prefixed identifiers (\<^verbatim>\<open>internal/id\<close>).  A database is its table of versions and
  the rest of its contents; what a script does to the contents and which statements fail are parameters.
\<close>

section \<open>Definitions\<close>

subsection \<open>Opening a database\<close>

definition sqlite_dsn :: "string \<Rightarrow> string" where
  "sqlite_dsn dsn =
     (if \<not> Contains dsn ''_pragma='' then
        (let sep = (if Contains dsn ''?'' then ''&'' else ''?'')
         in dsn @ sep @ ''_pragma=journal_mode(WAL)&_pragma=synchronous(NORMAL)&_pragma=foreign_keys(1)'')
      else dsn)"

record 'd sqliteBackend =
  sb_versions :: "(string \<times> nat) list"
  sb_data :: 'd
  sb_closed :: bool

text \<open>The driver: what a data source name opens, if it does, and whether it answers; whether the table of versions can be made.\<close>

record 'd driver =
  dv_Open :: "string \<Rightarrow> ((string \<times> nat) list \<times> 'd) option"
  dv_Ping :: "string \<Rightarrow> bool"
  dv_Create :: "string \<Rightarrow> bool"

definition OpenSQLite :: "'d driver \<Rightarrow> string \<Rightarrow> string + 'd sqliteBackend" where
  "OpenSQLite V dsn =
     (let full = sqlite_dsn dsn
      in case dv_Open V full of
           None \<Rightarrow> Inl ''open''
         | Some (versions, d) \<Rightarrow>
             (if \<not> dv_Ping V full then Inl ''ping''
              else if \<not> dv_Create V full then Inl ''create migrations table''
              else Inr \<lparr>sb_versions = versions, sb_data = d, sb_closed = False\<rparr>))"

text \<open>\<open>closeOnce\<close>: the second close returns the first one's result and does nothing.\<close>

definition sqlite_Close :: "'d sqliteBackend \<Rightarrow> 'd sqliteBackend" where
  "sqlite_Close b = (if sb_closed b then b else b\<lparr>sb_closed := True\<rparr>)"

subsection \<open>Migrations\<close>

datatype migrate_error = MReadVersion | MDowngrade nat nat | MBegin | MScript nat | MBump | MCommit

datatype tx_step = TxBegin | TxBump | TxCommit

definition readVersion :: "string \<Rightarrow> 'd sqliteBackend \<Rightarrow> nat" where
  "readVersion namespace b = (case map_of (sb_versions b) namespace of None \<Rightarrow> 0 | Some v \<Rightarrow> v)"

text \<open>A transaction that does not commit is rolled back.\<close>

definition applyMigration ::
  "(string \<Rightarrow> 'd \<Rightarrow> 'd option) \<Rightarrow> (nat \<Rightarrow> tx_step \<Rightarrow> bool) \<Rightarrow> string \<Rightarrow> nat \<Rightarrow> string \<Rightarrow> 'd sqliteBackend
     \<Rightarrow> migrate_error option \<times> 'd sqliteBackend" where
  "applyMigration exec fails namespace idx script b =
     (if fails idx TxBegin then (Some MBegin, b)
      else (case exec script (sb_data b) of
              None \<Rightarrow> (Some (MScript (idx + 1)), b)
            | Some d \<Rightarrow>
                (if fails idx TxBump then (Some MBump, b)
                 else if fails idx TxCommit then (Some MCommit, b)
                 else (None, b\<lparr>sb_versions := upsert_by fst (namespace, idx + 1) (sb_versions b), sb_data := d\<rparr>))))"

fun migrate_from ::
  "(string \<Rightarrow> 'd \<Rightarrow> 'd option) \<Rightarrow> (nat \<Rightarrow> tx_step \<Rightarrow> bool) \<Rightarrow> string \<Rightarrow> nat \<Rightarrow> string list \<Rightarrow> 'd sqliteBackend
     \<Rightarrow> migrate_error option \<times> 'd sqliteBackend" where
  "migrate_from exec fails namespace v [] b = (None, b)"
| "migrate_from exec fails namespace v (script # scripts) b =
     (case applyMigration exec fails namespace v script b of
        (Some e, b1) \<Rightarrow> (Some e, b1)
      | (None, b1) \<Rightarrow> migrate_from exec fails namespace (v + 1) scripts b1)"

text \<open>One attempt at migrating: whether the version can be read, and which statements fail.\<close>

record attempt =
  tr_read :: bool
  tr_fails :: "nat \<Rightarrow> tx_step \<Rightarrow> bool"

definition Migrate ::
  "(string \<Rightarrow> 'd \<Rightarrow> 'd option) \<Rightarrow> attempt \<Rightarrow> string \<Rightarrow> string list \<Rightarrow> 'd sqliteBackend \<Rightarrow> migrate_error option \<times> 'd sqliteBackend" where
  "Migrate exec T namespace migrations b =
     (if \<not> tr_read T then (Some MReadVersion, b)
      else (let current = readVersion namespace b
            in if current > length migrations then (Some (MDowngrade current (length migrations)), b)
               else migrate_from exec (tr_fails T) namespace current (drop current migrations) b))"

subsection \<open>The directory backend\<close>

definition OpenFS :: "bool \<Rightarrow> fs_world \<Rightarrow> string \<Rightarrow> string + string" where
  "OpenFS wd w dir =
     (case os_Stat w dir of
        None \<Rightarrow> Inl ''root''
      | Some n \<Rightarrow>
          (if n \<noteq> Dir then Inl ''root is not a directory''
           else (case path_Abs wd dir of None \<Rightarrow> Inl ''abs'' | Some absd \<Rightarrow> Inr absd)))"

definition validNamespace :: "string \<Rightarrow> bool" where
  "validNamespace ns \<longleftrightarrow>
     \<not> (ns = [] \<or> ns = ''.'' \<or> ns = ''..'') \<and> \<not> list_ex (\<lambda>c. c = slash \<or> c = CHR 0x5C) ns \<and> \<not> HasPrefix ns ''/''"

definition Subdir :: "string \<Rightarrow> string \<Rightarrow> fs_world \<Rightarrow> (string + string) \<times> fs_world" where
  "Subdir root namespace w =
     (if \<not> validNamespace namespace then (Inl ''invalid namespace'', w)
      else (let path = path_Join root namespace
            in case do_op (MkdirAll path) w of
                 (False, w1) \<Rightarrow> (Inl ''mkdir'', w1)
               | (True, w1) \<Rightarrow> (Inr path, w1)))"

subsection \<open>Identifiers\<close>

definition TimeBytes :: nat where "TimeBytes = 16"

definition UnixMilli :: "int \<Rightarrow> int" where
  "UnixMilli t = t div 1000000"

definition time_bytes :: "64 word \<Rightarrow> byte list" where
  "time_bytes ms = map (\<lambda>k. ucast (drop_bit k ms)) [40, 32, 24, 16, 8, 0]"

text \<open>The ten bytes from the random source are an argument.\<close>

definition NewTimePrefixed :: "byte list \<Rightarrow> int \<Rightarrow> string \<Rightarrow> string" where
  "NewTimePrefixed random t pre = pre @ EncodeToString (time_bytes (word_of_int (UnixMilli t)) @ random)"

text \<open>The shapes a column can have.\<close>

datatype column = ColText string | ColBytes string | ColNull | ColOther

definition id_Scan :: "column \<Rightarrow> string option" where
  "id_Scan c = (case c of ColText s \<Rightarrow> Some s | ColBytes s \<Rightarrow> Some s | ColNull \<Rightarrow> Some [] | ColOther \<Rightarrow> None)"

section \<open>Migrating exactly once\<close>

fun run_scripts :: "(string \<Rightarrow> 'd \<Rightarrow> 'd option) \<Rightarrow> string list \<Rightarrow> 'd \<Rightarrow> 'd option" where
  "run_scripts exec [] d = Some d"
| "run_scripts exec (s # ss) d = (case exec s d of None \<Rightarrow> None | Some d' \<Rightarrow> run_scripts exec ss d')"

lemma run_scripts_append:
  "run_scripts exec (as @ bs) d = (case run_scripts exec as d of None \<Rightarrow> None | Some d' \<Rightarrow> run_scripts exec bs d')"
  by (induction as arbitrary: d) (auto split: option.splits)

lemma applyMigration_cases:
  assumes "applyMigration exec fails ns v s b = (r, b')"
  obtains e where "r = Some e" "b' = b"
  | d where "r = None" "exec s (sb_data b) = Some d" "sb_data b' = d" "readVersion ns b' = v + 1"
      "\<forall>ns'. ns' \<noteq> ns \<longrightarrow> readVersion ns' b' = readVersion ns' b"
  using assms by (auto simp: applyMigration_def readVersion_def map_of_upsert_by split: if_splits option.splits)

text \<open>A run applies the first \<open>k\<close> of the pending scripts, all of them when it succeeds.\<close>

lemma migrate_from_prefix:
  assumes "migrate_from exec fails ns v ss b = (r, b')" "readVersion ns b = v"
  shows "\<exists>k \<le> length ss. run_scripts exec (take k ss) (sb_data b) = Some (sb_data b') \<and> readVersion ns b' = v + k
    \<and> (r = None \<longrightarrow> k = length ss) \<and> (\<forall>ns'. ns' \<noteq> ns \<longrightarrow> readVersion ns' b' = readVersion ns' b)"
  using assms
proof (induction ss arbitrary: v b)
  case (Cons s ss)
  obtain r1 b1 where 1: "applyMigration exec fails ns v s b = (r1, b1)" by fastforce
  then show ?case
  proof (cases rule: applyMigration_cases)
    case (1 e)
    then show ?thesis using Cons.prems \<open>applyMigration exec fails ns v s b = (r1, b1)\<close> by (intro exI [of _ 0]) auto
  next
    case (2 d)
    then have m: "migrate_from exec fails ns (v + 1) ss b1 = (r, b')" using Cons.prems(1) 1 by simp
    from Cons.IH [OF m 2(4)] obtain k where "k \<le> length ss" "run_scripts exec (take k ss) (sb_data b1) = Some (sb_data b')"
      "readVersion ns b' = v + 1 + k" "r = None \<longrightarrow> k = length ss" "\<forall>ns'. ns' \<noteq> ns \<longrightarrow> readVersion ns' b' = readVersion ns' b1" by blast
    then show ?thesis using 2 by (intro exI [of _ "Suc k"]) auto
  qed
qed auto

definition migrated :: "(string \<Rightarrow> 'd \<Rightarrow> 'd option) \<Rightarrow> string \<Rightarrow> string list \<Rightarrow> 'd sqliteBackend \<Rightarrow> nat \<Rightarrow> 'd sqliteBackend \<Rightarrow> bool" where
  "migrated exec ns ms b0 k b \<longleftrightarrow>
     readVersion ns b0 \<le> k \<and> k \<le> length ms \<and> readVersion ns b = k
     \<and> run_scripts exec (drop (readVersion ns b0) (take k ms)) (sb_data b0) = Some (sb_data b)
     \<and> (\<forall>ns'. ns' \<noteq> ns \<longrightarrow> readVersion ns' b = readVersion ns' b0)"

lemma Migrate_step:
  assumes "migrated exec ns ms b0 k b" "Migrate exec T ns ms b = (r, b')"
  shows "\<exists>k' \<ge> k. migrated exec ns ms b0 k' b' \<and> (r = None \<longrightarrow> k' = length ms)"
proof (cases "tr_read T")
  case True
  let ?v = "readVersion ns b0"
  have k: "readVersion ns b = k" "k \<le> length ms" "?v \<le> k" using assms(1) by (auto simp: migrated_def)
  then have "migrate_from exec (tr_fails T) ns k (drop k ms) b = (r, b')"
    using assms(2) True by (simp add: Migrate_def Let_def split: if_splits)
  from migrate_from_prefix [OF this k(1)] obtain j where j: "j \<le> length (drop k ms)"
    "run_scripts exec (take j (drop k ms)) (sb_data b) = Some (sb_data b')" "readVersion ns b' = k + j"
    "r = None \<longrightarrow> j = length (drop k ms)" "\<forall>ns'. ns' \<noteq> ns \<longrightarrow> readVersion ns' b' = readVersion ns' b" by blast
  have "drop ?v (take (k + j) ms) = drop ?v (take k ms) @ take j (drop k ms)" using k(2,3) by (simp add: take_add)
  then have "run_scripts exec (drop ?v (take (k + j) ms)) (sb_data b0) = Some (sb_data b')"
    using assms(1) j(2) by (simp add: run_scripts_append migrated_def)
  then show ?thesis using assms(1) j k by (intro exI [of _ "k + j"]) (auto simp: migrated_def)
next
  case False
  then show ?thesis using assms by (intro exI [of _ k]) (auto simp: Migrate_def)
qed

text \<open>Attempts one after the other, as restarts make them, and whether the last one succeeded.\<close>

fun attempts :: "(string \<Rightarrow> 'd \<Rightarrow> 'd option) \<Rightarrow> string \<Rightarrow> string list \<Rightarrow> attempt list \<Rightarrow> 'd sqliteBackend \<Rightarrow> 'd sqliteBackend" where
  "attempts exec ns ms [] b = b"
| "attempts exec ns ms (T # Ts) b = attempts exec ns ms Ts (snd (Migrate exec T ns ms b))"

lemma attempts_migrated:
  "migrated exec ns ms b0 k b \<Longrightarrow> \<exists>k'. k \<le> k' \<and> migrated exec ns ms b0 k' (attempts exec ns ms Ts b)"
proof (induction Ts arbitrary: b k)
  case (Cons T Ts)
  obtain r b' where m: "Migrate exec T ns ms b = (r, b')" by fastforce
  from Migrate_step [OF Cons.prems m] obtain k' where "k \<le> k'" "migrated exec ns ms b0 k' b'" by blast
  moreover from Cons.IH [OF this(2)] obtain k'' where "k' \<le> k''" "migrated exec ns ms b0 k'' (attempts exec ns ms Ts b')" by blast
  ultimately show ?case using m by (intro exI [of _ k'']) simp
qed auto

text \<open>
  C22: migrations run exactly once.  However often migrating a namespace was tried and wherever it failed, the
  database's contents are those after the first so many of the pending scripts, each run once and in order, the
  recorded version says how many, and no other namespace's version has moved; once an attempt succeeds all
  have run, and a further attempt changes nothing.
\<close>

theorem migrations_exactly_once:
  assumes "readVersion ns b \<le> length ms"
  shows "\<exists>k. readVersion ns b \<le> k \<and> k \<le> length ms \<and> readVersion ns (attempts exec ns ms Ts b) = k
      \<and> run_scripts exec (drop (readVersion ns b) (take k ms)) (sb_data b) = Some (sb_data (attempts exec ns ms Ts b))
      \<and> (\<forall>ns'. ns' \<noteq> ns \<longrightarrow> readVersion ns' (attempts exec ns ms Ts b) = readVersion ns' b)
      \<and> (\<forall>T b'. Migrate exec T ns ms (attempts exec ns ms Ts b) = (None, b') \<longrightarrow>
           run_scripts exec (drop (readVersion ns b) ms) (sb_data b) = Some (sb_data b') \<and> readVersion ns b' = length ms
           \<and> (\<forall>T'. tr_read T' \<longrightarrow> Migrate exec T' ns ms b' = (None, b')))"
proof -
  have "migrated exec ns ms b (readVersion ns b) b" using assms by (simp add: migrated_def)
  from attempts_migrated [OF this, of Ts] obtain k where k: "readVersion ns b \<le> k" "migrated exec ns ms b k (attempts exec ns ms Ts b)" by blast
  have fin: "run_scripts exec (drop (readVersion ns b) ms) (sb_data b) = Some (sb_data b') \<and> readVersion ns b' = length ms
      \<and> (\<forall>T'. tr_read T' \<longrightarrow> Migrate exec T' ns ms b' = (None, b'))"
    if "Migrate exec T ns ms (attempts exec ns ms Ts b) = (None, b')" for T b'
    using Migrate_step [OF k(2) that] by (auto simp: migrated_def Migrate_def)
  show ?thesis using k fin unfolding migrated_def by blast
qed

definition ex_exec :: "string \<Rightarrow> string list \<Rightarrow> string list option" where
  "ex_exec s d = Some (d @ [s])"

definition ex_backend :: "string list sqliteBackend" where
  "ex_backend = \<lparr>sb_versions = [(''traffic'', 3)], sb_data = [], sb_closed = False\<rparr>"

definition ex_attempt :: "bool \<Rightarrow> attempt" where
  "ex_attempt ok = \<lparr>tr_read = True, tr_fails = (\<lambda>i st. \<not> ok \<and> i = 1 \<and> st = TxCommit)\<rparr>"

theorem migrations_exactly_once_witness:
  "let b = attempts ex_exec ''policies'' [''a'', ''b''] [ex_attempt False, ex_attempt False] ex_backend;
       b' = snd (Migrate ex_exec (ex_attempt True) ''policies'' [''a'', ''b''] b)
   in sb_data b = [''a''] \<and> readVersion ''policies'' b = 1 \<and> readVersion ''traffic'' b = 3 \<and> sb_data b' = [''a'', ''b'']
      \<and> Migrate ex_exec (ex_attempt True) ''policies'' [''a'', ''b''] b' = (None, b')"
proof -
  let ?b = "attempts ex_exec ''policies'' [''a'', ''b''] [ex_attempt False, ex_attempt False] ex_backend"
  let ?m = "Migrate ex_exec (ex_attempt True) ''policies'' [''a'', ''b''] ?b"
  have v: "readVersion ''policies'' ex_backend = 0" by code_simp
  then have le: "readVersion ''policies'' ex_backend \<le> length [''a'', ''b'']" by simp
  have "fst ?m = None" by code_simp
  then have ok: "?m = (None, snd ?m)" by (metis prod.collapse)
  have k: "readVersion ''policies'' ?b = 1" by code_simp
  have tr: "readVersion ''traffic'' ex_backend = 3" by code_simp
  have rd: "tr_read (ex_attempt True)" by (simp add: ex_attempt_def)
  from migrations_exactly_once [OF le, of ex_exec "[ex_attempt False, ex_attempt False]", unfolded v k]
  have M: "run_scripts ex_exec (drop 0 (take 1 [''a'', ''b''])) (sb_data ex_backend) = Some (sb_data ?b)"
    "\<forall>ns'. ns' \<noteq> ''policies'' \<longrightarrow> readVersion ns' ?b = readVersion ns' ex_backend"
    "\<forall>T b'. Migrate ex_exec T ''policies'' [''a'', ''b''] ?b = (None, b') \<longrightarrow>
           run_scripts ex_exec (drop 0 [''a'', ''b'']) (sb_data ex_backend) = Some (sb_data b') \<and> readVersion ''policies'' b' = length [''a'', ''b'']
           \<and> (\<forall>T'. tr_read T' \<longrightarrow> Migrate ex_exec T' ''policies'' [''a'', ''b''] b' = (None, b'))"
    by blast+
  have e: "run_scripts ex_exec [''a''] (sb_data ex_backend) = Some [''a'']" "run_scripts ex_exec [''a'', ''b''] (sb_data ex_backend) = Some [''a'', ''b'']"
    by (simp_all add: ex_exec_def ex_backend_def)
  have "sb_data ?b = [''a'']" using M(1) e(1) by simp
  moreover have "readVersion ''traffic'' ?b = 3" using M(2) tr by simp
  moreover have "sb_data (snd ?m) = [''a'', ''b'']" using M(3) ok e(2) by (metis drop0 option.inject)
  moreover have "Migrate ex_exec (ex_attempt True) ''policies'' [''a'', ''b''] (snd ?m) = (None, snd ?m)" using M(3) ok rd by blast
  ultimately show ?thesis using k by (simp add: Let_def)
qed

section \<open>Directories\<close>

text \<open>A namespace is a plain name, so its directory lies directly in the root.\<close>

lemma Subdir_inside:
  assumes "Subdir root ns w = (Inr p, w')" "root \<noteq> []"
  shows "fkey p = fkey root @ [ns] \<and> is_dir (w_fs w') (fkey p) \<and> confined (fkey root) (w_fs w) (w_fs w')"
proof -
  have v: "validNamespace ns" and p: "p = path_Join root ns" and m: "do_op (MkdirAll p) w = (True, w')"
    using assms(1) by (auto simp: Subdir_def Let_def split: if_splits prod.splits bool.splits)
  have "plain_name ns" using v by (auto simp: validNamespace_def plain_name_def list_ex_iff)
  then have k: "fkey p = fkey root @ [ns]" using fkey_Join assms(2) p by simp
  have "mkdirs [p] w = (True, w')" using m by simp
  then have "is_dir (w_fs w') (fkey p)" using mkdirs_dirs by fastforce
  moreover have "op_in (fkey root) (MkdirAll p)" using v k by (auto simp: below_def validNamespace_def)
  then have "confined (fkey root) (w_fs w) (w_fs w')" using op_in_confined [of "fkey root" "MkdirAll p" w] m by simp
  ultimately show ?thesis using k by simp
qed

section \<open>Identifiers sort by time\<close>

text \<open>The digits of a number to the base 256, the most significant first.\<close>

fun big_endian :: "nat \<Rightarrow> nat \<Rightarrow> nat list" where
  "big_endian 0 x = []"
| "big_endian (Suc n) x = x div 256 ^ n # big_endian n (x mod 256 ^ n)"

lemma big_endian_less: "x < y \<Longrightarrow> y < 256 ^ n \<Longrightarrow> big_endian n x < big_endian n y"
proof (induction n arbitrary: x y)
  case (Suc n)
  have le: "x div 256 ^ n \<le> y div 256 ^ n" using Suc.prems(1) by (simp add: div_le_mono)
  show ?case
  proof (cases "x div 256 ^ n = y div 256 ^ n")
    case True
    then have "x mod 256 ^ n < y mod 256 ^ n"
      using Suc.prems(1) by (metis div_mult_mod_eq nat_add_left_cancel_less)
    then show ?thesis using True Suc.IH by simp
  next
    case False
    then show ?thesis using le by simp
  qed
qed simp

lemma lowerhex_less: "m < 16 \<Longrightarrow> n < 16 \<Longrightarrow> lowerhex m < lowerhex n \<longleftrightarrow> m < n"
proof -
  assume "m < 16" "n < 16"
  then have "m \<in> set [0..<16]" "n \<in> set [0..<16]" by simp_all
  moreover have "\<forall>m \<in> set [0..<16]. \<forall>n \<in> set [0..<16]. (lowerhex m < lowerhex n) = (m < n)" by code_simp
  ultimately show ?thesis by blast
qed

lemma EncodeToString_less:
  "map unat as < map unat bs \<Longrightarrow> length as = length bs \<Longrightarrow> EncodeToString (as @ xs) < EncodeToString (bs @ ys)"
proof (induction as bs rule: list_induct2')
  case (4 a as b bs)
  show ?case
  proof (cases "unat a = unat b")
    case True
    then show ?thesis using 4 by simp
  next
    case False
    then have lt: "unat a < unat b" using 4(2) by simp
    have l: "lowerhex (unat a div 16) < lowerhex (unat b div 16) \<longleftrightarrow> unat a div 16 < unat b div 16"
      "lowerhex (unat a mod 16) < lowerhex (unat b mod 16) \<longleftrightarrow> unat a mod 16 < unat b mod 16"
      by (simp_all add: lowerhex_less byte_nibbles)
    have "unat a div 16 < unat b div 16 \<or> unat a div 16 = unat b div 16 \<and> unat a mod 16 < unat b mod 16"
      using lt by (metis div_le_mono div_mult_mod_eq le_neq_implies_less less_imp_le nat_add_left_cancel_less)
    then show ?thesis using l by auto
  qed
qed simp_all

lemma big_endian_digits: "big_endian n (x mod 256 ^ n) = map (\<lambda>i. x div 256 ^ i mod 256) (rev [0..<n])"
proof (induction n)
  case (Suc n)
  have "x mod 256 ^ Suc n div 256 ^ n = x div 256 ^ n mod 256"
    using mod_mult2_eq [of x "256 ^ n" 256] by (simp add: mult.commute)
  moreover have "x mod 256 ^ Suc n mod 256 ^ n = x mod 256 ^ n" by (rule mod_mod_cancel) simp
  ultimately show ?case using Suc.IH by simp
qed simp

lemma byte_of_shift: "unat (ucast (drop_bit k (word_of_nat x :: 64 word)) :: byte) = x mod 2 ^ 64 div 2 ^ k mod 256"
  unfolding unsigned_ucast_eq unsigned_drop_bit_eq by (simp add: unsigned_of_nat take_bit_eq_mod drop_bit_eq_div)

lemma time_bytes_big_endian:
  assumes "x < 2 ^ 48"
  shows "map unat (time_bytes (word_of_nat x)) = big_endian 6 x"
proof -
  have m: "x mod 2 ^ 64 = x" "x mod 256 ^ 6 = x" using assms by simp_all
  have r: "rev [0..<6] = [5, 4, 3, 2, 1, 0 :: nat]" by code_simp
  have "big_endian 6 x = map (\<lambda>i. x div 256 ^ i mod 256) [5, 4, 3, 2, 1, 0]" using big_endian_digits [of 6 x] unfolding m r .
  then show ?thesis unfolding time_bytes_def map_map comp_def byte_of_shift m by simp
qed

text \<open>
  Identifiers made at different milliseconds sort, as text, in the order of their times, whatever the random
  bytes; from the epoch until the six bytes overflow.
\<close>

theorem ids_sort_by_time:
  assumes "0 \<le> UnixMilli s" "UnixMilli s < UnixMilli t" "UnixMilli t < 2 ^ 48"
  shows "NewTimePrefixed r s pre < NewTimePrefixed r' t pre"
proof -
  have "map unat (time_bytes (word_of_int (UnixMilli s))) = big_endian 6 (nat (UnixMilli s))"
    "map unat (time_bytes (word_of_int (UnixMilli t))) = big_endian 6 (nat (UnixMilli t))"
    using assms time_bytes_big_endian [of "nat (UnixMilli s)"] time_bytes_big_endian [of "nat (UnixMilli t)"] by (simp_all add: nat_less_iff)
  moreover have "big_endian 6 (nat (UnixMilli s)) < big_endian 6 (nat (UnixMilli t))"
    using assms by (intro big_endian_less) (simp_all add: nat_less_iff)
  ultimately have "EncodeToString (time_bytes (word_of_int (UnixMilli s)) @ r) < EncodeToString (time_bytes (word_of_int (UnixMilli t)) @ r')"
    by (intro EncodeToString_less) (simp_all add: time_bytes_def)
  then show ?thesis unfolding NewTimePrefixed_def by (induction pre) simp_all
qed

end
