(* ===== verification/CelHelpers.thy ===== *)
theory CelHelpers
  imports ApiClient "HOL-Library.Word"
begin

text \<open>
  The functions the CEL environments add to the language (\<^verbatim>\<open>internal/runtime/celenv\<close>): the builders of a meta's
  request with their check of the path, the encoding of a body as JSON, and \<open>timestamp_seconds\<close>.  How a number is
  written down is a parameter.
\<close>

section \<open>Definitions\<close>

subsection \<open>Values\<close>

text \<open>
  The kinds of CEL value the code tells apart; a double is its literal, \<open>RNil\<close> is the nil interface.  The entries of
  a map have different keys, so that looking up the key of an entry finds its value.
\<close>

datatype ref_val =
    RNil
  | RNull
  | RBool bool
  | RInt "64 word"
  | RUint "64 word"
  | RDouble string
  | RString string
  | ROptional "ref_val option"
  | RList "ref_val list"
  | RMap "(ref_val \<times> ref_val) list"
  | ROther string

subsection \<open>JSON bodies\<close>

definition maxSafeInt :: int where "maxSafeInt = 2 ^ 53 - 1"

text \<open>The conversion of an integer to \<^verbatim>\<open>float64\<close>: the nearest number of 53 significant bits, on a tie the even one.\<close>

function bit_length :: "int \<Rightarrow> nat" where
  "bit_length n = (if n \<le> 0 then 0 else Suc (bit_length (n div 2)))"
  by auto
termination by (relation "measure nat") auto

declare bit_length.simps [simp del]

definition float64 :: "int \<Rightarrow> int" where
  "float64 x =
     (let m = abs x; e = bit_length m - 53
      in if e = 0 then x
         else (let q = m div 2 ^ e; r = m mod 2 ^ e;
                   q' = (if r > 2 ^ (e - 1) \<or> (r = 2 ^ (e - 1) \<and> odd q) then q + 1 else q)
               in sgn x * (q' * 2 ^ e)))"

fun celToPbValue :: "(int \<Rightarrow> string) \<Rightarrow> ref_val \<Rightarrow> err + json"
  and celToPb_list :: "(int \<Rightarrow> string) \<Rightarrow> ref_val list \<Rightarrow> err + json list"
  and celToPb_fields :: "(int \<Rightarrow> string) \<Rightarrow> (ref_val \<times> ref_val) list \<Rightarrow> err + (string \<times> json) list" where
  "celToPbValue lit RNil = Inr JNull"
| "celToPbValue lit (ROptional None) = Inr JNull"
| "celToPbValue lit (ROptional (Some v)) = celToPbValue lit v"
| "celToPbValue lit RNull = Inr JNull"
| "celToPbValue lit (RBool b) = Inr (JBool b)"
| "celToPbValue lit (RInt i) =
     (if sint i > maxSafeInt \<or> sint i < - maxSafeInt then Inl (EMsg ''integer exceeds JSON safe range'')
      else Inr (JNum (lit (float64 (sint i)))))"
| "celToPbValue lit (RUint i) =
     (if uint i > maxSafeInt then Inl (EMsg ''unsigned integer exceeds JSON safe range'')
      else Inr (JNum (lit (float64 (uint i)))))"
| "celToPbValue lit (RDouble d) = Inr (JNum d)"
| "celToPbValue lit (RString s) = Inr (JStr s)"
| "celToPbValue lit (RList vs) = (case celToPb_list lit vs of Inl e \<Rightarrow> Inl e | Inr js \<Rightarrow> Inr (JArr js))"
| "celToPbValue lit (RMap kvs) = (case celToPb_fields lit kvs of Inl e \<Rightarrow> Inl e | Inr fs \<Rightarrow> Inr (JObj fs))"
| "celToPbValue lit (ROther k) = Inl (EMsg ''cannot encode'')"
| "celToPb_list lit [] = Inr []"
| "celToPb_list lit (v # vs) =
     (case celToPbValue lit v of
        Inl e \<Rightarrow> Inl e
      | Inr j \<Rightarrow> (case celToPb_list lit vs of Inl e \<Rightarrow> Inl e | Inr js \<Rightarrow> Inr (j # js)))"
| "celToPb_fields lit [] = Inr []"
| "celToPb_fields lit ((k, v) # kvs) =
     (case k of
        RString ks \<Rightarrow>
          (case celToPbValue lit v of
             Inl e \<Rightarrow> Inl e
           | Inr j \<Rightarrow> (case celToPb_fields lit kvs of Inl e \<Rightarrow> Inl e | Inr fs \<Rightarrow> Inr ((ks, j) # fs)))
      | _ \<Rightarrow> Inl (EMsg ''JSON body requires string map keys''))"

subsection \<open>Requests\<close>

definition validateMetaPath :: "string \<Rightarrow> string option" where
  "validateMetaPath p =
     (let pathOnly = fst (cut_at (CHR ''?'') p);
          pathOnly' = fst (cut_at (CHR ''#'') pathOnly)
      in find (\<lambda>seg. seg = ''..'' \<or> seg = ''.'') (Split slash (TrimPrefix pathOnly' ''/'')))"

definition makeMetaRequest :: "(int \<Rightarrow> string) \<Rightarrow> string \<Rightarrow> ref_val \<Rightarrow> ref_val option \<Rightarrow> string \<Rightarrow> err + MetaRequest" where
  "makeMetaRequest lit method path body contentType =
     (case path of
        RString rawPath \<Rightarrow>
          (if validateMetaPath rawPath \<noteq> None then Inl (EMsg ''http helper'')
           else (let mr = \<lparr>mr_method = method, mr_path = rawPath, mr_body = None, mr_content_type = contentType\<rparr>
                 in case body of
                      None \<Rightarrow> Inr mr
                    | Some b \<Rightarrow> (case celToPbValue lit b of Inl e \<Rightarrow> Inl (EWrap ''http helper body'' e) | Inr v \<Rightarrow> Inr (mr\<lparr>mr_body := Some v\<rparr>))))
      | _ \<Rightarrow> Inl (EMsg ''http helper: path must be string''))"

text \<open>The registered functions: name, method, whether there is a body, content type.\<close>

definition http_helpers :: "(string \<times> string \<times> bool \<times> string) list" where
  "http_helpers =
     [(''get'', ''GET'', False, []),
      (''delete'', ''DELETE'', False, []),
      (''post'', ''POST'', True, []),
      (''put'', ''PUT'', True, []),
      (''patch'', ''PATCH'', True, []),
      (''post_form'', ''POST'', True, formType)]"

text \<open>A call that no overload fits is rejected by the language.\<close>

definition HTTPHelpers :: "(int \<Rightarrow> string) \<Rightarrow> string \<Rightarrow> ref_val list \<Rightarrow> (err + MetaRequest) option" where
  "HTTPHelpers lit name args =
     (case map_of http_helpers name of
        None \<Rightarrow> None
      | Some (method, withBody, contentType) \<Rightarrow>
          (case args of
             [path] \<Rightarrow> if withBody then None else Some (makeMetaRequest lit method path None [])
           | [path, body] \<Rightarrow> if withBody then Some (makeMetaRequest lit method path (Some body) contentType) else None
           | _ \<Rightarrow> None))"

subsection \<open>Timestamps\<close>

text \<open>\<^verbatim>\<open>time.Unix\<close> keeps the seconds since the year 1 in 64 bits; times are compared by them, as signed numbers.\<close>

definition unixToInternal :: "64 word" where "unixToInternal = 62135596800"

definition timestamp_seconds :: "ref_val \<Rightarrow> err + 64 word" where
  "timestamp_seconds v = (case v of RInt i \<Rightarrow> Inr (i + unixToInternal) | _ \<Rightarrow> Inl (EMsg ''timestamp_seconds: want int''))"

definition time_Before :: "64 word \<Rightarrow> 64 word \<Rightarrow> bool" where
  "time_Before t u \<longleftrightarrow> sint t < sint u"

subsection \<open>Specification\<close>

text \<open>The JSON value a CEL value stands for, with every integer exact, and the values that have one.\<close>

fun exact_json :: "(int \<Rightarrow> string) \<Rightarrow> ref_val \<Rightarrow> json" where
  "exact_json lit (ROptional (Some v)) = exact_json lit v"
| "exact_json lit (RBool b) = JBool b"
| "exact_json lit (RInt i) = JNum (lit (sint i))"
| "exact_json lit (RUint i) = JNum (lit (uint i))"
| "exact_json lit (RDouble d) = JNum d"
| "exact_json lit (RString s) = JStr s"
| "exact_json lit (RList vs) = JArr (map (exact_json lit) vs)"
| "exact_json lit (RMap kvs) = JObj (map (\<lambda>(k, v). (case k of RString s \<Rightarrow> s | _ \<Rightarrow> [], exact_json lit v)) kvs)"
| "exact_json lit v = JNull"

fun encodable :: "ref_val \<Rightarrow> bool" where
  "encodable (ROptional (Some v)) = encodable v"
| "encodable (RInt i) = (abs (sint i) \<le> maxSafeInt)"
| "encodable (RUint i) = (uint i \<le> maxSafeInt)"
| "encodable (RList vs) = (\<forall>v \<in> set vs. encodable v)"
| "encodable (RMap kvs) = (\<forall>(k, v) \<in> set kvs. (\<exists>s. k = RString s) \<and> encodable v)"
| "encodable (ROther k) = False"
| "encodable v = True"

text \<open>RFC 3986, 5.2.4, on the segments of a path, with the segments kept so far in reverse order.\<close>

fun remove_dot_segments :: "string list \<Rightarrow> string list \<Rightarrow> string list" where
  "remove_dot_segments kept [] = rev kept"
| "remove_dot_segments kept (s # ss) =
     (if s = ''.'' then (if ss = [] then rev ([] # kept) else remove_dot_segments kept ss)
      else if s = ''..'' then (if ss = [] then rev ([] # tl kept) else remove_dot_segments (tl kept) ss)
      else remove_dot_segments (s # kept) ss)"

definition no_dots :: "string list \<Rightarrow> bool" where
  "no_dots ss \<longleftrightarrow> ''.'' \<notin> set ss \<and> ''..'' \<notin> set ss"

text \<open>The part of a reference in front of its query and its fragment, without the leading slash.\<close>

definition path_part :: "string \<Rightarrow> string" where
  "path_part p = TrimPrefix (takeWhile (\<lambda>c. c \<noteq> CHR ''?'' \<and> c \<noteq> CHR ''#'') p) ''/''"

section \<open>Bodies\<close>

lemma bit_length_bound: "bit_length n \<le> k \<longleftrightarrow> n < 2 ^ k"
proof (induction k arbitrary: n)
  case 0
  show ?case by (simp add: bit_length.simps [of n])
next
  case (Suc k)
  have "n div 2 < m \<longleftrightarrow> n < 2 * m" for m :: int by presburger
  then have "n div 2 < 2 ^ k \<longleftrightarrow> n < 2 ^ Suc k" by simp
  moreover have "n \<le> 0 \<Longrightarrow> n < 2 ^ Suc k" by (rule order.strict_trans1 [OF _ zero_less_power]) simp_all
  ultimately show ?case using Suc [of "n div 2"] by (simp add: bit_length.simps [of n])
qed

lemma float64_exact: "abs x \<le> maxSafeInt \<Longrightarrow> float64 x = x"
proof -
  assume "abs x \<le> maxSafeInt"
  then have "abs x < 2 ^ 53" by (simp add: maxSafeInt_def)
  then have "bit_length (abs x) - 53 = 0" unfolding bit_length_bound [symmetric] by simp
  then show ?thesis by (simp add: float64_def Let_def)
qed

text \<open>Without the bound two integers would be sent as one number.\<close>

lemma float64_merges: "float64 (2 ^ 53 + 1) = 2 ^ 53" "float64 (2 ^ 53) = 2 ^ 53"
  by code_simp+

lemma celToPb_exact:
  "celToPbValue lit v = Inr j \<longleftrightarrow> encodable v \<and> j = exact_json lit v"
  "celToPb_list lit vs = Inr js \<longleftrightarrow> (\<forall>v \<in> set vs. encodable v) \<and> js = map (exact_json lit) vs"
  "celToPb_fields lit kvs = Inr fs \<longleftrightarrow> (\<forall>(k, v) \<in> set kvs. (\<exists>s. k = RString s) \<and> encodable v)
     \<and> fs = map (\<lambda>(k, v). (case k of RString s \<Rightarrow> s | _ \<Rightarrow> [], exact_json lit v)) kvs"
proof (induction lit v and lit vs and lit kvs arbitrary: j and js and fs rule: celToPbValue_celToPb_list_celToPb_fields.induct)
  case (14 lit v vs)
  then show ?case by (auto split: sum.splits; blast)
next
  case (16 lit k v kvs)
  then show ?case by (cases k) (auto split: sum.splits; blast)+
qed (auto simp: float64_exact abs_le_iff split: sum.splits; blast)+

section \<open>Paths\<close>

lemma cut_at_takeWhile: "fst (cut_at c s) = takeWhile (\<lambda>x. x \<noteq> c) s"
  by (induction s) (auto simp: Let_def split: prod.splits)

lemma TrimPrefix_takeWhile: "P slash \<Longrightarrow> TrimPrefix (takeWhile P p) ''/'' = takeWhile P (TrimPrefix p ''/'')"
  by (cases p) (auto simp: TrimPrefix_def HasPrefix_def)

lemma path_part_cut: "path_part p = fst (cut_at (CHR ''?'') (fst (cut_at (CHR ''#'') (TrimPrefix p ''/''))))"
  by (simp add: path_part_def cut_at_takeWhile TrimPrefix_takeWhile takeWhile_takeWhile conj_commute)

lemma validateMetaPath_None: "validateMetaPath p = None \<longleftrightarrow> no_dots (Split slash (path_part p))"
proof -
  have "TrimPrefix (fst (cut_at (CHR ''#'') (fst (cut_at (CHR ''?'') p)))) ''/'' = path_part p"
    by (simp add: path_part_def cut_at_takeWhile takeWhile_takeWhile conj_commute)
  then show ?thesis by (auto simp: validateMetaPath_def find_None_iff no_dots_def)
qed

lemma JoinPath_path_part:
  assumes "JoinPath base p = Inr u"
  shows "u_RawPath u = (if HasSuffix (u_Path base) ''/'' then butlast (u_Path base) else u_Path base) @ ''/'' @ path_part p"
    "PathUnescape (u_RawPath u) = Some (u_Path u)"
proof -
  have "HasSuffix x ''/'' \<Longrightarrow> butlast x @ ''/'' = x" for x
    by (cases x rule: rev_cases) (auto simp: HasSuffix_def)
  with assms show "u_RawPath u = (if HasSuffix (u_Path base) ''/'' then butlast (u_Path base) else u_Path base) @ ''/'' @ path_part p"
    "PathUnescape (u_RawPath u) = Some (u_Path u)"
    by (auto simp: JoinPath_def Let_def path_part_cut split: if_splits option.splits prod.splits)
qed

lemma escape_path_plain: "percent \<notin> set (escape_path s) \<Longrightarrow> escape_path s = s"
  by (induction s) (auto simp: escape_path_def escape_path_byte_def split: if_splits)

lemma upperhex_not_slash: "n < 16 \<Longrightarrow> upperhex n \<noteq> slash"
proof -
  assume "n < 16"
  moreover have "\<forall>n \<in> set [0..<16]. upperhex n \<noteq> slash" by code_simp
  ultimately show ?thesis by auto
qed

lemma Split_escape_path: "Split slash (escape_path s) = map escape_path (Split slash s)"
proof (induction s)
  case (Cons c s)
  show ?case
  proof (cases "c = slash")
    case True
    have "escape_path_byte slash = ''/''" by code_simp
    with True Cons show ?thesis by (simp add: escape_path_def)
  next
    case False
    have "slash \<notin> set (escape_path_byte c)"
      using False upperhex_not_slash [of "of_char c div 16"] upperhex_not_slash [of "of_char c mod 16"] of_char_div [of c]
      by (auto simp: escape_path_byte_def)
    with False Cons show ?thesis
      by (cases "Split slash s") (auto simp: escape_path_def Split_append_no_sep)
  qed
qed (simp add: escape_path_def)

lemma no_dots_escape: "no_dots (map escape_path ss) \<longleftrightarrow> no_dots ss"
proof -
  have keep: "escape_path s = t \<longleftrightarrow> s = t" if "escape_path t = t" "percent \<notin> set t" for s t
    using that escape_path_plain [of s] by metis
  have dots: "escape_path ''.'' = ''.''" "percent \<notin> set ''.''" "escape_path ''..'' = ''..''" "percent \<notin> set ''..''" by code_simp+
  show ?thesis unfolding no_dots_def set_map image_iff
    using keep [OF dots(1,2)] keep [OF dots(3,4)] by metis
qed

lemma remove_dot_segments_id: "no_dots ss \<Longrightarrow> remove_dot_segments kept ss = rev kept @ ss"
  by (induction kept ss rule: remove_dot_segments.induct) (auto simp: no_dots_def)

lemma no_dots_append [simp]: "no_dots (ss @ ts) \<longleftrightarrow> no_dots ss \<and> no_dots ts"
  by (auto simp: no_dots_def)

text \<open>The base path in front of the slash that the join puts there.\<close>

definition base_part :: "url \<Rightarrow> string" where
  "base_part base = (if HasSuffix (u_Path base) ''/'' then butlast (u_Path base) else u_Path base)"

lemma base_part_chars: "set (base_part base) \<subseteq> set (u_Path base)"
  by (auto simp: base_part_def dest: in_set_butlastD)

lemma base_part_no_dots: "no_dots (Split slash (u_Path base)) \<Longrightarrow> no_dots (Split slash (base_part base))"
proof -
  have "HasSuffix x ''/'' \<Longrightarrow> Split slash x = Split slash (butlast x) @ [[]]" for x
    using Split_append_sep [of slash "butlast x" "[]"] by (cases x rule: rev_cases) (auto simp: HasSuffix_def)
  then show "no_dots (Split slash (u_Path base)) \<Longrightarrow> no_dots (Split slash (base_part base))"
    by (auto simp: base_part_def)
qed

lemma wire_segments:
  assumes "JoinPath base p = Inr u" "validEncoded (u_Path base)" "percent \<notin> set (u_Path base)"
    and "validEncoded (path_part p) \<or> percent \<notin> set (path_part p)"
  shows "\<exists>f. (f = (\<lambda>s. s) \<or> f = escape_path)
     \<and> Split slash (EscapedPath u) = map f (Split slash (base_part base) @ Split slash (path_part p))"
proof -
  note raw = JoinPath_path_part [OF assms(1), folded base_part_def]
  have split: "Split slash (u_RawPath u) = Split slash (base_part base) @ Split slash (path_part p)"
    unfolding raw(1) using Split_append_sep [of slash "base_part base" "path_part p"] by simp
  have slash: "u_RawPath u \<noteq> []" "u_RawPath u \<noteq> ''*''" using raw(1) by (auto simp: append_eq_Cons_conv)
  show ?thesis
  proof (cases "validEncoded (u_RawPath u)")
    case True
    with raw(2) slash(1) have "EscapedPath u = u_RawPath u" by (simp add: EscapedPath_def)
    with split show ?thesis by (intro exI [of _ "\<lambda>s. s"]) simp
  next
    case False
    have "validEncoded (base_part base)" "validEncoded ''/''"
      using validEncoded_subset [OF assms(2) base_part_chars] by (simp, code_simp)
    then have "\<not> validEncoded (path_part p)"
      using False unfolding raw(1) validEncoded_append by blast
    with assms(4) have "percent \<notin> set (path_part p)" by blast
    then have "percent \<notin> set (u_RawPath u)" using raw(1) assms(3) base_part_chars [of base] by auto
    then have "u_Path u = u_RawPath u" using raw(2) PathUnescape_plain by auto
    with False slash(2) have "EscapedPath u = escape_path (u_RawPath u)" by (simp add: EscapedPath_def)
    with split show ?thesis by (intro exI [of _ escape_path]) (simp add: Split_escape_path)
  qed
qed

section \<open>A side call stays where it was sent\<close>

lemma HTTPHelpers_ok:
  assumes "HTTPHelpers lit name args = Some (Inr mr)"
  shows "validateMetaPath (mr_path mr) = None" "\<exists>body. args = RString (mr_path mr) # body"
    "\<exists>withBody contentType. (name, mr_method mr, withBody, contentType) \<in> set http_helpers"
    "args = [path, body] \<Longrightarrow> encodable body \<and> mr_body mr = Some (exact_json lit body)"
    "args = [path] \<Longrightarrow> mr_body mr = None"
  using assms
  by (auto simp: HTTPHelpers_def makeMetaRequest_def Let_def celToPb_exact
      split: option.splits list.splits if_splits ref_val.splits sum.splits dest!: map_of_SomeD) blast+



text \<open>
  Percent-escaped dots do not always stay escaped: one character that the path may not carry verbatim makes the raw path
  an invalid encoding, the decoded path is sent, and the dot segment that the check was to keep out is on the wire.
\<close>

lemma escaped_dots_unmasked:
  "validateMetaPath ''/u/{x}/%2E%2E/admin'' = None
   \<and> (\<exists>u. JoinPath \<lparr>u_Scheme = ''https'', u_Host = ''h'', u_Path = [], u_RawPath = [], u_RawQuery = [], u_Fragment = []\<rparr> ''/u/{x}/%2E%2E/admin'' = Inr u
        \<and> EscapedPath u = ''/u/%7Bx%7D/../admin''
        \<and> remove_dot_segments [] (Split slash (EscapedPath u)) = [[], ''u'', ''admin''])"
proof -
  let ?base = "\<lparr>u_Scheme = ''https'', u_Host = ''h'', u_Path = [], u_RawPath = [], u_RawQuery = [], u_Fragment = []\<rparr>"
  let ?p = "''/u/{x}/%2E%2E/admin''"
  have "validateMetaPath ?p = None" by code_simp
  moreover have "case JoinPath ?base ?p of Inl _ \<Rightarrow> False | Inr u \<Rightarrow> EscapedPath u = ''/u/%7Bx%7D/../admin''
        \<and> remove_dot_segments [] (Split slash (EscapedPath u)) = [[], ''u'', ''admin'']" by code_simp
  ultimately show ?thesis by (cases "JoinPath ?base ?p") auto
qed

section \<open>Timestamps\<close>

text \<open>In the range that does not wrap, timestamps are ordered as their seconds are; beyond it the far future is the past.\<close>

lemma timestamp_order:
  assumes "sint i \<le> 2 ^ 63 - 1 - 62135596800" "sint j \<le> 2 ^ 63 - 1 - 62135596800"
    and "timestamp_seconds (RInt i) = Inr t" "timestamp_seconds (RInt j) = Inr u"
  shows "time_Before t u \<longleftrightarrow> sint i < sint j"
proof -
  have "sint (k + unixToInternal) = sint k + 62135596800" if "sint k \<le> 2 ^ 63 - 1 - 62135596800" for k :: "64 word"
  proof -
    have "sint (unixToInternal) = 62135596800" by (simp add: unixToInternal_def)
    moreover have "- (2 ^ 63) \<le> sint k" using sint_greater_eq [of k] by simp
    ultimately show ?thesis using that by (simp add: sint_word_ariths signed_take_bit_int_eq_self)
  qed
  with assms show ?thesis by (auto simp: timestamp_seconds_def time_Before_def)
qed

lemma timestamp_wraps:
  "timestamp_seconds (RInt 9223372036854775807) = Inr t \<Longrightarrow> timestamp_seconds (RInt 0) = Inr u \<Longrightarrow> time_Before t u"
  by (auto simp: timestamp_seconds_def time_Before_def unixToInternal_def)

end
