(* ===== verification/Middleware.thy ===== *)
theory Middleware
  imports Proxy
begin

text \<open>
  What is wrapped around the handlers: the access log and the panic recoverer (\<^verbatim>\<open>middleware.go\<close>), and the writer that relays
  a response stream (\<^verbatim>\<open>stream.go\<close>).  A handler takes the state of the response writer and returns it with the panic
  it ended in, if it did.
\<close>

section \<open>Definitions\<close>

subsection \<open>Responses\<close>

text \<open>The status is 0 before a header is written; only the first header counts.\<close>

record response_writer =
  rw_Status :: int
  rw_Written :: string

definition WriteHeader :: "int \<Rightarrow> response_writer \<Rightarrow> response_writer" where
  "WriteHeader status w = (if rw_Status w = 0 then w\<lparr>rw_Status := status\<rparr> else w)"

definition Write :: "string \<Rightarrow> response_writer \<Rightarrow> response_writer" where
  "Write p w = (let w1 = WriteHeader 200 w in w1\<lparr>rw_Written := rw_Written w1 @ p\<rparr>)"

definition http_Error :: "string \<Rightarrow> int \<Rightarrow> response_writer \<Rightarrow> response_writer" where
  "http_Error msg status w = Write (msg @ [CHR 0x0A]) (WriteHeader status w)"

datatype panic = ErrAbortHandler | PanicValue string

type_synonym http_handler = "HTTPRequest \<Rightarrow> response_writer \<Rightarrow> response_writer \<times> panic option"

subsection \<open>Recovering and logging\<close>

definition recoverer :: "http_handler \<Rightarrow> http_handler" where
  "recoverer next r w =
     (case next r w of
        (w1, None) \<Rightarrow> (w1, None)
      | (w1, Some ErrAbortHandler) \<Rightarrow> (w1, Some ErrAbortHandler)
      | (w1, Some (PanicValue rv)) \<Rightarrow> (http_Error ''server error'' 500 w1, None))"

datatype level = LevelInfo | LevelError

definition accessLogLevel :: "int \<Rightarrow> level" where
  "accessLogLevel status = (if status \<ge> 500 then LevelError else LevelInfo)"

record log_line =
  ll_level :: level
  ll_method :: string
  ll_path :: string
  ll_query :: string
  ll_status :: int
  ll_bytes :: nat

text \<open>The duration, the remote address and the user agent of a line are left out; a panic passes before the line is written.\<close>

definition accessLog :: "http_handler \<Rightarrow> HTTPRequest \<Rightarrow> response_writer \<Rightarrow> (response_writer \<times> panic option) \<times> log_line list" where
  "accessLog next r w =
     (case next r w of
        (w1, Some p) \<Rightarrow> ((w1, Some p), [])
      | (w1, None) \<Rightarrow>
          (let status = (if rw_Status w1 = 0 then 200 else rw_Status w1)
           in ((w1, None),
               [\<lparr>ll_level = accessLogLevel status, ll_method = r_Method r, ll_path = r_Path r, ll_query = redactQuery (r_RawQuery r),
                 ll_status = status, ll_bytes = length (rw_Written w1)\<rparr>])))"

subsection \<open>Streaming\<close>

text \<open>
  The connection: what the client has, what waits in the buffer, and the time at which a write fails (\<open>None\<close>: never).  A wrapper
  may support neither deadlines nor flushing, and either may fail; a write takes all of its bytes or none.
\<close>

record stream_conn =
  st_sent :: string
  st_buffer :: string
  st_deadline :: "int option"

datatype support = Supported | NotSupported | Fails

record streamWriter =
  sw_idle :: int
  sw_SetWriteDeadline :: support
  sw_Flush :: support

definition conn_Write :: "int \<Rightarrow> string \<Rightarrow> stream_conn \<Rightarrow> bool \<times> stream_conn" where
  "conn_Write now p c =
     (case st_deadline c of
        Some d \<Rightarrow> if now \<ge> d then (False, c) else (True, c\<lparr>st_buffer := st_buffer c @ p\<rparr>)
      | None \<Rightarrow> (True, c\<lparr>st_buffer := st_buffer c @ p\<rparr>))"

definition conn_Flush :: "stream_conn \<Rightarrow> stream_conn" where
  "conn_Flush c = c\<lparr>st_sent := st_sent c @ st_buffer c, st_buffer := []\<rparr>"

definition stream_Write :: "streamWriter \<Rightarrow> int \<Rightarrow> string \<Rightarrow> stream_conn \<Rightarrow> bool \<times> stream_conn" where
  "stream_Write sw now p c =
     (case conn_Write now p c of
        (False, c1) \<Rightarrow> (False, c1)
      | (True, c1) \<Rightarrow>
          (if p = [] then (True, c1)
           else (let derr = (sw_idle sw > 0 \<and> sw_SetWriteDeadline sw = Fails);
                     c2 = (if sw_idle sw > 0 \<and> sw_SetWriteDeadline sw = Supported then c1\<lparr>st_deadline := Some (now + sw_idle sw)\<rparr> else c1);
                     ferr = (sw_Flush sw = Fails);
                     c3 = (if sw_Flush sw = Supported then conn_Flush c2 else c2)
                 in (\<not> derr \<and> \<not> ferr, c3))))"

text \<open>\<^verbatim>\<open>io.Copy\<close>: the chunks with the times at which they arrive; the first failing write ends it.\<close>

fun stream_copy :: "streamWriter \<Rightarrow> (int \<times> string) list \<Rightarrow> stream_conn \<Rightarrow> bool \<times> stream_conn" where
  "stream_copy sw [] c = (True, c)"
| "stream_copy sw ((now, p) # chunks) c =
     (case stream_Write sw now p c of
        (False, c1) \<Rightarrow> (False, c1)
      | (True, c1) \<Rightarrow> stream_copy sw chunks c1)"

section \<open>One line per request\<close>

text \<open>
  Unless a handler aborts the response, the request is logged once, with the status the client sees; a panic before any
  output is a 500, logged as an error.
\<close>

theorem logged_once:
  assumes "snd (next r w) \<noteq> Some ErrAbortHandler"
  shows "\<exists>w1 line. accessLog (recoverer next) r w = ((w1, None), [line])
    \<and> ll_status line = (if rw_Status w1 = 0 then 200 else rw_Status w1)
    \<and> ll_query line = redactQuery (r_RawQuery r)
    \<and> (\<forall>rv. snd (next r w) = Some (PanicValue rv) \<longrightarrow> rw_Status (fst (next r w)) = 0
          \<longrightarrow> ll_status line = 500 \<and> ll_level line = LevelError)"
proof -
  obtain w0 res where nx: "next r w = (w0, res)" by (cases "next r w")
  then consider "res = None" | rv where "res = Some (PanicValue rv)"
    using assms by (metis option.exhaust panic.exhaust snd_conv)
  then show ?thesis
    by cases (use nx in \<open>auto simp: accessLog_def recoverer_def http_Error_def Write_def WriteHeader_def accessLogLevel_def Let_def\<close>)
qed

theorem logged_once_witness:
  "\<exists>w1 line. accessLog (recoverer (\<lambda>r w. (w, Some (PanicValue ''boom'')))) ex_request \<lparr>rw_Status = 0, rw_Written = []\<rparr> = ((w1, None), [line])
     \<and> ll_status line = 500 \<and> ll_level line = LevelError"
  using logged_once [of "\<lambda>r w. (w, Some (PanicValue ''boom''))" ex_request "\<lparr>rw_Status = 0, rw_Written = []\<rparr>"] by auto

text \<open>A panic after the header was written is not a 500: client and log keep the status, and the message ends up in the body.\<close>

lemma late_panic_logged_as_success:
  "accessLog (recoverer (\<lambda>r w. (Write ''part'' w, Some (PanicValue ''boom'')))) r \<lparr>rw_Status = 0, rw_Written = []\<rparr>
     = ((w1, None), [line]) \<Longrightarrow>
   ll_status line = 200 \<and> ll_level line = LevelInfo \<and> rw_Written w1 = ''partserver error'' @ [CHR 0x0A]"
  by (auto simp: accessLog_def recoverer_def http_Error_def Write_def WriteHeader_def accessLogLevel_def Let_def)

section \<open>Streams live as long as they progress\<close>

text \<open>Every chunk arrives before the deadline in force: the previous chunk's time plus the idle window.\<close>

fun in_time :: "int \<Rightarrow> int \<Rightarrow> (int \<times> string) list \<Rightarrow> bool" where
  "in_time idle d [] \<longleftrightarrow> True"
| "in_time idle d ((now, p) # chunks) \<longleftrightarrow> now < d \<and> p \<noteq> [] \<and> in_time idle (now + idle) chunks"

lemma stream_Write_ok:
  assumes "st_deadline c = Some d" "now < d" "p \<noteq> []" "sw_idle sw > 0" "sw_SetWriteDeadline sw = Supported" "sw_Flush sw = Supported" "st_buffer c = []"
  shows "stream_Write sw now p c = (True, c\<lparr>st_sent := st_sent c @ p, st_deadline := Some (now + sw_idle sw)\<rparr>)"
  using assms by (cases c) (simp add: stream_Write_def conn_Write_def conn_Flush_def Let_def)

text \<open>
  However long a stream takes, as long as no gap is longer than the idle window it is relayed whole, and nothing of it
  is held back.
\<close>

theorem stream_outlives_deadline:
  assumes "sw_idle sw > 0" "sw_SetWriteDeadline sw = Supported" "sw_Flush sw = Supported"
    and "st_deadline c = Some d" "st_buffer c = []" "in_time (sw_idle sw) d chunks"
  shows "\<exists>c'. stream_copy sw chunks c = (True, c') \<and> st_sent c' = st_sent c @ concat (map snd chunks) \<and> st_buffer c' = []"
  using assms(4-6)
proof (induction chunks arbitrary: c d)
  case (Cons ch chunks)
  obtain now p where ch: "ch = (now, p)" by (cases ch)
  let ?c = "c\<lparr>st_sent := st_sent c @ p, st_deadline := Some (now + sw_idle sw)\<rparr>"
  have "stream_Write sw now p c = (True, ?c)"
    using stream_Write_ok [OF Cons.prems(1) _ _ assms(1-3) Cons.prems(2)] Cons.prems(3) ch by simp
  with Cons.IH [of ?c "now + sw_idle sw"] Cons.prems ch show ?case by auto
qed simp

theorem stream_outlives_deadline_witness:
  "\<exists>c'. stream_copy \<lparr>sw_idle = 30, sw_SetWriteDeadline = Supported, sw_Flush = Supported\<rparr> [(20, ''a''), (45, ''b''), (70, ''c'')]
          \<lparr>st_sent = [], st_buffer = [], st_deadline = Some 30\<rparr> = (True, c') \<and> st_sent c' = ''abc''"
  using stream_outlives_deadline [of "\<lparr>sw_idle = 30, sw_SetWriteDeadline = Supported, sw_Flush = Supported\<rparr>"
      "\<lparr>st_sent = [], st_buffer = [], st_deadline = Some 30\<rparr>" 30 "[(20, ''a''), (45, ''b''), (70, ''c'')]"] by auto

text \<open>A client that stalls for longer than the window ends the stream.\<close>

lemma stalled_stream_ends:
  "st_deadline c = Some d \<Longrightarrow> d \<le> now \<Longrightarrow> stream_copy sw ((now, p) # chunks) c = (False, c)"
  by (simp add: stream_Write_def conn_Write_def)

end
