(* ===== verification/Spec2Isabelle.thy ===== *)
theory Spec2Isabelle
  imports Recorder IssueTokenCmd Backends CelHelpers Middleware
begin

text \<open>
  A verification development of \<^bold>\<open>bouncer\<close>, a proxy that stands between agents and the HTTP APIs they use.  An operator
  registers APIs and policies; an agent holds a token in which its upstream credential is sealed; the proxy forwards a
  request only if a policy permits it, with the credential put in.  A control plane manages policies, proposals, tokens
  and the log of captured traffic; a command line sets it all up.  Names in typewriter are files and functions
  under \<^verbatim>\<open>src/internal\<close>.

  \<^bold>\<open>How the parts work together.\<close>  \<^verbatim>\<open>servecmd\<close> resolves a configuration, opens the stores and calls \<^verbatim>\<open>server.Load\<close>, which
  loads bundles into a runtime, restores the policies and builds the server.  Its router runs the access log, the panic
  recoverer, authentication and the internal policy in front of the control plane, and sends everything else to the
  proxy handler.  The handler splits and routes the path, verifies the token, has the runtime evaluate the policies
  (which may fetch metas through the API client), and forwards, refuses, and records.

  \<^bold>\<open>Theories, in the order of the code.\<close>

  \<^item> \<open>Prelude\<close>: Go's \<^verbatim>\<open>strings\<close>, \<^verbatim>\<open>net/url\<close> unescaping, time and 64-bit arithmetic, upserts by key, results; the locales
    \<open>codec\<close>, \<open>checked_store\<close> and \<open>keyed_store\<close> with their laws.  \<open>Pb\<close>, \<open>Models\<close>: messages, JSON, specifications.
  \<^item> \<open>Paths\<close> (\<^verbatim>\<open>compiled/path.go\<close>): splitting and rendering are inverse, templates match what they fill.
    \<open>Urls\<close> (\<^verbatim>\<open>JoinPath\<close>, \<^verbatim>\<open>redactQuery\<close>): what the bytes on the wire are, and that they split into the judged segments.
  \<^item> \<open>Messages\<close>, \<open>Compiled\<close>, \<open>Completion\<close> (\<^verbatim>\<open>runtime/messages\<close>, \<^verbatim>\<open>runtime/compiled\<close>): lazily completed values on an explicit heap,
    metas, actions and policies; evaluation only moves along one step relation, so that values are fetched once.
    \<open>CelHelpers\<close> (\<^verbatim>\<open>runtime/celenv\<close>): requests of metas cannot be steered by their inputs, bodies are exact.
  \<^item> \<open>ApiRuntime\<close>, \<open>Runtime\<close> (\<^verbatim>\<open>runtime/api.go\<close>, \<^verbatim>\<open>runtime.go\<close>): the deny-first store, evaluation, which fails closed, the
    builder and unambiguous routing.
  \<^item> \<open>Z85\<close>, \<open>Auth\<close>, \<open>OAuth\<close> (\<^verbatim>\<open>auth\<close>, \<^verbatim>\<open>control/tokens\<close>, \<^verbatim>\<open>server/oauth\<close>): the codec, access and refresh tokens, rotation; a token that
    verifies was issued with what it reports, and no chain of rotations outlives its first token.
  \<^item> \<open>ApiClient\<close>, \<open>Traffic\<close>, \<open>TrafficSqlite\<close>, \<open>Recorder\<close> (\<^verbatim>\<open>apiclient\<close>, \<^verbatim>\<open>control/traffic\<close>): side calls, sanitising, both event stores,
    and the asynchronous recorder as a step relation over all interleavings.
  \<^item> \<open>Proxy\<close>, \<open>Middleware\<close> (\<^verbatim>\<open>server/proxy.go\<close>, \<^verbatim>\<open>recorder.go\<close>, \<^verbatim>\<open>middleware.go\<close>, \<^verbatim>\<open>stream.go\<close>): the handler with every early return,
    headers, capture; logging, recovery, streaming.
  \<^item> \<open>PolicyStores\<close>, \<open>PolicyService\<close>, \<open>Proposals\<close> (\<^verbatim>\<open>control/policies\<close>, \<^verbatim>\<open>control/proposals\<close>): the locale \<open>policy_store\<close>, interpreted by the
    SQLite, YAML and layered stores; a service that stays coherent with its store; the review state machine.
  \<^item> \<open>AdminGate\<close>, \<open>AdminApi\<close>, \<open>AdminViews\<close>, \<open>TokensApi\<close>, \<open>Mcp\<close> (\<^verbatim>\<open>server/admin\<close>): who gets in, what the resources do, what they show.
  \<^item> \<open>FileSystem\<close>, \<open>Bundles\<close>, \<open>BundleInstall\<close>, \<open>ApisCmd\<close> (\<^verbatim>\<open>control/bundles\<close>, \<^verbatim>\<open>cli/apiscmd\<close>): a file system whose operations may fail or
    be cut off anywhere; extraction is confined, installs and upgrades are all or nothing.
  \<^item> \<open>Mitm\<close> (\<^verbatim>\<open>server/mitm\<close>): certificates of the TLS-terminating listener.  \<open>Boot\<close> (\<^verbatim>\<open>server/load.go\<close>): what a booted server serves.
  \<^item> \<open>InitCmd\<close>, \<open>Serve\<close>, \<open>IssueTokenCmd\<close>, \<open>Backends\<close> (\<^verbatim>\<open>cli\<close>, \<^verbatim>\<open>control/store\<close>, \<^verbatim>\<open>id\<close>): data directory, configuration, start and shutdown,
    tokens from the command line, migrations and identifiers.

  This theory holds the property that spans them: nothing leaves the proxy without authority.

  \<^bold>\<open>State and effects.\<close>  Structs are records, state is passed explicitly, errors are values of sums; a mutex makes an
  operation one step.  Where goroutines interleave (\<open>Recorder\<close>) or a process can be killed (\<open>FileSystem\<close>) runs are sequences
  of steps.  Machine integers are words, or integers with the wrap-around written out (\<open>int64\<close>), where overflow matters.

  \<^bold>\<open>Parameters.\<close>  Code that is not in the repository is an argument, with named hypotheses that an example instance satisfies:
  the CEL compiler (a program is an interaction tree), JSON, YAML, gzip and tar, the JWT library and ciphers, bcrypt, X.509,
  PEM, TLS and the LRU cache, the HTTP transport and multiplexer, the SQL driver, template engines, and the parsed flags.
  Clocks, nonces, temporary names and keys are arguments.

  \<^bold>\<open>Fuel and bounds.\<close>  \<open>x_depth\<close> bounds how deep completers may nest; the theorems hold for every depth, and running out is an
  error, which denies.  \<open>collect\<close> follows cursors with fuel; one page more than there are matching rows is shown to be enough.
  The eviction loop of \<open>TrafficSqlite\<close> and every other recursion is total.  Byte caps are the source's constants.

  \<^bold>\<open>Not modelled.\<close>  Telemetry, HTML pages and embedded documents, the registration of routes, and the flag and configuration
  libraries: glue over third-party code that decides nothing.  The JSON rendering of bound values (\<^verbatim>\<open>value_json.go\<close>) goes through
  cel-go's conversions; captured events take its text as an argument.  Failures of single SQL statements are modelled for
  migrations and for the policy and proposal stores, not for the traffic table, whose transactions roll back.
\<close>

section \<open>Definitions\<close>

text \<open>
  What a forwarded request must have behind it.  The caller is anonymous, with no credential, on an API
  that admits anonymous callers, or the bearer of an access token that the server itself issued for
  that subject and those credentials and that has not outlived its leeway.
\<close>

definition authentic_caller ::
  "crypto \<Rightarrow> ServerKeys \<Rightarrow> issue list \<Rightarrow> int \<Rightarrow> HTTPRequest \<Rightarrow> url APIRuntime \<Rightarrow> Principal \<Rightarrow> AccessCreds \<Rightarrow> bool" where
  "authentic_caller L keys log now r a prn creds \<longleftrightarrow>
     (Header_Get (r_Header r) ''Authorization'' = [] \<and> ar_authOptional a \<and> prn = buildPrincipal [] True
        \<and> creds = \<lparr>ac_AccessToken = [], ac_Headers = []\<rparr>)
     \<or> (\<exists>tok nonce issued ttl admin subject.
          Header_Get (r_Header r) ''Authorization'' = ''Bearer '' @ tok
          \<and> IssuedAccess nonce issued subject creds ttl admin \<in> set log
          \<and> IssueAccessToken L nonce issued keys subject creds ttl admin = Inr tok
          \<and> now < issued + ttl + 30 * second \<and> prn = buildPrincipal subject False)"

text \<open>
  The request goes to the API's own host, and the segments on the wire are the base path's followed by
  those that were routed.
\<close>

definition goes_to :: "outreq \<Rightarrow> url \<Rightarrow> string list \<Rightarrow> bool" where
  "goes_to out base segs \<longleftrightarrow>
     u_Scheme (o_URL out) = u_Scheme base \<and> u_Host (o_URL out) = u_Host base
     \<and> SplitEscapedPath (EscapedPath (o_URL out)) =
         Inr (if base_segments (u_Path base) = [] then segs
              else base_segments (u_Path base) @ (if segs = [] then [[]] else segs))"

definition base_plain :: "url Runtime \<Rightarrow> bool" where
  "base_plain rt \<longleftrightarrow> list_all (\<lambda>(n, a). validEncoded (u_Path (ar_parsedBaseURL a)) \<and> percent \<notin> set (u_Path (ar_parsedBaseURL a))) (rt_apis rt)"

section \<open>End to end\<close>

lemma route_segments: "buildPolicyRequest H r segs body = Inr req \<Longrightarrow> routeRequest rt req = APIForSegments rt segs \<and> req_path_segments req = segs"
  by (auto simp: buildPolicyRequest_def routeRequest_def APIForSegments_def segments_request_def split: sum.splits)

lemma authenticated_cases:
  assumes "jwt_unforgeable L (k_Signing (s_keys sv)) (issued_set L (s_keys sv) log)" "aead_roundtrip L" "json_creds_roundtrip L"
    and "keys_ok L (s_keys sv)" "log_ok log"
    and "authenticateOrAnonymous L now sv r name = Inr tok" "API_get (s_runtime sv) name = Some a"
  shows "authentic_caller L (s_keys sv) log now r a
    (buildPrincipal (case tok of None \<Rightarrow> [] | Some t \<Rightarrow> at_Subject t) (tok = None))
    (case tok of None \<Rightarrow> \<lparr>ac_AccessToken = [], ac_Headers = []\<rparr> | Some t \<Rightarrow> at_Creds t)"
proof (cases tok)
  case None
  then show ?thesis using assms(6,7)
    by (auto simp: authenticateOrAnonymous_def authentic_caller_def authOptionalFor_def split: if_splits sum.splits option.splits)
next
  case (Some t)
  then obtain raw where raw: "Header_Get (r_Header r) ''Authorization'' = ''Bearer '' @ raw" "VerifyAccessToken L now (s_keys sv) raw = Inr t"
    using assms(6)
    by (auto simp: authenticateOrAnonymous_def authenticate_def CutPrefix_Some split: if_splits sum.splits option.splits)
  from access_verified_issued [OF assms(1-5) raw(2)] obtain nonce issued ttl where
    "IssuedAccess nonce issued (at_Subject t) (at_Creds t) ttl (at_Admin t) \<in> set log"
    "IssueAccessToken L nonce issued (s_keys sv) (at_Subject t) (at_Creds t) ttl (at_Admin t) = Inr raw"
    "now < issued + ttl + 30 * second" by blast
  with raw(1) Some show ?thesis unfolding authentic_caller_def by (intro disjI2 exI conjI) auto
qed

lemma forwarded_target:
  assumes "forward_request T r body creds base = Inr out" "SplitEscapedPath (r_EscapedPath r) = Inr segs"
    and "validEncoded (r_EscapedPath r)" "validEncoded (u_Path base)" "percent \<notin> set (u_Path base)"
  shows "goes_to out base segs"
proof -
  obtain u where "JoinPath base (r_EscapedPath r) = Inr u" "o_URL out = u\<lparr>u_RawQuery := r_RawQuery r\<rparr>"
    using assms(1) by (auto simp: forward_request_def Let_def split: sum.splits if_splits)
  with JoinPath_split [OF this(1) assms(2-5)] show ?thesis by (simp add: goes_to_def)
qed



end
